(* ===== verification/Js_Prelude.thy ===== *)
theory Js_Prelude
  imports Complex_Main "HOL-Library.AList" "HOL-Library.Multiset" "HOL-Library.List_Lexorder" "HOL-Library.Char_ord"
begin

text \<open>
  The JavaScript runtime facts every component shares.

  Numbers are exact rationals (the code's doubles without their representation error) and
  counts are \<open>int\<close> or \<open>nat\<close>; \<open>undefined\<close> and \<open>null\<close> are \<open>None\<close>; strings are character lists
  compared by code unit (\<open>List_Lexorder\<close> over \<open>Char_ord\<close>), which is what \<open><\<close> and the default
  \<open>sort()\<close> do.  The section holds \<open>Math.round\<close>, the \<open>a || b\<close> of numeric comparators, the
  stable \<open>Array.prototype.sort\<close>, \<open>new Set(xs)\<close> and the insertion-ordered \<open>Map\<close> (an
  association list updated by \<open>AList.update\<close>, which keeps a key's first position exactly as
  \<open>Map.set\<close> does).  The locale \<open>comparator\<close> states what a comparator owes \<open>sort\<close>; the locale
  \<open>collation\<close> states what \<open>localeCompare\<close>, whose tables are not part of the repository, owes
  the code that sorts with it.
\<close>

named_theorems js_sort_simps \<open>set, multiset and length facts about the runtime's list functions\<close>
named_theorems model_defs \<open>definitions unfolded to evaluate a closed term of the model\<close>

section \<open>Numbers\<close>

definition js_round :: "rat \<Rightarrow> int" where
  \<comment> \<open>\<open>Math.round\<close>: nearest integer, halves towards plus infinity\<close>
  "js_round x = \<lfloor>x + 1 / 2\<rfloor>"

definition js_or :: "rat \<Rightarrow> rat \<Rightarrow> rat" where
  \<comment> \<open>\<open>a || b\<close> on numbers: the right side when the left one is zero\<close>
  "js_or a b = (if a \<noteq> 0 then a else b)"

definition truthy_num :: "rat option \<Rightarrow> bool" where
  \<comment> \<open>a nullable number as a condition: neither absent nor zero\<close>
  "truthy_num v = (case v of None \<Rightarrow> False | Some x \<Rightarrow> x \<noteq> 0)"

section \<open>Arrays, sets and maps\<close>

definition js_nth :: "'a list \<Rightarrow> nat \<Rightarrow> 'a option" where
  \<comment> \<open>indexing: \<open>undefined\<close> out of range\<close>
  "js_nth xs i = (if i < length xs then Some (xs ! i) else None)"

fun js_insert :: "('a \<Rightarrow> 'a \<Rightarrow> rat) \<Rightarrow> 'a \<Rightarrow> 'a list \<Rightarrow> 'a list" where
  "js_insert cmp x [] = [x]"
| "js_insert cmp x (y # ys) = (if cmp x y < 0 then x # y # ys else y # js_insert cmp x ys)"

definition js_sort :: "('a \<Rightarrow> 'a \<Rightarrow> rat) \<Rightarrow> 'a list \<Rightarrow> 'a list" where
  \<comment> \<open>the stable sort: each element goes after everything it does not precede\<close>
  "js_sort cmp xs = foldl (\<lambda>acc x. js_insert cmp x acc) [] xs"

definition js_set :: "'a list \<Rightarrow> 'a list" where
  \<comment> \<open>\<open>[...new Set(xs)]\<close>: first occurrences, in order\<close>
  "js_set xs = foldl (\<lambda>acc x. if x \<in> set acc then acc else acc @ [x]) [] xs"

definition js_get :: "('k \<times> 'v) list \<Rightarrow> 'k \<Rightarrow> 'v option" where
  "js_get m k = map_of m k"

definition js_push :: "'k \<Rightarrow> 'v \<Rightarrow> ('k \<times> 'v list) list \<Rightarrow> ('k \<times> 'v list) list" where
  \<comment> \<open>\<open>m.set(k, [...(m.get(k) ?? []), v])\<close>\<close>
  "js_push k v m = AList.update k ((case js_get m k of None \<Rightarrow> [] | Some vs \<Rightarrow> vs) @ [v]) m"

definition js_group_by :: "('a \<Rightarrow> 'k) \<Rightarrow> 'a list \<Rightarrow> ('k \<times> 'a list) list" where
  "js_group_by f xs = foldl (\<lambda>m x. js_push (f x) x m) [] xs"

fun js_chunks :: "nat \<Rightarrow> nat \<Rightarrow> 'a list \<Rightarrow> 'a list list" where
  \<comment> \<open>\<open>Array.from({length: n}, (_, i) => xs.slice(i * size, (i + 1) * size))\<close>\<close>
  "js_chunks 0 k xs = []"
| "js_chunks (Suc n) k xs = take k xs # js_chunks n k (drop k xs)"

definition chunkify :: "nat \<Rightarrow> 'a list \<Rightarrow> 'a list list" where
  \<comment> \<open>\<open>ArrayUtils.chunkify\<close>\<close>
  "chunkify k xs = js_chunks ((length xs + k - 1) div k) k xs"

definition js_index :: "('a \<Rightarrow> 'k) \<Rightarrow> 'a list \<Rightarrow> ('k \<times> 'a) list" where
  \<comment> \<open>\<open>new Map(xs.map((x) => [f(x), x]))\<close>: the last of each key, at the first one's place\<close>
  "js_index f xs = foldl (\<lambda>m x. AList.update (f x) x m) [] xs"

section \<open>Facts about arrays, sets and maps\<close>

lemma mset_js_insert [js_sort_simps]: "mset (js_insert cmp x ys) = add_mset x (mset ys)"
  by (induction ys) auto

lemma set_js_insert: "set (js_insert cmp x ys) = insert x (set ys)"
  by (induction ys) auto

lemma mset_js_sort [js_sort_simps]: "mset (js_sort cmp xs) = mset xs"
proof -
  have "mset (foldl (\<lambda>acc x. js_insert cmp x acc) acc xs) = mset acc + mset xs" for acc
    by (induction xs arbitrary: acc) (auto simp: mset_js_insert)
  then show ?thesis by (simp add: js_sort_def)
qed

lemma set_js_sort [js_sort_simps, simp]: "set (js_sort cmp xs) = set xs"
  by (metis mset_js_sort set_mset_mset)

lemma length_js_sort [js_sort_simps, simp]: "length (js_sort cmp xs) = length xs"
  by (metis mset_js_sort size_mset)

lemma js_sort_Nil [simp]: "js_sort cmp [] = []"
  by (simp add: js_sort_def)

lemma js_sort_eq_Nil [simp]: "(js_sort cmp xs = []) = (xs = [])"
  by (metis length_0_conv length_js_sort)

lemma distinct_js_sort: "distinct (js_sort cmp xs) = distinct xs"
  by (metis mset_js_sort mset_eq_imp_distinct_iff)

lemma js_insert_map:
  "(\<And>x y. cmp (f x) (f y) = cmp' x y) \<Longrightarrow> map f (js_insert cmp' x ys) = js_insert cmp (f x) (map f ys)"
  by (induction ys) auto

lemma js_sort_map:
  assumes "\<And>x y. cmp (f x) (f y) = cmp' x y"
  shows "js_sort cmp (map f xs) = map f (js_sort cmp' xs)"
proof -
  have "foldl (\<lambda>acc x. js_insert cmp x acc) (map f acc) (map f xs)
      = map f (foldl (\<lambda>acc x. js_insert cmp' x acc) acc xs)" for acc
    by (induction xs arbitrary: acc) (simp_all add: js_insert_map [where cmp = cmp and cmp' = cmp', OF assms, symmetric])
  from this [of "[]"] show ?thesis by (simp add: js_sort_def)
qed

lemma js_insert_map_on:
  "(\<And>y. y \<in> set ys \<Longrightarrow> cmp (f x) (f y) = cmp' x y) \<Longrightarrow>
   map f (js_insert cmp' x ys) = js_insert cmp (f x) (map f ys)"
  by (induction ys) auto

lemma js_sort_map_on:
  assumes "\<And>x y. x \<in> set xs \<Longrightarrow> y \<in> set xs \<Longrightarrow> cmp (f x) (f y) = cmp' x y"
  shows "js_sort cmp (map f xs) = map f (js_sort cmp' xs)"
proof -
  have "foldl (\<lambda>acc x. js_insert cmp x acc) (map f acc) (map f ys)
      = map f (foldl (\<lambda>acc x. js_insert cmp' x acc) acc ys)"
    if "set acc \<subseteq> set xs" and "set ys \<subseteq> set xs" for acc ys
    using that
  proof (induction ys arbitrary: acc)
    case Nil
    then show ?case by simp
  next
    case (Cons y ys)
    have "map f (js_insert cmp' y acc) = js_insert cmp (f y) (map f acc)"
      using Cons.prems assms by (intro js_insert_map_on) auto
    moreover have "set (js_insert cmp' y acc) \<subseteq> set xs"
      using Cons.prems by (metis insert_subset list.simps(15) mset.simps(2) mset_js_insert set_mset_mset)
    ultimately show ?case using Cons.IH [of "js_insert cmp' y acc"] Cons.prems by auto
  qed
  from this [of "[]" xs] show ?thesis by (simp add: js_sort_def)
qed

lemma js_set_aux:
  assumes "distinct acc"
  shows "set (foldl (\<lambda>acc x. if x \<in> set acc then acc else acc @ [x]) acc xs) = set acc \<union> set xs"
    and "distinct (foldl (\<lambda>acc x. if x \<in> set acc then acc else acc @ [x]) acc xs)"
  using assms by (induction xs arbitrary: acc) auto

lemma set_js_set [js_sort_simps, simp]: "set (js_set xs) = set xs"
  using js_set_aux(1) [of "[]" xs] by (simp add: js_set_def)

lemma distinct_js_set [simp]: "distinct (js_set xs)"
  using js_set_aux(2) [of "[]" xs] by (simp add: js_set_def)

lemma js_get_update: "js_get (AList.update k v m) j = (if j = k then Some v else js_get m j)"
  by (simp add: js_get_def update_conv)

lemma js_index_aux: "js_get (foldl (\<lambda>m x. AList.update (f x) x m) m xs) k =
    (case find (\<lambda>x. f x = k) (rev xs) of None \<Rightarrow> js_get m k | Some x \<Rightarrow> Some x)"
proof (induction xs rule: rev_induct)
  case Nil
  then show ?case by simp
next
  case (snoc x xs)
  then show ?case by (simp add: js_get_update)
qed

lemma js_get_index: "js_get (js_index f xs) k = find (\<lambda>x. f x = k) (rev xs)"
  using js_index_aux [of f "[]" xs k] by (simp add: js_index_def js_get_def split: option.splits)

lemma js_index_keys: "set (map fst (js_index f xs)) = f ` set xs" and distinct_js_index: "distinct (map fst (js_index f xs))"
proof -
  have "set (map fst (js_index f xs)) = f ` set xs \<and> distinct (map fst (js_index f xs))"
    by (induction xs rule: rev_induct) (auto simp: js_index_def update_keys)
  then show "set (map fst (js_index f xs)) = f ` set xs" "distinct (map fst (js_index f xs))" by simp_all
qed

lemma js_index_member: "(k, x) \<in> set (js_index f xs) \<longleftrightarrow> find (\<lambda>x. f x = k) (rev xs) = Some x"
  by (simp add: js_get_index [symmetric] js_get_def map_of_eq_Some_iff distinct_js_index)

lemma js_index_value: "(k, x) \<in> set (js_index f xs) \<Longrightarrow> x \<in> set xs \<and> f x = k"
  by (auto simp: js_index_member find_Some_iff rev_nth)

lemma js_get_push:
  "js_get (js_push k v m) j =
     (if j = k then Some ((case js_get m k of None \<Rightarrow> [] | Some vs \<Rightarrow> vs) @ [v]) else js_get m j)"
  by (simp add: js_push_def js_get_update)

lemma keys_js_push:
  "map fst (js_push k v m) = (if k \<in> set (map fst m) then map fst m else map fst m @ [k])"
  by (simp add: js_push_def update_keys)

lemma filter_key_Nil: "k \<notin> f ` set xs \<Longrightarrow> filter (\<lambda>x. f x = k) xs = []"
  by (auto simp: filter_empty_conv)

lemma js_group_by_aux:
  fixes f :: "'a \<Rightarrow> 'k"
  shows "js_get (foldl (\<lambda>m x. js_push (f x) x m) m xs) k =
     (if k \<in> f ` set xs
      then Some ((case js_get m k of None \<Rightarrow> [] | Some vs \<Rightarrow> vs) @ filter (\<lambda>x. f x = k) xs)
      else js_get m k)"
  by (induction xs arbitrary: m) (auto simp: js_get_push filter_key_Nil split: option.splits)

lemma js_get_group_by:
  "js_get (js_group_by f xs) k = (if k \<in> f ` set xs then Some (filter (\<lambda>x. f x = k) xs) else None)"
  using js_group_by_aux [of f "[]" xs k] by (simp add: js_group_by_def js_get_def)

lemma distinct_keys_group_by: "distinct (map fst (js_group_by f xs))"
proof -
  have "distinct (map fst m) \<Longrightarrow> distinct (map fst (foldl (\<lambda>m x. js_push (f x) x m) m xs))" for m
  proof (induction xs arbitrary: m)
    case Nil
    then show ?case by simp
  next
    case (Cons x xs)
    have "distinct (map fst (js_push (f x) x m))"
      using Cons.prems by (auto simp: keys_js_push)
    with Cons.IH show ?case by simp
  qed
  then show ?thesis by (simp add: js_group_by_def)
qed

lemma js_group_by_iff:
  "(k, g) \<in> set (js_group_by f xs) \<longleftrightarrow> k \<in> f ` set xs \<and> g = filter (\<lambda>x. f x = k) xs"
proof -
  have "(k, g) \<in> set (js_group_by f xs) \<longleftrightarrow> js_get (js_group_by f xs) k = Some g"
    by (simp add: js_get_def map_of_eq_Some_iff distinct_keys_group_by)
  then show ?thesis by (auto simp: js_get_group_by)
qed

lemma keys_js_group_by: "set (map fst (js_group_by f xs)) = f ` set xs"
proof -
  have "set (map fst (js_group_by f xs)) = {k. \<exists>g. (k, g) \<in> set (js_group_by f xs)}"
    by force
  then show ?thesis by (auto simp: js_group_by_iff)
qed

lemma js_group_by_conv:
  "js_group_by f xs = map (\<lambda>k. (k, filter (\<lambda>x. f x = k) xs)) (map fst (js_group_by f xs))"
proof -
  have "(fst p, filter (\<lambda>x. f x = fst p) xs) = p" if "p \<in> set (js_group_by f xs)" for p
    using that js_group_by_iff [of "fst p" "snd p" f xs] by (metis prod.collapse)
  then show ?thesis by (simp add: map_idI)
qed

lemma group_by_values_nonempty: "g \<in> set (map snd (js_group_by f xs)) \<Longrightarrow> g \<noteq> []"
  by (auto simp: js_group_by_iff filter_empty_conv)

lemma alist_update_map: "AList.update k (F v) (map (apsnd F) m) = map (apsnd F) (AList.update k v m)"
  by (induction m) auto

lemma js_group_by_map:
  fixes h :: "'a \<Rightarrow> 'c" and g :: "'a \<Rightarrow> 'b"
  assumes "\<And>x. f (h x) = g x"
  shows "js_group_by f (map h xs) = map (apsnd (map h)) (js_group_by g xs)"
proof -
  have "js_get (map (apsnd (map h)) m) k = map_option (map h) (js_get m k)" for m :: "('b \<times> 'a list) list" and k
    by (induction m) (auto simp: js_get_def)
  then have "js_push k (h v) (map (apsnd (map h)) m) = map (apsnd (map h)) (js_push k v m)"
    for k :: 'b and v :: 'a and m
    by (cases "js_get m k") (simp_all add: js_push_def flip: alist_update_map)
  then have "foldl (\<lambda>m x. js_push (f x) x m) (map (apsnd (map h)) m) (map h xs)
      = map (apsnd (map h)) (foldl (\<lambda>m x. js_push (g x) x m) m xs)"
    for m :: "('b \<times> 'a list) list"
    by (induction xs arbitrary: m) (simp_all add: assms)
  from this [of "[]"] show ?thesis by (simp add: js_group_by_def)
qed

lemma group_by_values_conv:
  "map snd (js_group_by f xs) = map (\<lambda>k. filter (\<lambda>x. f x = k) xs) (map fst (js_group_by f xs))"
  using arg_cong [OF js_group_by_conv, where f = "map snd"] by (simp add: comp_def)

lemma mset_group_keys_perm:
  assumes "set xs = set ys"
  shows "mset (map fst (js_group_by f xs)) = mset (map fst (js_group_by f ys))"
proof -
  have "set (map fst (js_group_by f xs)) = set (map fst (js_group_by f ys))"
    by (simp only: keys_js_group_by assms)
  then show ?thesis by (simp only: set_eq_iff_mset_eq_distinct distinct_keys_group_by)
qed

lemma mset_group_by_perm:
  assumes "mset xs = mset ys"
    and "\<And>k. F (filter (\<lambda>x. f x = k) xs) = F (filter (\<lambda>x. f x = k) ys)"
  shows "mset (map F (map snd (js_group_by f xs))) = mset (map F (map snd (js_group_by f ys)))"
proof -
  have "mset (map fst (js_group_by f xs)) = mset (map fst (js_group_by f ys))"
    using assms(1) by (intro mset_group_keys_perm) (metis set_mset_mset)
  then have "image_mset (\<lambda>k. F (filter (\<lambda>x. f x = k) ys)) (mset (map fst (js_group_by f xs)))
      = image_mset (\<lambda>k. F (filter (\<lambda>x. f x = k) ys)) (mset (map fst (js_group_by f ys)))"
    by simp
  then show ?thesis
    by (simp add: group_by_values_conv assms(2) comp_def image_mset.compositionality)
qed

lemma mset_concat_filters:
  assumes "distinct ks" and "f ` set xs \<subseteq> set ks"
  shows "mset (concat (map (\<lambda>k. filter (\<lambda>x. f x = k) xs) ks)) = mset xs"
  using assms(2)
proof (induction xs)
  case Nil
  then show ?case by (induction ks) auto
next
  case (Cons x xs)
  have "mset (concat (map (\<lambda>k. filter (\<lambda>y. f y = k) (x # xs)) ks))
      = add_mset x (mset (concat (map (\<lambda>k. filter (\<lambda>y. f y = k) xs) ks)))"
    if "distinct ks" "f x \<in> set ks" for ks
    using that
  proof (induction ks)
    case Nil
    then show ?case by simp
  next
    case (Cons k ks)
    show ?case
    proof (cases "f x = k")
      case True
      then have "map (\<lambda>k. filter (\<lambda>y. f y = k) (x # xs)) ks = map (\<lambda>k. filter (\<lambda>y. f y = k) xs) ks"
        using Cons.prems by auto
      then show ?thesis by (simp only: list.map concat.simps mset_append) (simp add: True)
    next
      case False
      then show ?thesis using Cons.IH Cons.prems by simp
    qed
  qed
  then show ?case using Cons assms(1) by simp
qed

lemma mset_concat_group_by: "mset (concat (map snd (js_group_by f xs))) = mset xs"
  unfolding group_by_values_conv
  by (rule mset_concat_filters) (simp_all only: distinct_keys_group_by keys_js_group_by order_refl)

lemma concat_js_chunks: "length xs \<le> n * k \<Longrightarrow> concat (js_chunks n k xs) = xs"
proof (induction n k xs rule: js_chunks.induct)
  case (1 k xs)
  then show ?case by simp
next
  case (2 n k xs)
  then have "concat (js_chunks n k (drop k xs)) = drop k xs" by simp
  then show ?case by simp
qed

lemma concat_chunkify [simp]: "0 < k \<Longrightarrow> concat (chunkify k xs) = xs"
proof -
  assume k: "0 < k"
  have "length xs \<le> (length xs + k - 1) div k * k"
    using dividend_less_div_times [OF k, of "length xs + k - 1"] by linarith
  then show ?thesis by (simp add: chunkify_def concat_js_chunks)
qed

section \<open>Comparators\<close>

locale comparator =
  fixes cmp :: "'a \<Rightarrow> 'a \<Rightarrow> rat"
  assumes cmp_antisym: "(cmp x y < 0) = (0 < cmp y x)"
    and cmp_trans: "cmp x y \<le> 0 \<Longrightarrow> cmp y z \<le> 0 \<Longrightarrow> cmp x z \<le> 0"
begin

lemma cmp_total: "cmp x y \<le> 0 \<or> cmp y x \<le> 0"
  using cmp_antisym [of y x] by linarith

lemma cmp_not_less: "\<not> cmp x y < 0 \<Longrightarrow> cmp y x \<le> 0"
  using cmp_antisym [of x y] by linarith

lemma cmp_self: "cmp x x = 0"
  using cmp_antisym [of x x] by linarith

lemma cmp_zero_sym: "(cmp x y = 0) = (cmp y x = 0)"
  using cmp_antisym [of x y] cmp_antisym [of y x] by linarith

lemma sorted_js_insert:
  "sorted_wrt (\<lambda>a b. cmp a b \<le> 0) ys \<Longrightarrow> sorted_wrt (\<lambda>a b. cmp a b \<le> 0) (js_insert cmp x ys)"
proof (induction ys)
  case Nil
  then show ?case by simp
next
  case (Cons y ys)
  show ?case
  proof (cases "cmp x y < 0")
    case True
    then have "cmp x y \<le> 0" by simp
    with Cons.prems True show ?thesis by (auto intro: cmp_trans [of x y])
  next
    case False
    with Cons show ?thesis by (auto simp: set_js_insert cmp_not_less)
  qed
qed

lemma sorted_js_sort: "sorted_wrt (\<lambda>a b. cmp a b \<le> 0) (js_sort cmp xs)"
proof -
  have "sorted_wrt (\<lambda>a b. cmp a b \<le> 0) (foldl (\<lambda>acc x. js_insert cmp x acc) acc xs)"
    if "sorted_wrt (\<lambda>a b. cmp a b \<le> 0) acc" for acc
    using that by (induction xs arbitrary: acc) (auto simp: sorted_js_insert)
  then show ?thesis by (simp add: js_sort_def)
qed

lemma sorted_unique:
  assumes "mset xs = mset ys"
    and "sorted_wrt (\<lambda>a b. cmp a b \<le> 0) xs" and "sorted_wrt (\<lambda>a b. cmp a b \<le> 0) ys"
    and "\<And>a b. a \<in> set xs \<Longrightarrow> b \<in> set xs \<Longrightarrow> cmp a b = 0 \<Longrightarrow> a = b"
  shows "xs = ys"
  using assms
proof (induction xs arbitrary: ys)
  case Nil
  then show ?case by simp
next
  case (Cons x xs)
  obtain y ys' where ys: "ys = y # ys'"
    using Cons.prems(1) by (cases ys) auto
  have sets: "set (x # xs) = set (y # ys')"
    using Cons.prems(1) ys by (metis mset_eq_setD)
  have "cmp x y \<le> 0 \<and> cmp y x \<le> 0"
    using Cons.prems(2,3) sets ys cmp_self by (metis list.set_intros(1) order_refl set_ConsD sorted_wrt.simps(2))
  then have "cmp x y = 0"
    using cmp_antisym [of x y] cmp_antisym [of y x] by linarith
  then have "x = y"
    using Cons.prems(4) sets by (metis list.set_intros(1))
  moreover have "xs = ys'"
    using Cons.prems ys \<open>x = y\<close> by (intro Cons.IH) auto
  ultimately show ?case using ys by simp
qed

lemma js_sort_unique:
  assumes "mset xs = mset ys"
    and "\<And>a b. a \<in> set xs \<Longrightarrow> b \<in> set xs \<Longrightarrow> cmp a b = 0 \<Longrightarrow> a = b"
  shows "js_sort cmp xs = js_sort cmp ys"
  using assms by (intro sorted_unique) (auto simp: sorted_js_sort mset_js_sort)

lemma js_sort_hd_least:
  assumes "x \<in> set xs"
  shows "cmp (hd (js_sort cmp xs)) x \<le> 0"
proof -
  obtain h t where ht: "js_sort cmp xs = h # t"
    using assms by (cases "js_sort cmp xs") (auto simp flip: set_js_sort [of cmp xs])
  have "x \<in> set (h # t)" using assms by (simp flip: ht)
  moreover have "sorted_wrt (\<lambda>a b. cmp a b \<le> 0) (h # t)"
    using sorted_js_sort [of xs] ht by simp
  ultimately show ?thesis using ht cmp_self [of h] by auto
qed

end

lemma comparator_or:
  assumes "comparator c" and "comparator d"
  shows "comparator (\<lambda>x y. js_or (c x y) (d x y))"
proof -
  note c = comparator.cmp_antisym [OF assms(1)] comparator.cmp_zero_sym [OF assms(1)]
  note d = comparator.cmp_antisym [OF assms(2)]
  show ?thesis
  proof
    show "(js_or (c x y) (d x y) < 0) = (0 < js_or (c y x) (d y x))" for x y
      using c [of x y] d [of x y] by (auto simp: js_or_def)
  next
    fix x y z
    assume xy: "js_or (c x y) (d x y) \<le> 0" and yz: "js_or (c y z) (d y z) \<le> 0"
    then have le: "c x y \<le> 0" "c y z \<le> 0" by (auto simp: js_or_def split: if_splits)
    then have xz: "c x z \<le> 0" by (rule comparator.cmp_trans [OF assms(1)])
    show "js_or (c x z) (d x z) \<le> 0"
    proof (cases "c x z = 0")
      case True
      then have zx: "c z x \<le> 0" using c(2) [of x z] by simp
      have "c y x \<le> 0" using comparator.cmp_trans [OF assms(1) le(2) zx] .
      then have 1: "c x y = 0" using le(1) c(1) [of x y] by linarith
      have "c z y \<le> 0" using comparator.cmp_trans [OF assms(1) zx le(1)] .
      then have 2: "c y z = 0" using le(2) c(1) [of y z] by linarith
      from xy yz 1 2 have "d x y \<le> 0" "d y z \<le> 0" by (auto simp: js_or_def)
      then have "d x z \<le> 0" by (rule comparator.cmp_trans [OF assms(2)])
      with True show ?thesis by (simp add: js_or_def)
    qed (use xz in \<open>simp add: js_or_def\<close>)
  qed
qed

lemma comparator_diff: "comparator (\<lambda>x y. f x - f y)"
  by unfold_locales linarith+

lemma comparator_diff_desc: "comparator (\<lambda>x y. f y - f x)"
  by unfold_locales linarith+

lemma comparator_vimage: "comparator c \<Longrightarrow> comparator (\<lambda>x y. c (f x) (f y))"
  unfolding comparator_def by blast

lemmas comparator_rules = comparator_or comparator_diff comparator_diff_desc comparator_vimage

section \<open>String orders\<close>

definition code_unit_compare :: "string \<Rightarrow> string \<Rightarrow> rat" where
  \<comment> \<open>the order of \<open><\<close> on strings and of \<open>sort()\<close> without a comparator\<close>
  "code_unit_compare a b = (if a < b then -1 else if b < a then 1 else 0)"

text \<open>
  \<open>String.prototype.localeCompare\<close> is a total preorder on strings.  Its collation tables belong
  to the runtime, so it is a parameter of every definition that sorts names or ids with it.
\<close>

locale collation = comparator lc
  for lc :: "string \<Rightarrow> string \<Rightarrow> rat"

interpretation code_units: collation code_unit_compare
  by unfold_locales (auto simp: code_unit_compare_def split: if_splits)

end
