(* ===== verification/Js_Date.thy ===== *)
theory Js_Date
  imports Js_Prelude
begin

text \<open>
  Calendar days as the code handles them: \<open>YYYY-MM-DD\<close> strings, moved by whole days through
  \<open>Date.parse(`${day}T00:00:00Z`)\<close> and \<open>toISOString().slice(0, 10)\<close>.  A time value is a number of
  days here, since every instant the code builds is a UTC midnight.  The calendar is the
  standard's: \<open>DayFromYear\<close>, its inverse, and the month table.  \<open>parse_day\<close> answers \<open>None\<close> for
  \<open>NaN\<close> and, as the engine does, accepts any day 1..31 in every month and lets it roll over;
  strings of another shape are \<open>NaN\<close> here.  \<open>iso_day\<close> is \<open>None\<close> where \<open>toISOString\<close> throws.
  The lemmas show that the two are inverse on the years 0..9999, that the order of the strings
  is the order of the days, and hence that shifting is addition.
\<close>

section \<open>The calendar\<close>

definition day_from_year :: "int \<Rightarrow> int" where
  "day_from_year y = 365 * (y - 1970) + (y - 1969) div 4 - (y - 1901) div 100 + (y - 1601) div 400"

definition leap_year :: "int \<Rightarrow> bool" where
  "leap_year y = (y mod 4 = 0 \<and> (y mod 100 \<noteq> 0 \<or> y mod 400 = 0))"

definition year_from_day :: "int \<Rightarrow> int" where
  "year_from_day n = (let y = 1970 + n * 400 div 146097
     in if n < day_from_year y then y - 1 else if day_from_year (y + 1) \<le> n then y + 1 else y)"

definition month_start :: "bool \<Rightarrow> int \<Rightarrow> int" where
  \<comment> \<open>days of the year before the month's first\<close>
  "month_start leap m =
     (let k = (if leap then 1 else 0) in
      if m \<le> 1 then 0 else if m = 2 then 31 else if m = 3 then 59 + k
      else if m = 4 then 90 + k else if m = 5 then 120 + k else if m = 6 then 151 + k
      else if m = 7 then 181 + k else if m = 8 then 212 + k else if m = 9 then 243 + k
      else if m = 10 then 273 + k else if m = 11 then 304 + k else if m = 12 then 334 + k
      else 365 + k)"

definition month_of :: "bool \<Rightarrow> int \<Rightarrow> int" where
  "month_of leap d =
     (let k = (if leap then 1 else 0) in
      if d < 31 then 1 else if d < 59 + k then 2 else if d < 90 + k then 3
      else if d < 120 + k then 4 else if d < 151 + k then 5 else if d < 181 + k then 6
      else if d < 212 + k then 7 else if d < 243 + k then 8 else if d < 273 + k then 9
      else if d < 304 + k then 10 else if d < 334 + k then 11 else 12)"

definition days_of_civil :: "int \<Rightarrow> int \<Rightarrow> int \<Rightarrow> int" where
  "days_of_civil y m d = day_from_year y + month_start (leap_year y) m + (d - 1)"

definition civil_of_days :: "int \<Rightarrow> int \<times> int \<times> int" where
  "civil_of_days n =
     (let y = year_from_day n; r = n - day_from_year y; m = month_of (leap_year y) r
      in (y, m, r - month_start (leap_year y) m + 1))"

section \<open>Strings\<close>

definition digit_char :: "nat \<Rightarrow> char" where
  "digit_char n = char_of (48 + n)"

fun pad_digits :: "nat \<Rightarrow> nat \<Rightarrow> string" where
  "pad_digits 0 n = []"
| "pad_digits (Suc k) n = pad_digits k (n div 10) @ [digit_char (n mod 10)]"

definition is_digit :: "char \<Rightarrow> bool" where
  "is_digit c = (48 \<le> (of_char c :: nat) \<and> (of_char c :: nat) \<le> 57)"

definition digits_value :: "string \<Rightarrow> nat" where
  "digits_value cs = foldl (\<lambda>acc c. 10 * acc + (of_char c - 48)) 0 cs"

definition iso_shape :: "string \<Rightarrow> bool" where
  \<comment> \<open>the pattern four digits, dash, two digits, dash, two digits\<close>
  "iso_shape s = (length s = 10 \<and> s ! 4 = CHR ''-'' \<and> s ! 7 = CHR ''-''
     \<and> list_all is_digit (take 4 s) \<and> list_all is_digit (take 2 (drop 5 s))
     \<and> list_all is_digit (drop 8 s))"

definition parse_day :: "string \<Rightarrow> int option" where
  "parse_day s =
     (if iso_shape s
      then (let y = int (digits_value (take 4 s)); m = int (digits_value (take 2 (drop 5 s)));
                d = int (digits_value (drop 8 s))
            in if 1 \<le> m \<and> m \<le> 12 \<and> 1 \<le> d \<and> d \<le> 31 then Some (days_of_civil y m d) else None)
      else None)"

definition iso_string :: "int \<Rightarrow> string" where
  \<comment> \<open>\<open>toISOString().slice(0, 10)\<close>: four-digit years, else a sign and six digits\<close>
  "iso_string n =
     (case civil_of_days n of (y, m, d) \<Rightarrow>
        take 10 ((if 0 \<le> y \<and> y \<le> 9999 then pad_digits 4 (nat y)
                  else (if y < 0 then ''-'' else ''+'') @ pad_digits 6 (nat \<bar>y\<bar>))
                 @ ''-'' @ pad_digits 2 (nat m) @ ''-'' @ pad_digits 2 (nat d)))"

definition iso_day :: "int \<Rightarrow> string option" where
  \<comment> \<open>a time value more than 100 000 000 days from the epoch is invalid and throws\<close>
  "iso_day n = (if \<bar>n\<bar> \<le> 100000000 then Some (iso_string n) else None)"

definition four_digit_day :: "int \<Rightarrow> bool" where
  \<comment> \<open>0000-01-01 .. 9999-12-31\<close>
  "four_digit_day n = (-719528 \<le> n \<and> n \<le> 2932896)"

definition js_add_days :: "string \<Rightarrow> int \<Rightarrow> string option" where
  "js_add_days date n = (case parse_day date of None \<Rightarrow> None | Some t \<Rightarrow> iso_day (t + n))"

definition js_days_between :: "string \<Rightarrow> string \<Rightarrow> int option" where
  "js_days_between from until =
     (case (parse_day from, parse_day until) of (Some a, Some b) \<Rightarrow> Some (b - a) | _ \<Rightarrow> None)"

section \<open>The calendar is a bijection\<close>

lemma div_bounds: "0 < k \<Longrightarrow> k * (x div k) \<le> x \<and> x < k * (x div k) + k" for k x :: int
  using mult_div_mod_eq [of k x] pos_mod_bound [of k x] pos_mod_sign [of k x] by linarith

lemma div_succ:
  fixes x k :: int
  assumes "0 < k"
  shows "(x + 1) div k = x div k + (if (x + 1) mod k = 0 then 1 else 0)"
proof -
  have x: "x = k * (x div k) + x mod k" by simp
  show ?thesis
  proof (cases "x mod k + 1 = k")
    case True
    have "k * (x div k + 1) = k * (x div k) + k" by (simp add: distrib_left)
    with True x have "x + 1 = k * (x div k + 1)" by linarith
    then have "(x + 1) div k = x div k + 1" and "(x + 1) mod k = 0"
      using assms by (metis nonzero_mult_div_cancel_left less_irrefl, metis mod_mult_self1_is_0)
    then show ?thesis by simp
  next
    case False
    then have r: "0 \<le> x mod k + 1" "x mod k + 1 < k" "x mod k + 1 \<noteq> 0"
      using assms pos_mod_bound [of k x] pos_mod_sign [of k x] by linarith+
    have eq: "x + 1 = (x mod k + 1) + k * (x div k)" using x by linarith
    have "(x + 1) div k = x div k"
      by (subst eq, subst div_mult_self2) (use assms r in simp_all)
    moreover have "(x + 1) mod k = x mod k + 1"
      by (subst eq, subst mod_mult_self2) (use r in \<open>simp add: mod_pos_pos_trivial\<close>)
    ultimately show ?thesis using r by simp
  qed
qed

lemma sum_step:
  fixes a b c t x y z :: int
  assumes "a' = a + x" and "b' = b + y" and "c' = c + z"
  shows "365 * (t + 1 - 1970) + a' - b' + c' - (365 * (t - 1970) + a - b + c) = 365 + x - y + z"
  using assms by (simp add: algebra_simps)

lemma leap_sum:
  fixes a b c :: bool
  assumes "b \<Longrightarrow> a" and "c \<Longrightarrow> b"
  shows "(365::int) + (if a then 1 else 0) - (if b then 1 else 0) + (if c then 1 else 0)
    = (if a \<and> (\<not> b \<or> c) then 366 else 365)"
  using assms by (cases a; cases b; cases c) simp_all

lemma day_from_year_step:
  "day_from_year (y + 1) - day_from_year y = (if leap_year y then 366 else 365)"
proof -
  have m: "(y - 1969 + 1) mod 4 = y mod 4" "(y - 1901 + 1) mod 100 = y mod 100"
    "(y - 1601 + 1) mod 400 = y mod 400"
    using mod_mult_self1 [of y "-492" 4] mod_mult_self1 [of y "-19" 100] mod_mult_self1 [of y "-4" 400]
    by simp_all
  note d = div_succ [of 4 "y - 1969", OF zero_less_numeral, unfolded m]
    div_succ [of 100 "y - 1901", OF zero_less_numeral, unfolded m]
    div_succ [of 400 "y - 1601", OF zero_less_numeral, unfolded m]
  have s: "y + 1 - 1969 = y - 1969 + 1" "y + 1 - 1901 = y - 1901 + 1" "y + 1 - 1601 = y - 1601 + 1"
    by simp_all
  have i: "y mod 100 = 0 \<Longrightarrow> y mod 4 = 0" "y mod 400 = 0 \<Longrightarrow> y mod 100 = 0"
    using mod_mod_cancel [of 4 100 y] mod_mod_cancel [of 100 400 y] by auto
  have "day_from_year (y + 1) - day_from_year y =
    365 + (if y mod 4 = 0 then 1 else 0) - (if y mod 100 = 0 then 1 else 0) + (if y mod 400 = 0 then 1 else 0)"
    unfolding day_from_year_def s by (rule sum_step [OF d])
  also have "\<dots> = (if leap_year y then 366 else 365)"
    unfolding leap_year_def by (rule leap_sum) (fact i)+
  finally show ?thesis .
qed

lemma year_estimate:
  fixes n :: int
  defines "y \<equiv> 1970 + n * 400 div 146097"
  shows "day_from_year (y - 1) \<le> n" and "n < day_from_year (y + 2)"
proof -
  have y: "146097 * (y - 1970) \<le> n * 400" "n * 400 < 146097 * (y - 1970) + 146097"
    using div_bounds [of 146097 "n * 400"] by (simp_all add: y_def)
  show "day_from_year (y - 1) \<le> n"
    using y(1) div_bounds [of 4 "y - 1970"] div_bounds [of 100 "y - 1902"] div_bounds [of 400 "y - 1602"]
    by (simp add: day_from_year_def)
  show "n < day_from_year (y + 2)"
    using y(2) div_bounds [of 4 "y - 1967"] div_bounds [of 100 "y - 1899"] div_bounds [of 400 "y - 1599"]
    by (simp add: day_from_year_def)
qed

lemma year_from_day_bounds:
  "day_from_year (year_from_day n) \<le> n" "n < day_from_year (year_from_day n + 1)"
  using year_estimate [of n] by (auto simp: year_from_day_def Let_def add.commute)

lemma day_from_year_less: "y < z \<Longrightarrow> day_from_year y < day_from_year z"
proof (induction z rule: int_gr_induct [where k = y])
  case base
  then show ?case using day_from_year_step [of y] by (auto split: if_splits)
next
  case (step z)
  then show ?case using day_from_year_step [of z] by (auto split: if_splits)
qed

lemma day_from_year_mono: "y \<le> z \<Longrightarrow> day_from_year y \<le> day_from_year z"
  using day_from_year_less [of y z] by (cases "y = z") auto

lemma le_year_from_day: "z \<le> year_from_day n \<longleftrightarrow> day_from_year z \<le> n"
proof
  assume "z \<le> year_from_day n"
  then show "day_from_year z \<le> n"
    using day_from_year_mono year_from_day_bounds(1) [of n] by (meson order_trans)
next
  assume z: "day_from_year z \<le> n"
  show "z \<le> year_from_day n"
  proof (rule ccontr)
    assume "\<not> z \<le> year_from_day n"
    then have "day_from_year (year_from_day n + 1) \<le> day_from_year z"
      by (intro day_from_year_mono) simp
    with z year_from_day_bounds(2) [of n] show False by simp
  qed
qed

lemma year_from_day_unique:
  assumes "day_from_year y \<le> n" and "n < day_from_year (y + 1)"
  shows "year_from_day n = y"
  using assms le_year_from_day [of y n] le_year_from_day [of "y + 1" n] by simp

lemma month_start_step: "1 \<le> i \<Longrightarrow> i \<le> 12 \<Longrightarrow> month_start leap i \<le> month_start leap (i + 1)"
  by (simp add: month_start_def Let_def)

lemma month_start_mono: "i \<le> j \<Longrightarrow> 1 \<le> i \<Longrightarrow> j \<le> 13 \<Longrightarrow> month_start leap i \<le> month_start leap j"
proof (induction j rule: int_ge_induct [where k = i])
  case base
  then show ?case by simp
next
  case (step j)
  then have "month_start leap i \<le> month_start leap j" by simp
  also have "\<dots> \<le> month_start leap (j + 1)" using step by (intro month_start_step) auto
  finally show ?case .
qed

lemma month_of_bounds:
  assumes "0 \<le> r" and "r < (if leap then 366 else 365)"
  shows "1 \<le> month_of leap r" "month_of leap r \<le> 12"
    "month_start leap (month_of leap r) \<le> r" "r - month_start leap (month_of leap r) < 31"
  using assms by (auto simp: month_of_def month_start_def Let_def split: if_splits)

lemma days_of_civil_of_days: "(case civil_of_days n of (y, m, d) \<Rightarrow> days_of_civil y m d) = n"
  by (simp add: civil_of_days_def days_of_civil_def Let_def)

lemma civil_of_days_bounds:
  assumes "civil_of_days n = (y, m, d)"
  shows "1 \<le> m" "m \<le> 12" "1 \<le> d" "d \<le> 31" "y = year_from_day n" "days_of_civil y m d = n"
proof -
  let ?y = "year_from_day n"
  have r: "0 \<le> n - day_from_year ?y" "n - day_from_year ?y < (if leap_year ?y then 366 else 365)"
    using year_from_day_bounds [of n] day_from_year_step [of ?y] by (auto split: if_splits)
  from month_of_bounds [OF r] assms
  show "1 \<le> m" "m \<le> 12" "1 \<le> d" "d \<le> 31" "y = ?y"
    by (auto simp: civil_of_days_def Let_def)
  show "days_of_civil y m d = n"
    using days_of_civil_of_days [of n] assms by simp
qed

lemma month_of_between:
  assumes "m \<in> {1, 2, 3, 4, 5, 6, 7, 8, 9, 10, 11, 12}"
    and "month_start leap m \<le> r" and "r < month_start leap (m + 1)"
  shows "month_of leap r = m"
  using assms by (elim insertE emptyE; cases leap) (simp_all add: month_start_def month_of_def)

lemma month_of_upper:
  "0 \<le> r \<Longrightarrow> r < (if leap then 366 else 365) \<Longrightarrow> r < month_start leap (month_of leap r + 1)"
  by (auto simp: month_of_def month_start_def Let_def)

lemma civil_of_days_month:
  assumes "civil_of_days n = (y, m, d)"
  shows "month_start (leap_year y) m + d \<le> month_start (leap_year y) (m + 1)"
proof -
  have y: "y = year_from_day n" using civil_of_days_bounds(5) [OF assms] .
  have r: "0 \<le> n - day_from_year y" "n - day_from_year y < (if leap_year y then 366 else 365)"
    using year_from_day_bounds [of n] day_from_year_step [of y] y by (auto split: if_splits)
  show ?thesis
    using month_of_upper [OF r] assms y by (auto simp: civil_of_days_def Let_def)
qed

lemma civil_of_days_of_civil:
  assumes "1 \<le> m" "m \<le> 12" "1 \<le> d" "month_start (leap_year y) m + d \<le> month_start (leap_year y) (m + 1)"
  shows "civil_of_days (days_of_civil y m d) = (y, m, d)"
proof -
  let ?r = "month_start (leap_year y) m + (d - 1)"
  from assms(1,2) have "m = 1 \<or> m = 2 \<or> m = 3 \<or> m = 4 \<or> m = 5 \<or> m = 6 \<or> m = 7 \<or> m = 8
    \<or> m = 9 \<or> m = 10 \<or> m = 11 \<or> m = 12" by presburger
  then have m: "m \<in> {1, 2, 3, 4, 5, 6, 7, 8, 9, 10, 11, 12}" by simp
  have r0: "0 \<le> ?r"
    using month_start_mono [of 1 m "leap_year y"] assms by (simp add: month_start_def)
  have r1: "?r < (if leap_year y then 366 else 365)"
    using month_start_mono [of "m + 1" 13 "leap_year y"] assms by (auto simp: month_start_def split: if_splits)
  have r2: "month_of (leap_year y) ?r = m"
    using m assms(3,4) month_of_between [of m "leap_year y" ?r] by auto
  note r = r0 r1 r2
  have "year_from_day (days_of_civil y m d) = y"
    using r(1,2) day_from_year_step [of y]
    by (intro year_from_day_unique) (auto simp: days_of_civil_def split: if_splits)
  with r(3) show ?thesis by (simp add: civil_of_days_def days_of_civil_def Let_def algebra_simps)
qed

lemma four_digit_year: "four_digit_day n \<longleftrightarrow> 0 \<le> year_from_day n \<and> year_from_day n \<le> 9999"
proof -
  have lo: "day_from_year 0 = -719528" and hi: "day_from_year 10000 = 2932897"
    by (simp_all add: day_from_year_def)
  have "0 \<le> year_from_day n \<longleftrightarrow> -719528 \<le> n"
    using le_year_from_day [of 0 n] lo by simp
  moreover have "10000 \<le> year_from_day n \<longleftrightarrow> 2932897 \<le> n"
    using le_year_from_day [of 10000 n] hi by simp
  ultimately show ?thesis by (auto simp: four_digit_day_def)
qed

section \<open>Digits\<close>

lemma of_digit_char: "n < 10 \<Longrightarrow> (of_char (digit_char n) :: nat) = 48 + n"
  by (simp add: digit_char_def)

lemma is_digit_char: "n < 10 \<Longrightarrow> is_digit (digit_char n)"
  by (simp add: is_digit_def of_digit_char)

lemma length_pad_digits [simp]: "length (pad_digits k n) = k"
  by (induction k arbitrary: n) auto

lemma all_digits_pad: "list_all is_digit (pad_digits k n)"
  by (induction k arbitrary: n) (auto simp: is_digit_char)

lemma digits_value_pad: "digits_value (pad_digits k n) = n mod 10 ^ k"
proof (induction k arbitrary: n)
  case 0
  then show ?case by (simp add: digits_value_def)
next
  case (Suc k)
  have "digits_value (pad_digits (Suc k) n) = 10 * digits_value (pad_digits k (n div 10)) + n mod 10"
    by (simp add: digits_value_def of_digit_char)
  also have "\<dots> = n mod 10 ^ Suc k"
    by (simp add: Suc.IH mod_mult2_eq)
  finally show ?case .
qed

lemma snoc_less_iff:
  fixes a b :: char
  assumes "length xs = length ys"
  shows "xs @ [a] < ys @ [b] \<longleftrightarrow> xs < ys \<or> xs = ys \<and> a < b"
  using assms by (induction xs ys rule: list_induct2) auto

lemma append_less_iff:
  fixes xs ys zs ws :: string
  assumes "length xs = length ys"
  shows "xs @ zs < ys @ ws \<longleftrightarrow> xs < ys \<or> xs = ys \<and> zs < ws"
  using assms by (induction xs ys rule: list_induct2) auto

lemma digit_char_less: "m < 10 \<Longrightarrow> n < 10 \<Longrightarrow> digit_char m < digit_char n \<longleftrightarrow> m < n"
  by (simp add: less_char_def of_digit_char)

lemma pad_digits_inject: "m < 10 ^ k \<Longrightarrow> n < 10 ^ k \<Longrightarrow> pad_digits k m = pad_digits k n \<longleftrightarrow> m = n"
  by (metis digits_value_pad mod_less)

lemma pad_digits_less:
  "m < 10 ^ k \<Longrightarrow> n < 10 ^ k \<Longrightarrow> pad_digits k m < pad_digits k n \<longleftrightarrow> m < n"
proof (induction k arbitrary: m n)
  case 0
  then show ?case by simp
next
  case (Suc k)
  have mn: "m div 10 < 10 ^ k" "n div 10 < 10 ^ k" using Suc.prems by auto
  have "pad_digits (Suc k) m < pad_digits (Suc k) n \<longleftrightarrow>
      m div 10 < n div 10 \<or> m div 10 = n div 10 \<and> m mod 10 < n mod 10"
    using Suc.IH [OF mn] pad_digits_inject [OF mn] by (simp add: snoc_less_iff digit_char_less)
  also have "\<dots> \<longleftrightarrow> m < n"
    using div_mult_mod_eq [of m 10] div_mult_mod_eq [of n 10] mod_less_divisor [of 10 m] mod_less_divisor [of 10 n]
    by (cases "m div 10 < n div 10"; cases "n div 10 < m div 10") linarith+
  finally show ?case .
qed

section \<open>Day strings\<close>

lemma iso_string_four_digit:
  assumes "four_digit_day n" and "civil_of_days n = (y, m, d)"
  shows "iso_string n = pad_digits 4 (nat y) @ ''-'' @ pad_digits 2 (nat m) @ ''-'' @ pad_digits 2 (nat d)"
  using assms civil_of_days_bounds(5) [OF assms(2)] by (simp add: iso_string_def four_digit_year)

lemma parse_iso_string:
  assumes "four_digit_day n"
  shows "parse_day (iso_string n) = Some n"
proof -
  obtain y m d where c: "civil_of_days n = (y, m, d)" by (cases "civil_of_days n")
  note b = civil_of_days_bounds [OF c]
  have y: "0 \<le> y" "y \<le> 9999" using assms b(5) by (auto simp: four_digit_year)
  note s = iso_string_four_digit [OF assms c]
  have v: "digits_value (pad_digits 4 (nat y)) = nat y" "digits_value (pad_digits 2 (nat m)) = nat m"
    "digits_value (pad_digits 2 (nat d)) = nat d"
    using y b by (auto simp: digits_value_pad)
  have "iso_shape (iso_string n)"
    by (simp add: iso_shape_def s nth_append all_digits_pad)
  then show ?thesis
    using y b v by (simp add: parse_day_def s Let_def)
qed

lemma iso_string_inject: "four_digit_day m \<Longrightarrow> four_digit_day n \<Longrightarrow> iso_string m = iso_string n \<longleftrightarrow> m = n"
  by (metis option.inject parse_iso_string)

lemma civil_less:
  assumes "civil_of_days n = (y, m, d)" and "civil_of_days n' = (y', m', d')"
    and "y < y' \<or> y = y' \<and> (m < m' \<or> m = m' \<and> d < d')"
  shows "n < n'"
proof (rule ccontr)
  assume "\<not> n < n'"
  then have le: "n' \<le> n" by simp
  note b = civil_of_days_bounds [OF assms(1)] civil_of_days_bounds [OF assms(2)]
  have "y' \<le> y"
  proof (rule ccontr)
    assume "\<not> y' \<le> y"
    then have "day_from_year (y + 1) \<le> day_from_year y'"
      using day_from_year_less [of "y + 1" y'] by (cases "y + 1 = y'") auto
    with year_from_day_bounds(2) [of n] year_from_day_bounds(1) [of n'] b le show False by simp
  qed
  with assms(3) have y: "y = y'" and md: "m < m' \<or> m = m' \<and> d < d'" by auto
  let ?l = "leap_year y"
  have r: "month_start ?l m + d \<le> month_start ?l (m + 1)"
    using civil_of_days_month [OF assms(1)] b by simp
  have mono: "month_start ?l (i + 1) \<le> month_start ?l j" if "i < j" "1 \<le> i" "j \<le> 12" for i j
    using that by (intro month_start_mono) auto
  have "days_of_civil y m d < days_of_civil y' m' d'"
    using md r mono [of m m'] b y by (auto simp: days_of_civil_def)
  with b le show False by simp
qed

lemma iso_string_less:
  assumes "four_digit_day n" and "four_digit_day n'"
  shows "iso_string n < iso_string n' \<longleftrightarrow> n < n'"
proof -
  obtain y m d where c: "civil_of_days n = (y, m, d)" by (cases "civil_of_days n")
  obtain y' m' d' where c': "civil_of_days n' = (y', m', d')" by (cases "civil_of_days n'")
  note b = civil_of_days_bounds [OF c] civil_of_days_bounds [OF c']
  have y: "0 \<le> y" "y \<le> 9999" "0 \<le> y'" "y' \<le> 9999" using assms b by (auto simp: four_digit_year)
  note p = pad_digits_less [of _ 4] pad_digits_less [of _ 2] pad_digits_inject [of _ 4] pad_digits_inject [of _ 2]
  have lt: "iso_string n < iso_string n' \<longleftrightarrow> y < y' \<or> y = y' \<and> (m < m' \<or> m = m' \<and> d < d')"
    using b y by (simp add: iso_string_four_digit [OF assms(1) c] iso_string_four_digit [OF assms(2) c']
        append_less_iff p zless_nat_eq_int_zless eq_nat_nat_iff)
  show ?thesis
  proof
    assume "iso_string n < iso_string n'"
    with lt civil_less [OF c c'] show "n < n'" by blast
  next
    assume "n < n'"
    show "iso_string n < iso_string n'"
    proof (rule ccontr)
      assume nl: "\<not> iso_string n < iso_string n'"
      then have "y' < y \<or> y' = y \<and> (m' < m \<or> m' = m \<and> d' < d) \<or> (y, m, d) = (y', m', d')"
        using lt by auto
      then show False
        using civil_less [OF c' c] \<open>n < n'\<close> b by auto
    qed
  qed
qed

lemma js_add_days_iso:
  assumes "four_digit_day n"
  shows "js_add_days (iso_string n) k = iso_day (n + k)"
  by (simp add: js_add_days_def parse_iso_string [OF assms])

lemma js_days_between_iso:
  "four_digit_day m \<Longrightarrow> four_digit_day n \<Longrightarrow> js_days_between (iso_string m) (iso_string n) = Some (n - m)"
  by (simp add: js_days_between_def parse_iso_string)

lemma iso_day_four_digit: "four_digit_day n \<Longrightarrow> iso_day n = Some (iso_string n)"
  by (auto simp: iso_day_def four_digit_day_def abs_le_iff)

end
