(* ===== verification/Report_Types.thy ===== *)
theory Report_Types
  imports Js_Date
begin

text \<open>
  The report's data, from \<open>src/src/interfaces/report.interfaces.ts\<close>, \<open>enums/report.enum.ts\<close>,
  \<open>interfaces/preference.interfaces.ts\<close> and \<open>interfaces/cache.interfaces.ts\<close>: enums as
  datatypes, interfaces as records (an interface that extends another extends its record),
  an optional or nullable field as an option, prices and percentages as rationals.  The
  record \<open>js_runtime\<close> holds the three string functions whose tables belong to the JavaScript
  runtime; nothing is assumed of them here.
\<close>

section \<open>The runtime's string functions\<close>

record js_runtime =
  locale_compare :: "string \<Rightarrow> string \<Rightarrow> rat"
  to_lower :: "string \<Rightarrow> string"
  number_string :: "rat \<Rightarrow> string"

section \<open>Enumerations\<close>

datatype report_kind = Best | Catalog | Drops | Low | New

datatype report_window = Today | Yesterday | Week | Month | Year

datatype sort_order = Asc | Desc

datatype report_sort_field =
    Sort_Abv | Sort_Age | Sort_Country_Name | Sort_Days_Discount | Sort_Discount_Pct | Sort_Name
  | Sort_Previous_Price | Sort_Price | Sort_Store_Name | Sort_Type | Sort_Volume_Ml

definition all_sort_fields :: "report_sort_field list" where
  "all_sort_fields =
     [Sort_Abv, Sort_Age, Sort_Country_Name, Sort_Days_Discount, Sort_Discount_Pct, Sort_Name,
      Sort_Previous_Price, Sort_Price, Sort_Store_Name, Sort_Type, Sort_Volume_Ml]"

definition all_sort_orders :: "sort_order list" where
  "all_sort_orders = [Asc, Desc]"

datatype report_order_key = Natural | Ordered report_sort_field sort_order

section \<open>Requests\<close>

record report_options =
  opt_window :: report_window
  opt_discount_window :: "report_window option"
  opt_min_discount :: "rat option"
  opt_sort :: "report_sort_field option"
  opt_order :: sort_order
  opt_page :: int
  opt_per_page :: int

record report_personalization =
  pers_user_id :: string
  pers_favorites_only :: "bool option"

record report_filter =
  f_stores :: "string list option"
  f_min_price :: "rat option"
  f_max_price :: "rat option"
  f_min_volume :: "rat option"
  f_max_volume :: "rat option"
  f_flavors :: "string list option"
  f_exclude_flavors :: "string list option"
  f_types :: "string list option"
  f_countries :: "string list option"
  f_name :: "string option"
  f_regions :: "string list option"
  f_exclude_regions :: "string list option"
  f_verified_facts :: "bool option"

record preference_filter_ids =
  favorites :: "string list"
  blacklist_products :: "string list"
  blacklist_producers :: "string list"

section \<open>Rows\<close>

record report_maker_ids =
  producer_id :: "string option"
  bottler_id :: "string option"

record report_current_row = report_maker_ids +
  row_id :: string
  product_id :: string
  sku :: string
  url :: string
  row_name :: "string option"
  name_orig :: string
  age :: "rat option"
  abv :: "rat option"
  volume_ml :: "rat option"
  store_slug :: string
  store_name :: string
  brand :: "string option"
  whisky_type :: "string option"
  country_code :: "string option"
  country_name :: "string option"
  country_icon :: "string option"
  price :: rat
  old_price :: "rat option"
  currency :: string
  in_stock :: bool
  promo :: bool
  previous_price :: "rat option"
  captured_date :: string
  first_seen :: string
  flavors :: "string list"
  distillery :: "string option"
  region :: "string option"
  bottler :: "string option"
  fact_sources :: "(string \<times> string option) list"

record report_row = report_current_row +
  reference_price :: "rat option"
  discount_pct :: "int option"
  is_new :: bool
  days_new :: "int option"
  days_discount :: "int option"

record report_offer =
  o_id :: string
  o_sku :: string
  o_url :: string
  o_name_orig :: string
  o_store_slug :: string
  o_store_name :: string
  o_price :: rat
  o_old_price :: "rat option"
  o_currency :: string
  o_promo :: bool
  o_in_stock :: bool
  o_previous_price :: "rat option"
  o_reference_price :: "rat option"
  o_discount_pct :: "int option"
  o_is_new :: bool
  o_days_new :: "int option"
  o_days_discount :: "int option"
  o_first_seen :: string
  o_captured_date :: string

record report_group = report_row +
  offers :: "report_offer list"

section \<open>What goes over the wire\<close>

record report_public_row =
  p_id :: string
  p_product_id :: string
  p_sku :: string
  p_url :: string
  p_name :: "string option"
  p_name_orig :: string
  p_age :: "rat option"
  p_abv :: "rat option"
  p_volume_ml :: "rat option"
  p_store_slug :: string
  p_store_name :: string
  p_brand :: "string option"
  p_type :: "string option"
  p_country_code :: "string option"
  p_country_name :: "string option"
  p_country_icon :: "string option"
  p_price :: rat
  p_old_price :: "rat option"
  p_currency :: string
  p_in_stock :: bool
  p_promo :: bool
  p_previous_price :: "rat option"
  p_captured_date :: string
  p_first_seen :: string
  p_flavors :: "string list"
  p_distillery :: "string option"
  p_region :: "string option"
  p_bottler :: "string option"
  p_fact_sources :: "(string \<times> string option) list"
  p_reference_price :: "rat option"
  p_discount_pct :: "int option"
  p_is_new :: bool
  p_days_new :: "int option"
  p_days_discount :: "int option"

record report_public_group = report_public_row +
  p_offers :: "report_offer list"

record price_history_point =
  point_date :: string
  point_price :: rat

record price_history =
  hist_product :: report_public_row
  hist_series :: "price_history_point list"

section \<open>The page index and the cached set\<close>

record report_page_index =
  ids :: "string list"
  producers :: "string option list"
  bottlers :: "string option list"
  orders :: "(report_order_key \<times> nat list) list"

record cache_page_pick =
  positions :: "nat list"
  pick_total :: nat

record ('i, 'e) cache_indexed_set =
  set_index :: 'i
  set_entries :: "'e list"

record 'e typed_page =
  page_data :: "'e list"
  page_total :: nat
  page_limit :: int
  page_offset :: int

end
