(* ===== verification/Js_String.thy ===== *)
theory Js_String
  imports Js_Prelude
begin

text \<open>
  The string functions of the runtime the components share: \<open>trim\<close> over the white space below code
  unit 256, \<open>split\<close> and \<open>join\<close> on a one-character separator, \<open>startsWith\<close>, \<open>indexOf\<close>, \<open>parseInt\<close> in base
  ten and \<open>Buffer.from(s, 'hex')\<close>.
\<close>

section \<open>White space\<close>

definition js_space :: "char \<Rightarrow> bool" where
  "js_space c = ((of_char c :: nat) \<in> {9, 10, 11, 12, 13, 32, 160})"

definition js_trim :: "string \<Rightarrow> string" where
  "js_trim s = rev (dropWhile js_space (rev (dropWhile js_space s)))"

section \<open>Splitting and joining\<close>

fun js_split :: "char \<Rightarrow> string \<Rightarrow> string list" where
  \<comment> \<open>\<open>s.split(c)\<close>: one more part than there are separators\<close>
  "js_split c [] = [[]]"
| "js_split c (x # xs) =
     (if x = c then [] # js_split c xs
      else (case js_split c xs of [] \<Rightarrow> [[x]] | part # parts \<Rightarrow> (x # part) # parts))"

fun js_join :: "char \<Rightarrow> string list \<Rightarrow> string" where
  \<comment> \<open>\<open>parts.join(c)\<close>\<close>
  "js_join c [] = []"
| "js_join c [part] = part"
| "js_join c (part # parts) = part @ c # js_join c parts"

definition starts_with :: "string \<Rightarrow> string \<Rightarrow> bool" where
  \<comment> \<open>\<open>s.startsWith(p)\<close>\<close>
  "starts_with s p = (take (length p) s = p)"

definition js_index_of :: "string \<Rightarrow> char \<Rightarrow> int" where
  \<comment> \<open>\<open>s.indexOf(c)\<close>: minus one when absent\<close>
  "js_index_of s c = (let n = length (takeWhile (\<lambda>x. x \<noteq> c) s) in if n < length s then int n else - 1)"

section \<open>Reading numbers and bytes\<close>

definition digit_value :: "char \<Rightarrow> nat option" where
  "digit_value c = (let n = (of_char c :: nat) in if 48 \<le> n \<and> n \<le> 57 then Some (n - 48) else None)"

definition js_parse_int :: "string \<Rightarrow> int option" where
  \<comment> \<open>\<open>Number.parseInt(s, 10)\<close>: leading space and a sign, then as many digits as there are; \<open>None\<close> is \<open>NaN\<close>\<close>
  "js_parse_int s =
     (let t = dropWhile js_space s;
          neg = (t \<noteq> [] \<and> hd t = CHR ''-'');
          u = (if t \<noteq> [] \<and> hd t \<in> {CHR ''-'', CHR ''+''} then tl t else t);
          ds = takeWhile (\<lambda>c. digit_value c \<noteq> None) u
      in if ds = [] then None
         else Some ((if neg then - 1 else 1) * foldl (\<lambda>n c. 10 * n + int (the (digit_value c))) 0 ds))"

definition hex_value :: "char \<Rightarrow> nat option" where
  "hex_value c =
     (let n = (of_char c :: nat)
      in if 48 \<le> n \<and> n \<le> 57 then Some (n - 48)
         else if 97 \<le> n \<and> n \<le> 102 then Some (n - 87)
         else if 65 \<le> n \<and> n \<le> 70 then Some (n - 55) else None)"

fun buffer_from_hex :: "string \<Rightarrow> nat list" where
  \<comment> \<open>two digits a byte, up to the first pair that is not one\<close>
  "buffer_from_hex (a # b # rest) =
     (case (hex_value a, hex_value b) of
        (Some x, Some y) \<Rightarrow> (16 * x + y) # buffer_from_hex rest
      | _ \<Rightarrow> [])"
| "buffer_from_hex _ = []"

section \<open>Facts\<close>

lemma js_split_nonempty [simp]: "js_split c s \<noteq> []"
  by (induction s) (auto split: list.split)

lemma js_split_none [simp]: "c \<notin> set s \<Longrightarrow> js_split c s = [s]"
  by (induction s) auto

lemma js_split_append: "c \<notin> set p \<Longrightarrow> js_split c (p @ c # s) = p # js_split c s"
  by (induction p) auto

lemma js_split_parts: "part \<in> set (js_split c s) \<Longrightarrow> c \<notin> set part"
  by (induction s arbitrary: part) (auto split: if_splits list.splits)

lemma js_join_Cons: "parts \<noteq> [] \<Longrightarrow> js_join c (part # parts) = part @ c # js_join c parts"
  by (cases parts) auto

lemma js_split_join: "parts \<noteq> [] \<Longrightarrow> (\<And>part. part \<in> set parts \<Longrightarrow> c \<notin> set part) \<Longrightarrow> js_split c (js_join c parts) = parts"
  by (induction c parts rule: js_join.induct) (auto simp: js_split_append)

lemma js_join_Cons_Cons [simp]: "js_join c ((x # part) # parts) = x # js_join c (part # parts)"
  by (cases parts) auto

lemma js_join_split: "js_join c (js_split c s) = s"
  by (induction s) (auto split: list.split)

lemma starts_with_append [simp]: "starts_with (p @ s) p"
  by (simp add: starts_with_def)

lemma starts_with_conv: "starts_with s p \<longleftrightarrow> (\<exists>t. s = p @ t)"
  by (metis append_take_drop_id starts_with_append starts_with_def)

end
