(* ===== verification/Sql.thy ===== *)
theory Sql
  imports Js_String
begin

text \<open>
  The SQL statements the repositories issue, over tables kept as lists of rows: an UPDATE, an
  UPDATE with a FROM list, a DELETE, an INSERT with an ON CONFLICT clause and the number of rows
  a statement affects. A FROM list joins a row to the first entry that satisfies the WHERE
  clause, which is the only one where the caller keeps the joined column distinct. The lemmas
  say what a statement leaves of the keys of a table, so that a unique index and a foreign key
  become facts about lists.
\<close>

named_theorems sql_simps

definition sql_update :: "('r \<Rightarrow> bool) \<Rightarrow> ('r \<Rightarrow> 'r) \<Rightarrow> 'r list \<Rightarrow> 'r list" where
  "sql_update w f rs = map (\<lambda>r. if w r then f r else r) rs"

definition sql_update_from :: "('v \<Rightarrow> 'r \<Rightarrow> bool) \<Rightarrow> ('v \<Rightarrow> 'r \<Rightarrow> 'r) \<Rightarrow> 'v list \<Rightarrow> 'r list \<Rightarrow> 'r list" where
  "sql_update_from w f vs rs = map (\<lambda>r. case find (\<lambda>v. w v r) vs of None \<Rightarrow> r | Some v \<Rightarrow> f v r) rs"

definition sql_delete :: "('r \<Rightarrow> bool) \<Rightarrow> 'r list \<Rightarrow> 'r list" where
  "sql_delete w rs = filter (\<lambda>r. \<not> w r) rs"

definition sql_affected :: "('r \<Rightarrow> bool) \<Rightarrow> 'r list \<Rightarrow> nat" where
  "sql_affected w rs = length (filter w rs)"

definition sql_upsert :: "('r \<Rightarrow> bool) \<Rightarrow> ('r \<Rightarrow> 'r) \<Rightarrow> 'r \<Rightarrow> 'r list \<Rightarrow> 'r list" where
  "sql_upsert hit f new rs = (if \<exists>r\<in>set rs. hit r then sql_update hit f rs else rs @ [new])"

subsection \<open>Keys and members\<close>

lemma find_SomeD: "find P xs = Some x \<Longrightarrow> x \<in> set xs \<and> P x"
  by (auto simp: find_Some_iff in_set_conv_nth)

lemma length_sql_update [sql_simps, simp]: "length (sql_update w f rs) = length rs"
  by (simp add: sql_update_def)

lemma map_sql_update: "(\<And>r. w r \<Longrightarrow> k (f r) = k r) \<Longrightarrow> map k (sql_update w f rs) = map k rs"
  by (simp add: sql_update_def)

lemma map_sql_update_from:
  "(\<And>v r. w v r \<Longrightarrow> k (f v r) = k r) \<Longrightarrow> map k (sql_update_from w f vs rs) = map k rs"
  by (auto simp: sql_update_from_def find_Some_iff split: option.split)

lemma in_sql_update: "r \<in> set (sql_update w f rs) \<longleftrightarrow> (\<exists>q\<in>set rs. r = (if w q then f q else q))"
  by (auto simp: sql_update_def)

lemma in_sql_update_from:
  "r \<in> set (sql_update_from w f vs rs) \<Longrightarrow>
    r \<in> set rs \<or> (\<exists>q\<in>set rs. \<exists>v\<in>set vs. w v q \<and> r = f v q)"
proof -
  assume "r \<in> set (sql_update_from w f vs rs)"
  then obtain q where q: "q \<in> set rs" "r = (case find (\<lambda>v. w v q) vs of None \<Rightarrow> q | Some v \<Rightarrow> f v q)"
    by (auto simp: sql_update_from_def)
  show ?thesis
  proof (cases "find (\<lambda>v. w v q) vs")
    case (Some v)
    then show ?thesis using q find_SomeD [OF Some] by auto
  qed (use q in simp)
qed

lemma in_sql_delete [sql_simps, simp]: "r \<in> set (sql_delete w rs) \<longleftrightarrow> r \<in> set rs \<and> \<not> w r"
  by (auto simp: sql_delete_def)

lemma distinct_sql_delete: "distinct (map k rs) \<Longrightarrow> distinct (map k (sql_delete w rs))"
  by (simp add: sql_delete_def distinct_map_filter)

lemma sql_affected_le: "sql_affected w rs \<le> length rs"
  by (simp add: sql_affected_def)

lemma sql_update_id: "(\<And>r. r \<in> set rs \<Longrightarrow> \<not> w r) \<Longrightarrow> sql_update w f rs = rs"
  by (induction rs) (auto simp: sql_update_def)

lemma sql_delete_id: "(\<And>r. r \<in> set rs \<Longrightarrow> \<not> w r) \<Longrightarrow> sql_delete w rs = rs"
  by (simp add: sql_delete_def)

lemma keys_sql_upsert:
  assumes "\<And>r. hit r \<longleftrightarrow> k r = k new" and "\<And>r. k (f r) = k r"
  shows "set (map k (sql_upsert hit f new rs)) = insert (k new) (set (map k rs))"
    and "distinct (map k rs) \<Longrightarrow> distinct (map k (sql_upsert hit f new rs))"
proof -
  have keep: "map k (sql_update hit f rs) = map k rs" by (rule map_sql_update) (rule assms(2))
  show "set (map k (sql_upsert hit f new rs)) = insert (k new) (set (map k rs))"
  proof (cases "\<exists>r\<in>set rs. hit r")
    case True
    then have "k new \<in> set (map k rs)" using assms(1) by (metis image_eqI set_map)
    then show ?thesis using True by (simp only: sql_upsert_def if_True keep insert_absorb)
  next
    case False
    then show ?thesis by (simp add: sql_upsert_def)
  qed
  show "distinct (map k (sql_upsert hit f new rs))" if d: "distinct (map k rs)"
  proof (cases "\<exists>r\<in>set rs. hit r")
    case True
    then show ?thesis using d by (simp only: sql_upsert_def if_True keep)
  next
    case False
    then have "k new \<notin> k ` set rs" using assms(1) by auto
    then show ?thesis using d False by (simp add: sql_upsert_def)
  qed
qed

lemma in_sql_upsert:
  "r \<in> set (sql_upsert hit f new rs) \<Longrightarrow>
    (r \<in> set rs \<and> \<not> hit r) \<or> (\<exists>q\<in>set rs. hit q \<and> r = f q) \<or> (r = new \<and> (\<forall>q\<in>set rs. \<not> hit q))"
  by (auto simp: sql_upsert_def in_sql_update split: if_splits)

lemma sql_upsert_keeps: "q \<in> set rs \<Longrightarrow> \<not> hit q \<Longrightarrow> q \<in> set (sql_upsert hit f new rs)"
  by (auto simp: sql_upsert_def in_sql_update)

lemma sql_upsert_hits:
  assumes "\<And>r. hit r \<Longrightarrow> P (f r)" and "P new"
  shows "\<exists>r\<in>set (sql_upsert hit f new rs). P r"
proof (cases "\<exists>r\<in>set rs. hit r")
  case True
  then obtain r where "r \<in> set rs" "hit r" by blast
  then have "f r \<in> set (sql_upsert hit f new rs)" by (auto simp: sql_upsert_def in_sql_update)
  then show ?thesis using assms(1) [OF \<open>hit r\<close>] by blast
next
  case False
  then show ?thesis using assms(2) by (simp add: sql_upsert_def)
qed

lemma find_by_key:
  "distinct (map k rs) \<Longrightarrow> r \<in> set rs \<Longrightarrow> find (\<lambda>q. k q = k r) rs = Some r"
  by (induction rs) (auto simp: rev_image_eqI)

lemma find_key_eq:
  "distinct (map k rs) \<Longrightarrow> r \<in> set rs \<Longrightarrow> q \<in> set rs \<Longrightarrow> k q = k r \<Longrightarrow> q = r"
  by (metis find_by_key option.inject)

lemma filter_by_key: "distinct (map k rs) \<Longrightarrow> r \<in> set rs \<Longrightarrow> filter (\<lambda>q. k q = k r) rs = [r]"
  by (induction rs) (auto simp: filter_empty_conv image_iff)

lemma sql_update_from_settled:
  "(\<And>r v. r \<in> set rs \<Longrightarrow> v \<in> set vs \<Longrightarrow> \<not> w v r) \<Longrightarrow> sql_update_from w f vs rs = rs"
proof -
  assume none: "\<And>r v. r \<in> set rs \<Longrightarrow> v \<in> set vs \<Longrightarrow> \<not> w v r"
  have "find (\<lambda>v. w v r) vs = None" if "r \<in> set rs" for r
    using none [OF that] by (auto simp: find_None_iff)
  then show ?thesis unfolding sql_update_from_def by (intro map_idI) simp
qed

lemma sql_update_from_settles:
  assumes "distinct (map k vs)" and "\<And>v r. w v r \<Longrightarrow> k v = i r" and "\<And>v r. i (f v r) = i r"
    and "\<And>v r. w v r \<Longrightarrow> \<not> w v (f v r)"
    and r: "r \<in> set (sql_update_from w f vs rs)" and v: "v \<in> set vs"
  shows "\<not> w v r"
proof -
  from r obtain q where q: "r = (case find (\<lambda>v. w v q) vs of None \<Rightarrow> q | Some v \<Rightarrow> f v q)"
    by (auto simp: sql_update_from_def)
  show ?thesis
  proof (cases "find (\<lambda>v. w v q) vs")
    case None
    then have "r = q" using q by simp
    then show ?thesis using None v by (auto simp: find_None_iff)
  next
    case (Some u)
    have u: "u \<in> set vs" "w u q" using find_SomeD [OF Some] by auto
    show ?thesis
    proof
      assume hit: "w v r"
      have "k v = k u" using assms(2) [OF hit] assms(2) [OF u(2)] assms(3) q Some by simp
      then have "v = u" using find_key_eq [OF assms(1) u(1) v] by simp
      then show False using assms(4) [OF u(2)] hit q Some by simp
    qed
  qed
qed

end
