(* ===== verification/Catalogue.thy ===== *)
theory Catalogue
  imports Sql
begin

text \<open>
  The catalogue tables (core/product, core/store-product, core/price-snapshot,
  core/user-collection, core/preference) and the part of ProductRepository that resolves match
  keys and creates bottlings. Ids are numbers handed out in increasing order, as version-7 uuids
  are; \<open>now\<close> is the time of the transaction; the fold Postgres applies to a name before two rows
  are compared (lower case, letters and digits only, under the database's collation) is the
  parameter \<open>ident\<close>.
\<close>

section \<open>Provenance\<close>

type_synonym row_id = nat

datatype fact_source = Fact_Manual | Fact_Kb | Fact_Store | Fact_Name | Fact_Llm | Fact_Legacy

fun fact_source_rank :: "fact_source \<Rightarrow> nat" where
  "fact_source_rank Fact_Manual = 60"
| "fact_source_rank Fact_Kb = 50"
| "fact_source_rank Fact_Store = 40"
| "fact_source_rank Fact_Name = 30"
| "fact_source_rank Fact_Llm = 20"
| "fact_source_rank Fact_Legacy = 10"

fun rank_of :: "fact_source option \<Rightarrow> nat" where
  \<comment> \<open>the CASE expression: no provenance ranks below every source\<close>
  "rank_of None = 0"
| "rank_of (Some s) = fact_source_rank s"

datatype fact_field = Field_Name | Field_Type | Field_Country | Field_Abv | Field_Age | Field_Volume | Field_Producer

datatype flavor_source = Flavor_Scrape | Flavor_Llm | Flavor_Kb | Flavor_Manual

fun flavor_source_rank :: "flavor_source \<Rightarrow> nat" where
  "flavor_source_rank Flavor_Manual = 40"
| "flavor_source_rank Flavor_Kb = 30"
| "flavor_source_rank Flavor_Llm = 20"
| "flavor_source_rank Flavor_Scrape = 10"

datatype review_status = Review_Pending | Review_Verified | Review_Rejected

section \<open>Tables\<close>

record product_row =
  pd_id :: row_id
  pd_match_key :: "string option"
  pd_name :: "string option"
  pd_age :: "int option"
  pd_abv :: "rat option"
  pd_volume :: "int option"
  pd_brand_orig :: "string option"
  pd_type_id :: "row_id option"
  pd_country_id :: "row_id option"
  pd_last_llm_flavor_at :: "int option"
  pd_flavors_curated_at :: "int option"
  pd_producer_id :: "row_id option"
  pd_bottler_id :: "row_id option"
  pd_name_source :: "fact_source option"
  pd_type_source :: "fact_source option"
  pd_country_source :: "fact_source option"
  pd_abv_source :: "fact_source option"
  pd_age_source :: "fact_source option"
  pd_volume_source :: "fact_source option"
  pd_producer_source :: "fact_source option"
  pd_review_status :: "review_status option"
  pd_reviewed_at :: "int option"
  pd_created_at :: int
  pd_updated_at :: int

record alias_row =
  al_key :: string
  al_product :: row_id

record offer_row =
  of_id :: row_id
  of_store :: row_id
  of_product :: row_id
  of_sku :: string
  of_url :: string
  of_name_orig :: string
  of_in_stock :: bool
  of_first_seen :: string
  of_last_seen :: string

record snapshot_row =
  sn_offer :: row_id
  sn_captured_on :: string
  sn_price :: rat
  sn_old_price :: "rat option"
  sn_currency :: string
  sn_in_stock :: bool
  sn_promo :: bool

record flavor_link =
  fl_product :: row_id
  fl_flavor :: row_id
  fl_source :: flavor_source

datatype conflict_value = Text_Ref row_id | Text_Number rat
  \<comment> \<open>the text of a foreign key or of a number\<close>

record conflict_row =
  cf_product :: row_id
  cf_store :: row_id
  cf_attribute :: fact_field
  cf_stored_value :: conflict_value
  cf_claimed_value :: conflict_value
  cf_stored_source :: fact_source
  cf_seen_count :: nat
  cf_first_seen_at :: int
  cf_last_seen_at :: int
  cf_resolved_at :: "int option"

record list_row =
  ul_user :: row_id
  ul_product :: row_id

record collection_row =
  co_id :: row_id
  co_user :: row_id
  co_product :: row_id
  co_rating :: "rat option"
  co_barcode :: "string option"
  co_notes :: "string option"
  co_nose :: "string option"
  co_palate :: "string option"
  co_finish :: "string option"

record purchase_row =
  pu_id :: row_id
  pu_collection :: row_id
  pu_purchased_on :: string
  pu_price :: "rat option"
  pu_store :: "row_id option"
  pu_store_name :: "string option"
  pu_offer :: "row_id option"

record lookup_row =
  lk_id :: row_id
  lk_name :: string

record catalogue =
  ct_products :: "product_row list"
  ct_aliases :: "alias_row list"
  ct_offers :: "offer_row list"
  ct_snapshots :: "snapshot_row list"
  ct_links :: "flavor_link list"
  ct_conflicts :: "conflict_row list"
  ct_favorites :: "list_row list"
  ct_blacklist :: "list_row list"
  ct_collection :: "collection_row list"
  ct_purchases :: "purchase_row list"
  ct_types :: "lookup_row list"
  ct_flavors :: "lookup_row list"
  ct_countries :: "lookup_row list"
  ct_next :: row_id

definition product_by_id :: "catalogue \<Rightarrow> row_id \<Rightarrow> product_row option" where
  "product_by_id db i = find (\<lambda>p. pd_id p = i) (ct_products db)"

definition js_map :: "('k \<times> 'v) list \<Rightarrow> ('k \<times> 'v) list" where
  \<comment> \<open>\<open>new Map(entries)\<close>: a later entry replaces an earlier one\<close>
  "js_map es = foldl (\<lambda>m e. AList.update (fst e) (snd e) m) [] es"

definition by_number :: "('a \<Rightarrow> nat) \<Rightarrow> 'a \<Rightarrow> 'a \<Rightarrow> rat" where
  "by_number f a b = of_nat (f a) - of_nat (f b)"

section \<open>Lookup names\<close>

definition insert_name :: "string \<Rightarrow> lookup_row list \<times> row_id \<Rightarrow> lookup_row list \<times> row_id" where
  \<comment> \<open>INSERT ... ON CONFLICT (name) DO NOTHING\<close>
  "insert_name n st =
     (if \<exists>r\<in>set (fst st). lk_name r = n then st
      else (fst st @ [\<lparr>lk_id = snd st, lk_name = n\<rparr>], snd st + 1))"

definition get_or_create_by_name :: "string list \<Rightarrow> lookup_row list \<times> row_id \<Rightarrow>
    (string \<times> row_id) list \<times> (lookup_row list \<times> row_id)" where
  "get_or_create_by_name names st =
     (let wanted = js_set (filter (\<lambda>n. n \<noteq> []) names)
      in if wanted = [] then ([], st)
         else (let st' = fold insert_name wanted st
               in (js_map (map (\<lambda>r. (lk_name r, lk_id r)) (filter (\<lambda>r. lk_name r \<in> set wanted) (fst st'))), st')))"

definition resolve_types :: "string list \<Rightarrow> catalogue \<Rightarrow> (string \<times> row_id) list \<times> catalogue" where
  "resolve_types names db =
     (let (m, rows, next) = get_or_create_by_name names (ct_types db, ct_next db)
      in (m, db\<lparr>ct_types := rows, ct_next := next\<rparr>))"

definition resolve_flavors :: "string list \<Rightarrow> catalogue \<Rightarrow> (string \<times> row_id) list \<times> catalogue" where
  "resolve_flavors names db =
     (let (m, rows, next) = get_or_create_by_name names (ct_flavors db, ct_next db)
      in (m, db\<lparr>ct_flavors := rows, ct_next := next\<rparr>))"

definition resolve_by_name_ua :: "(string \<Rightarrow> string) \<Rightarrow> string list \<Rightarrow> catalogue \<Rightarrow> (string \<times> row_id) list" where
  \<comment> \<open>\<open>lower\<close> is the lower-casing of a Ukrainian name, in the runtime and in the database alike\<close>
  "resolve_by_name_ua lower names db =
     (let keys = js_set (filter (\<lambda>n. n \<noteq> []) (map (\<lambda>n. lower (js_trim n)) names))
      in if keys = [] then []
         else js_map (map (\<lambda>r. (lower (lk_name r), lk_id r))
                       (filter (\<lambda>r. lower (lk_name r) \<in> set keys) (ct_countries db))))"

section \<open>Creating bottlings\<close>

record canonical_input =
  ci_match_key :: "string option"
  ci_name :: "string option"
  ci_brand_orig :: "string option"
  ci_type_id :: "row_id option"
  ci_country_id :: "row_id option"
  ci_fact_sources :: "(fact_field \<times> fact_source) list"
  ci_age :: "int option"
  ci_abv :: "rat option"
  ci_volume :: "int option"

definition source_column :: "canonical_input \<Rightarrow> fact_field \<Rightarrow> 'a option \<Rightarrow> fact_source option" where
  \<comment> \<open>a source is stored only next to a value\<close>
  "source_column ci field v =
     (case v of None \<Rightarrow> None
      | Some _ \<Rightarrow> Some (case js_get (ci_fact_sources ci) field of None \<Rightarrow> Fact_Store | Some s \<Rightarrow> s))"

definition new_product :: "int \<Rightarrow> row_id \<Rightarrow> string option \<Rightarrow> canonical_input \<Rightarrow> product_row" where
  "new_product now i key ci =
     \<lparr>pd_id = i, pd_match_key = key, pd_name = ci_name ci, pd_age = ci_age ci, pd_abv = ci_abv ci,
      pd_volume = ci_volume ci, pd_brand_orig = ci_brand_orig ci, pd_type_id = ci_type_id ci,
      pd_country_id = ci_country_id ci, pd_last_llm_flavor_at = None, pd_flavors_curated_at = None,
      pd_producer_id = None, pd_bottler_id = None,
      pd_name_source = source_column ci Field_Name (ci_name ci),
      pd_type_source = source_column ci Field_Type (ci_type_id ci),
      pd_country_source = source_column ci Field_Country (ci_country_id ci),
      pd_abv_source = source_column ci Field_Abv (ci_abv ci),
      pd_age_source = source_column ci Field_Age (ci_age ci),
      pd_volume_source = source_column ci Field_Volume (ci_volume ci),
      pd_producer_source = None, pd_review_status = Some Review_Pending, pd_reviewed_at = None,
      pd_created_at = now, pd_updated_at = now\<rparr>"

definition insert_product :: "int \<Rightarrow> string option \<Rightarrow> canonical_input \<Rightarrow> catalogue \<Rightarrow> row_id \<times> catalogue" where
  "insert_product now key ci db =
     (ct_next db, db\<lparr>ct_products := ct_products db @ [new_product now (ct_next db) key ci], ct_next := ct_next db + 1\<rparr>)"

definition create_unmatched :: "int \<Rightarrow> canonical_input \<Rightarrow> catalogue \<Rightarrow> row_id \<times> catalogue" where
  "create_unmatched now ci db = insert_product now None ci db"

section \<open>Resolving keys\<close>

definition same_identity :: "(string \<Rightarrow> string) \<Rightarrow> product_row \<Rightarrow> string option \<Rightarrow> int option \<Rightarrow> int option \<Rightarrow> bool" where
  "same_identity ident p name vol age =
     ((case (pd_name p, name) of (Some n, Some m) \<Rightarrow> ident n = ident m | _ \<Rightarrow> False)
      \<and> pd_volume p = vol \<and> pd_age p = age)"

definition known_keys :: "catalogue \<Rightarrow> string list \<Rightarrow> (string \<times> row_id) list" where
  "known_keys db keys =
     map (\<lambda>p. (the (pd_match_key p), pd_id p))
       (filter (\<lambda>p. case pd_match_key p of None \<Rightarrow> False | Some k \<Rightarrow> k \<in> set keys) (ct_products db)) @
     map (\<lambda>a. (al_key a, al_product a)) (filter (\<lambda>a. al_key a \<in> set keys) (ct_aliases db))"

definition resolve_known_keys :: "catalogue \<Rightarrow> string option list \<Rightarrow> (string \<times> row_id) list" where
  "resolve_known_keys db keys =
     (let present = List.map_filter (\<lambda>k. k) keys
      in if present = [] then [] else js_map (known_keys db present))"

definition by_age_of_row :: "product_row \<Rightarrow> product_row \<Rightarrow> rat" where
  \<comment> \<open>ORDER BY p.createdAt, p.id\<close>
  "by_age_of_row a b = js_or (of_int (pd_created_at a - pd_created_at b)) (by_number pd_id a b)"

definition identity_match :: "(string \<Rightarrow> string) \<Rightarrow> catalogue \<Rightarrow> canonical_input \<Rightarrow> row_id option" where
  \<comment> \<open>DISTINCT ON: the oldest row of the identity\<close>
  "identity_match ident db ci =
     (case js_sort by_age_of_row
             (filter (\<lambda>p. same_identity ident p (ci_name ci) (ci_volume ci) (ci_age ci)) (ct_products db)) of
        [] \<Rightarrow> None
      | p # _ \<Rightarrow> Some (pd_id p))"

definition resolve_by_identity :: "(string \<Rightarrow> string) \<Rightarrow> catalogue \<Rightarrow> canonical_input list \<Rightarrow> (string \<times> row_id) list" where
  "resolve_by_identity ident db inputs =
     js_map (List.map_filter
       (\<lambda>ci. case (identity_match ident db ci, ci_match_key ci) of
               (Some i, Some k) \<Rightarrow> if k = [] then None else Some (k, i)
             | _ \<Rightarrow> None) inputs)"

record created_row =
  cr_id :: row_id
  cr_key :: "string option"
  cr_is_new :: bool

definition find_or_create_one :: "int \<Rightarrow> canonical_input \<Rightarrow> created_row list \<times> catalogue \<Rightarrow> created_row list \<times> catalogue" where
  \<comment> \<open>INSERT ... ON CONFLICT (matchKey) DO UPDATE, an update that changes nothing\<close>
  "find_or_create_one now ci st =
     (case (case ci_match_key ci of None \<Rightarrow> None
            | Some k \<Rightarrow> find (\<lambda>p. pd_match_key p = Some k) (ct_products (snd st))) of
        Some p \<Rightarrow> (fst st @ [\<lparr>cr_id = pd_id p, cr_key = ci_match_key ci, cr_is_new = False\<rparr>], snd st)
      | None \<Rightarrow> (let (i, db) = insert_product now (ci_match_key ci) ci (snd st)
                 in (fst st @ [\<lparr>cr_id = i, cr_key = ci_match_key ci, cr_is_new = True\<rparr>], db)))"

definition insert_fresh :: "int \<Rightarrow> canonical_input list \<Rightarrow> catalogue \<Rightarrow> created_row list \<times> catalogue" where
  "insert_fresh now inputs db = fold (find_or_create_one now) inputs ([], db)"

definition is_known :: "(string \<times> row_id) list \<Rightarrow> canonical_input \<Rightarrow> bool" where
  "is_known m ci = (case ci_match_key ci of None \<Rightarrow> False | Some k \<Rightarrow> js_get m k \<noteq> None)"

definition find_or_create_by_match_keys :: "(string \<Rightarrow> string) \<Rightarrow> int \<Rightarrow> canonical_input list \<Rightarrow> catalogue \<Rightarrow>
    ((string option \<times> row_id) list \<times> nat) \<times> catalogue" where
  "find_or_create_by_match_keys ident now inputs db =
     (if inputs = [] then (([], 0), db)
      else (let known = resolve_known_keys db (map ci_match_key inputs);
                pending = filter (\<lambda>ci. \<not> is_known known ci) inputs;
                twins = resolve_by_identity ident db pending;
                fresh = filter (\<lambda>ci. \<not> is_known twins ci) pending;
                (rows, db') = insert_fresh now fresh db
            in ((js_map (map (apfst Some) known @ map (apfst Some) twins @ map (\<lambda>r. (cr_key r, cr_id r)) rows),
                 length (filter cr_is_new rows)), db')))"

definition identity_twins :: "(string \<Rightarrow> string) \<Rightarrow> catalogue \<Rightarrow> string option \<Rightarrow> int option \<Rightarrow> int option \<Rightarrow>
    row_id option \<Rightarrow> row_id list" where
  \<comment> \<open>the most listed first\<close>
  "identity_twins ident db name vol age except =
     map pd_id (js_sort
       (\<lambda>a b. js_or (of_nat (sql_affected (\<lambda>x. of_product x = pd_id b) (ct_offers db))
                       - of_nat (sql_affected (\<lambda>x. of_product x = pd_id a) (ct_offers db)))
                     (by_age_of_row a b))
       (filter (\<lambda>p. same_identity ident p name vol age \<and> Some (pd_id p) \<noteq> except) (ct_products db)))"

end
