(* ===== verification/Catalogue_Writes.thy ===== *)
theory Catalogue_Writes
  imports Catalogue
begin

text \<open>
  The writes of the scrape path and of the knowledge base: ProductRepository's fill of secondary
  facts, producer links, knowledge-base facts and flavors, keyword, model and manual flavors and
  the conflict log; StoreProductRepository's offer upsert, relink and out-of-stock flags;
  PriceSnapshotRepository's row of the day.
\<close>

section \<open>Facts\<close>

record fill_input =
  fi_id :: row_id
  fi_abv :: "rat option"
  fi_type_id :: "row_id option"
  fi_country_id :: "row_id option"
  fi_brand_orig :: "string option"
  fi_abv_source :: fact_source
  fi_type_source :: fact_source
  fi_country_source :: fact_source

definition incoming_wins :: "'a option \<Rightarrow> fact_source \<Rightarrow> 'a option \<Rightarrow> fact_source option \<Rightarrow> bool" where
  "incoming_wins v src stored stored_src \<longleftrightarrow>
     v \<noteq> None \<and> stored_src \<noteq> Some Fact_Manual
     \<and> (stored = None \<or> fact_source_rank src > rank_of stored_src)"

definition fill_value :: "'a option \<Rightarrow> fact_source \<Rightarrow> 'a option \<Rightarrow> fact_source option \<Rightarrow> 'a option" where
  "fill_value v src stored stored_src = (if incoming_wins v src stored stored_src then v else stored)"

definition fill_source :: "'a option \<Rightarrow> fact_source \<Rightarrow> 'a option \<Rightarrow> fact_source option \<Rightarrow> fact_source option" where
  "fill_source v src stored stored_src = (if incoming_wins v src stored stored_src then Some src else stored_src)"

definition fill_touches :: "fill_input \<Rightarrow> product_row \<Rightarrow> bool" where
  "fill_touches v p \<longleftrightarrow>
     pd_id p = fi_id v
     \<and> ((fi_brand_orig v \<noteq> None \<and> pd_brand_orig p = None)
        \<or> incoming_wins (fi_abv v) (fi_abv_source v) (pd_abv p) (pd_abv_source p)
        \<or> incoming_wins (fi_type_id v) (fi_type_source v) (pd_type_id p) (pd_type_source p)
        \<or> incoming_wins (fi_country_id v) (fi_country_source v) (pd_country_id p) (pd_country_source p))"

definition coalesce :: "'a option \<Rightarrow> 'a option \<Rightarrow> 'a option" where
  "coalesce a b = (if a \<noteq> None then a else b)"

definition fill_row :: "int \<Rightarrow> fill_input \<Rightarrow> product_row \<Rightarrow> product_row" where
  "fill_row now v p =
     p\<lparr>pd_abv := fill_value (fi_abv v) (fi_abv_source v) (pd_abv p) (pd_abv_source p),
       pd_abv_source := fill_source (fi_abv v) (fi_abv_source v) (pd_abv p) (pd_abv_source p),
       pd_type_id := fill_value (fi_type_id v) (fi_type_source v) (pd_type_id p) (pd_type_source p),
       pd_type_source := fill_source (fi_type_id v) (fi_type_source v) (pd_type_id p) (pd_type_source p),
       pd_country_id := fill_value (fi_country_id v) (fi_country_source v) (pd_country_id p) (pd_country_source p),
       pd_country_source := fill_source (fi_country_id v) (fi_country_source v) (pd_country_id p) (pd_country_source p),
       pd_brand_orig := coalesce (pd_brand_orig p) (fi_brand_orig v),
       pd_updated_at := now\<rparr>"

definition fill_missing :: "int \<Rightarrow> fill_input list \<Rightarrow> catalogue \<Rightarrow> catalogue" where
  "fill_missing now fills db =
     (if fills = [] then db
      else db\<lparr>ct_products := sql_update_from fill_touches (fill_row now) fills (ct_products db)\<rparr>)"

record producer_write =
  pw_product :: row_id
  pw_producer :: "row_id option"
  pw_bottler :: "row_id option"
  pw_source :: fact_source

definition set_producers :: "int \<Rightarrow> producer_write list \<Rightarrow> catalogue \<Rightarrow> catalogue" where
  "set_producers now ws db =
     (if ws = [] then db
      else db\<lparr>ct_products := sql_update_from
        (\<lambda>v p. pd_id p = pw_product v \<and> pd_producer_source p \<noteq> Some Fact_Manual
               \<and> (pd_producer_id p \<noteq> pw_producer v \<or> pd_bottler_id p \<noteq> pw_bottler v
                  \<or> pd_producer_source p \<noteq> Some (pw_source v)))
        (\<lambda>v p. p\<lparr>pd_producer_id := pw_producer v, pd_bottler_id := pw_bottler v,
                 pd_producer_source := Some (pw_source v), pd_updated_at := now\<rparr>)
        ws (ct_products db)\<rparr>)"

definition set_producer_manual :: "int \<Rightarrow> row_id \<Rightarrow> row_id option \<Rightarrow> row_id option \<Rightarrow> catalogue \<Rightarrow> nat \<times> catalogue" where
  "set_producer_manual now i producer bottler db =
     (sql_affected (\<lambda>p. pd_id p = i) (ct_products db),
      db\<lparr>ct_products := sql_update (\<lambda>p. pd_id p = i)
        (\<lambda>p. p\<lparr>pd_producer_id := producer, pd_bottler_id := bottler,
               pd_producer_source := Some Fact_Manual, pd_updated_at := now\<rparr>) (ct_products db)\<rparr>)"

record fact_write =
  fw_product :: row_id
  fw_country :: "row_id option"
  fw_type :: "row_id option"

definition kb_may_write :: "'a option \<Rightarrow> fact_source option \<Rightarrow> bool" where
  "kb_may_write v stored_src \<longleftrightarrow> v \<noteq> None \<and> stored_src \<noteq> Some Fact_Manual"

definition kb_fact_differs :: "'a option \<Rightarrow> 'a option \<Rightarrow> fact_source option \<Rightarrow> bool" where
  "kb_fact_differs v stored stored_src \<longleftrightarrow>
     kb_may_write v stored_src \<and> (stored \<noteq> v \<or> stored_src \<noteq> Some Fact_Kb)"

definition kb_fact_row :: "int \<Rightarrow> fact_write \<Rightarrow> product_row \<Rightarrow> product_row" where
  "kb_fact_row now v p =
     p\<lparr>pd_country_id := coalesce (if pd_country_source p \<noteq> Some Fact_Manual then fw_country v else None) (pd_country_id p),
       pd_country_source := (if kb_may_write (fw_country v) (pd_country_source p) then Some Fact_Kb else pd_country_source p),
       pd_type_id := coalesce (if pd_type_source p \<noteq> Some Fact_Manual then fw_type v else None) (pd_type_id p),
       pd_type_source := (if kb_may_write (fw_type v) (pd_type_source p) then Some Fact_Kb else pd_type_source p),
       pd_updated_at := now\<rparr>"

definition apply_kb_facts :: "int \<Rightarrow> fact_write list \<Rightarrow> catalogue \<Rightarrow> catalogue" where
  "apply_kb_facts now ws db =
     (if ws = [] then db
      else db\<lparr>ct_products := sql_update_from
        (\<lambda>v p. pd_id p = fw_product v
               \<and> (kb_fact_differs (fw_country v) (pd_country_id p) (pd_country_source p)
                  \<or> kb_fact_differs (fw_type v) (pd_type_id p) (pd_type_source p)))
        (kb_fact_row now) ws (ct_products db)\<rparr>)"

section \<open>Flavors\<close>

definition uncurated :: "catalogue \<Rightarrow> row_id \<Rightarrow> bool" where
  \<comment> \<open>JOIN product p ON p.id = ... AND p.flavorsCuratedAt IS NULL\<close>
  "uncurated db i \<longleftrightarrow> (\<exists>p\<in>set (ct_products db). pd_id p = i \<and> pd_flavors_curated_at p = None)"

definition link_at :: "row_id \<Rightarrow> row_id \<Rightarrow> flavor_link \<Rightarrow> bool" where
  "link_at i f l \<longleftrightarrow> fl_product l = i \<and> fl_flavor l = f"

definition put_link :: "(flavor_source \<Rightarrow> flavor_source) \<Rightarrow> flavor_source \<Rightarrow> row_id \<times> row_id \<Rightarrow> flavor_link list \<Rightarrow> flavor_link list" where
  \<comment> \<open>the insert of one link, with the source an existing link ends up with\<close>
  "put_link keep src e ls =
     sql_upsert (link_at (fst e) (snd e)) (\<lambda>l. l\<lparr>fl_source := keep (fl_source l)\<rparr>)
       \<lparr>fl_product = fst e, fl_flavor = snd e, fl_source = src\<rparr> ls"

definition by_link :: "row_id \<times> row_id \<Rightarrow> row_id \<times> row_id \<Rightarrow> rat" where
  "by_link a b = js_or (by_number fst a b) (by_number snd a b)"

definition add_scrape_flavors :: "(row_id \<times> row_id) list \<Rightarrow> catalogue \<Rightarrow> catalogue" where
  "add_scrape_flavors links db =
     (if links = [] then db
      else db\<lparr>ct_links := fold (put_link (\<lambda>s. s) Flavor_Scrape)
        (filter (\<lambda>e. uncurated db (fst e)) links) (ct_links db)\<rparr>)"

definition stamp_llm :: "int \<Rightarrow> row_id \<Rightarrow> catalogue \<Rightarrow> catalogue" where
  "stamp_llm now i db =
     db\<lparr>ct_products := sql_update (\<lambda>p. pd_id p = i) (\<lambda>p. p\<lparr>pd_last_llm_flavor_at := Some now\<rparr>) (ct_products db)\<rparr>"

definition set_llm_flavors :: "int \<Rightarrow> row_id \<Rightarrow> row_id list \<Rightarrow> catalogue \<Rightarrow> catalogue" where
  "set_llm_flavors now i flavors db =
     (let cleared = sql_delete (\<lambda>l. fl_product l = i \<and> fl_source l = Flavor_Llm \<and> uncurated db i) (ct_links db);
          put = (if uncurated db i
                 then fold (put_link (\<lambda>s. if s \<noteq> Flavor_Kb then Flavor_Llm else s) Flavor_Llm)
                        (map (Pair i) (js_set flavors)) cleared
                 else cleared)
      in stamp_llm now i (db\<lparr>ct_links := put\<rparr>))"

definition stamp_curated :: "int \<Rightarrow> row_id \<Rightarrow> catalogue \<Rightarrow> catalogue" where
  "stamp_curated now i db =
     db\<lparr>ct_products := sql_update (\<lambda>p. pd_id p = i) (\<lambda>p. p\<lparr>pd_flavors_curated_at := Some now\<rparr>) (ct_products db)\<rparr>"

definition set_manual_flavors :: "int \<Rightarrow> row_id \<Rightarrow> row_id list \<Rightarrow> catalogue \<Rightarrow> catalogue" where
  "set_manual_flavors now i flavors db =
     stamp_curated now i
       (db\<lparr>ct_links := sql_delete (\<lambda>l. fl_product l = i) (ct_links db) @
            map (\<lambda>f. \<lparr>fl_product = i, fl_flavor = f, fl_source = Flavor_Manual\<rparr>)
              (js_sort (by_number (\<lambda>f. f)) (js_set flavors))\<rparr>)"

record flavor_write =
  vw_product :: row_id
  vw_insert :: "row_id list"
  vw_delete :: "row_id list"

definition flatten_writes :: "(flavor_write \<Rightarrow> row_id list) \<Rightarrow> flavor_write list \<Rightarrow> (row_id \<times> row_id) list" where
  "flatten_writes pick ws =
     js_sort by_link (concat (map (\<lambda>w. map (Pair (vw_product w)) (js_set (pick w))) ws))"

definition delete_kb_links :: "(row_id \<times> row_id) list \<Rightarrow> catalogue \<Rightarrow> catalogue" where
  "delete_kb_links es db =
     db\<lparr>ct_links := sql_delete (\<lambda>l. (fl_product l, fl_flavor l) \<in> set es \<and> uncurated db (fl_product l)
                                    \<and> fl_source l \<noteq> Flavor_Manual) (ct_links db)\<rparr>"

definition insert_kb_links :: "(row_id \<times> row_id) list \<Rightarrow> catalogue \<Rightarrow> catalogue" where
  "insert_kb_links es db =
     db\<lparr>ct_links := fold (put_link (\<lambda>_. Flavor_Kb) Flavor_Kb) (filter (\<lambda>e. uncurated db (fst e)) es) (ct_links db)\<rparr>"

definition apply_kb_flavors :: "flavor_write list \<Rightarrow> catalogue \<Rightarrow> catalogue" where
  "apply_kb_flavors ws db =
     (let deletions = flatten_writes vw_delete ws;
          insertions = flatten_writes vw_insert ws;
          db1 = (if deletions \<noteq> [] then delete_kb_links deletions db else db)
      in if insertions \<noteq> [] then insert_kb_links insertions db1 else db1)"

section \<open>Conflict log\<close>

record conflict_input =
  cn_product :: row_id
  cn_store :: row_id
  cn_attribute :: fact_field
  cn_stored_value :: conflict_value
  cn_claimed_value :: conflict_value
  cn_stored_source :: fact_source

definition conflict_key :: "conflict_row \<Rightarrow> row_id \<times> row_id \<times> fact_field" where
  "conflict_key r = (cf_product r, cf_store r, cf_attribute r)"

definition log_conflict :: "int \<Rightarrow> conflict_input \<Rightarrow> conflict_row list \<Rightarrow> conflict_row list" where
  "log_conflict now c rs =
     sql_upsert (\<lambda>r. conflict_key r = (cn_product c, cn_store c, cn_attribute c))
       (\<lambda>r. r\<lparr>cf_stored_value := cn_stored_value c, cf_claimed_value := cn_claimed_value c,
              cf_stored_source := cn_stored_source c, cf_seen_count := cf_seen_count r + 1,
              cf_last_seen_at := now\<rparr>)
       \<lparr>cf_product = cn_product c, cf_store = cn_store c, cf_attribute = cn_attribute c,
        cf_stored_value = cn_stored_value c, cf_claimed_value = cn_claimed_value c,
        cf_stored_source = cn_stored_source c, cf_seen_count = 1, cf_first_seen_at = now,
        cf_last_seen_at = now, cf_resolved_at = None\<rparr> rs"

definition log_fact_conflicts :: "int \<Rightarrow> conflict_input list \<Rightarrow> catalogue \<Rightarrow> catalogue" where
  "log_fact_conflicts now cs db =
     (if cs = [] then db else db\<lparr>ct_conflicts := fold (log_conflict now) cs (ct_conflicts db)\<rparr>)"

section \<open>Offers\<close>

record offer_input =
  oi_store :: row_id
  oi_product :: "row_id option"
  oi_sku :: string
  oi_url :: string
  oi_name_orig :: string
  oi_seen_on :: string

record offer_result =
  or_id :: row_id
  or_product :: row_id
  or_is_new :: bool

definition offer_at :: "row_id \<Rightarrow> string \<Rightarrow> offer_row \<Rightarrow> bool" where
  "offer_at store sku o' \<longleftrightarrow> of_store o' = store \<and> of_sku o' = sku"

definition refresh_offer :: "offer_input \<Rightarrow> offer_row \<Rightarrow> offer_row" where
  "refresh_offer oi o' = o'\<lparr>of_url := oi_url oi, of_name_orig := oi_name_orig oi, of_in_stock := True,
                           of_last_seen := oi_seen_on oi\<rparr>"

definition touch_offer :: "offer_input \<Rightarrow> catalogue \<Rightarrow> offer_result option \<times> catalogue" where
  "touch_offer oi db =
     (map_option (\<lambda>o'. \<lparr>or_id = of_id o', or_product = of_product o', or_is_new = False\<rparr>)
        (find (offer_at (oi_store oi) (oi_sku oi)) (ct_offers db)),
      db\<lparr>ct_offers := sql_update (offer_at (oi_store oi) (oi_sku oi)) (refresh_offer oi) (ct_offers db)\<rparr>)"

definition new_offer :: "row_id \<Rightarrow> row_id \<Rightarrow> offer_input \<Rightarrow> offer_row" where
  "new_offer i product oi =
     \<lparr>of_id = i, of_store = oi_store oi, of_product = product, of_sku = oi_sku oi, of_url = oi_url oi,
      of_name_orig = oi_name_orig oi, of_in_stock = True, of_first_seen = oi_seen_on oi,
      of_last_seen = oi_seen_on oi\<rparr>"

definition insert_offer :: "row_id \<Rightarrow> offer_input \<Rightarrow> catalogue \<Rightarrow> offer_result \<times> catalogue" where
  \<comment> \<open>the link is written by the insert and never by the update\<close>
  "insert_offer product oi db =
     (case find (offer_at (oi_store oi) (oi_sku oi)) (ct_offers db) of
        Some o' \<Rightarrow> (\<lparr>or_id = of_id o', or_product = of_product o', or_is_new = False\<rparr>,
                    db\<lparr>ct_offers := sql_update (offer_at (oi_store oi) (oi_sku oi)) (refresh_offer oi) (ct_offers db)\<rparr>)
      | None \<Rightarrow> (\<lparr>or_id = ct_next db, or_product = product, or_is_new = True\<rparr>,
                 db\<lparr>ct_offers := ct_offers db @ [new_offer (ct_next db) product oi], ct_next := ct_next db + 1\<rparr>))"

definition upsert_from_scrape :: "offer_input \<Rightarrow> catalogue \<Rightarrow> offer_result option \<times> catalogue" where
  "upsert_from_scrape oi db =
     (case oi_product oi of
        None \<Rightarrow> touch_offer oi db
      | Some product \<Rightarrow> apfst Some (insert_offer product oi db))"

definition relink_offer :: "row_id \<Rightarrow> row_id \<Rightarrow> catalogue \<Rightarrow> row_id option \<times> catalogue" where
  "relink_offer i product db =
     (map_option of_product (find (\<lambda>o'. of_id o' = i) (ct_offers db)),
      db\<lparr>ct_offers := sql_update (\<lambda>o'. of_id o' = i) (\<lambda>o'. o'\<lparr>of_product := product\<rparr>) (ct_offers db)\<rparr>)"

definition existing_skus :: "catalogue \<Rightarrow> row_id \<Rightarrow> string list" where
  "existing_skus db store = map of_sku (filter (\<lambda>o'. of_store o' = store) (ct_offers db))"

definition flag_offers :: "(offer_row \<Rightarrow> bool) \<Rightarrow> catalogue \<Rightarrow> nat \<times> catalogue" where
  "flag_offers w db =
     (sql_affected w (ct_offers db), db\<lparr>ct_offers := sql_update w (\<lambda>o'. o'\<lparr>of_in_stock := False\<rparr>) (ct_offers db)\<rparr>)"

definition mark_out_of_stock_by_skus :: "row_id \<Rightarrow> string list \<Rightarrow> catalogue \<Rightarrow> nat \<times> catalogue" where
  "mark_out_of_stock_by_skus store skus db =
     (if skus = [] then (0, db)
      else flag_offers (\<lambda>o'. of_store o' = store \<and> of_in_stock o' \<and> of_sku o' \<in> set skus) db)"

definition mark_out_of_stock_except :: "row_id \<Rightarrow> string list \<Rightarrow> catalogue \<Rightarrow> nat \<times> catalogue" where
  "mark_out_of_stock_except store keep db =
     flag_offers (\<lambda>o'. of_store o' = store \<and> of_in_stock o' \<and> of_sku o' \<notin> set keep) db"

definition count_by_store :: "catalogue \<Rightarrow> row_id \<Rightarrow> nat" where
  "count_by_store db store =
     sql_affected (\<lambda>o'. of_store o' = store \<and> of_in_stock o'
        \<and> (\<exists>p\<in>set (ct_products db). pd_id p = of_product o' \<and> pd_review_status p \<noteq> Some Review_Rejected)) (ct_offers db)"

section \<open>Price snapshots\<close>

record snapshot_input =
  si_price :: rat
  si_old_price :: "rat option"
  si_currency :: string
  si_in_stock :: bool
  si_promo :: bool

definition snapshot_at :: "row_id \<Rightarrow> string \<Rightarrow> snapshot_row \<Rightarrow> bool" where
  "snapshot_at offer day s \<longleftrightarrow> sn_offer s = offer \<and> sn_captured_on s = day"

definition upsert_for_date :: "row_id \<Rightarrow> string \<Rightarrow> snapshot_input \<Rightarrow> catalogue \<Rightarrow> catalogue" where
  "upsert_for_date offer day si db =
     db\<lparr>ct_snapshots := sql_upsert (snapshot_at offer day)
       (\<lambda>s. s\<lparr>sn_price := si_price si, sn_old_price := si_old_price si, sn_currency := si_currency si,
              sn_in_stock := si_in_stock si, sn_promo := si_promo si\<rparr>)
       \<lparr>sn_offer = offer, sn_captured_on = day, sn_price = si_price si, sn_old_price = si_old_price si,
        sn_currency = si_currency si, sn_in_stock = si_in_stock si, sn_promo = si_promo si\<rparr> (ct_snapshots db)\<rparr>"

definition mark_out_of_stock_for_day :: "row_id \<Rightarrow> string \<Rightarrow> catalogue \<Rightarrow> nat \<times> catalogue" where
  "mark_out_of_stock_for_day store day db =
     (let w = (\<lambda>s. sn_captured_on s = day \<and> sn_in_stock s
                   \<and> (\<exists>o'\<in>set (ct_offers db). of_id o' = sn_offer s \<and> of_store o' = store \<and> \<not> of_in_stock o'))
      in (sql_affected w (ct_snapshots db),
          db\<lparr>ct_snapshots := sql_update w (\<lambda>s. s\<lparr>sn_in_stock := False\<rparr>) (ct_snapshots db)\<rparr>))"

end
