(* ===== verification/Product_Merge.thy ===== *)
theory Product_Merge
  imports Catalogue_Writes
begin

text \<open>
  Folding one bottling into another (ProductRepository.mergeInto of core/product) and the writes a
  person's decision makes beside it: the deletion of an unreferenced bottling, the review verdict,
  the confirmation of facts and the acknowledgement of conflicts. A deleted product takes its
  flavor links, conflicts, retired keys and list entries with it (ON DELETE CASCADE); an offer or a
  collection entry that still names it refuses the deletion (RESTRICT).
\<close>

section \<open>Facts\<close>

definition loser_wins :: "'a option \<Rightarrow> fact_source option \<Rightarrow> 'a option \<Rightarrow> fact_source option \<Rightarrow> bool" where
  "loser_wins l l_src k k_src \<longleftrightarrow>
     l \<noteq> None \<and> k_src \<noteq> Some Fact_Manual \<and> (k = None \<or> rank_of l_src > rank_of k_src)"

definition loser_decides :: "fact_source option \<Rightarrow> fact_source option \<Rightarrow> bool" where
  "loser_decides l_src k_src \<longleftrightarrow> l_src = Some Fact_Manual \<and> k_src \<noteq> Some Fact_Manual"

definition producer_wins :: "product_row \<Rightarrow> product_row \<Rightarrow> bool" where
  \<comment> \<open>\<open>k\<close> is kept, \<open>l\<close> is lost\<close>
  "producer_wins k l \<longleftrightarrow>
     (pd_producer_source l = Some Fact_Manual \<and> pd_producer_source k \<noteq> Some Fact_Manual)
     \<or> (pd_producer_id k = None \<and> pd_producer_id l \<noteq> None \<and> pd_producer_source k \<noteq> Some Fact_Manual)"

definition merged_status :: "product_row \<Rightarrow> product_row \<Rightarrow> review_status option" where
  "merged_status k l =
     (let has = (\<lambda>s. pd_review_status k = Some s \<or> pd_review_status l = Some s)
      in if has Review_Rejected then Some Review_Rejected
         else if has Review_Pending then Some Review_Pending
         else if has Review_Verified then Some Review_Verified
         else None)"

definition greatest :: "int option \<Rightarrow> int option \<Rightarrow> int option" where
  \<comment> \<open>GREATEST ignores a null\<close>
  "greatest a b = (case (a, b) of (Some x, Some y) \<Rightarrow> Some (max x y) | (None, _) \<Rightarrow> b | (_, None) \<Rightarrow> a)"

definition merge_row :: "int \<Rightarrow> product_row \<Rightarrow> product_row \<Rightarrow> product_row" where
  "merge_row now k l =
     (let name = loser_decides (pd_name_source l) (pd_name_source k);
          age = loser_decides (pd_age_source l) (pd_age_source k);
          vol = loser_decides (pd_volume_source l) (pd_volume_source k);
          abv = loser_wins (pd_abv l) (pd_abv_source l) (pd_abv k) (pd_abv_source k);
          type = loser_wins (pd_type_id l) (pd_type_source l) (pd_type_id k) (pd_type_source k);
          country = loser_wins (pd_country_id l) (pd_country_source l) (pd_country_id k) (pd_country_source k);
          producer = producer_wins k l
      in k\<lparr>pd_name := (if name then pd_name l else pd_name k),
           pd_name_source := (if name then pd_name_source l else pd_name_source k),
           pd_age := (if age then pd_age l else pd_age k),
           pd_age_source := (if age then pd_age_source l else pd_age_source k),
           pd_volume := (if vol then pd_volume l else pd_volume k),
           pd_volume_source := (if vol then pd_volume_source l else pd_volume_source k),
           pd_abv := (if abv then pd_abv l else pd_abv k),
           pd_abv_source := (if abv then pd_abv_source l else pd_abv_source k),
           pd_type_id := (if type then pd_type_id l else pd_type_id k),
           pd_type_source := (if type then pd_type_source l else pd_type_source k),
           pd_country_id := (if country then pd_country_id l else pd_country_id k),
           pd_country_source := (if country then pd_country_source l else pd_country_source k),
           pd_producer_id := (if producer then pd_producer_id l else pd_producer_id k),
           pd_bottler_id := (if producer then pd_bottler_id l else pd_bottler_id k),
           pd_producer_source := (if producer then pd_producer_source l else pd_producer_source k),
           pd_brand_orig := coalesce (pd_brand_orig k) (pd_brand_orig l),
           pd_last_llm_flavor_at := greatest (pd_last_llm_flavor_at k) (pd_last_llm_flavor_at l),
           pd_flavors_curated_at := greatest (pd_flavors_curated_at k) (pd_flavors_curated_at l),
           pd_review_status := merged_status k l,
           pd_reviewed_at := greatest (pd_reviewed_at k) (pd_reviewed_at l),
           pd_updated_at := now\<rparr>)"

definition merge_facts :: "int \<Rightarrow> row_id \<Rightarrow> row_id \<Rightarrow> catalogue \<Rightarrow> catalogue" where
  "merge_facts now survivor loser db =
     db\<lparr>ct_products := sql_update_from (\<lambda>l k. pd_id k = survivor) (\<lambda>l k. merge_row now k l)
        (filter (\<lambda>l. pd_id l = loser) (ct_products db)) (ct_products db)\<rparr>"

section \<open>Tags and conflicts\<close>

definition drop_links :: "row_id \<Rightarrow> catalogue \<Rightarrow> catalogue" where
  "drop_links i db = db\<lparr>ct_links := sql_delete (\<lambda>l. fl_product l = i) (ct_links db)\<rparr>"

definition better_source :: "flavor_source \<Rightarrow> flavor_source \<Rightarrow> flavor_source" where
  "better_source incoming stored =
     (if flavor_source_rank incoming > flavor_source_rank stored then incoming else stored)"

definition merge_link :: "row_id \<Rightarrow> flavor_link \<Rightarrow> flavor_link list \<Rightarrow> flavor_link list" where
  "merge_link survivor l ls = put_link (better_source (fl_source l)) (fl_source l) (survivor, fl_flavor l) ls"

definition merge_flavors :: "row_id \<Rightarrow> row_id \<Rightarrow> catalogue \<Rightarrow> catalogue" where
  "merge_flavors survivor loser db =
     db\<lparr>ct_links := fold (merge_link survivor) (filter (\<lambda>l. fl_product l = loser) (ct_links db)) (ct_links db)\<rparr>"

definition merge_conflict :: "row_id \<Rightarrow> conflict_row \<Rightarrow> conflict_row list \<Rightarrow> conflict_row list" where
  "merge_conflict survivor c cs =
     sql_upsert (\<lambda>r. conflict_key r = (survivor, cf_store c, cf_attribute c))
       (\<lambda>r. r\<lparr>cf_seen_count := cf_seen_count r + cf_seen_count c,
              cf_first_seen_at := min (cf_first_seen_at r) (cf_first_seen_at c),
              cf_last_seen_at := max (cf_last_seen_at r) (cf_last_seen_at c)\<rparr>)
       (c\<lparr>cf_product := survivor\<rparr>) cs"

definition merge_conflicts :: "row_id \<Rightarrow> row_id \<Rightarrow> catalogue \<Rightarrow> catalogue" where
  "merge_conflicts survivor loser db =
     db\<lparr>ct_conflicts := fold (merge_conflict survivor) (filter (\<lambda>c. cf_product c = loser) (ct_conflicts db)) (ct_conflicts db)\<rparr>"

section \<open>Offers, lists and collections\<close>

definition move_offers :: "row_id \<Rightarrow> row_id \<Rightarrow> catalogue \<Rightarrow> catalogue" where
  "move_offers loser survivor db =
     db\<lparr>ct_offers := sql_update (\<lambda>x. of_product x = loser) (\<lambda>x. x\<lparr>of_product := survivor\<rparr>) (ct_offers db)\<rparr>"

definition move_user_list :: "row_id \<Rightarrow> row_id \<Rightarrow> list_row list \<Rightarrow> list_row list" where
  \<comment> \<open>the guarded move of one table, then the deletion of what stayed behind\<close>
  "move_user_list loser survivor xs =
     sql_delete (\<lambda>x. ul_product x = loser)
       (sql_update (\<lambda>x. ul_product x = loser \<and> \<not> (\<exists>kept\<in>set xs. ul_user kept = ul_user x \<and> ul_product kept = survivor))
          (\<lambda>x. x\<lparr>ul_product := survivor\<rparr>) xs)"

definition move_user_lists :: "row_id \<Rightarrow> row_id \<Rightarrow> catalogue \<Rightarrow> catalogue" where
  "move_user_lists loser survivor db =
     db\<lparr>ct_favorites := move_user_list loser survivor (ct_favorites db),
        ct_blacklist := move_user_list loser survivor (ct_blacklist db)\<rparr>"

definition kept_collection :: "row_id \<Rightarrow> row_id \<Rightarrow> collection_row list \<Rightarrow> row_id \<Rightarrow> row_id option" where
  \<comment> \<open>the entry on the survivor of the user whose entry on the vanishing bottling is \<open>c\<close>\<close>
  "kept_collection loser survivor cs c =
     (case find (\<lambda>l. co_id l = c \<and> co_product l = loser) cs of
        None \<Rightarrow> None
      | Some l \<Rightarrow> map_option co_id (find (\<lambda>k. co_user k = co_user l \<and> co_product k = survivor) cs))"

definition move_purchases :: "row_id \<Rightarrow> row_id \<Rightarrow> catalogue \<Rightarrow> catalogue" where
  "move_purchases loser survivor db =
     db\<lparr>ct_purchases := map (\<lambda>p. case kept_collection loser survivor (ct_collection db) (pu_collection p) of
            None \<Rightarrow> p | Some k \<Rightarrow> p\<lparr>pu_collection := k\<rparr>) (ct_purchases db)\<rparr>"

definition drop_collection :: "(collection_row \<Rightarrow> bool) \<Rightarrow> catalogue \<Rightarrow> catalogue" where
  \<comment> \<open>a deleted entry takes its purchases with it\<close>
  "drop_collection w db =
     (let gone = co_id ` set (filter w (ct_collection db))
      in db\<lparr>ct_collection := sql_delete w (ct_collection db),
            ct_purchases := sql_delete (\<lambda>p. pu_collection p \<in> gone) (ct_purchases db)\<rparr>)"

definition collides :: "row_id \<Rightarrow> row_id \<Rightarrow> collection_row list \<Rightarrow> collection_row \<Rightarrow> bool" where
  "collides loser survivor cs l \<longleftrightarrow>
     co_product l = loser \<and> (\<exists>k\<in>set cs. co_user k = co_user l \<and> co_product k = survivor)"

definition move_collection :: "row_id \<Rightarrow> row_id \<Rightarrow> catalogue \<Rightarrow> catalogue" where
  "move_collection loser survivor db =
     (let db1 = move_purchases loser survivor db;
          db2 = drop_collection (collides loser survivor (ct_collection db1)) db1
      in db2\<lparr>ct_collection := sql_update (\<lambda>c. co_product c = loser) (\<lambda>c. c\<lparr>co_product := survivor\<rparr>) (ct_collection db2)\<rparr>)"

section \<open>Keys\<close>

definition set_key :: "row_id \<Rightarrow> string option \<Rightarrow> catalogue \<Rightarrow> catalogue" where
  "set_key i key db =
     db\<lparr>ct_products := sql_update (\<lambda>p. pd_id p = i) (\<lambda>p. p\<lparr>pd_match_key := key\<rparr>) (ct_products db)\<rparr>"

definition retire_key :: "row_id \<times> string option \<Rightarrow> row_id \<times> string option \<Rightarrow> catalogue \<Rightarrow> catalogue" where
  "retire_key loser survivor db =
     (let db1 = db\<lparr>ct_aliases := sql_update (\<lambda>a. al_product a = fst loser) (\<lambda>a. a\<lparr>al_product := fst survivor\<rparr>) (ct_aliases db)\<rparr>
      in case snd loser of
           None \<Rightarrow> db1
         | Some key \<Rightarrow>
             (let db2 = set_key (fst loser) None db1
              in if snd survivor = None then set_key (fst survivor) (Some key) db2
                 else db2\<lparr>ct_aliases := sql_upsert (\<lambda>a. al_key a = key) (\<lambda>a. a\<lparr>al_product := fst survivor\<rparr>)
                        \<lparr>al_key = key, al_product = fst survivor\<rparr> (ct_aliases db2)\<rparr>))"

section \<open>Deleting a bottling\<close>

datatype product_error =
    Merge_Into_Itself
  | Merge_Missing
  | Row_Still_Referenced
  | Not_Found_Product row_id
  | Not_Found_Offer row_id
  | Unknown_Country string
  | Unknown_Type string
  | Unknown_Flavors "string list"
  | Relink_Needs_Target
  | Review_Merge_Same
  | Review_Merge_Missing
  | Unknown_Field string

definition referenced :: "row_id \<Rightarrow> catalogue \<Rightarrow> bool" where
  \<comment> \<open>by a table whose foreign key restricts\<close>
  "referenced i db \<longleftrightarrow> (\<exists>x\<in>set (ct_offers db). of_product x = i) \<or> (\<exists>c\<in>set (ct_collection db). co_product c = i)"

definition delete_row :: "row_id \<Rightarrow> catalogue \<Rightarrow> catalogue" where
  \<comment> \<open>with what cascades\<close>
  "delete_row i db =
     db\<lparr>ct_products := sql_delete (\<lambda>p. pd_id p = i) (ct_products db),
        ct_aliases := sql_delete (\<lambda>a. al_product a = i) (ct_aliases db),
        ct_links := sql_delete (\<lambda>l. fl_product l = i) (ct_links db),
        ct_conflicts := sql_delete (\<lambda>c. cf_product c = i) (ct_conflicts db),
        ct_favorites := sql_delete (\<lambda>x. ul_product x = i) (ct_favorites db),
        ct_blacklist := sql_delete (\<lambda>x. ul_product x = i) (ct_blacklist db)\<rparr>"

definition delete_product :: "row_id \<Rightarrow> catalogue \<Rightarrow> product_error + catalogue" where
  "delete_product i db = (if referenced i db then Inl Row_Still_Referenced else Inr (delete_row i db))"

definition delete_if_unreferenced :: "row_id \<Rightarrow> catalogue \<Rightarrow> bool \<times> catalogue" where
  "delete_if_unreferenced i db =
     (if product_by_id db i = None \<or> referenced i db
         \<or> (\<exists>x\<in>set (ct_favorites db). ul_product x = i) \<or> (\<exists>x\<in>set (ct_blacklist db). ul_product x = i)
      then (False, db) else (True, delete_row i db))"

section \<open>Merging\<close>

definition merge_into :: "int \<Rightarrow> row_id \<Rightarrow> row_id \<Rightarrow> catalogue \<Rightarrow> product_error + catalogue" where
  "merge_into now loser survivor db =
     (if loser = survivor then Inl Merge_Into_Itself
      else case (product_by_id db loser, product_by_id db survivor) of
             (Some l, Some k) \<Rightarrow>
               (let db1 = merge_facts now survivor loser db;
                    db2 = (if pd_flavors_curated_at l \<noteq> None \<and> pd_flavors_curated_at k = None then drop_links survivor db1 else db1);
                    db3 = merge_flavors survivor loser db2;
                    db4 = merge_conflicts survivor loser db3;
                    db5 = move_offers loser survivor db4;
                    db6 = move_user_lists loser survivor db5;
                    db7 = move_collection loser survivor db6;
                    db8 = retire_key (loser, pd_match_key l) (survivor, pd_match_key k) db7
                in delete_product loser db8)
           | _ \<Rightarrow> Inl Merge_Missing)"

section \<open>A person's verdict\<close>

definition apply_review_status :: "int \<Rightarrow> row_id list \<Rightarrow> review_status \<Rightarrow> bool \<Rightarrow> catalogue \<Rightarrow> nat \<times> catalogue" where
  "apply_review_status now ids status only_pending db =
     (if ids = [] then (0, db)
      else (let w = (\<lambda>p. pd_id p \<in> set ids \<and> (only_pending \<longrightarrow> pd_review_status p = Some Review_Pending))
            in (sql_affected w (ct_products db),
                db\<lparr>ct_products := sql_update w
                     (\<lambda>p. p\<lparr>pd_review_status := Some status, pd_reviewed_at := Some now, pd_updated_at := now\<rparr>) (ct_products db)\<rparr>)))"

fun stamp_source :: "fact_field \<Rightarrow> product_row \<Rightarrow> product_row" where
  "stamp_source Field_Name p = p\<lparr>pd_name_source := Some Fact_Manual\<rparr>"
| "stamp_source Field_Type p = p\<lparr>pd_type_source := Some Fact_Manual\<rparr>"
| "stamp_source Field_Country p = p\<lparr>pd_country_source := Some Fact_Manual\<rparr>"
| "stamp_source Field_Abv p = p\<lparr>pd_abv_source := Some Fact_Manual\<rparr>"
| "stamp_source Field_Age p = p\<lparr>pd_age_source := Some Fact_Manual\<rparr>"
| "stamp_source Field_Volume p = p\<lparr>pd_volume_source := Some Fact_Manual\<rparr>"
| "stamp_source Field_Producer p = p\<lparr>pd_producer_source := Some Fact_Manual\<rparr>"

definition stamp_manual :: "int \<Rightarrow> row_id \<Rightarrow> fact_field list \<Rightarrow> catalogue \<Rightarrow> nat \<times> catalogue" where
  "stamp_manual now i fs db =
     (if fs = [] then (0, db)
      else (sql_affected (\<lambda>p. pd_id p = i) (ct_products db),
            db\<lparr>ct_products := sql_update (\<lambda>p. pd_id p = i)
                 (\<lambda>p. (fold stamp_source (js_set fs) p)\<lparr>pd_updated_at := now\<rparr>) (ct_products db)\<rparr>))"

definition acknowledge_conflicts :: "int \<Rightarrow> row_id \<Rightarrow> catalogue \<Rightarrow> nat \<times> catalogue" where
  "acknowledge_conflicts now i db =
     (let w = (\<lambda>c. cf_product c = i \<and> cf_resolved_at c = None)
      in (sql_affected w (ct_conflicts db),
          db\<lparr>ct_conflicts := sql_update w (\<lambda>c. c\<lparr>cf_resolved_at := Some now\<rparr>) (ct_conflicts db)\<rparr>))"

end
