(* ===== verification/Product_Edit.thy ===== *)
theory Product_Edit
  imports Product_Merge
begin

text \<open>
  A person's edits of the catalogue: ProductService of domain/product (edit a bottling and fold it
  together with its twins, move one offer onto another bottling) and the writes of
  ReviewCommitService (confirm facts, merge two bottlings, record a verdict). Each runs in one
  transaction, so an error leaves the catalogue as it was and is the whole result. The code column
  of the country table, which nothing else modelled reads, is the parameter \<open>code_of\<close>; a field
  that may be left out, cleared or set is an option of an option.
\<close>

section \<open>Requests and answers\<close>

record edit_input =
  ed_id :: row_id
  ed_name :: "string option option"
  ed_country :: "string option option"
  ed_type :: "string option option"
  ed_age :: "int option option"
  ed_abv :: "rat option option"
  ed_volume :: "int option option"
  ed_flavors :: "string list option"

record relink_input =
  rl_id :: row_id
  rl_product :: "row_id option"
  rl_name :: "string option"
  rl_country :: "string option"
  rl_type :: "string option"
  rl_age :: "int option"
  rl_abv :: "rat option"
  rl_volume :: "int option"
  rl_flavors :: "string list option"

record product_answer =
  pa_id :: row_id
  pa_product :: row_id
  pa_name :: "string option"
  pa_name_orig :: string
  pa_merged :: bool
  pa_created :: bool

section \<open>Lookups\<close>

definition by_stock_then_seen :: "offer_row \<Rightarrow> offer_row \<Rightarrow> rat" where
  \<comment> \<open>ORDER BY inStock DESC, lastSeen DESC; days compare as their text\<close>
  "by_stock_then_seen a b =
     js_or (of_bool (of_in_stock b) - of_bool (of_in_stock a)) (code_unit_compare (of_last_seen b) (of_last_seen a))"

definition find_offer_ref :: "row_id \<Rightarrow> catalogue \<Rightarrow> offer_row option" where
  "find_offer_ref i db =
     (case find (\<lambda>x. of_id x = i) (ct_offers db) of
        Some x \<Rightarrow> Some x
      | None \<Rightarrow> (case js_sort by_stock_then_seen (filter (\<lambda>x. of_product x = i) (ct_offers db)) of
                    [] \<Rightarrow> None | x # _ \<Rightarrow> Some x))"

definition resolve_country_id :: "(row_id \<Rightarrow> string) \<Rightarrow> string option \<Rightarrow> catalogue \<Rightarrow> product_error + row_id option" where
  "resolve_country_id code_of code db =
     (case code of
        None \<Rightarrow> Inr None
      | Some c \<Rightarrow> if c = [] then Inr None
          else (case find (\<lambda>r. code_of (lk_id r) = c) (ct_countries db) of
                  None \<Rightarrow> Inl (Unknown_Country c) | Some r \<Rightarrow> Inr (Some (lk_id r))))"

definition resolve_type_id :: "string option \<Rightarrow> catalogue \<Rightarrow> product_error + row_id option" where
  "resolve_type_id name db =
     (case name of
        None \<Rightarrow> Inr None
      | Some n \<Rightarrow> if n = [] then Inr None
          else (case find (\<lambda>r. lk_name r = n) (ct_types db) of
                  None \<Rightarrow> Inl (Unknown_Type n) | Some r \<Rightarrow> Inr (Some (lk_id r))))"

definition find_ids_by_name :: "string list \<Rightarrow> catalogue \<Rightarrow> (string \<times> row_id) list" where
  "find_ids_by_name names db =
     (let keys = js_set (filter (\<lambda>n. n \<noteq> []) (map js_trim names))
      in if keys = [] then []
         else js_map (map (\<lambda>r. (lk_name r, lk_id r)) (filter (\<lambda>r. lk_name r \<in> set keys) (ct_flavors db))))"

definition set_flavors :: "int \<Rightarrow> row_id \<Rightarrow> string list \<Rightarrow> catalogue \<Rightarrow> product_error + catalogue" where
  "set_flavors now i names db =
     (let resolved = find_ids_by_name names db;
          unknown = filter (\<lambda>n. js_get resolved (js_trim n) = None) names
      in if unknown \<noteq> [] then Inl (Unknown_Flavors unknown)
         else Inr (set_manual_flavors now i (map snd resolved) db))"

section \<open>Editing\<close>

record manual_patch =
  mp_name :: "string option option"
  mp_age :: "int option option"
  mp_abv :: "rat option option"
  mp_volume :: "int option option"
  mp_country :: "row_id option option"
  mp_type :: "row_id option option"

definition traverse_field :: "('a \<Rightarrow> 'e + 'b) \<Rightarrow> 'a option \<Rightarrow> 'e + 'b option" where
  \<comment> \<open>a field that was left out is not resolved\<close>
  "traverse_field f v = (case v of None \<Rightarrow> Inr None | Some x \<Rightarrow> (case f x of Inl e \<Rightarrow> Inl e | Inr y \<Rightarrow> Inr (Some y)))"

definition build_patch :: "(row_id \<Rightarrow> string) \<Rightarrow> edit_input \<Rightarrow> catalogue \<Rightarrow> product_error + manual_patch" where
  "build_patch code_of ed db =
     (case traverse_field (\<lambda>c. resolve_country_id code_of c db) (ed_country ed) of
        Inl e \<Rightarrow> Inl e
      | Inr country \<Rightarrow>
          (case traverse_field (\<lambda>n. resolve_type_id n db) (ed_type ed) of
             Inl e \<Rightarrow> Inl e
           | Inr type \<Rightarrow>
               Inr \<lparr>mp_name = ed_name ed, mp_age = ed_age ed, mp_abv = ed_abv ed, mp_volume = ed_volume ed,
                    mp_country = country, mp_type = type\<rparr>))"

definition stamped :: "'a option option \<Rightarrow> 'a option \<Rightarrow> 'a option" where
  \<comment> \<open>a stated field replaces the stored value, a null included\<close>
  "stamped v stored = (case v of None \<Rightarrow> stored | Some x \<Rightarrow> x)"

definition stamped_source :: "'a option option \<Rightarrow> fact_source option \<Rightarrow> fact_source option" where
  "stamped_source v stored = (if v = None then stored else Some Fact_Manual)"

definition patch_row :: "int \<Rightarrow> manual_patch \<Rightarrow> product_row \<Rightarrow> product_row" where
  "patch_row now mp p =
     p\<lparr>pd_name := stamped (mp_name mp) (pd_name p), pd_name_source := stamped_source (mp_name mp) (pd_name_source p),
       pd_age := stamped (mp_age mp) (pd_age p), pd_age_source := stamped_source (mp_age mp) (pd_age_source p),
       pd_abv := stamped (mp_abv mp) (pd_abv p), pd_abv_source := stamped_source (mp_abv mp) (pd_abv_source p),
       pd_volume := stamped (mp_volume mp) (pd_volume p), pd_volume_source := stamped_source (mp_volume mp) (pd_volume_source p),
       pd_country_id := stamped (mp_country mp) (pd_country_id p),
       pd_country_source := stamped_source (mp_country mp) (pd_country_source p),
       pd_type_id := stamped (mp_type mp) (pd_type_id p), pd_type_source := stamped_source (mp_type mp) (pd_type_source p),
       pd_updated_at := now\<rparr>"

definition save_patch :: "int \<Rightarrow> manual_patch \<Rightarrow> row_id \<Rightarrow> catalogue \<Rightarrow> catalogue" where
  "save_patch now mp i db = db\<lparr>ct_products := sql_update (\<lambda>p. pd_id p = i) (patch_row now mp) (ct_products db)\<rparr>"

fun merge_all :: "int \<Rightarrow> row_id \<Rightarrow> row_id list \<Rightarrow> catalogue \<Rightarrow> product_error + catalogue" where
  "merge_all now survivor [] db = Inr db"
| "merge_all now survivor (i # rest) db =
     (case merge_into now i survivor db of Inl e \<Rightarrow> Inl e | Inr db' \<Rightarrow> merge_all now survivor rest db')"

definition merge_twins :: "(string \<Rightarrow> string) \<Rightarrow> int \<Rightarrow> row_id \<Rightarrow> string option \<Rightarrow> int option \<Rightarrow> int option \<Rightarrow> catalogue \<Rightarrow>
    product_error + (row_id \<times> catalogue)" where
  "merge_twins ident now i name vol age db =
     (case identity_twins ident db name vol age (Some i) of
        [] \<Rightarrow> Inr (i, db)
      | survivor # rest \<Rightarrow>
          (case merge_all now survivor (i # rest) db of Inl e \<Rightarrow> Inl e | Inr db' \<Rightarrow> Inr (survivor, db')))"

definition finish_edit :: "(string \<Rightarrow> string) \<Rightarrow> int \<Rightarrow> edit_input \<Rightarrow> offer_row \<Rightarrow> product_row \<Rightarrow> catalogue \<Rightarrow>
    product_error + (product_answer \<times> catalogue)" where
  \<comment> \<open>after the patch and the tags: fold the twins together and stamp the survivor\<close>
  "finish_edit ident now ed ref updated db =
     (case merge_twins ident now (of_product ref) (pd_name updated) (pd_volume updated) (pd_age updated) db of
        Inl e \<Rightarrow> Inl e
      | Inr (survivor, db1) \<Rightarrow>
          (let db2 = snd (apply_review_status now [survivor] Review_Verified True db1)
           in case (if survivor = of_product ref then Some updated else product_by_id db2 survivor) of
                None \<Rightarrow> Inl (Not_Found_Product survivor)
              | Some p \<Rightarrow> Inr (\<lparr>pa_id = ed_id ed, pa_product = survivor, pa_name = pd_name p,
                                pa_name_orig = of_name_orig ref, pa_merged = (survivor \<noteq> of_product ref),
                                pa_created = False\<rparr>, db2)))"

definition edit_product :: "(string \<Rightarrow> string) \<Rightarrow> (row_id \<Rightarrow> string) \<Rightarrow> int \<Rightarrow> edit_input \<Rightarrow> catalogue \<Rightarrow>
    product_error + (product_answer \<times> catalogue)" where
  "edit_product ident code_of now ed db =
     (case find_offer_ref (ed_id ed) db of
        None \<Rightarrow> Inl (Not_Found_Product (ed_id ed))
      | Some ref \<Rightarrow>
          (case build_patch code_of ed db of
             Inl e \<Rightarrow> Inl e
           | Inr patch \<Rightarrow>
               (case product_by_id db (of_product ref) of
                  None \<Rightarrow> Inl (Not_Found_Product (of_product ref))
                | Some p \<Rightarrow>
                    (let db1 = save_patch now patch (of_product ref) db
                     in case (case ed_flavors ed of None \<Rightarrow> Inr db1 | Some names \<Rightarrow> set_flavors now (of_product ref) names db1) of
                          Inl e \<Rightarrow> Inl e
                        | Inr db2 \<Rightarrow> finish_edit ident now ed ref (patch_row now patch p) db2))))"

section \<open>Relinking\<close>

definition manual_input :: "relink_input \<Rightarrow> string \<Rightarrow> row_id option \<Rightarrow> row_id option \<Rightarrow> canonical_input" where
  "manual_input rl name country type =
     \<lparr>ci_match_key = None, ci_name = Some name, ci_brand_orig = None, ci_type_id = type, ci_country_id = country,
      ci_fact_sources = [(Field_Name, Fact_Manual), (Field_Type, Fact_Manual), (Field_Country, Fact_Manual),
        (Field_Age, Fact_Manual), (Field_Abv, Fact_Manual), (Field_Volume, Fact_Manual)],
      ci_age = rl_age rl, ci_abv = rl_abv rl, ci_volume = rl_volume rl\<rparr>"

definition create_manual :: "(row_id \<Rightarrow> string) \<Rightarrow> int \<Rightarrow> relink_input \<Rightarrow> string \<Rightarrow> catalogue \<Rightarrow>
    product_error + (row_id \<times> catalogue)" where
  "create_manual code_of now rl name db =
     (case resolve_country_id code_of (rl_country rl) db of
        Inl e \<Rightarrow> Inl e
      | Inr country \<Rightarrow>
          (case resolve_type_id (rl_type rl) db of
             Inl e \<Rightarrow> Inl e
           | Inr type \<Rightarrow>
               (let (i, db1) = create_unmatched now (manual_input rl name country type) db;
                    db2 = snd (apply_review_status now [i] Review_Verified False db1)
                in case rl_flavors rl of
                     None \<Rightarrow> Inr (i, db2)
                   | Some names \<Rightarrow> (case set_flavors now i names db2 of Inl e \<Rightarrow> Inl e | Inr db3 \<Rightarrow> Inr (i, db3)))))"

definition resolve_relink_target :: "(string \<Rightarrow> string) \<Rightarrow> (row_id \<Rightarrow> string) \<Rightarrow> int \<Rightarrow> relink_input \<Rightarrow> catalogue \<Rightarrow>
    product_error + ((row_id \<times> string option \<times> bool) \<times> catalogue)" where
  "resolve_relink_target ident code_of now rl db =
     (case rl_product rl of
        Some i \<Rightarrow> (case product_by_id db i of
                     None \<Rightarrow> Inl (Not_Found_Product i)
                   | Some p \<Rightarrow> Inr ((i, pd_name p, False), db))
      | None \<Rightarrow>
          (let name = (case rl_name rl of None \<Rightarrow> [] | Some n \<Rightarrow> js_trim n)
           in if name = [] then Inl Relink_Needs_Target
              else (case identity_twins ident db (Some name) (rl_volume rl) (rl_age rl) None of
                      i # _ \<Rightarrow> (case product_by_id db i of
                                  None \<Rightarrow> Inl (Not_Found_Product i)
                                | Some p \<Rightarrow> Inr ((i, pd_name p, False), db))
                    | [] \<Rightarrow> (case create_manual code_of now rl name db of
                               Inl e \<Rightarrow> Inl e
                             | Inr (i, db1) \<Rightarrow> Inr ((i, Some name, True), db1)))))"

definition relink_product :: "(string \<Rightarrow> string) \<Rightarrow> (row_id \<Rightarrow> string) \<Rightarrow> int \<Rightarrow> relink_input \<Rightarrow> catalogue \<Rightarrow>
    product_error + (product_answer \<times> catalogue)" where
  "relink_product ident code_of now rl db =
     (case find (\<lambda>x. of_id x = rl_id rl) (ct_offers db) of
        None \<Rightarrow> Inl (Not_Found_Offer (rl_id rl))
      | Some offer \<Rightarrow>
          (case resolve_relink_target ident code_of now rl db of
             Inl e \<Rightarrow> Inl e
           | Inr ((target, name, created), db1) \<Rightarrow>
               (let (previous, db2) = relink_offer (of_id offer) target db1;
                    db3 = (case previous of
                             None \<Rightarrow> db2
                           | Some q \<Rightarrow> if q \<noteq> target then snd (delete_if_unreferenced q db2) else db2)
                in Inr (\<lparr>pa_id = of_id offer, pa_product = target, pa_name = name, pa_name_orig = of_name_orig offer,
                         pa_merged = False, pa_created = created\<rparr>, db3))))"

section \<open>Review\<close>

definition review_merge :: "int \<Rightarrow> row_id \<Rightarrow> row_id \<Rightarrow> catalogue \<Rightarrow> product_error + (row_id \<times> catalogue)" where
  "review_merge now source target db =
     (if source = target then Inl Review_Merge_Same
      else if product_by_id db source = None \<or> product_by_id db target = None then Inl Review_Merge_Missing
      else (case merge_into now source target db of Inl e \<Rightarrow> Inl e | Inr db' \<Rightarrow> Inr (target, db')))"

record commit_input =
  rc_product :: row_id
  rc_verdict :: review_status
  rc_patch :: "edit_input option"
  rc_confirm :: "string list"

definition confirmable :: "string \<Rightarrow> fact_field option" where
  "confirmable = map_of [(''type'', Field_Type), (''country'', Field_Country), (''abv'', Field_Abv),
     (''volume'', Field_Volume), (''age'', Field_Age), (''name'', Field_Name)]"

definition confirm_facts :: "int \<Rightarrow> row_id \<Rightarrow> string list \<Rightarrow> catalogue \<Rightarrow> product_error + catalogue" where
  "confirm_facts now i fs db =
     (if fs = [] then Inr db
      else (case find (\<lambda>f. confirmable f = None) fs of
              Some f \<Rightarrow> Inl (Unknown_Field f)
            | None \<Rightarrow> Inr (snd (stamp_manual now i (List.map_filter confirmable fs) db))))"

definition pin_producer :: "(row_id \<Rightarrow> product_error option) \<Rightarrow> int \<Rightarrow> row_id option \<Rightarrow> row_id option \<Rightarrow>
    row_id \<Rightarrow> catalogue \<Rightarrow> product_error + (bool \<times> catalogue)" where
  \<comment> \<open>the pin of a link; \<open>refuses\<close> is the check that a producer may take the producer slot\<close>
  "pin_producer refuses now producer bottler i db =
     (case (case producer of None \<Rightarrow> None | Some q \<Rightarrow> refuses q) of
        Some e \<Rightarrow> Inl e
      | None \<Rightarrow> Inr (False, snd (set_producer_manual now i producer bottler db)))"

definition review_write :: "(string \<Rightarrow> string) \<Rightarrow> (row_id \<Rightarrow> string) \<Rightarrow> (row_id \<Rightarrow> catalogue \<Rightarrow> product_error + (bool \<times> catalogue)) \<Rightarrow>
    int \<Rightarrow> commit_input \<Rightarrow> catalogue \<Rightarrow> product_error + ((row_id \<times> bool \<times> bool) \<times> catalogue)" where
  \<comment> \<open>\<open>link\<close> is the producer link the person chose, or the step that does nothing\<close>
  "review_write ident code_of link now rc db =
     (case (case rc_patch rc of
              None \<Rightarrow> Inr ((rc_product rc, False), db)
            | Some ed \<Rightarrow> (case edit_product ident code_of now (ed\<lparr>ed_id := rc_product rc\<rparr>) db of
                            Inl e \<Rightarrow> Inl e | Inr (a, db1) \<Rightarrow> Inr ((pa_product a, pa_merged a), db1))) of
        Inl e \<Rightarrow> Inl e
      | Inr ((i, merged), db1) \<Rightarrow>
          (case confirm_facts now i (rc_confirm rc) db1 of
             Inl e \<Rightarrow> Inl e
           | Inr db2 \<Rightarrow>
               (case link i db2 of
                  Inl e \<Rightarrow> Inl e
                | Inr (created, db3) \<Rightarrow>
                    (let db4 = snd (acknowledge_conflicts now i db3);
                         db5 = snd (apply_review_status now [i] (rc_verdict rc) False db4)
                     in Inr ((i, merged, created), db5)))))"

end
