(* ===== verification/Preferences.thy ===== *)
theory Preferences
  imports Report_Types Product_Edit
begin

text \<open>
  A user's favorites and blacklists (domain/preference, core/preference): the three membership
  tables, the reads of the settings screen and of the report, and the requests that change them.
  The days and moments of an entry (\<open>createdAt\<close>), the runtime's and the database's lower case and the
  collation of names are the record \<open>preference_env\<close>; a row is written in a report by its \<open>uuid\<close>.
\<close>

record maker_row =
  mk_user :: row_id
  mk_producer :: row_id

record preference_state =
  pr_catalogue :: catalogue
  pr_makers :: "maker_row list"
  pr_producers :: "lookup_row list"
  pr_users :: "row_id list"

record preference_env =
  pv_uuid :: "row_id \<Rightarrow> string"
  pv_js_lower :: "string \<Rightarrow> string"
  pv_sql_lower :: "string \<Rightarrow> string"
  pv_names :: "string \<Rightarrow> string \<Rightarrow> rat"
  pv_favored_at :: "list_row \<Rightarrow> int"
  pv_hidden_at :: "list_row \<Rightarrow> int"
  pv_maker_hidden_at :: "maker_row \<Rightarrow> int"
  pv_day :: "int \<Rightarrow> string"

datatype preference_error =
  User_Not_Found row_id | Empty_Blacklist | Unknown_Products "row_id list" | Unknown_Brands "string list"

section \<open>The tables\<close>

definition normalize_ids :: "row_id list \<Rightarrow> row_id list" where
  "normalize_ids is = sort (js_set is)"

definition insert_membership :: "(row_id \<Rightarrow> 'r) \<Rightarrow> row_id list \<Rightarrow> 'r list \<Rightarrow> 'r list" where
  \<comment> \<open>INSERT ... ON CONFLICT DO NOTHING\<close>
  "insert_membership row is rs = foldl (\<lambda>rs i. if row i \<in> set rs then rs else rs @ [row i]) rs is"

definition delete_membership :: "(row_id \<Rightarrow> 'r) \<Rightarrow> row_id list \<Rightarrow> 'r list \<Rightarrow> 'r list" where
  "delete_membership row is rs = sql_delete (\<lambda>r. r \<in> row ` set is) rs"

definition list_entry :: "row_id \<Rightarrow> row_id \<Rightarrow> list_row" where
  "list_entry u i = \<lparr>ul_user = u, ul_product = i\<rparr>"

definition maker_entry :: "row_id \<Rightarrow> row_id \<Rightarrow> maker_row" where
  "maker_entry u m = \<lparr>mk_user = u, mk_producer = m\<rparr>"

definition with_favorites :: "(list_row list \<Rightarrow> list_row list) \<Rightarrow> preference_state \<Rightarrow> preference_state" where
  "with_favorites f st = st\<lparr>pr_catalogue := (pr_catalogue st)\<lparr>ct_favorites := f (ct_favorites (pr_catalogue st))\<rparr>\<rparr>"

definition with_hidden :: "(list_row list \<Rightarrow> list_row list) \<Rightarrow> preference_state \<Rightarrow> preference_state" where
  "with_hidden f st = st\<lparr>pr_catalogue := (pr_catalogue st)\<lparr>ct_blacklist := f (ct_blacklist (pr_catalogue st))\<rparr>\<rparr>"

definition with_makers :: "(maker_row list \<Rightarrow> maker_row list) \<Rightarrow> preference_state \<Rightarrow> preference_state" where
  "with_makers f st = st\<lparr>pr_makers := f (pr_makers st)\<rparr>"

section \<open>Reads\<close>

record preference =
  pf_favorites :: "row_id list"
  pf_hidden :: "row_id list"
  pf_brands :: "string list"

definition by_moment_then_id :: "(list_row \<Rightarrow> int) \<Rightarrow> list_row \<Rightarrow> list_row \<Rightarrow> rat" where
  "by_moment_then_id moment a b = js_or (of_int (moment a) - of_int (moment b)) (by_number ul_product a b)"

definition maker_names :: "preference_state \<Rightarrow> row_id \<Rightarrow> (maker_row \<times> string) list" where
  \<comment> \<open>JOIN producer\<close>
  "maker_names st u =
     List.map_filter (\<lambda>m. map_option (\<lambda>p. (m, lk_name p)) (find (\<lambda>p. lk_id p = mk_producer m) (pr_producers st)))
       (filter (\<lambda>m. mk_user m = u) (pr_makers st))"

definition find_preference :: "preference_env \<Rightarrow> preference_state \<Rightarrow> row_id \<Rightarrow> preference" where
  "find_preference env st u =
     \<lparr>pf_favorites = map ul_product (js_sort (by_moment_then_id (pv_favored_at env))
        (filter (\<lambda>x. ul_user x = u) (ct_favorites (pr_catalogue st)))),
      pf_hidden = map ul_product (js_sort (by_moment_then_id (pv_hidden_at env))
        (filter (\<lambda>x. ul_user x = u) (ct_blacklist (pr_catalogue st)))),
      pf_brands = js_sort (pv_names env) (map snd (maker_names st u))\<rparr>"

definition find_filter_ids :: "preference_env \<Rightarrow> preference_state \<Rightarrow> row_id \<Rightarrow> preference_filter_ids" where
  "find_filter_ids env st u =
     \<lparr>favorites = map (pv_uuid env \<circ> ul_product) (filter (\<lambda>x. ul_user x = u) (ct_favorites (pr_catalogue st))),
      blacklist_products = map (pv_uuid env \<circ> ul_product) (filter (\<lambda>x. ul_user x = u) (ct_blacklist (pr_catalogue st))),
      blacklist_producers = map (pv_uuid env \<circ> mk_producer) (filter (\<lambda>m. mk_user m = u) (pr_makers st))\<rparr>"

record preference_item =
  pi_product :: row_id
  pi_name :: "string option"
  pi_name_orig :: "string option"
  pi_brand :: "string option"
  pi_age :: "int option"
  pi_abv :: "rat option"
  pi_volume :: "int option"
  pi_in_stock :: bool
  pi_added_on :: string

definition by_stock_seen_id :: "offer_row \<Rightarrow> offer_row \<Rightarrow> rat" where
  "by_stock_seen_id a b = js_or (by_stock_then_seen a b) (by_number of_id a b)"

definition shown_offer :: "catalogue \<Rightarrow> row_id \<Rightarrow> offer_row option" where
  \<comment> \<open>LEFT JOIN LATERAL ... LIMIT 1\<close>
  "shown_offer db i =
     (case js_sort by_stock_seen_id (filter (\<lambda>x. of_product x = i) (ct_offers db)) of [] \<Rightarrow> None | x # _ \<Rightarrow> Some x)"

definition producer_name :: "preference_state \<Rightarrow> row_id option \<Rightarrow> string option" where
  "producer_name st m = Option.bind m (\<lambda>i. map_option lk_name (find (\<lambda>p. lk_id p = i) (pr_producers st)))"

definition preference_item_of :: "preference_env \<Rightarrow> preference_state \<Rightarrow> int \<Rightarrow> product_row \<Rightarrow> preference_item" where
  "preference_item_of env st moment p =
     (let shown = shown_offer (pr_catalogue st) (pd_id p)
      in \<lparr>pi_product = pd_id p, pi_name = pd_name p, pi_name_orig = map_option of_name_orig shown,
          pi_brand = coalesce (producer_name st (pd_producer_id p)) (producer_name st (pd_bottler_id p)),
          pi_age = pd_age p, pi_abv = pd_abv p, pi_volume = pd_volume p,
          pi_in_stock = (case shown of None \<Rightarrow> False | Some x \<Rightarrow> of_in_stock x), pi_added_on = pv_day env moment\<rparr>)"

definition by_newest_then_id :: "(list_row \<Rightarrow> int) \<Rightarrow> list_row \<Rightarrow> list_row \<Rightarrow> rat" where
  "by_newest_then_id moment a b = js_or (of_int (moment b) - of_int (moment a)) (by_number ul_product a b)"

definition list_details :: "preference_env \<Rightarrow> preference_state \<Rightarrow> (list_row \<Rightarrow> int) \<Rightarrow> row_id \<Rightarrow> list_row list \<Rightarrow> preference_item list" where
  "list_details env st moment u rs =
     List.map_filter (\<lambda>x. map_option (preference_item_of env st (moment x)) (product_by_id (pr_catalogue st) (ul_product x)))
       (js_sort (by_newest_then_id moment) (filter (\<lambda>x. ul_user x = u) rs))"

record preference_details =
  pt_favorites :: "preference_item list"
  pt_hidden :: "preference_item list"
  pt_brands :: "(string \<times> string) list"

definition find_preference_details :: "preference_env \<Rightarrow> preference_state \<Rightarrow> row_id \<Rightarrow> preference_details" where
  "find_preference_details env st u =
     \<lparr>pt_favorites = list_details env st (pv_favored_at env) u (ct_favorites (pr_catalogue st)),
      pt_hidden = list_details env st (pv_hidden_at env) u (ct_blacklist (pr_catalogue st)),
      pt_brands = map (\<lambda>(m, n). (n, pv_day env (pv_maker_hidden_at env m)))
        (js_sort (\<lambda>a b. js_or (of_int (pv_maker_hidden_at env (fst b)) - of_int (pv_maker_hidden_at env (fst a)))
            (pv_names env (snd a) (snd b))) (maker_names st u))\<rparr>"

section \<open>What a request names\<close>

definition find_existing_ids :: "catalogue \<Rightarrow> row_id list \<Rightarrow> row_id list" where
  "find_existing_ids db is = map pd_id (filter (\<lambda>p. pd_id p \<in> set is) (ct_products db))"

definition unknown_products :: "catalogue \<Rightarrow> row_id list \<Rightarrow> row_id list" where
  "unknown_products db is = filter (\<lambda>i. i \<notin> set (find_existing_ids db is)) is"

definition find_ids_by_brand :: "preference_env \<Rightarrow> lookup_row list \<Rightarrow> string list \<Rightarrow> (string \<times> row_id) list" where
  "find_ids_by_brand env makers names =
     (let keys = js_set (filter (\<lambda>n. n \<noteq> []) (map js_trim names))
      in if keys = [] then []
         else js_map (map (\<lambda>p. (lk_name p, lk_id p))
                (filter (\<lambda>p. pv_sql_lower env (lk_name p) \<in> set (map (pv_js_lower env) keys)) makers)))"

definition unknown_brands :: "preference_env \<Rightarrow> preference_state \<Rightarrow> string list \<Rightarrow> string list" where
  "unknown_brands env st names =
     filter (\<lambda>n. js_get (find_ids_by_brand env (pr_producers st) names) (js_trim n) = None) names"

definition resolve_brand_ids :: "preference_env \<Rightarrow> preference_state \<Rightarrow> string list \<Rightarrow> preference_error + row_id list" where
  "resolve_brand_ids env st names =
     (if names = [] then Inr []
      else if unknown_brands env st names \<noteq> [] then Inl (Unknown_Brands (unknown_brands env st names))
      else Inr (map snd (find_ids_by_brand env (pr_producers st) names)))"

section \<open>Writes\<close>

definition add_favorites :: "row_id \<Rightarrow> row_id list \<Rightarrow> preference_state \<Rightarrow> preference_state" where
  "add_favorites u is st = with_favorites (insert_membership (list_entry u) (normalize_ids is)) st"

definition remove_favorites :: "row_id \<Rightarrow> row_id list \<Rightarrow> preference_state \<Rightarrow> preference_state" where
  "remove_favorites u is st = with_favorites (delete_membership (list_entry u) (normalize_ids is)) st"

definition add_to_blacklist :: "row_id \<Rightarrow> row_id list \<Rightarrow> row_id list \<Rightarrow> preference_state \<Rightarrow> preference_state" where
  "add_to_blacklist u is ms st =
     (let st1 = with_hidden (insert_membership (list_entry u) (normalize_ids is)) st;
          st2 = with_makers (insert_membership (maker_entry u) (normalize_ids ms)) st1
      in with_favorites (delete_membership (list_entry u) (normalize_ids is)) st2)"

definition remove_from_blacklist :: "row_id \<Rightarrow> row_id list \<Rightarrow> row_id list \<Rightarrow> preference_state \<Rightarrow> preference_state" where
  "remove_from_blacklist u is ms st =
     with_makers (delete_membership (maker_entry u) (normalize_ids ms))
       (with_hidden (delete_membership (list_entry u) (normalize_ids is)) st)"

section \<open>Requests\<close>

datatype preference_request =
  Add_Favorites "row_id list"
| Remove_Favorites "row_id list"
| Hide "row_id list option" "string list option"
| Unhide "row_id list option" "string list option"

definition or_empty :: "'a list option \<Rightarrow> 'a list" where
  "or_empty xs = (case xs of None \<Rightarrow> [] | Some ys \<Rightarrow> ys)"

fun change_preference :: "preference_env \<Rightarrow> row_id \<Rightarrow> preference_request \<Rightarrow> preference_state \<Rightarrow> preference_error + preference_state" where
  "change_preference env u (Add_Favorites is) st =
     (if unknown_products (pr_catalogue st) is \<noteq> [] then Inl (Unknown_Products (unknown_products (pr_catalogue st) is))
      else Inr (add_favorites u is st))"
| "change_preference env u (Remove_Favorites is) st = Inr (remove_favorites u is st)"
| "change_preference env u (Hide is brands) st =
     (if or_empty is = [] \<and> or_empty brands = [] then Inl Empty_Blacklist
      else if unknown_products (pr_catalogue st) (or_empty is) \<noteq> []
      then Inl (Unknown_Products (unknown_products (pr_catalogue st) (or_empty is)))
      else (case resolve_brand_ids env st (or_empty brands) of
              Inl e \<Rightarrow> Inl e | Inr ms \<Rightarrow> Inr (add_to_blacklist u (or_empty is) ms st)))"
| "change_preference env u (Unhide is brands) st =
     (if or_empty is = [] \<and> or_empty brands = [] then Inl Empty_Blacklist
      else (case resolve_brand_ids env st (or_empty brands) of
              Inl e \<Rightarrow> Inl e | Inr ms \<Rightarrow> Inr (remove_from_blacklist u (or_empty is) ms st)))"

definition answer_preference :: "preference_env \<Rightarrow> bool \<Rightarrow> row_id \<Rightarrow> preference_request \<Rightarrow> preference_state \<Rightarrow>
    preference_error + preference \<times> preference_state" where
  \<comment> \<open>with whether the user is named in the path rather than taken from the token\<close>
  "answer_preference env named u req st =
     (if named \<and> u \<notin> set (pr_users st) then Inl (User_Not_Found u)
      else (case change_preference env u req st of
              Inl e \<Rightarrow> Inl e | Inr st' \<Rightarrow> Inr (find_preference env st' u, st')))"

definition preference_step :: "preference_env \<Rightarrow> preference_state \<Rightarrow> bool \<times> row_id \<times> preference_request \<Rightarrow> preference_state" where
  \<comment> \<open>a refused request leaves the tables as they were\<close>
  "preference_step env st r =
     (case r of (named, u, req) \<Rightarrow>
        (case answer_preference env named u req st of Inl _ \<Rightarrow> st | Inr (_, st') \<Rightarrow> st'))"

end
