(* ===== verification/Offer_Price.thy ===== *)
theory Offer_Price
  imports Report_Types
begin

text \<open>
  \<open>src/src/utils/offer-price.util.ts\<close>: what counts as a discount, and the order of one
  bottling's offers.  The lemmas bound the percentage, tie its presence to a reference price
  above the current one, and show that \<open>by_price\<close> is a comparator for every collation, so
  that every sort by it is determined by the rows alone.
\<close>

definition previous_drop :: "'a report_current_row_scheme \<Rightarrow> rat option" where
  "previous_drop row =
     (case previous_price row of
        None \<Rightarrow> None
      | Some prev \<Rightarrow> if prev \<noteq> 0 \<and> prev > price row then Some prev else None)"

definition discount_pct_of :: "rat \<Rightarrow> rat option \<Rightarrow> int option" where
  "discount_pct_of current reference =
     (case reference of
        None \<Rightarrow> None
      | Some ref \<Rightarrow>
          if ref = 0 \<or> ref \<le> 0 \<or> current \<ge> ref then None
          else Some (js_round ((ref - current) / ref * 100)))"

definition by_price ::
  "(string \<Rightarrow> string \<Rightarrow> rat) \<Rightarrow> 'a report_current_row_scheme \<Rightarrow> 'b report_current_row_scheme \<Rightarrow> rat" where
  "by_price lc a b =
     js_or (js_or (price a - price b) (lc (store_name a) (store_name b))) (lc (row_id a) (row_id b))"

section \<open>Discounts\<close>

lemma discount_pct_of_None [simp]: "discount_pct_of c None = None"
  by (simp add: discount_pct_of_def)

lemma discount_pct_of_SomeD:
  assumes "discount_pct_of c r = Some p"
  obtains ref where "r = Some ref" "0 < ref" "c < ref" "p = js_round ((ref - c) / ref * 100)"
  using assms by (auto simp: discount_pct_of_def split: option.splits if_splits)

lemma discount_pct_of_Some_iff:
  "discount_pct_of c (Some ref) \<noteq> None \<longleftrightarrow> 0 < ref \<and> c < ref"
  by (auto simp: discount_pct_of_def)

lemma js_round_bounds: "0 \<le> x \<Longrightarrow> x \<le> of_int k \<Longrightarrow> 0 \<le> js_round x \<and> js_round x \<le> k"
proof -
  assume x: "0 \<le> x" "x \<le> of_int k"
  then have "x + 1 / 2 < of_int (k + 1)" by simp
  then have "js_round x < k + 1" unfolding js_round_def by (rule floor_less_iff [THEN iffD2])
  moreover have "0 \<le> js_round x" unfolding js_round_def using x by (simp add: le_floor_iff)
  ultimately show ?thesis by simp
qed

lemma discount_pct_range:
  assumes "discount_pct_of c r = Some p" and "0 \<le> c"
  shows "0 \<le> p \<and> p \<le> 100"
proof -
  obtain ref where r: "0 < ref" "c < ref" and p: "p = js_round ((ref - c) / ref * 100)"
    using assms(1) by (rule discount_pct_of_SomeD)
  have "0 \<le> (ref - c) / ref * 100" and "(ref - c) / ref * 100 \<le> of_int 100"
    using r assms(2) by (simp_all add: field_simps)
  then show ?thesis unfolding p by (rule js_round_bounds)
qed

lemma discount_pct_mono:
  assumes "discount_pct_of c (Some ref) = Some p" and "c' \<le> c"
  shows "\<exists>p'. discount_pct_of c' (Some ref) = Some p' \<and> p \<le> p'"
proof -
  have ref: "0 < ref" "c < ref" and p: "p = js_round ((ref - c) / ref * 100)"
    using assms(1) by (auto elim: discount_pct_of_SomeD)
  have "(ref - c) / ref * 100 \<le> (ref - c') / ref * 100"
    using ref assms(2) by (intro mult_right_mono divide_right_mono) auto
  then have "p \<le> js_round ((ref - c') / ref * 100)"
    unfolding p js_round_def by (intro floor_mono) simp
  then show ?thesis using ref assms(2) by (auto simp: discount_pct_of_def)
qed

lemma previous_drop_SomeD: "previous_drop row = Some r \<Longrightarrow> previous_price row = Some r \<and> r > price row"
  by (auto simp: previous_drop_def split: option.splits if_splits)

section \<open>The order of a bottling's offers\<close>

lemma comparator_by_price: "comparator lc \<Longrightarrow> comparator (by_price lc)"
  unfolding by_price_def
  by (rule comparator_or [OF comparator_or [OF comparator_diff comparator_vimage] comparator_vimage])

sublocale collation \<subseteq> by_price_order: comparator "by_price lc"
  by (rule comparator_by_price) (rule comparator_axioms)

lemma by_price_le: "by_price lc a b \<le> 0 \<Longrightarrow> price a \<le> price b"
  by (auto simp: by_price_def js_or_def split: if_splits)

lemma by_price_cong:
  "price a = price a' \<Longrightarrow> store_name a = store_name a' \<Longrightarrow> row_id a = row_id a' \<Longrightarrow>
   price b = price b' \<Longrightarrow> store_name b = store_name b' \<Longrightarrow> row_id b = row_id b' \<Longrightarrow>
   by_price lc a b = by_price lc a' b'"
  by (simp add: by_price_def)

lemma by_price_zeroD: "by_price lc a b = 0 \<Longrightarrow> price a = price b \<and> lc (row_id a) (row_id b) = 0"
  by (auto simp: by_price_def js_or_def split: if_splits)

end
