(* ===== verification/Report_Page.thy ===== *)
theory Report_Page
  imports Offer_Price
begin

text \<open>
  \<open>src/src/utils/report-page.util.ts\<close>: the index built once per cached result set (ids for
  personalisation and one precomputed order per sortable field and direction) and the page a
  caller reads out of it.  \<open>page_select\<close> is \<open>None\<close> where the code throws, which is an order key
  the index does not hold; \<open>page_select_built\<close> shows that an index made by \<open>build_index\<close> holds
  every key.  The locale \<open>paged\<close> is the contract between the two halves: what a picked
  page owes the visible order it is cut from.
\<close>

section \<open>Sort values\<close>

datatype sort_value = Sv_Number rat | Sv_String string

definition sort_value_of :: "report_sort_field \<Rightarrow> 'a report_row_scheme \<Rightarrow> sort_value option" where
  \<comment> \<open>\<open>group[field]\<close>, \<open>None\<close> for \<open>null\<close> or \<open>undefined\<close>\<close>
  "sort_value_of field g =
     (case field of
        Sort_Abv \<Rightarrow> map_option Sv_Number (abv g)
      | Sort_Age \<Rightarrow> map_option Sv_Number (age g)
      | Sort_Country_Name \<Rightarrow> map_option Sv_String (country_name g)
      | Sort_Days_Discount \<Rightarrow> map_option (Sv_Number \<circ> of_int) (days_discount g)
      | Sort_Discount_Pct \<Rightarrow> map_option (Sv_Number \<circ> of_int) (discount_pct g)
      | Sort_Name \<Rightarrow> map_option Sv_String (row_name g)
      | Sort_Previous_Price \<Rightarrow> map_option Sv_Number (previous_price g)
      | Sort_Price \<Rightarrow> Some (Sv_Number (price g))
      | Sort_Store_Name \<Rightarrow> Some (Sv_String (store_name g))
      | Sort_Type \<Rightarrow> map_option Sv_String (whisky_type g)
      | Sort_Volume_Ml \<Rightarrow> map_option Sv_Number (volume_ml g))"

fun value_string :: "js_runtime \<Rightarrow> sort_value \<Rightarrow> string" where
  "value_string rt (Sv_Number x) = number_string rt x"
| "value_string rt (Sv_String s) = s"

fun compare_values :: "js_runtime \<Rightarrow> sort_value \<Rightarrow> sort_value \<Rightarrow> rat" where
  "compare_values rt (Sv_Number a) (Sv_Number b) = a - b"
| "compare_values rt a b =
     locale_compare rt (to_lower rt (value_string rt a)) (to_lower rt (value_string rt b))"

definition order_compare ::
  "js_runtime \<Rightarrow> report_sort_field \<Rightarrow> sort_order \<Rightarrow> 'a report_row_scheme \<Rightarrow> 'a report_row_scheme \<Rightarrow> rat" where
  "order_compare rt field ord left right =
     (let direction = (case ord of Desc \<Rightarrow> -1 | Asc \<Rightarrow> 1);
          av = sort_value_of field left; bv = sort_value_of field right
      in case av of
           None \<Rightarrow> (case bv of None \<Rightarrow> locale_compare rt (row_id left) (row_id right) | Some _ \<Rightarrow> 1)
         | Some a \<Rightarrow>
             (case bv of
                None \<Rightarrow> -1
              | Some b \<Rightarrow> js_or (compare_values rt a b * direction)
                            (locale_compare rt (row_id left) (row_id right))))"

definition order_positions ::
  "js_runtime \<Rightarrow> 'a report_row_scheme list \<Rightarrow> report_sort_field \<Rightarrow> sort_order \<Rightarrow> nat list" where
  "order_positions rt groups field ord =
     js_sort (\<lambda>a b. order_compare rt field ord (groups ! a) (groups ! b)) [0..<length groups]"

section \<open>The index\<close>

definition order_key :: "report_sort_field option \<Rightarrow> sort_order \<Rightarrow> report_order_key" where
  "order_key field_opt ord = (case field_opt of Some field \<Rightarrow> Ordered field ord | None \<Rightarrow> Natural)"

definition build_index :: "js_runtime \<Rightarrow> report_group list \<Rightarrow> report_page_index" where
  "build_index rt groups =
     (let natural = [0..<length groups];
          sorted_orders = concat (map (\<lambda>field. map (\<lambda>ord.
             (order_key (Some field) ord, order_positions rt groups field ord)) all_sort_orders) all_sort_fields)
      in \<lparr>ids = map product_id groups, producers = map producer_id groups,
          bottlers = map bottler_id groups, orders = (Natural, natural) # sorted_orders\<rparr>)"

section \<open>Picking a page\<close>

definition position_hidden :: "report_page_index \<Rightarrow> preference_filter_ids \<Rightarrow> nat \<Rightarrow> bool" where
  "position_hidden ix prefs p =
     ((case js_nth (ids ix) p of None \<Rightarrow> False | Some pid \<Rightarrow> pid \<in> set (blacklist_products prefs))
      \<or> (case js_nth (producers ix) p of Some (Some m) \<Rightarrow> m \<in> set (blacklist_producers prefs) | _ \<Rightarrow> False)
      \<or> (case js_nth (bottlers ix) p of Some (Some m) \<Rightarrow> m \<in> set (blacklist_producers prefs) | _ \<Rightarrow> False))"

definition position_favorite :: "report_page_index \<Rightarrow> preference_filter_ids \<Rightarrow> nat \<Rightarrow> bool" where
  "position_favorite ix prefs p =
     (case js_nth (ids ix) p of None \<Rightarrow> False | Some pid \<Rightarrow> pid \<in> set (favorites prefs))"

definition position_skipped ::
  "report_page_index \<Rightarrow> preference_filter_ids \<Rightarrow> bool option \<Rightarrow> nat \<Rightarrow> bool" where
  "position_skipped ix prefs favorites_only p =
     (position_hidden ix prefs p \<or> (favorites_only = Some True \<and> \<not> position_favorite ix prefs p))"

definition select_step ::
  "(nat \<Rightarrow> bool) \<Rightarrow> int \<Rightarrow> int \<Rightarrow> nat list \<times> nat \<Rightarrow> nat \<Rightarrow> nat list \<times> nat" where
  \<comment> \<open>the body of the \<open>forEach\<close>\<close>
  "select_step skip offset stop acc p =
     (case acc of (ps, n) \<Rightarrow>
        if skip p then (ps, n)
        else (if offset \<le> int n \<and> int n < stop then ps @ [p] else ps, n + 1))"

definition page_select ::
  "report_page_index \<Rightarrow> preference_filter_ids \<Rightarrow> bool option \<Rightarrow> report_options \<Rightarrow> cache_page_pick option" where
  "page_select ix prefs favorites_only options =
     (case map_of (orders ix) (order_key (opt_sort options) (opt_order options)) of
        None \<Rightarrow> None
      | Some order \<Rightarrow>
          let offset = (opt_page options - 1) * opt_per_page options;
              stop = offset + opt_per_page options;
              r = foldl (select_step (position_skipped ix prefs favorites_only) offset stop) ([], 0) order
          in Some \<lparr>positions = fst r, pick_total = snd r\<rparr>)"

definition visible_order ::
  "report_page_index \<Rightarrow> preference_filter_ids \<Rightarrow> bool option \<Rightarrow> report_order_key \<Rightarrow> nat list" where
  \<comment> \<open>specification: the requested order without what the caller must not see\<close>
  "visible_order ix prefs favorites_only key =
     filter (\<lambda>p. \<not> position_skipped ix prefs favorites_only p)
       (case map_of (orders ix) key of None \<Rightarrow> [] | Some order \<Rightarrow> order)"

section \<open>The walk is a slice of the visible order\<close>

lemma select_fold:
  assumes "0 \<le> offset" "offset \<le> stop"
  shows "foldl (select_step skip offset stop) (take (nat (stop - offset)) (drop (nat offset) pre), length pre) xs
    = (take (nat (stop - offset)) (drop (nat offset) (pre @ filter (\<lambda>p. \<not> skip p) xs)),
       length pre + length (filter (\<lambda>p. \<not> skip p) xs))"
proof (induction xs arbitrary: pre)
  case Nil
  then show ?case by simp
next
  case (Cons x xs)
  show ?case
  proof (cases "skip x")
    case True
    then show ?thesis using Cons.IH [of pre] by (simp add: select_step_def)
  next
    case False
    have "select_step skip offset stop (take (nat (stop - offset)) (drop (nat offset) pre), length pre) x
        = (take (nat (stop - offset)) (drop (nat offset) (pre @ [x])), length (pre @ [x]))"
      using assms False by (auto simp: select_step_def take_Cons' nat_le_eq_zle)
    then show ?thesis using Cons.IH [of "pre @ [x]"] False by simp
  qed
qed

lemma page_select_slice:
  assumes "map_of (orders ix) (order_key (opt_sort opts) (opt_order opts)) = Some order"
    and "1 \<le> opt_page opts" and "0 \<le> opt_per_page opts"
  shows "page_select ix prefs fav opts = Some \<lparr>
     positions = take (nat (opt_per_page opts)) (drop (nat ((opt_page opts - 1) * opt_per_page opts))
        (visible_order ix prefs fav (order_key (opt_sort opts) (opt_order opts)))),
     pick_total = length (visible_order ix prefs fav (order_key (opt_sort opts) (opt_order opts)))\<rparr>"
proof -
  let ?off = "(opt_page opts - 1) * opt_per_page opts"
  have "0 \<le> ?off" "?off \<le> ?off + opt_per_page opts" using assms(2,3) by auto
  from select_fold [OF this, where pre = "[]" and xs = order and skip = "position_skipped ix prefs fav"]
  show ?thesis by (simp add: page_select_def assms(1) visible_order_def Let_def)
qed

text \<open>
  What a caller relies on when it walks the pages of one order: each is the stated slice of the
  visible order and states its length.  Everything below follows from that alone.
\<close>

locale paged =
  fixes visible :: "'k \<Rightarrow> 'p list"
    and pick :: "'k \<Rightarrow> nat \<Rightarrow> nat \<Rightarrow> 'p list \<times> nat"
  assumes pick_slice: "pick k i per = (take per (drop (i * per) (visible k)), length (visible k))"
begin

lemma pages_prefix: "concat (map (\<lambda>i. fst (pick k i per)) [0..<n]) = take (n * per) (visible k)"
proof (induction n)
  case 0
  then show ?case by simp
next
  case (Suc n)
  then show ?case
    using take_add [of "n * per" per "visible k"] by (simp add: pick_slice add.commute)
qed

lemma pages_complete:
  assumes "length (visible k) \<le> n * per"
  shows "concat (map (\<lambda>i. fst (pick k i per)) [0..<n]) = visible k"
  using assms by (simp add: pages_prefix)

lemma picked_visible: "p \<in> set (fst (pick k i per)) \<Longrightarrow> p \<in> set (visible k)"
  by (auto simp: pick_slice dest: in_set_takeD in_set_dropD)

lemma page_size: "length (fst (pick k i per)) = min per (length (visible k) - i * per)"
  by (simp add: pick_slice)

lemma total_same: "snd (pick k i per) = snd (pick k j per')"
  by (simp add: pick_slice)

end

section \<open>The built index\<close>

lemma orders_build_index:
  "map_of (orders (build_index rt groups)) Natural = Some [0..<length groups]"
  "map_of (orders (build_index rt groups)) (Ordered field ord) = Some (order_positions rt groups field ord)"
  by (cases field; cases ord;
      simp add: build_index_def Let_def all_sort_fields_def all_sort_orders_def order_key_def)+

definition natural_or_sorted :: "js_runtime \<Rightarrow> report_group list \<Rightarrow> report_order_key \<Rightarrow> nat list" where
  \<comment> \<open>specification: the positions of a set in the order a key names\<close>
  "natural_or_sorted rt groups key =
     (case key of Natural \<Rightarrow> [0..<length groups] | Ordered field ord \<Rightarrow> order_positions rt groups field ord)"

lemma map_of_orders_build:
  "map_of (orders (build_index rt groups)) key = Some (natural_or_sorted rt groups key)"
  by (cases key) (simp_all add: orders_build_index natural_or_sorted_def)

lemma mset_natural_or_sorted: "mset (natural_or_sorted rt groups key) = mset [0..<length groups]"
  by (cases key) (simp_all add: natural_or_sorted_def order_positions_def mset_js_sort)

lemma natural_or_sorted_perm:
  "distinct (natural_or_sorted rt groups key)" "set (natural_or_sorted rt groups key) = {0..<length groups}"
  using mset_natural_or_sorted [of rt groups key]
  by (metis distinct_upt mset_eq_imp_distinct_iff, metis mset_eq_setD set_upt)

fun page_options :: "report_order_key \<Rightarrow> nat \<Rightarrow> nat \<Rightarrow> report_options" where
  \<comment> \<open>a request for the page after \<open>i\<close> others, in the order a key names\<close>
  "page_options Natural i per =
     \<lparr>opt_window = Week, opt_discount_window = None, opt_min_discount = None, opt_sort = None,
      opt_order = Asc, opt_page = int i + 1, opt_per_page = int per\<rparr>"
| "page_options (Ordered field ord) i per =
     \<lparr>opt_window = Week, opt_discount_window = None, opt_min_discount = None, opt_sort = Some field,
      opt_order = ord, opt_page = int i + 1, opt_per_page = int per\<rparr>"

definition built_pick ::
  "js_runtime \<Rightarrow> report_group list \<Rightarrow> preference_filter_ids \<Rightarrow> bool option
    \<Rightarrow> report_order_key \<Rightarrow> nat \<Rightarrow> nat \<Rightarrow> nat list \<times> nat" where
  "built_pick rt groups prefs fav key i per =
     (case page_select (build_index rt groups) prefs fav (page_options key i per) of
        None \<Rightarrow> ([], 0) | Some pk \<Rightarrow> (positions pk, pick_total pk))"

lemma page_options_simps [simp]:
  "order_key (opt_sort (page_options key i per)) (opt_order (page_options key i per)) = key"
  "opt_page (page_options key i per) = int i + 1" "opt_per_page (page_options key i per) = int per"
  by (cases key; simp add: order_key_def)+

lemma page_select_built:
  assumes "1 \<le> opt_page opts" and "0 \<le> opt_per_page opts"
  shows "page_select (build_index rt groups) prefs fav opts = Some \<lparr>
     positions = take (nat (opt_per_page opts)) (drop (nat ((opt_page opts - 1) * opt_per_page opts))
        (visible_order (build_index rt groups) prefs fav (order_key (opt_sort opts) (opt_order opts)))),
     pick_total = length (visible_order (build_index rt groups) prefs fav
        (order_key (opt_sort opts) (opt_order opts)))\<rparr>"
  by (rule page_select_slice [OF map_of_orders_build assms])

interpretation built: paged "\<lambda>key. visible_order (build_index rt groups) prefs fav key"
  "built_pick rt groups prefs fav"
  for rt groups prefs fav
proof
  fix key i per
  show "built_pick rt groups prefs fav key i per =
      (take per (drop (i * per) (visible_order (build_index rt groups) prefs fav key)),
       length (visible_order (build_index rt groups) prefs fav key))"
    by (simp add: built_pick_def page_select_built flip: of_nat_mult)
qed

definition group_hidden :: "preference_filter_ids \<Rightarrow> report_group \<Rightarrow> bool" where
  \<comment> \<open>specification: what a caller's blacklists hide\<close>
  "group_hidden prefs g =
     (product_id g \<in> set (blacklist_products prefs)
      \<or> (\<exists>m \<in> set (blacklist_producers prefs). producer_id g = Some m \<or> bottler_id g = Some m))"

lemma position_hidden_built:
  assumes "p < length groups"
  shows "position_hidden (build_index rt groups) prefs p = group_hidden prefs (groups ! p)"
  using assms
  by (auto simp: position_hidden_def group_hidden_def build_index_def Let_def js_nth_def split: option.splits)

lemma position_favorite_built:
  assumes "p < length groups"
  shows "position_favorite (build_index rt groups) prefs p = (product_id (groups ! p) \<in> set (favorites prefs))"
  using assms by (simp add: position_favorite_def build_index_def Let_def js_nth_def)

lemma set_visible_built:
  "set (visible_order (build_index rt groups) prefs fav key) =
     {p. p < length groups \<and> \<not> group_hidden prefs (groups ! p)
       \<and> (fav = Some True \<longrightarrow> product_id (groups ! p) \<in> set (favorites prefs))}"
  by (auto simp: visible_order_def map_of_orders_build natural_or_sorted_perm position_skipped_def
      position_hidden_built position_favorite_built)

lemma distinct_visible_built: "distinct (visible_order (build_index rt groups) prefs fav key)"
  by (simp add: visible_order_def map_of_orders_build natural_or_sorted_perm)

section \<open>The precomputed orders\<close>

definition nulls_last :: "('v \<Rightarrow> 'v \<Rightarrow> rat) \<Rightarrow> 'v option \<Rightarrow> 'v option \<Rightarrow> rat" where
  \<comment> \<open>specification: the order of nullable values, nulls after everything\<close>
  "nulls_last c x y =
     (case x of None \<Rightarrow> (case y of None \<Rightarrow> 0 | Some _ \<Rightarrow> 1)
      | Some a \<Rightarrow> (case y of None \<Rightarrow> -1 | Some b \<Rightarrow> c a b))"

lemma comparator_nulls_last:
  assumes "comparator c"
  shows "comparator (nulls_last c)"
proof
  show "(nulls_last c x y < 0) = (0 < nulls_last c y x)" for x y
    using comparator.cmp_antisym [OF assms] by (auto simp: nulls_last_def split: option.splits)
next
  fix x y z
  show "nulls_last c x y \<le> 0 \<Longrightarrow> nulls_last c y z \<le> 0 \<Longrightarrow> nulls_last c x z \<le> 0"
    using comparator.cmp_trans [OF assms] by (auto simp: nulls_last_def split: option.splits)
qed

lemma comparator_flip:
  assumes "comparator c"
  shows "comparator (\<lambda>x y. c x y * -1)"
proof -
  have nonneg: "0 \<le> c x y \<longleftrightarrow> c y x \<le> 0" for x y
    using comparator.cmp_antisym [OF assms, of x y] by linarith
  show ?thesis
  proof
    show "(c x y * -1 < 0) = (0 < c y x * -1)" for x y
      using comparator.cmp_antisym [OF assms, of y x] by simp
  next
    fix x y z
    assume "c x y * -1 \<le> 0" and "c y z * -1 \<le> 0"
    then have "c z y \<le> 0" and "c y x \<le> 0" by (simp_all add: nonneg)
    then have "c z x \<le> 0" by (rule comparator.cmp_trans [OF assms])
    then show "c x z * -1 \<le> 0" by (simp add: nonneg)
  qed
qed

fun numeric_field :: "report_sort_field \<Rightarrow> bool" where
  "numeric_field f =
     (f \<in> {Sort_Abv, Sort_Age, Sort_Days_Discount, Sort_Discount_Pct, Sort_Previous_Price, Sort_Price, Sort_Volume_Ml})"

fun field_number :: "report_sort_field \<Rightarrow> 'a report_row_scheme \<Rightarrow> rat option" where
  "field_number f g = (case sort_value_of f g of Some (Sv_Number x) \<Rightarrow> Some x | _ \<Rightarrow> None)"

fun field_string :: "report_sort_field \<Rightarrow> 'a report_row_scheme \<Rightarrow> string option" where
  "field_string f g = (case sort_value_of f g of Some (Sv_String x) \<Rightarrow> Some x | _ \<Rightarrow> None)"

lemma sort_value_kind:
  "numeric_field f \<Longrightarrow> sort_value_of f g = map_option Sv_Number (field_number f g)"
  "\<not> numeric_field f \<Longrightarrow> sort_value_of f g = map_option Sv_String (field_string f g)"
  by (cases f; simp add: sort_value_of_def split: option.splits)+

definition value_compare ::
  "js_runtime \<Rightarrow> report_sort_field \<Rightarrow> sort_order \<Rightarrow> 'a report_row_scheme \<Rightarrow> 'a report_row_scheme \<Rightarrow> rat" where
  \<comment> \<open>specification: the chosen field alone, in the chosen direction, nulls last\<close>
  "value_compare rt f ord g h =
     (if numeric_field f
      then nulls_last (\<lambda>a b. (a - b) * (if ord = Desc then -1 else 1)) (field_number f g) (field_number f h)
      else nulls_last (\<lambda>a b. locale_compare rt (to_lower rt a) (to_lower rt b) * (if ord = Desc then -1 else 1))
             (field_string f g) (field_string f h))"

lemma order_compare_conv:
  "order_compare rt f ord g h = js_or (value_compare rt f ord g h) (locale_compare rt (row_id g) (row_id h))"
proof (cases "numeric_field f")
  case True
  then show ?thesis
    by (cases "field_number f g"; cases "field_number f h"; cases ord)
      (simp_all add: order_compare_def value_compare_def nulls_last_def sort_value_kind js_or_def
        del: numeric_field.simps field_number.simps)
next
  case False
  then show ?thesis
    by (cases "field_string f g"; cases "field_string f h"; cases ord)
      (simp_all add: order_compare_def value_compare_def nulls_last_def sort_value_kind js_or_def
        del: numeric_field.simps field_string.simps)
qed

lemma comparator_value_compare:
  assumes "collation (locale_compare rt)"
  shows "comparator (value_compare rt f ord)"
proof -
  note lc = assms [unfolded collation_def]
  have d: "comparator (\<lambda>a b. c a b * (if ord = Desc then -1 else 1))" if "comparator c" for c :: "'x \<Rightarrow> 'x \<Rightarrow> rat"
    using that comparator_flip [OF that] by (cases ord) simp_all
  show ?thesis
    unfolding value_compare_def
    by (cases "numeric_field f")
      (simp_all only: if_True if_False
        comparator_vimage [OF comparator_nulls_last [OF d [OF comparator_diff [of "\<lambda>x. x"]]]]
        comparator_vimage [OF comparator_nulls_last [OF d [OF comparator_vimage [OF lc]]]])
qed

lemma comparator_order_compare:
  assumes "collation (locale_compare rt)"
  shows "comparator (order_compare rt f ord)"
  unfolding order_compare_conv
  by (rule comparator_or [OF comparator_value_compare [OF assms]
        comparator_vimage [OF assms [unfolded collation_def]]])

lemma order_positions_sorted:
  assumes "collation (locale_compare rt)"
  shows "sorted_wrt (\<lambda>i j. order_compare rt f ord (groups ! i) (groups ! j) \<le> 0) (order_positions rt groups f ord)"
  unfolding order_positions_def
  by (rule comparator.sorted_js_sort) (rule comparator_vimage [OF comparator_order_compare [OF assms]])

end
