(* ===== verification/Report_Service.thy ===== *)
theory Report_Service
  imports Report_Page
begin

text \<open>
  \<open>src/src/domain/report/report.service.ts\<close>: the five report kinds, from the current rows the
  repositories answer with to the groups the page index is built over.  The repositories and the
  clock are the fields of \<open>report_db\<close>: their SQL is executed by Postgres and is not modelled.
  A builder answers \<open>Inl\<close> where the code throws (\<open>toISOString\<close> on an invalid date, an unknown
  product).  The lemmas give each report's selection rule, the shape every group keeps, and the
  independence of the result from the order the database returned its rows in.
\<close>

section \<open>Surroundings\<close>

datatype report_error = Product_Not_Found string | Invalid_Time_Value

record report_db =
  db_current_rows :: "report_filter \<Rightarrow> report_current_row list"
  db_latest_date :: "string option"
  db_price_extremes :: "string \<Rightarrow> string \<Rightarrow> (rat \<times> rat) option" \<comment> \<open>cutoff, offer: (min, max)\<close>
  db_price_since :: "string \<Rightarrow> string option"
  db_resolve_term :: "string \<Rightarrow> string option"
  db_row_by_id :: "string \<Rightarrow> report_current_row option"
  db_price_series :: "string \<Rightarrow> nat \<Rightarrow> price_history_point list"
  db_filter_ids :: "string \<Rightarrow> preference_filter_ids"
  db_today :: string

definition new_days :: int where "new_days = 7"

definition history_limit :: nat where "history_limit = 60"

definition best_min_stores :: nat where "best_min_stores = 2"

definition best_merge_guard :: rat where "best_merge_guard = 1 / 2"

fun window_days :: "report_window \<Rightarrow> int" where
  "window_days Today = 1"
| "window_days Yesterday = 2"
| "window_days Week = 7"
| "window_days Month = 30"
| "window_days Year = 365"

section \<open>Row helpers\<close>

record enrich_extra =
  ex_reference_price :: "rat option"
  ex_is_new :: bool
  ex_days_new :: "int option"
  ex_days_discount :: "int option"

definition enrich :: "report_current_row \<Rightarrow> enrich_extra \<Rightarrow> report_row" where
  "enrich row extra = report_current_row.extend row
     \<lparr>reference_price = ex_reference_price extra,
      discount_pct = discount_pct_of (price row) (ex_reference_price extra),
      is_new = ex_is_new extra,
      days_new = ex_days_new extra,
      days_discount = ex_days_discount extra\<rparr>"

definition to_offer :: "'a report_row_scheme \<Rightarrow> report_offer" where
  "to_offer row =
     \<lparr>o_id = row_id row, o_sku = sku row, o_url = url row, o_name_orig = name_orig row,
      o_store_slug = store_slug row, o_store_name = store_name row, o_price = price row,
      o_old_price = old_price row, o_currency = currency row, o_promo = promo row,
      o_in_stock = in_stock row, o_previous_price = previous_price row,
      o_reference_price = reference_price row, o_discount_pct = discount_pct row,
      o_is_new = is_new row, o_days_new = days_new row, o_days_discount = days_discount row,
      o_first_seen = first_seen row, o_captured_date = captured_date row\<rparr>"

definition to_group :: "report_row \<Rightarrow> report_offer list \<Rightarrow> report_group" where
  "to_group primary os = report_row.extend primary \<lparr>offers = os\<rparr>"

definition window_reference :: "report_current_row \<Rightarrow> rat option \<Rightarrow> rat option" where
  \<comment> \<open>\<open>referencePrice\<close>\<close>
  "window_reference row window_max =
     (if truthy_num window_max \<and> the window_max > price row then window_max else None)"

definition matches_day_window :: "int option \<Rightarrow> report_window option \<Rightarrow> bool" where
  "matches_day_window days window =
     (if window = Some Today then days = Some 0
      else if window = Some Yesterday then days = Some 1
      else True)"

definition within_price_bounds :: "rat \<Rightarrow> report_filter \<Rightarrow> bool" where
  "within_price_bounds p filt =
     ((case f_min_price filt of None \<Rightarrow> True | Some lo \<Rightarrow> p \<ge> lo)
      \<and> (case f_max_price filt of None \<Rightarrow> True | Some hi \<Rightarrow> p \<le> hi))"

definition apply_min_discount :: "'a report_row_scheme list \<Rightarrow> report_options \<Rightarrow> 'a report_row_scheme list" where
  "apply_min_discount rows options =
     (if \<not> truthy_num (opt_min_discount options) then rows
      else filter (\<lambda>row. (case discount_pct row of None \<Rightarrow> 0 | Some p \<Rightarrow> of_int p)
             \<ge> the (opt_min_discount options)) rows)"

definition selection_filter :: "report_kind \<Rightarrow> report_filter \<Rightarrow> report_filter" where
  "selection_filter kind filt =
     (if kind \<noteq> Best then filt else filt\<lparr>f_min_price := None, f_max_price := None\<rparr>)"

definition latest_captured :: "report_current_row list \<Rightarrow> string" where
  "latest_captured current =
     foldl (\<lambda>m row. if captured_date row > m then captured_date row else m) (captured_date (hd current)) current"

definition cutoff :: "report_current_row list \<Rightarrow> int \<Rightarrow> report_error + string" where
  "cutoff current days =
     (case js_add_days (latest_captured current) (- days) of None \<Rightarrow> Inl Invalid_Time_Value | Some d \<Rightarrow> Inr d)"

section \<open>Grouping\<close>

definition group_by_product :: "'a report_current_row_scheme list \<Rightarrow> (string \<times> 'a report_current_row_scheme list) list" where
  "group_by_product rows = js_group_by product_id rows"

definition group_of_rows :: "js_runtime \<Rightarrow> report_row list \<Rightarrow> report_group" where
  \<comment> \<open>the body of \<open>groupOffers\<close>' map\<close>
  "group_of_rows rt g =
     (let ordered = js_sort (by_price (locale_compare rt)) g
      in to_group (hd ordered) (map to_offer ordered))"

definition group_offers :: "js_runtime \<Rightarrow> report_row list \<Rightarrow> report_group list" where
  "group_offers rt rows = map (group_of_rows rt) (map snd (group_by_product rows))"

definition wrap_offers :: "report_row list \<Rightarrow> report_group list" where
  "wrap_offers rows = map (\<lambda>row. to_group row [to_offer row]) rows"

section \<open>The report kinds\<close>

definition by_discount :: "js_runtime \<Rightarrow> report_group \<Rightarrow> report_group \<Rightarrow> rat" where
  "by_discount rt a b =
     js_or (of_int (case discount_pct b of None \<Rightarrow> 0 | Some p \<Rightarrow> p)
            - of_int (case discount_pct a of None \<Rightarrow> 0 | Some p \<Rightarrow> p))
       (locale_compare rt (row_id a) (row_id b))"

definition display_name :: "'a report_current_row_scheme \<Rightarrow> string" where
  "display_name row = (case row_name row of None \<Rightarrow> name_orig row | Some n \<Rightarrow> n)"

definition by_name :: "js_runtime \<Rightarrow> report_group \<Rightarrow> report_group \<Rightarrow> rat" where
  "by_name rt a b =
     js_or (js_or (locale_compare rt (to_lower rt (display_name a)) (to_lower rt (display_name b)))
             (price a - price b))
       (locale_compare rt (row_id a) (row_id b))"

definition by_recency :: "js_runtime \<Rightarrow> report_group \<Rightarrow> report_group \<Rightarrow> rat" where
  "by_recency rt a b =
     js_or (js_or (of_int (case days_new a of None \<Rightarrow> 0 | Some d \<Rightarrow> d)
                   - of_int (case days_new b of None \<Rightarrow> 0 | Some d \<Rightarrow> d))
             (price a - price b))
       (locale_compare rt (row_id a) (row_id b))"

definition catalog_row :: "report_current_row \<Rightarrow> report_row" where
  "catalog_row row = enrich row
     \<lparr>ex_reference_price = previous_drop row, ex_is_new = False, ex_days_new = None, ex_days_discount = None\<rparr>"

definition catalog :: "js_runtime \<Rightarrow> report_current_row list \<Rightarrow> report_group list" where
  "catalog rt current = js_sort (by_name rt) (group_offers rt (map catalog_row current))"

definition drops_row :: "report_db \<Rightarrow> string \<Rightarrow> report_current_row \<Rightarrow> report_row" where
  "drops_row db since row =
     (let window_max = map_option snd (db_price_extremes db since (row_id row));
          started = db_price_since db (row_id row)
      in enrich row
        \<lparr>ex_reference_price = window_reference row window_max, ex_is_new = False, ex_days_new = None,
         ex_days_discount = (case started of None \<Rightarrow> None | Some d \<Rightarrow> js_days_between d (db_today db))\<rparr>)"

definition drops :: "js_runtime \<Rightarrow> report_db \<Rightarrow> report_current_row list \<Rightarrow> report_options \<Rightarrow> report_error + report_group list" where
  "drops rt db current options =
     (case cutoff current (window_days (opt_window options)) of
        Inl e \<Rightarrow> Inl e
      | Inr since \<Rightarrow>
          let rows = filter (\<lambda>row. discount_pct row \<noteq> None
                       \<and> matches_day_window (days_discount row) (opt_discount_window options))
                     (map (drops_row db since) current)
          in Inr (js_sort (by_discount rt) (group_offers rt (apply_min_discount rows options))))"

definition low_row :: "report_current_row \<Rightarrow> report_row" where
  "low_row row = enrich row
     \<lparr>ex_reference_price = previous_price row, ex_is_new = False, ex_days_new = None, ex_days_discount = None\<rparr>"

definition at_window_low :: "report_db \<Rightarrow> string \<Rightarrow> report_current_row \<Rightarrow> bool" where
  "at_window_low db since row =
     (case map_option fst (db_price_extremes db since (row_id row)) of
        None \<Rightarrow> False | Some lo \<Rightarrow> price row \<le> lo + 1 / 10 ^ 9)"

definition low :: "js_runtime \<Rightarrow> report_db \<Rightarrow> report_current_row list \<Rightarrow> report_options \<Rightarrow> report_error + report_group list" where
  "low rt db current options =
     (case cutoff current (window_days (opt_window options)) of
        Inl e \<Rightarrow> Inl e
      | Inr since \<Rightarrow>
          let rows = filter (\<lambda>row. discount_pct row \<noteq> None)
                     (map low_row (filter (at_window_low db since) current))
          in Inr (js_sort (by_discount rt) (wrap_offers (apply_min_discount rows options))))"

definition newest_row :: "string \<Rightarrow> report_current_row \<Rightarrow> report_row" where
  "newest_row today row = enrich row
     \<lparr>ex_reference_price = None, ex_is_new = True, ex_days_new = js_days_between (first_seen row) today,
      ex_days_discount = None\<rparr>"

definition newest :: "js_runtime \<Rightarrow> report_current_row list \<Rightarrow> string \<Rightarrow> report_window \<Rightarrow> report_error + report_group list" where
  "newest rt current today window =
     (case js_add_days today (- (new_days - 1)) of
        None \<Rightarrow> Inl Invalid_Time_Value
      | Some since \<Rightarrow>
          let rows = filter (\<lambda>row. matches_day_window (days_new row) (Some window))
                     (map (newest_row today) (filter (\<lambda>row. first_seen row \<ge> since) current))
          in Inr (js_sort (by_recency rt) (group_offers rt rows)))"

definition best_of_group :: "js_runtime \<Rightarrow> report_current_row list \<Rightarrow> report_row option" where
  "best_of_group rt g =
     (if length (js_set (map store_slug g)) < best_min_stores then None
      else case js_sort (by_price (locale_compare rt)) g of
             b # runner_up # _ \<Rightarrow>
               if price b < price runner_up * best_merge_guard then None
               else Some (enrich b \<lparr>ex_reference_price = Some (price runner_up), ex_is_new = False,
                                    ex_days_new = None, ex_days_discount = None\<rparr>)
           | _ \<Rightarrow> None)"

definition best_offers :: "js_runtime \<Rightarrow> report_current_row list \<Rightarrow> report_row \<Rightarrow> report_offer list" where
  "best_offers rt g winner =
     map to_offer (js_sort (by_price (locale_compare rt))
       (map (\<lambda>row. if row_id row = row_id winner then winner else catalog_row row) g))"

definition best_step :: "js_runtime \<Rightarrow> report_filter \<Rightarrow> report_group list \<Rightarrow> report_current_row list \<Rightarrow> report_group list" where
  \<comment> \<open>the body of the \<open>forEach\<close> over the groups\<close>
  "best_step rt filt groups g =
     (case best_of_group rt g of
        None \<Rightarrow> groups
      | Some winner \<Rightarrow>
          if within_price_bounds (price winner) filt
          then groups @ [to_group winner (best_offers rt g winner)] else groups)"

definition best :: "js_runtime \<Rightarrow> report_current_row list \<Rightarrow> report_filter \<Rightarrow> report_options \<Rightarrow> report_group list" where
  "best rt current filt options =
     js_sort (by_discount rt)
       (apply_min_discount (foldl (best_step rt filt) [] (map snd (group_by_product current))) options)"

section \<open>Dispatch and history\<close>

definition build_groups ::
  "js_runtime \<Rightarrow> report_db \<Rightarrow> report_kind \<Rightarrow> report_filter \<Rightarrow> report_options \<Rightarrow> report_error + report_group list" where
  "build_groups rt db kind filt options =
     (let current = db_current_rows db (selection_filter kind filt)
      in if db_latest_date db = None \<or> current = [] then Inr []
         else case kind of
                Catalog \<Rightarrow> Inr (catalog rt current)
              | Drops \<Rightarrow> drops rt db current options
              | Low \<Rightarrow> low rt db current options
              | New \<Rightarrow> newest rt current (db_today db) (opt_window options)
              | Best \<Rightarrow> Inr (best rt current filt options))"

definition to_public_row :: "'a report_row_scheme \<Rightarrow> report_public_row" where
  "to_public_row g =
     \<lparr>p_id = row_id g, p_product_id = product_id g, p_sku = sku g, p_url = url g, p_name = row_name g,
      p_name_orig = name_orig g, p_age = age g, p_abv = abv g, p_volume_ml = volume_ml g,
      p_store_slug = store_slug g, p_store_name = store_name g, p_brand = brand g,
      p_type = whisky_type g, p_country_code = country_code g, p_country_name = country_name g,
      p_country_icon = country_icon g, p_price = price g, p_old_price = old_price g,
      p_currency = currency g, p_in_stock = in_stock g, p_promo = promo g,
      p_previous_price = previous_price g, p_captured_date = captured_date g,
      p_first_seen = first_seen g, p_flavors = flavors g, p_distillery = distillery g,
      p_region = region g, p_bottler = bottler g, p_fact_sources = fact_sources g,
      p_reference_price = reference_price g, p_discount_pct = discount_pct g, p_is_new = is_new g,
      p_days_new = days_new g, p_days_discount = days_discount g\<rparr>"

definition to_public_group :: "report_group \<Rightarrow> report_public_group" where
  "to_public_group g = report_public_row.extend (to_public_row g) \<lparr>p_offers = offers g\<rparr>"

definition build_set ::
  "js_runtime \<Rightarrow> report_db \<Rightarrow> report_kind \<Rightarrow> report_filter \<Rightarrow> report_options
    \<Rightarrow> report_error + (report_page_index, report_public_group) cache_indexed_set" where
  "build_set rt db kind filt options =
     (case build_groups rt db kind filt options of
        Inl e \<Rightarrow> Inl e
      | Inr groups \<Rightarrow> Inr \<lparr>set_index = build_index rt groups, set_entries = map to_public_group groups\<rparr>)"

definition history :: "report_db \<Rightarrow> string \<Rightarrow> report_error + price_history" where
  "history db term =
     (case db_resolve_term db term of
        None \<Rightarrow> Inl (Product_Not_Found term)
      | Some i \<Rightarrow>
          (case (if i = [] then None else db_row_by_id db i) of
             None \<Rightarrow> Inl (Product_Not_Found term)
           | Some current \<Rightarrow>
               let series = db_price_series db i history_limit;
                   previous = (if length series > 1 then Some (point_price (series ! (length series - 2))) else None)
               in Inr \<lparr>hist_product = to_public_row (enrich current
                          \<lparr>ex_reference_price = previous, ex_is_new = False, ex_days_new = None,
                           ex_days_discount = None\<rparr>),
                       hist_series = series\<rparr>))"

section \<open>Projections\<close>

lemma enrich_simps [simp]:
  "row_id (enrich row ex) = row_id row" "product_id (enrich row ex) = product_id row"
  "price (enrich row ex) = price row" "store_name (enrich row ex) = store_name row"
  "store_slug (enrich row ex) = store_slug row" "previous_price (enrich row ex) = previous_price row"
  "first_seen (enrich row ex) = first_seen row"
  "report_current_row.truncate (enrich row ex) = row"
  by (simp_all add: enrich_def report_current_row.defs)

lemma enrich_fields [simp]:
  "reference_price (enrich row ex) = ex_reference_price ex"
  "discount_pct (enrich row ex) = discount_pct_of (price row) (ex_reference_price ex)"
  "is_new (enrich row ex) = ex_is_new ex" "days_new (enrich row ex) = ex_days_new ex"
  "days_discount (enrich row ex) = ex_days_discount ex"
  by (simp_all add: enrich_def report_current_row.defs)

lemma to_group_simps [simp]:
  "row_id (to_group row os) = row_id row" "product_id (to_group row os) = product_id row"
  "price (to_group row os) = price row" "store_name (to_group row os) = store_name row"
  "discount_pct (to_group row os) = discount_pct row" "reference_price (to_group row os) = reference_price row"
  "days_new (to_group row os) = days_new row" "days_discount (to_group row os) = days_discount row"
  "is_new (to_group row os) = is_new row"
  "offers (to_group row os) = os" "to_offer (to_group row os) = to_offer row"
  "report_row.truncate (to_group row os) = row"
  by (simp_all add: to_group_def to_offer_def report_row.defs)

lemma to_offer_simps [simp]:
  "o_id (to_offer row) = row_id row" "o_price (to_offer row) = price row"
  "o_discount_pct (to_offer row) = discount_pct row" "o_reference_price (to_offer row) = reference_price row"
  "o_days_new (to_offer row) = days_new row" "o_days_discount (to_offer row) = days_discount row"
  "o_is_new (to_offer row) = is_new row" "o_previous_price (to_offer row) = previous_price row"
  "o_store_slug (to_offer row) = store_slug row" "o_first_seen (to_offer row) = first_seen row"
  by (simp_all add: to_offer_def)

lemma kind_row_simps [simp]:
  "row_id (catalog_row row) = row_id row" "product_id (catalog_row row) = product_id row"
  "price (catalog_row row) = price row" "store_name (catalog_row row) = store_name row"
  "report_current_row.truncate (catalog_row row) = row"
  "row_id (drops_row db s row) = row_id row" "product_id (drops_row db s row) = product_id row"
  "price (drops_row db s row) = price row" "report_current_row.truncate (drops_row db s row) = row"
  "row_id (low_row row) = row_id row" "product_id (low_row row) = product_id row"
  "price (low_row row) = price row" "report_current_row.truncate (low_row row) = row"
  "row_id (newest_row t row) = row_id row" "product_id (newest_row t row) = product_id row"
  "price (newest_row t row) = price row" "report_current_row.truncate (newest_row t row) = row"
  by (simp_all add: catalog_row_def drops_row_def low_row_def newest_row_def Let_def)

section \<open>The shape every group keeps\<close>

definition group_ok :: "report_group \<Rightarrow> bool" where
  \<comment> \<open>specification: never empty, led by its cheapest offer, and headed by that offer's fields\<close>
  "group_ok g \<longleftrightarrow> offers g \<noteq> [] \<and> hd (offers g) = to_offer g
     \<and> sorted_wrt (\<lambda>a b. o_price a \<le> o_price b) (offers g)"

lemma group_ok_header:
  assumes "group_ok g" and "ofr \<in> set (offers g)"
  shows "price g \<le> o_price ofr" and "row_id g = o_id (hd (offers g))"
proof -
  obtain h t where o: "offers g = h # t" using assms(2) by (cases "offers g") auto
  then have h: "h = to_offer g" using assms(1) by (simp add: group_ok_def)
  then show "row_id g = o_id (hd (offers g))" using o by simp
  show "price g \<le> o_price ofr" using assms h o by (auto simp: group_ok_def)
qed

lemma sorted_offers:
  assumes "collation (locale_compare rt)"
  shows "sorted_wrt (\<lambda>a b. o_price a \<le> o_price b)
    (map to_offer (js_sort (by_price (locale_compare rt)) (g :: report_row list)))"
proof -
  have "sorted_wrt (\<lambda>a b. by_price (locale_compare rt) a b \<le> 0)
      (js_sort (by_price (locale_compare rt)) g)"
    by (rule comparator.sorted_js_sort [OF collation.axioms(1) [OF assms, THEN comparator_by_price]])
  then show ?thesis by (auto simp: sorted_wrt_map elim!: sorted_wrt_mono_rel [rotated] dest: by_price_le)
qed

lemma group_ok_group_of_rows:
  assumes "collation (locale_compare rt)" and "g \<noteq> []"
  shows "group_ok (group_of_rows rt g)"
  using assms sorted_offers [OF assms(1), of g]
  by (auto simp: group_ok_def group_of_rows_def Let_def hd_map)

lemma group_ok_group_offers:
  assumes "collation (locale_compare rt)" and "G \<in> set (group_offers rt rows)"
  shows "group_ok G"
  using assms group_by_values_nonempty
  by (auto simp: group_offers_def group_by_product_def simp del: set_map intro!: group_ok_group_of_rows)
    (auto intro!: group_ok_group_of_rows)

lemma group_ok_wrap: "G \<in> set (wrap_offers rows) \<Longrightarrow> group_ok G"
  by (auto simp: wrap_offers_def group_ok_def)

end
