(* ===== verification/Report_Groups.thy ===== *)
theory Report_Groups
  imports Report_Service
begin

text \<open>
  What grouping does to a selection of rows, shared by the five reports: the offers of the groups
  are exactly the selected rows, one group per product, in an order that depends on the rows
  and not on the order they came in, and never on the shop's advertised price.
\<close>

section \<open>One group per product\<close>

lemma product_group_of_rows:
  assumes "g \<noteq> []" and "\<And>row. row \<in> set g \<Longrightarrow> product_id row = k"
  shows "product_id (group_of_rows rt g) = k"
proof -
  have "hd (js_sort (by_price (locale_compare rt)) g) \<in> set g"
    using assms(1) by (metis hd_in_set js_sort_eq_Nil set_js_sort)
  with assms(2) show ?thesis by (simp add: group_of_rows_def Let_def)
qed

lemma offers_group_of_rows: "mset (offers (group_of_rows rt g)) = mset (map to_offer g)"
  by (simp add: group_of_rows_def Let_def mset_js_sort)

lemma header_group_of_rows: "g \<noteq> [] \<Longrightarrow> report_row.truncate (group_of_rows rt g) \<in> set g"
  by (simp add: group_of_rows_def Let_def) (metis hd_in_set js_sort_eq_Nil set_js_sort)

lemma in_group_offers:
  assumes "G \<in> set (group_offers rt rows)"
  obtains g where "G = group_of_rows rt g" and "g \<noteq> []"
    and "g = filter (\<lambda>row. product_id row = product_id G) rows" and "product_id G \<in> product_id ` set rows"
proof -
  obtain k g where kg: "(k, g) \<in> set (js_group_by product_id rows)" and G: "G = group_of_rows rt g"
    using assms by (auto simp: group_offers_def group_by_product_def)
  have g: "k \<in> product_id ` set rows" "g = filter (\<lambda>row. product_id row = k) rows"
    using kg by (simp_all add: js_group_by_iff)
  then have "g \<noteq> []" by (auto simp: filter_empty_conv)
  moreover from this have "product_id G = k"
    unfolding G by (rule product_group_of_rows) (simp add: g)
  ultimately show thesis using G g by (intro that [of g]) simp_all
qed

lemma products_group_offers: "map product_id (group_offers rt rows) = map fst (js_group_by product_id rows)"
proof -
  have "product_id (group_of_rows rt (filter (\<lambda>row. product_id row = k) rows)) = k"
    if "k \<in> product_id ` set rows" for k
    using that by (intro product_group_of_rows) (auto simp: filter_empty_conv)
  then show ?thesis
    by (auto simp: group_offers_def group_by_product_def group_by_values_conv js_group_by_iff intro!: map_idI
        simp del: map_map simp add: map_map [unfolded comp_def])
qed

lemma distinct_products_group_offers: "distinct (map product_id (group_offers rt rows))"
  by (simp only: products_group_offers distinct_keys_group_by)

lemma set_products_group_offers: "product_id ` set (group_offers rt rows) = product_id ` set rows"
  by (metis products_group_offers keys_js_group_by set_map)

lemma mset_offers_in_group:
  "G \<in> set (group_offers rt rows) \<Longrightarrow>
     mset (offers G) = mset (map to_offer (filter (\<lambda>row. product_id row = product_id G) rows))"
  by (erule in_group_offers) (metis offers_group_of_rows)

lemma mset_concat_cong:
  assumes "\<And>x. x \<in> set xs \<Longrightarrow> mset (f x) = mset (g x)"
  shows "mset (concat (map f xs)) = mset (concat (map g xs))"
  using assms by (induction xs) auto

lemma mset_offers_group_offers: "mset (concat (map offers (group_offers rt rows))) = mset (map to_offer rows)"
proof -
  have "mset (concat (map offers (group_offers rt rows)))
      = mset (concat (map (map to_offer) (map snd (js_group_by product_id rows))))"
    unfolding group_offers_def group_by_product_def map_map
    by (rule mset_concat_cong) (simp add: offers_group_of_rows)
  also have "\<dots> = mset (map to_offer (concat (map snd (js_group_by product_id rows))))"
    by (simp add: map_concat)
  also have "\<dots> = mset (map to_offer rows)"
    by (simp only: mset_map mset_concat_group_by)
  finally show ?thesis .
qed

lemma offers_group_offers: "set (concat (map offers (group_offers rt rows))) = to_offer ` set rows"
  using arg_cong [OF mset_offers_group_offers, where f = set_mset] by (simp del: set_concat)

lemma offers_js_sort: "mset (concat (map offers (js_sort c gs))) = mset (concat (map offers gs))"
  by (simp add: mset_concat mset_js_sort flip: sum_mset_sum_list)

lemma offers_wrap: "map offers (wrap_offers rows) = map (\<lambda>row. [to_offer row]) rows"
  by (simp add: wrap_offers_def)

lemma mset_offers_wrap: "mset (concat (map offers (wrap_offers rows))) = mset (map to_offer rows)"
  by (simp add: offers_wrap concat_map_singleton)

section \<open>The order rows come in does not matter\<close>

definition ids_separated :: "js_runtime \<Rightarrow> 'a report_current_row_scheme list \<Rightarrow> bool" where
  \<comment> \<open>specification: row ids, as the collation compares them, name one row each\<close>
  "ids_separated rt rows \<longleftrightarrow>
     (\<forall>a \<in> set rows. \<forall>b \<in> set rows. locale_compare rt (row_id a) (row_id b) = 0 \<longrightarrow> a = b)"

lemma ids_separated_subset: "ids_separated rt rows \<Longrightarrow> set rows' \<subseteq> set rows \<Longrightarrow> ids_separated rt rows'"
  unfolding ids_separated_def by blast

lemma ids_separated_map:
  "ids_separated rt rows \<Longrightarrow> (\<And>row. row_id (f row) = row_id row) \<Longrightarrow> ids_separated rt (map f rows)"
  unfolding ids_separated_def by auto

lemma ids_separated_mset: "mset rows = mset rows' \<Longrightarrow> ids_separated rt rows = ids_separated rt rows'"
  unfolding ids_separated_def by (metis set_mset_mset)

lemma ids_separated_filter: "ids_separated rt rows \<Longrightarrow> ids_separated rt (filter P rows)"
  by (erule ids_separated_subset) auto

lemma sort_by_price_perm:
  assumes "collation (locale_compare rt)" and "ids_separated rt xs" and "mset xs = mset ys"
  shows "js_sort (by_price (locale_compare rt)) xs = js_sort (by_price (locale_compare rt)) ys"
proof (rule comparator.js_sort_unique [OF comparator_by_price [OF collation.axioms [OF assms(1)]] assms(3)])
  show "a = b" if "a \<in> set xs" "b \<in> set xs" "by_price (locale_compare rt) a b = 0" for a b
    using that assms(2) by_price_zeroD [OF that(3)] by (auto simp: ids_separated_def)
qed

lemma group_of_rows_perm:
  assumes "collation (locale_compare rt)" and "ids_separated rt xs" and "mset xs = mset ys"
  shows "group_of_rows rt xs = group_of_rows rt ys"
  by (simp add: group_of_rows_def sort_by_price_perm [OF assms])

lemma mset_group_offers_perm:
  assumes "collation (locale_compare rt)" and "ids_separated rt xs" and "mset xs = mset ys"
  shows "mset (group_offers rt xs) = mset (group_offers rt ys)"
  unfolding group_offers_def group_by_product_def
proof (rule mset_group_by_perm [OF assms(3)])
  fix k
  have "mset (filter (\<lambda>row. product_id row = k) xs) = mset (filter (\<lambda>row. product_id row = k) ys)"
    using assms(3) by simp
  with assms(1) ids_separated_filter [OF assms(2)]
  show "group_of_rows rt (filter (\<lambda>row. product_id row = k) xs) = group_of_rows rt (filter (\<lambda>row. product_id row = k) ys)"
    by (rule group_of_rows_perm)
qed

lemma group_offers_separated:
  assumes "ids_separated rt rows"
  shows "ids_separated rt (group_offers rt rows)"
  unfolding ids_separated_def
proof (intro ballI impI)
  fix A B
  assume AB: "A \<in> set (group_offers rt rows)" "B \<in> set (group_offers rt rows)"
    and eq: "locale_compare rt (row_id A) (row_id B) = 0"
  obtain g where A: "A = group_of_rows rt g" "g \<noteq> []" "g = filter (\<lambda>row. product_id row = product_id A) rows"
    using AB(1) by (rule in_group_offers)
  obtain h where B: "B = group_of_rows rt h" "h \<noteq> []" "h = filter (\<lambda>row. product_id row = product_id B) rows"
    using AB(2) by (rule in_group_offers)
  have a: "report_row.truncate A \<in> set g" and b: "report_row.truncate B \<in> set h"
    using A(1,2) B(1,2) header_group_of_rows by simp_all
  have ids: "row_id (report_row.truncate G) = row_id G" "product_id (report_row.truncate G) = product_id G"
    for G :: report_group by (simp_all add: report_row.defs)
  have "report_row.truncate A \<in> set rows" "report_row.truncate B \<in> set rows"
    using a b A(3) B(3) by (metis filter_is_subset subsetD)+
  with assms eq have "report_row.truncate A = report_row.truncate B"
    by (simp add: ids_separated_def ids)
  then have eq: "product_id A = product_id B" by (metis ids(2))
  have "g = h" by (rule trans [OF A(3) [unfolded eq] B(3) [symmetric]])
  then have "group_of_rows rt g = group_of_rows rt h" by (rule arg_cong)
  then show "A = B" by (simp only: A(1) [symmetric] B(1) [symmetric])
qed

lemma sort_groups_perm:
  fixes xs :: "report_group list"
  assumes "comparator c" and "\<And>a b. c a b = 0 \<Longrightarrow> locale_compare rt (row_id a) (row_id b) = 0"
    and "ids_separated rt xs" and "mset xs = mset ys"
  shows "js_sort c xs = js_sort c ys"
  by (rule comparator.js_sort_unique [OF assms(1) assms(4)])
    (use assms(2,3) in \<open>auto simp: ids_separated_def\<close>)

lemma comparator_orders:
  assumes "collation (locale_compare rt)"
  shows "comparator (by_discount rt)" and "comparator (by_name rt)" and "comparator (by_recency rt)"
proof -
  note lc = collation.axioms [OF assms]
  show "comparator (by_discount rt)"
    unfolding by_discount_def by (rule comparator_or [OF comparator_diff_desc comparator_vimage [OF lc]])
  show "comparator (by_name rt)"
    unfolding by_name_def
    by (rule comparator_or [OF comparator_or [OF comparator_vimage [OF lc] comparator_diff] comparator_vimage [OF lc]])
  show "comparator (by_recency rt)"
    unfolding by_recency_def
    by (rule comparator_or [OF comparator_or [OF comparator_diff comparator_diff] comparator_vimage [OF lc]])
qed

lemma orders_zeroD:
  "by_discount rt a b = 0 \<Longrightarrow> locale_compare rt (row_id a) (row_id b) = 0"
  "by_name rt a b = 0 \<Longrightarrow> locale_compare rt (row_id a) (row_id b) = 0"
  "by_recency rt a b = 0 \<Longrightarrow> locale_compare rt (row_id a) (row_id b) = 0"
  by (auto simp: by_discount_def by_name_def by_recency_def js_or_def split: if_splits)

lemma sorted_group_offers_perm:
  assumes "collation (locale_compare rt)" and "ids_separated rt xs" and "mset xs = mset ys"
  shows "js_sort (by_discount rt) (group_offers rt xs) = js_sort (by_discount rt) (group_offers rt ys)"
    and "js_sort (by_name rt) (group_offers rt xs) = js_sort (by_name rt) (group_offers rt ys)"
    and "js_sort (by_recency rt) (group_offers rt xs) = js_sort (by_recency rt) (group_offers rt ys)"
  subgoal
    by (rule sort_groups_perm [OF comparator_orders(1) [OF assms(1)] orders_zeroD(1)
          group_offers_separated [OF assms(2)] mset_group_offers_perm [OF assms]])
  subgoal
    by (rule sort_groups_perm [OF comparator_orders(2) [OF assms(1)] orders_zeroD(2)
          group_offers_separated [OF assms(2)] mset_group_offers_perm [OF assms]])
  subgoal
    by (rule sort_groups_perm [OF comparator_orders(3) [OF assms(1)] orders_zeroD(3)
          group_offers_separated [OF assms(2)] mset_group_offers_perm [OF assms]])
  done

lemma wrap_offers_separated: "ids_separated rt rows \<Longrightarrow> ids_separated rt (wrap_offers rows)"
  by (auto simp: wrap_offers_def ids_separated_def)

lemma sorted_wrap_perm:
  assumes "collation (locale_compare rt)" and "ids_separated rt xs" and "mset xs = mset ys"
  shows "js_sort (by_discount rt) (wrap_offers xs) = js_sort (by_discount rt) (wrap_offers ys)"
  by (rule sort_groups_perm [where rt = rt, OF comparator_orders(1) [OF assms(1)] orders_zeroD(1)
        wrap_offers_separated [OF assms(2)]])
    (simp_all add: wrap_offers_def assms(3))

lemma latest_captured_Max:
  assumes "rows \<noteq> []"
  shows "latest_captured rows = Max (captured_date ` set rows)"
proof -
  have "foldl (\<lambda>m row. if captured_date row > m then captured_date row else m) m rows
      = Max (insert m (captured_date ` set rows))" for m and rows :: "report_current_row list"
  proof (induction rows arbitrary: m)
    case Nil
    then show ?case by simp
  next
    case (Cons r rs)
    have "Max (insert m (captured_date ` set (r # rs)))
        = Max (insert (max m (captured_date r)) (captured_date ` set rs))"
      by (cases "rs = []") (simp_all add: Max_insert max.assoc insert_commute)
    moreover have "(if captured_date r > m then captured_date r else m) = max m (captured_date r)"
      by (auto simp: max_def)
    ultimately show ?case using Cons.IH by simp
  qed
  moreover have "insert (captured_date (hd rows)) (captured_date ` set rows) = captured_date ` set rows"
    using assms by auto
  ultimately show ?thesis by (simp add: latest_captured_def)
qed

lemma cutoff_perm: "rows \<noteq> [] \<Longrightarrow> mset rows = mset rows' \<Longrightarrow> cutoff rows d = cutoff rows' d"
  unfolding cutoff_def by (metis latest_captured_Max mset_zero_iff set_mset_mset)

lemma mset_apply_min_discount:
  "mset xs = mset ys \<Longrightarrow> mset (apply_min_discount xs opts) = mset (apply_min_discount ys opts)"
  by (simp add: apply_min_discount_def)

lemma apply_min_discount_separated: "ids_separated rt xs \<Longrightarrow> ids_separated rt (apply_min_discount xs opts)"
  by (simp add: apply_min_discount_def ids_separated_filter)

lemma set_apply_min_discount:
  "row \<in> set (apply_min_discount rows opts) \<longleftrightarrow> row \<in> set rows
     \<and> (\<forall>m. opt_min_discount opts = Some m \<longrightarrow> m \<noteq> 0 \<longrightarrow>
            of_int (case discount_pct row of None \<Rightarrow> 0 | Some p \<Rightarrow> p) \<ge> m)"
  by (cases "opt_min_discount opts"; cases "discount_pct row")
    (auto simp: apply_min_discount_def truthy_num_def)

section \<open>The advertised price is carried, never read\<close>

definition advertise :: "(string \<Rightarrow> rat option) \<Rightarrow> 'a report_current_row_scheme \<Rightarrow> 'a report_current_row_scheme" where
  \<comment> \<open>specification: the shop advertises another strike price for each offer\<close>
  "advertise v row = row\<lparr>old_price := v (row_id row)\<rparr>"

definition advertise_offer :: "(string \<Rightarrow> rat option) \<Rightarrow> report_offer \<Rightarrow> report_offer" where
  "advertise_offer v ofr = ofr\<lparr>o_old_price := v (o_id ofr)\<rparr>"

definition advertise_group :: "(string \<Rightarrow> rat option) \<Rightarrow> report_group \<Rightarrow> report_group" where
  "advertise_group v g = (advertise v g)\<lparr>offers := map (advertise_offer v) (offers g)\<rparr>"

lemma advertise_simps [simp]:
  "row_id (advertise v row) = row_id row" "product_id (advertise v row) = product_id row"
  "price (advertise v row) = price row" "store_name (advertise v row) = store_name row"
  "store_slug (advertise v row) = store_slug row" "previous_price (advertise v row) = previous_price row"
  "first_seen (advertise v row) = first_seen row" "captured_date (advertise v row) = captured_date row"
  "display_name (advertise v row) = display_name row" "previous_drop (advertise v row) = previous_drop row"
  by (simp_all add: advertise_def display_name_def previous_drop_def split: option.split)

lemma advertise_row_simps [simp]:
  "discount_pct (advertise v row) = discount_pct row" "reference_price (advertise v row) = reference_price row"
  "days_new (advertise v row) = days_new row" "days_discount (advertise v row) = days_discount row"
  by (simp_all add: advertise_def)

lemma advertise_group_simps [simp]:
  "row_id (advertise_group v g) = row_id g" "price (advertise_group v g) = price g"
  "display_name (advertise_group v g) = display_name g" "discount_pct (advertise_group v g) = discount_pct g"
  "days_new (advertise_group v g) = days_new g"
  by (simp_all add: advertise_group_def advertise_def display_name_def split: option.split)

lemma by_price_advertise [simp]: "by_price lc (advertise v a) (advertise v b) = by_price lc a b"
  by (simp add: by_price_def)

lemma enrich_advertise [simp]: "enrich (advertise v row) ex = advertise v (enrich row ex)"
  by (simp add: enrich_def advertise_def report_current_row.defs)

lemma to_offer_advertise [simp]: "to_offer (advertise v row) = advertise_offer v (to_offer row)"
  by (simp add: to_offer_def advertise_offer_def advertise_def)

lemma to_group_advertise [simp]:
  "to_group (advertise v row) (map (advertise_offer v) os) = advertise_group v (to_group row os)"
  by (simp add: to_group_def advertise_group_def advertise_def report_row.defs)

lemma sort_by_price_advertise [simp]:
  "js_sort (by_price lc) (map (advertise v) g) = map (advertise v) (js_sort (by_price lc) g)"
  by (rule js_sort_map) simp

lemma group_of_rows_advertise:
  "g \<noteq> [] \<Longrightarrow> group_of_rows rt (map (advertise v) g) = advertise_group v (group_of_rows rt g)"
proof -
  assume "g \<noteq> []"
  then obtain h t where "js_sort (by_price (locale_compare rt)) g = h # t"
    by (cases "js_sort (by_price (locale_compare rt)) g") auto
  then show ?thesis
    using to_group_advertise [of v h "map to_offer (h # t)"] by (simp add: group_of_rows_def comp_def)
qed

lemma group_by_product_advertise:
  "map snd (group_by_product (map (advertise v) rows)) = map (map (advertise v)) (map snd (group_by_product rows))"
  by (simp add: group_by_product_def js_group_by_map [where g = product_id])

lemma group_offers_advertise:
  "group_offers rt (map (advertise v) rows) = map (advertise_group v) (group_offers rt rows)"
  unfolding group_offers_def group_by_product_advertise unfolding map_map group_by_product_def
  by (rule map_cong [OF refl])
    (use group_by_values_nonempty group_of_rows_advertise in \<open>fastforce simp: image_iff\<close>)

lemma wrap_offers_advertise:
  "wrap_offers (map (advertise v) rows) = map (advertise_group v) (wrap_offers rows)"
  using to_group_advertise [of v _ "[x]" for x] by (simp add: wrap_offers_def)

lemma sort_groups_advertise:
  "js_sort (by_discount rt) (map (advertise_group v) gs) = map (advertise_group v) (js_sort (by_discount rt) gs)"
  "js_sort (by_name rt) (map (advertise_group v) gs) = map (advertise_group v) (js_sort (by_name rt) gs)"
  "js_sort (by_recency rt) (map (advertise_group v) gs) = map (advertise_group v) (js_sort (by_recency rt) gs)"
  by (rule js_sort_map; simp add: by_discount_def by_name_def by_recency_def)+

lemma cutoff_advertise: "rows \<noteq> [] \<Longrightarrow> cutoff (map (advertise v) rows) d = cutoff rows d"
  by (simp add: cutoff_def latest_captured_Max image_image)

lemma apply_min_discount_advertise:
  "apply_min_discount (map (advertise v) rows) opts = map (advertise v) (apply_min_discount rows opts)"
  "apply_min_discount (map (advertise_group v) gs) opts = map (advertise_group v) (apply_min_discount gs opts)"
  by (simp_all add: apply_min_discount_def filter_map comp_def)

lemma kind_row_advertise [simp]:
  "catalog_row (advertise v row) = advertise v (catalog_row row)"
  "drops_row db since (advertise v row) = advertise v (drops_row db since row)"
  "low_row (advertise v row) = advertise v (low_row row)"
  "newest_row today (advertise v row) = advertise v (newest_row today row)"
  by (simp_all add: catalog_row_def drops_row_def low_row_def newest_row_def Let_def window_reference_def)

section \<open>The best offers\<close>

lemma best_step_append: "best_step rt filt groups g = groups @ best_step rt filt [] g"
  by (simp add: best_step_def split: option.split)

lemma best_fold: "foldl (best_step rt filt) groups gs = groups @ concat (map (best_step rt filt []) gs)"
proof (induction gs arbitrary: groups)
  case Nil
  then show ?case by simp
next
  case (Cons g gs)
  then show ?case by (simp add: best_step_append [of rt filt groups])
qed

lemma best_of_groupE:
  assumes "best_of_group rt g = Some w"
  obtains b r rest where "js_sort (by_price (locale_compare rt)) g = b # r # rest"
    and "w = enrich b \<lparr>ex_reference_price = Some (price r), ex_is_new = False,
                        ex_days_new = None, ex_days_discount = None\<rparr>"
    and "price r * best_merge_guard \<le> price b" and "2 \<le> length (js_set (map store_slug g))"
  using assms by (auto simp: best_of_group_def best_min_stores_def not_less split: if_splits list.splits)

lemma length_js_set: "length (js_set xs) = card (set xs)"
  by (metis distinct_card distinct_js_set set_js_set)

lemma best_of_group_perm:
  assumes "collation (locale_compare rt)" and "ids_separated rt xs" and "mset xs = mset ys"
  shows "best_of_group rt xs = best_of_group rt ys"
proof -
  have "length (js_set (map store_slug xs)) = length (js_set (map store_slug ys))"
    using assms(3) by (simp add: length_js_set) (metis set_mset_mset)
  then show ?thesis by (simp add: best_of_group_def sort_by_price_perm [OF assms])
qed

lemma best_offers_perm:
  assumes "collation (locale_compare rt)" and "ids_separated rt xs" and "mset xs = mset ys"
    and "best_of_group rt xs = Some w"
  shows "best_offers rt xs w = best_offers rt ys w"
proof -
  let ?f = "\<lambda>row. if row_id row = row_id w then w else catalog_row row"
  have "ids_separated rt (map ?f xs)"
    by (rule ids_separated_map [OF assms(2)]) simp
  moreover have "mset (map ?f xs) = mset (map ?f ys)" using assms(3) by simp
  ultimately show ?thesis by (simp only: best_offers_def sort_by_price_perm [OF assms(1)])
qed

lemma best_winner_in:
  assumes "best_of_group rt g = Some w"
  obtains b where "b \<in> set g" and "report_current_row.truncate w = b" and "row_id w = row_id b"
    and "price w = price b" and "product_id w = product_id b" and "store_name w = store_name b"
proof -
  obtain b r rest ex where bs: "js_sort (by_price (locale_compare rt)) g = b # r # rest" "w = enrich b ex"
    using assms by (rule best_of_groupE)
  have "b \<in> set g" using bs(1) by (metis list.set_intros(1) set_js_sort)
  with bs(2) show thesis by (intro that [of b]) simp_all
qed

lemma best_offers_sorted:
  assumes "collation (locale_compare rt)" and "ids_separated rt g" and "best_of_group rt g = Some w"
  shows "best_offers rt g w = map (to_offer \<circ> (\<lambda>row. if row_id row = row_id w then w else catalog_row row))
    (js_sort (by_price (locale_compare rt)) g)"
proof -
  let ?f = "\<lambda>row. if row_id row = row_id w then w else catalog_row row"
  obtain b where b: "b \<in> set g" "row_id w = row_id b" "price w = price b" "store_name w = store_name b"
    using assms(3) by (rule best_winner_in)
  have self: "locale_compare rt s s = 0" for s
    by (rule comparator.cmp_self [OF collation.axioms [OF assms(1)]])
  have "price (?f x) = price x \<and> store_name (?f x) = store_name x \<and> row_id (?f x) = row_id x"
    if "x \<in> set g" for x
  proof (cases "row_id x = row_id w")
    case True
    then have "x = b" using assms(2) that b(1,2) self by (auto simp: ids_separated_def)
    then show ?thesis using b by simp
  qed simp
  then have "by_price (locale_compare rt) (?f x) (?f y) = by_price (locale_compare rt) x y"
    if "x \<in> set g" "y \<in> set g" for x y
    using that by (intro by_price_cong) simp_all
  then have "js_sort (by_price (locale_compare rt)) (map ?f g) = map ?f (js_sort (by_price (locale_compare rt)) g)"
    by (rule js_sort_map_on)
  then show ?thesis by (simp add: best_offers_def)
qed

lemma group_ok_best_group:
  assumes "collation (locale_compare rt)" and "ids_separated rt g" and "best_of_group rt g = Some w"
  shows "group_ok (to_group w (best_offers rt g w))"
proof -
  obtain b r rest ex where bs: "js_sort (by_price (locale_compare rt)) g = b # r # rest" "w = enrich b ex"
    using assms(3) by (rule best_of_groupE)
  have "best_offers rt g w = map (to_offer \<circ> (\<lambda>row. if row_id row = row_id w then w else catalog_row row)) (b # r # rest)"
    by (simp only: best_offers_sorted [OF assms] bs(1))
  moreover have "row_id b = row_id w" by (simp add: bs(2))
  ultimately have "hd (best_offers rt g w) = to_offer w" and "best_offers rt g w \<noteq> []"
    by simp_all
  moreover have "sorted_wrt (\<lambda>a b. o_price a \<le> o_price b) (best_offers rt g w)"
    unfolding best_offers_def by (rule sorted_offers [OF assms(1)])
  ultimately show ?thesis by (simp add: group_ok_def)
qed

lemma in_best_step:
  "G \<in> set (best_step rt filt [] g) \<longleftrightarrow>
     (\<exists>w. best_of_group rt g = Some w \<and> within_price_bounds (price w) filt \<and> G = to_group w (best_offers rt g w))"
  by (cases "best_of_group rt g") (auto simp: best_step_def)

lemma in_best:
  "G \<in> set (best rt current filt options) \<longleftrightarrow>
     G \<in> set (apply_min_discount (concat (map (best_step rt filt []) (map snd (group_by_product current)))) options)"
  by (simp add: best_def best_fold)

lemma in_bestE:
  assumes "G \<in> set (best rt current filt options)"
  obtains w where "best_of_group rt (filter (\<lambda>row. product_id row = product_id G) current) = Some w"
    and "within_price_bounds (price w) filt" and "product_id G \<in> product_id ` set current"
    and "G = to_group w (best_offers rt (filter (\<lambda>row. product_id row = product_id G) current) w)"
proof -
  obtain k w where k: "k \<in> product_id ` set current"
    and w: "best_of_group rt (filter (\<lambda>row. product_id row = k) current) = Some w"
    "within_price_bounds (price w) filt"
    "G = to_group w (best_offers rt (filter (\<lambda>row. product_id row = k) current) w)"
    using assms
    by (auto simp: in_best set_apply_min_discount in_best_step group_by_product_def js_group_by_iff)
  obtain b where b: "b \<in> set (filter (\<lambda>row. product_id row = k) current)" "product_id w = product_id b"
    using w(1) by (rule best_winner_in)
  have "product_id G = k" using b by (subst w(3)) simp
  then show thesis using k w by (intro that [of w]) (simp_all only:)
qed

lemma best_step_perm:
  assumes "collation (locale_compare rt)" and "ids_separated rt xs" and "mset xs = mset ys"
  shows "best_step rt filt [] xs = best_step rt filt [] ys"
  using best_of_group_perm [OF assms] best_offers_perm [OF assms]
  by (auto simp: best_step_def split: option.split)

lemma best_groups_separated:
  assumes "ids_separated rt current"
  shows "ids_separated rt (best rt current filt options)"
  unfolding ids_separated_def
proof (intro ballI impI)
  fix A B
  assume A: "A \<in> set (best rt current filt options)" and B: "B \<in> set (best rt current filt options)"
    and lc: "locale_compare rt (row_id A) (row_id B) = 0"
  obtain v where v: "best_of_group rt (filter (\<lambda>row. product_id row = product_id A) current) = Some v"
    "A = to_group v (best_offers rt (filter (\<lambda>row. product_id row = product_id A) current) v)"
    using A by (rule in_bestE)
  obtain w where w: "best_of_group rt (filter (\<lambda>row. product_id row = product_id B) current) = Some w"
    "B = to_group w (best_offers rt (filter (\<lambda>row. product_id row = product_id B) current) w)"
    using B by (rule in_bestE)
  obtain a where a: "a \<in> set current" "row_id v = row_id a" "product_id a = product_id A"
    using v(1) by (rule best_winner_in) (auto intro: that)
  obtain b where b: "b \<in> set current" "row_id w = row_id b" "product_id b = product_id B"
    using w(1) by (rule best_winner_in) (auto intro: that)
  have "row_id A = row_id a" "row_id B = row_id b"
    using arg_cong [OF v(2), where f = row_id] arg_cong [OF w(2), where f = row_id] a(2) b(2) by simp_all
  then have "a = b" using assms a(1) b(1) lc by (simp add: ids_separated_def)
  then have p: "product_id A = product_id B" using a(3) b(3) by simp
  then have "v = w" using v(1) w(1) by (metis option.inject)
  with p show "A = B" using v(2) w(2) by metis
qed

lemma best_perm:
  assumes "collation (locale_compare rt)" and "ids_separated rt xs" and "mset xs = mset ys"
  shows "best rt xs filt options = best rt ys filt options"
proof -
  have "mset (map (best_step rt filt []) (map snd (js_group_by product_id xs)))
      = mset (map (best_step rt filt []) (map snd (js_group_by product_id ys)))"
  proof (rule mset_group_by_perm [OF assms(3)])
    fix k
    have "mset (filter (\<lambda>row. product_id row = k) xs) = mset (filter (\<lambda>row. product_id row = k) ys)"
      using assms(3) by simp
    with assms(1) ids_separated_filter [OF assms(2)]
    show "best_step rt filt [] (filter (\<lambda>row. product_id row = k) xs)
        = best_step rt filt [] (filter (\<lambda>row. product_id row = k) ys)"
      by (rule best_step_perm)
  qed
  then have "mset (concat (map (best_step rt filt []) (map snd (group_by_product xs))))
      = mset (concat (map (best_step rt filt []) (map snd (group_by_product ys))))"
    unfolding mset_concat group_by_product_def by (metis mset_map sum_mset_sum_list)
  then have m: "mset (apply_min_discount (concat (map (best_step rt filt []) (map snd (group_by_product xs)))) options)
      = mset (apply_min_discount (concat (map (best_step rt filt []) (map snd (group_by_product ys)))) options)"
    by (rule mset_apply_min_discount)
  have sep: "ids_separated rt (apply_min_discount (concat (map (best_step rt filt []) (map snd (group_by_product xs)))) options)"
    by (rule ids_separated_subset [OF best_groups_separated [OF assms(2), of filt options]]) (auto simp: in_best)
  show ?thesis
    unfolding best_def best_fold append_Nil
    by (rule sort_groups_perm [OF comparator_orders(1) [OF assms(1)] orders_zeroD(1) sep m])
qed

lemma best_of_group_advertise:
  "best_of_group rt (map (advertise v) g) = map_option (advertise v) (best_of_group rt g)"
proof (cases "js_sort (by_price (locale_compare rt)) g")
  case (Cons b rest)
  then show ?thesis by (cases rest) (simp_all add: best_of_group_def comp_def)
qed (simp add: best_of_group_def comp_def)

lemma best_offers_advertise:
  "best_offers rt (map (advertise v) g) (advertise v w) = map (advertise_offer v) (best_offers rt g w)"
proof -
  have "map (\<lambda>row. if row_id row = row_id (advertise v w) then advertise v w else catalog_row row) (map (advertise v) g)
      = map (advertise v) (map (\<lambda>row. if row_id row = row_id w then w else catalog_row row) g)"
    by simp
  then show ?thesis by (simp only: best_offers_def sort_by_price_advertise) simp
qed

lemma best_step_advertise:
  "best_step rt filt [] (map (advertise v) g) = map (advertise_group v) (best_step rt filt [] g)"
  by (cases "best_of_group rt g")
    (simp_all add: best_step_def best_of_group_advertise best_offers_advertise)

lemma best_advertise:
  "best rt (map (advertise v) current) filt options = map (advertise_group v) (best rt current filt options)"
  unfolding best_def best_fold append_Nil group_by_product_advertise
  by (simp add: map_concat comp_def best_step_advertise flip: apply_min_discount_advertise(2) sort_groups_advertise(1))

end
