(* ===== verification/Report_Facts.thy ===== *)
theory Report_Facts
  imports Report_Groups
begin

text \<open>
  What the five reports promise, stated over \<open>build_groups\<close> and the kinds it dispatches to:
  the shape of every group, independence from the database's row order and from advertised
  prices, and for each kind exactly which offers it holds.  The closing section states the
  pages a caller walks and \<open>history\<close>.  The demonstration rows at the start instantiate the
  parameters of the model for the theorems that apply the properties at a concrete input.
\<close>

section \<open>A small shop\<close>

definition demo_runtime :: js_runtime where
  "demo_runtime = \<lparr>locale_compare = code_unit_compare, to_lower = (\<lambda>s. s), number_string = (\<lambda>_. [])\<rparr>"

definition demo_row :: "string \<Rightarrow> string \<Rightarrow> string \<Rightarrow> rat \<Rightarrow> rat option \<Rightarrow> report_current_row" where
  "demo_row i pid store p prev =
     \<lparr>producer_id = Some ''maker'', bottler_id = None, row_id = i, product_id = pid, sku = i, url = i,
      row_name = Some pid, name_orig = pid, age = None, abv = Some 43, volume_ml = Some 700,
      store_slug = store, store_name = store, brand = None, whisky_type = None, country_code = None,
      country_name = None, country_icon = None, price = p, old_price = None, currency = ''UAH'',
      in_stock = True, promo = False, previous_price = prev, captured_date = ''2024-03-10'',
      first_seen = ''2024-03-09'', flavors = [], distillery = None, region = None, bottler = None,
      fact_sources = []\<rparr>"

definition demo_rows :: "report_current_row list" where
  "demo_rows =
     [demo_row ''r1'' ''islay'' ''east'' 1000 (Some 1200), demo_row ''r2'' ''islay'' ''west'' 900 None,
      demo_row ''r3'' ''speyside'' ''east'' 700 (Some 800)]"

definition demo_db :: report_db where
  "demo_db =
     \<lparr>db_current_rows = (\<lambda>_. demo_rows), db_latest_date = Some ''2024-03-10'',
      db_price_extremes = (\<lambda>_ i. if i = ''r2'' then Some (900, 900) else Some (700, 1250)),
      db_price_since = (\<lambda>_. Some ''2024-03-10''), db_resolve_term = Some,
      db_row_by_id = (\<lambda>i. if i = ''r1'' then Some (demo_row ''r1'' ''islay'' ''east'' 1000 (Some 1200)) else None),
      db_price_series = (\<lambda>_ _. [\<lparr>point_date = ''2024-03-01'', point_price = 1200\<rparr>,
                               \<lparr>point_date = ''2024-03-10'', point_price = 1000\<rparr>]),
      db_filter_ids = (\<lambda>_. \<lparr>favorites = [], blacklist_products = [''speyside''], blacklist_producers = []\<rparr>),
      db_today = ''2024-03-10''\<rparr>"

definition demo_filter :: report_filter where
  "demo_filter =
     \<lparr>f_stores = None, f_min_price = None, f_max_price = None, f_min_volume = None, f_max_volume = None,
      f_flavors = None, f_exclude_flavors = None, f_types = None, f_countries = None, f_name = None,
      f_regions = None, f_exclude_regions = None, f_verified_facts = None\<rparr>"

definition demo_options :: report_options where
  "demo_options =
     \<lparr>opt_window = Week, opt_discount_window = None, opt_min_discount = None, opt_sort = None,
      opt_order = Asc, opt_page = 1, opt_per_page = 10\<rparr>"

lemmas demo_defs = demo_runtime_def demo_db_def demo_filter_def demo_options_def

lemma demo_collation: "collation (locale_compare demo_runtime)"
  by (simp add: demo_runtime_def code_units.collation_axioms)

lemma code_unit_compare_zero: "code_unit_compare a b = 0 \<longleftrightarrow> a = b"
  by (auto simp: code_unit_compare_def)

lemma ids_separatedI:
  assumes "\<And>a b. locale_compare rt a b = 0 \<Longrightarrow> a = b" and "distinct (map row_id rows)"
  shows "ids_separated rt rows"
  using assms by (auto simp: ids_separated_def distinct_map dest: inj_onD)

lemma demo_separated: "ids_separated demo_runtime demo_rows"
proof (rule ids_separatedI)
  show "distinct (map row_id demo_rows)" by code_simp
qed (simp add: demo_runtime_def code_unit_compare_zero)

section \<open>Every report\<close>

lemma build_groups_Inr:
  assumes "build_groups rt db kind filt options = Inr gs"
  obtains "gs = []"
  | "kind = Catalog" "gs = catalog rt (db_current_rows db filt)"
  | "kind = Drops" "drops rt db (db_current_rows db filt) options = Inr gs"
  | "kind = Low" "low rt db (db_current_rows db filt) options = Inr gs"
  | "kind = New" "newest rt (db_current_rows db filt) (db_today db) (opt_window options) = Inr gs"
  | "kind = Best" "gs = best rt (db_current_rows db (selection_filter Best filt)) filt options"
proof (cases "db_latest_date db = None \<or> db_current_rows db (selection_filter kind filt) = []")
  case True
  then show thesis using assms that(1) by (simp add: build_groups_def Let_def)
next
  case False
  have f: "kind \<noteq> Best \<Longrightarrow> selection_filter kind filt = filt" by (simp add: selection_filter_def)
  show thesis
    using assms False f that(2-6) by (cases kind) (simp_all add: build_groups_def Let_def del: not_None_eq)
qed

lemma group_ok_catalog: "collation (locale_compare rt) \<Longrightarrow> G \<in> set (catalog rt current) \<Longrightarrow> group_ok G"
  by (simp add: catalog_def) (rule group_ok_group_offers)

lemma group_ok_drops:
  "collation (locale_compare rt) \<Longrightarrow> drops rt db current options = Inr gs \<Longrightarrow> G \<in> set gs \<Longrightarrow> group_ok G"
  by (auto simp: drops_def Let_def split: sum.splits intro: group_ok_group_offers)

lemma group_ok_low: "low rt db current options = Inr gs \<Longrightarrow> G \<in> set gs \<Longrightarrow> group_ok G"
  by (auto simp: low_def Let_def split: sum.splits intro: group_ok_wrap)

lemma group_ok_newest:
  "collation (locale_compare rt) \<Longrightarrow> newest rt current today window = Inr gs \<Longrightarrow> G \<in> set gs \<Longrightarrow> group_ok G"
  by (auto simp: newest_def Let_def split: option.splits intro: group_ok_group_offers)

lemma group_ok_best:
  assumes "collation (locale_compare rt)" and "ids_separated rt current" and "G \<in> set (best rt current filt options)"
  shows "group_ok G"
proof -
  obtain w where w: "best_of_group rt (filter (\<lambda>row. product_id row = product_id G) current) = Some w"
    "G = to_group w (best_offers rt (filter (\<lambda>row. product_id row = product_id G) current) w)"
    using assms(3) by (rule in_bestE)
  show ?thesis
    by (subst w(2)) (rule group_ok_best_group [OF assms(1) ids_separated_filter [OF assms(2)] w(1)])
qed

text \<open>
  C1: every group of every report holds at least one offer, lists its offers from the cheapest up,
  and states on its own row the fields of the first of them.
\<close>

theorem groups_lead_with_cheapest:
  assumes "collation (locale_compare rt)"
    and "ids_separated rt (db_current_rows db (selection_filter kind filt))"
    and "build_groups rt db kind filt options = Inr gs"
  shows "list_all group_ok gs"
  using assms(3)
proof (cases rule: build_groups_Inr)
  case 6
  with assms(1,2) show ?thesis by (auto simp: list_all_iff intro: group_ok_best)
qed (use assms(1) in \<open>auto simp: list_all_iff intro: group_ok_catalog group_ok_drops group_ok_low group_ok_newest\<close>)

theorem groups_lead_with_cheapest_witness:
  "list_all group_ok (best demo_runtime demo_rows demo_filter demo_options)
     \<and> map row_id (best demo_runtime demo_rows demo_filter demo_options) = [''r2'']"
proof (rule conjI)
  have "build_groups demo_runtime demo_db Best demo_filter demo_options
      = Inr (best demo_runtime demo_rows demo_filter demo_options)"
    by (simp add: build_groups_def demo_db_def demo_rows_def)
  then show "list_all group_ok (best demo_runtime demo_rows demo_filter demo_options)"
    by (rule groups_lead_with_cheapest [rotated 2]) (simp_all add: demo_collation demo_separated demo_db_def)
  show "map row_id (best demo_runtime demo_rows demo_filter demo_options) = [''r2'']"
    by code_simp
qed

lemma drops_perm:
  assumes "collation (locale_compare rt)" and "ids_separated rt xs" and "mset xs = mset ys"
  shows "drops rt db xs options = drops rt db ys options"
proof (cases "xs = []")
  case False
  let ?sel = "\<lambda>since rows. apply_min_discount (filter (\<lambda>row. discount_pct row \<noteq> None
    \<and> matches_day_window (days_discount row) (opt_discount_window options)) (map (drops_row db since) rows)) options"
  have "ids_separated rt (?sel since xs)" for since
    by (intro apply_min_discount_separated ids_separated_filter ids_separated_map [OF assms(2)]) simp
  moreover have "mset (?sel since xs) = mset (?sel since ys)" for since
    by (rule mset_apply_min_discount) (simp add: assms(3))
  ultimately show ?thesis
    by (simp add: drops_def Let_def cutoff_perm [OF False assms(3)] sorted_group_offers_perm(1) [OF assms(1)]
        split: sum.split)
qed (use assms(3) in simp)

lemma low_perm:
  assumes "collation (locale_compare rt)" and "ids_separated rt xs" and "mset xs = mset ys"
  shows "low rt db xs options = low rt db ys options"
proof (cases "xs = []")
  case False
  let ?sel = "\<lambda>since rows. apply_min_discount (filter (\<lambda>row. discount_pct row \<noteq> None)
    (map low_row (filter (at_window_low db since) rows))) options"
  have "ids_separated rt (?sel since xs)" for since
    by (intro apply_min_discount_separated ids_separated_filter ids_separated_map ids_separated_filter [OF assms(2)]) simp
  moreover have "mset (?sel since xs) = mset (?sel since ys)" for since
    by (rule mset_apply_min_discount) (simp add: assms(3))
  ultimately show ?thesis
    by (simp add: low_def Let_def cutoff_perm [OF False assms(3)] sorted_wrap_perm [OF assms(1)]
        split: sum.split)
qed (use assms(3) in simp)

lemma newest_perm:
  assumes "collation (locale_compare rt)" and "ids_separated rt xs" and "mset xs = mset ys"
  shows "newest rt xs today window = newest rt ys today window"
proof -
  let ?sel = "\<lambda>since rows. filter (\<lambda>row. matches_day_window (days_new row) (Some window))
    (map (newest_row today) (filter (\<lambda>row. first_seen row \<ge> since) rows))"
  have "ids_separated rt (?sel since xs)" for since
    by (intro ids_separated_filter ids_separated_map ids_separated_filter [OF assms(2)]) simp
  moreover have "mset (?sel since xs) = mset (?sel since ys)" for since
    by (simp add: assms(3))
  ultimately show ?thesis
    by (simp add: newest_def Let_def sorted_group_offers_perm(3) [OF assms(1)] split: option.split)
qed

lemma catalog_perm:
  assumes "collation (locale_compare rt)" and "ids_separated rt xs" and "mset xs = mset ys"
  shows "catalog rt xs = catalog rt ys"
  unfolding catalog_def
  by (rule sorted_group_offers_perm(2) [OF assms(1) ids_separated_map [OF assms(2)]]) (simp_all add: assms(3))

lemma kinds_other_rows [simp]:
  "drops rt (db\<lparr>db_current_rows := rows\<rparr>) current options = drops rt db current options"
  "low rt (db\<lparr>db_current_rows := rows\<rparr>) current options = low rt db current options"
proof -
  have "drops_row (db\<lparr>db_current_rows := rows\<rparr>) = drops_row db" "at_window_low (db\<lparr>db_current_rows := rows\<rparr>) = at_window_low db"
    by (simp_all add: fun_eq_iff drops_row_def at_window_low_def cong: option.case_cong)
  then show "drops rt (db\<lparr>db_current_rows := rows\<rparr>) current options = drops rt db current options"
    and "low rt (db\<lparr>db_current_rows := rows\<rparr>) current options = low rt db current options"
    by (simp_all add: drops_def low_def split: sum.split)
qed

text \<open>
  C2: a report is a function of the set of rows the database holds, not of the order it returns
  them in: however two answers are permuted, the index and the entries are the same.
\<close>

theorem report_set_order_independent:
  assumes "collation (locale_compare rt)"
    and "\<And>f. ids_separated rt (db_current_rows db f)"
    and "\<And>f. mset (db_current_rows db f) = mset (rows' f)"
  shows "build_set rt (db\<lparr>db_current_rows := rows'\<rparr>) kind filt options = build_set rt db kind filt options"
proof -
  have e: "db_current_rows db f = [] \<longleftrightarrow> rows' f = []" for f
    using assms(3) [of f] by (metis mset_zero_iff)
  have "build_groups rt (db\<lparr>db_current_rows := rows'\<rparr>) kind filt options = build_groups rt db kind filt options"
    using catalog_perm [OF assms] drops_perm [OF assms] low_perm [OF assms] newest_perm [OF assms]
      best_perm [OF assms]
    by (cases kind) (simp_all add: build_groups_def Let_def e)
  then show ?thesis by (simp add: build_set_def)
qed

theorem report_set_order_independent_witness:
  "build_set demo_runtime (demo_db\<lparr>db_current_rows := \<lambda>_. rev demo_rows\<rparr>) Drops demo_filter demo_options
     = build_set demo_runtime demo_db Drops demo_filter demo_options
   \<and> rev demo_rows \<noteq> demo_rows"
proof (rule conjI)
  show "build_set demo_runtime (demo_db\<lparr>db_current_rows := \<lambda>_. rev demo_rows\<rparr>) Drops demo_filter demo_options
     = build_set demo_runtime demo_db Drops demo_filter demo_options"
    by (rule report_set_order_independent) (simp_all add: demo_collation demo_separated demo_db_def)
  show "rev demo_rows \<noteq> demo_rows" by (simp add: demo_rows_def demo_row_def)
qed

lemma catalog_advertise: "catalog rt (map (advertise v) rows) = map (advertise_group v) (catalog rt rows)"
  by (simp add: catalog_def comp_def group_offers_advertise [of rt v "map catalog_row rows", simplified comp_def map_map]
      sort_groups_advertise)

lemma newest_advertise:
  "newest rt (map (advertise v) rows) today w = map_sum (\<lambda>e. e) (map (advertise_group v)) (newest rt rows today w)"
proof -
  have "filter (\<lambda>row. matches_day_window (days_new row) (Some w))
      (map (newest_row today) (filter (\<lambda>row. first_seen row \<ge> since) (map (advertise v) rows)))
    = map (advertise v) (filter (\<lambda>row. matches_day_window (days_new row) (Some w))
        (map (newest_row today) (filter (\<lambda>row. first_seen row \<ge> since) rows)))" for since
    by (simp add: filter_map comp_def)
  then show ?thesis
    by (simp add: newest_def Let_def group_offers_advertise sort_groups_advertise split: option.split)
qed

lemma drops_advertise:
  assumes "rows \<noteq> []"
  shows "drops rt db (map (advertise v) rows) options
    = map_sum (\<lambda>e. e) (map (advertise_group v)) (drops rt db rows options)"
proof -
  have "filter (\<lambda>row. discount_pct row \<noteq> None \<and> matches_day_window (days_discount row) (opt_discount_window options))
      (map (drops_row db since) (map (advertise v) rows))
    = map (advertise v) (filter (\<lambda>row. discount_pct row \<noteq> None
        \<and> matches_day_window (days_discount row) (opt_discount_window options)) (map (drops_row db since) rows))" for since
    by (simp add: filter_map comp_def)
  then show ?thesis
    by (simp add: drops_def Let_def cutoff_advertise [OF assms] apply_min_discount_advertise
        group_offers_advertise sort_groups_advertise split: sum.split)
qed

lemma low_advertise:
  assumes "rows \<noteq> []"
  shows "low rt db (map (advertise v) rows) options
    = map_sum (\<lambda>e. e) (map (advertise_group v)) (low rt db rows options)"
proof -
  have "at_window_low db since (advertise v row) = at_window_low db since row" for since row
    by (simp add: at_window_low_def split: option.split)
  then have "filter (\<lambda>row. discount_pct row \<noteq> None) (map low_row (filter (at_window_low db since) (map (advertise v) rows)))
    = map (advertise v) (filter (\<lambda>row. discount_pct row \<noteq> None) (map low_row (filter (at_window_low db since) rows)))"
    for since
    by (simp add: filter_map comp_def)
  then show ?thesis
    by (simp add: low_def Let_def cutoff_advertise [OF assms] apply_min_discount_advertise
        wrap_offers_advertise sort_groups_advertise split: sum.split)
qed

text \<open>
  C3: no report reads the shop's advertised strike price.  Whatever the shop advertises, every
  selection, discount, order and group is the one computed from recorded prices, with the
  advertised price carried along.
\<close>

theorem advertised_price_never_read:
  "build_groups rt (db\<lparr>db_current_rows := \<lambda>f. map (advertise v) (db_current_rows db f)\<rparr>) kind filt options
     = map_sum (\<lambda>e. e) (map (advertise_group v)) (build_groups rt db kind filt options)"
  by (cases kind)
    (simp_all add: build_groups_def Let_def catalog_advertise drops_advertise low_advertise newest_advertise best_advertise)

section \<open>Which offers each report holds\<close>

text \<open>
  C4: the catalog loses nothing and repeats nothing: it has one group per bottling, and its groups
  hold exactly the current rows, each once and under its own bottling.
\<close>

theorem catalog_partitions_offers:
  "mset (concat (map offers (catalog rt current))) = mset (map (to_offer \<circ> catalog_row) current)
   \<and> distinct (map product_id (catalog rt current))
   \<and> product_id ` set (catalog rt current) = product_id ` set current
   \<and> list_all (\<lambda>G. mset (offers G) = mset (map (to_offer \<circ> catalog_row)
        (filter (\<lambda>row. product_id row = product_id G) current))) (catalog rt current)"
proof (intro conjI)
  show "mset (concat (map offers (catalog rt current))) = mset (map (to_offer \<circ> catalog_row) current)"
    by (simp only: catalog_def offers_js_sort mset_offers_group_offers map_map)
  have "mset (map product_id (catalog rt current)) = mset (map product_id (group_offers rt (map catalog_row current)))"
    by (simp add: catalog_def mset_js_sort)
  then show "distinct (map product_id (catalog rt current))"
    using distinct_products_group_offers mset_eq_imp_distinct_iff by blast
  show "product_id ` set (catalog rt current) = product_id ` set current"
    by (simp add: catalog_def set_products_group_offers image_image)
  show "list_all (\<lambda>G. mset (offers G) = mset (map (to_offer \<circ> catalog_row)
      (filter (\<lambda>row. product_id row = product_id G) current))) (catalog rt current)"
    by (auto simp: list_all_iff catalog_def filter_map comp_def dest!: mset_offers_in_group)
qed

definition drop_offer :: "report_db \<Rightarrow> string \<Rightarrow> report_options \<Rightarrow> report_current_row \<Rightarrow> bool" where
  \<comment> \<open>specification: the price fell from the window's recorded maximum, by enough and on the right day\<close>
  "drop_offer db since options row =
     (case db_price_extremes db since (row_id row) of
        None \<Rightarrow> False
      | Some (_, hi) \<Rightarrow>
          0 < hi \<and> price row < hi
          \<and> matches_day_window (case db_price_since db (row_id row) of None \<Rightarrow> None
                               | Some d \<Rightarrow> js_days_between d (db_today db)) (opt_discount_window options)
          \<and> (truthy_num (opt_min_discount options)
               \<longrightarrow> of_int (js_round ((hi - price row) / hi * 100)) \<ge> the (opt_min_discount options)))"

lemma drops_row_discount:
  "discount_pct (drops_row db since row) =
     (case db_price_extremes db since (row_id row) of
        None \<Rightarrow> None
      | Some (_, hi) \<Rightarrow> if 0 < hi \<and> price row < hi then Some (js_round ((hi - price row) / hi * 100)) else None)"
  by (auto simp: drops_row_def Let_def window_reference_def truthy_num_def discount_pct_of_def split: option.split)

lemma drop_offer_conv:
  "drop_offer db since options row \<longleftrightarrow>
     (discount_pct (drops_row db since row) \<noteq> None
        \<and> matches_day_window (days_discount (drops_row db since row)) (opt_discount_window options))
     \<and> (truthy_num (opt_min_discount options) \<longrightarrow>
          (case discount_pct (drops_row db since row) of None \<Rightarrow> 0 | Some p \<Rightarrow> of_int p) \<ge> the (opt_min_discount options))"
proof -
  have d: "days_discount (drops_row db since row)
      = (case db_price_since db (row_id row) of None \<Rightarrow> None | Some d \<Rightarrow> js_days_between d (db_today db))"
    by (simp add: drops_row_def Let_def)
  show ?thesis
    unfolding drop_offer_def d drops_row_discount
    by (cases "db_price_extremes db since (row_id row)") (auto simp: case_prod_unfold)
qed

lemma min_discount_selection:
  "apply_min_discount (filter P (map f rows)) options
     = map f (filter (\<lambda>row. P (f row) \<and> (truthy_num (opt_min_discount options) \<longrightarrow>
          (case discount_pct (f row) of None \<Rightarrow> 0 | Some p \<Rightarrow> of_int p) \<ge> the (opt_min_discount options))) rows)"
  by (simp add: apply_min_discount_def filter_map comp_def conj_commute)

lemma drops_selection:
  "apply_min_discount (filter (\<lambda>row. discount_pct row \<noteq> None
       \<and> matches_day_window (days_discount row) (opt_discount_window options)) (map (drops_row db since) current)) options
   = map (drops_row db since) (filter (drop_offer db since options) current)"
  unfolding min_discount_selection drop_offer_conv ..

text \<open>
  C5: \<open>drops\<close> holds exactly the offers whose price is below the highest price we recorded for them
  since the cutoff, by at least the requested percentage and dated as requested, and it states
  that recorded maximum as the reference and the percentage measured against it.
\<close>

theorem drops_exact:
  assumes "drops rt db current options = Inr gs"
    and "cutoff current (window_days (opt_window options)) = Inr since"
  shows "mset (concat (map offers gs)) = mset (map (to_offer \<circ> drops_row db since) (filter (drop_offer db since options) current))
   \<and> distinct (map product_id gs)
   \<and> list_all (\<lambda>ofr. \<exists>lo hi. db_price_extremes db since (o_id ofr) = Some (lo, hi) \<and> o_price ofr < hi
        \<and> o_reference_price ofr = Some hi
        \<and> o_discount_pct ofr = Some (js_round ((hi - o_price ofr) / hi * 100))) (concat (map offers gs))"
proof (intro conjI)
  let ?rows = "map (drops_row db since) (filter (drop_offer db since options) current)"
  have gs: "gs = js_sort (by_discount rt) (group_offers rt ?rows)"
    using assms by (simp add: drops_def Let_def drops_selection del: not_None_eq)
  show m: "mset (concat (map offers gs)) = mset (map (to_offer \<circ> drops_row db since) (filter (drop_offer db since options) current))"
    by (simp only: gs offers_js_sort mset_offers_group_offers map_map)
  have "mset (map product_id gs) = mset (map product_id (group_offers rt ?rows))"
    by (simp add: gs mset_js_sort)
  then show "distinct (map product_id gs)"
    using distinct_products_group_offers mset_eq_imp_distinct_iff by blast
  have "\<exists>lo hi. db_price_extremes db since (row_id row) = Some (lo, hi) \<and> price row < hi
        \<and> reference_price (drops_row db since row) = Some hi
        \<and> discount_pct (drops_row db since row) = Some (js_round ((hi - price row) / hi * 100))"
    if "drop_offer db since options row" for row
    using that by (auto simp: drop_offer_def drops_row_discount drops_row_def Let_def window_reference_def
        truthy_num_def discount_pct_of_def split: option.splits)
  then show "list_all (\<lambda>ofr. \<exists>lo hi. db_price_extremes db since (o_id ofr) = Some (lo, hi) \<and> o_price ofr < hi
        \<and> o_reference_price ofr = Some hi
        \<and> o_discount_pct ofr = Some (js_round ((hi - o_price ofr) / hi * 100))) (concat (map offers gs))"
    unfolding list_all_iff using mset_eq_setD [OF m] by auto
qed

lemma demo_cutoff: "cutoff demo_rows (window_days (opt_window demo_options)) = Inr ''2024-03-03''"
  by code_simp

lemma demo_drops:
  "drops demo_runtime demo_db demo_rows demo_options = Inr (projr (drops demo_runtime demo_db demo_rows demo_options))"
  by (simp add: drops_def demo_cutoff Let_def)

theorem drops_exact_witness:
  "mset (concat (map offers (projr (drops demo_runtime demo_db demo_rows demo_options))))
     = mset (map (to_offer \<circ> drops_row demo_db ''2024-03-03'') (filter (drop_offer demo_db ''2024-03-03'' demo_options) demo_rows))
   \<and> map row_id (filter (drop_offer demo_db ''2024-03-03'' demo_options) demo_rows) = [''r1'', ''r3'']"
proof (rule conjI)
  show "mset (concat (map offers (projr (drops demo_runtime demo_db demo_rows demo_options))))
     = mset (map (to_offer \<circ> drops_row demo_db ''2024-03-03'') (filter (drop_offer demo_db ''2024-03-03'' demo_options) demo_rows))"
    using drops_exact [OF demo_drops demo_cutoff] by (rule conjunct1)
  show "map row_id (filter (drop_offer demo_db ''2024-03-03'' demo_options) demo_rows) = [''r1'', ''r3'']"
    by code_simp
qed

definition low_offer :: "report_db \<Rightarrow> string \<Rightarrow> report_options \<Rightarrow> report_current_row \<Rightarrow> bool" where
  \<comment> \<open>specification: at the window's recorded minimum, and cheaper than at the previous snapshot by enough\<close>
  "low_offer db since options row =
     ((case db_price_extremes db since (row_id row) of None \<Rightarrow> False | Some (lo, _) \<Rightarrow> price row \<le> lo + 1 / 10 ^ 9)
      \<and> (case previous_price row of None \<Rightarrow> False
         | Some prev \<Rightarrow> 0 < prev \<and> price row < prev
             \<and> (truthy_num (opt_min_discount options)
                  \<longrightarrow> of_int (js_round ((prev - price row) / prev * 100)) \<ge> the (opt_min_discount options))))"

lemma low_row_discount:
  "discount_pct (low_row row) =
     (case previous_price row of None \<Rightarrow> None
      | Some prev \<Rightarrow> if 0 < prev \<and> price row < prev then Some (js_round ((prev - price row) / prev * 100)) else None)"
  by (auto simp: low_row_def discount_pct_of_def split: option.split)

lemma low_offer_conv:
  "low_offer db since options row \<longleftrightarrow>
     at_window_low db since row \<and> discount_pct (low_row row) \<noteq> None
     \<and> (truthy_num (opt_min_discount options) \<longrightarrow>
          (case discount_pct (low_row row) of None \<Rightarrow> 0 | Some p \<Rightarrow> of_int p) \<ge> the (opt_min_discount options))"
proof -
  have "at_window_low db since row
      = (case db_price_extremes db since (row_id row) of None \<Rightarrow> False | Some (lo, _) \<Rightarrow> price row \<le> lo + 1 / 10 ^ 9)"
    by (simp add: at_window_low_def split: option.split)
  then show ?thesis
    unfolding low_offer_def low_row_discount
    by (cases "previous_price row") (auto simp del: one_add_one)
qed

lemma low_selection:
  "apply_min_discount (filter (\<lambda>row. discount_pct row \<noteq> None) (map low_row (filter (at_window_low db since) current))) options
     = map low_row (filter (low_offer db since options) current)"
  unfolding min_discount_selection filter_filter low_offer_conv by (simp add: conj_ac)

text \<open>
  C6: \<open>low\<close> holds exactly the offers that stand at their recorded minimum since the cutoff and
  cost less than at their previous snapshot, each in a group of its own, so that two shops at
  their own lows are both shown.
\<close>

theorem low_exact:
  assumes "low rt db current options = Inr gs"
    and "cutoff current (window_days (opt_window options)) = Inr since"
  shows "mset (map offers gs) = mset (map (\<lambda>row. [to_offer (low_row row)]) (filter (low_offer db since options) current))"
proof -
  have "gs = js_sort (by_discount rt) (wrap_offers (map low_row (filter (low_offer db since options) current)))"
    using assms by (simp add: low_def Let_def low_selection del: not_None_eq)
  then show ?thesis by (simp add: mset_js_sort wrap_offers_def comp_def image_mset.compositionality)
qed

lemma demo_low:
  "low demo_runtime demo_db demo_rows demo_options = Inr (projr (low demo_runtime demo_db demo_rows demo_options))"
  by (simp add: low_def demo_cutoff Let_def)

theorem low_exact_witness:
  "mset (map offers (projr (low demo_runtime demo_db demo_rows demo_options)))
     = mset (map (\<lambda>row. [to_offer (low_row row)]) (filter (low_offer demo_db ''2024-03-03'' demo_options) demo_rows))
   \<and> map row_id (filter (low_offer demo_db ''2024-03-03'' demo_options) demo_rows) = [''r3'']"
proof (rule conjI)
  show "mset (map offers (projr (low demo_runtime demo_db demo_rows demo_options)))
     = mset (map (\<lambda>row. [to_offer (low_row row)]) (filter (low_offer demo_db ''2024-03-03'' demo_options) demo_rows))"
    by (rule low_exact [OF demo_low demo_cutoff])
  show "map row_id (filter (low_offer demo_db ''2024-03-03'' demo_options) demo_rows) = [''r3'']"
    by code_simp
qed

definition listed_within :: "int \<Rightarrow> report_window \<Rightarrow> report_current_row \<Rightarrow> bool" where
  \<comment> \<open>specification: first seen in the last seven days, on the day the window names\<close>
  "listed_within t window row =
     (\<exists>n. parse_day (first_seen row) = Some n \<and> t - 6 \<le> n
        \<and> (window = Today \<longrightarrow> n = t) \<and> (window = Yesterday \<longrightarrow> n = t - 1))"

definition first_seen_valid :: "report_current_row \<Rightarrow> bool" where
  \<comment> \<open>specification: a calendar date as the database writes it\<close>
  "first_seen_valid row = (\<exists>n. four_digit_day n \<and> first_seen row = iso_string n)"

lemma listed_within_conv:
  assumes "four_digit_day t" and "four_digit_day (t - 6)" and "first_seen_valid row"
  shows "listed_within t window row \<longleftrightarrow>
    first_seen row \<ge> iso_string (t - 6) \<and> matches_day_window (days_new (newest_row (iso_string t) row)) (Some window)"
proof -
  obtain n where n: "four_digit_day n" "first_seen row = iso_string n"
    using assms(3) by (auto simp: first_seen_valid_def)
  have "first_seen row \<ge> iso_string (t - 6) \<longleftrightarrow> t - 6 \<le> n"
    using iso_string_less [OF n(1) assms(2)] by (simp add: n(2)) (metis not_le)
  moreover have "days_new (newest_row (iso_string t) row) = Some (t - n)"
    by (simp add: newest_row_def n(2) js_days_between_iso [OF n(1) assms(1)])
  ultimately show ?thesis
    by (cases window) (auto simp: listed_within_def n parse_iso_string matches_day_window_def)
qed

text \<open>
  C7: on a day \<open>t\<close> the \<open>new\<close> report never fails, holds exactly the offers first seen no more than six
  days before it (or on the one day the window names), and states each one's age in days.
\<close>

theorem newest_exact:
  assumes "four_digit_day t" and "four_digit_day (t - 6)" and "list_all first_seen_valid current"
  shows "\<exists>gs. newest rt current (iso_string t) window = Inr gs
    \<and> mset (concat (map offers gs)) = mset (map (to_offer \<circ> newest_row (iso_string t)) (filter (listed_within t window) current))
    \<and> list_all (\<lambda>ofr. \<exists>age. o_days_new ofr = Some age \<and> age \<le> 6 \<and> o_first_seen ofr = iso_string (t - age)) (concat (map offers gs))"
proof -
  let ?sel = "filter (\<lambda>row. matches_day_window (days_new row) (Some window))
    (map (newest_row (iso_string t)) (filter (\<lambda>row. first_seen row \<ge> iso_string (t - 6)) current))"
  let ?gs = "js_sort (by_recency rt) (group_offers rt ?sel)"
  have "js_add_days (iso_string t) (- (new_days - 1)) = Some (iso_string (t - 6))"
    using js_add_days_iso [OF assms(1), of "-6"] by (simp add: new_days_def iso_day_four_digit [OF assms(2)])
  then have gs: "newest rt current (iso_string t) window = Inr ?gs"
    by (simp add: newest_def Let_def)
  have sel: "?sel = map (newest_row (iso_string t)) (filter (listed_within t window) current)"
    using listed_within_conv [OF assms(1,2)] assms(3)
    by (auto simp: filter_map comp_def list_all_iff intro!: arg_cong [where f = "map (newest_row (iso_string t))"] filter_cong)
  then have m: "mset (concat (map offers ?gs))
      = mset (map (to_offer \<circ> newest_row (iso_string t)) (filter (listed_within t window) current))"
    by (simp only: offers_js_sort mset_offers_group_offers map_map)
  have "\<exists>age. days_new (newest_row (iso_string t) row) = Some age \<and> age \<le> 6 \<and> first_seen row = iso_string (t - age)"
    if row: "listed_within t window row" "first_seen_valid row" for row
  proof -
    obtain n where n: "four_digit_day n" "first_seen row = iso_string n"
      using row(2) by (auto simp: first_seen_valid_def)
    then show ?thesis
      using row(1) by (auto simp: listed_within_def parse_iso_string newest_row_def js_days_between_iso assms(1))
  qed
  then have "list_all (\<lambda>ofr. \<exists>age. o_days_new ofr = Some age \<and> age \<le> 6 \<and> o_first_seen ofr = iso_string (t - age))
      (concat (map offers ?gs))"
    unfolding list_all_iff using mset_eq_setD [OF m] assms(3) by (auto simp: list_all_iff newest_row_def)
  with gs m show ?thesis by blast
qed

theorem newest_exact_witness:
  "iso_string 19792 = ''2024-03-10''
   \<and> (\<exists>gs. newest demo_runtime demo_rows (iso_string 19792) Yesterday = Inr gs
        \<and> mset (map o_id (concat (map offers gs))) = {# ''r1'', ''r2'', ''r3'' #})"
proof (rule conjI)
  show "iso_string 19792 = ''2024-03-10''" by code_simp
  have "iso_string 19791 = ''2024-03-09''" by code_simp
  then have "list_all first_seen_valid demo_rows"
    by (simp add: demo_rows_def demo_row_def first_seen_valid_def)
      (rule exI [of _ 19791], simp add: four_digit_day_def)
  from newest_exact [OF _ _ this, of 19792 demo_runtime Yesterday] obtain gs where
    gs: "newest demo_runtime demo_rows (iso_string 19792) Yesterday = Inr gs"
    "mset (concat (map offers gs)) = mset (map (to_offer \<circ> newest_row (iso_string 19792)) (filter (listed_within 19792 Yesterday) demo_rows))"
    by (auto simp: four_digit_day_def)
  have "parse_day ''2024-03-09'' = Some 19791" by code_simp
  then have "filter (listed_within 19792 Yesterday) demo_rows = demo_rows"
    by (simp add: demo_rows_def demo_row_def listed_within_def)
  then have "mset (map o_id (concat (map offers gs))) = mset (map row_id demo_rows)"
    using arg_cong [OF gs(2), of "image_mset o_id"]
    by (simp add: newest_row_def image_mset.compositionality comp_def)
  also have "\<dots> = {# ''r1'', ''r2'', ''r3'' #}" by (simp add: demo_rows_def demo_row_def)
  finally show "\<exists>gs. newest demo_runtime demo_rows (iso_string 19792) Yesterday = Inr gs
        \<and> mset (map o_id (concat (map offers gs))) = {# ''r1'', ''r2'', ''r3'' #}"
    using gs(1) by blast
qed

end
