(* ===== verification/Report_Best.thy ===== *)
theory Report_Best
  imports Report_Facts
begin

text \<open>
  The \<open>best\<close> report, the pages of every report, and \<open>history\<close>.  \<open>best_deal\<close> states, over the rows
  of one bottling and without sorting, when the bottling is a deal and against which offer it is
  measured; the report holds exactly those bottlings.
\<close>

section \<open>Best offers\<close>

definition best_deal :: "report_filter \<Rightarrow> report_options \<Rightarrow> report_current_row list \<Rightarrow> report_current_row \<Rightarrow> report_current_row \<Rightarrow> bool" where
  \<comment> \<open>specification: \<open>b\<close> is a cheapest offer, \<open>r\<close> a cheapest other one, and the guards hold\<close>
  "best_deal filt options rows b r \<longleftrightarrow>
     b \<in> set rows \<and> r \<in> set rows \<and> r \<noteq> b
     \<and> (\<forall>x \<in> set rows. price b \<le> price x) \<and> (\<forall>x \<in> set rows. x \<noteq> b \<longrightarrow> price r \<le> price x)
     \<and> 2 \<le> card (store_slug ` set rows) \<and> price r / 2 \<le> price b
     \<and> within_price_bounds (price b) filt
     \<and> (truthy_num (opt_min_discount options) \<longrightarrow>
          (case discount_pct_of (price b) (Some (price r)) of None \<Rightarrow> 0 | Some p \<Rightarrow> of_int p)
            \<ge> the (opt_min_discount options))"

lemma sorted_two_cheapest:
  assumes "comparator lc" and "js_sort (by_price lc) rows = b # r # rest" and "distinct rows"
  shows "b \<in> set rows" "r \<in> set rows" "r \<noteq> b"
    "x \<in> set rows \<Longrightarrow> price b \<le> price x" "x \<in> set rows \<Longrightarrow> x \<noteq> b \<Longrightarrow> price r \<le> price x"
proof -
  have set_rows: "set rows = set (b # r # rest)" by (metis assms(2) set_js_sort)
  then show "b \<in> set rows" "r \<in> set rows" by simp_all
  have "distinct (b # r # rest)" using assms(2,3) by (metis distinct_js_sort)
  then show "r \<noteq> b" by auto
  have "sorted_wrt (\<lambda>a b. by_price lc a b \<le> 0) (b # r # rest)"
    using comparator.sorted_js_sort [OF comparator_by_price [OF assms(1)], of rows] assms(2) by simp
  then have s: "\<forall>x \<in> set (r # rest). price b \<le> price x" "\<forall>x \<in> set rest. price r \<le> price x"
    by (auto dest: by_price_le)
  show "x \<in> set rows \<Longrightarrow> price b \<le> price x" using s(1) set_rows by auto
  show "x \<in> set rows \<Longrightarrow> x \<noteq> b \<Longrightarrow> price r \<le> price x" using s(2) set_rows by auto
qed

lemma best_deal_prices:
  assumes "best_deal filt options rows b r" and "best_deal filt' options' rows b' r'"
  shows "price b = price b'" "price r = price r'"
proof -
  show b: "price b = price b'"
    using assms by (auto simp: best_deal_def intro: antisym)
  have r: "price u \<le> price v" if d: "best_deal f o1 rows c u" "best_deal g o2 rows e v" "price c = price e"
    for f o1 c u g o2 e v
  proof (cases "v = c")
    case True
    then have "price u \<le> price e" if "e \<noteq> c" using that d(1,2) by (simp add: best_deal_def)
    moreover have "e \<noteq> c" using True d(2) by (auto simp: best_deal_def)
    ultimately show ?thesis using True d(3) by simp
  next
    case False
    then show ?thesis using d(1,2) by (simp add: best_deal_def)
  qed
  show "price r = price r'"
    using r [OF assms b] r [OF assms(2,1) b [symmetric]] by (rule antisym)
qed

lemma two_stores_two_rows:
  assumes "2 \<le> card (store_slug ` set rows)"
  obtains b r rest where "js_sort c rows = b # r # rest"
proof -
  have "card (store_slug ` set rows) \<le> length rows"
    by (metis card_image_le card_length finite_set le_trans)
  then have "2 \<le> length (js_sort c rows)" using assms by simp
  then obtain b r rest where "js_sort c rows = b # r # rest"
    by (metis Suc_le_length_iff numeral_2_eq_2)
  then show thesis by (rule that)
qed

lemma best_of_group_deal:
  assumes "comparator (locale_compare rt)" and "distinct rows" and "best_of_group rt rows = Some w"
    and "within_price_bounds (price w) filt"
    and "truthy_num (opt_min_discount options) \<longrightarrow>
          (case discount_pct w of None \<Rightarrow> 0 | Some p \<Rightarrow> of_int p) \<ge> the (opt_min_discount options)"
  obtains b r where "best_deal filt options rows b r" and "row_id w = row_id b" and "price w = price b"
    and "reference_price w = Some (price r)" and "discount_pct w = discount_pct_of (price b) (Some (price r))"
proof -
  obtain b r rest where s: "js_sort (by_price (locale_compare rt)) rows = b # r # rest"
    and w: "w = enrich b \<lparr>ex_reference_price = Some (price r), ex_is_new = False,
                          ex_days_new = None, ex_days_discount = None\<rparr>"
    and g: "price r * best_merge_guard \<le> price b" "2 \<le> length (js_set (map store_slug rows))"
    using assms(3) by (rule best_of_groupE)
  note f = sorted_two_cheapest [OF assms(1) s assms(2)]
  have "best_deal filt options rows b r"
    using f g assms(4,5) w by (simp add: best_deal_def best_merge_guard_def length_js_set)
  then show thesis by (rule that) (simp_all add: w)
qed

lemma deal_best_of_group:
  assumes "comparator (locale_compare rt)" and "distinct rows" and "best_deal filt options rows b r"
  obtains w where "best_of_group rt rows = Some w" and "price w = price b"
    and "reference_price w = Some (price r)" and "discount_pct w = discount_pct_of (price b) (Some (price r))"
proof -
  have two: "2 \<le> card (store_slug ` set rows)" using assms(3) by (simp add: best_deal_def)
  obtain b' r' rest where s: "js_sort (by_price (locale_compare rt)) rows = b' # r' # rest"
    using two by (rule two_stores_two_rows)
  note f = sorted_two_cheapest [OF assms(1) s assms(2)]
  have "price b' \<le> price b" "price b \<le> price b'" using f(1,4) assms(3) by (auto simp: best_deal_def)
  then have pb: "price b' = price b" by simp
  have "price r' = price r"
  proof (rule antisym)
    show "price r' \<le> price r"
    proof (cases "r = b'")
      case True
      then have "price r' \<le> price b" using f(5) [of b] assms(3) by (auto simp: best_deal_def)
      then show ?thesis using True pb by simp
    qed (use f(5) [of r] assms(3) in \<open>simp add: best_deal_def\<close>)
    show "price r \<le> price r'"
    proof (cases "r' = b")
      case True
      then have "price r \<le> price b'" using f(1,3) assms(3) by (auto simp: best_deal_def)
      then show ?thesis using True pb by simp
    qed (use f(2) assms(3) in \<open>simp add: best_deal_def\<close>)
  qed
  then have "best_of_group rt rows = Some (enrich b' \<lparr>ex_reference_price = Some (price r), ex_is_new = False,
      ex_days_new = None, ex_days_discount = None\<rparr>)"
    using s two assms(3) pb
    by (simp add: best_of_group_def best_min_stores_def best_merge_guard_def length_js_set best_deal_def)
  then show thesis by (rule that) (simp_all add: pb)
qed

lemma ids_best_offers: "mset (map o_id (best_offers rt rows w)) = mset (map row_id rows)"
proof -
  have "mset (map o_id (best_offers rt rows w))
      = mset (map row_id (map (\<lambda>row. if row_id row = row_id w then w else catalog_row row) rows))"
    by (simp add: best_offers_def comp_def mset_js_sort image_mset.compositionality del: map_map)
  also have "map row_id (map (\<lambda>row. if row_id row = row_id w then w else catalog_row row) rows) = map row_id rows"
    by simp
  finally show ?thesis .
qed

lemma best_group_cases:
  assumes "collation (locale_compare rt)" and "distinct current" and "G \<in> set (best rt current filt options)"
  obtains b r where "best_deal filt options (filter (\<lambda>row. product_id row = product_id G) current) b r"
    and "row_id G = row_id b" and "price G = price b" and "reference_price G = Some (price r)"
    and "discount_pct G = discount_pct_of (price b) (Some (price r))"
    and "mset (map o_id (offers G)) = mset (map row_id (filter (\<lambda>row. product_id row = product_id G) current))"
proof -
  let ?rows = "filter (\<lambda>row. product_id row = product_id G) current"
  obtain w where w: "best_of_group rt ?rows = Some w" "within_price_bounds (price w) filt"
    "G = to_group w (best_offers rt ?rows w)"
    using assms(3) by (rule in_bestE)
  have G: "price G = price w" "row_id G = row_id w" "reference_price G = reference_price w"
    "discount_pct G = discount_pct w"
    using arg_cong [OF w(3), where f = price] arg_cong [OF w(3), where f = row_id]
      arg_cong [OF w(3), where f = reference_price] arg_cong [OF w(3), where f = discount_pct] by simp_all
  have "truthy_num (opt_min_discount options) \<longrightarrow>
      (case discount_pct w of None \<Rightarrow> 0 | Some p \<Rightarrow> of_int p) \<ge> the (opt_min_discount options)"
    using assms(3) G(4) by (auto simp: in_best apply_min_discount_def)
  moreover have "mset (map o_id (offers G)) = mset (map row_id ?rows)"
    using arg_cong [OF w(3), where f = offers] by (simp only: to_group_simps ids_best_offers)
  moreover note best_of_group_deal [OF collation.axioms [OF assms(1)] distinct_filter [OF assms(2)] w(1,2), of options]
  ultimately show thesis using G that by metis
qed

lemma in_concat_map: "x \<in> set (f a) \<Longrightarrow> a \<in> set xs \<Longrightarrow> x \<in> set (concat (map f xs))"
  by auto

lemma deal_in_best:
  assumes "collation (locale_compare rt)" and "distinct current"
    and "best_deal filt options (filter (\<lambda>row. product_id row = pid) current) b r"
  shows "pid \<in> product_id ` set (best rt current filt options)"
proof -
  let ?rows = "filter (\<lambda>row. product_id row = pid) current"
  obtain w where w: "best_of_group rt ?rows = Some w" "price w = price b"
    "discount_pct w = discount_pct_of (price b) (Some (price r))"
    using collation.axioms [OF assms(1)] distinct_filter [OF assms(2)] assms(3) by (rule deal_best_of_group)
  have pid: "pid \<in> product_id ` set current" using assms(3) by (auto simp: best_deal_def)
  let ?G = "to_group w (best_offers rt ?rows w)"
  have G: "?G \<in> set (best_step rt filt [] ?rows)"
    using w assms(3) by (simp add: in_best_step best_deal_def)
  have "(pid, ?rows) \<in> set (js_group_by product_id current)"
    using pid by (simp add: js_group_by_iff)
  then have "?rows \<in> set (map snd (group_by_product current))"
    unfolding group_by_product_def set_map by (rule rev_image_eqI) simp
  with G have "?G \<in> set (concat (map (best_step rt filt []) (map snd (group_by_product current))))"
    by (rule in_concat_map)
  then have "?G \<in> set (best rt current filt options)"
    using assms(3) w(3) by (simp add: in_best apply_min_discount_def best_deal_def)
  moreover obtain x where "x \<in> set ?rows" "product_id w = product_id x"
    using w(1) by (rule best_winner_in)
  then have "product_id ?G = pid" by simp
  ultimately show ?thesis by (metis imageI)
qed



text \<open>
  The two-shop guard does not compare shops: a shop that lists one bottling twice is measured
  against its own second listing as soon as any other shop carries the bottling at all, however
  dear.  Here a saving of ten percent is reported of the east shop against itself.
\<close>

theorem best_can_undercut_itself:
  "map (\<lambda>G. (row_id G, store_slug G, reference_price G, discount_pct G))
     (best demo_runtime
        [demo_row ''r1'' ''islay'' ''east'' 900 None, demo_row ''r2'' ''islay'' ''east'' 1000 None,
         demo_row ''r3'' ''islay'' ''west'' 1500 None] demo_filter demo_options)
   = [(''r1'', ''east'', Some 1000, Some 10)]"
  by code_simp

section \<open>Pages\<close>

lemma page_select_options:
  "page_select ix prefs fav (options\<lparr>opt_page := int i + 1, opt_per_page := int per\<rparr>)
     = page_select ix prefs fav (page_options (order_key (opt_sort options) (opt_order options)) i per)"
  by (simp add: page_select_def split: option.split)

lemma concat_pages:
  assumes "length gs \<le> n * per"
  shows "concat (map (\<lambda>i. positions (the (page_select (build_index rt gs) prefs fav
       (options\<lparr>opt_page := int i + 1, opt_per_page := int per\<rparr>)))) [0..<n])
    = visible_order (build_index rt gs) prefs fav (order_key (opt_sort options) (opt_order options))"
proof -
  let ?key = "order_key (opt_sort options) (opt_order options)"
  have "length (visible_order (build_index rt gs) prefs fav ?key) \<le> length gs"
  proof -
    have "set (visible_order (build_index rt gs) prefs fav ?key) \<subseteq> {0..<length gs}"
      by (auto simp: set_visible_built)
    from card_mono [OF _ this] show ?thesis
      by (simp add: distinct_card distinct_visible_built)
  qed
  then have "concat (map (\<lambda>i. fst (built_pick rt gs prefs fav ?key i per)) [0..<n])
      = visible_order (build_index rt gs) prefs fav ?key"
    using assms by (intro built.pages_complete) simp
  moreover have "positions (the (page_select (build_index rt gs) prefs fav
      (options\<lparr>opt_page := int i + 1, opt_per_page := int per\<rparr>))) = fst (built_pick rt gs prefs fav ?key i per)" for i
    by (simp add: built_pick_def page_select_options page_select_built)
  ultimately show ?thesis by simp
qed

text \<open>
  C10: walking the pages of a report from the first on, at any page size, a caller meets every group
  they may see once and no other: none they blacklisted, by product or by either maker, and with the
  favourites filter on none they have not marked.
\<close>

theorem pages_cover_visible:
  assumes "length gs \<le> n * per"
    and "vis = concat (map (\<lambda>i. positions (the (page_select (build_index rt gs) prefs fav
           (options\<lparr>opt_page := int i + 1, opt_per_page := int per\<rparr>)))) [0..<n])"
  shows "distinct vis \<and> set vis = {p. p < length gs \<and> \<not> group_hidden prefs (gs ! p)
     \<and> (fav = Some True \<longrightarrow> product_id (gs ! p) \<in> set (favorites prefs))}"
  unfolding assms(2) concat_pages [OF assms(1)] by (simp add: distinct_visible_built set_visible_built)

theorem pages_cover_visible_witness:
  "set (concat (map (\<lambda>i. positions (the (page_select (build_index demo_runtime (catalog demo_runtime demo_rows))
       (db_filter_ids demo_db ''u'') None (demo_options\<lparr>opt_page := int i + 1, opt_per_page := int 1\<rparr>)))) [0..<2])) = {0}"
proof -
  have "length (catalog demo_runtime demo_rows) = 2" by code_simp
  then have "length (catalog demo_runtime demo_rows) \<le> 2 * 1" by simp
  note cover = pages_cover_visible [OF this refl, THEN conjunct2]
  have "map (group_hidden (db_filter_ids demo_db ''u'')) (catalog demo_runtime demo_rows) = [False, True]"
    by code_simp
  then have "group_hidden (db_filter_ids demo_db ''u'') (catalog demo_runtime demo_rows ! p) \<longleftrightarrow> [False, True] ! p"
    if "p < 2" for p
    using that \<open>length (catalog demo_runtime demo_rows) = 2\<close> by (metis nth_map)
  then show ?thesis
    unfolding cover \<open>length (catalog demo_runtime demo_rows) = 2\<close> by (auto simp: less_2_cases_iff)
qed

text \<open>
  C11: the pages follow the requested order: from one row to any later one the sorted field never
  goes against the requested direction, rows without a value come after every row with one in both
  directions, and equal values are ordered by id.
\<close>

theorem pages_follow_order:
  assumes "collation (locale_compare rt)" and "opt_sort options = Some field" and "length gs \<le> n * per"
    and "vis = concat (map (\<lambda>i. positions (the (page_select (build_index rt gs) prefs fav
           (options\<lparr>opt_page := int i + 1, opt_per_page := int per\<rparr>)))) [0..<n])"
  shows "sorted_wrt (\<lambda>i j. value_compare rt field (opt_order options) (gs ! i) (gs ! j) < 0
     \<or> value_compare rt field (opt_order options) (gs ! i) (gs ! j) = 0
         \<and> locale_compare rt (row_id (gs ! i)) (row_id (gs ! j)) \<le> 0) vis"
proof -
  have vis: "vis = filter (\<lambda>p. \<not> position_skipped (build_index rt gs) prefs fav p)
      (order_positions rt gs field (opt_order options))"
    by (simp add: assms(2,4) concat_pages [OF assms(3)] visible_order_def order_key_def orders_build_index)
  have "sorted_wrt (\<lambda>i j. order_compare rt field (opt_order options) (gs ! i) (gs ! j) \<le> 0) vis"
    unfolding vis by (rule sorted_wrt_filter [OF order_positions_sorted [OF assms(1)]])
  then show ?thesis
    by (rule sorted_wrt_mono_rel [rotated]) (auto simp: order_compare_conv js_or_def split: if_splits)
qed

theorem pages_follow_order_witness:
  "sorted_wrt (\<lambda>i j. value_compare demo_runtime Sort_Price Desc (catalog demo_runtime demo_rows ! i) (catalog demo_runtime demo_rows ! j) < 0
     \<or> value_compare demo_runtime Sort_Price Desc (catalog demo_runtime demo_rows ! i) (catalog demo_runtime demo_rows ! j) = 0
         \<and> locale_compare demo_runtime (row_id (catalog demo_runtime demo_rows ! i)) (row_id (catalog demo_runtime demo_rows ! j)) \<le> 0)
     (concat (map (\<lambda>i. positions (the (page_select (build_index demo_runtime (catalog demo_runtime demo_rows))
        (db_filter_ids demo_db ''u'') None
        (demo_options\<lparr>opt_sort := Some Sort_Price, opt_order := Desc, opt_page := int i + 1, opt_per_page := int 1\<rparr>)))) [0..<2]))"
proof -
  have "length (catalog demo_runtime demo_rows) = 2" by code_simp
  then have "length (catalog demo_runtime demo_rows) \<le> 2 * 1" by simp
  from pages_follow_order [OF demo_collation _ this refl,
      of "demo_options\<lparr>opt_sort := Some Sort_Price, opt_order := Desc\<rparr>" Sort_Price "db_filter_ids demo_db ''u''" None]
  show ?thesis by simp
qed

section \<open>History\<close>

lemma penultimate:
  "(if length xs > 1 then Some (xs ! (length xs - 2)) else None)
     = (case rev xs of _ # prev # _ \<Rightarrow> Some prev | _ \<Rightarrow> None)"
proof (cases "rev xs")
  case (Cons a as)
  then have xs: "xs = rev as @ [a]" by (metis rev_eq_Cons_iff)
  show ?thesis
  proof (cases as)
    case (Cons b bs)
    then have "xs ! (length xs - 2) = b" by (simp add: xs nth_append)
    then show ?thesis using Cons by (simp add: xs)
  qed (simp add: xs)
qed simp

text \<open>
  \<open>history\<close> fails with the searched term exactly when it names no current product, and otherwise
  returns the recorded series and the product's discount against the last price but one of it.
\<close>

theorem history_total:
  "(history db q = Inl (Product_Not_Found q)) =
     (db_resolve_term db q = None \<or> db_resolve_term db q = Some [] \<or> db_row_by_id db (the (db_resolve_term db q)) = None)
   \<and> (case history db q of
        Inl e \<Rightarrow> e = Product_Not_Found q
      | Inr h \<Rightarrow> hist_series h = db_price_series db (the (db_resolve_term db q)) history_limit
          \<and> (case rev (hist_series h) of
               _ # prev # _ \<Rightarrow> p_reference_price (hist_product h) = Some (point_price prev)
                 \<and> p_discount_pct (hist_product h) = discount_pct_of (p_price (hist_product h)) (Some (point_price prev))
             | _ \<Rightarrow> p_reference_price (hist_product h) = None \<and> p_discount_pct (hist_product h) = None))"
proof -
  have known: ?thesis if "db_resolve_term db q = Some i" "i \<noteq> []" "db_row_by_id db i = Some row" for i row
  proof -
    let ?series = "db_price_series db i history_limit"
    have "(if length ?series > 1 then Some (point_price (?series ! (length ?series - 2))) else None)
        = map_option point_price (if length ?series > 1 then Some (?series ! (length ?series - 2)) else None)"
      by simp
    also have "\<dots> = map_option point_price (case rev ?series of _ # prev # _ \<Rightarrow> Some prev | _ \<Rightarrow> None)"
      by (simp only: penultimate)
    finally show ?thesis
      using that by (simp add: history_def Let_def to_public_row_def split: list.split)
  qed
  show ?thesis
  proof (cases "db_resolve_term db q")
    case (Some i)
    then show ?thesis
      using known [of i] by (cases "i = []"; cases "db_row_by_id db i") (simp_all add: history_def)
  qed (simp add: history_def)
qed

end
