(* ===== verification/Report_Cache_Key.thy ===== *)
theory Report_Cache_Key
  imports Report_Facts
begin

text \<open>
  \<open>src/src/utils/report-cache-key.util.ts\<close>: the key a cached report set is stored under.  The
  canonical description is an association list in the code's field order, absent fields left
  out; its values are the JSON values it is stringified to.  SHA-256 over the JSON text is the
  parameter \<open>digest\<close>.  The lemmas show both directions the file's comment asks for: requests the
  query cannot tell apart get one description, and equal descriptions build equal sets.
\<close>

section \<open>The canonical description\<close>

datatype json = J_String string | J_Number rat | J_True | J_Strings "string list"

fun kind_name :: "report_kind \<Rightarrow> string" where
  "kind_name Best = ''best''"
| "kind_name Catalog = ''catalog''"
| "kind_name Drops = ''drops''"
| "kind_name Low = ''low''"
| "kind_name New = ''new''"

fun window_name :: "report_window \<Rightarrow> string" where
  "window_name Today = ''today''"
| "window_name Yesterday = ''yesterday''"
| "window_name Week = ''week''"
| "window_name Month = ''month''"
| "window_name Year = ''year''"

definition constraining :: "rat option \<Rightarrow> rat option" where
  "constraining v = (if v = None \<or> v = Some 0 then None else v)"

definition normal_set :: "js_runtime \<Rightarrow> bool \<Rightarrow> string list option \<Rightarrow> string list option" where
  \<comment> \<open>\<open>set\<close>\<close>
  "normal_set rt lower values =
     (case values of
        None \<Rightarrow> None
      | Some vs \<Rightarrow>
          if vs = [] then None
          else Some (js_sort code_unit_compare (js_set (if lower then map (to_lower rt) vs else vs))))"

definition canonical_fields ::
  "js_runtime \<Rightarrow> report_kind \<Rightarrow> report_filter \<Rightarrow> report_options \<Rightarrow> string option \<Rightarrow> (string \<times> json option) list" where
  "canonical_fields rt kind filt options day =
     [(''kind'', Some (J_String (kind_name kind))),
      (''day'', map_option J_String day),
      (''stores'', map_option J_Strings (normal_set rt False (f_stores filt))),
      (''minPrice'', map_option J_Number (f_min_price filt)),
      (''maxPrice'', map_option J_Number (f_max_price filt)),
      (''minVolume'', map_option J_Number (f_min_volume filt)),
      (''maxVolume'', map_option J_Number (f_max_volume filt)),
      (''countries'', map_option J_Strings (normal_set rt True (f_countries filt))),
      (''name'', map_option J_String (f_name filt)),
      (''types'', map_option J_Strings (normal_set rt False (f_types filt))),
      (''flavors'', map_option J_Strings (normal_set rt False (f_flavors filt))),
      (''excludeFlavors'', map_option J_Strings (normal_set rt False (f_exclude_flavors filt))),
      (''regions'', map_option J_Strings (normal_set rt False (f_regions filt))),
      (''excludeRegions'', map_option J_Strings (normal_set rt False (f_exclude_regions filt))),
      (''verifiedFacts'', if f_verified_facts filt = Some True then Some J_True else None),
      (''window'', Some (J_String (window_name (opt_window options)))),
      (''discountWindow'', map_option (J_String \<circ> window_name) (opt_discount_window options)),
      (''minDiscount'', map_option J_Number (constraining (opt_min_discount options)))]"

definition present :: "(string \<times> json option) list \<Rightarrow> (string \<times> json) list" where
  \<comment> \<open>\<open>Object.fromEntries(fields.filter(([, value]) => value !== undefined))\<close>\<close>
  "present fs = map (\<lambda>(k, v). (k, the v)) (filter (\<lambda>(k, v). v \<noteq> None) fs)"

definition canonical ::
  "js_runtime \<Rightarrow> report_kind \<Rightarrow> report_filter \<Rightarrow> report_options \<Rightarrow> string option \<Rightarrow> (string \<times> json) list" where
  "canonical rt kind filt options day = present (canonical_fields rt kind filt options day)"

definition cache_hash_length :: nat where "cache_hash_length = 32"

definition suffix ::
  "js_runtime \<Rightarrow> ((string \<times> json) list \<Rightarrow> string) \<Rightarrow> report_kind \<Rightarrow> report_filter \<Rightarrow> report_options
    \<Rightarrow> string option \<Rightarrow> string" where
  "suffix rt digest kind filt options day =
     (let hash = take cache_hash_length (digest (canonical rt kind filt options day))
      in kind_name kind @ '':'' @ (case day of None \<Rightarrow> ''-'' | Some d \<Rightarrow> d) @ '':'' @ hash)"

section \<open>When two requests have one description\<close>

lemma present_Cons: "present ((k, v) # fs) = (case v of None \<Rightarrow> present fs | Some x \<Rightarrow> (k, x) # present fs)"
  by (simp add: present_def split: option.split)

lemma present_keys: "fst ` set (present fs) \<subseteq> fst ` set fs"
  by (force simp: present_def)

lemma entry_inject:
  "k \<notin> fst ` set xs \<Longrightarrow> k \<notin> fst ` set ys \<Longrightarrow>
   (case v of None \<Rightarrow> xs | Some x \<Rightarrow> (k, x) # xs) = (case w of None \<Rightarrow> ys | Some x \<Rightarrow> (k, x) # ys) \<Longrightarrow>
   v = w \<and> xs = ys"
  by (cases v; cases w) auto

lemma present_inject:
  assumes "map fst fs = map fst gs" and "distinct (map fst fs)" and "present fs = present gs"
  shows "fs = gs"
  using assms
proof (induction fs gs rule: list_induct2')
  case (4 f fs g gs)
  obtain k v w where f: "f = (k, v)" and g: "g = (k, w)"
    using "4.prems"(1) by (cases f; cases g) auto
  have k: "k \<notin> fst ` set (present fs)" "k \<notin> fst ` set (present gs)"
    using "4.prems"(1,2) present_keys [of fs] present_keys [of gs] f g by (auto simp flip: set_map)
  have "v = w \<and> present fs = present gs"
    using k by (rule entry_inject) (use "4.prems"(3) in \<open>simp add: f g present_Cons\<close>)
  then show ?case using "4.IH" "4.prems"(1,2) f g by simp
qed simp_all

lemma keys_canonical_fields:
  "map fst (canonical_fields rt kind filt options day) = map fst (canonical_fields rt kind' filt' options' day')"
  "distinct (map fst (canonical_fields rt kind filt options day))"
  by (simp_all add: canonical_fields_def)

lemma normal_sort_set: "js_sort code_unit_compare (js_set xs) = js_sort code_unit_compare (js_set ys) \<longleftrightarrow> set xs = set ys"
proof
  assume "js_sort code_unit_compare (js_set xs) = js_sort code_unit_compare (js_set ys)"
  then show "set xs = set ys" by (metis set_js_set set_js_sort)
next
  assume "set xs = set ys"
  then have "mset (js_set xs) = mset (js_set ys)" by (simp add: set_eq_iff_mset_eq_distinct [symmetric])
  then show "js_sort code_unit_compare (js_set xs) = js_sort code_unit_compare (js_set ys)"
    by (rule code_units.js_sort_unique) (auto simp: code_unit_compare_def split: if_splits)
qed

definition values_of :: "(string \<Rightarrow> string) \<Rightarrow> string list option \<Rightarrow> string set" where
  \<comment> \<open>specification: the set a multi-value filter matches against; empty when it constrains nothing\<close>
  "values_of f vs = (case vs of None \<Rightarrow> {} | Some xs \<Rightarrow> f ` set xs)"

lemma normal_set_eq:
  "normal_set rt lower vs = normal_set rt lower ws \<longleftrightarrow>
     values_of (if lower then to_lower rt else (\<lambda>s. s)) vs = values_of (if lower then to_lower rt else (\<lambda>s. s)) ws"
proof -
  have c: "normal_set rt lower us = (case us of None \<Rightarrow> None | Some xs \<Rightarrow> if xs = [] then None
      else Some (js_sort code_unit_compare (js_set (map (if lower then to_lower rt else (\<lambda>s. s)) xs))))" for us
    by (simp add: normal_set_def split: option.split)
  show ?thesis
    unfolding c by (auto simp: values_of_def normal_sort_set split: option.split)
qed

definition same_filter :: "js_runtime \<Rightarrow> report_filter \<Rightarrow> report_filter \<Rightarrow> bool" where
  \<comment> \<open>specification: two filters the query cannot tell apart\<close>
  "same_filter rt f g \<longleftrightarrow>
     values_of (\<lambda>s. s) (f_stores f) = values_of (\<lambda>s. s) (f_stores g)
     \<and> f_min_price f = f_min_price g \<and> f_max_price f = f_max_price g
     \<and> f_min_volume f = f_min_volume g \<and> f_max_volume f = f_max_volume g
     \<and> values_of (to_lower rt) (f_countries f) = values_of (to_lower rt) (f_countries g)
     \<and> f_name f = f_name g
     \<and> values_of (\<lambda>s. s) (f_types f) = values_of (\<lambda>s. s) (f_types g)
     \<and> values_of (\<lambda>s. s) (f_flavors f) = values_of (\<lambda>s. s) (f_flavors g)
     \<and> values_of (\<lambda>s. s) (f_exclude_flavors f) = values_of (\<lambda>s. s) (f_exclude_flavors g)
     \<and> values_of (\<lambda>s. s) (f_regions f) = values_of (\<lambda>s. s) (f_regions g)
     \<and> values_of (\<lambda>s. s) (f_exclude_regions f) = values_of (\<lambda>s. s) (f_exclude_regions g)
     \<and> (f_verified_facts f = Some True \<longleftrightarrow> f_verified_facts g = Some True)"

definition same_shaping :: "report_options \<Rightarrow> report_options \<Rightarrow> bool" where
  \<comment> \<open>specification: options that shape the same set, whatever page and order they ask for\<close>
  "same_shaping o1 o2 \<longleftrightarrow>
     opt_window o1 = opt_window o2 \<and> opt_discount_window o1 = opt_discount_window o2
     \<and> constraining (opt_min_discount o1) = constraining (opt_min_discount o2)"

lemma kind_name_inject: "kind_name k = kind_name k' \<longleftrightarrow> k = k'"
  by (cases k; cases k'; simp)

lemma window_name_inject: "window_name w = window_name w' \<longleftrightarrow> w = w'"
  by (cases w; cases w'; simp)

lemma map_option_inject: "(\<And>x y. f x = f y \<longleftrightarrow> x = y) \<Longrightarrow> map_option f u = map_option f v \<longleftrightarrow> u = v"
  by (cases u; cases v) auto

lemma canonical_conv:
  "canonical rt kind filt options day = canonical rt kind' filt' options' day' \<longleftrightarrow>
     kind = kind' \<and> day = day' \<and> same_filter rt filt filt' \<and> same_shaping options options'"
proof -
  have "canonical rt kind filt options day = canonical rt kind' filt' options' day' \<longleftrightarrow>
      canonical_fields rt kind filt options day = canonical_fields rt kind' filt' options' day'"
    unfolding canonical_def using present_inject [OF keys_canonical_fields] by metis
  also have "\<dots> \<longleftrightarrow> kind = kind' \<and> day = day' \<and> same_filter rt filt filt' \<and> same_shaping options options'"
    by (auto simp: canonical_fields_def same_filter_def same_shaping_def map_option_inject normal_set_eq
        kind_name_inject window_name_inject)
  finally show ?thesis .
qed


section \<open>One description, one set\<close>

definition report_day :: "report_kind \<Rightarrow> string \<Rightarrow> string option" where
  \<comment> \<open>the day bucket \<open>report\<close> asks for: only the kinds that read the clock carry one\<close>
  "report_day kind today = (if kind = New \<or> kind = Drops then Some today else None)"

definition query_respects :: "js_runtime \<Rightarrow> report_db \<Rightarrow> bool" where
  \<comment> \<open>what the query owes the key: filters with the same sets and bounds select the same rows\<close>
  "query_respects rt db \<longleftrightarrow> (\<forall>f g. same_filter rt f g \<longrightarrow> db_current_rows db f = db_current_rows db g)"

lemma apply_min_discount_shaping:
  assumes "constraining (opt_min_discount o1) = constraining (opt_min_discount o2)"
  shows "apply_min_discount rows o1 = apply_min_discount rows o2"
proof -
  have t: "truthy_num v \<longleftrightarrow> constraining v \<noteq> None" "truthy_num v \<Longrightarrow> constraining v = v" for v
    by (auto simp: truthy_num_def constraining_def split: option.splits)
  show ?thesis
  proof (cases "truthy_num (opt_min_discount o1)")
    case True
    then have "opt_min_discount o1 = opt_min_discount o2" using assms t by metis
    then show ?thesis by (simp add: apply_min_discount_def)
  next
    case False
    then have "\<not> truthy_num (opt_min_discount o2)" using assms t(1) by metis
    with False show ?thesis by (simp add: apply_min_discount_def)
  qed
qed

lemma kinds_today [simp]:
  "low rt (db\<lparr>db_today := d\<rparr>) current options = low rt db current options"
proof -
  have "at_window_low (db\<lparr>db_today := d\<rparr>) = at_window_low db"
    by (simp add: fun_eq_iff at_window_low_def cong: option.case_cong)
  then show ?thesis by (simp add: low_def split: sum.split)
qed

lemma build_groups_shaping:
  assumes "same_filter rt filt filt'" and "same_shaping options options'" and "query_respects rt db"
  shows "build_groups rt db kind filt options = build_groups rt db kind filt' options'"
proof -
  note min = apply_min_discount_shaping [OF assms(2) [unfolded same_shaping_def, THEN conjunct2, THEN conjunct2]]
  have w: "opt_window options = opt_window options'" "opt_discount_window options = opt_discount_window options'"
    using assms(2) by (simp_all add: same_shaping_def)
  have "same_filter rt (selection_filter kind filt) (selection_filter kind filt')"
    using assms(1) by (simp add: same_filter_def selection_filter_def)
  then have rows: "db_current_rows db (selection_filter kind filt) = db_current_rows db (selection_filter kind filt')"
    using assms(3) by (simp add: query_respects_def)
  have "within_price_bounds p filt = within_price_bounds p filt'" for p
    using assms(1) by (simp add: within_price_bounds_def same_filter_def)
  then have "best_step rt filt = best_step rt filt'"
    by (simp add: fun_eq_iff best_step_def split: option.split)
  then show ?thesis
    using rows by (cases kind) (simp_all add: build_groups_def Let_def w min drops_def low_def best_def split: sum.split)
qed

lemma build_groups_day:
  assumes "report_day kind today = report_day kind today'"
  shows "build_groups rt (db\<lparr>db_today := today\<rparr>) kind filt options = build_groups rt (db\<lparr>db_today := today'\<rparr>) kind filt options"
  using assms by (cases kind) (simp_all add: build_groups_def Let_def report_day_def)

text \<open>
  C14: two requests with one cache description have one answer.  Whatever entry a request finds
  under its own description, on whatever day it was built, is the set the request would have built.
\<close>

theorem canonical_determines_set:
  assumes "query_respects rt db"
    and "canonical rt kind filt options (report_day kind today) = canonical rt kind' filt' options' (report_day kind' today')"
  shows "build_set rt (db\<lparr>db_today := today\<rparr>) kind filt options = build_set rt (db\<lparr>db_today := today'\<rparr>) kind' filt' options'"
proof -
  from assms(2) have e: "kind = kind'" "report_day kind today = report_day kind' today'"
    "same_filter rt filt filt'" "same_shaping options options'"
    unfolding canonical_conv by blast+
  have "query_respects rt (db\<lparr>db_today := today'\<rparr>)" using assms(1) by (simp add: query_respects_def)
  then show ?thesis
    using build_groups_shaping [OF e(3,4)] build_groups_day [of kind today today'] e(2) unfolding e(1)
    by (simp add: build_set_def)
qed

theorem canonical_determines_set_witness:
  "build_set demo_runtime (demo_db\<lparr>db_today := ''2024-03-10''\<rparr>) Low (demo_filter\<lparr>f_stores := Some []\<rparr>)
       (demo_options\<lparr>opt_page := 3, opt_min_discount := Some 0\<rparr>)
     = build_set demo_runtime (demo_db\<lparr>db_today := ''2024-03-11''\<rparr>) Low demo_filter demo_options"
proof (rule canonical_determines_set)
  show "query_respects demo_runtime demo_db" by (simp add: query_respects_def demo_db_def)
  show "canonical demo_runtime Low (demo_filter\<lparr>f_stores := Some []\<rparr>)
       (demo_options\<lparr>opt_page := 3, opt_min_discount := Some 0\<rparr>) (report_day Low ''2024-03-10'')
     = canonical demo_runtime Low demo_filter demo_options (report_day Low ''2024-03-11'')"
    by code_simp
qed

end
