(* ===== verification/Valkey.thy ===== *)
theory Valkey
  imports Js_Prelude
begin

text \<open>
  The shared store as \<open>src/src/lib/valkey\<close> reaches it.  Valkey is a service: its commands are the
  fields of \<open>valkey\<close>, over a state type and a value type left open, and \<open>valkey_laws\<close> states the
  documented behaviour the scripts rely on (hash fields, the server's clock, key expiry).  A
  script runs atomically, so a script of the code is one function from the state it finds to a
  reply and the state it leaves.  \<open>memory\<close> is a store that satisfies the laws; it only serves to
  apply the theorems at a concrete input.
\<close>

section \<open>Commands and their laws\<close>

record ('s, 'v) valkey =
  vk_time :: "'s \<Rightarrow> int \<times> int" \<comment> \<open>\<open>TIME\<close>: seconds and microseconds\<close>
  vk_hget :: "'s \<Rightarrow> string \<Rightarrow> string \<Rightarrow> 'v option" \<comment> \<open>one field of \<open>HMGET\<close>, read as a number\<close>
  vk_hset :: "string \<Rightarrow> (string \<times> 'v) list \<Rightarrow> 's \<Rightarrow> 's" \<comment> \<open>\<open>HSET\<close>\<close>
  vk_pexpire :: "string \<Rightarrow> int \<Rightarrow> 's \<Rightarrow> 's" \<comment> \<open>\<open>PEXPIRE\<close>\<close>
  vk_pttl :: "'s \<Rightarrow> string \<Rightarrow> int option" \<comment> \<open>what is left of a key's life; \<open>None\<close> for no limit\<close>
  vk_del :: "string \<Rightarrow> 's \<Rightarrow> 's" \<comment> \<open>\<open>DEL\<close>\<close>
  vk_wait :: "nat \<Rightarrow> 's \<Rightarrow> 's" \<comment> \<open>so many milliseconds pass\<close>

definition vk_expire :: "('s, 'v) valkey \<Rightarrow> string \<Rightarrow> int \<Rightarrow> 's \<Rightarrow> 's" where
  \<comment> \<open>\<open>EXPIRE\<close>\<close>
  "vk_expire vk key seconds s = vk_pexpire vk key (seconds * 1000) s"

definition now_ms :: "('s, 'v) valkey \<Rightarrow> 's \<Rightarrow> int" where
  \<comment> \<open>\<open>tonumber(now[1]) * 1000 + math.floor(tonumber(now[2]) / 1000)\<close>\<close>
  "now_ms vk s = fst (vk_time vk s) * 1000 + snd (vk_time vk s) div 1000"

definition vk_present :: "('s, 'v) valkey \<Rightarrow> 's \<Rightarrow> string \<Rightarrow> bool" where
  "vk_present vk s key = (\<exists>field. vk_hget vk s key field \<noteq> None)"

definition vk_expires_within :: "('s, 'v) valkey \<Rightarrow> 's \<Rightarrow> string \<Rightarrow> nat \<Rightarrow> bool" where
  "vk_expires_within vk s key d = (case vk_pttl vk s key of None \<Rightarrow> False | Some t \<Rightarrow> t \<le> int d)"

definition valkey_laws :: "('s, 'v) valkey \<Rightarrow> bool" where
  "valkey_laws vk \<longleftrightarrow>
     (\<forall>s key fs key' field. vk_hget vk (vk_hset vk key fs s) key' field =
        (if key' = key \<and> map_of fs field \<noteq> None then map_of fs field else vk_hget vk s key' field))
     \<and> (\<forall>s key fs key'. vk_pttl vk (vk_hset vk key fs s) key' = vk_pttl vk s key')
     \<and> (\<forall>s key ms key' field. 0 < ms \<longrightarrow> vk_hget vk (vk_pexpire vk key ms s) key' field = vk_hget vk s key' field)
     \<and> (\<forall>s key ms key'. 0 < ms \<and> vk_present vk s key \<longrightarrow>
          vk_pttl vk (vk_pexpire vk key ms s) key' = (if key' = key then Some ms else vk_pttl vk s key'))
     \<and> (\<forall>s key key' field. vk_hget vk (vk_del vk key s) key' field = (if key' = key then None else vk_hget vk s key' field))
     \<and> (\<forall>s key key'. vk_pttl vk (vk_del vk key s) key' = (if key' = key then None else vk_pttl vk s key'))
     \<and> (\<forall>s key fs. now_ms vk (vk_hset vk key fs s) = now_ms vk s)
     \<and> (\<forall>s key ms. now_ms vk (vk_pexpire vk key ms s) = now_ms vk s)
     \<and> (\<forall>s key. now_ms vk (vk_del vk key s) = now_ms vk s)
     \<and> (\<forall>s d. now_ms vk (vk_wait vk d s) = now_ms vk s + int d)
     \<and> (\<forall>s d key field. vk_hget vk (vk_wait vk d s) key field =
          (if vk_expires_within vk s key d then None else vk_hget vk s key field))
     \<and> (\<forall>s d key. vk_pttl vk (vk_wait vk d s) key =
          (if vk_expires_within vk s key d then None else map_option (\<lambda>t. t - int d) (vk_pttl vk s key)))"

lemma valkey_laws_simps:
  assumes "valkey_laws vk"
  shows "vk_hget vk (vk_hset vk key fs s) key' field =
      (if key' = key \<and> map_of fs field \<noteq> None then map_of fs field else vk_hget vk s key' field)"
    and "vk_pttl vk (vk_hset vk key fs s) key' = vk_pttl vk s key'"
    and "0 < ms \<Longrightarrow> vk_hget vk (vk_pexpire vk key ms s) key' field = vk_hget vk s key' field"
    and "0 < ms \<Longrightarrow> vk_present vk s key \<Longrightarrow>
      vk_pttl vk (vk_pexpire vk key ms s) key' = (if key' = key then Some ms else vk_pttl vk s key')"
    and "vk_hget vk (vk_del vk key s) key' field = (if key' = key then None else vk_hget vk s key' field)"
    and "vk_pttl vk (vk_del vk key s) key' = (if key' = key then None else vk_pttl vk s key')"
    and "now_ms vk (vk_hset vk key fs s) = now_ms vk s"
    and "now_ms vk (vk_pexpire vk key ms s) = now_ms vk s"
    and "now_ms vk (vk_del vk key s) = now_ms vk s"
    and "now_ms vk (vk_wait vk d s) = now_ms vk s + int d"
    and "vk_hget vk (vk_wait vk d s) key field =
      (if vk_expires_within vk s key d then None else vk_hget vk s key field)"
    and "vk_pttl vk (vk_wait vk d s) key =
      (if vk_expires_within vk s key d then None else map_option (\<lambda>t. t - int d) (vk_pttl vk s key))"
  using assms unfolding valkey_laws_def by simp_all

lemma valkey_expire_simps:
  assumes "valkey_laws vk" and "0 < seconds"
  shows "vk_hget vk (vk_expire vk key seconds s) key' field = vk_hget vk s key' field"
    and "vk_present vk s key \<Longrightarrow>
      vk_pttl vk (vk_expire vk key seconds s) key' = (if key' = key then Some (seconds * 1000) else vk_pttl vk s key')"
    and "now_ms vk (vk_expire vk key seconds s) = now_ms vk s"
  using assms(2) by (simp_all add: vk_expire_def valkey_laws_simps [OF assms(1)])

lemma vk_present_hset: "valkey_laws vk \<Longrightarrow> fs \<noteq> [] \<Longrightarrow> vk_present vk (vk_hset vk key fs s) key"
  by (cases fs) (auto simp: vk_present_def valkey_laws_simps intro!: exI [of _ "fst (hd fs)"])

section \<open>Calls from the process\<close>

text \<open>
  A call may fail in the network: before the store ran it, or after, when only the answer is lost.
\<close>

datatype fault = No_Fault | Not_Sent | Answer_Lost

fun vk_call :: "fault \<Rightarrow> ('s \<Rightarrow> 'r \<times> 's) \<Rightarrow> 's \<Rightarrow> 'r option \<times> 's" where
  \<comment> \<open>\<open>None\<close> is a rejected promise\<close>
  "vk_call No_Fault f s = (case f s of (r, s') \<Rightarrow> (Some r, s'))"
| "vk_call Not_Sent f s = (None, s)"
| "vk_call Answer_Lost f s = (None, snd (f s))"

section \<open>A store in memory\<close>

record 'v memory_state =
  mem_now :: int
  mem_fields :: "((string \<times> string) \<times> 'v) list"
  mem_life :: "(string \<times> int) list"

definition mem_drop :: "string \<Rightarrow> 'v memory_state \<Rightarrow> 'v memory_state" where
  "mem_drop key s = s\<lparr>mem_fields := filter (\<lambda>e. fst (fst e) \<noteq> key) (mem_fields s),
                      mem_life := filter (\<lambda>e. fst e \<noteq> key) (mem_life s)\<rparr>"

definition mem_doomed :: "'v memory_state \<Rightarrow> nat \<Rightarrow> string \<Rightarrow> bool" where
  "mem_doomed s d key = (case map_of (mem_life s) key of None \<Rightarrow> False | Some t \<Rightarrow> t \<le> int d)"

definition memory :: "('v memory_state, 'v) valkey" where
  "memory =
     \<lparr>vk_time = (\<lambda>s. (mem_now s div 1000, mem_now s mod 1000 * 1000)),
      vk_hget = (\<lambda>s key field. map_of (mem_fields s) (key, field)),
      vk_hset = (\<lambda>key fs s. s\<lparr>mem_fields := map (\<lambda>(f, v). ((key, f), v)) fs @ mem_fields s\<rparr>),
      vk_pexpire = (\<lambda>key ms s. s\<lparr>mem_life := (key, ms) # mem_life s\<rparr>),
      vk_pttl = (\<lambda>s key. map_of (mem_life s) key),
      vk_del = mem_drop,
      vk_wait = (\<lambda>d s. s\<lparr>mem_now := mem_now s + int d,
        mem_fields := filter (\<lambda>e. \<not> mem_doomed s d (fst (fst e))) (mem_fields s),
        mem_life := map (\<lambda>(k, t). (k, t - int d)) (filter (\<lambda>e. \<not> mem_doomed s d (fst e)) (mem_life s))\<rparr>)\<rparr>"

lemma map_of_filter_key: "map_of (filter (\<lambda>e. P (fst e)) xs) k = (if P k then map_of xs k else None)"
  by (induction xs) auto

lemma map_of_tagged: "map_of (map (\<lambda>(f, v). ((key, f), v)) fs) (key', field) = (if key' = key then map_of fs field else None)"
  by (induction fs) auto

lemma now_ms_memory: "now_ms memory s = mem_now s"
  by (simp add: now_ms_def memory_def)

lemma memory_laws: "valkey_laws memory"
proof -
  have aged: "map_of (map (\<lambda>(k, t). (k, t - int d)) xs) k = map_option (\<lambda>t. t - int d) (map_of xs k)"
    for d xs and k :: string
    by (induction xs) auto
  have dropped: "map_of (filter (\<lambda>e. P (fst (fst e))) xs) (k, f) = (if P k then map_of xs (k, f) else None)"
    for P and xs :: "((string \<times> string) \<times> 'v) list" and k f
    using map_of_filter_key [of "\<lambda>kf. P (fst kf)" xs "(k, f)"] by simp
  have kept: "map_of (filter (\<lambda>e. fst (fst e) \<noteq> key) xs) (k, f) = (if k \<noteq> key then map_of xs (k, f) else None)"
    "map_of (filter (\<lambda>e. \<not> mem_doomed s d (fst (fst e))) xs) (k, f) = (if \<not> mem_doomed s d k then map_of xs (k, f) else None)"
    for key and xs :: "((string \<times> string) \<times> 'v) list" and k f and s :: "'v memory_state" and d
    by (rule dropped)+
  have kept_life: "map_of (filter (\<lambda>e. fst e \<noteq> key) xs) k = (if k \<noteq> key then map_of xs k else None)"
    "map_of (filter (\<lambda>e. \<not> mem_doomed s d (fst e)) xs) k = (if \<not> mem_doomed s d k then map_of xs k else None)"
    for key and xs :: "(string \<times> int) list" and k and s :: "'v memory_state" and d
    by (rule map_of_filter_key)+
  have doomed: "vk_expires_within memory s k d = mem_doomed s d k" for s :: "'v memory_state" and k d
    by (simp add: vk_expires_within_def mem_doomed_def memory_def)
  show ?thesis
    unfolding valkey_laws_def doomed now_ms_memory
    by (intro conjI allI impI)
      (auto simp: memory_def mem_drop_def map_add_def map_of_tagged aged kept kept_life split: option.split)
qed

end
