(* ===== verification/Versioned_Cache.thy ===== *)
theory Versioned_Cache
  imports Valkey Report_Types "HOL-Library.Word"
begin

text \<open>
  \<open>src/src/lib/cache/versioned-cache.service.ts\<close> and \<open>cache-codec.util.ts\<close>: entries addressed by a
  generation counter, every command bounded and allowed to fail.  One process's service and the
  store it shares are the record \<open>cache_world\<close>; its \<open>fates\<close> decide, command by command, whether
  the call fails, how long it takes and what other clients did to the store before it arrived, so
  a statement about every list of fates is one about every failure and interleaving at the granularity of
  commands.  Gzip, JSON and the client's commands are parameters with named laws.
\<close>

section \<open>Strings of numbers\<close>

function dec_string :: "nat \<Rightarrow> string" where
  "dec_string n = (if n < 10 then [digit_char n] else dec_string (n div 10) @ [digit_char (n mod 10)])"
  by auto
termination by (relation "measure id") auto

declare dec_string.simps [simp del]

definition int_string :: "int \<Rightarrow> string" where
  "int_string k = (if k < 0 then CHR ''-'' # dec_string (nat (- k)) else dec_string (nat k))"

definition js_number :: "string \<Rightarrow> int option" where
  \<comment> \<open>\<open>Number(raw)\<close> on what \<open>INCR\<close> and \<open>SET\<close> of an integer leave; \<open>None\<close> for \<open>NaN\<close>\<close>
  "js_number raw =
     (if raw = [] then Some 0
      else if list_all is_digit raw then Some (int (digits_value raw))
      else if hd raw = CHR ''-'' \<and> tl raw \<noteq> [] \<and> list_all is_digit (tl raw) then Some (- int (digits_value (tl raw)))
      else None)"

section \<open>The codec\<close>

type_synonym bytes = "8 word list"

record 'v wire =
  to_json :: "'v \<Rightarrow> bytes" \<comment> \<open>\<open>Buffer.from(JSON.stringify(v), 'utf8')\<close>\<close>
  of_json :: "bytes \<Rightarrow> 'v option" \<comment> \<open>\<open>JSON.parse\<close>, \<open>None\<close> where it throws\<close>
  gzip :: "bytes \<Rightarrow> bytes"
  gunzip :: "bytes \<Rightarrow> bytes option"

definition cache_gzip_min_bytes :: nat where "cache_gzip_min_bytes = 1024"

definition gzip_magic :: bytes where "gzip_magic = [0x1f, 0x8b]"

definition encode :: "'v wire \<Rightarrow> 'v \<Rightarrow> bytes" where
  "encode c v =
     (let json = to_json c v
      in if length json < cache_gzip_min_bytes then json else gzip c json)"

definition is_compressed :: "bytes \<Rightarrow> bool" where
  "is_compressed payload =
     (length payload > length gzip_magic \<and> js_nth payload 0 = js_nth gzip_magic 0
        \<and> js_nth payload 1 = js_nth gzip_magic 1)"

definition decode :: "'v wire \<Rightarrow> bytes \<Rightarrow> 'v option" where
  "decode c payload =
     (if is_compressed payload
      then (case gunzip c payload of None \<Rightarrow> None | Some json \<Rightarrow> of_json c json)
      else of_json c payload)"

definition wire_laws :: "'v wire \<Rightarrow> bool" where
  \<comment> \<open>JSON text never starts with the byte \<open>0x1f\<close>; gzip is undone and starts with its magic\<close>
  "wire_laws c \<longleftrightarrow>
     (\<forall>v. js_nth (to_json c v) 0 \<noteq> Some 0x1f)
     \<and> (\<forall>b. gunzip c (gzip c b) = Some b) \<and> (\<forall>b. is_compressed (gzip c b))"

section \<open>The client\<close>

record 's cache_client =
  cl_get :: "string \<Rightarrow> 's \<Rightarrow> string option"
  cl_get_buffer :: "string \<Rightarrow> 's \<Rightarrow> bytes option"
  cl_set_nx :: "string \<Rightarrow> string \<Rightarrow> 's \<Rightarrow> 's"
  cl_incr :: "string \<Rightarrow> 's \<Rightarrow> (string + int) \<times> 's"
  cl_set_ex :: "string \<Rightarrow> bytes \<Rightarrow> int \<Rightarrow> 's \<Rightarrow> 's"
  cl_del :: "string list \<Rightarrow> 's \<Rightarrow> 's"
  cl_hset :: "string \<Rightarrow> (string \<times> string) list \<Rightarrow> 's \<Rightarrow> 's"
  cl_expire :: "string \<Rightarrow> int \<Rightarrow> 's \<Rightarrow> 's"
  cl_hmget :: "string \<Rightarrow> string list \<Rightarrow> 's \<Rightarrow> string option list"

record cache_config =
  cf_enabled :: bool
  cf_boot_bump :: bool
  cf_ttl_sec :: int
  cf_max_entry_bytes :: nat
  cf_max_set_bytes :: nat

record cache_entry_ref =
  ref_scope :: string
  ref_suffix :: string

section \<open>One process and the store it shares\<close>

record slow_sample =
  slow_count :: nat
  slow_min :: nat
  slow_max :: nat
  slow_total :: nat

record 's cache_world =
  store :: 's
  clock :: int
  fates :: "(fault \<times> nat \<times> ('s \<Rightarrow> 's)) list"
  hits :: nat
  misses :: nat
  errors :: nat
  bypasses :: nat
  generation :: "int option"
  last_bump_at :: "int option"
  pending :: "(string \<times> string) option"
  slow_samples :: "(string \<times> slow_sample) list"
  slow_since :: "int option"
  slow_summaries :: "(string \<times> slow_sample) list list"

definition cache_slow_command_ms :: nat where "cache_slow_command_ms = 50"

definition cache_slow_log_window_ms :: int where "cache_slow_log_window_ms = 60000"

definition flush_slow :: "bool \<Rightarrow> 's cache_world \<Rightarrow> 's cache_world" where
  "flush_slow force w =
     (case slow_since w of
        None \<Rightarrow> w
      | Some since \<Rightarrow>
          if slow_samples w = [] then w
          else if \<not> force \<and> clock w - since < cache_slow_log_window_ms then w
          else w\<lparr>slow_summaries := slow_samples w # slow_summaries w, slow_samples := [], slow_since := None\<rparr>)"

definition add_sample :: "nat \<Rightarrow> slow_sample option \<Rightarrow> slow_sample" where
  "add_sample elapsed sample =
     (case sample of
        Some s \<Rightarrow> \<lparr>slow_count = slow_count s + 1, slow_min = min (slow_min s) elapsed,
                   slow_max = max (slow_max s) elapsed, slow_total = slow_total s + elapsed\<rparr>
      | None \<Rightarrow> \<lparr>slow_count = 1, slow_min = elapsed, slow_max = elapsed, slow_total = elapsed\<rparr>)"

definition record_slow :: "string \<Rightarrow> nat \<Rightarrow> 's cache_world \<Rightarrow> 's cache_world" where
  "record_slow operation elapsed w =
     flush_slow False (w\<lparr>
       slow_samples := AList.update operation (add_sample elapsed (js_get (slow_samples w) operation)) (slow_samples w),
       slow_since := (case slow_since w of None \<Rightarrow> Some (clock w) | Some t \<Rightarrow> Some t)\<rparr>)"

definition next_fate :: "'s cache_world \<Rightarrow> (fault \<times> nat \<times> ('s \<Rightarrow> 's)) \<times> 's cache_world" where
  \<comment> \<open>what happens to the next command; nothing, once the fates have run out\<close>
  "next_fate w = (case fates w of [] \<Rightarrow> ((No_Fault, 0, \<lambda>s. s), w) | f # fs \<Rightarrow> (f, w\<lparr>fates := fs\<rparr>))"

definition command :: "string \<Rightarrow> ('s \<Rightarrow> 'r \<times> 's) \<Rightarrow> 's cache_world \<Rightarrow> 'r option \<times> 's cache_world" where
  "command operation run w =
     (case next_fate w of
        ((fault, elapsed, others), w0) \<Rightarrow>
          (case vk_call fault run (others (store w0)) of
             (reply, s') \<Rightarrow>
               let w1 = w0\<lparr>store := s', clock := clock w0 + int elapsed\<rparr>
               in case reply of
                    None \<Rightarrow> (None, w1\<lparr>errors := errors w1 + 1\<rparr>)
                  | Some r \<Rightarrow> (Some r, if elapsed \<ge> cache_slow_command_ms then record_slow operation elapsed w1 else w1)))"

definition query :: "string \<Rightarrow> ('s \<Rightarrow> 'r option) \<Rightarrow> 's cache_world \<Rightarrow> 'r option \<times> 's cache_world" where
  \<comment> \<open>a command whose reply may itself be \<open>null\<close>\<close>
  "query operation get w =
     (case command operation (\<lambda>s. (get s, s)) w of
        (None, w') \<Rightarrow> (None, w')
      | (Some r, w') \<Rightarrow> (r, w'))"

definition act :: "string \<Rightarrow> ('s \<Rightarrow> 's) \<Rightarrow> 's cache_world \<Rightarrow> 's cache_world" where
  \<comment> \<open>a command awaited for its effect\<close>
  "act operation f w = snd (command operation (\<lambda>s. ((), f s)) w)"

fun pipeline_run :: "('s \<Rightarrow> 's) list \<Rightarrow> 's cache_world \<Rightarrow> (bool \<times> nat) \<times> 's cache_world" where
  \<comment> \<open>a pipeline is not a transaction: other clients act between its commands, and when the caller gives
      up on it only some of them have been applied\<close>
  "pipeline_run [] w = ((True, 0), w)"
| "pipeline_run (f # fs) w =
     (case next_fate w of
        ((fault, elapsed, others), w0) \<Rightarrow>
          (case vk_call fault (\<lambda>s. ((), f s)) (others (store w0)) of
             (reply, s') \<Rightarrow>
               let w1 = w0\<lparr>store := s', clock := clock w0 + int elapsed\<rparr>
               in case reply of
                    None \<Rightarrow> ((False, elapsed), w1)
                  | Some _ \<Rightarrow> (case pipeline_run fs w1 of ((ok, n), w2) \<Rightarrow> ((ok, elapsed + n), w2))))"

definition act_all :: "string \<Rightarrow> ('s \<Rightarrow> 's) list \<Rightarrow> 's cache_world \<Rightarrow> 's cache_world" where
  "act_all operation fs w =
     (case pipeline_run fs w of
        ((ok, elapsed), w1) \<Rightarrow>
          if \<not> ok then w1\<lparr>errors := errors w1 + 1\<rparr>
          else if elapsed \<ge> cache_slow_command_ms then record_slow operation elapsed w1 else w1)"

section \<open>Keys\<close>

definition generation_key :: "string \<Rightarrow> string" where
  "generation_key g = ''cache'' @ '':gen:'' @ g"

definition entry_key :: "cache_entry_ref \<Rightarrow> int \<Rightarrow> string" where
  "entry_key ref version =
     (let base = ''cache'' @ '':'' @ ref_scope ref @ '':g'' @ int_string version
      in if ref_suffix ref \<noteq> [] then base @ '':'' @ ref_suffix ref else base)"

record cache_set_keys =
  index_key :: string
  entries_key :: string

definition set_keys :: "string \<Rightarrow> cache_set_keys" where
  "set_keys base = \<lparr>index_key = base @ '':idx'', entries_key = base @ '':grp''\<rparr>"

section \<open>Generations\<close>

definition seed :: "'s cache_world \<Rightarrow> int" where "seed w = clock w div 1000"

definition remember :: "string \<Rightarrow> 's cache_world \<Rightarrow> int option \<times> 's cache_world" where
  "remember raw w =
     (case js_number raw of None \<Rightarrow> (None, w) | Some v \<Rightarrow> (Some v, w\<lparr>generation := Some v\<rparr>))"

definition read_generation :: "'s cache_client \<Rightarrow> string \<Rightarrow> 's cache_world \<Rightarrow> int option \<times> 's cache_world" where
  "read_generation cl g w =
     (let key = generation_key g
      in case query ''generation read'' (cl_get cl key) w of
           (Some current, w1) \<Rightarrow> remember current w1
         | (None, w1) \<Rightarrow>
             let w2 = act ''generation seed'' (cl_set_nx cl key (int_string (seed w1))) w1
             in case query ''generation read'' (cl_get cl key) w2 of
                  (None, w3) \<Rightarrow> (None, w3)
                | (Some seeded, w3) \<Rightarrow> remember seeded w3)"

definition bump_commands :: "'s cache_client \<Rightarrow> string \<Rightarrow> string \<Rightarrow> 's \<Rightarrow> (string + int) \<times> 's" where
  \<comment> \<open>\<open>MULTI\<close>, \<open>SET key seed NX\<close>, \<open>INCR key\<close>, \<open>EXEC\<close>; the reply of the second\<close>
  "bump_commands cl key seed_text s = cl_incr cl key (cl_set_nx cl key seed_text s)"

definition bump :: "'s cache_client \<Rightarrow> cache_config \<Rightarrow> string \<Rightarrow> string \<Rightarrow> 's cache_world \<Rightarrow> 's cache_world" where
  "bump cl cf g reason w =
     (if \<not> cf_enabled cf then w
      else case command ''generation bump'' (bump_commands cl (generation_key g) (int_string (seed w))) w of
             (None, w1) \<Rightarrow> w1\<lparr>pending := Some (g, reason)\<rparr>
           | (Some reply, w1) \<Rightarrow>
               w1\<lparr>pending := None, last_bump_at := Some (clock w1),
                  generation := Some (case reply of Inr v \<Rightarrow> v
                       | Inl _ \<Rightarrow> (case generation w1 of None \<Rightarrow> 0 | Some v \<Rightarrow> v))\<rparr>)"

definition on_bootstrap :: "'s cache_client \<Rightarrow> cache_config \<Rightarrow> 's cache_world \<Rightarrow> 's cache_world" where
  "on_bootstrap cl cf w =
     (if \<not> cf_enabled cf then w else if \<not> cf_boot_bump cf then w else bump cl cf ''catalogue'' ''boot'' w)"

definition usable_generation ::
  "'s cache_client \<Rightarrow> cache_config \<Rightarrow> string \<Rightarrow> 's cache_world \<Rightarrow> int option \<times> 's cache_world" where
  "usable_generation cl cf g w =
     (if \<not> cf_enabled cf then (None, w)
      else case pending w of
             None \<Rightarrow> read_generation cl g w
           | Some (og, reason) \<Rightarrow>
               let w1 = bump cl cf og reason w
               in if pending w1 \<noteq> None then (None, w1) else read_generation cl g w1)"

section \<open>Single entries\<close>

definition read_entry :: "'s cache_client \<Rightarrow> 'v wire \<Rightarrow> string \<Rightarrow> 's cache_world \<Rightarrow> 'v option \<times> 's cache_world" where
  "read_entry cl c key w =
     (case query ''entry read'' (cl_get_buffer cl key) w of
        (None, w1) \<Rightarrow> (None, w1)
      | (Some payload, w1) \<Rightarrow>
          (case decode c payload of
             Some v \<Rightarrow> (Some v, w1)
           | None \<Rightarrow> (None, act ''entry drop'' (cl_del cl [key]) (w1\<lparr>errors := errors w1 + 1\<rparr>))))"

definition write_entry ::
  "'s cache_client \<Rightarrow> cache_config \<Rightarrow> 'v wire \<Rightarrow> string \<Rightarrow> 'v \<Rightarrow> 's cache_world \<Rightarrow> 's cache_world" where
  "write_entry cl cf c key v w =
     (let payload = encode c v
      in if length payload > cf_max_entry_bytes cf then w\<lparr>bypasses := bypasses w + 1\<rparr>
         else act ''entry write'' (cl_set_ex cl key payload (cf_ttl_sec cf)) w)"

definition get_or_compute ::
  "'s cache_client \<Rightarrow> cache_config \<Rightarrow> 'v wire \<Rightarrow> cache_entry_ref \<Rightarrow> string
    \<Rightarrow> ('s cache_world \<Rightarrow> ('x + 'v) \<times> 's cache_world) \<Rightarrow> 's cache_world \<Rightarrow> ('x + 'v) \<times> 's cache_world" where
  \<comment> \<open>a loader that throws, \<open>Inl\<close>, throws through\<close>
  "get_or_compute cl cf c ref g loader w =
     (case usable_generation cl cf g w of
        (None, w1) \<Rightarrow> loader (w1\<lparr>bypasses := bypasses w1 + 1\<rparr>)
      | (Some version, w1) \<Rightarrow>
          let key = entry_key ref version
          in case read_entry cl c key w1 of
               (Some v, w2) \<Rightarrow> (Inr v, w2\<lparr>hits := hits w2 + 1\<rparr>)
             | (None, w2) \<Rightarrow>
                 (case loader w2 of
                    (Inl e, w3) \<Rightarrow> (Inl e, w3)
                  | (Inr v, w3) \<Rightarrow> (Inr v, write_entry cl cf c key v (w3\<lparr>misses := misses w3 + 1\<rparr>))))"

section \<open>Page-addressable sets\<close>

datatype page_source = Hit | Miss | Bypass

record 'e cache_page =
  page_entries :: "'e option list" \<comment> \<open>\<open>undefined\<close> for a position past the entries\<close>
  page_visible :: nat
  page_from :: page_source

record 'e entry_wire =
  entry_json :: "'e \<Rightarrow> string"
  entry_parse :: "string \<Rightarrow> 'e option"
  utf8_length :: "string \<Rightarrow> nat"

definition survives :: "'i wire \<Rightarrow> 'e entry_wire \<Rightarrow> ('i, 'e) cache_indexed_set \<Rightarrow> bool" where
  \<comment> \<open>JSON reads this set back as it was written\<close>
  "survives c ec st \<longleftrightarrow>
     of_json c (to_json c (set_index st)) = Some (set_index st)
     \<and> (\<forall>e\<in>set (set_entries st). entry_parse ec (entry_json ec e) = Some e)"

definition cache_set_hset_chunk :: nat where "cache_set_hset_chunk = 500"

definition pick_in_memory ::
  "('i, 'e) cache_indexed_set \<Rightarrow> ('i \<Rightarrow> 'x + cache_page_pick) \<Rightarrow> page_source \<Rightarrow> 'x + 'e cache_page" where
  "pick_in_memory st pick source =
     (case pick (set_index st) of
        Inl e \<Rightarrow> Inl e
      | Inr p \<Rightarrow> Inr \<lparr>page_entries = map (js_nth (set_entries st)) (positions p), page_visible = pick_total p,
                      page_from = source\<rparr>)"

datatype 'e entries_read = Entries "'e list" | Partial | Unread

definition read_entries ::
  "'s cache_client \<Rightarrow> 'e entry_wire \<Rightarrow> string \<Rightarrow> nat list \<Rightarrow> 's cache_world \<Rightarrow> 'e entries_read \<times> 's cache_world" where
  "read_entries cl ec key ps w =
     (if ps = [] then (Entries [], w)
      else let fields = map dec_string ps
           in case command ''entries read'' (\<lambda>s. (cl_hmget cl key fields s, s)) w of
                (None, w1) \<Rightarrow> (Unread, w1)
              | (Some raw, w1) \<Rightarrow>
                  if length raw \<noteq> length fields \<or> None \<in> set raw then (Partial, w1)
                  else let parsed = map (entry_parse ec) (map the raw)
                       in if None \<in> set parsed then (Partial, w1\<lparr>errors := errors w1 + 1\<rparr>)
                          else (Entries (map the parsed), w1))"

definition read_page ::
  "'s cache_client \<Rightarrow> 'i wire \<Rightarrow> 'e entry_wire \<Rightarrow> cache_set_keys \<Rightarrow> ('i \<Rightarrow> 'x + cache_page_pick)
    \<Rightarrow> 's cache_world \<Rightarrow> ('x + 'e cache_page option) \<times> 's cache_world" where
  "read_page cl c ec ks pick w =
     (case read_entry cl c (index_key ks) w of
        (None, w1) \<Rightarrow> (Inr None, w1)
      | (Some ix, w1) \<Rightarrow>
          (case pick ix of
             Inl e \<Rightarrow> (Inl e, w1)
           | Inr p \<Rightarrow>
               (case read_entries cl ec (entries_key ks) (positions p) w1 of
                  (Unread, w2) \<Rightarrow> (Inr None, w2)
                | (Partial, w2) \<Rightarrow> (Inr None, act ''set drop'' (cl_del cl [index_key ks, entries_key ks]) w2)
                | (Entries es, w2) \<Rightarrow>
                    (Inr (Some \<lparr>page_entries = map Some es, page_visible = pick_total p, page_from = Hit\<rparr>), w2))))"

definition hset_steps :: "'s cache_client \<Rightarrow> string \<Rightarrow> string list \<Rightarrow> ('s \<Rightarrow> 's) list" where
  \<comment> \<open>one \<open>HSET\<close> per slice of the entries, fields numbered through\<close>
  "hset_steps cl key es =
     map (\<lambda>(i, chunk). cl_hset cl key
            (map (\<lambda>(j, v). (dec_string (i * cache_set_hset_chunk + j), v)) (enumerate 0 chunk)))
       (enumerate 0 (js_chunks ((length es + cache_set_hset_chunk - 1) div cache_set_hset_chunk) cache_set_hset_chunk es))"

definition set_pipeline :: "'s cache_client \<Rightarrow> cache_set_keys \<Rightarrow> bytes \<Rightarrow> string list \<Rightarrow> int \<Rightarrow> ('s \<Rightarrow> 's) list" where
  "set_pipeline cl ks ix es ttl =
     [cl_set_ex cl (index_key ks) ix ttl, cl_del cl [entries_key ks]]
     @ hset_steps cl (entries_key ks) es
     @ (if es \<noteq> [] then [cl_expire cl (entries_key ks) ttl] else [])"

definition write_set ::
  "'s cache_client \<Rightarrow> cache_config \<Rightarrow> 'i wire \<Rightarrow> 'e entry_wire \<Rightarrow> cache_set_keys \<Rightarrow> ('i, 'e) cache_indexed_set
    \<Rightarrow> 's cache_world \<Rightarrow> 's cache_world" where
  "write_set cl cf c ec ks st w =
     (let ix = encode c (set_index st);
          es = map (entry_json ec) (set_entries st);
          size_bytes = foldl (\<lambda>n e. n + utf8_length ec e) (length ix) es
      in if size_bytes > cf_max_set_bytes cf then w\<lparr>bypasses := bypasses w + 1\<rparr>
         else act_all ''set write'' (set_pipeline cl ks ix es (cf_ttl_sec cf)) w)"

definition get_page ::
  "'s cache_client \<Rightarrow> cache_config \<Rightarrow> 'i wire \<Rightarrow> 'e entry_wire \<Rightarrow> cache_entry_ref \<Rightarrow> string
    \<Rightarrow> ('s cache_world \<Rightarrow> ('x + ('i, 'e) cache_indexed_set) \<times> 's cache_world) \<Rightarrow> ('i \<Rightarrow> 'x + cache_page_pick)
    \<Rightarrow> 's cache_world \<Rightarrow> ('x + 'e cache_page) \<times> 's cache_world" where
  "get_page cl cf c ec ref g loader pick w =
     (case usable_generation cl cf g w of
        (None, w1) \<Rightarrow>
          (case loader (w1\<lparr>bypasses := bypasses w1 + 1\<rparr>) of
             (Inl e, w2) \<Rightarrow> (Inl e, w2)
           | (Inr st, w2) \<Rightarrow> (pick_in_memory st pick Bypass, w2))
      | (Some version, w1) \<Rightarrow>
          let ks = set_keys (entry_key ref version)
          in case read_page cl c ec ks pick w1 of
               (Inl e, w2) \<Rightarrow> (Inl e, w2)
             | (Inr (Some hit), w2) \<Rightarrow> (Inr hit, w2\<lparr>hits := hits w2 + 1\<rparr>)
             | (Inr None, w2) \<Rightarrow>
                 (case loader w2 of
                    (Inl e, w3) \<Rightarrow> (Inl e, w3)
                  | (Inr st, w3) \<Rightarrow>
                      (pick_in_memory st pick Miss, write_set cl cf c ec ks st (w3\<lparr>misses := misses w3 + 1\<rparr>))))"

end
