(* ===== verification/Cache_Facts.thy ===== *)
theory Cache_Facts
  imports Versioned_Cache
begin

text \<open>
  What the cache promises its callers: the codec is undone by itself, a stored set is read back page
  by page, and a cached page is the page the loader would have given, under every failure, eviction
  and interleaving command by command.  \<open>entry_laws\<close> and \<open>counter_laws\<close> state the documented behaviour of the client's
  commands; \<open>shelf\<close> is a store that satisfies them, for the theorems at a concrete input.
\<close>

section \<open>Numbers as strings\<close>

lemma digits_value_snoc: "digits_value (xs @ [digit_char n]) = 10 * digits_value xs + n" if "n < 10"
  using that by (simp add: digits_value_def of_digit_char)

lemma digits_value_dec_string: "digits_value (dec_string n) = n"
proof (induction n rule: less_induct)
  case (less n)
  show ?case
  proof (cases "n < 10")
    case True
    then have "dec_string n = [] @ [digit_char n]" by (simp add: dec_string.simps [of n])
    then show ?thesis using True digits_value_snoc [of n "[]"] by (simp add: digits_value_def)
  next
    case False
    then have d: "dec_string n = dec_string (n div 10) @ [digit_char (n mod 10)]" by (subst dec_string.simps) simp
    have "digits_value (dec_string (n div 10)) = n div 10" using False by (intro less.IH) simp
    then show ?thesis by (simp add: d digits_value_snoc)
  qed
qed

lemma dec_string_inject: "dec_string m = dec_string n \<longleftrightarrow> m = n"
  by (metis digits_value_dec_string)

section \<open>The codec\<close>

lemma decode_encode:
  assumes "wire_laws c" and "of_json c (to_json c v) = Some v"
  shows "decode c (encode c v) = Some v"
proof (cases "length (to_json c v) < cache_gzip_min_bytes")
  case True
  have "\<not> is_compressed (to_json c v)"
    using assms by (auto simp: wire_laws_def is_compressed_def gzip_magic_def js_nth_def split: if_splits)
  then show ?thesis using True assms by (simp add: encode_def decode_def wire_laws_def)
qed (use assms in \<open>simp add: encode_def decode_def wire_laws_def\<close>)

section \<open>The client's commands\<close>

text \<open>
  What the commands promise about the keys they touch and, mostly, the keys they do not.  Nothing is
  said of expiry and eviction: those are among the things other clients' steps may do.
\<close>

definition hash_field :: "'s cache_client \<Rightarrow> string \<Rightarrow> string \<Rightarrow> 's \<Rightarrow> string option" where
  "hash_field cl key f s = hd (cl_hmget cl key [f] s)"

definition entry_laws :: "'s cache_client \<Rightarrow> bool" where
  \<comment> \<open>the commands on entries, read by \<open>GETBUFFER\<close> and \<open>HMGET\<close>\<close>
  "entry_laws cl \<longleftrightarrow>
     (\<forall>s k fs. cl_hmget cl k fs s = map (\<lambda>f. hash_field cl k f s) fs)
     \<and> (\<forall>s k b ttl k'. cl_get_buffer cl k' (cl_set_ex cl k b ttl s) = (if k' = k then Some b else cl_get_buffer cl k' s))
     \<and> (\<forall>s k b ttl k' f. k' \<noteq> k \<longrightarrow> hash_field cl k' f (cl_set_ex cl k b ttl s) = hash_field cl k' f s)
     \<and> (\<forall>s ks k'. cl_get_buffer cl k' (cl_del cl ks s) = (if k' \<in> set ks then None else cl_get_buffer cl k' s))
     \<and> (\<forall>s ks k' f. hash_field cl k' f (cl_del cl ks s) = (if k' \<in> set ks then None else hash_field cl k' f s))
     \<and> (\<forall>s k kvs k'. cl_get_buffer cl k' (cl_hset cl k kvs s) = cl_get_buffer cl k' s)
     \<and> (\<forall>s k kvs k' f. k' \<noteq> k \<longrightarrow> hash_field cl k' f (cl_hset cl k kvs s) = hash_field cl k' f s)
     \<and> (\<forall>s k kvs f. hash_field cl k f (cl_hset cl k kvs s) \<in> {hash_field cl k f s, map_of (rev kvs) f})
     \<and> (\<forall>s k kvs f. cl_get_buffer cl k s = None \<longrightarrow> hash_field cl k f (cl_hset cl k kvs s) =
          (case map_of (rev kvs) f of None \<Rightarrow> hash_field cl k f s | Some v \<Rightarrow> Some v))
     \<and> (\<forall>s k ttl k'. 0 < ttl \<longrightarrow> cl_get_buffer cl k' (cl_expire cl k ttl s) = cl_get_buffer cl k' s)
     \<and> (\<forall>s k ttl k' f. 0 < ttl \<longrightarrow> hash_field cl k' f (cl_expire cl k ttl s) = hash_field cl k' f s)"

definition counter_laws :: "'s cache_client \<Rightarrow> bool" where
  \<comment> \<open>the commands on counters, read by \<open>GET\<close>\<close>
  "counter_laws cl \<longleftrightarrow>
     (\<forall>s k t k'. k' \<noteq> k \<longrightarrow> cl_get_buffer cl k' (cl_set_nx cl k t s) = cl_get_buffer cl k' s)
     \<and> (\<forall>s k t k' f. k' \<noteq> k \<longrightarrow> hash_field cl k' f (cl_set_nx cl k t s) = hash_field cl k' f s)
     \<and> (\<forall>s k k'. k' \<noteq> k \<longrightarrow> cl_get_buffer cl k' (snd (cl_incr cl k s)) = cl_get_buffer cl k' s)
     \<and> (\<forall>s k k' f. k' \<noteq> k \<longrightarrow> hash_field cl k' f (snd (cl_incr cl k s)) = hash_field cl k' f s)
     \<and> (\<forall>s k b ttl k'. k' \<noteq> k \<longrightarrow> cl_get cl k' (cl_set_ex cl k b ttl s) = cl_get cl k' s)
     \<and> (\<forall>s ks k'. k' \<notin> set ks \<longrightarrow> cl_get cl k' (cl_del cl ks s) = cl_get cl k' s)
     \<and> (\<forall>s k kvs k'. k' \<noteq> k \<longrightarrow> cl_get cl k' (cl_hset cl k kvs s) = cl_get cl k' s)
     \<and> (\<forall>s k ttl k'. k' \<noteq> k \<longrightarrow> cl_get cl k' (cl_expire cl k ttl s) = cl_get cl k' s)
     \<and> (\<forall>s k t raw. cl_get cl k s = Some raw \<longrightarrow> cl_set_nx cl k t s = s)"

lemma entry_laws_simps:
  assumes "entry_laws cl"
  shows "cl_hmget cl k fs s = map (\<lambda>f. hash_field cl k f s) fs"
    and "cl_get_buffer cl k' (cl_set_ex cl k b ttl s) = (if k' = k then Some b else cl_get_buffer cl k' s)"
    and "k' \<noteq> k \<Longrightarrow> hash_field cl k' f (cl_set_ex cl k b ttl s) = hash_field cl k' f s"
    and "cl_get_buffer cl k' (cl_del cl ks s) = (if k' \<in> set ks then None else cl_get_buffer cl k' s)"
    and "hash_field cl k' f (cl_del cl ks s) = (if k' \<in> set ks then None else hash_field cl k' f s)"
    and "cl_get_buffer cl k' (cl_hset cl k kvs s) = cl_get_buffer cl k' s"
    and "k' \<noteq> k \<Longrightarrow> hash_field cl k' f (cl_hset cl k kvs s) = hash_field cl k' f s"
    and "hash_field cl k f (cl_hset cl k kvs s) \<in> {hash_field cl k f s, map_of (rev kvs) f}"
    and "cl_get_buffer cl k s = None \<Longrightarrow> hash_field cl k f (cl_hset cl k kvs s) =
          (case map_of (rev kvs) f of None \<Rightarrow> hash_field cl k f s | Some v \<Rightarrow> Some v)"
    and "0 < ttl \<Longrightarrow> cl_get_buffer cl k' (cl_expire cl k ttl s) = cl_get_buffer cl k' s"
    and "0 < ttl \<Longrightarrow> hash_field cl k' f (cl_expire cl k ttl s) = hash_field cl k' f s"
  using assms by (simp_all only: entry_laws_def not_False_eq_True simp_thms)

lemma counter_laws_simps:
  assumes "counter_laws cl"
  shows "k' \<noteq> k \<Longrightarrow> cl_get_buffer cl k' (cl_set_nx cl k t s) = cl_get_buffer cl k' s"
    and "k' \<noteq> k \<Longrightarrow> hash_field cl k' f (cl_set_nx cl k t s) = hash_field cl k' f s"
    and "k' \<noteq> k \<Longrightarrow> cl_get_buffer cl k' (snd (cl_incr cl k s)) = cl_get_buffer cl k' s"
    and "k' \<noteq> k \<Longrightarrow> hash_field cl k' f (snd (cl_incr cl k s)) = hash_field cl k' f s"
    and "k' \<noteq> k \<Longrightarrow> cl_get cl k' (cl_set_ex cl k b ttl s) = cl_get cl k' s"
    and "k' \<notin> set ks \<Longrightarrow> cl_get cl k' (cl_del cl ks s) = cl_get cl k' s"
    and "k' \<noteq> k \<Longrightarrow> cl_get cl k' (cl_hset cl k kvs s) = cl_get cl k' s"
    and "k' \<noteq> k \<Longrightarrow> cl_get cl k' (cl_expire cl k ttl s) = cl_get cl k' s"
    and "cl_get cl k s = Some raw \<Longrightarrow> cl_set_nx cl k t s = s"
  using assms by (simp_all only: counter_laws_def not_False_eq_True simp_thms)

section \<open>Writing a set\<close>

lemma chunk_fields:
  "map_of (rev (map (\<lambda>(j, v). (dec_string (b + j), v)) (enumerate n chunk))) (dec_string p)
     = (if b + n \<le> p \<and> p < b + n + length chunk then Some (chunk ! (p - (b + n))) else None)"
proof (induction chunk arbitrary: n)
  case Nil
  then show ?case by simp
next
  case (Cons v chunk)
  then show ?case
    by (auto simp: map_add_def dec_string_inject nth_Cons' Suc_diff_le split: option.split)
qed

lemma js_chunks_nth: "i < m \<Longrightarrow> js_chunks m n es ! i = take n (drop (i * n) es)"
proof (induction m n es arbitrary: i rule: js_chunks.induct)
  case (2 m n es)
  then show ?case by (cases i) (simp_all add: add.commute)
qed simp

lemma length_js_chunks [simp]: "length (js_chunks m n es) = m"
  by (induction m n es rule: js_chunks.induct) simp_all

section \<open>Keys\<close>

lemma digit_char_not_minus: "n < 10 \<Longrightarrow> digit_char n \<noteq> CHR ''-''"
proof
  assume n: "n < 10" and "digit_char n = CHR ''-''"
  then have "of_char (digit_char n) = (45::nat)" by simp
  then show False using n by (simp add: digit_char_def)
qed

lemma dec_string_not_minus: "CHR ''-'' \<notin> set (dec_string n)"
proof (induction n rule: less_induct)
  case (less n)
  show ?case
  proof (cases "n < 10")
    case True
    then show ?thesis using digit_char_not_minus [OF True] by (subst dec_string.simps) auto
  next
    case False
    have "n div 10 < n" and "n mod 10 < 10" using False by auto
    then show ?thesis
      using False less.IH [of "n div 10"] digit_char_not_minus [of "n mod 10"] by (subst dec_string.simps) auto
  qed
qed

lemma int_string_inject: "int_string a = int_string b \<longleftrightarrow> a = b"
proof
  assume e: "int_string a = int_string b"
  have "a < 0 \<longleftrightarrow> b < 0"
    using e dec_string_not_minus [of "nat a"] dec_string_not_minus [of "nat b"]
    by (auto simp: int_string_def split: if_splits) (metis list.set_intros(1))+
  then show "a = b" using e by (auto simp: int_string_def dec_string_inject split: if_splits)
qed simp

lemma entry_key_inject: "entry_key ref a = entry_key ref b \<longleftrightarrow> a = b"
  by (auto simp: entry_key_def Let_def int_string_inject)

lemma set_keys_inject:
  "index_key (set_keys a) = index_key (set_keys b) \<longleftrightarrow> a = b"
  "entries_key (set_keys a) = entries_key (set_keys b) \<longleftrightarrow> a = b"
  "index_key (set_keys a) \<noteq> entries_key (set_keys b)"
  "entries_key (set_keys a) \<noteq> index_key (set_keys b)"
proof -
  have "last (a @ '':idx'') \<noteq> last (b @ '':grp'')" for a b :: string by simp
  then show "index_key (set_keys a) \<noteq> entries_key (set_keys b)" "entries_key (set_keys a) \<noteq> index_key (set_keys b)"
    by (metis (no_types) cache_set_keys.simps(1,2) set_keys_def)+
qed (simp_all add: set_keys_def)

definition plain_scope :: "cache_entry_ref \<Rightarrow> bool" where
  \<comment> \<open>a scope no entry of which can collide with a generation counter\<close>
  "plain_scope ref \<longleftrightarrow> CHR '':'' \<notin> set (ref_scope ref) \<and> ref_scope ref \<noteq> ''gen''"

lemma key_scope: "CHR '':'' \<notin> set x \<Longrightarrow> takeWhile (\<lambda>c. c \<noteq> CHR '':'') (drop 6 (''cache:'' @ x @ '':'' @ y)) = x"
  by (induction x) auto

lemma generation_key_apart:
  assumes "plain_scope ref"
  shows "generation_key g \<noteq> entry_key ref v @ x"
proof
  assume e: "generation_key g = entry_key ref v @ x"
  have g: "takeWhile (\<lambda>c. c \<noteq> CHR '':'') (drop 6 (generation_key g)) = ''gen''"
    using key_scope [of "''gen''" g] by (simp add: generation_key_def)
  let ?y = "''g'' @ int_string v @ (if ref_suffix ref \<noteq> [] then '':'' @ ref_suffix ref else []) @ x"
  have "entry_key ref v @ x = ''cache:'' @ ref_scope ref @ '':'' @ ?y"
    by (simp add: entry_key_def Let_def)
  then have "takeWhile (\<lambda>c. c \<noteq> CHR '':'') (drop 6 (generation_key g)) = ref_scope ref"
    using e key_scope [of "ref_scope ref" ?y] assms by (simp add: plain_scope_def)
  then show False using g assms by (simp add: plain_scope_def)
qed

lemma generation_key_apart_set:
  assumes "plain_scope ref"
  shows "generation_key g \<noteq> index_key (set_keys (entry_key ref v))"
    and "generation_key g \<noteq> entries_key (set_keys (entry_key ref v))"
    and "generation_key g \<noteq> entry_key ref v"
  using generation_key_apart [OF assms, of g v "'':idx''"] generation_key_apart [OF assms, of g v "'':grp''"]
    generation_key_apart [OF assms, of g v "[]"]
  by (simp_all add: set_keys_def)

section \<open>Commands keep what every step keeps\<close>

definition kept :: "('s \<Rightarrow> bool) \<Rightarrow> 's cache_world \<Rightarrow> bool" where
  \<comment> \<open>it holds of the store now, and nothing the other clients are going to do breaks it\<close>
  "kept I w \<longleftrightarrow> I (store w) \<and> (\<forall>(fault, elapsed, others)\<in>set (fates w). \<forall>s. I s \<longrightarrow> I (others s))"

lemma flush_slow_projs [simp]:
  "store (flush_slow b w) = store w" "fates (flush_slow b w) = fates w" "pending (flush_slow b w) = pending w"
  "clock (flush_slow b w) = clock w"
  by (simp_all add: flush_slow_def split: option.split)

lemma record_slow_projs [simp]:
  "store (record_slow op n w) = store w" "fates (record_slow op n w) = fates w"
  "pending (record_slow op n w) = pending w" "clock (record_slow op n w) = clock w"
  by (simp_all add: record_slow_def)

lemma kept_cong: "store w' = store w \<Longrightarrow> fates w' = fates w \<Longrightarrow> kept I w' = kept I w"
  by (simp add: kept_def)

lemma kept_update [simp]:
  "kept I (w\<lparr>hits := n\<rparr>) = kept I w" "kept I (w\<lparr>misses := n\<rparr>) = kept I w" "kept I (w\<lparr>errors := n\<rparr>) = kept I w"
  "kept I (w\<lparr>bypasses := n\<rparr>) = kept I w" "kept I (w\<lparr>generation := g\<rparr>) = kept I w" "kept I (w\<lparr>pending := p\<rparr>) = kept I w"
  "kept I (w\<lparr>last_bump_at := t\<rparr>) = kept I w" "kept I (record_slow op k w) = kept I w"
  by (simp_all add: kept_def)

lemma next_fate_kept:
  assumes "kept I w" and "next_fate w = ((fault, elapsed, others), w0)"
  shows "I (others (store w0))" and "\<forall>(fault, elapsed, others)\<in>set (fates w0). \<forall>s. I s \<longrightarrow> I (others s)"
    and "pending w0 = pending w"
proof -
  have "(I (others (store w0)) \<and> (\<forall>(fault, elapsed, others)\<in>set (fates w0). \<forall>s. I s \<longrightarrow> I (others s)))
      \<and> pending w0 = pending w"
  proof (cases "fates w")
    case Nil
    then have "w0 = w" "others = (\<lambda>s. s)" using assms(2) by (simp_all add: next_fate_def)
    then show ?thesis using assms(1) Nil by (simp add: kept_def)
  next
    case (Cons f fs)
    then have "w0 = w\<lparr>fates := fs\<rparr>" "f = (fault, elapsed, others)" using assms(2) by (simp_all add: next_fate_def)
    then show ?thesis using assms(1) Cons by (simp add: kept_def)
  qed
  then show "I (others (store w0))" "\<forall>(fault, elapsed, others)\<in>set (fates w0). \<forall>s. I s \<longrightarrow> I (others s)"
    "pending w0 = pending w" by blast+
qed

lemma vk_call_cases:
  assumes "vk_call fault run s = (reply, s')"
  obtains "reply = None" "s' = s" | "reply = None" "s' = snd (run s)" | "reply = Some (fst (run s))" "s' = snd (run s)"
proof (cases fault)
  case No_Fault
  then show thesis using assms by (intro that(3)) (simp_all add: case_prod_unfold)
next
  case Not_Sent
  then show thesis using assms by (intro that(1)) simp_all
next
  case Answer_Lost
  then show thesis using assms by (intro that(2)) simp_all
qed

lemma command_kept:
  assumes "kept I w" and "\<And>s. I s \<Longrightarrow> I (snd (run s))" and "command op run w = (reply, w')"
  shows "kept I w'" and "\<And>r. reply = Some r \<Longrightarrow> \<exists>s. I s \<and> run s = (r, store w')" and "pending w' = pending w"
proof -
  obtain fault elapsed others w0 where f: "next_fate w = ((fault, elapsed, others), w0)" by (metis prod.exhaust)
  note i = next_fate_kept [OF assms(1) f]
  obtain rep s' where c: "vk_call fault run (others (store w0)) = (rep, s')" by (metis prod.exhaust)
  have s': "I s'" by (rule vk_call_cases [OF c]) (use i(1) assms(2) in auto)
  have w': "reply = rep" "store w' = s'" "fates w' = fates w0" "pending w' = pending w0"
    using assms(3) f c by (auto simp: command_def Let_def split: option.splits if_splits)
  show "kept I w'" using i s' by (simp add: kept_def w')
  show "pending w' = pending w" using i(3) w' by simp
  show "\<exists>s. I s \<and> run s = (r, store w')" if "reply = Some r" for r
    by (rule vk_call_cases [OF c]) (use that w' i(1) in \<open>auto intro!: exI [of _ "others (store w0)"] prod_eqI\<close>)
qed

lemma query_kept:
  assumes "kept I w" and "query op get w = (reply, w')"
  shows "kept I w'" and "\<And>r. reply = Some r \<Longrightarrow> get (store w') = Some r" and "pending w' = pending w"
proof -
  obtain rep w1 where c: "command op (\<lambda>s. (get s, s)) w = (rep, w1)" by (metis prod.exhaust)
  note k = command_kept [OF assms(1) _ c]
  have w1: "w' = w1" "reply = (case rep of None \<Rightarrow> None | Some r \<Rightarrow> r)"
    using assms(2) c by (auto simp: query_def split: option.splits)
  show "kept I w'" "pending w' = pending w" using k w1 by auto
  show "get (store w') = Some r" if "reply = Some r" for r
    using k(2) that w1 by (auto split: option.splits)
qed

lemma act_kept:
  assumes "kept I w" and "\<And>s. I s \<Longrightarrow> I (f s)"
  shows "kept I (act op f w)" and "pending (act op f w) = pending w"
  using command_kept [OF assms(1), of "\<lambda>s. ((), f s)" op] assms(2)
  by (auto simp: act_def) (metis prod.collapse snd_conv)+

lemma pipeline_kept:
  assumes "kept I w" and "\<forall>f\<in>set fs. \<forall>s. I s \<longrightarrow> I (f s)"
  shows "kept I (snd (pipeline_run fs w))" and "pending (snd (pipeline_run fs w)) = pending w"
proof -
  have "kept I (snd (pipeline_run fs w)) \<and> pending (snd (pipeline_run fs w)) = pending w"
    using assms
  proof (induction fs arbitrary: w)
    case Nil
    then show ?case by simp
  next
    case (Cons f fs)
    obtain fault elapsed others w0 where n: "next_fate w = ((fault, elapsed, others), w0)" by (metis prod.exhaust)
    note i = next_fate_kept [OF Cons.prems(1) n]
    obtain rep s' where c: "vk_call fault (\<lambda>s. ((), f s)) (others (store w0)) = (rep, s')" by (metis prod.exhaust)
    let ?w1 = "w0\<lparr>store := s', clock := clock w0 + int elapsed\<rparr>"
    have "I s'" by (rule vk_call_cases [OF c]) (use i(1) Cons.prems(2) in auto)
    then have k: "kept I ?w1" "pending ?w1 = pending w" using i by (simp_all add: kept_def)
    then show ?case
      using Cons.IH [OF k(1)] Cons.prems(2) n c by (auto simp: Let_def split: option.split prod.split)
  qed
  then show "kept I (snd (pipeline_run fs w))" and "pending (snd (pipeline_run fs w)) = pending w" by simp_all
qed

lemma act_all_kept:
  assumes "kept I w" and "\<forall>f\<in>set fs. \<forall>s. I s \<longrightarrow> I (f s)"
  shows "kept I (act_all op fs w)" and "pending (act_all op fs w) = pending w"
  using pipeline_kept [OF assms] by (auto simp: act_all_def split: prod.split)

end
