(* ===== verification/Cache_Page_Facts.thy ===== *)
theory Cache_Page_Facts
  imports Cache_Facts
begin

text \<open>
  Page-addressable sets: what may be stored under which generation is a predicate \<open>A\<close> of the
  version and the set, \<open>all_stored\<close> says the store holds nothing else, and every command a page
  read or write issues keeps it.  A page read then answers from sets \<open>A\<close> allows, whichever
  commands fail, whatever is evicted and whatever the other clients do in between.
\<close>

section \<open>What a store may hold\<close>

abbreviation version_keys :: "cache_entry_ref \<Rightarrow> int \<Rightarrow> cache_set_keys" where
  "version_keys ref v \<equiv> set_keys (entry_key ref v)"

definition set_stored ::
  "'s cache_client \<Rightarrow> 'i wire \<Rightarrow> 'e entry_wire \<Rightarrow> cache_set_keys \<Rightarrow> (('i, 'e) cache_indexed_set \<Rightarrow> bool) \<Rightarrow> 's \<Rightarrow> bool" where
  \<comment> \<open>what can be decoded under these keys comes from allowed sets\<close>
  "set_stored cl c ec ks A s \<longleftrightarrow>
     (\<forall>b ix. cl_get_buffer cl (index_key ks) s = Some b \<and> decode c b = Some ix \<longrightarrow> (\<exists>st. A st \<and> set_index st = ix))
     \<and> (\<forall>p t e. hash_field cl (entries_key ks) (dec_string p) s = Some t \<and> entry_parse ec t = Some e \<longrightarrow>
          (\<exists>st. A st \<and> p < length (set_entries st) \<and> set_entries st ! p = e))"

definition all_stored ::
  "'s cache_client \<Rightarrow> 'i wire \<Rightarrow> 'e entry_wire \<Rightarrow> cache_entry_ref \<Rightarrow> (int \<Rightarrow> ('i, 'e) cache_indexed_set \<Rightarrow> bool) \<Rightarrow> 's \<Rightarrow> bool" where
  "all_stored cl c ec ref A s \<longleftrightarrow> (\<forall>v. set_stored cl c ec (version_keys ref v) (A v) s)"

lemma set_stored_forget:
  assumes "set_stored cl c ec ks A s"
    and "cl_get_buffer cl (index_key ks) s' \<in> {None, cl_get_buffer cl (index_key ks) s}"
    and "\<And>p. hash_field cl (entries_key ks) (dec_string p) s' \<in> {None, hash_field cl (entries_key ks) (dec_string p) s}"
  shows "set_stored cl c ec ks A s'"
  unfolding set_stored_def
proof (intro conjI allI impI)
  fix b ix assume "cl_get_buffer cl (index_key ks) s' = Some b \<and> decode c b = Some ix"
  then have "cl_get_buffer cl (index_key ks) s = Some b \<and> decode c b = Some ix" using assms(2) by auto
  then show "\<exists>st. A st \<and> set_index st = ix" using assms(1) unfolding set_stored_def by blast
next
  fix p t e assume "hash_field cl (entries_key ks) (dec_string p) s' = Some t \<and> entry_parse ec t = Some e"
  then have "hash_field cl (entries_key ks) (dec_string p) s = Some t \<and> entry_parse ec t = Some e"
    using assms(3) [of p] by auto
  then show "\<exists>st. A st \<and> p < length (set_entries st) \<and> set_entries st ! p = e"
    using assms(1) unfolding set_stored_def by blast
qed

section \<open>Every command keeps it\<close>

lemma all_stored_forget:
  assumes "all_stored cl c ec ref A s"
    and "\<And>v. cl_get_buffer cl (index_key (version_keys ref v)) s' \<in> {None, cl_get_buffer cl (index_key (version_keys ref v)) s}"
    and "\<And>v f. hash_field cl (entries_key (version_keys ref v)) f s' \<in> {None, hash_field cl (entries_key (version_keys ref v)) f s}"
  shows "all_stored cl c ec ref A s'"
  unfolding all_stored_def
proof
  fix v
  show "set_stored cl c ec (version_keys ref v) (A v) s'"
    using assms(1) by (intro set_stored_forget [OF _ assms(2,3)]) (simp add: all_stored_def)
qed

lemma all_stored_del:
  assumes "entry_laws cl" and "all_stored cl c ec ref A s"
  shows "all_stored cl c ec ref A (cl_del cl ks s)"
  by (rule all_stored_forget [OF assms(2)]) (simp_all add: entry_laws_simps [OF assms(1)])

lemma all_stored_expire:
  assumes "entry_laws cl" and "0 < ttl" and "all_stored cl c ec ref A s"
  shows "all_stored cl c ec ref A (cl_expire cl k ttl s)"
  by (rule all_stored_forget [OF assms(3)]) (simp_all add: entry_laws_simps [OF assms(1)] assms(2))

lemma all_stored_counter:
  assumes "counter_laws cl" and "plain_scope ref" and "all_stored cl c ec ref A s"
  shows "all_stored cl c ec ref A (cl_set_nx cl (generation_key g) t s)"
    and "all_stored cl c ec ref A (snd (cl_incr cl (generation_key g) s))"
  by (rule all_stored_forget [OF assms(3)];
      simp add: counter_laws_simps [OF assms(1)] generation_key_apart_set [OF assms(2), THEN not_sym])+

lemma all_stored_set_ex:
  assumes "entry_laws cl" and "wire_laws c" and "all_stored cl c ec ref A s" and "A v st" and "survives c ec st"
  shows "all_stored cl c ec ref A (cl_set_ex cl (index_key (version_keys ref v)) (encode c (set_index st)) ttl s)"
  unfolding all_stored_def
proof
  fix v'
  let ?s' = "cl_set_ex cl (index_key (version_keys ref v)) (encode c (set_index st)) ttl s"
  have old: "set_stored cl c ec (version_keys ref v') (A v') s" using assms(3) by (simp add: all_stored_def)
  have h: "hash_field cl (entries_key (version_keys ref v')) f ?s' = hash_field cl (entries_key (version_keys ref v')) f s" for f
    by (simp add: entry_laws_simps [OF assms(1)] set_keys_inject)
  show "set_stored cl c ec (version_keys ref v') (A v') ?s'"
  proof (cases "v' = v")
    case True
    then show ?thesis
      using old assms(4,5) h
      by (auto simp: set_stored_def survives_def entry_laws_simps [OF assms(1)] decode_encode [OF assms(2)])
  next
    case False
    then show ?thesis
      using h by (intro set_stored_forget [OF old]) (simp_all add: entry_laws_simps [OF assms(1)] set_keys_inject entry_key_inject)
  qed
qed

lemma hset_steps_field:
  assumes "f \<in> set (hset_steps cl key es)"
  obtains kvs where "f = cl_hset cl key kvs"
    and "\<And>p t. map_of (rev kvs) (dec_string p) = Some t \<Longrightarrow> p < length es \<and> t = es ! p"
proof -
  let ?n = cache_set_hset_chunk
  let ?m = "(length es + ?n - 1) div ?n"
  let ?kvs = "\<lambda>i. map (\<lambda>(j, v). (dec_string (i * ?n + j), v)) (enumerate 0 (take ?n (drop (i * ?n) es)))"
  obtain i where i: "i < ?m" "f = cl_hset cl key (?kvs i)"
    using assms by (auto simp: hset_steps_def set_conv_nth nth_enumerate_eq js_chunks_nth)
  show thesis
  proof (rule that [OF i(2)])
    fix p t
    assume "map_of (rev (?kvs i)) (dec_string p) = Some t"
    then have "i * ?n \<le> p" "p < i * ?n + length (take ?n (drop (i * ?n) es))"
      "t = take ?n (drop (i * ?n) es) ! (p - i * ?n)"
      by (auto simp: chunk_fields split: if_splits)
    then show "p < length es \<and> t = es ! p" by simp
  qed
qed

lemma all_stored_hset:
  assumes "entry_laws cl" and "survives c ec st" and "all_stored cl c ec ref A s" and "A v st"
    and "f \<in> set (hset_steps cl (entries_key (version_keys ref v)) (map (entry_json ec) (set_entries st)))"
  shows "all_stored cl c ec ref A (f s)"
  unfolding all_stored_def
proof
  fix v'
  obtain kvs where f: "f = cl_hset cl (entries_key (version_keys ref v)) kvs"
    and kvs: "\<And>p t. map_of (rev kvs) (dec_string p) = Some t \<Longrightarrow>
      p < length (set_entries st) \<and> t = entry_json ec (set_entries st ! p)"
    by (rule hset_steps_field [OF assms(5)]) (metis length_map nth_map)
  have old: "set_stored cl c ec (version_keys ref v') (A v') s" using assms(3) by (simp add: all_stored_def)
  have b: "cl_get_buffer cl k (f s) = cl_get_buffer cl k s" for k by (simp add: f entry_laws_simps [OF assms(1)])
  show "set_stored cl c ec (version_keys ref v') (A v') (f s)"
  proof (cases "v' = v")
    case False
    then show ?thesis
      using b by (intro set_stored_forget [OF old]) (simp_all add: f entry_laws_simps [OF assms(1)] set_keys_inject entry_key_inject)
  next
    case True
    have "\<exists>st'. A v st' \<and> p < length (set_entries st') \<and> set_entries st' ! p = e"
      if t: "hash_field cl (entries_key (version_keys ref v)) (dec_string p) (f s) = Some t" "entry_parse ec t = Some e" for p t e
    proof (cases "map_of (rev kvs) (dec_string p) = Some t")
      case True
      then show ?thesis using kvs [OF True] t(2) assms(2,4) by (auto simp: survives_def)
    next
      case False
      then have "hash_field cl (entries_key (version_keys ref v)) (dec_string p) s = Some t"
        using entry_laws_simps(8) [OF assms(1), of "entries_key (version_keys ref v)" "dec_string p" kvs s] t(1) by (auto simp: f)
      then show ?thesis using old t(2) True by (auto simp: set_stored_def)
    qed
    then show ?thesis using True old b by (auto simp: set_stored_def)
  qed
qed

lemma all_stored_pipeline:
  assumes "entry_laws cl" and "wire_laws c" and "survives c ec st" and "0 < ttl" and "A v st"
    and "f \<in> set (set_pipeline cl (version_keys ref v) (encode c (set_index st)) (map (entry_json ec) (set_entries st)) ttl)"
    and "all_stored cl c ec ref A s"
  shows "all_stored cl c ec ref A (f s)"
  using assms(6) all_stored_set_ex [OF assms(1,2,7,5,3)] all_stored_del [OF assms(1,7)] all_stored_expire [OF assms(1,4,7)]
    all_stored_hset [OF assms(1,3,7,5)]
  by (auto simp: set_pipeline_def split: if_splits)

section \<open>What the commands leave alone\<close>

definition bystander :: "'s cache_client \<Rightarrow> ('s \<Rightarrow> 'd) \<Rightarrow> bool" where
  \<comment> \<open>a part of the world, such as the database, no command of the cache touches\<close>
  "bystander cl db \<longleftrightarrow>
     (\<forall>s k t. db (cl_set_nx cl k t s) = db s) \<and> (\<forall>s k. db (snd (cl_incr cl k s)) = db s)
     \<and> (\<forall>s k b ttl. db (cl_set_ex cl k b ttl s) = db s) \<and> (\<forall>s ks. db (cl_del cl ks s) = db s)
     \<and> (\<forall>s k kvs. db (cl_hset cl k kvs s) = db s) \<and> (\<forall>s k ttl. db (cl_expire cl k ttl s) = db s)"

definition cache_fine ::
  "'s cache_client \<Rightarrow> 'i wire \<Rightarrow> 'e entry_wire \<Rightarrow> cache_entry_ref \<Rightarrow> string \<Rightarrow> ('s \<Rightarrow> 'd)
    \<Rightarrow> (int \<Rightarrow> ('i, 'e) cache_indexed_set \<Rightarrow> bool) \<Rightarrow> (string option \<Rightarrow> 'd \<Rightarrow> bool) \<Rightarrow> 's \<Rightarrow> bool" where
  \<comment> \<open>only allowed sets are stored, and the counter stands to the database as \<open>P\<close> says\<close>
  "cache_fine cl c ec ref g db A P s \<longleftrightarrow> all_stored cl c ec ref A s \<and> P (cl_get cl (generation_key g) s) (db s)"

definition cache_setting ::
  "'s cache_client \<Rightarrow> cache_config \<Rightarrow> 'i wire \<Rightarrow> cache_entry_ref \<Rightarrow> ('s \<Rightarrow> 'd) \<Rightarrow> bool" where
  \<comment> \<open>the documented behaviour of everything the cache rests on\<close>
  "cache_setting cl cf c ref db \<longleftrightarrow>
     entry_laws cl \<and> counter_laws cl \<and> wire_laws c \<and> bystander cl db
     \<and> plain_scope ref \<and> 0 < cf_ttl_sec cf"

lemma cache_settingD:
  assumes "cache_setting cl cf c ref db"
  shows "entry_laws cl" "counter_laws cl" "wire_laws c" "bystander cl db" "plain_scope ref"
    "0 < cf_ttl_sec cf"
  using assms by (simp_all add: cache_setting_def)

lemma fine_del:
  assumes "cache_setting cl cf c ref db" and "cache_fine cl c ec ref g db A P s"
    and "set ks \<subseteq> {index_key (version_keys ref v), entries_key (version_keys ref v)}"
  shows "cache_fine cl c ec ref g db A P (cl_del cl ks s)"
proof -
  note laws = cache_settingD [OF assms(1)]
  have "generation_key g \<notin> set ks" using assms(3) generation_key_apart_set [OF laws(5)] by blast
  moreover have "db (cl_del cl ks s) = db s" using laws(4) by (simp add: bystander_def)
  moreover have "all_stored cl c ec ref A (cl_del cl ks s)"
    by (rule all_stored_del [OF laws(1)]) (use assms(2) in \<open>simp add: cache_fine_def\<close>)
  ultimately show ?thesis using assms(2) by (simp add: cache_fine_def counter_laws_simps [OF laws(2)])
qed

lemma fine_pipeline:
  assumes "cache_setting cl cf c ref db" and "cache_fine cl c ec ref g db A P s" and "A v st"
    and "f \<in> set (set_pipeline cl (version_keys ref v) (encode c (set_index st)) (map (entry_json ec) (set_entries st)) (cf_ttl_sec cf))" and "survives c ec st"
  shows "cache_fine cl c ec ref g db A P (f s)"
proof -
  note laws = cache_settingD [OF assms(1)]
  have "cl_get cl (generation_key g) (f s) = cl_get cl (generation_key g) s \<and> db (f s) = db s"
    using assms(4) laws(4) generation_key_apart_set [OF laws(5), of g v] hset_steps_field
    by (auto simp: set_pipeline_def counter_laws_simps [OF laws(2)] bystander_def split: if_splits elim!: hset_steps_field)
  moreover have "all_stored cl c ec ref A (f s)"
    by (rule all_stored_pipeline [where A = A, OF laws(1,3) assms(5) laws(6) assms(3,4)]) (use assms(2) in \<open>simp add: cache_fine_def\<close>)
  ultimately show ?thesis using assms(2) by (simp add: cache_fine_def)
qed

section \<open>The generation a read works under\<close>

lemma remember_projs [simp]:
  "store (snd (remember raw w)) = store w" "fates (snd (remember raw w)) = fates w" "pending (snd (remember raw w)) = pending w"
  "fst (remember raw w) = js_number raw"
  by (simp_all add: remember_def split: option.split)

lemma read_generation_kept:
  assumes "kept I w" and "\<And>t s. I s \<Longrightarrow> I (cl_set_nx cl (generation_key g) t s)"
  shows "kept I (snd (read_generation cl g w))"
    and "fst (read_generation cl g w) = Some v \<Longrightarrow>
      \<exists>raw. cl_get cl (generation_key g) (store (snd (read_generation cl g w))) = Some raw \<and> js_number raw = Some v"
proof -
  let ?key = "generation_key g" and ?op = "''generation read''"
  obtain r1 w1 where q1: "query ?op (cl_get cl ?key) w = (r1, w1)" by (metis prod.exhaust)
  define w2 where "w2 = act ''generation seed'' (cl_set_nx cl ?key (int_string (seed w1))) w1"
  obtain r2 w3 where q2: "query ?op (cl_get cl ?key) w2 = (r2, w3)" by (metis prod.exhaust)
  note k1 = query_kept [OF assms(1) q1]
  have k2: "kept I w2" unfolding w2_def by (intro act_kept k1(1) assms(2))
  note k3 = query_kept [OF k2 q2]
  have r: "read_generation cl g w =
      (case r1 of Some current \<Rightarrow> remember current w1
       | None \<Rightarrow> (case r2 of None \<Rightarrow> (None, w3) | Some seeded \<Rightarrow> remember seeded w3))"
    using q1 q2 by (simp add: read_generation_def Let_def w2_def split: option.split)
  show "kept I (snd (read_generation cl g w))"
    using k1(1) k3(1) by (auto simp: r kept_cong [of "snd (remember _ w1)" w1] kept_cong [of "snd (remember _ w3)" w3] split: option.split)
  show "\<exists>raw. cl_get cl ?key (store (snd (read_generation cl g w))) = Some raw \<and> js_number raw = Some v"
    if "fst (read_generation cl g w) = Some v"
    using that k1(2) k3(2) by (auto simp: r split: option.splits)
qed

lemma bump_kept:
  assumes "kept I w" and "\<And>s. I s \<Longrightarrow> I (snd (bump_commands cl (generation_key g) (int_string (seed w)) s))"
  shows "kept I (bump cl cf g reason w)"
proof -
  obtain r w1 where c: "command ''generation bump'' (bump_commands cl (generation_key g) (int_string (seed w))) w = (r, w1)"
    by (metis prod.exhaust)
  have "kept I w1" by (rule command_kept(1) [OF assms(1) _ c]) (rule assms(2))
  then show ?thesis using assms(1) c by (simp add: bump_def split: option.split)
qed

lemma usable_generation_kept:
  assumes "kept I w" and "\<And>t s. I s \<Longrightarrow> I (cl_set_nx cl (generation_key g) t s)"
    and "pending w = None \<or> (\<forall>s og t. I s \<longrightarrow> I (snd (bump_commands cl (generation_key og) t s)))"
    and "usable_generation cl cf g w = (version, w')"
  shows "kept I w'"
    and "version = Some v \<Longrightarrow> \<exists>raw. cl_get cl (generation_key g) (store w') = Some raw \<and> js_number raw = Some v"
proof -
  have "kept I w' \<and> (version = Some v \<longrightarrow> (\<exists>raw. cl_get cl (generation_key g) (store w') = Some raw \<and> js_number raw = Some v))"
  proof (cases "pending w")
    case None
    show ?thesis
      using assms(1,4) None read_generation_kept [OF assms(1,2)]
      by (auto simp: usable_generation_def split: if_splits)
  next
    case (Some p)
    obtain og reason where p: "p = (og, reason)" by fastforce
    have b: "kept I (bump cl cf og reason w)"
      by (rule bump_kept [OF assms(1)]) (use assms(3) Some in auto)
    show ?thesis
      using assms(1,4) Some p b read_generation_kept [OF b assms(2)]
      by (auto simp: usable_generation_def Let_def split: if_splits)
  qed
  then show "kept I w'"
    and "version = Some v \<Longrightarrow> \<exists>raw. cl_get cl (generation_key g) (store w') = Some raw \<and> js_number raw = Some v"
    by blast+
qed

section \<open>Reading a page\<close>

lemma read_entry_kept:
  assumes "kept I w" and "\<And>s. I s \<Longrightarrow> I (cl_del cl [key] s)" and "read_entry cl c key w = (r, w')"
  shows "kept I w'" and "r = Some v \<Longrightarrow> \<exists>b. I (store w') \<and> cl_get_buffer cl key (store w') = Some b \<and> decode c b = Some v"
proof -
  obtain q w1 where q: "query ''entry read'' (cl_get_buffer cl key) w = (q, w1)" by (metis prod.exhaust)
  note k = query_kept [OF assms(1) q]
  have d: "kept I (act ''entry drop'' (cl_del cl [key]) (w1\<lparr>errors := errors w1 + 1\<rparr>))"
    by (intro act_kept assms(2)) (simp_all add: k(1))
  show "kept I w'" using assms(3) q k(1) d by (auto simp: read_entry_def split: option.splits)
  have "I (store w1)" using k(1) by (simp add: kept_def)
  then show "\<exists>b. I (store w') \<and> cl_get_buffer cl key (store w') = Some b \<and> decode c b = Some v" if "r = Some v"
    using assms(3) that q k(2) by (auto simp: read_entry_def split: option.splits)
qed

lemma read_entries_kept:
  assumes "kept I w" and "entry_laws cl" and "read_entries cl ec key ps w = (r, w')"
  shows "kept I w'"
    and "r = Entries es \<Longrightarrow> \<exists>s. I s \<and>
      list_all2 (\<lambda>p e. \<exists>t. hash_field cl key (dec_string p) s = Some t \<and> entry_parse ec t = Some e) ps es"
proof -
  let ?fields = "map dec_string ps"
  obtain q w1 where q: "command ''entries read'' (\<lambda>s. (cl_hmget cl key ?fields s, s)) w = (q, w1)" by fastforce
  note k = command_kept [OF assms(1) _ q]
  have w1: "kept I w1" by (rule k(1)) simp
  show "kept I w'"
    using assms(1,3) q w1 by (auto simp: read_entries_def Let_def split: option.splits if_splits)
  show "\<exists>s. I s \<and> list_all2 (\<lambda>p e. \<exists>t. hash_field cl key (dec_string p) s = Some t \<and> entry_parse ec t = Some e) ps es"
    if r: "r = Entries es"
  proof (cases "ps = []")
    case True
    then show ?thesis using assms(1,3) r by (auto simp: read_entries_def kept_def)
  next
    case False
    then obtain raw where raw: "q = Some raw" "None \<notin> set raw" "None \<notin> set (map (entry_parse ec) (map the raw))"
      "es = map the (map (entry_parse ec) (map the raw))"
      using assms(3) r q by (auto simp: read_entries_def Let_def split: option.splits if_splits)
    obtain s where s: "I s" "raw = map (\<lambda>f. hash_field cl key f s) ?fields"
      using k(2) [OF _ raw(1)] by (auto simp: entry_laws_simps [OF assms(2)])
    have "\<exists>t. hash_field cl key (dec_string p) s = Some t \<and> entry_parse ec t = Some (the (entry_parse ec (the (hash_field cl key (dec_string p) s))))"
      if "p \<in> set ps" for p
    proof -
      have "hash_field cl key (dec_string p) s \<in> set raw" using that by (simp add: s(2))
      then obtain t where t: "hash_field cl key (dec_string p) s = Some t" using raw(2) by (metis not_None_eq)
      have "entry_parse ec t \<in> set (map (entry_parse ec) (map the raw))"
        using that t by (force simp: s(2))
      then show ?thesis using raw(3) t by (metis option.collapse option.sel)
    qed
    then have "list_all2 (\<lambda>p e. \<exists>t. hash_field cl key (dec_string p) s = Some t \<and> entry_parse ec t = Some e) ps es"
      by (auto simp: raw(4) s(2) list_all2_conv_all_nth)
    then show ?thesis using s(1) by blast
  qed
qed

section \<open>Answers\<close>

definition page_allowed ::
  "(('i, 'e) cache_indexed_set \<Rightarrow> bool) \<Rightarrow> ('i \<Rightarrow> 'x + cache_page_pick) \<Rightarrow> 'e cache_page \<Rightarrow> bool" where
  \<comment> \<open>the positions are picked from the index of an allowed set, each entry is an allowed set's at its position\<close>
  "page_allowed B pk pg \<longleftrightarrow>
     (\<exists>st p. B st \<and> pk (set_index st) = Inr p \<and> page_visible pg = pick_total p
        \<and> list_all2 (\<lambda>pos e. \<exists>st'. B st' \<and> e = js_nth (set_entries st') pos) (positions p) (page_entries pg))"

definition answer_allowed ::
  "(('i, 'e) cache_indexed_set \<Rightarrow> bool) \<Rightarrow> ('i \<Rightarrow> 'x + cache_page_pick) \<Rightarrow> 'x + 'e cache_page \<Rightarrow> bool" where
  "answer_allowed B pk r =
     (case r of Inl x \<Rightarrow> \<exists>st. B st \<and> pk (set_index st) = Inl x | Inr pg \<Rightarrow> page_allowed B pk pg)"

lemma page_allowed_mono: "page_allowed B pk pg \<Longrightarrow> (\<And>st. B st \<Longrightarrow> B' st) \<Longrightarrow> page_allowed B' pk pg"
  unfolding page_allowed_def by (blast intro: list_all2_mono)

lemma answer_allowed_mono: "answer_allowed B pk r \<Longrightarrow> (\<And>st. B st \<Longrightarrow> B' st) \<Longrightarrow> answer_allowed B' pk r"
  unfolding answer_allowed_def by (auto split: sum.splits intro: page_allowed_mono)

lemma pick_in_memory_allowed: "B st \<Longrightarrow> answer_allowed B pk (pick_in_memory st pk src)"
  by (auto simp: answer_allowed_def pick_in_memory_def page_allowed_def list_all2_conv_all_nth split: sum.split
      intro!: exI [of _ st])

lemma read_page_kept:
  assumes "cache_setting cl cf c ref db" and "kept (cache_fine cl c ec ref g db A P) w"
    and "read_page cl c ec (version_keys ref v) pk w = (r, w')"
  shows "kept (cache_fine cl c ec ref g db A P) w'"
    and "r = Inl x \<Longrightarrow> \<exists>st. A v st \<and> pk (set_index st) = Inl x"
    and "r = Inr (Some pg) \<Longrightarrow> page_allowed (A v) pk pg"
proof -
  let ?I = "cache_fine cl c ec ref g db A P" and ?ks = "version_keys ref v"
  note laws = cache_settingD [OF assms(1)]
  have del: "?I s \<Longrightarrow> set ks \<subseteq> {index_key ?ks, entries_key ?ks} \<Longrightarrow> ?I (cl_del cl ks s)" for ks s
    by (rule fine_del [OF assms(1)])
  have stored: "set_stored cl c ec ?ks (A v) s" if "?I s" for s
    using that by (simp add: cache_fine_def all_stored_def)
  obtain q w1 where q: "read_entry cl c (index_key ?ks) w = (q, w1)" by fastforce
  note k1 = read_entry_kept [OF assms(2) _ q]
  have w1: "kept ?I w1" by (rule k1(1)) (simp add: del)
  have "kept ?I w' \<and> (r = Inl x \<longrightarrow> (\<exists>st. A v st \<and> pk (set_index st) = Inl x))
      \<and> (r = Inr (Some pg) \<longrightarrow> page_allowed (A v) pk pg)" for x pg
  proof (cases q)
    case None
    then show ?thesis using assms(3) q w1 by (auto simp: read_page_def)
  next
    case (Some ix)
    obtain b where "?I (store w1)" "cl_get_buffer cl (index_key ?ks) (store w1) = Some b" "decode c b = Some ix"
      using k1(2) [OF _ Some] del by auto
    then obtain st where st: "A v st" "set_index st = ix" using stored unfolding set_stored_def by blast
    show ?thesis
    proof (cases "pk ix")
      case (Inl y)
      then show ?thesis using assms(3) q Some w1 st by (auto simp: read_page_def)
    next
      case (Inr p)
      obtain er w2 where er: "read_entries cl ec (entries_key ?ks) (positions p) w1 = (er, w2)" by fastforce
      note k2 = read_entries_kept [OF w1 laws(1) er]
      have drop: "kept ?I (act ''set drop'' (cl_del cl [index_key ?ks, entries_key ?ks]) w2)"
        by (intro act_kept k2(1) del) simp_all
      show ?thesis
      proof (cases er)
        case (Entries es)
        obtain s where s: "?I s" "list_all2 (\<lambda>p e. \<exists>t. hash_field cl (entries_key ?ks) (dec_string p) s = Some t \<and>
            entry_parse ec t = Some e) (positions p) es"
          using k2(2) [OF Entries] by blast
        have "\<exists>st'. A v st' \<and> Some e = js_nth (set_entries st') pos"
          if "\<exists>t. hash_field cl (entries_key ?ks) (dec_string pos) s = Some t \<and> entry_parse ec t = Some e" for pos e
          using that stored [OF s(1)] unfolding set_stored_def js_nth_def by (metis (no_types))
        then have "list_all2 (\<lambda>pos e. \<exists>st'. A v st' \<and> e = js_nth (set_entries st') pos) (positions p) (map Some es)"
          using s(2) by (auto simp: list_all2_conv_all_nth)
        then have "page_allowed (A v) pk \<lparr>page_entries = map Some es, page_visible = pick_total p, page_from = Hit\<rparr>"
          using st Inr by (auto simp: page_allowed_def)
        then show ?thesis using assms(3) q Some Inr er Entries k2(1) by (auto simp: read_page_def)
      qed (use assms(3) q Some Inr er drop k2(1) in \<open>auto simp: read_page_def\<close>)
    qed
  qed
  then show "kept ?I w'" "r = Inl x \<Longrightarrow> \<exists>st. A v st \<and> pk (set_index st) = Inl x"
    "r = Inr (Some pg) \<Longrightarrow> page_allowed (A v) pk pg" by blast+
qed

section \<open>A read uses up fates and adds none\<close>

lemma command_fates: "set (fates (snd (command op run w))) \<subseteq> set (fates w)"
  by (auto simp: command_def next_fate_def Let_def split: list.splits prod.splits option.splits)

lemma query_fates: "set (fates (snd (query op get w))) \<subseteq> set (fates w)"
  using command_fates [of op "\<lambda>s. (get s, s)" w] by (auto simp: query_def split: prod.splits option.splits)

lemma act_fates: "set (fates (act op f w)) \<subseteq> set (fates w)"
  unfolding act_def by (rule command_fates)

lemma read_generation_fates: "set (fates (snd (read_generation cl g w))) \<subseteq> set (fates w)"
proof -
  let ?q = "query ''generation read'' (cl_get cl (generation_key g))"
  let ?w2 = "act ''generation seed'' (cl_set_nx cl (generation_key g) (int_string (seed (snd (?q w))))) (snd (?q w))"
  have "set (fates (snd (?q w))) \<subseteq> set (fates w)" "set (fates (snd (?q ?w2))) \<subseteq> set (fates w)"
    using query_fates [of "''generation read''" "cl_get cl (generation_key g)"] act_fates by (blast | meson subset_trans)+
  then show ?thesis by (auto simp: read_generation_def Let_def split: prod.splits option.splits)
qed

lemma bump_fates: "set (fates (bump cl cf g reason w)) \<subseteq> set (fates w)"
  using command_fates [of "''generation bump''" "bump_commands cl (generation_key g) (int_string (seed w))" w]
  by (auto simp: bump_def split: prod.splits option.splits)

lemma usable_generation_fates: "set (fates (snd (usable_generation cl cf g w))) \<subseteq> set (fates w)"
proof -
  have "set (fates (snd (read_generation cl g (bump cl cf og reason w)))) \<subseteq> set (fates w)" for og reason
    using read_generation_fates bump_fates by (rule subset_trans)
  then show ?thesis
    using read_generation_fates [of cl g w] bump_fates [of cl cf _ _ w]
    by (cases "pending w") (simp_all add: usable_generation_def Let_def case_prod_unfold)
qed

section \<open>What a page read answers\<close>

lemma write_set_kept:
  assumes "cache_setting cl cf c ref db" and "kept (cache_fine cl c ec ref g db A P) w" and "A v st" and "survives c ec st"
  shows "kept (cache_fine cl c ec ref g db A P) (write_set cl cf c ec (version_keys ref v) st w)"
proof -
  let ?fs = "set_pipeline cl (version_keys ref v) (encode c (set_index st)) (map (entry_json ec) (set_entries st)) (cf_ttl_sec cf)"
  have "kept (cache_fine cl c ec ref g db A P) (act_all ''set write'' ?fs w)"
    by (intro act_all_kept assms(2) ballI allI impI) (rule fine_pipeline [where A = A and v = v and st = st, OF assms(1) _ assms(3) _ assms(4)])
  then show ?thesis using assms(2) by (simp add: write_set_def Let_def)
qed

lemma kept_conj:
  assumes "kept I w" and "J (store w)" and "\<forall>(fault, elapsed, others)\<in>set (fates w). \<forall>s. J s \<longrightarrow> J (others s)"
  shows "kept (\<lambda>s. I s \<and> J s) w"
  using assms by (fastforce simp: kept_def)

lemma get_page_kept:
  fixes build :: "'d \<Rightarrow> ('i, 'e) cache_indexed_set"
  assumes setting: "cache_setting cl cf c ref db"
    and ok: "kept (cache_fine cl c ec ref g db A P) w"
    and counter: "pending w = None \<and> (\<forall>x d. P x d \<longrightarrow> x \<noteq> None) \<or> (\<forall>x y d. P x d \<longrightarrow> P y d)"
    and under: "\<And>raw v d. P (Some raw) d \<Longrightarrow> js_number raw = Some v \<Longrightarrow> Q v d"
    and rely: "\<And>v. \<forall>(fault, elapsed, others)\<in>set (fates w). \<forall>s. Q v (db s) \<longrightarrow> Q v (db (others s))"
    and allowed: "\<And>v d. Q v d \<Longrightarrow> A v (build d)"
    and survive: "\<And>d. survives c ec (build d)"
    and bypassed: "\<And>x d. P x d \<Longrightarrow> B (build d)"
    and hit: "\<And>x d raw v st. P (Some raw) d \<Longrightarrow> js_number raw = Some v \<Longrightarrow> A v st \<Longrightarrow> B st"
    and run: "get_page cl cf c ec ref g (\<lambda>w. (Inr (build (db (store w))), w)) pk w = (r, w')"
  shows "answer_allowed B pk r" and "kept (cache_fine cl c ec ref g db A P) w'"
proof -
  let ?I = "cache_fine cl c ec ref g db A P"
  let ?load = "\<lambda>w. (Inr (build (db (store w))), w)"
  note laws = cache_settingD [OF setting]
  have nx: "?I (cl_set_nx cl (generation_key g) t s)" if "?I s" for t s
  proof -
    have "all_stored cl c ec ref A (cl_set_nx cl (generation_key g) t s)"
      by (rule all_stored_counter(1) [OF laws(2,5)]) (use that in \<open>simp add: cache_fine_def\<close>)
    moreover have "P (cl_get cl (generation_key g) (cl_set_nx cl (generation_key g) t s)) (db s)"
    proof (cases "\<forall>x d. P x d \<longrightarrow> x \<noteq> None")
      case True
      have pr: "P (cl_get cl (generation_key g) s) (db s)" using that by (simp add: cache_fine_def)
      then have "cl_get cl (generation_key g) s \<noteq> None" by (rule True [rule_format])
      then obtain raw where "cl_get cl (generation_key g) s = Some raw" by blast
      then show ?thesis using pr by (simp add: counter_laws_simps(9) [OF laws(2)])
    next
      case False
      then have "\<forall>x y d. P x d \<longrightarrow> P y d" using counter by blast
      then show ?thesis using that unfolding cache_fine_def by blast
    qed
    ultimately show ?thesis using laws(4) by (simp add: cache_fine_def bystander_def)
  qed
  have bumps: "pending w = None \<or> (\<forall>s og t. ?I s \<longrightarrow> ?I (snd (bump_commands cl (generation_key og) t s)))"
  proof (cases "pending w = None")
    case False
    then have "\<forall>x y d. P x d \<longrightarrow> P y d" using counter by iprover
    then have "?I (snd (bump_commands cl (generation_key og) t s))" if "?I s" for s og t
    proof -
      have st: "all_stored cl c ec ref A s" and p: "P (cl_get cl (generation_key g) s) (db s)"
        using that by (simp_all add: cache_fine_def)
      have "all_stored cl c ec ref A (snd (bump_commands cl (generation_key og) t s))"
        unfolding bump_commands_def by (intro all_stored_counter [OF laws(2,5)] st)
      moreover have "db (snd (bump_commands cl (generation_key og) t s)) = db s"
        using laws(4) by (simp add: bump_commands_def bystander_def)
      moreover have "P y (db s)" for y using p \<open>\<forall>x y d. P x d \<longrightarrow> P y d\<close> by blast
      ultimately show ?thesis by (simp add: cache_fine_def)
    qed
    then show ?thesis by blast
  qed simp
  obtain version w1 where u: "usable_generation cl cf g w = (version, w1)" by fastforce
  note k1 = usable_generation_kept [OF ok nx bumps u]
  have i1: "?I (store w1)" using k1(1) by (simp add: kept_def)
  show "answer_allowed B pk r" "kept ?I w'"
  proof -
    have "answer_allowed B pk r \<and> kept ?I w'"
    proof (cases version)
      case None
      have "B (build (db (store w1)))" using i1 bypassed by (auto simp: cache_fine_def)
      then show ?thesis
        using run u None k1(1) pick_in_memory_allowed [of B _ pk Bypass] by (auto simp: get_page_def)
    next
      case (Some v)
      obtain raw where raw: "cl_get cl (generation_key g) (store w1) = Some raw" "js_number raw = Some v"
        using k1(2) Some by blast
      have p1: "P (Some raw) (db (store w1))" using i1 raw by (simp add: cache_fine_def)
      have B: "A v st \<Longrightarrow> B st" for st by (rule hit [OF p1 raw(2)])
      let ?P' = "\<lambda>x d. P x d \<and> Q v d"
      have fine': "cache_fine cl c ec ref g db A ?P' = (\<lambda>s. ?I s \<and> Q v (db s))" by (auto simp: cache_fine_def)
      have sub: "set (fates w1) \<subseteq> set (fates w)" using usable_generation_fates [of cl cf g w] u by simp
      have "\<forall>(fault, elapsed, others)\<in>set (fates w1). \<forall>s. Q v (db s) \<longrightarrow> Q v (db (others s))"
        by (rule ballI) (rule bspec [OF rely [of v] subsetD [OF sub]])
      then have k: "kept (cache_fine cl c ec ref g db A ?P') w1"
        unfolding fine' using k1(1) under [OF p1 raw(2)] by (intro kept_conj)
      obtain pr w2 where rp: "read_page cl c ec (version_keys ref v) pk w1 = (pr, w2)" by fastforce
      note k2 = read_page_kept [OF setting k rp]
      note keep = read_page_kept(1) [OF setting k1(1) rp]
      have "Q v (db (store w2))" using k2(1) by (simp add: kept_def cache_fine_def)
      then have a: "A v (build (db (store w2)))" by (rule allowed)
      have w: "kept ?I (write_set cl cf c ec (version_keys ref v) (build (db (store w2))) (w2\<lparr>misses := misses w2 + 1\<rparr>))"
        by (rule write_set_kept [where A = A, OF setting _ a survive]) (simp add: keep)
      show ?thesis
      proof (cases pr)
        case (Inl x)
        then obtain st where "A v st" "pk (set_index st) = Inl x" using k2(2) by blast
        then have "answer_allowed B pk (Inl x)" using B by (auto simp: answer_allowed_def)
        then show ?thesis using run u Some rp Inl keep by (auto simp: get_page_def)
      next
        case (Inr found)
        show ?thesis
        proof (cases found)
          case None
          then show ?thesis
            using run u Some rp Inr w B [OF a] pick_in_memory_allowed [of B _ pk Miss] by (auto simp: get_page_def Let_def)
        next
          case hit: (Some pg)
          then have "page_allowed B pk pg" using k2(3) Inr B by (blast intro: page_allowed_mono)
          then show ?thesis using run u Some rp Inr hit keep by (auto simp: get_page_def Let_def answer_allowed_def)
        qed
      qed
    qed
    then show "answer_allowed B pk r" "kept ?I w'" by blast+
  qed
qed

end
