(* ===== verification/Cache_Theorems.thy ===== *)
theory Cache_Theorems
  imports Cache_Page_Facts
begin

text \<open>
  The cache's promises as its callers see them: a cached page is the page, it is at least as new as
  the last bump, a stored set is read back without the loader, and what a failed bump does and does
  not protect.  \<open>shelf\<close> is a store that satisfies the command laws, for the theorems at a concrete input.
\<close>

section \<open>Commands that do not fail\<close>

lemma command_calm:
  assumes "fates w = []" and "run (store w) = (r, s')"
  shows "command op run w = (Some r, w\<lparr>store := s'\<rparr>)"
  using assms by (simp add: command_def next_fate_def Let_def cache_slow_command_ms_def)

lemma query_calm: "fates w = [] \<Longrightarrow> query op get w = (get (store w), w)"
  by (simp add: query_def command_calm)

lemma act_calm: "fates w = [] \<Longrightarrow> act op f w = w\<lparr>store := f (store w)\<rparr>"
  by (simp add: act_def command_calm)

lemma pipeline_calm: "fates w = [] \<Longrightarrow> pipeline_run fs w = ((True, 0), w\<lparr>store := foldl (\<lambda>s f. f s) (store w) fs\<rparr>)"
proof (induction fs arbitrary: w)
  case (Cons f fs)
  then show ?case using Cons.IH [of "w\<lparr>store := f (store w)\<rparr>"] by (simp add: next_fate_def Let_def)
qed simp

lemma act_all_calm: "fates w = [] \<Longrightarrow> act_all op fs w = w\<lparr>store := foldl (\<lambda>s f. f s) (store w) fs\<rparr>"
  by (simp add: act_all_def pipeline_calm cache_slow_command_ms_def)

lemma usable_generation_calm:
  assumes "fates w = []" "pending w = None" "cf_enabled cf"
    and "cl_get cl (generation_key g) (store w) = Some raw" "js_number raw = Some v"
  shows "usable_generation cl cf g w = (Some v, w\<lparr>generation := Some v\<rparr>)"
  using assms by (simp add: usable_generation_def read_generation_def query_calm remember_def Let_def)

section \<open>The stored fields\<close>

lemma foldl_hset_steps:
  assumes "entry_laws cl" and "cl_get_buffer cl key s = None" and "0 < n"
  shows "hash_field cl key (dec_string p) (foldl (\<lambda>s f. f s) s (map (\<lambda>(i, chunk). cl_hset cl key
      (map (\<lambda>(j, v). (dec_string (i * n + j), v)) (enumerate 0 chunk))) (enumerate i0 (js_chunks m n es))))
    = (if i0 * n \<le> p \<and> p < i0 * n + min (m * n) (length es) then Some (es ! (p - i0 * n))
       else hash_field cl key (dec_string p) s)"
  using assms(2)
proof (induction m arbitrary: i0 es s)
  case 0
  then show ?case by auto
next
  case (Suc m)
  let ?s1 = "cl_hset cl key (map (\<lambda>(j, v). (dec_string (i0 * n + j), v)) (enumerate 0 (take n es))) s"
  have b: "cl_get_buffer cl key ?s1 = None" using Suc.prems by (simp add: entry_laws_simps [OF assms(1)])
  have s1: "hash_field cl key (dec_string p) ?s1 =
      (if i0 * n \<le> p \<and> p < i0 * n + min (length es) n then Some (es ! (p - i0 * n)) else hash_field cl key (dec_string p) s)"
    using chunk_fields [of "i0 * n" 0 "take n es" p] by (auto simp: entry_laws_simps(9) [OF assms(1) Suc.prems])
  have "Suc i0 * n \<le> p \<Longrightarrow> p < Suc i0 * n + min (m * n) (length (drop n es)) \<Longrightarrow>
      drop n es ! (p - Suc i0 * n) = es ! (p - i0 * n)"
    by (subst nth_drop) (auto simp: algebra_simps)
  then show ?case
    using assms(3) by (simp add: Suc.IH [OF b] s1) (auto simp: min_def algebra_simps not_less not_le split: if_splits)
qed

lemma hset_steps_buffer:
  "entry_laws cl \<Longrightarrow> cl_get_buffer cl k (foldl (\<lambda>s f. f s) s (hset_steps cl key es)) = cl_get_buffer cl k s"
proof -
  assume laws: "entry_laws cl"
  have "cl_get_buffer cl k (foldl (\<lambda>s f. f s) s (map (\<lambda>x. cl_hset cl key (h x)) xs)) = cl_get_buffer cl k s"
    for h and xs :: "(nat \<times> string list) list"
    by (induction xs arbitrary: s) (simp_all add: entry_laws_simps [OF laws])
  then show ?thesis by (simp add: hset_steps_def case_prod_unfold)
qed

lemma pipeline_stored:
  assumes "entry_laws cl" and "0 < ttl" and "index_key ks \<noteq> entries_key ks"
    and s'_def: "s' = foldl (\<lambda>s f. f s) s (set_pipeline cl ks ix es ttl)"
  shows "cl_get_buffer cl (index_key ks) s' = Some ix"
    and "p < length es \<Longrightarrow> hash_field cl (entries_key ks) (dec_string p) s' = Some (es ! p)"
proof -
  note laws = entry_laws_simps [OF assms(1)]
  let ?s2 = "cl_del cl [entries_key ks] (cl_set_ex cl (index_key ks) ix ttl s)"
  let ?s3 = "foldl (\<lambda>s f. f s) ?s2 (hset_steps cl (entries_key ks) es)"
  have s': "s' = (if es \<noteq> [] then cl_expire cl (entries_key ks) ttl ?s3 else ?s3)"
    by (simp add: s'_def set_pipeline_def)
  have b3: "cl_get_buffer cl k ?s3 = cl_get_buffer cl k ?s2" for k by (rule hset_steps_buffer [OF assms(1)])
  show "cl_get_buffer cl (index_key ks) s' = Some ix"
    using assms(2,3) b3 by (cases "es = []") (simp_all add: s' laws)
  have b2: "cl_get_buffer cl (entries_key ks) ?s2 = None" by (simp add: laws)
  let ?n = cache_set_hset_chunk
  have n: "0 < ?n" by (simp add: cache_set_hset_chunk_def)
  have "length es \<le> (length es + ?n - 1) div ?n * ?n"
    using n by (simp add: cache_set_hset_chunk_def)
  then show "hash_field cl (entries_key ks) (dec_string p) s' = Some (es ! p)" if "p < length es"
    using that assms(2) foldl_hset_steps [OF assms(1) b2 n, of p 0]
    by (cases "es = []") (simp_all add: s' laws hset_steps_def)
qed

section \<open>A cached page is the page\<close>

lemma allowed_only:
  assumes "answer_allowed (\<lambda>s. s = st) pk r"
  shows "\<exists>src. r = pick_in_memory st pk src"
proof (cases r)
  case (Inl x)
  then show ?thesis using assms by (auto simp: answer_allowed_def pick_in_memory_def)
next
  case (Inr pg)
  then obtain p where p: "pk (set_index st) = Inr p" "page_visible pg = pick_total p"
    "list_all2 (\<lambda>pos e. e = js_nth (set_entries st) pos) (positions p) (page_entries pg)"
    using assms by (auto simp: answer_allowed_def page_allowed_def)
  have "page_entries pg = map (js_nth (set_entries st)) (positions p)"
    using p(3) by (induction rule: list_all2_induct) simp_all
  then have "r = pick_in_memory st pk (page_from pg)" using Inr p by (simp add: pick_in_memory_def)
  then show ?thesis ..
qed

lemma kept_all_stored: "kept (all_stored cl c ec ref A) = kept (cache_fine cl c ec ref g (\<lambda>_. ()) A (\<lambda>_ _. True))"
  by (rule arg_cong [of _ _ kept]) (simp add: fun_eq_iff cache_fine_def)

lemma cached_page_transparent:
  assumes "cache_setting cl cf c ref (\<lambda>_. ())" and "survives c ec st"
    and "kept (all_stored cl c ec ref (\<lambda>v s. s = st)) w"
    and "get_page cl cf c ec ref g (\<lambda>w. (Inr st, w)) pk w = (r, w')"
  shows "(\<exists>src. r = pick_in_memory st pk src) \<and> kept (all_stored cl c ec ref (\<lambda>v s. s = st)) w'"
proof -
  have ok: "kept (cache_fine cl c ec ref g (\<lambda>_. ()) (\<lambda>v s. s = st) (\<lambda>_ _. True)) w"
    using assms(3) unfolding kept_all_stored [of cl c ec ref _ g] .
  have "answer_allowed (\<lambda>s. s = st) pk r \<and> kept (cache_fine cl c ec ref g (\<lambda>_. ()) (\<lambda>v s. s = st) (\<lambda>_ _. True)) w'"
    by (intro conjI; rule get_page_kept [where Q = "\<lambda>_ _. True" and build = "\<lambda>_. st", OF assms(1) ok];
        use assms(2,4) in simp)
  then show ?thesis unfolding kept_all_stored [of cl c ec ref _ g] by (blast dest: allowed_only)
qed

text \<open>
  C28: the cache is transparent.  While the set behind a reference stays the same, a page served
  through the cache has exactly the entries and the total the set itself gives for the request:
  whether it is found, built or bypassed, whichever commands fail or lose their answers, with a bump
  outstanding or not, and whatever is evicted, damaged beyond decoding or written by others in
  between.  The store is left as honest as it was, so this holds of every later read too.
\<close>

theorem cached_page_is_the_page:
  assumes "cache_setting cl cf c ref (\<lambda>_. ())" and "survives c ec st"
    and "kept (all_stored cl c ec ref (\<lambda>v s. s = st)) w"
    and "get_page cl cf c ec ref g (\<lambda>w. (Inr st, w)) pk w = (r, w')"
  shows "(\<exists>src. r = pick_in_memory st pk src) \<and> kept (all_stored cl c ec ref (\<lambda>v s. s = st)) w'"
  using assms by (rule cached_page_transparent)

section \<open>No older than the last bump\<close>

definition counter_covers :: "'s cache_client \<Rightarrow> string \<Rightarrow> (int \<Rightarrow> nat) \<Rightarrow> nat \<Rightarrow> ('s \<Rightarrow> nat) \<Rightarrow> 's \<Rightarrow> bool" where
  \<comment> \<open>the counter stands at a generation that covers the first \<open>n\<close> commits, and covers none that has not happened\<close>
  "counter_covers cl g covered n commits s \<longleftrightarrow>
     (case cl_get cl (generation_key g) s of
        None \<Rightarrow> False
      | Some raw \<Rightarrow> (case js_number raw of None \<Rightarrow> False | Some v \<Rightarrow> n \<le> covered v \<and> covered v \<le> commits s))"

definition fresh_stored ::
  "'s cache_client \<Rightarrow> 'i wire \<Rightarrow> 'e entry_wire \<Rightarrow> cache_entry_ref \<Rightarrow> string \<Rightarrow> (int \<Rightarrow> nat) \<Rightarrow> nat \<Rightarrow> ('s \<Rightarrow> nat)
    \<Rightarrow> (nat \<Rightarrow> ('i, 'e) cache_indexed_set) \<Rightarrow> 's \<Rightarrow> bool" where
  \<comment> \<open>under each generation, only what was built from the commits it covers or later ones\<close>
  "fresh_stored cl c ec ref g covered n commits catalogue s \<longleftrightarrow>
     all_stored cl c ec ref (\<lambda>v st. \<exists>m\<ge>covered v. st = catalogue m) s \<and> counter_covers cl g covered n commits s"


section \<open>A store to apply the theorems at\<close>

datatype cell = Text string | Blob bytes | Hash "string \<Rightarrow> string option"

record shelf =
  cells :: "string \<Rightarrow> cell option"
  commit_count :: nat

definition shelf_incr :: "string \<Rightarrow> shelf \<Rightarrow> (string + int) \<times> shelf" where
  "shelf_incr k s =
     (let put = (\<lambda>n. (Inr n, s\<lparr>cells := (cells s)(k \<mapsto> Text (int_string n))\<rparr>))
      in case cells s k of
           None \<Rightarrow> put 1
         | Some (Text t) \<Rightarrow> (case js_number t of None \<Rightarrow> (Inl ''ERR'', s) | Some n \<Rightarrow> put (n + 1))
         | Some _ \<Rightarrow> (Inl ''WRONGTYPE'', s))"

definition shelf_client :: "shelf cache_client" where
  "shelf_client =
     \<lparr>cl_get = (\<lambda>k s. case cells s k of Some (Text t) \<Rightarrow> Some t | _ \<Rightarrow> None),
      cl_get_buffer = (\<lambda>k s. case cells s k of
          Some (Blob b) \<Rightarrow> Some b | Some (Text t) \<Rightarrow> Some (map of_char t) | _ \<Rightarrow> None),
      cl_set_nx = (\<lambda>k t s. case cells s k of None \<Rightarrow> s\<lparr>cells := (cells s)(k \<mapsto> Text t)\<rparr> | Some _ \<Rightarrow> s),
      cl_incr = shelf_incr,
      cl_set_ex = (\<lambda>k b ttl s. s\<lparr>cells := (cells s)(k \<mapsto> Blob b)\<rparr>),
      cl_del = (\<lambda>ks s. s\<lparr>cells := (\<lambda>k. if k \<in> set ks then None else cells s k)\<rparr>),
      cl_hset = (\<lambda>k kvs s. case cells s k of
          None \<Rightarrow> s\<lparr>cells := (cells s)(k \<mapsto> Hash (map_of (rev kvs)))\<rparr>
        | Some (Hash h) \<Rightarrow> s\<lparr>cells := (cells s)(k \<mapsto> Hash (h ++ map_of (rev kvs)))\<rparr>
        | Some _ \<Rightarrow> s),
      cl_expire = (\<lambda>k ttl s. s),
      cl_hmget = (\<lambda>k fs s. case cells s k of Some (Hash h) \<Rightarrow> map h fs | _ \<Rightarrow> map (\<lambda>_. None) fs)\<rparr>"

lemma shelf_hash_field: "hash_field shelf_client k f s = (case cells s k of Some (Hash h) \<Rightarrow> h f | _ \<Rightarrow> None)"
  by (simp add: hash_field_def shelf_client_def split: option.split cell.split)

lemma shelf_entry_laws: "entry_laws shelf_client"
  unfolding entry_laws_def shelf_hash_field
  by (intro conjI allI impI) (auto simp: shelf_client_def map_add_def split: option.split cell.split)

lemma shelf_counter_laws: "counter_laws shelf_client"
  unfolding counter_laws_def shelf_hash_field
  by (intro conjI allI impI)
    (auto simp: shelf_client_def shelf_incr_def Let_def split: option.split cell.split option.splits cell.splits)

lemma shelf_bystander: "bystander shelf_client (\<lambda>_. ())" "bystander shelf_client commit_count"
  by (auto simp: bystander_def shelf_client_def shelf_incr_def Let_def split: option.split cell.split)

definition unary_wire :: "nat wire" where
  \<comment> \<open>a number as so many bytes, under a gzip that only adds its header\<close>
  "unary_wire =
     \<lparr>to_json = (\<lambda>n. replicate n 0x61), of_json = (\<lambda>b. Some (length b)),
      gzip = (\<lambda>b. [0x1f, 0x8b, 0x08] @ b),
      gunzip = (\<lambda>b. Some (drop 3 b))\<rparr>"

definition digit_wire :: "nat entry_wire" where
  "digit_wire = \<lparr>entry_json = dec_string, entry_parse = (\<lambda>t. Some (digits_value t)), utf8_length = length\<rparr>"

lemma unary_wire_laws: "wire_laws unary_wire"
  by (auto simp: wire_laws_def unary_wire_def is_compressed_def gzip_magic_def js_nth_def)

lemma number_survives: "survives unary_wire digit_wire st"
  by (simp add: survives_def unary_wire_def digit_wire_def digits_value_dec_string)

definition demo_cache_config :: cache_config where
  "demo_cache_config =
     \<lparr>cf_enabled = True, cf_boot_bump = True, cf_ttl_sec = 600, cf_max_entry_bytes = 1000, cf_max_set_bytes = 1000\<rparr>"

definition demo_ref :: cache_entry_ref where "demo_ref = \<lparr>ref_scope = ''report'', ref_suffix = ''abc''\<rparr>"

lemma demo_setting:
  "cache_setting shelf_client demo_cache_config unary_wire demo_ref (\<lambda>_. ())"
  "cache_setting shelf_client demo_cache_config unary_wire demo_ref commit_count"
  by (simp_all add: cache_setting_def shelf_entry_laws shelf_counter_laws unary_wire_laws shelf_bystander
      plain_scope_def demo_ref_def demo_cache_config_def)

definition demo_shelf :: shelf where
  "demo_shelf = \<lparr>cells = [generation_key ''catalogue'' \<mapsto> Text ''5''], commit_count = 1\<rparr>"

definition demo_cache_world :: "(fault \<times> nat \<times> (shelf \<Rightarrow> shelf)) list \<Rightarrow> shelf cache_world" where
  "demo_cache_world fs =
     \<lparr>store = demo_shelf, clock = 1000000, fates = fs, hits = 0, misses = 0, errors = 0, bypasses = 0,
      generation = None, last_bump_at = None, pending = None, slow_samples = [], slow_since = None, slow_summaries = []\<rparr>"

definition demo_catalogue :: "nat \<Rightarrow> (nat, nat) cache_indexed_set" where
  "demo_catalogue m = \<lparr>set_index = m, set_entries = [m, 7]\<rparr>"

definition demo_pick :: "nat \<Rightarrow> string + cache_page_pick" where
  "demo_pick n = Inr \<lparr>positions = [1, 0], pick_total = n\<rparr>"

lemma shelf_empty:
  assumes "plain_scope ref"
  shows "all_stored shelf_client c ec ref A demo_shelf"
proof -
  have "cells demo_shelf (index_key (version_keys ref v)) = None \<and> cells demo_shelf (entries_key (version_keys ref v)) = None" for v
    using generation_key_apart_set [OF assms, of "''catalogue''" v] by (auto simp: demo_shelf_def)
  then show ?thesis by (simp add: all_stored_def set_stored_def shelf_hash_field) (simp add: shelf_client_def)
qed

lemma demo_shelf_empty: "all_stored shelf_client c ec demo_ref A demo_shelf"
  by (rule shelf_empty) (simp add: plain_scope_def demo_ref_def)

lemma js_number_dec_string: "js_number (dec_string n) = Some (int n)"
proof -
  have d: "list_all is_digit (dec_string n)" for n
  proof (induction n rule: less_induct)
    case (less n)
    show ?case using less.IH [of "n div 10"] by (subst dec_string.simps) (auto simp: is_digit_char)
  qed
  have "dec_string n \<noteq> []" by (subst dec_string.simps) simp
  then show ?thesis using d by (simp add: js_number_def digits_value_dec_string)
qed

definition demo_writer :: "shelf \<Rightarrow> shelf" where
  \<comment> \<open>another process commits and bumps\<close>
  "demo_writer s = snd (shelf_incr (generation_key ''catalogue'') (s\<lparr>commit_count := commit_count s + 1\<rparr>))"

definition demo_evict :: "shelf \<Rightarrow> shelf" where "demo_evict s = s\<lparr>cells := (\<lambda>_. None)\<rparr>"

lemma all_stored_cells: "cells s' = cells s \<Longrightarrow> all_stored shelf_client c ec ref A s' = all_stored shelf_client c ec ref A s"
  by (simp add: all_stored_def set_stored_def shelf_hash_field) (simp add: shelf_client_def)

lemma demo_evict_stored: "all_stored shelf_client c ec ref A (demo_evict s)"
  by (simp add: all_stored_def set_stored_def shelf_hash_field demo_evict_def) (simp add: shelf_client_def)

lemma demo_writer_fresh:
  assumes "fresh_stored shelf_client c ec demo_ref ''catalogue'' (\<lambda>v. nat (v - 4)) 1 commit_count catalogue s"
  shows "fresh_stored shelf_client c ec demo_ref ''catalogue'' (\<lambda>v. nat (v - 4)) 1 commit_count catalogue (demo_writer s)"
proof -
  let ?k = "generation_key ''catalogue''"
  obtain raw v where raw: "cl_get shelf_client ?k s = Some raw" "js_number raw = Some v" "1 \<le> nat (v - 4)" "nat (v - 4) \<le> commit_count s"
    using assms by (auto simp: fresh_stored_def counter_covers_def split: option.splits)
  have cell: "cells s ?k = Some (Text raw)"
    using raw(1) by (auto simp: shelf_client_def split: option.splits cell.splits)
  have v: "int_string (v + 1) = dec_string (nat (v + 1))" using raw(3) by (simp add: int_string_def)
  have covered: "nat (v - 3) = Suc (nat (v - 4))" using raw(3) by simp
  have writer: "demo_writer s = s\<lparr>commit_count := commit_count s + 1, cells := (cells s)(?k \<mapsto> Text (int_string (v + 1)))\<rparr>"
    using cell raw(2) by (simp add: demo_writer_def shelf_incr_def Let_def)
  let ?A = "\<lambda>v st. \<exists>m\<ge>nat (v - 4). st = catalogue m"
  have old: "all_stored shelf_client c ec demo_ref ?A s" using assms by (simp add: fresh_stored_def)
  have "all_stored shelf_client c ec demo_ref ?A (s\<lparr>commit_count := commit_count s + 1\<rparr>)"
    by (subst all_stored_cells [of _ s]) (simp, rule old)
  moreover have "plain_scope demo_ref" by (simp add: plain_scope_def demo_ref_def)
  ultimately have "all_stored shelf_client c ec demo_ref ?A
      (snd (cl_incr shelf_client ?k (s\<lparr>commit_count := commit_count s + 1\<rparr>)))"
    by (rule all_stored_counter(2) [OF shelf_counter_laws, rotated])
  then have st: "all_stored shelf_client c ec demo_ref (\<lambda>v st. \<exists>m\<ge>nat (v - 4). st = catalogue m) (demo_writer s)"
    by (simp add: demo_writer_def shelf_client_def)
  have "counter_covers shelf_client ''catalogue'' (\<lambda>v. nat (v - 4)) 1 commit_count (demo_writer s)"
    using raw(3,4) covered unfolding writer v
    by (simp add: counter_covers_def shelf_client_def js_number_dec_string)
  then show ?thesis using st by (simp add: fresh_stored_def)
qed

text \<open>A page read while the store is emptied, one answer is lost and another command is not sent.\<close>

lemma cached_page_is_the_page_witness:
  "\<exists>src. fst (get_page shelf_client demo_cache_config unary_wire digit_wire demo_ref ''catalogue''
      (\<lambda>w. (Inr (demo_catalogue 1), w)) demo_pick
      (demo_cache_world [(Answer_Lost, 5, \<lambda>s. s), (No_Fault, 60, demo_evict), (Not_Sent, 250, \<lambda>s. s)]))
    = pick_in_memory (demo_catalogue 1) demo_pick src"
proof -
  let ?w = "demo_cache_world [(Answer_Lost, 5, \<lambda>s. s), (No_Fault, 60, demo_evict), (Not_Sent, 250, \<lambda>s. s)]"
  have "kept (all_stored shelf_client unary_wire digit_wire demo_ref (\<lambda>v s. s = demo_catalogue 1)) ?w"
    by (simp add: kept_def demo_cache_world_def demo_shelf_empty demo_evict_stored)
  then show ?thesis
    using cached_page_is_the_page [OF demo_setting(1) number_survives _ prod.collapse [symmetric]] by blast
qed


section \<open>Read back without the loader\<close>

lemma pipeline_counter:
  assumes "counter_laws cl" and "plain_scope ref"
  shows "cl_get cl (generation_key g) (foldl (\<lambda>s f. f s) s (set_pipeline cl (version_keys ref v) ix es ttl))
    = cl_get cl (generation_key g) s"
proof -
  have f: "cl_get cl (generation_key g) (f s) = cl_get cl (generation_key g) s"
    if "f \<in> set (set_pipeline cl (version_keys ref v) ix es ttl)" for f s
    using that generation_key_apart_set [OF assms(2), of g v]
    by (auto simp: set_pipeline_def counter_laws_simps [OF assms(1)] split: if_splits elim!: hset_steps_field)
  have "set fs \<subseteq> set (set_pipeline cl (version_keys ref v) ix es ttl) \<Longrightarrow>
      cl_get cl (generation_key g) (foldl (\<lambda>s f. f s) s fs) = cl_get cl (generation_key g) s" for fs
    by (induction fs arbitrary: s) (simp_all add: f)
  then show ?thesis by blast
qed

definition set_bytes :: "'i wire \<Rightarrow> 'e entry_wire \<Rightarrow> ('i, 'e) cache_indexed_set \<Rightarrow> nat" where
  \<comment> \<open>what \<open>writeSet\<close> holds against the cap\<close>
  "set_bytes c ec st =
     foldl (\<lambda>n e. n + utf8_length ec e) (length (encode c (set_index st))) (map (entry_json ec) (set_entries st))"

definition set_present ::
  "'s cache_client \<Rightarrow> 'i wire \<Rightarrow> 'e entry_wire \<Rightarrow> cache_set_keys \<Rightarrow> ('i, 'e) cache_indexed_set \<Rightarrow> 's \<Rightarrow> bool" where
  \<comment> \<open>the whole of a set is stored under these keys\<close>
  "set_present cl c ec ks st s \<longleftrightarrow>
     cl_get_buffer cl (index_key ks) s = Some (encode c (set_index st))
     \<and> (\<forall>p<length (set_entries st). hash_field cl (entries_key ks) (dec_string p) s = Some (entry_json ec (set_entries st ! p)))"

lemma write_set_calm:
  assumes "cache_setting cl cf c ref db" and "fates w = []" and "set_bytes c ec st \<le> cf_max_set_bytes cf"
    and w'_def: "w' = write_set cl cf c ec (version_keys ref v) st w"
  shows "set_present cl c ec (version_keys ref v) st (store w')" and "fates w' = []" and "pending w' = pending w"
    and "cl_get cl (generation_key g) (store w') = cl_get cl (generation_key g) (store w)"
proof -
  note laws = cache_settingD [OF assms(1)]
  let ?fs = "set_pipeline cl (version_keys ref v) (encode c (set_index st)) (map (entry_json ec) (set_entries st)) (cf_ttl_sec cf)"
  have w': "w' = w\<lparr>store := foldl (\<lambda>s f. f s) (store w) ?fs\<rparr>"
    using assms(3) by (simp add: w'_def write_set_def Let_def set_bytes_def act_all_calm [OF assms(2)] not_less [symmetric])
  show "fates w' = []" "pending w' = pending w" by (simp_all add: w' assms(2))
  show "cl_get cl (generation_key g) (store w') = cl_get cl (generation_key g) (store w)"
    by (simp add: w' pipeline_counter [OF laws(2,5)])
  show "set_present cl c ec (version_keys ref v) st (store w')"
    using pipeline_stored [OF laws(1,6) set_keys_inject(3) refl]
    by (simp add: set_present_def w')
qed

lemma read_page_quiet:
  assumes "counter_laws cl" and "plain_scope ref" and "fates w = []"
    and "read_page cl c ec (version_keys ref v) pk w = (r, w')"
  shows "fates w' = []" and "pending w' = pending w"
    and "cl_get cl (generation_key g) (store w') = cl_get cl (generation_key g) (store w)"
proof -
  let ?K = "version_keys ref v"
  let ?same = "\<lambda>w'. fates w' = [] \<and> pending w' = pending w
    \<and> cl_get cl (generation_key g) (store w') = cl_get cl (generation_key g) (store w)"
  have del: "?same (act op (cl_del cl ks) u)" if "?same u" "set ks \<subseteq> {index_key ?K, entries_key ?K}" for op ks u
  proof -
    have "generation_key g \<notin> set ks" using that(2) generation_key_apart_set [OF assms(2)] by blast
    then show ?thesis using that(1) by (simp add: act_calm counter_laws_simps [OF assms(1)])
  qed
  obtain q w1 where q: "read_entry cl c (index_key ?K) w = (q, w1)" by fastforce
  have w1: "?same w1"
    using q del [of "w\<lparr>errors := errors w + 1\<rparr>" "[index_key ?K]" "''entry drop''"] assms(3)
    by (auto simp: read_entry_def query_calm [OF assms(3)] split: option.splits)
  have "?same w'"
  proof (cases "\<exists>ix p. q = Some ix \<and> pk ix = Inr p")
    case False
    then show ?thesis using assms(4) q w1 by (auto simp: read_page_def split: option.splits sum.splits)
  next
    case True
    then obtain ix p where ix: "q = Some ix" "pk ix = Inr p" by blast
    obtain er w2 where er: "read_entries cl ec (entries_key ?K) (positions p) w1 = (er, w2)" by fastforce
    have w2: "?same w2"
      using er w1 by (auto simp: read_entries_def Let_def command_calm split: if_splits)
    show ?thesis
      using assms(4) q ix er w2 del [OF w2, of "[index_key ?K, entries_key ?K]" "''set drop''"]
      by (auto simp: read_page_def split: entries_read.splits)
  qed
  then show "fates w' = []" "pending w' = pending w"
    "cl_get cl (generation_key g) (store w') = cl_get cl (generation_key g) (store w)" by simp_all
qed

lemma read_page_present:
  assumes "entry_laws cl" and "wire_laws c" and "survives c ec st" and "fates w = []"
    and "set_present cl c ec ks st (store w)" and "pk (set_index st) = Inr p" and "\<forall>pos\<in>set (positions p). pos < length (set_entries st)"
  shows "read_page cl c ec ks pk w = (Inr (Some \<lparr>page_entries = map (js_nth (set_entries st)) (positions p),
    page_visible = pick_total p, page_from = Hit\<rparr>), w)"
proof -
  have ix: "read_entry cl c (index_key ks) w = (Some (set_index st), w)"
    using assms(2,3,5) by (simp add: read_entry_def query_calm [OF assms(4)] set_present_def decode_encode survives_def)
  let ?e = "\<lambda>pos. set_entries st ! pos"
  define raw where "raw = map (\<lambda>pos. Some (entry_json ec (?e pos))) (positions p)"
  have hmget: "cl_hmget cl (entries_key ks) (map dec_string (positions p)) (store w) = raw"
    using assms(5,7) by (simp add: set_present_def raw_def entry_laws_simps [OF assms(1)])
  have whole: "length raw = length (map dec_string (positions p))" "None \<notin> set raw"
    by (auto simp: raw_def)
  have parsed: "map (entry_parse ec) (map the raw) = map (\<lambda>pos. Some (?e pos)) (positions p)"
    using assms(3,7) by (simp add: survives_def raw_def)
  have "None \<notin> set (map (\<lambda>pos. Some (?e pos)) (positions p))" by auto
  then have "read_entries cl ec (entries_key ks) (positions p) w = (Entries (map ?e (positions p)), w)"
    using whole by (simp add: read_entries_def Let_def command_calm [OF assms(4) refl] hmget parsed comp_def del: map_map)
      (simp add: comp_def)
  moreover have "map Some (map ?e (positions p)) = map (js_nth (set_entries st)) (positions p)"
    using assms(7) by (simp add: js_nth_def)
  ultimately show ?thesis by (simp add: read_page_def ix assms(6))
qed

lemma get_page_present:
  assumes "cache_setting cl cf c ref db" and "survives c ec st" and "fates w = []" and "pending w = None" and "cf_enabled cf"
    and "cl_get cl (generation_key g) (store w) = Some raw" and "js_number raw = Some v"
    and "set_present cl c ec (version_keys ref v) st (store w)"
    and "pk (set_index st) = Inr p" and "\<forall>pos\<in>set (positions p). pos < length (set_entries st)"
  shows "fst (get_page cl cf c ec ref g loader pk w) = pick_in_memory st pk Hit"
  using read_page_present [OF cache_settingD(1,3) [OF assms(1)] assms(2), of "w\<lparr>generation := Some v\<rparr>" "version_keys ref v" pk p]
    assms(3,8,9,10)
  by (simp add: get_page_def usable_generation_calm [where raw = raw, OF assms(3-7)] Let_def pick_in_memory_def)

text \<open>
  C30: a stored set is read back.  When no command fails and the set is within the size cap, the page
  request after a miss, for any page and any order whose positions lie in the set, is answered from
  the store with exactly the set's entries at those positions, whatever its loader is: the loader is
  not run again.
\<close>

theorem stored_set_is_read_back:
  assumes "cache_setting cl cf c ref db" and "survives c ec st" and "fates w = []" and "pending w = None" and "cf_enabled cf"
    and "cl_get cl (generation_key g) (store w) = Some raw" and "js_number raw = Some v"
    and "set_bytes c ec st \<le> cf_max_set_bytes cf"
    and "get_page cl cf c ec ref g (\<lambda>w. (Inr st, w)) pk w = (Inr pg, w')" and "page_from pg = Miss"
    and "pk' (set_index st) = Inr p" and "\<forall>pos\<in>set (positions p). pos < length (set_entries st)"
  shows "fst (get_page cl cf c ec ref g loader pk' w') = pick_in_memory st pk' Hit"
proof -
  note laws = cache_settingD [OF assms(1)]
  let ?w1 = "w\<lparr>generation := Some v\<rparr>" and ?K = "version_keys ref v"
  have u: "usable_generation cl cf g w = (Some v, ?w1)" by (rule usable_generation_calm [where raw = raw, OF assms(3-7)])
  obtain rp w2 where rp: "read_page cl c ec ?K pk ?w1 = (rp, w2)" by fastforce
  have "\<not> (\<exists>hit. rp = Inr (Some hit) \<and> page_from hit = Miss)"
    using rp by (auto simp: read_page_def split: option.splits sum.splits prod.splits entries_read.splits)
  then have miss: "rp = Inr None" and w': "w' = write_set cl cf c ec ?K st (w2\<lparr>misses := misses w2 + 1\<rparr>)"
    using assms(9,10) rp by (auto simp: get_page_def u Let_def split: sum.splits option.splits)
  have w2: "fates w2 = []" "pending w2 = None" "cl_get cl (generation_key g) (store w2) = Some raw"
    using read_page_quiet [OF laws(2,5) _ rp] assms(3,4,6) by simp_all
  have "fates (w2\<lparr>misses := misses w2 + 1\<rparr>) = []" by (simp add: w2)
  note ws = write_set_calm [OF assms(1) this assms(8) w']
  show ?thesis
    by (rule get_page_present [where pk = pk', OF assms(1,2) ws(2) _ assms(5) _ assms(7) ws(1) assms(11,12)])
      (simp_all add: ws(3) ws(4) [of g] w2)
qed

lemma demo_miss:
  assumes "w = demo_cache_world []"
  obtains pg w' where "get_page shelf_client demo_cache_config unary_wire digit_wire demo_ref ''catalogue''
      (\<lambda>w. (Inr (demo_catalogue 1), w)) demo_pick w = (Inr pg, w')" and "page_from pg = Miss"
proof -
  have g: "cl_get shelf_client (generation_key ''catalogue'') demo_shelf = Some ''5''" "js_number ''5'' = Some 5"
    by (simp add: shelf_client_def demo_shelf_def) code_simp
  have u: "usable_generation shelf_client demo_cache_config ''catalogue'' w = (Some 5, w\<lparr>generation := Some 5\<rparr>)"
    by (rule usable_generation_calm [where raw = "''5''"]) (simp_all add: assms g demo_cache_world_def demo_cache_config_def)
  have "cells demo_shelf (index_key (version_keys demo_ref 5)) = None"
    using generation_key_apart_set [of demo_ref "''catalogue''" 5] by (auto simp: demo_shelf_def plain_scope_def demo_ref_def)
  then have "read_page shelf_client unary_wire digit_wire (version_keys demo_ref 5) demo_pick (w\<lparr>generation := Some 5\<rparr>)
      = (Inr None, w\<lparr>generation := Some 5\<rparr>)"
    by (simp add: read_page_def read_entry_def query_calm assms demo_cache_world_def shelf_client_def)
  then show thesis
    by - (rule that, simp add: get_page_def u Let_def pick_in_memory_def demo_pick_def, simp)
qed

text \<open>A second page, in the other order, from a loader that would throw.\<close>

lemma stored_set_is_read_back_witness:
  "\<exists>pg w'. get_page shelf_client demo_cache_config unary_wire digit_wire demo_ref ''catalogue''
      (\<lambda>w. (Inr (demo_catalogue 1), w)) demo_pick (demo_cache_world []) = (Inr pg, w')
    \<and> fst (get_page shelf_client demo_cache_config unary_wire digit_wire demo_ref ''catalogue''
      (\<lambda>w. (Inl ''not run'', w)) (\<lambda>_. Inr \<lparr>positions = [0], pick_total = 2\<rparr>) w')
      = Inr \<lparr>page_entries = [Some 1], page_visible = 2, page_from = Hit\<rparr>"
proof -
  obtain pg w' where m: "get_page shelf_client demo_cache_config unary_wire digit_wire demo_ref ''catalogue''
      (\<lambda>w. (Inr (demo_catalogue 1), w)) demo_pick (demo_cache_world []) = (Inr pg, w')" "page_from pg = Miss"
    by (rule demo_miss [OF refl])
  have g: "cl_get shelf_client (generation_key ''catalogue'') (store (demo_cache_world [])) = Some ''5''" "js_number ''5'' = Some 5"
    by (simp add: shelf_client_def demo_shelf_def demo_cache_world_def) code_simp
  have "set_bytes unary_wire digit_wire (demo_catalogue 1) \<le> cf_max_set_bytes demo_cache_config"
    by (simp add: set_bytes_def encode_def unary_wire_def digit_wire_def demo_catalogue_def demo_cache_config_def
        cache_gzip_min_bytes_def dec_string.simps)
  then show ?thesis
    using stored_set_is_read_back [OF demo_setting(1) number_survives _ _ _ g _ m,
        of "\<lambda>_. Inr \<lparr>positions = [0], pick_total = 2\<rparr>" "\<lparr>positions = [0], pick_total = 2\<rparr>" "\<lambda>w. (Inl ''not run'', w)"] m(1)
    by (simp add: demo_cache_world_def demo_cache_config_def demo_catalogue_def pick_in_memory_def js_nth_def)
qed

section \<open>A bump that fails\<close>

lemma bump_failing:
  assumes "cf_enabled cf" and "fates w = (fault, ms, others) # fs" and "fault \<noteq> No_Fault"
  shows "pending (bump cl cf g reason w) = Some (g, reason)" and "fates (bump cl cf g reason w) = fs"
proof -
  have "pending (bump cl cf g reason w) = Some (g, reason) \<and> fates (bump cl cf g reason w) = fs"
    using assms by (cases fault) (simp_all add: bump_def command_def next_fate_def Let_def case_prod_unfold)
  then show "pending (bump cl cf g reason w) = Some (g, reason)" and "fates (bump cl cf g reason w) = fs" by simp_all
qed

lemma get_page_pending:
  assumes "cf_enabled cf" and "pending w = Some (og, reason)" and "fates w = (fault, ms, others) # fs" and "fault \<noteq> No_Fault"
    and "get_page cl cf c ec ref g (\<lambda>w. (Inr st, w)) pk w = (r, w')"
  shows "r = pick_in_memory st pk Bypass" and "pending w' = Some (og, reason)" and "fates w' = fs"
  using assms(5) bump_failing [OF assms(1,3,4), of cl og reason]
  by (auto simp: get_page_def usable_generation_def assms(1,2) Let_def)

lemma command_pending: "pending (snd (command op run w)) = pending w"
  using command_kept(3) [of "\<lambda>_. True" w run op "fst (command op run w)"] by (simp add: kept_def)

lemma query_pending: "pending (snd (query op get w)) = pending w"
  using command_pending [of op "\<lambda>s. (get s, s)" w] by (simp add: query_def case_prod_unfold split: option.split)

lemma act_pending: "pending (act op f w) = pending w"
  by (simp add: act_def command_pending)

lemma act_all_pending: "pending (act_all op fs w) = pending w"
  by (rule act_all_kept(2) [of "\<lambda>_. True"]) (simp_all add: kept_def)

lemma read_generation_pending: "pending (snd (read_generation cl g w)) = pending w"
  by (simp add: read_generation_def Let_def case_prod_unfold query_pending act_pending split: option.split)

lemma read_entry_pending: "pending (snd (read_entry cl c key w)) = pending w"
  by (simp add: read_entry_def case_prod_unfold query_pending act_pending split: option.split)

lemma read_entries_pending: "pending (snd (read_entries cl ec key ps w)) = pending w"
  by (simp add: read_entries_def Let_def case_prod_unfold command_pending split: option.split)

lemma read_page_pending: "pending (snd (read_page cl c ec ks pk w)) = pending w"
  by (simp add: read_page_def case_prod_unfold read_entry_pending read_entries_pending act_pending
      split: option.split sum.split entries_read.split)

lemma get_page_settles:
  assumes "pending (snd (usable_generation cl cf g w)) = None"
  shows "pending (snd (get_page cl cf c ec ref g (\<lambda>u. (Inr st, u)) pk w)) = None"
  using assms by (simp add: get_page_def case_prod_unfold Let_def read_page_pending write_set_def act_all_pending
      split: option.split sum.split)

definition after_bump ::
  "'s cache_client \<Rightarrow> cache_config \<Rightarrow> 'i wire \<Rightarrow> 'e entry_wire \<Rightarrow> cache_entry_ref \<Rightarrow> string \<Rightarrow> ('i, 'e) cache_indexed_set
    \<Rightarrow> ('i \<Rightarrow> 'x + cache_page_pick) \<Rightarrow> string \<Rightarrow> 's cache_world \<Rightarrow> nat \<Rightarrow> 's cache_world" where
  \<comment> \<open>a bump, then so many page requests\<close>
  "after_bump cl cf c ec ref g st pk reason w n =
     ((\<lambda>u. snd (get_page cl cf c ec ref g (\<lambda>u. (Inr st, u)) pk u)) ^^ n) (bump cl cf g reason w)"

lemma after_failed_bump:
  assumes "cf_enabled cf" and "\<forall>(fault, ms, others)\<in>set (fates w). fault \<noteq> No_Fault" and "n < length (fates w)"
  shows "pending (after_bump cl cf c ec ref g st pk reason w n) = Some (g, reason)
    \<and> fates (after_bump cl cf c ec ref g st pk reason w n) = drop (Suc n) (fates w)"
  using assms(3)
proof (induction n)
  case 0
  then obtain fault ms others fs where f: "fates w = (fault, ms, others) # fs" by (cases "fates w") auto
  then show ?case using bump_failing [OF assms(1) f] assms(2) by (simp add: after_bump_def)
next
  case (Suc n)
  let ?u = "after_bump cl cf c ec ref g st pk reason w n"
  have ih: "pending ?u = Some (g, reason)" "fates ?u = drop (Suc n) (fates w)" using Suc by simp_all
  obtain fault ms others where f: "fates w ! Suc n = (fault, ms, others)" by (metis prod.exhaust)
  have h: "fates ?u = (fault, ms, others) # drop (Suc (Suc n)) (fates w)"
    using ih(2) Suc.prems f Cons_nth_drop_Suc [of "Suc n" "fates w"] by simp
  have "fault \<noteq> No_Fault" using assms(2) Suc.prems f nth_mem [of "Suc n" "fates w"] by auto
  then show ?case
    using get_page_pending(2,3) [where cl = cl and c = c and ec = ec and ref = ref and g = g and st = st and pk = pk,
        OF assms(1) ih(1) h _ prod.collapse [symmetric]]
    by (simp add: after_bump_def)
qed



text \<open>
  The bypass is private to the process.  When a process's bump is never sent, the store is as it
  was, so another process that has the set of before the commit stored keeps answering from it,
  whatever its own loader would now build: only the process that committed knows there is something
  to bypass, and if it exits, as the standalone scripts do, nobody does.
\<close>

theorem failed_bump_is_private:
  assumes "cache_setting cl cf c ref db" and "survives c ec old" and "cf_enabled cf"
    and "fates writer = (Not_Sent, ms, \<lambda>s. s) # fs"
    and "store reader = store writer" and "fates reader = []" and "pending reader = None"
    and "cl_get cl (generation_key g) (store writer) = Some raw" and "js_number raw = Some v"
    and "set_present cl c ec (version_keys ref v) old (store writer)"
    and "pk (set_index old) = Inr p" and "\<forall>pos\<in>set (positions p). pos < length (set_entries old)"
  shows "pending (bump cl cf g reason writer) = Some (g, reason)
    \<and> fst (get_page cl cf c ec ref g loader pk (reader\<lparr>store := store (bump cl cf g reason writer)\<rparr>))
      = pick_in_memory old pk Hit"
proof
  show "pending (bump cl cf g reason writer) = Some (g, reason)"
    by (rule bump_failing(1) [OF assms(3,4)]) simp
  have s: "store (bump cl cf g reason writer) = store writer"
    using assms(3,4) by (simp add: bump_def command_def next_fate_def Let_def)
  show "fst (get_page cl cf c ec ref g loader pk (reader\<lparr>store := store (bump cl cf g reason writer)\<rparr>)) = pick_in_memory old pk Hit"
    by (rule get_page_present [where raw = raw and v = v and pk = pk, OF assms(1,2) _ _ assms(3) _ assms(9) _ assms(11,12)])
      (simp_all add: s assms)
qed

lemma failed_bump_is_private_witness:
  "\<exists>s. pending (bump shelf_client demo_cache_config ''catalogue'' ''persist'' ((demo_cache_world [(Not_Sent, 250, \<lambda>s. s)])\<lparr>store := s\<rparr>))
      = Some (''catalogue'', ''persist'')
    \<and> fst (get_page shelf_client demo_cache_config unary_wire digit_wire demo_ref ''catalogue''
      (\<lambda>w. (Inr (demo_catalogue 2), w)) demo_pick ((demo_cache_world [])\<lparr>store := s\<rparr>))
      = pick_in_memory (demo_catalogue 1) demo_pick Hit"
proof -
  let ?w = "demo_cache_world []"
  define u where "u = write_set shelf_client demo_cache_config unary_wire digit_wire (version_keys demo_ref 5) (demo_catalogue 1) ?w"
  have "set_bytes unary_wire digit_wire (demo_catalogue 1) \<le> cf_max_set_bytes demo_cache_config"
    by (simp add: set_bytes_def encode_def unary_wire_def digit_wire_def demo_catalogue_def demo_cache_config_def
        cache_gzip_min_bytes_def dec_string.simps)
  then have u: "set_present shelf_client unary_wire digit_wire (version_keys demo_ref 5) (demo_catalogue 1) (store u)"
    "cl_get shelf_client (generation_key ''catalogue'') (store u) = Some ''5''"
    using write_set_calm [OF demo_setting(1) _ _ u_def]
    by (simp_all add: demo_cache_world_def) (simp add: shelf_client_def demo_shelf_def)
  have five: "js_number ''5'' = Some 5" by code_simp
  have "pending (bump shelf_client demo_cache_config ''catalogue'' ''persist'' ((demo_cache_world [(Not_Sent, 250, \<lambda>s. s)])\<lparr>store := store u\<rparr>))
      = Some (''catalogue'', ''persist'')
    \<and> fst (get_page shelf_client demo_cache_config unary_wire digit_wire demo_ref ''catalogue''
      (\<lambda>w. (Inr (demo_catalogue 2), w)) demo_pick ((?w\<lparr>store := store u\<rparr>)\<lparr>store := store (bump shelf_client demo_cache_config
        ''catalogue'' ''persist'' ((demo_cache_world [(Not_Sent, 250, \<lambda>s. s)])\<lparr>store := store u\<rparr>))\<rparr>))
      = pick_in_memory (demo_catalogue 1) demo_pick Hit"
    by (rule failed_bump_is_private [where raw = "''5''" and v = 5 and fs = "[]" and ms = 250 and p = "\<lparr>positions = [1, 0], pick_total = 1\<rparr>",
          OF demo_setting(1) number_survives])
      (simp_all add: u [unfolded demo_catalogue_def, simplified] five demo_cache_world_def demo_cache_config_def demo_pick_def
        demo_catalogue_def)
  moreover have "store (bump shelf_client demo_cache_config ''catalogue'' ''persist'' ((demo_cache_world [(Not_Sent, 250, \<lambda>s. s)])\<lparr>store := store u\<rparr>)) = store u"
    by (simp add: bump_def command_def next_fate_def Let_def demo_cache_world_def demo_cache_config_def)
  ultimately show ?thesis by (auto intro: exI [of _ "store u"])
qed

end
