(* ===== verification/Report_Endpoint.thy ===== *)
theory Report_Endpoint
  imports Report_Best Report_Cache_Key Cache_Theorems
begin

text \<open>
  \<open>ReportService.report\<close> of \<open>src/src/domain/report/report.service.ts\<close>, where the components meet: the
  request's cache description, the cached set, the caller's preferences and the page cut from the
  index.  The theorem is what a caller is owed: the slice of the visible order, cached or not.
\<close>

datatype report_failure = Report_Failed report_error | Order_Not_Indexed

definition cache_scope_report :: string where "cache_scope_report = ''report''"

definition cache_generation_catalogue :: string where "cache_generation_catalogue = ''catalogue''"

definition report_ref ::
  "js_runtime \<Rightarrow> ((string \<times> json) list \<Rightarrow> string) \<Rightarrow> report_kind \<Rightarrow> report_filter \<Rightarrow> report_options \<Rightarrow> string \<Rightarrow> cache_entry_ref" where
  "report_ref rt digest kind filt options today =
     \<lparr>ref_scope = cache_scope_report, ref_suffix = suffix rt digest kind filt options (report_day kind today)\<rparr>"

definition report_pick ::
  "preference_filter_ids \<Rightarrow> bool option \<Rightarrow> report_options \<Rightarrow> report_page_index \<Rightarrow> report_failure + cache_page_pick" where
  "report_pick prefs fav options ix =
     (case page_select ix prefs fav options of None \<Rightarrow> Inl Order_Not_Indexed | Some p \<Rightarrow> Inr p)"

definition report ::
  "'s cache_client \<Rightarrow> cache_config \<Rightarrow> report_page_index wire \<Rightarrow> report_public_group entry_wire \<Rightarrow> js_runtime
    \<Rightarrow> ((string \<times> json) list \<Rightarrow> string) \<Rightarrow> report_db \<Rightarrow> report_kind \<Rightarrow> report_filter \<Rightarrow> report_options
    \<Rightarrow> report_personalization \<Rightarrow> 's cache_world \<Rightarrow> (report_failure + report_public_group option typed_page) \<times> 's cache_world" where
  "report cl cf c ec rt digest db kind filt options who w =
     (let loader = (\<lambda>w. (case build_set rt db kind filt options of Inl e \<Rightarrow> Inl (Report_Failed e) | Inr st \<Rightarrow> Inr st, w))
      in case get_page cl cf c ec (report_ref rt digest kind filt options (db_today db)) cache_generation_catalogue loader
             (report_pick (db_filter_ids db (pers_user_id who)) (pers_favorites_only who) options) w of
           (Inl e, w') \<Rightarrow> (Inl e, w')
         | (Inr page, w') \<Rightarrow>
             (Inr \<lparr>page_data = page_entries page, page_total = page_visible page, page_limit = opt_per_page options,
                   page_offset = (opt_page options - 1) * opt_per_page options\<rparr>, w'))"

section \<open>What a caller is owed\<close>

definition visible_page :: "report_options \<Rightarrow> nat list \<Rightarrow> nat list" where
  \<comment> \<open>specification: the requested slice of the positions a caller may see\<close>
  "visible_page options vis =
     take (nat (opt_per_page options)) (drop (nat ((opt_page options - 1) * opt_per_page options)) vis)"

lemma report_pick_built:
  assumes "1 \<le> opt_page options" and "0 \<le> opt_per_page options"
    and "vis = visible_order (build_index rt gs) prefs fav (order_key (opt_sort options) (opt_order options))"
  shows "report_pick prefs fav options (build_index rt gs) = Inr \<lparr>positions = visible_page options vis, pick_total = length vis\<rparr>"
  using page_select_built [OF assms(1,2), of rt gs prefs fav] by (simp add: report_pick_def visible_page_def assms(3))

text \<open>
  C33: a report request is answered with the caller's page.  On every path through the cache, with
  whatever faults, evictions and other clients' honest writes in between, the answer is the requested
  slice of the groups the caller may see, in the requested order, each in its public shape and none
  missing, with the number of visible groups, the page size and the offset.
\<close>

theorem report_answers_visible_page:
  assumes "build_groups rt db kind filt options = Inr gs"
    and "ref = report_ref rt digest kind filt options (db_today db)"
    and "st = \<lparr>set_index = build_index rt gs, set_entries = map to_public_group gs\<rparr>"
    and "cache_setting cl cf c ref (\<lambda>_. ())" and "survives c ec st"
    and "kept (all_stored cl c ec ref (\<lambda>v s. s = st)) w"
    and "1 \<le> opt_page options" and "0 \<le> opt_per_page options"
    and "vis = visible_order (build_index rt gs) (db_filter_ids db (pers_user_id who)) (pers_favorites_only who)
      (order_key (opt_sort options) (opt_order options))"
  shows "fst (report cl cf c ec rt digest db kind filt options who w) =
     Inr \<lparr>page_data = map (\<lambda>p. Some (to_public_group (gs ! p))) (visible_page options vis), page_total = length vis,
          page_limit = opt_per_page options, page_offset = (opt_page options - 1) * opt_per_page options\<rparr>"
proof -
  let ?pk = "report_pick (db_filter_ids db (pers_user_id who)) (pers_favorites_only who) options"
  have build: "build_set rt db kind filt options = Inr st" by (simp add: build_set_def assms(1,3))
  obtain r w' where g: "get_page cl cf c ec ref cache_generation_catalogue (\<lambda>w. (Inr st, w)) ?pk w = (r, w')" by fastforce
  then obtain src where r: "r = pick_in_memory st ?pk src"
    using cached_page_transparent [OF assms(4,5,6)] by blast
  have pk: "?pk (set_index st) = Inr \<lparr>positions = visible_page options vis, pick_total = length vis\<rparr>"
    using report_pick_built [OF assms(7,8,9)] by (simp add: assms(3))
  have "set vis \<subseteq> {p. p < length gs}" using set_visible_built by (auto simp: assms(9))
  then have "p < length gs" if "p \<in> set (visible_page options vis)" for p
    using that by (auto simp: visible_page_def dest!: in_set_takeD in_set_dropD)
  then have "map (js_nth (set_entries st)) (visible_page options vis) = map (\<lambda>p. Some (to_public_group (gs ! p))) (visible_page options vis)"
    by (simp add: js_nth_def assms(3))
  then have "r = Inr \<lparr>page_entries = map (\<lambda>p. Some (to_public_group (gs ! p))) (visible_page options vis),
      page_visible = length vis, page_from = src\<rparr>"
    using r pk by (simp add: pick_in_memory_def)
  then show ?thesis
    using g by (simp add: report_def build Let_def assms(2) [symmetric])
qed

definition demo_groups :: "report_group list" where "demo_groups = catalog demo_runtime demo_rows"

definition demo_index_wire :: "report_page_index wire" where
  \<comment> \<open>a wire for one value\<close>
  "demo_index_wire =
     \<lparr>to_json = (\<lambda>_. [0x7b]), of_json = (\<lambda>_. Some (build_index demo_runtime demo_groups)),
      gzip = (\<lambda>b. [0x1f, 0x8b, 0x08] @ b), gunzip = (\<lambda>b. Some (drop 3 b))\<rparr>"

definition demo_group_wire :: "report_public_group entry_wire" where
  \<comment> \<open>a wire for two\<close>
  "demo_group_wire =
     \<lparr>entry_json = (\<lambda>g. if g = to_public_group (demo_groups ! 0) then ''0'' else ''1''),
      entry_parse = (\<lambda>t. Some (to_public_group (demo_groups ! (if t = ''0'' then 0 else 1)))),
      utf8_length = length\<rparr>"

text \<open>The first catalogue page of a caller who blacklisted one of the two bottlings, while the store loses an answer.\<close>

lemma report_answers_visible_page_witness:
  "fst (report shelf_client demo_cache_config demo_index_wire demo_group_wire demo_runtime (\<lambda>_. ''digest'') demo_db Catalog demo_filter
      demo_options \<lparr>pers_user_id = ''u'', pers_favorites_only = None\<rparr>
      (demo_cache_world [(Answer_Lost, 5, \<lambda>s. s), (No_Fault, 60, demo_evict)]))
    = Inr \<lparr>page_data = [Some (to_public_group (demo_groups ! 0))], page_total = 1, page_limit = 10, page_offset = 0\<rparr>"
proof -
  let ?ref = "report_ref demo_runtime (\<lambda>_. ''digest'') Catalog demo_filter demo_options (db_today demo_db)"
  let ?st = "\<lparr>set_index = build_index demo_runtime demo_groups, set_entries = map to_public_group demo_groups\<rparr>"
  let ?w = "demo_cache_world [(Answer_Lost, 5, \<lambda>s. s), (No_Fault, 60, demo_evict)]"
  have len: "length demo_groups = 2" by code_simp
  have groups: "build_groups demo_runtime demo_db Catalog demo_filter demo_options = Inr demo_groups"
    by (simp add: build_groups_def demo_groups_def demo_db_def demo_rows_def)
  have wire: "wire_laws demo_index_wire"
    by (auto simp: wire_laws_def demo_index_wire_def is_compressed_def gzip_magic_def js_nth_def)
  then have setting: "cache_setting shelf_client demo_cache_config demo_index_wire ?ref (\<lambda>_. ())"
    by (simp add: cache_setting_def shelf_entry_laws shelf_counter_laws shelf_bystander plain_scope_def
        report_ref_def cache_scope_report_def demo_cache_config_def)
  obtain a b where ab: "demo_groups = [a, b]" using len by (auto simp: numeral_2_eq_2 length_Suc_conv)
  have survives: "survives demo_index_wire demo_group_wire ?st"
    by (simp add: survives_def demo_index_wire_def demo_group_wire_def ab)
  have empty: "all_stored shelf_client demo_index_wire demo_group_wire ?ref A demo_shelf" for A
    by (rule shelf_empty) (simp add: plain_scope_def report_ref_def cache_scope_report_def)
  have kept: "kept (all_stored shelf_client demo_index_wire demo_group_wire ?ref (\<lambda>v s. s = ?st)) ?w"
    by (simp add: kept_def demo_cache_world_def empty demo_evict_stored)
  have vis: "visible_order (build_index demo_runtime demo_groups) (db_filter_ids demo_db ''u'') None Natural = [0]"
    by code_simp
  show ?thesis
    using report_answers_visible_page [OF groups refl refl setting survives kept _ _ refl,
        of "\<lparr>pers_user_id = ''u'', pers_favorites_only = None\<rparr>"]
    by (simp add: demo_options_def vis [unfolded demo_options_def] order_key_def visible_page_def)
qed

end
