(* ===== verification/Catalogue_Facts.thy ===== *)
theory Catalogue_Facts
  imports Catalogue_Writes
begin

text \<open>
  The constraints the database puts on the catalogue (primary keys, unique indexes, foreign keys)
  as one invariant, its preservation by each write, and what the writes do to a link, a snapshot
  and an offer.
\<close>

section \<open>Constraints\<close>

definition live_keys :: "product_row list \<Rightarrow> string set" where
  "live_keys ps = {k. \<exists>p\<in>set ps. pd_match_key p = Some k}"

definition products_ok :: "product_row list \<Rightarrow> row_id \<Rightarrow> bool" where
  \<comment> \<open>primary key, ids already handed out, unique match key\<close>
  "products_ok ps n \<longleftrightarrow> distinct (map pd_id ps) \<and> (\<forall>p\<in>set ps. pd_id p < n)
     \<and> (\<forall>p\<in>set ps. \<forall>q\<in>set ps. pd_match_key p \<noteq> None \<and> pd_match_key p = pd_match_key q \<longrightarrow> p = q)"

definition aliases_ok :: "alias_row list \<Rightarrow> string set \<Rightarrow> row_id set \<Rightarrow> bool" where
  \<comment> \<open>primary key, foreign key, and no retired key is live\<close>
  "aliases_ok als keys ids \<longleftrightarrow> distinct (map al_key als) \<and> al_product ` set als \<subseteq> ids \<and> al_key ` set als \<inter> keys = {}"

definition offer_key :: "offer_row \<Rightarrow> row_id \<times> string" where
  "offer_key x = (of_store x, of_sku x)"

definition offers_ok :: "offer_row list \<Rightarrow> row_id set \<Rightarrow> row_id \<Rightarrow> bool" where
  "offers_ok os ids n \<longleftrightarrow> distinct (map of_id os) \<and> (\<forall>x\<in>set os. of_id x < n) \<and> distinct (map offer_key os)
     \<and> of_product ` set os \<subseteq> ids"

definition snapshot_key :: "snapshot_row \<Rightarrow> row_id \<times> string" where
  "snapshot_key s = (sn_offer s, sn_captured_on s)"

definition snapshots_ok :: "snapshot_row list \<Rightarrow> row_id set \<Rightarrow> bool" where
  "snapshots_ok ss oids \<longleftrightarrow> distinct (map snapshot_key ss) \<and> sn_offer ` set ss \<subseteq> oids"

definition link_key :: "flavor_link \<Rightarrow> row_id \<times> row_id" where
  "link_key l = (fl_product l, fl_flavor l)"

definition links_ok :: "flavor_link list \<Rightarrow> row_id set \<Rightarrow> bool" where
  "links_ok ls ids \<longleftrightarrow> distinct (map link_key ls) \<and> fl_product ` set ls \<subseteq> ids"

definition conflicts_ok :: "conflict_row list \<Rightarrow> row_id set \<Rightarrow> bool" where
  "conflicts_ok cs ids \<longleftrightarrow> distinct (map conflict_key cs) \<and> cf_product ` set cs \<subseteq> ids"

definition user_list_ok :: "list_row list \<Rightarrow> row_id set \<Rightarrow> bool" where
  "user_list_ok xs ids \<longleftrightarrow> distinct xs \<and> ul_product ` set xs \<subseteq> ids"

definition collection_key :: "collection_row \<Rightarrow> row_id \<times> row_id" where
  "collection_key c = (co_user c, co_product c)"

definition collection_ok :: "collection_row list \<Rightarrow> row_id set \<Rightarrow> row_id \<Rightarrow> bool" where
  "collection_ok cs ids n \<longleftrightarrow> distinct (map co_id cs) \<and> (\<forall>c\<in>set cs. co_id c < n) \<and> distinct (map collection_key cs)
     \<and> co_product ` set cs \<subseteq> ids"

definition purchases_ok :: "purchase_row list \<Rightarrow> row_id set \<Rightarrow> bool" where
  "purchases_ok ps cids \<longleftrightarrow> distinct (map pu_id ps) \<and> pu_collection ` set ps \<subseteq> cids"

definition product_ids :: "catalogue \<Rightarrow> row_id set" where
  "product_ids db = pd_id ` set (ct_products db)"

definition catalogue_ok :: "catalogue \<Rightarrow> bool" where
  "catalogue_ok db \<longleftrightarrow>
     products_ok (ct_products db) (ct_next db)
     \<and> aliases_ok (ct_aliases db) (live_keys (ct_products db)) (product_ids db)
     \<and> offers_ok (ct_offers db) (product_ids db) (ct_next db)
     \<and> snapshots_ok (ct_snapshots db) (of_id ` set (ct_offers db))
     \<and> links_ok (ct_links db) (product_ids db)
     \<and> conflicts_ok (ct_conflicts db) (product_ids db)
     \<and> user_list_ok (ct_favorites db) (product_ids db)
     \<and> user_list_ok (ct_blacklist db) (product_ids db)
     \<and> collection_ok (ct_collection db) (product_ids db) (ct_next db)
     \<and> purchases_ok (ct_purchases db) (co_id ` set (ct_collection db))"

lemmas constraint_defs = products_ok_def aliases_ok_def offers_ok_def snapshots_ok_def links_ok_def
  conflicts_ok_def user_list_ok_def collection_ok_def purchases_ok_def

lemma catalogue_okD:
  assumes "catalogue_ok db"
  shows "products_ok (ct_products db) (ct_next db)"
    "aliases_ok (ct_aliases db) (live_keys (ct_products db)) (product_ids db)"
    "offers_ok (ct_offers db) (product_ids db) (ct_next db)"
    "snapshots_ok (ct_snapshots db) (of_id ` set (ct_offers db))"
    "links_ok (ct_links db) (product_ids db)"
    "conflicts_ok (ct_conflicts db) (product_ids db)"
    "user_list_ok (ct_favorites db) (product_ids db)"
    "user_list_ok (ct_blacklist db) (product_ids db)"
    "collection_ok (ct_collection db) (product_ids db) (ct_next db)"
    "purchases_ok (ct_purchases db) (co_id ` set (ct_collection db))"
  using assms by (simp_all add: catalogue_ok_def)

lemma live_keys_map: "map pd_match_key ps = map pd_match_key qs \<Longrightarrow> live_keys ps = live_keys qs"
  by (simp add: live_keys_def set_eq_iff) (metis in_set_conv_nth length_map nth_map)

lemma product_ids_map: "map pd_id (ct_products a) = map pd_id (ct_products b) \<Longrightarrow> product_ids a = product_ids b"
  by (metis product_ids_def list.set_map)

section \<open>One link\<close>

definition source_at :: "flavor_link list \<Rightarrow> row_id \<Rightarrow> row_id \<Rightarrow> flavor_source option" where
  "source_at ls i f = map_option fl_source (find (link_at i f) ls)"

lemma source_at_simps [simp]:
  "source_at [] i f = None"
  "source_at (l # ls) i f = (if link_key l = (i, f) then Some (fl_source l) else source_at ls i f)"
  by (auto simp: source_at_def link_at_def link_key_def)

lemma source_at_None: "source_at ls i f = None \<longleftrightarrow> (i, f) \<notin> link_key ` set ls"
  by (induction ls) auto

lemma source_at_member:
  "distinct (map link_key ls) \<Longrightarrow>
    source_at ls i f = Some s \<longleftrightarrow> \<lparr>fl_product = i, fl_flavor = f, fl_source = s\<rparr> \<in> set ls"
proof (induction ls)
  case (Cons l ls)
  have l: "l = \<lparr>fl_product = fl_product l, fl_flavor = fl_flavor l, fl_source = fl_source l\<rparr>" by simp
  show ?case
  proof (cases "link_key l = (i, f)")
    case True
    then have "source_at ls i f = None" using Cons.prems by (auto simp: source_at_None)
    then have "\<lparr>fl_product = i, fl_flavor = f, fl_source = s\<rparr> \<notin> set ls" using Cons by auto
    then show ?thesis using True by (cases l) (auto simp: link_key_def)
  next
    case False
    then show ?thesis using Cons by (auto simp: link_key_def)
  qed
qed simp

lemma source_at_append: "source_at (ls @ [l]) i f = (case source_at ls i f of None \<Rightarrow> (if link_key l = (i, f) then Some (fl_source l) else None) | Some s \<Rightarrow> Some s)"
  by (induction ls) auto

lemma source_at_update:
  "source_at (sql_update (link_at i f) (\<lambda>l. l\<lparr>fl_source := k (fl_source l)\<rparr>) ls) j g =
     (if (j, g) = (i, f) then map_option k (source_at ls i f) else source_at ls j g)"
  by (induction ls) (auto simp: sql_update_def link_at_def link_key_def)

lemma source_at_put_link [simp]:
  "source_at (put_link k src e ls) j g =
     (if (j, g) = e then Some (case source_at ls (fst e) (snd e) of None \<Rightarrow> src | Some s \<Rightarrow> k s) else source_at ls j g)"
proof (cases e)
  case (Pair i f)
  have hit: "(\<exists>l\<in>set ls. link_at i f l) \<longleftrightarrow> source_at ls i f \<noteq> None"
    by (induction ls) (auto simp: link_at_def link_key_def)
  show ?thesis
  proof (cases "source_at ls i f")
    case None
    then show ?thesis using hit Pair
      by (auto simp: put_link_def sql_upsert_def source_at_append link_key_def split: option.split)
  next
    case (Some s)
    then show ?thesis using hit Pair by (simp add: put_link_def sql_upsert_def source_at_update)
  qed
qed

lemma source_at_fold_put:
  assumes "k src = src" and "\<And>s. k (k s) = k s"
  shows "source_at (fold (put_link k src) es ls) j g =
     (if (j, g) \<in> set es then Some (case source_at ls j g of None \<Rightarrow> src | Some s \<Rightarrow> k s) else source_at ls j g)"
  using assms by (induction es arbitrary: ls) (auto split: option.splits)

lemma source_at_delete:
  assumes "distinct (map link_key ls)"
  shows "source_at (sql_delete (\<lambda>l. P (fl_product l) (fl_flavor l) (fl_source l)) ls) j g =
     (case source_at ls j g of None \<Rightarrow> None | Some s \<Rightarrow> if P j g s then None else Some s)"
  using assms
proof (induction ls)
  case (Cons l ls)
  have "source_at ls (fl_product l) (fl_flavor l) = None"
    using Cons.prems by (auto simp: source_at_None link_key_def)
  then show ?case using Cons by (auto simp: sql_delete_def link_key_def)
qed (simp add: sql_delete_def)

lemma put_link_keys:
  "link_key ` set (put_link k src e ls) = insert e (link_key ` set ls)"
  "distinct (map link_key ls) \<Longrightarrow> distinct (map link_key (put_link k src e ls))"
proof -
  have hit: "link_at (fst e) (snd e) r \<longleftrightarrow> link_key r = link_key \<lparr>fl_product = fst e, fl_flavor = snd e, fl_source = src\<rparr>" for r
    by (auto simp: link_at_def link_key_def)
  note keys = keys_sql_upsert [of "link_at (fst e) (snd e)" link_key _ "\<lambda>l. l\<lparr>fl_source := k (fl_source l)\<rparr>" ls, OF hit]
  show "link_key ` set (put_link k src e ls) = insert e (link_key ` set ls)"
    using keys(1) by (simp add: put_link_def link_key_def)
  show "distinct (map link_key ls) \<Longrightarrow> distinct (map link_key (put_link k src e ls))"
    using keys(2) by (simp add: put_link_def link_key_def)
qed

lemma fold_put_keys:
  "link_key ` set (fold (put_link k src) es ls) = set es \<union> link_key ` set ls"
  "distinct (map link_key ls) \<Longrightarrow> distinct (map link_key (fold (put_link k src) es ls))"
  by (induction es arbitrary: ls) (auto simp: put_link_keys)

lemma links_ok_fold_put:
  "links_ok ls ids \<Longrightarrow> fst ` set es \<subseteq> ids \<Longrightarrow> links_ok (fold (put_link k src) es ls) ids"
proof -
  assume ok: "links_ok ls ids" and es: "fst ` set es \<subseteq> ids"
  have "fl_product ` set qs = fst ` (link_key ` set qs)" for qs by (auto simp: link_key_def image_image)
  then show ?thesis using ok es fold_put_keys [where k = k and src = src and es = es and ls = ls]
    by (auto simp: links_ok_def image_Un)
qed

lemma links_ok_delete: "links_ok ls ids \<Longrightarrow> links_ok (sql_delete w ls) ids"
  by (auto simp: links_ok_def distinct_sql_delete)

end
