(* ===== verification/Catalogue_Evolution.thy ===== *)
theory Catalogue_Evolution
  imports Catalogue_Facts
begin

text \<open>
  What the writes of a scrape may do to the rows that are already there. \<open>fact_step\<close> is the trust
  order one fact may move along, \<open>product_kept\<close>, \<open>offer_kept\<close> and \<open>snapshot_kept\<close> what a row keeps, and
  \<open>evolves\<close> the relation between two catalogues a store's run leads from and to: rows are changed in
  place or appended, never removed, and what belongs to others stays.
\<close>

section \<open>Rows\<close>

definition fact_step :: "'a option \<Rightarrow> fact_source option \<Rightarrow> 'a option \<Rightarrow> fact_source option \<Rightarrow> bool" where
  \<comment> \<open>unchanged, or a value of a person's no more: a gap filled, a better source, or the knowledge base\<close>
  "fact_step v s v' s' \<longleftrightarrow>
     (v' = v \<and> s' = s)
     \<or> (s \<noteq> Some Fact_Manual \<and> v' \<noteq> None \<and> (v = None \<or> rank_of s < rank_of s' \<or> s' = Some Fact_Kb))"

lemma fact_step_refl [simp]: "fact_step v s v s"
  by (simp add: fact_step_def)

lemma rank_below_manual: "s \<noteq> Some Fact_Manual \<Longrightarrow> rank_of s \<le> 50"
proof (cases s)
  case (Some x)
  then show "s \<noteq> Some Fact_Manual \<Longrightarrow> rank_of s \<le> 50" by (cases x) simp_all
qed simp

lemma fact_step_trans: "fact_step v s v' s' \<Longrightarrow> fact_step v' s' v'' s'' \<Longrightarrow> fact_step v s v'' s''"
  using rank_below_manual [of s] by (auto simp: fact_step_def)

definition product_kept :: "product_row \<Rightarrow> product_row \<Rightarrow> bool" where
  "product_kept p q \<longleftrightarrow>
     pd_id q = pd_id p \<and> pd_match_key q = pd_match_key p \<and> pd_name q = pd_name p \<and> pd_age q = pd_age p
     \<and> pd_volume q = pd_volume p \<and> pd_name_source q = pd_name_source p \<and> pd_age_source q = pd_age_source p
     \<and> pd_volume_source q = pd_volume_source p \<and> pd_flavors_curated_at q = pd_flavors_curated_at p
     \<and> pd_review_status q = pd_review_status p \<and> pd_reviewed_at q = pd_reviewed_at p
     \<and> pd_created_at q = pd_created_at p
     \<and> (pd_brand_orig p \<noteq> None \<longrightarrow> pd_brand_orig q = pd_brand_orig p)
     \<and> (pd_producer_source p = Some Fact_Manual \<longrightarrow>
          pd_producer_source q = Some Fact_Manual \<and> pd_producer_id q = pd_producer_id p \<and> pd_bottler_id q = pd_bottler_id p)
     \<and> fact_step (pd_abv p) (pd_abv_source p) (pd_abv q) (pd_abv_source q)
     \<and> fact_step (pd_type_id p) (pd_type_source p) (pd_type_id q) (pd_type_source q)
     \<and> fact_step (pd_country_id p) (pd_country_source p) (pd_country_id q) (pd_country_source q)"

lemma product_kept_refl [simp]: "product_kept p p"
  by (simp add: product_kept_def)

lemma product_kept_trans: "product_kept p q \<Longrightarrow> product_kept q r \<Longrightarrow> product_kept p r"
  unfolding product_kept_def by (elim conjE, intro conjI) (simp_all, (metis fact_step_trans)+)

definition offer_kept :: "offer_row \<Rightarrow> offer_row \<Rightarrow> bool" where
  "offer_kept x y \<longleftrightarrow> of_id y = of_id x \<and> of_store y = of_store x \<and> of_product y = of_product x
     \<and> of_sku y = of_sku x \<and> of_first_seen y = of_first_seen x"

lemma offer_kept_refl [simp]: "offer_kept x x"
  by (simp add: offer_kept_def)

lemma offer_kept_trans: "offer_kept x y \<Longrightarrow> offer_kept y z \<Longrightarrow> offer_kept x z"
  by (simp add: offer_kept_def)

section \<open>Tables\<close>

definition grows :: "('r \<Rightarrow> 'r \<Rightarrow> bool) \<Rightarrow> ('r \<Rightarrow> bool) \<Rightarrow> 'r list \<Rightarrow> 'r list \<Rightarrow> bool" where
  \<comment> \<open>every row kept in its place, and rows appended\<close>
  "grows kept new rs rs' \<longleftrightarrow> (\<exists>u ns. rs' = map u rs @ ns \<and> (\<forall>r\<in>set rs. kept r (u r)) \<and> (\<forall>r\<in>set ns. new r))"

lemma growsI: "rs' = map u rs @ ns \<Longrightarrow> (\<And>r. r \<in> set rs \<Longrightarrow> kept r (u r)) \<Longrightarrow> (\<And>r. r \<in> set ns \<Longrightarrow> new r) \<Longrightarrow> grows kept new rs rs'"
  by (auto simp: grows_def)

lemma grows_refl: "(\<And>r. kept r r) \<Longrightarrow> grows kept new rs rs"
  by (rule growsI [where u = "\<lambda>r. r" and ns = "[]"]) simp_all

lemma grows_update: "(\<And>r. r \<in> set rs \<Longrightarrow> w r \<Longrightarrow> kept r (f r)) \<Longrightarrow> (\<And>r. kept r r) \<Longrightarrow> grows kept new rs (sql_update w f rs)"
  by (rule growsI [where u = "\<lambda>r. if w r then f r else r" and ns = "[]"]) (auto simp: sql_update_def)

lemma grows_update_from:
  assumes "\<And>v r. w v r \<Longrightarrow> kept r (f v r)" and "\<And>r. kept r r"
  shows "grows kept new rs (sql_update_from w f vs rs)"
proof (rule growsI [where u = "\<lambda>r. case find (\<lambda>v. w v r) vs of None \<Rightarrow> r | Some v \<Rightarrow> f v r" and ns = "[]"])
  show "kept r (case find (\<lambda>v. w v r) vs of None \<Rightarrow> r | Some v \<Rightarrow> f v r)" for r
    using assms by (auto split: option.split dest!: find_SomeD)
qed (simp_all add: sql_update_from_def)

lemma grows_append: "(\<And>r. kept r r) \<Longrightarrow> new n \<Longrightarrow> grows kept new rs (rs @ [n])"
  by (rule growsI [where u = "\<lambda>r. r" and ns = "[n]"]) simp_all

lemma grows_upsert:
  "(\<And>r. r \<in> set rs \<Longrightarrow> hit r \<Longrightarrow> kept r (f r)) \<Longrightarrow> (\<And>r. kept r r) \<Longrightarrow> new n \<Longrightarrow> grows kept new rs (sql_upsert hit f n rs)"
  by (simp add: sql_upsert_def grows_update grows_append)

lemma grows_trans:
  assumes "grows kept new rs rs'" and "grows kept' new' rs' rs''"
    and "\<And>a b c. kept a b \<Longrightarrow> kept' b c \<Longrightarrow> kept a c"
    and "\<And>a b. new a \<Longrightarrow> kept' a b \<Longrightarrow> new b" and "\<And>a. new' a \<Longrightarrow> new a"
  shows "grows kept new rs rs''"
proof -
  obtain u ns where u: "rs' = map u rs @ ns" "\<And>r. r \<in> set rs \<Longrightarrow> kept r (u r)" "\<And>r. r \<in> set ns \<Longrightarrow> new r"
    using assms(1) by (auto simp: grows_def)
  obtain v ms where v: "rs'' = map v rs' @ ms" "\<And>r. r \<in> set rs' \<Longrightarrow> kept' r (v r)" "\<And>r. r \<in> set ms \<Longrightarrow> new' r"
    using assms(2) by (auto simp: grows_def)
  show ?thesis
  proof (rule growsI)
    show "rs'' = map (v \<circ> u) rs @ (map v ns @ ms)" using u(1) v(1) by simp
    show "kept r ((v \<circ> u) r)" if "r \<in> set rs" for r
      using assms(3) [OF u(2) [OF that] v(2)] that u(1) by auto
    show "new r" if "r \<in> set (map v ns @ ms)" for r
    proof -
      consider (old) x where "x \<in> set ns" "r = v x" | (fresh) "r \<in> set ms" using \<open>r \<in> set (map v ns @ ms)\<close> by auto
      then show ?thesis
      proof cases
        case old
        then have "kept' x (v x)" using v(2) u(1) by simp
        then show ?thesis using assms(4) u(3) old by blast
      qed (use v(3) assms(5) in blast)
    qed
  qed
qed

lemma grows_member: "grows kept new rs rs' \<Longrightarrow> r \<in> set rs \<Longrightarrow> \<exists>r'\<in>set rs'. kept r r'"
  by (auto simp: grows_def)

lemma grows_back: "grows kept new rs rs' \<Longrightarrow> r' \<in> set rs' \<Longrightarrow> (\<exists>r\<in>set rs. kept r r') \<or> new r'"
  unfolding grows_def by force

lemma grows_keys:
  assumes "grows kept new rs rs'" and "\<And>a b. kept a b \<Longrightarrow> k b = k a"
  shows "k ` set rs \<subseteq> k ` set rs'"
proof
  fix x assume "x \<in> k ` set rs"
  then obtain r where r: "r \<in> set rs" "x = k r" by blast
  obtain r' where "r' \<in> set rs'" "kept r r'" using grows_member [OF assms(1) r(1)] by blast
  then show "x \<in> k ` set rs'" using assms(2) r(2) by (metis image_eqI)
qed

section \<open>Catalogues\<close>

definition store_offer_kept :: "row_id \<Rightarrow> offer_row \<Rightarrow> offer_row \<Rightarrow> bool" where
  "store_offer_kept store x y \<longleftrightarrow> offer_kept x y \<and> (of_store x \<noteq> store \<longrightarrow> y = x)"

definition snapshot_kept :: "string \<Rightarrow> snapshot_row \<Rightarrow> snapshot_row \<Rightarrow> bool" where
  "snapshot_kept day s t \<longleftrightarrow> snapshot_key t = snapshot_key s \<and> (sn_captured_on s \<noteq> day \<longrightarrow> t = s)"

definition curated_links_kept :: "catalogue \<Rightarrow> catalogue \<Rightarrow> bool" where
  "curated_links_kept db db' \<longleftrightarrow>
     (\<forall>i\<in>product_ids db. \<not> uncurated db i \<longrightarrow>
        \<not> uncurated db' i \<and> (\<forall>f. source_at (ct_links db') i f = source_at (ct_links db) i f))"

definition evolves :: "row_id \<Rightarrow> string \<Rightarrow> catalogue \<Rightarrow> catalogue \<Rightarrow> bool" where
  "evolves store day db db' \<longleftrightarrow>
     grows product_kept (\<lambda>p. ct_next db \<le> pd_id p) (ct_products db) (ct_products db')
     \<and> grows (store_offer_kept store) (\<lambda>x. of_store x = store \<and> ct_next db \<le> of_id x) (ct_offers db) (ct_offers db')
     \<and> grows (snapshot_kept day) (\<lambda>s. sn_captured_on s = day) (ct_snapshots db) (ct_snapshots db')
     \<and> curated_links_kept db db'
     \<and> ct_aliases db' = ct_aliases db \<and> ct_favorites db' = ct_favorites db \<and> ct_blacklist db' = ct_blacklist db
     \<and> ct_collection db' = ct_collection db \<and> ct_purchases db' = ct_purchases db \<and> ct_next db \<le> ct_next db'"

lemma store_offer_kept_refl [simp]: "store_offer_kept store x x"
  by (simp add: store_offer_kept_def)

lemma snapshot_kept_refl [simp]: "snapshot_kept day s s"
  by (simp add: snapshot_kept_def)

lemma curated_links_kept_refl [simp]: "curated_links_kept db db"
  by (simp add: curated_links_kept_def)

lemma evolves_refl [simp]: "evolves store day db db"
  by (simp add: evolves_def grows_refl)

lemma evolves_ids:
  assumes "evolves store day db db'"
  shows "product_ids db \<subseteq> product_ids db'" and "of_id ` set (ct_offers db) \<subseteq> of_id ` set (ct_offers db')"
proof -
  show "product_ids db \<subseteq> product_ids db'" unfolding product_ids_def
    by (rule grows_keys [of product_kept]) (use assms in \<open>auto simp: evolves_def product_kept_def\<close>)
  show "of_id ` set (ct_offers db) \<subseteq> of_id ` set (ct_offers db')"
    by (rule grows_keys [of "store_offer_kept store"])
      (use assms in \<open>auto simp: evolves_def store_offer_kept_def offer_kept_def\<close>)
qed

lemma evolves_trans:
  assumes one: "evolves store day a b" and two: "evolves store day b c"
  shows "evolves store day a c"
proof -
  have ids: "ct_next a \<le> ct_next b" "ct_next b \<le> ct_next c" using one two by (simp_all add: evolves_def)
  have "grows product_kept (\<lambda>p. ct_next a \<le> pd_id p) (ct_products a) (ct_products c)"
  proof (rule grows_trans)
    show "grows product_kept (\<lambda>p. ct_next a \<le> pd_id p) (ct_products a) (ct_products b)" using one by (simp add: evolves_def)
    show "grows product_kept (\<lambda>p. ct_next b \<le> pd_id p) (ct_products b) (ct_products c)" using two by (simp add: evolves_def)
    show "product_kept p q \<Longrightarrow> product_kept q r \<Longrightarrow> product_kept p r" for p q r by (rule product_kept_trans)
    show "ct_next a \<le> pd_id p \<Longrightarrow> product_kept p q \<Longrightarrow> ct_next a \<le> pd_id q" for p q by (simp add: product_kept_def)
    show "ct_next b \<le> pd_id p \<Longrightarrow> ct_next a \<le> pd_id p" for p using ids by simp
  qed
  moreover have "grows (store_offer_kept store) (\<lambda>x. of_store x = store \<and> ct_next a \<le> of_id x) (ct_offers a) (ct_offers c)"
    by (rule grows_trans [where kept' = "store_offer_kept store" and new' = "\<lambda>x. of_store x = store \<and> ct_next b \<le> of_id x" and rs' = "ct_offers b"])
      (use one two ids in \<open>auto simp: evolves_def store_offer_kept_def offer_kept_def\<close>)
  moreover have "grows (snapshot_kept day) (\<lambda>s. sn_captured_on s = day) (ct_snapshots a) (ct_snapshots c)"
    by (rule grows_trans [where kept' = "snapshot_kept day" and new' = "\<lambda>s. sn_captured_on s = day" and rs' = "ct_snapshots b"])
      (use one two in \<open>auto simp: evolves_def snapshot_kept_def snapshot_key_def\<close>)
  moreover have "curated_links_kept a c"
    using one two evolves_ids(1) [OF one] by (auto simp: evolves_def curated_links_kept_def)
  ultimately show ?thesis using one two by (simp add: evolves_def)
qed

definition advances :: "row_id \<Rightarrow> string \<Rightarrow> catalogue \<Rightarrow> catalogue \<Rightarrow> bool" where
  \<comment> \<open>evolution under the constraints, which it keeps\<close>
  "advances store day db db' \<longleftrightarrow> (catalogue_ok db \<longrightarrow> catalogue_ok db' \<and> evolves store day db db')"

lemma advances_refl [simp]: "advances store day db db"
  by (simp add: advances_def)

lemma advances_trans: "advances store day a b \<Longrightarrow> advances store day b c \<Longrightarrow> advances store day a c"
  using evolves_trans unfolding advances_def by blast

lemma advances_fold:
  assumes "\<And>x s. x \<in> set xs \<Longrightarrow> advances store day (g s) (g (f x s))"
  shows "advances store day (g s) (g (fold f xs s))"
  using assms
proof (induction xs arbitrary: s)
  case (Cons x xs)
  have "advances store day (g s) (g (f x s))" by (rule Cons.prems) simp
  moreover have "advances store day (g (f x s)) (g (fold f xs (f x s)))" by (rule Cons.IH) (simp add: Cons.prems)
  ultimately have "advances store day (g s) (g (fold f xs (f x s)))" by (rule advances_trans)
  then show ?case by simp
qed simp

lemma advances_fold_inv:
  assumes "I s" and "\<And>x s. x \<in> set xs \<Longrightarrow> I s \<Longrightarrow> catalogue_ok (g s) \<Longrightarrow> advances store day (g s) (g (f x s)) \<and> I (f x s)"
    and "catalogue_ok (g s)"
  shows "catalogue_ok (g (fold f xs s)) \<and> evolves store day (g s) (g (fold f xs s)) \<and> I (fold f xs s)"
  using assms
proof (induction xs arbitrary: s)
  case (Cons x xs)
  have one: "advances store day (g s) (g (f x s))" and i: "I (f x s)" using Cons.prems by simp_all
  then have ok: "catalogue_ok (g (f x s))" "evolves store day (g s) (g (f x s))" using Cons.prems(3) by (simp_all add: advances_def)
  have "catalogue_ok (g (fold f xs (f x s))) \<and> evolves store day (g (f x s)) (g (fold f xs (f x s))) \<and> I (fold f xs (f x s))"
    by (rule Cons.IH) (use i ok Cons.prems(2) in auto)
  then show ?case using evolves_trans [OF ok(2)] by simp
qed simp

end
