(* ===== verification/Kb_Resolver.thy ===== *)
theory Kb_Resolver
  imports Catalogue_Writes
begin

text \<open>
  The knowledge base's resolver (scrape/kb/kb-resolver.service.ts, utils/kb-key.util.ts,
  utils/kb-alias.util.ts): which producer and bottler a name and a brand reach, the peat profile
  the rules and the producer give, and the tags the house style and the rules require, forbid and
  add. The case fold and accent fold of KbKeyUtils.normalize need the runtime's Unicode tables and
  are the parameter \<open>fold_key\<close>: the text between the two spaces the key is wrapped in.
\<close>

datatype producer_kind = Kind_Distillery | Kind_Brand | Kind_Blend | Kind_Bottler

datatype peat_profile = Peat_Unknown | Peat_None | Peat_Light | Peat_Medium | Peat_Heavy

datatype flavor_effect = Effect_Baseline | Effect_Require | Effect_Forbid

datatype rule_match_mode = Match_Word | Match_Prefix

datatype alias_scope = Scope_Brand | Scope_Name | Scope_Lead | Scope_Any

datatype peat_reason = Reason_Rule_Producer | Reason_Rule_Global | Reason_Producer | Reason_Unresolved

definition kb_name_alias_min_length :: nat where
  "kb_name_alias_min_length = 5"

record producer_facts =
  pf_id :: row_id
  pf_kind :: producer_kind
  pf_country :: "row_id option"
  pf_parent :: "row_id option"
  pf_bottler :: "row_id option"
  pf_default_type :: "string option"
  pf_peat :: peat_profile

record alias_entry =
  ae_key :: string
  ae_scope :: alias_scope
  ae_producer :: producer_facts

record flavor_rule =
  fr_producer :: "row_id option"
  fr_pattern :: string
  fr_mode :: rule_match_mode
  fr_flavor :: "row_id option"
  fr_effect :: "flavor_effect option"
  fr_peat :: "peat_profile option"

record house_flavor =
  hf_flavor :: row_id
  hf_effect :: flavor_effect

record peat_ids =
  peat_peated :: "row_id option"
  peat_smoky :: "row_id option"

record kb_index =
  kx_aliases :: "alias_entry list"
  kx_producers :: "(row_id \<times> producer_facts) list"
  kx_rules :: "flavor_rule list"
  kx_house :: "(row_id \<times> house_flavor list) list"
  kx_peat :: peat_ids

record kb_resolution =
  rs_product :: nat
  rs_producer :: "producer_facts option"
  rs_bottler :: "producer_facts option"
  rs_peat :: peat_profile
  rs_reason :: peat_reason
  rs_pattern :: "string option"
  rs_required :: "row_id list"
  rs_forbidden :: "row_id list"
  rs_baseline :: "row_id list"

section \<open>Keys\<close>

fun js_includes :: "string \<Rightarrow> string \<Rightarrow> bool" where
  \<comment> \<open>\<open>s.includes(p)\<close>\<close>
  "js_includes [] p = (p = [])"
| "js_includes (c # s) p = (starts_with (c # s) p \<or> js_includes s p)"

definition normalize_key :: "(string \<Rightarrow> string) \<Rightarrow> string \<Rightarrow> string" where
  "normalize_key fold_key text = '' '' @ fold_key text @ '' ''"

definition kb_key :: "(string \<Rightarrow> string) \<Rightarrow> string \<Rightarrow> string" where
  "kb_key fold_key text = js_trim (normalize_key fold_key text)"

definition matches_word :: "string \<Rightarrow> string \<Rightarrow> bool" where
  "matches_word haystack pat = (if pat = [] then False else js_includes haystack ('' '' @ pat @ '' ''))"

definition matches_prefix :: "string \<Rightarrow> string \<Rightarrow> bool" where
  "matches_prefix haystack pat = (if pat = [] then False else js_includes haystack ('' '' @ pat))"

section \<open>Aliases\<close>

definition match_by_brand :: "string option \<Rightarrow> alias_entry list \<Rightarrow> alias_entry option" where
  "match_by_brand brand aliases =
     (case brand of
        None \<Rightarrow> None
      | Some k \<Rightarrow> if k = [] then None
                  else find (\<lambda>a. ae_key a = k \<and> ae_scope a \<noteq> Scope_Name) aliases)"

definition reaches_name :: "alias_entry \<Rightarrow> bool" where
  "reaches_name a =
     (if ae_scope a = Scope_Brand then False
      else ae_scope a = Scope_Lead \<or> kb_name_alias_min_length \<le> length (ae_key a))"

definition matches_scope :: "string \<Rightarrow> alias_entry \<Rightarrow> bool" where
  "matches_scope name a =
     (if \<not> reaches_name a then False
      else if ae_scope a = Scope_Lead then starts_with name ('' '' @ ae_key a @ '' '')
      else matches_word name (ae_key a))"

definition match_in_name :: "string \<Rightarrow> alias_entry list \<Rightarrow> row_id option \<Rightarrow> alias_entry option" where
  "match_in_name name aliases exclude =
     find (\<lambda>a. Some (pf_id (ae_producer a)) \<noteq> exclude \<and> matches_scope name a) aliases"

section \<open>Producer and bottler\<close>

definition arbitrate :: "producer_facts option \<Rightarrow> producer_facts option \<Rightarrow> producer_facts option" where
  "arbitrate by_brand in_name =
     (case (by_brand, in_name) of
        (Some b, Some n) \<Rightarrow>
          if pf_id b = pf_id n then Some b
          else if pf_parent n = Some (pf_id b) then Some n
          else if pf_parent b = Some (pf_id n) then Some b
          else Some b
      | _ \<Rightarrow> coalesce by_brand in_name)"

definition bottler_of :: "producer_facts option \<Rightarrow> producer_facts option \<Rightarrow> producer_facts option \<Rightarrow>
    (row_id \<times> producer_facts) list \<Rightarrow> producer_facts option" where
  "bottler_of producer in_name by_brand producers =
     (let owner = (case producer of None \<Rightarrow> None
                   | Some p \<Rightarrow> (case pf_bottler p of None \<Rightarrow> None | Some i \<Rightarrow> js_get producers i));
          pid = map_option pf_id producer;
          named = find (\<lambda>q. pf_kind q = Kind_Bottler) (List.map_filter (\<lambda>q. q) [in_name, by_brand])
      in if (case owner of None \<Rightarrow> False | Some q \<Rightarrow> Some (pf_id q) \<noteq> pid) then owner
         else if (case named of None \<Rightarrow> False | Some q \<Rightarrow> Some (pf_id q) \<noteq> pid) then named
         else None)"

definition match_producer :: "string \<Rightarrow> string option \<Rightarrow> kb_index \<Rightarrow> producer_facts option \<times> producer_facts option" where
  "match_producer name brand kx =
     (let by_brand = map_option ae_producer (match_by_brand brand (kx_aliases kx));
          bottler_brand = (map_option pf_kind by_brand = Some Kind_Bottler);
          in_name = map_option ae_producer (match_in_name name (kx_aliases kx) (map_option pf_id by_brand));
          chosen = (if bottler_brand then in_name else arbitrate by_brand in_name);
          bottler = bottler_of chosen in_name by_brand (kx_producers kx)
      in if map_option pf_kind chosen = Some Kind_Bottler then (None, coalesce bottler chosen)
         else (chosen, bottler))"

section \<open>Rules\<close>

definition rule_matches :: "string \<Rightarrow> flavor_rule \<Rightarrow> bool" where
  "rule_matches name r =
     (if fr_mode r = Match_Prefix then matches_prefix name (fr_pattern r) else matches_word name (fr_pattern r))"

definition rule_applies :: "string \<Rightarrow> producer_facts option \<Rightarrow> flavor_rule \<Rightarrow> bool" where
  "rule_applies name producer r \<longleftrightarrow>
     (fr_producer r = None \<or> fr_producer r = map_option pf_id producer) \<and> rule_matches name r"

definition resolve_peat :: "string \<Rightarrow> producer_facts option \<Rightarrow> flavor_rule list \<Rightarrow>
    peat_profile \<times> peat_reason \<times> string option" where
  "resolve_peat name producer rules =
     (case find (\<lambda>r. fr_peat r \<noteq> None \<and> rule_applies name producer r) rules of
        Some r \<Rightarrow> (the (fr_peat r), (if fr_producer r \<noteq> None then Reason_Rule_Producer else Reason_Rule_Global), Some (fr_pattern r))
      | None \<Rightarrow>
          (case producer of
             None \<Rightarrow> (Peat_Unknown, Reason_Unresolved, None)
           | Some p \<Rightarrow> if pf_peat p \<noteq> Peat_Unknown then (pf_peat p, Reason_Producer, None)
                       else (Peat_Unknown, Reason_Producer, None)))"

record tag_sets =
  tg_required :: "row_id list"
  tg_forbidden :: "row_id list"
  tg_baseline :: "row_id list"

definition set_add :: "'a \<Rightarrow> 'a list \<Rightarrow> 'a list" where
  \<comment> \<open>a set in insertion order\<close>
  "set_add x xs = (if x \<in> set xs then xs else xs @ [x])"

definition house_step :: "house_flavor \<Rightarrow> tag_sets \<Rightarrow> tag_sets" where
  "house_step h t =
     (case hf_effect h of
        Effect_Forbid \<Rightarrow> t\<lparr>tg_forbidden := set_add (hf_flavor h) (tg_forbidden t)\<rparr>
      | Effect_Require \<Rightarrow> t\<lparr>tg_required := set_add (hf_flavor h) (tg_required t)\<rparr>
      | Effect_Baseline \<Rightarrow> t\<lparr>tg_baseline := set_add (hf_flavor h) (tg_baseline t)\<rparr>)"

definition rule_step :: "flavor_rule \<Rightarrow> tag_sets \<Rightarrow> tag_sets" where
  "rule_step r t =
     (case fr_flavor r of
        None \<Rightarrow> t
      | Some f \<Rightarrow>
          (case fr_effect r of
             Some Effect_Require \<Rightarrow> t\<lparr>tg_required := set_add f (tg_required t), tg_forbidden := removeAll f (tg_forbidden t)\<rparr>
           | Some Effect_Forbid \<Rightarrow> t\<lparr>tg_forbidden := set_add f (tg_forbidden t), tg_required := removeAll f (tg_required t)\<rparr>
           | _ \<Rightarrow> t))"

definition resolve_tags :: "string \<Rightarrow> producer_facts option \<Rightarrow> kb_index \<Rightarrow> tag_sets" where
  "resolve_tags name producer kx =
     (let house = (case producer of None \<Rightarrow> []
                   | Some p \<Rightarrow> (case js_get (kx_house kx) (pf_id p) of None \<Rightarrow> [] | Some hs \<Rightarrow> hs));
          styled = fold house_step house \<lparr>tg_required = [], tg_forbidden = [], tg_baseline = []\<rparr>;
          matched = filter (\<lambda>r. fr_flavor r \<noteq> None \<and> rule_applies name producer r) (kx_rules kx);
          ruled = fold rule_step matched styled
      in ruled\<lparr>tg_baseline := filter (\<lambda>f. f \<notin> set (tg_forbidden ruled)) (tg_baseline ruled)\<rparr>)"

section \<open>Resolving\<close>

record resolve_input =
  ri_id :: nat
  ri_name :: "string option"
  ri_brand :: "string option"

definition resolve_one :: "(string \<Rightarrow> string) \<Rightarrow> kb_index \<Rightarrow> resolve_input \<Rightarrow> kb_resolution" where
  "resolve_one fold_key kx ri =
     (let name = normalize_key fold_key (case ri_name ri of None \<Rightarrow> [] | Some n \<Rightarrow> n);
          brand = (case ri_brand ri of None \<Rightarrow> None | Some b \<Rightarrow> if b = [] then None else Some (kb_key fold_key b));
          (producer, bottler) = match_producer name brand kx;
          (profile, reason, pat) = resolve_peat name producer (kx_rules kx);
          tags = resolve_tags name producer kx
      in \<lparr>rs_product = ri_id ri, rs_producer = producer, rs_bottler = bottler, rs_peat = profile,
          rs_reason = reason, rs_pattern = pat, rs_required = tg_required tags,
          rs_forbidden = tg_forbidden tags, rs_baseline = tg_baseline tags\<rparr>)"

definition kb_resolve :: "(string \<Rightarrow> string) \<Rightarrow> kb_index \<Rightarrow> resolve_input list \<Rightarrow> kb_resolution list" where
  "kb_resolve fold_key kx inputs = map (resolve_one fold_key kx) inputs"

fun peat_tags :: "peat_profile \<Rightarrow> string list" where
  "peat_tags Peat_Unknown = []"
| "peat_tags Peat_None = []"
| "peat_tags Peat_Light = [''smoky'']"
| "peat_tags Peat_Medium = [''peated'', ''smoky'']"
| "peat_tags Peat_Heavy = [''peated'', ''smoky'']"

end
