(* ===== verification/Kb_Apply.thy ===== *)
theory Kb_Apply
  imports Kb_Resolver
begin

text \<open>
  Turning the knowledge base's answers into writes (scrape/kb/kb-apply.service.ts): bottlings are
  grouped by name, each group is resolved once under its most frequent brand, and every row of the
  group gets the group's producer link, facts and flavor changes. \<open>lower\<close> is the runtime's lower
  case and \<open>coll\<close> its locale order.
\<close>

record kb_row =
  kr_id :: row_id
  kr_name :: "string option"
  kr_brand :: "string option"
  kr_curated_at :: "int option"
  kr_flavors :: "(row_id \<times> flavor_source) list"

type_synonym group_key = "string + row_id"
  \<comment> \<open>the lower-cased name, or the row's own id behind a space\<close>

record kb_group =
  kg_key :: group_key
  kg_name :: "string option"
  kg_rows :: "kb_row list"

definition group_key_of :: "(string \<Rightarrow> string) \<Rightarrow> kb_row \<Rightarrow> group_key" where
  "group_key_of lower r = (case kr_name r of None \<Rightarrow> Inr (kr_id r) | Some n \<Rightarrow> if n = [] then Inr (kr_id r) else Inl (lower n))"

definition group_by_name :: "(string \<Rightarrow> string) \<Rightarrow> kb_row list \<Rightarrow> kb_group list" where
  "group_by_name lower rows =
     map (\<lambda>(k, rs). \<lparr>kg_key = k, kg_name = kr_name (hd rs), kg_rows = rs\<rparr>) (js_group_by (group_key_of lower) rows)"

definition brand_of :: "(string \<Rightarrow> string \<Rightarrow> rat) \<Rightarrow> kb_group \<Rightarrow> string option" where
  "brand_of coll g =
     (let brands = List.map_filter (\<lambda>r. case kr_brand r of None \<Rightarrow> None | Some b \<Rightarrow> if b = [] then None else Some b) (kg_rows g);
          counts = map (\<lambda>(b, bs). (b, length bs)) (js_group_by (\<lambda>b. b) brands);
          ranked = js_sort (\<lambda>l r. js_or (of_nat (snd r) - of_nat (snd l)) (coll (fst l) (fst r))) counts
      in case ranked of [] \<Rightarrow> None | c # _ \<Rightarrow> Some (fst c))"

section \<open>Flavor changes of one bottling\<close>

definition is_peat :: "peat_ids \<Rightarrow> row_id \<Rightarrow> bool" where
  "is_peat ids f \<longleftrightarrow> Some f = peat_peated ids \<or> Some f = peat_smoky ids"

definition wanted_peat :: "peat_ids \<Rightarrow> peat_profile \<Rightarrow> row_id list" where
  "wanted_peat ids profile =
     js_set (List.map_filter (\<lambda>tag. if tag = ''peated'' then peat_peated ids else peat_smoky ids) (peat_tags profile))"

definition removal_step :: "peat_ids \<Rightarrow> bool \<Rightarrow> row_id list \<Rightarrow> row_id list \<Rightarrow> row_id \<times> flavor_source \<Rightarrow> row_id list \<Rightarrow> row_id list" where
  "removal_step ids spared wanted forbidden l del =
     (if snd l = Flavor_Manual then del
      else if is_peat ids (fst l) then (if \<not> spared \<and> fst l \<notin> set wanted then set_add (fst l) del else del)
      else if snd l \<in> {Flavor_Scrape, Flavor_Llm} \<and> fst l \<in> set forbidden then set_add (fst l) del
      else del)"

definition linked_by :: "flavor_source \<Rightarrow> kb_row \<Rightarrow> row_id list" where
  "linked_by src row = map fst (filter (\<lambda>l. snd l = src) (kr_flavors row))"

definition want_step :: "row_id list \<Rightarrow> row_id list \<Rightarrow> row_id \<Rightarrow> row_id list \<Rightarrow> row_id list" where
  "want_step manual owned f ins = (if f \<notin> set manual \<and> f \<notin> set owned then set_add f ins else ins)"

definition require_step :: "peat_ids \<Rightarrow> row_id list \<Rightarrow> row_id list \<Rightarrow> row_id \<Rightarrow> row_id list \<times> row_id list \<Rightarrow> row_id list \<times> row_id list" where
  "require_step ids manual owned f st =
     (if Some f = peat_peated ids \<or> f \<in> set manual then st
      else (if f \<notin> set owned then set_add f (fst st) else fst st, removeAll f (snd st)))"

definition baseline_step :: "row_id list \<Rightarrow> row_id list \<Rightarrow> row_id \<Rightarrow> row_id list \<Rightarrow> row_id list" where
  "baseline_step held del f ins = (if f \<notin> set held \<and> f \<notin> set del then set_add f ins else ins)"

definition plan_flavors :: "bool \<Rightarrow> peat_ids \<Rightarrow> kb_row \<Rightarrow> kb_resolution \<Rightarrow> flavor_write" where
  "plan_flavors keep_unknown ids row res =
     (let wanted = wanted_peat ids (rs_peat res);
          spared = (keep_unknown \<and> rs_peat res = Peat_Unknown);
          manual = linked_by Flavor_Manual row;
          swept = fold (removal_step ids spared wanted (rs_forbidden res)) (kr_flavors row) [];
          held = map fst (kr_flavors row);
          owned = linked_by Flavor_Kb row;
          wished = fold (want_step manual owned) wanted [];
          (required, del) = fold (require_step ids manual owned) (rs_required res) (wished, swept);
          ins = fold (baseline_step held del) (rs_baseline res) required
      in \<lparr>vw_product = kr_id row, vw_insert = ins, vw_delete = del\<rparr>)"

section \<open>The plan\<close>

record kb_plan =
  kp_groups :: "kb_group list"
  kp_resolutions :: "kb_resolution list"
  kp_producers :: "producer_write list"
  kp_facts :: "fact_write list"
  kp_flavors :: "flavor_write list"

definition producer_write_of :: "kb_resolution \<Rightarrow> kb_row \<Rightarrow> producer_write" where
  "producer_write_of res row =
     \<lparr>pw_product = kr_id row, pw_producer = map_option pf_id (rs_producer res),
      pw_bottler = map_option pf_id (rs_bottler res), pw_source = Fact_Kb\<rparr>"

definition fact_write_of :: "(string \<times> row_id) list \<Rightarrow> kb_resolution \<Rightarrow> kb_row \<Rightarrow> fact_write" where
  "fact_write_of type_ids res row =
     (let type_name = (case rs_producer res of None \<Rightarrow> None | Some p \<Rightarrow> pf_default_type p)
      in \<lparr>fw_product = kr_id row,
          fw_country = (case rs_producer res of None \<Rightarrow> None | Some p \<Rightarrow> pf_country p),
          fw_type = (case type_name of None \<Rightarrow> None | Some n \<Rightarrow> if n = [] then None else js_get type_ids n)\<rparr>)"

definition flavor_write_of :: "bool \<Rightarrow> peat_ids \<Rightarrow> kb_resolution \<Rightarrow> kb_row \<Rightarrow> flavor_write" where
  "flavor_write_of keep_unknown ids res row =
     (if kr_curated_at row \<noteq> None then \<lparr>vw_product = kr_id row, vw_insert = [], vw_delete = []\<rparr>
      else plan_flavors keep_unknown ids row res)"

definition group_inputs :: "(string \<Rightarrow> string \<Rightarrow> rat) \<Rightarrow> kb_group list \<Rightarrow> resolve_input list" where
  "group_inputs coll gs =
     map (\<lambda>(i, g). \<lparr>ri_id = i, ri_name = kg_name g, ri_brand = brand_of coll g\<rparr>) (zip [0..<length gs] gs)"

definition kb_plan_for :: "(string \<Rightarrow> string) \<Rightarrow> (string \<Rightarrow> string) \<Rightarrow> (string \<Rightarrow> string \<Rightarrow> rat) \<Rightarrow> bool \<Rightarrow>
    kb_index \<Rightarrow> (string \<times> row_id) list \<Rightarrow> kb_row list \<Rightarrow> kb_plan" where
  "kb_plan_for fold_key lower coll keep_unknown kx type_ids rows =
     (let groups = group_by_name lower rows;
          resolutions = kb_resolve fold_key kx (group_inputs coll groups);
          pairs = zip groups resolutions
      in \<lparr>kp_groups = groups, kp_resolutions = resolutions, kp_producers = concat (map (\<lambda>(g, res). map (producer_write_of res) (kg_rows g)) pairs),
          kp_facts = concat (map (\<lambda>(g, res). map (fact_write_of type_ids res) (kg_rows g)) pairs),
          kp_flavors = concat (map (\<lambda>(g, res). map (flavor_write_of keep_unknown (kx_peat kx) res) (kg_rows g))
                         pairs)\<rparr>)"

section \<open>The pass over the bottlings of a run\<close>

definition kb_row_of :: "catalogue \<Rightarrow> product_row \<Rightarrow> kb_row" where
  \<comment> \<open>the order the links are aggregated in is immaterial: the planner folds them into sets\<close>
  "kb_row_of db p =
     \<lparr>kr_id = pd_id p, kr_name = pd_name p, kr_brand = pd_brand_orig p, kr_curated_at = pd_flavors_curated_at p,
      kr_flavors = map (\<lambda>l. (fl_flavor l, fl_source l)) (filter (\<lambda>l. fl_product l = pd_id p) (ct_links db))\<rparr>"

definition by_lower_name :: "(string \<Rightarrow> string) \<Rightarrow> (string \<Rightarrow> string \<Rightarrow> rat) \<Rightarrow> product_row \<Rightarrow> product_row \<Rightarrow> rat" where
  "by_lower_name lower coll a b =
     js_or (coll (lower (case pd_name a of None \<Rightarrow> [] | Some n \<Rightarrow> n)) (lower (case pd_name b of None \<Rightarrow> [] | Some n \<Rightarrow> n)))
           (by_number pd_id a b)"

definition kb_reconcile_candidates :: "(string \<Rightarrow> string) \<Rightarrow> (string \<Rightarrow> string \<Rightarrow> rat) \<Rightarrow> row_id list \<Rightarrow> catalogue \<Rightarrow> kb_row list" where
  "kb_reconcile_candidates lower coll ids db =
     map (kb_row_of db)
       (js_sort (by_lower_name lower coll) (filter (\<lambda>p. ids = [] \<or> pd_id p \<in> set ids) (ct_products db)))"

definition kb_type_ids :: "string list \<Rightarrow> catalogue \<Rightarrow> (string \<times> row_id) list" where
  "kb_type_ids names db =
     (let keys = js_set (filter (\<lambda>n. n \<noteq> []) names)
      in if keys = [] then []
         else js_map (map (\<lambda>r. (lk_name r, lk_id r)) (filter (\<lambda>r. lk_name r \<in> set keys) (ct_types db))))"

definition default_type_names :: "kb_index \<Rightarrow> string list" where
  "default_type_names kx =
     js_set (filter (\<lambda>n. n \<noteq> []) (List.map_filter (\<lambda>a. pf_default_type (ae_producer a)) (kx_aliases kx)))"

definition kb_plan_of_run :: "(string \<Rightarrow> string) \<Rightarrow> (string \<Rightarrow> string) \<Rightarrow> (string \<Rightarrow> string \<Rightarrow> rat) \<Rightarrow>
    kb_index \<Rightarrow> row_id list \<Rightarrow> catalogue \<Rightarrow> kb_plan" where
  "kb_plan_of_run fold_key lower coll kx ids db =
     kb_plan_for fold_key lower coll False kx (kb_type_ids (default_type_names kx) db)
       (kb_reconcile_candidates lower coll ids db)"

definition writes_flavors :: "flavor_write \<Rightarrow> bool" where
  "writes_flavors w \<longleftrightarrow> vw_insert w \<noteq> [] \<or> vw_delete w \<noteq> []"

definition apply_kb_plan :: "int \<Rightarrow> kb_plan \<Rightarrow> catalogue \<Rightarrow> catalogue" where
  "apply_kb_plan now plan db =
     apply_kb_flavors (filter writes_flavors (kp_flavors plan))
       (apply_kb_facts now (kp_facts plan) (set_producers now (kp_producers plan) db))"

definition unresolved_groups :: "kb_plan \<Rightarrow> nat" where
  "unresolved_groups plan = length (filter (\<lambda>r. rs_producer r = None) (kp_resolutions plan))"

definition apply_kb :: "(string \<Rightarrow> string) \<Rightarrow> (string \<Rightarrow> string) \<Rightarrow> (string \<Rightarrow> string \<Rightarrow> rat) \<Rightarrow> int \<Rightarrow>
    kb_index \<Rightarrow> row_id list \<Rightarrow> catalogue \<Rightarrow> (nat \<times> nat) option \<times> catalogue" where
  \<comment> \<open>with the group count and the unresolved count it reports, when it ran\<close>
  "apply_kb fold_key lower coll now kx ids db =
     (if ids = [] then (None, db)
      else if kx_aliases kx = [] then (None, db)
      else (let plan = kb_plan_of_run fold_key lower coll kx ids db
            in (Some (length (kp_groups plan), unresolved_groups plan), apply_kb_plan now plan db)))"

end
