(* ===== verification/Catalogue_Write_Facts.thy ===== *)
theory Catalogue_Write_Facts
  imports Catalogue_Evolution Kb_Apply
begin

text \<open>
  Every write of a scrape keeps the constraints of the catalogue and is a step of \<open>evolves\<close>: one
  lemma per operation, over a lemma for each way a table is changed.
\<close>

section \<open>Tables\<close>

lemma advancesI:
  "(catalogue_ok db \<Longrightarrow> catalogue_ok db') \<Longrightarrow> (catalogue_ok db \<Longrightarrow> evolves store day db db') \<Longrightarrow> advances store day db db'"
  by (simp add: advances_def)

lemma advances_lookup:
  assumes "ct_next db \<le> n"
  shows "advances store day db (db\<lparr>ct_types := ts, ct_next := n\<rparr>)"
    and "advances store day db (db\<lparr>ct_flavors := ts, ct_next := n\<rparr>)"
  using assms
  by (fastforce simp: advances_def catalogue_ok_def constraint_defs product_ids_def evolves_def grows_refl
      curated_links_kept_def uncurated_def)+

lemma advances_products:
  assumes kept: "\<And>p. product_kept p (u p)"
  shows "advances store day db (db\<lparr>ct_products := map u (ct_products db)\<rparr>)"
proof (rule advancesI)
  let ?db = "db\<lparr>ct_products := map u (ct_products db)\<rparr>"
  have same: "pd_id (u p) = pd_id p" "pd_match_key (u p) = pd_match_key p"
    "pd_flavors_curated_at (u p) = pd_flavors_curated_at p" for p using kept [of p] by (simp_all add: product_kept_def)
  have ids: "product_ids ?db = product_ids db" and keys: "live_keys (map u (ct_products db)) = live_keys (ct_products db)"
    by (simp_all add: product_ids_def same live_keys_def image_image)
  have ps: "products_ok (map u (ct_products db)) n" if "products_ok (ct_products db) n" for n
  proof -
    have "map pd_id (map u (ct_products db)) = map pd_id (ct_products db)" by (simp add: same)
    moreover have "\<forall>p\<in>set (map u (ct_products db)). pd_id p < n" using that by (auto simp: products_ok_def same)
    moreover have "u p = u q" if "p \<in> set (ct_products db)" "q \<in> set (ct_products db)"
      "pd_match_key (u p) \<noteq> None" "pd_match_key (u p) = pd_match_key (u q)" for p q
    proof -
      have "p = q" using \<open>products_ok (ct_products db) n\<close> that unfolding products_ok_def same by blast
      then show ?thesis by simp
    qed
    ultimately show ?thesis using that unfolding products_ok_def by (metis (no_types, lifting) imageE set_map)
  qed
  show "catalogue_ok db \<Longrightarrow> catalogue_ok ?db"
    using ps by (simp add: catalogue_ok_def ids keys)
  have "uncurated ?db i = uncurated db i" for i by (simp add: uncurated_def same)
  then have "curated_links_kept db ?db" by (simp add: curated_links_kept_def)
  moreover have "grows product_kept (\<lambda>p. ct_next db \<le> pd_id p) (ct_products db) (map u (ct_products db))"
    by (rule growsI [where u = u and ns = "[]"]) (simp_all add: kept)
  ultimately show "evolves store day db ?db" by (simp add: evolves_def grows_refl)
qed

lemma advances_update:
  "(\<And>p. w p \<Longrightarrow> product_kept p (f p)) \<Longrightarrow> advances store day db (db\<lparr>ct_products := sql_update w f (ct_products db)\<rparr>)"
  unfolding sql_update_def by (rule advances_products) simp

lemma advances_update_from:
  assumes "\<And>v p. w v p \<Longrightarrow> product_kept p (f v p)"
  shows "advances store day db (db\<lparr>ct_products := sql_update_from w f vs (ct_products db)\<rparr>)"
  unfolding sql_update_from_def
proof (rule advances_products)
  show "product_kept p (case find (\<lambda>v. w v p) vs of None \<Rightarrow> p | Some v \<Rightarrow> f v p)" for p
    using assms by (auto split: option.split dest!: find_SomeD)
qed

lemma advances_insert:
  assumes "case key of None \<Rightarrow> True | Some k \<Rightarrow> k \<notin> live_keys (ct_products db) \<and> k \<notin> al_key ` set (ct_aliases db)"
  shows "advances store day db (snd (insert_product now key ci db))"
proof (rule advancesI)
  let ?p = "new_product now (ct_next db) key ci" and ?db = "snd (insert_product now key ci db)"
  have p: "pd_id ?p = ct_next db" "pd_match_key ?p = key" by (simp_all add: new_product_def)
  show "evolves store day db ?db" if ok: "catalogue_ok db"
  proof -
    have "ct_next db \<notin> product_ids db" using ok by (auto simp: catalogue_ok_def products_ok_def product_ids_def)
    then have "curated_links_kept db ?db" by (auto simp: curated_links_kept_def insert_product_def uncurated_def p)
    then show ?thesis by (simp add: evolves_def grows_refl insert_product_def grows_append p)
  qed
  show "catalogue_ok ?db" if ok: "catalogue_ok db"
  proof -
    note d = catalogue_okD [OF ok]
    have ids: "product_ids ?db = insert (ct_next db) (product_ids db)" by (simp add: insert_product_def product_ids_def p)
    have keys: "live_keys (ct_products ?db) = live_keys (ct_products db) \<union> {k. key = Some k}"
      by (auto simp: insert_product_def live_keys_def p)
    have "products_ok (ct_products db @ [?p]) (ct_next db + 1)"
      using d(1) assms by (fastforce simp: products_ok_def p live_keys_def split: option.splits)
    moreover have "aliases_ok (ct_aliases db) (live_keys (ct_products ?db)) (product_ids ?db)"
      using d(2) assms by (auto simp: aliases_ok_def keys ids split: option.splits)
    moreover have "offers_ok (ct_offers db) (product_ids ?db) (ct_next db + 1)"
      using d(3) by (fastforce simp: offers_ok_def ids)
    moreover have "collection_ok (ct_collection db) (product_ids ?db) (ct_next db + 1)"
      using d(9) by (fastforce simp: collection_ok_def ids)
    moreover have "links_ok (ct_links db) (product_ids ?db)" "conflicts_ok (ct_conflicts db) (product_ids ?db)"
      "user_list_ok (ct_favorites db) (product_ids ?db)" "user_list_ok (ct_blacklist db) (product_ids ?db)"
      using d(5-8) by (auto simp: links_ok_def conflicts_ok_def user_list_ok_def ids)
    moreover have "ct_products ?db = ct_products db @ [?p]" "ct_next ?db = ct_next db + 1" "ct_aliases ?db = ct_aliases db"
      "ct_offers ?db = ct_offers db" "ct_snapshots ?db = ct_snapshots db" "ct_links ?db = ct_links db"
      "ct_conflicts ?db = ct_conflicts db" "ct_favorites ?db = ct_favorites db" "ct_blacklist ?db = ct_blacklist db"
      "ct_collection ?db = ct_collection db" "ct_purchases ?db = ct_purchases db" by (simp_all add: insert_product_def)
    ultimately show ?thesis using d(4,10) by (simp add: catalogue_ok_def)
  qed
qed

lemma advances_links:
  assumes "catalogue_ok db \<Longrightarrow> links_ok ls (product_ids db)"
    and "\<And>i f. catalogue_ok db \<Longrightarrow> \<not> uncurated db i \<Longrightarrow> source_at ls i f = source_at (ct_links db) i f"
  shows "advances store day db (db\<lparr>ct_links := ls\<rparr>)"
proof (rule advancesI)
  let ?db = "db\<lparr>ct_links := ls\<rparr>"
  have [simp]: "product_ids ?db = product_ids db" "uncurated ?db i = uncurated db i" for i
    by (simp_all add: product_ids_def uncurated_def)
  show "catalogue_ok db \<Longrightarrow> catalogue_ok ?db" using assms(1) by (auto simp: catalogue_ok_def)
  show "catalogue_ok db \<Longrightarrow> evolves store day db ?db"
    using assms(2) by (simp add: evolves_def grows_refl curated_links_kept_def)
qed

lemma advances_conflicts:
  assumes "catalogue_ok db \<Longrightarrow> conflicts_ok cs (product_ids db)"
  shows "advances store day db (db\<lparr>ct_conflicts := cs\<rparr>)"
  using assms
  by (auto simp: advances_def catalogue_ok_def product_ids_def evolves_def grows_refl curated_links_kept_def uncurated_def)

lemma advances_offers:
  assumes grow: "grows (store_offer_kept store) (\<lambda>x. of_store x = store \<and> ct_next db \<le> of_id x) (ct_offers db) os"
    and ok: "catalogue_ok db \<Longrightarrow> offers_ok os (product_ids db) n" and n: "ct_next db \<le> n"
  shows "advances store day db (db\<lparr>ct_offers := os, ct_next := n\<rparr>)"
proof (rule advancesI)
  let ?db = "db\<lparr>ct_offers := os, ct_next := n\<rparr>"
  have [simp]: "product_ids ?db = product_ids db" "uncurated ?db i = uncurated db i" for i
    by (simp_all add: product_ids_def uncurated_def)
  have ids: "of_id ` set (ct_offers db) \<subseteq> of_id ` set os"
    by (rule grows_keys [OF grow]) (simp add: store_offer_kept_def offer_kept_def)
  show "catalogue_ok ?db" if c: "catalogue_ok db"
  proof -
    note d = catalogue_okD [OF c]
    have "products_ok (ct_products db) n" using d(1) n by (fastforce simp: products_ok_def)
    moreover have "snapshots_ok (ct_snapshots db) (of_id ` set os)" using d(4) ids unfolding snapshots_ok_def by (meson subset_trans)
    moreover have "collection_ok (ct_collection db) (product_ids db) n" using d(9) n by (fastforce simp: collection_ok_def)
    ultimately show ?thesis using d ok [OF c] by (simp add: catalogue_ok_def)
  qed
  show "catalogue_ok db \<Longrightarrow> evolves store day db ?db"
    using grow n by (simp add: evolves_def grows_refl curated_links_kept_def)
qed

lemma advances_snapshots:
  assumes "grows (snapshot_kept day) (\<lambda>s. sn_captured_on s = day) (ct_snapshots db) ss"
    and "catalogue_ok db \<Longrightarrow> snapshots_ok ss (of_id ` set (ct_offers db))"
  shows "advances store day db (db\<lparr>ct_snapshots := ss\<rparr>)"
  using assms
  by (auto simp: advances_def catalogue_ok_def product_ids_def evolves_def grows_refl curated_links_kept_def uncurated_def)

section \<open>Facts\<close>

lemma fill_step: "fact_step v s (fill_value w src v s) (fill_source w src v s)"
  by (auto simp: fact_step_def fill_value_def fill_source_def incoming_wins_def)

lemma fill_missing_advances: "advances store day db (fill_missing now fills db)"
proof (cases "fills = []")
  case False
  have "product_kept p (fill_row now v p)" for v p
    by (auto simp: product_kept_def fill_row_def fill_step coalesce_def)
  then show ?thesis using False by (simp add: fill_missing_def advances_update_from)
qed (simp add: fill_missing_def)

lemma set_producers_advances: "advances store day db (set_producers now ws db)"
  unfolding set_producers_def by (auto simp: product_kept_def intro!: advances_update_from)

lemma apply_kb_facts_advances: "advances store day db (apply_kb_facts now ws db)"
proof (cases "ws = []")
  case False
  have "product_kept p (kb_fact_row now v p)" for v p
    by (auto simp: product_kept_def kb_fact_row_def coalesce_def fact_step_def kb_may_write_def)
  then show ?thesis using False by (simp add: apply_kb_facts_def advances_update_from)
qed (simp add: apply_kb_facts_def)

lemma stamp_llm_advances: "advances store day db (stamp_llm now i db)"
  unfolding stamp_llm_def by (rule advances_update) (simp add: product_kept_def)

section \<open>Links\<close>

lemma uncurated_exists: "uncurated db i \<Longrightarrow> i \<in> product_ids db"
  by (auto simp: uncurated_def product_ids_def)

lemma filter_uncurated: "fst ` set (filter (\<lambda>e. uncurated db (fst e)) es) \<subseteq> product_ids db"
  by (auto simp: uncurated_exists)

lemma source_at_put_other: "(i, f) \<notin> set es \<Longrightarrow> source_at (fold (put_link k src) es ls) i f = source_at ls i f"
  by (induction es arbitrary: ls) auto

lemma put_uncurated_advances:
  assumes "\<And>e. e \<in> set es \<Longrightarrow> uncurated db (fst e)"
  shows "advances store day db (db\<lparr>ct_links := fold (put_link k src) es (ct_links db)\<rparr>)"
proof (rule advances_links)
  have "fst ` set es \<subseteq> product_ids db" using assms uncurated_exists by auto
  then show "catalogue_ok db \<Longrightarrow> links_ok (fold (put_link k src) es (ct_links db)) (product_ids db)"
    using links_ok_fold_put catalogue_okD(5) by blast
  show "\<not> uncurated db i \<Longrightarrow> source_at (fold (put_link k src) es (ct_links db)) i f = source_at (ct_links db) i f" for i f
    by (rule source_at_put_other) (use assms in auto)
qed

lemma delete_uncurated_advances:
  assumes "\<And>i f s. P i f s \<Longrightarrow> uncurated db i"
  shows "advances store day db (db\<lparr>ct_links := sql_delete (\<lambda>l. P (fl_product l) (fl_flavor l) (fl_source l)) (ct_links db)\<rparr>)"
proof (rule advances_links)
  show "catalogue_ok db \<Longrightarrow> links_ok (sql_delete (\<lambda>l. P (fl_product l) (fl_flavor l) (fl_source l)) (ct_links db)) (product_ids db)"
    using links_ok_delete catalogue_okD(5) by blast
  show "source_at (sql_delete (\<lambda>l. P (fl_product l) (fl_flavor l) (fl_source l)) (ct_links db)) i f = source_at (ct_links db) i f"
    if ok: "catalogue_ok db" and c: "\<not> uncurated db i" for i f
  proof -
    have "distinct (map link_key (ct_links db))" using catalogue_okD(5) [OF ok] by (simp add: links_ok_def)
    then show ?thesis using assms c by (auto simp: source_at_delete split: option.split)
  qed
qed

lemma add_scrape_flavors_advances: "advances store day db (add_scrape_flavors links db)"
  unfolding add_scrape_flavors_def by (auto intro!: put_uncurated_advances)

lemma uncurated_with_links [simp]: "uncurated (db\<lparr>ct_links := ls\<rparr>) i = uncurated db i"
  by (simp add: uncurated_def)

lemma set_llm_flavors_advances: "advances store day db (set_llm_flavors now i flavors db)"
proof -
  let ?cleared = "sql_delete (\<lambda>l. fl_product l = i \<and> fl_source l = Flavor_Llm \<and> uncurated db i) (ct_links db)"
  let ?db1 = "db\<lparr>ct_links := ?cleared\<rparr>"
  let ?k = "\<lambda>s. if s \<noteq> Flavor_Kb then Flavor_Llm else s"
  have one: "advances store day db ?db1"
    using delete_uncurated_advances [of "\<lambda>j f s. j = i \<and> s = Flavor_Llm \<and> uncurated db i"] by simp
  have two: "advances store day ?db1 (db\<lparr>ct_links := if uncurated db i
      then fold (put_link ?k Flavor_Llm) (map (Pair i) (js_set flavors)) ?cleared else ?cleared\<rparr>)"
  proof (cases "uncurated db i")
    case True
    have "advances store day ?db1 (?db1\<lparr>ct_links := fold (put_link ?k Flavor_Llm) (map (Pair i) (js_set flavors)) (ct_links ?db1)\<rparr>)"
      by (rule put_uncurated_advances) (use True in auto)
    then show ?thesis using True by simp
  qed simp
  show ?thesis
    unfolding set_llm_flavors_def Let_def
    using advances_trans [OF advances_trans [OF one two] stamp_llm_advances] by simp
qed

lemma apply_kb_flavors_advances: "advances store day db (apply_kb_flavors ws db)"
proof -
  have del: "advances store day d (delete_kb_links es d)" for d es
    using delete_uncurated_advances [of "\<lambda>i f s. (i, f) \<in> set es \<and> uncurated d i \<and> s \<noteq> Flavor_Manual"]
    by (simp add: delete_kb_links_def)
  have ins: "advances store day d (insert_kb_links es d)" for d es
    unfolding insert_kb_links_def by (rule put_uncurated_advances) simp
  show ?thesis unfolding apply_kb_flavors_def Let_def
    by (auto intro: advances_trans [OF del ins] del ins)
qed

lemma apply_kb_advances: "advances store day db (snd (apply_kb fk lower coll now kx ids db))"
proof -
  have "advances store day db (apply_kb_plan now plan db)" for plan
    unfolding apply_kb_plan_def
    by (rule advances_trans [OF set_producers_advances advances_trans [OF apply_kb_facts_advances apply_kb_flavors_advances]])
  then show ?thesis by (simp add: apply_kb_def Let_def)
qed

section \<open>Lookup names\<close>

lemma insert_name_next: "snd st \<le> snd (insert_name n st)"
  by (simp add: insert_name_def)

lemma fold_insert_name_next: "snd st \<le> snd (fold insert_name ns st)"
proof (induction ns arbitrary: st)
  case (Cons n ns)
  show ?case using insert_name_next [of st n] Cons [of "insert_name n st"] by simp
qed simp

lemma get_or_create_next: "snd st \<le> snd (snd (get_or_create_by_name names st))"
  using fold_insert_name_next by (simp add: get_or_create_by_name_def Let_def)

lemma resolve_types_advances: "advances store day db (snd (resolve_types names db))"
  using get_or_create_next [of "(ct_types db, ct_next db)" names]
  by (auto simp: resolve_types_def split: prod.split intro: advances_lookup)

lemma resolve_flavors_advances: "advances store day db (snd (resolve_flavors names db))"
  using get_or_create_next [of "(ct_flavors db, ct_next db)" names]
  by (auto simp: resolve_flavors_def split: prod.split intro: advances_lookup)

section \<open>Resolving keys\<close>

lemma js_get_map: "js_get (js_map es) k = map_of (rev es) k"
proof (induction es rule: rev_induct)
  case (snoc e es)
  then show ?case by (cases e) (auto simp: js_map_def js_get_update)
qed (simp add: js_map_def js_get_def)

lemma js_get_map_None: "js_get (js_map es) k = None \<longleftrightarrow> k \<notin> fst ` set es"
  by (simp add: js_get_map map_of_eq_None_iff)

lemma js_get_map_Some: "js_get (js_map es) k = Some v \<Longrightarrow> (k, v) \<in> set es"
  by (auto simp: js_get_map dest: map_of_SomeD)

definition held_keys :: "catalogue \<Rightarrow> string set" where
  \<comment> \<open>the keys that resolve: live on a product or retired into an alias\<close>
  "held_keys db = live_keys (ct_products db) \<union> al_key ` set (ct_aliases db)"

lemma known_keys_dom: "fst ` set (known_keys db ks) = set ks \<inter> held_keys db"
proof -
  have "fst ` set (map (\<lambda>p. (the (pd_match_key p), pd_id p))
      (filter (\<lambda>p. case pd_match_key p of None \<Rightarrow> False | Some k \<Rightarrow> k \<in> set ks) (ct_products db))) = set ks \<inter> live_keys (ct_products db)"
    by (force simp: live_keys_def image_iff split: option.splits)
  then show ?thesis by (auto simp: known_keys_def held_keys_def image_Un image_image)
qed

lemma set_present: "k \<in> set (List.map_filter (\<lambda>k. k) keys) \<longleftrightarrow> Some k \<in> set keys"
  by (induction keys) (auto simp: List.map_filter_def)

lemma resolve_known_None:
  assumes "Some k \<in> set keys"
  shows "js_get (resolve_known_keys db keys) k = None \<longleftrightarrow> k \<notin> held_keys db"
proof -
  have k: "k \<in> set (List.map_filter (\<lambda>k. k) keys)" using assms by (simp add: set_present)
  then have "List.map_filter (\<lambda>k. k) keys \<noteq> []" by auto
  then show ?thesis using k by (simp add: resolve_known_keys_def Let_def js_get_map_None known_keys_dom)
qed

lemma resolve_known_ids:
  assumes "catalogue_ok db" and "js_get (resolve_known_keys db keys) k = Some i"
  shows "i \<in> product_ids db"
proof -
  have al: "al_product ` set (ct_aliases db) \<subseteq> product_ids db" using catalogue_okD(2) [OF assms(1)] by (simp add: aliases_ok_def)
  have "js_get (js_map (known_keys db (List.map_filter (\<lambda>k. k) keys))) k = Some i"
    using assms(2) by (auto simp: resolve_known_keys_def Let_def js_get_def split: if_splits)
  then have "(k, i) \<in> set (known_keys db (List.map_filter (\<lambda>k. k) keys))" by (rule js_get_map_Some)
  then consider p where "p \<in> set (ct_products db)" "i = pd_id p" | a where "a \<in> set (ct_aliases db)" "i = al_product a"
    by (auto simp: known_keys_def)
  then show ?thesis by cases (use al in \<open>auto simp: product_ids_def\<close>)
qed

lemma identity_match_ids: "identity_match ident db ci = Some i \<Longrightarrow> i \<in> product_ids db"
proof -
  assume m: "identity_match ident db ci = Some i"
  then obtain p ps where "js_sort by_age_of_row (filter (\<lambda>p. same_identity ident p (ci_name ci) (ci_volume ci) (ci_age ci)) (ct_products db)) = p # ps"
    and "i = pd_id p" by (auto simp: identity_match_def split: list.splits)
  then have "p \<in> set (ct_products db)" by (metis filter_is_subset in_mono list.set_intros(1) set_js_sort)
  then show ?thesis using \<open>i = pd_id p\<close> by (simp add: product_ids_def)
qed

lemma resolve_by_identity_ids: "js_get (resolve_by_identity ident db cs) k = Some i \<Longrightarrow> i \<in> product_ids db"
  by (auto simp: resolve_by_identity_def List.map_filter_def identity_match_ids split: option.splits if_splits dest!: js_get_map_Some)

lemma evolves_product_ids: "evolves store day db db' \<Longrightarrow> i \<in> product_ids db \<Longrightarrow> i \<in> product_ids db'"
  using evolves_ids(1) by blast

lemma create_unmatched_advances: "advances store day db (snd (create_unmatched now ci db))"
  unfolding create_unmatched_def by (rule advances_insert) simp

lemma create_unmatched_id: "fst (create_unmatched now ci db) \<in> product_ids (snd (create_unmatched now ci db))"
  by (simp add: create_unmatched_def insert_product_def product_ids_def new_product_def)

lemma find_or_create_one_step:
  assumes al: "case ci_match_key ci of None \<Rightarrow> True | Some k \<Rightarrow> k \<notin> al_key ` set (ct_aliases (snd st))"
    and ids: "\<forall>r\<in>set (fst st). cr_id r \<in> product_ids (snd st)"
  shows "advances store day (snd st) (snd (find_or_create_one now ci st))"
    and "ct_aliases (snd (find_or_create_one now ci st)) = ct_aliases (snd st)"
    and "\<forall>r\<in>set (fst (find_or_create_one now ci st)). cr_id r \<in> product_ids (snd (find_or_create_one now ci st))"
proof -
  let ?hit = "case ci_match_key ci of None \<Rightarrow> None | Some k \<Rightarrow> find (\<lambda>p. pd_match_key p = Some k) (ct_products (snd st))"
  have hit: "p \<in> set (ct_products (snd st))" if "?hit = Some p" for p
    using that by (auto split: option.splits dest: find_SomeD)
  have fresh: "k \<notin> live_keys (ct_products (snd st))" if "?hit = None" "ci_match_key ci = Some k" for k
    using that by (auto simp: find_None_iff live_keys_def)
  have ins: "advances store day (snd st) (snd (insert_product now (ci_match_key ci) ci (snd st)))" if "?hit = None"
    by (rule advances_insert) (use that fresh al in \<open>auto split: option.split\<close>)
  show "advances store day (snd st) (snd (find_or_create_one now ci st))"
    using ins by (cases ?hit) (auto simp: find_or_create_one_def split: prod.split)
  show "ct_aliases (snd (find_or_create_one now ci st)) = ct_aliases (snd st)"
    by (cases ?hit) (auto simp: find_or_create_one_def insert_product_def)
  show "\<forall>r\<in>set (fst (find_or_create_one now ci st)). cr_id r \<in> product_ids (snd (find_or_create_one now ci st))"
    using ids hit
    by (cases ?hit) (auto simp: find_or_create_one_def insert_product_def product_ids_def new_product_def)
qed

lemma insert_fresh_facts:
  assumes ok: "catalogue_ok db"
    and al: "\<And>ci. ci \<in> set cs \<Longrightarrow> case ci_match_key ci of None \<Rightarrow> True | Some k \<Rightarrow> k \<notin> al_key ` set (ct_aliases db)"
  shows "catalogue_ok (snd (insert_fresh now cs db))" and "evolves store day db (snd (insert_fresh now cs db))"
    and "\<forall>r\<in>set (fst (insert_fresh now cs db)). cr_id r \<in> product_ids (snd (insert_fresh now cs db))"
proof -
  let ?I = "\<lambda>st :: created_row list \<times> catalogue. ct_aliases (snd st) = ct_aliases db \<and> (\<forall>r\<in>set (fst st). cr_id r \<in> product_ids (snd st))"
  have "catalogue_ok (snd (insert_fresh now cs db)) \<and> evolves store day (snd ([] :: created_row list, db)) (snd (insert_fresh now cs db))
      \<and> ?I (insert_fresh now cs db)"
    unfolding insert_fresh_def
  proof (rule advances_fold_inv [where I = ?I])
    show "advances store day (snd st) (snd (find_or_create_one now ci st)) \<and> ?I (find_or_create_one now ci st)"
      if "ci \<in> set cs" and "?I st" for ci st
    proof -
      have a: "case ci_match_key ci of None \<Rightarrow> True | Some k \<Rightarrow> k \<notin> al_key ` set (ct_aliases (snd st))" using al [OF that(1)] that(2) by (simp split: option.splits)
      show ?thesis using find_or_create_one_step(1) [OF a] find_or_create_one_step(2,3) [OF a, of now] that(2) by simp
    qed
  qed (use ok in simp_all)
  then show "catalogue_ok (snd (insert_fresh now cs db))" "evolves store day db (snd (insert_fresh now cs db))"
    "\<forall>r\<in>set (fst (insert_fresh now cs db)). cr_id r \<in> product_ids (snd (insert_fresh now cs db))" by simp_all
qed

lemma find_or_create_facts:
  assumes ok: "catalogue_ok db" and run: "find_or_create_by_match_keys ident now cs db = ((m, n), db')"
  shows "catalogue_ok db'" and "evolves store day db db'"
    and "js_get m k = Some i \<Longrightarrow> i \<in> product_ids db'"
proof -
  let ?known = "resolve_known_keys db (map ci_match_key cs)"
  let ?pending = "filter (\<lambda>ci. \<not> is_known ?known ci) cs"
  let ?twins = "resolve_by_identity ident db ?pending"
  let ?fresh = "filter (\<lambda>ci. \<not> is_known ?twins ci) ?pending"
  have al: "case ci_match_key ci of None \<Rightarrow> True | Some k \<Rightarrow> k \<notin> al_key ` set (ct_aliases db)" if "ci \<in> set ?fresh" for ci
  proof (cases "ci_match_key ci")
    case (Some k)
    have "Some k \<in> set (map ci_match_key cs)" using that Some by force
    moreover have "js_get ?known k = None" using that Some by (simp add: is_known_def)
    ultimately show ?thesis using Some resolve_known_None [of k "map ci_match_key cs" db] by (simp add: held_keys_def)
  qed simp
  have f: "catalogue_ok (snd (insert_fresh now ?fresh db))" "evolves store day db (snd (insert_fresh now ?fresh db))"
    "\<forall>r\<in>set (fst (insert_fresh now ?fresh db)). cr_id r \<in> product_ids (snd (insert_fresh now ?fresh db))"
    by (rule insert_fresh_facts [OF ok al]; assumption)+
  have db': "db' = (if cs = [] then db else snd (insert_fresh now ?fresh db))"
    using run by (auto simp: find_or_create_by_match_keys_def Let_def split: prod.splits if_splits)
  show "catalogue_ok db'" "evolves store day db db'" using f(1,2) ok by (auto simp: db')
  show "i \<in> product_ids db'" if "js_get m k = Some i"
  proof (cases "cs = []")
    case True
    then show ?thesis using run that by (simp add: find_or_create_by_match_keys_def js_get_def)
  next
    case False
    then have m: "m = js_map (map (apfst Some) ?known @ map (apfst Some) ?twins @ map (\<lambda>r. (cr_key r, cr_id r)) (fst (insert_fresh now ?fresh db)))"
      using run by (auto simp: find_or_create_by_match_keys_def Let_def split: prod.splits)
    have dm: "distinct (map fst (js_map es))" for es :: "(string \<times> row_id) list"
      by (induction es rule: rev_induct) (auto simp: js_map_def distinct_update)
    have mem: "js_get r k' = Some v" if "(k', v) \<in> set r" "r = ?known \<or> r = ?twins" for r k' v
    proof -
      have "distinct (map fst r)" using that(2) dm by (auto simp: resolve_known_keys_def resolve_by_identity_def Let_def)
      then show ?thesis using that(1) by (simp add: js_get_def)
    qed
    have "(k, i) \<in> set (map (apfst Some) ?known @ map (apfst Some) ?twins @ map (\<lambda>r. (cr_key r, cr_id r)) (fst (insert_fresh now ?fresh db)))"
      using that unfolding m by (rule js_get_map_Some)
    then consider k' where "(k', i) \<in> set ?known" | k' where "(k', i) \<in> set ?twins"
      | r where "r \<in> set (fst (insert_fresh now ?fresh db))" "i = cr_id r" by auto
    then show ?thesis
    proof cases
      case 1
      then show ?thesis using mem resolve_known_ids [OF ok] evolves_product_ids f(2) False db' by metis
    next
      case 2
      then show ?thesis using mem resolve_by_identity_ids evolves_product_ids f(2) False db' by metis
    next
      case 3
      then show ?thesis using f(3) False db' by simp
    qed
  qed
qed

end
