(* ===== verification/Product_Merge_Facts.thy ===== *)
theory Product_Merge_Facts
  imports Catalogue_Write_Facts Product_Edit
begin

text \<open>
  What a merge keeps. Every step of it keeps the constraints of the catalogue; then, part by part,
  where the keys, the offers, the list entries, the collections with their purchases, the conflicts
  and the tags of the vanishing bottling end up.
\<close>

section \<open>Rows of the products\<close>

definition moved :: "row_id \<Rightarrow> row_id \<Rightarrow> row_id \<Rightarrow> row_id" where
  \<comment> \<open>where a bottling is after \<open>l\<close> was folded into \<open>k\<close>\<close>
  "moved l k i = (if i = l then k else i)"

lemma product_by_idD: "product_by_id db i = Some p \<Longrightarrow> p \<in> set (ct_products db) \<and> pd_id p = i"
  unfolding product_by_id_def by (drule find_SomeD) simp

lemma product_by_id_iff: "product_by_id db i \<noteq> None \<longleftrightarrow> i \<in> product_ids db"
  by (auto simp: product_by_id_def product_ids_def find_None_iff)

lemma product_by_id_row:
  "catalogue_ok db \<Longrightarrow> p \<in> set (ct_products db) \<Longrightarrow> product_by_id db (pd_id p) = Some p"
  unfolding product_by_id_def using catalogue_okD(1) by (auto simp: products_ok_def intro: find_by_key)

lemma products_ok_map:
  assumes "map pd_id qs = map pd_id ps" and "map pd_match_key qs = map pd_match_key ps" and ok: "products_ok ps n"
  shows "products_ok qs n"
proof -
  have len: "length qs = length ps" using assms(1) by (metis length_map)
  have nth: "pd_id (qs ! i) = pd_id (ps ! i) \<and> pd_match_key (qs ! i) = pd_match_key (ps ! i)" if "i < length ps" for i
    using assms(1,2) that len by (metis nth_map)
  have inj: "i = j" if "i < length ps" "j < length ps" "pd_match_key (ps ! i) = pd_match_key (ps ! j)" "pd_match_key (ps ! i) \<noteq> None" for i j
  proof -
    have "ps ! i = ps ! j" using ok that unfolding products_ok_def by (meson nth_mem)
    moreover have "distinct ps" using ok by (simp add: products_ok_def distinct_map)
    ultimately show ?thesis using that(1,2) by (simp add: nth_eq_iff_index_eq)
  qed
  show ?thesis
    unfolding products_ok_def
  proof (intro conjI ballI impI)
    show "distinct (map pd_id qs)" using assms(1) ok by (simp add: products_ok_def)
    show "pd_id q < n" if "q \<in> set qs" for q
      using that len nth ok unfolding products_ok_def by (metis in_set_conv_nth nth_mem)
    show "p = q" if "p \<in> set qs" "q \<in> set qs" "pd_match_key p \<noteq> None \<and> pd_match_key p = pd_match_key q" for p q
      using that len nth inj by (metis in_set_conv_nth)
  qed
qed

lemma products_ok_subset: "products_ok ps n \<Longrightarrow> set qs \<subseteq> set ps \<Longrightarrow> distinct (map pd_id qs) \<Longrightarrow> products_ok qs n"
  unfolding products_ok_def by (meson subsetD)

lemma with_products_ok:
  assumes "catalogue_ok db" and "map pd_id qs = map pd_id (ct_products db)" and "map pd_match_key qs = map pd_match_key (ct_products db)"
  shows "catalogue_ok (db\<lparr>ct_products := qs\<rparr>)"
proof -
  have ids: "pd_id ` set qs = product_ids db" using assms(2) by (metis product_ids_def list.set_map)
  have keys: "live_keys qs = live_keys (ct_products db)" using assms(3) by (rule live_keys_map)
  show ?thesis
    using assms(1) products_ok_map [OF assms(2,3) catalogue_okD(1) [OF assms(1)]]
    by (simp add: catalogue_ok_def product_ids_def [of "db\<lparr>ct_products := qs\<rparr>"] ids keys)
qed

lemma update_products_ok:
  assumes "catalogue_ok db" and "\<And>p. pd_id (f p) = pd_id p" and "\<And>p. pd_match_key (f p) = pd_match_key p"
  shows "catalogue_ok (db\<lparr>ct_products := sql_update w f (ct_products db)\<rparr>)"
  using assms(1) by (rule with_products_ok) (simp_all add: map_sql_update assms(2,3))

lemma merge_row_keys [simp]: "pd_id (merge_row now k l) = pd_id k" "pd_match_key (merge_row now k l) = pd_match_key k"
  by (simp_all add: merge_row_def Let_def)

section \<open>The steps keep the constraints\<close>

lemma merge_facts_ok: "catalogue_ok db \<Longrightarrow> catalogue_ok (merge_facts now survivor loser db)"
  unfolding merge_facts_def by (rule with_products_ok) (simp_all add: map_sql_update_from)

lemma merge_facts_row:
  assumes "catalogue_ok db" "product_by_id db loser = Some l" "product_by_id db survivor = Some k"
  shows "ct_products (merge_facts now survivor loser db) = sql_update (\<lambda>p. pd_id p = survivor) (\<lambda>p. merge_row now p l) (ct_products db)"
proof -
  have "distinct (map pd_id (ct_products db))" using catalogue_okD(1) [OF assms(1)] by (simp add: products_ok_def)
  then have "filter (\<lambda>q. pd_id q = loser) (ct_products db) = [l]"
    using filter_by_key [of pd_id "ct_products db" l] product_by_idD [OF assms(2)] by simp
  then show ?thesis by (simp add: merge_facts_def sql_update_from_def sql_update_def)
qed

lemma with_links_ok: "catalogue_ok db \<Longrightarrow> links_ok ls (product_ids db) \<Longrightarrow> catalogue_ok (db\<lparr>ct_links := ls\<rparr>)"
  by (simp add: catalogue_ok_def product_ids_def)

lemma drop_links_ok: "catalogue_ok db \<Longrightarrow> catalogue_ok (drop_links i db)"
  unfolding drop_links_def by (rule with_links_ok) (use catalogue_okD(5) in \<open>auto simp: links_ok_delete\<close>)

lemma links_ok_put: "links_ok ls ids \<Longrightarrow> fst e \<in> ids \<Longrightarrow> links_ok (put_link f src e ls) ids"
  using links_ok_fold_put [of ls ids "[e]" f src] by simp

lemma merge_links_ok: "links_ok ls ids \<Longrightarrow> survivor \<in> ids \<Longrightarrow> links_ok (fold (merge_link survivor) ms ls) ids"
  by (induction ms arbitrary: ls) (simp_all add: merge_link_def links_ok_put)

lemma merge_flavors_ok: "catalogue_ok db \<Longrightarrow> survivor \<in> product_ids db \<Longrightarrow> catalogue_ok (merge_flavors survivor loser db)"
  unfolding merge_flavors_def by (rule with_links_ok) (use catalogue_okD(5) in \<open>auto simp: merge_links_ok\<close>)

lemma with_conflicts_ok: "catalogue_ok db \<Longrightarrow> conflicts_ok cs (product_ids db) \<Longrightarrow> catalogue_ok (db\<lparr>ct_conflicts := cs\<rparr>)"
  by (simp add: catalogue_ok_def product_ids_def)

lemma merge_conflict_ok:
  assumes "conflicts_ok cs ids" and "survivor \<in> ids"
  shows "conflicts_ok (merge_conflict survivor c cs) ids"
proof -
  let ?new = "c\<lparr>cf_product := survivor\<rparr>"
  let ?hit = "\<lambda>r. conflict_key r = (survivor, cf_store c, cf_attribute c)"
  let ?add = "\<lambda>r. r\<lparr>cf_seen_count := cf_seen_count r + cf_seen_count c,
              cf_first_seen_at := min (cf_first_seen_at r) (cf_first_seen_at c),
              cf_last_seen_at := max (cf_last_seen_at r) (cf_last_seen_at c)\<rparr>"
  have hit: "?hit r \<longleftrightarrow> conflict_key r = conflict_key ?new" for r by (simp add: conflict_key_def)
  note keys = keys_sql_upsert [where hit = ?hit and k = conflict_key and new = ?new and f = ?add and rs = cs, OF hit]
  have products: "cf_product ` set rs = fst ` conflict_key ` set rs" for rs by (force simp: conflict_key_def image_image)
  show ?thesis
    using assms keys unfolding conflicts_ok_def products merge_conflict_def
    by (simp add: conflict_key_def image_image)
qed

lemma merge_conflicts_ok:
  assumes "catalogue_ok db" and "survivor \<in> product_ids db"
  shows "catalogue_ok (merge_conflicts survivor loser db)"
proof -
  have "conflicts_ok cs (product_ids db) \<Longrightarrow> conflicts_ok (fold (merge_conflict survivor) ms cs) (product_ids db)" for ms cs
    using assms(2) by (induction ms arbitrary: cs) (simp_all add: merge_conflict_ok)
  then show ?thesis
    unfolding merge_conflicts_def using with_conflicts_ok [OF assms(1)] catalogue_okD(6) [OF assms(1)] by blast
qed

lemma move_offers_ok:
  assumes "catalogue_ok db" and "survivor \<in> product_ids db"
  shows "catalogue_ok (move_offers loser survivor db)"
proof -
  let ?os = "sql_update (\<lambda>x. of_product x = loser) (\<lambda>x. x\<lparr>of_product := survivor\<rparr>) (ct_offers db)"
  have maps: "map of_id ?os = map of_id (ct_offers db)" "map offer_key ?os = map offer_key (ct_offers db)"
    by (simp_all add: map_sql_update offer_key_def)
  have "offers_ok ?os (product_ids db) (ct_next db)"
    using catalogue_okD(3) [OF assms(1)] assms(2) maps by (auto simp: offers_ok_def in_sql_update image_subset_iff)
  moreover have "of_id ` set ?os = of_id ` set (ct_offers db)" using maps(1) by (metis list.set_map)
  ultimately show ?thesis using assms(1) by (simp add: move_offers_def catalogue_ok_def product_ids_def)
qed

lemma in_move_user_list:
  "x \<in> set (move_user_list loser survivor xs) \<longleftrightarrow>
     (x \<in> set xs \<and> ul_product x \<noteq> loser)
     \<or> (survivor \<noteq> loser \<and> (\<exists>q\<in>set xs. ul_product q = loser \<and> x = q\<lparr>ul_product := survivor\<rparr>
          \<and> \<not> (\<exists>kept\<in>set xs. ul_user kept = ul_user q \<and> ul_product kept = survivor)))"
  by (auto simp: move_user_list_def in_sql_update)

lemma move_user_list_ok:
  assumes ok: "user_list_ok xs ids" and "survivor \<in> ids" and "survivor \<noteq> loser"
  shows "user_list_ok (move_user_list loser survivor xs) ids"
proof -
  let ?w = "\<lambda>x. ul_product x = loser \<and> \<not> (\<exists>kept\<in>set xs. ul_user kept = ul_user x \<and> ul_product kept = survivor)"
  let ?f = "\<lambda>x. if ?w x then x\<lparr>ul_product := survivor\<rparr> else x"
  have "inj_on ?f (set xs)"
  proof (rule inj_onI)
    fix x y assume xy: "x \<in> set xs" "y \<in> set xs" "?f x = ?f y"
    have user: "ul_user (?f z) = ul_user z" for z by simp
    have "ul_user x = ul_user y" using user [of x] user [of y] xy(3) by simp
    then show "x = y" using xy assms(3) by (cases x; cases y) (auto split: if_splits)
  qed
  then have "distinct (map ?f xs)" using ok by (simp add: user_list_ok_def distinct_map)
  then have "distinct (move_user_list loser survivor xs)" by (simp add: move_user_list_def sql_delete_def sql_update_def)
  then show ?thesis using assms by (auto simp: user_list_ok_def in_move_user_list image_subset_iff)
qed

lemma move_user_lists_ok:
  "catalogue_ok db \<Longrightarrow> survivor \<in> product_ids db \<Longrightarrow> survivor \<noteq> loser \<Longrightarrow> catalogue_ok (move_user_lists loser survivor db)"
  by (simp add: move_user_lists_def catalogue_ok_def product_ids_def move_user_list_ok)

lemma kept_collectionD:
  assumes "kept_collection loser survivor cs c = Some k"
  shows "\<exists>l\<in>set cs. \<exists>r\<in>set cs. co_id l = c \<and> co_product l = loser \<and> co_user r = co_user l \<and> co_product r = survivor \<and> co_id r = k"
  using assms by (auto simp: kept_collection_def split: option.splits dest!: find_SomeD)

lemma move_purchases_ok:
  assumes "catalogue_ok db"
  shows "catalogue_ok (move_purchases loser survivor db)"
proof -
  let ?f = "\<lambda>p. case kept_collection loser survivor (ct_collection db) (pu_collection p) of
            None \<Rightarrow> p | Some k \<Rightarrow> p\<lparr>pu_collection := k\<rparr>"
  have same: "pu_id (?f p) = pu_id p" for p by (simp split: option.split)
  have ids: "map pu_id (map ?f (ct_purchases db)) = map pu_id (ct_purchases db)"
    by (simp only: map_map comp_def same)
  have there: "pu_collection (?f p) \<in> co_id ` set (ct_collection db)" if "p \<in> set (ct_purchases db)" for p
  proof (cases "kept_collection loser survivor (ct_collection db) (pu_collection p)")
    case None
    then show ?thesis using that catalogue_okD(10) [OF assms] by (auto simp: purchases_ok_def)
  next
    case (Some k)
    then show ?thesis using kept_collectionD [OF Some] by auto
  qed
  have "purchases_ok (map ?f (ct_purchases db)) (co_id ` set (ct_collection db))"
    using catalogue_okD(10) [OF assms] there unfolding purchases_ok_def ids by auto
  then show ?thesis using assms by (simp add: move_purchases_def catalogue_ok_def product_ids_def)
qed

lemma drop_collection_ok:
  assumes "catalogue_ok db"
  shows "catalogue_ok (drop_collection w db)"
proof -
  let ?cs = "sql_delete w (ct_collection db)"
  let ?ps = "sql_delete (\<lambda>p. pu_collection p \<in> co_id ` set (filter w (ct_collection db))) (ct_purchases db)"
  have "collection_ok ?cs (product_ids db) (ct_next db)"
    using catalogue_okD(9) [OF assms] by (auto simp: collection_ok_def distinct_sql_delete image_subset_iff)
  moreover have "purchases_ok ?ps (co_id ` set ?cs)"
    using catalogue_okD(10) [OF assms] by (fastforce simp: purchases_ok_def distinct_sql_delete)
  ultimately show ?thesis using assms by (simp add: drop_collection_def Let_def catalogue_ok_def product_ids_def)
qed

lemma readdress_collection_ok:
  assumes ok: "catalogue_ok db" and "survivor \<in> product_ids db"
    and free: "\<And>c k. c \<in> set (ct_collection db) \<Longrightarrow> k \<in> set (ct_collection db) \<Longrightarrow> co_product c = loser \<Longrightarrow>
      co_product k = survivor \<Longrightarrow> co_user c \<noteq> co_user k"
  shows "catalogue_ok (db\<lparr>ct_collection := sql_update (\<lambda>c. co_product c = loser) (\<lambda>c. c\<lparr>co_product := survivor\<rparr>) (ct_collection db)\<rparr>)"
proof -
  let ?f = "\<lambda>c. if co_product c = loser then c\<lparr>co_product := survivor\<rparr> else c"
  let ?cs = "sql_update (\<lambda>c. co_product c = loser) (\<lambda>c. c\<lparr>co_product := survivor\<rparr>) (ct_collection db)"
  have cs: "?cs = map ?f (ct_collection db)" by (simp add: sql_update_def)
  have ids: "map co_id ?cs = map co_id (ct_collection db)" by (simp add: map_sql_update)
  have inj: "inj_on collection_key (set (ct_collection db))" "distinct (ct_collection db)"
    using catalogue_okD(9) [OF ok] by (simp_all add: collection_ok_def distinct_map)
  have "inj_on (collection_key \<circ> ?f) (set (ct_collection db))"
  proof (rule inj_onI)
    fix c d assume cd: "c \<in> set (ct_collection db)" "d \<in> set (ct_collection db)" "(collection_key \<circ> ?f) c = (collection_key \<circ> ?f) d"
    then have "collection_key c = collection_key d"
      using free [OF cd(1,2)] free [OF cd(2,1)] by (auto simp: collection_key_def split: if_splits)
    then show "c = d" using inj(1) cd(1,2) by (simp add: inj_on_def)
  qed
  then have keys: "distinct (map collection_key ?cs)" using inj(2) by (simp add: cs distinct_map comp_inj_on_iff inj_on_def)
  have "collection_ok ?cs (product_ids db) (ct_next db)"
    using catalogue_okD(9) [OF ok] assms(2) ids keys by (auto simp: collection_ok_def in_sql_update image_subset_iff)
  moreover have "co_id ` set ?cs = co_id ` set (ct_collection db)" using ids by (metis list.set_map)
  ultimately show ?thesis using ok by (simp add: catalogue_ok_def product_ids_def)
qed

lemma move_collection_ok:
  assumes "catalogue_ok db" and "survivor \<in> product_ids db" and "survivor \<noteq> loser"
  shows "catalogue_ok (move_collection loser survivor db)"
proof -
  let ?db1 = "move_purchases loser survivor db"
  let ?db2 = "drop_collection (collides loser survivor (ct_collection ?db1)) ?db1"
  have "catalogue_ok ?db2" using assms(1) by (intro drop_collection_ok move_purchases_ok)
  moreover have "survivor \<in> product_ids ?db2" using assms(2) by (simp add: product_ids_def drop_collection_def move_purchases_def Let_def)
  ultimately show ?thesis
    unfolding move_collection_def Let_def
    by (rule readdress_collection_ok) (use assms(3) in \<open>auto simp: drop_collection_def Let_def collides_def\<close>)
qed

section \<open>Keys\<close>

lemma with_aliases_ok:
  "catalogue_ok db \<Longrightarrow> aliases_ok als (live_keys (ct_products db)) (product_ids db) \<Longrightarrow> catalogue_ok (db\<lparr>ct_aliases := als\<rparr>)"
  by (simp add: catalogue_ok_def product_ids_def)

lemma readdress_aliases_ok:
  assumes "catalogue_ok db" and "survivor \<in> product_ids db"
  shows "catalogue_ok (db\<lparr>ct_aliases := sql_update (\<lambda>a. al_product a = loser) (\<lambda>a. a\<lparr>al_product := survivor\<rparr>) (ct_aliases db)\<rparr>)"
proof -
  let ?als = "sql_update (\<lambda>a. al_product a = loser) (\<lambda>a. a\<lparr>al_product := survivor\<rparr>) (ct_aliases db)"
  have keys: "map al_key ?als = map al_key (ct_aliases db)" by (simp add: map_sql_update)
  then have "al_key ` set ?als = al_key ` set (ct_aliases db)" by (metis list.set_map)
  then have "aliases_ok ?als (live_keys (ct_products db)) (product_ids db)"
    using catalogue_okD(2) [OF assms(1)] assms(2) keys by (auto simp: aliases_ok_def in_sql_update image_subset_iff)
  then show ?thesis by (rule with_aliases_ok [OF assms(1)])
qed

lemma set_key_ok:
  assumes ok: "catalogue_ok db"
    and free: "\<And>k. key = Some k \<Longrightarrow> k \<notin> live_keys (ct_products db) \<and> k \<notin> al_key ` set (ct_aliases db)"
  shows "catalogue_ok (set_key i key db)"
proof -
  let ?ps = "sql_update (\<lambda>p. pd_id p = i) (\<lambda>p. p\<lparr>pd_match_key := key\<rparr>) (ct_products db)"
  have ids: "map pd_id ?ps = map pd_id (ct_products db)" by (simp add: map_sql_update)
  then have pids: "pd_id ` set ?ps = product_ids db" by (metis product_ids_def list.set_map)
  have ps: "products_ok (ct_products db) (ct_next db)" by (rule catalogue_okD(1) [OF ok])
  have one: "p = q" if mem: "p \<in> set ?ps" "q \<in> set ?ps" and eq: "pd_match_key p \<noteq> None" "pd_match_key p = pd_match_key q" for p q
  proof -
    obtain a b where ab: "a \<in> set (ct_products db)" "p = (if pd_id a = i then a\<lparr>pd_match_key := key\<rparr> else a)"
      "b \<in> set (ct_products db)" "q = (if pd_id b = i then b\<lparr>pd_match_key := key\<rparr> else b)"
      using mem by (auto simp: in_sql_update)
    have fresh: "pd_match_key c \<noteq> key" if "c \<in> set (ct_products db)" "key \<noteq> None" for c
      using free that by (auto simp: live_keys_def)
    show ?thesis
    proof (cases "pd_id a = i \<or> pd_id b = i")
      case True
      then have "pd_id a = i \<and> pd_id b = i" using ab eq fresh by (auto split: if_splits)
      then have "a = b" using find_key_eq [of pd_id "ct_products db"] ps ab(1,3) unfolding products_ok_def by metis
      then show ?thesis using ab by simp
    next
      case False
      then show ?thesis using ab eq ps by (auto simp: products_ok_def)
    qed
  qed
  have "\<forall>p\<in>set ?ps. pd_id p < ct_next db" using ps by (auto simp: products_ok_def in_sql_update)
  moreover have "distinct (map pd_id ?ps)" unfolding ids using ps by (simp add: products_ok_def)
  moreover have "\<forall>p\<in>set ?ps. \<forall>q\<in>set ?ps. pd_match_key p \<noteq> None \<and> pd_match_key p = pd_match_key q \<longrightarrow> p = q"
    using one by blast
  ultimately have "products_ok ?ps (ct_next db)" by (simp only: products_ok_def)
  moreover have "live_keys ?ps \<subseteq> live_keys (ct_products db) \<union> set_option key"
    by (auto simp: live_keys_def in_sql_update split: if_splits)
  then have "aliases_ok (ct_aliases db) (live_keys ?ps) (product_ids db)"
    using catalogue_okD(2) [OF ok] free by (fastforce simp: aliases_ok_def)
  ultimately show ?thesis
    using ok by (simp add: set_key_def catalogue_ok_def product_ids_def [of "db\<lparr>ct_products := ?ps\<rparr>"] pids)
qed

lemma adopt_alias_ok:
  assumes "catalogue_ok db" and "survivor \<in> product_ids db" and "key \<notin> live_keys (ct_products db)"
  shows "catalogue_ok (db\<lparr>ct_aliases := sql_upsert (\<lambda>a. al_key a = key) (\<lambda>a. a\<lparr>al_product := survivor\<rparr>)
      \<lparr>al_key = key, al_product = survivor\<rparr> (ct_aliases db)\<rparr>)"
proof -
  let ?als = "sql_upsert (\<lambda>a. al_key a = key) (\<lambda>a. a\<lparr>al_product := survivor\<rparr>) \<lparr>al_key = key, al_product = survivor\<rparr> (ct_aliases db)"
  have "set (map al_key ?als) = insert key (set (map al_key (ct_aliases db)))"
    "distinct (map al_key (ct_aliases db)) \<Longrightarrow> distinct (map al_key ?als)"
    using keys_sql_upsert [where k = al_key and new = "\<lparr>al_key = key, al_product = survivor\<rparr>"
        and hit = "\<lambda>a. al_key a = key" and f = "\<lambda>a. a\<lparr>al_product := survivor\<rparr>" and rs = "ct_aliases db"] by simp_all
  moreover have "al_product ` set ?als \<subseteq> insert survivor (al_product ` set (ct_aliases db))"
    by (auto dest: in_sql_upsert)
  ultimately have "aliases_ok ?als (live_keys (ct_products db)) (product_ids db)"
    using catalogue_okD(2) [OF assms(1)] assms(2,3) unfolding aliases_ok_def by auto
  then show ?thesis by (rule with_aliases_ok [OF assms(1)])
qed

lemma retire_key_ok:
  assumes ok: "catalogue_ok db" and "survivor \<in> product_ids db" and "survivor \<noteq> loser"
    and l: "\<And>p. p \<in> set (ct_products db) \<Longrightarrow> pd_id p = loser \<Longrightarrow> pd_match_key p = lkey"
    and there: "loser \<in> product_ids db"
  shows "catalogue_ok (retire_key (loser, lkey) (survivor, skey) db)"
proof (cases lkey)
  case None
  then show ?thesis using readdress_aliases_ok [OF ok assms(2)] by (simp add: retire_key_def)
next
  case (Some key)
  let ?db1 = "db\<lparr>ct_aliases := sql_update (\<lambda>a. al_product a = loser) (\<lambda>a. a\<lparr>al_product := survivor\<rparr>) (ct_aliases db)\<rparr>"
  let ?db2 = "set_key loser None ?db1"
  have ok2: "catalogue_ok ?db2" by (rule set_key_ok [OF readdress_aliases_ok [OF ok assms(2)]]) simp
  obtain p where p: "p \<in> set (ct_products db)" "pd_id p = loser" using there by (auto simp: product_ids_def)
  have key: "pd_match_key p = Some key" using l [OF p] Some by simp
  have "key \<in> live_keys (ct_products db)" using p(1) key by (auto simp: live_keys_def)
  then have retired: "key \<notin> al_key ` set (ct_aliases db)" using catalogue_okD(2) [OF ok] by (auto simp: aliases_ok_def)
  have "q = p" if "q \<in> set (ct_products db)" "pd_match_key q = Some key" for q
    using catalogue_okD(1) [OF ok] that p(1) key unfolding products_ok_def by (metis option.distinct(1))
  then have "pd_id q \<noteq> loser \<longrightarrow> pd_match_key q \<noteq> Some key" if "q \<in> set (ct_products db)" for q
    using p(2) that by auto
  then have live: "key \<notin> live_keys (ct_products ?db2)" by (auto simp: live_keys_def set_key_def sql_update_def)
  have "map al_key (ct_aliases ?db2) = map al_key (ct_aliases db)" by (simp add: set_key_def map_sql_update)
  then have retired2: "key \<notin> al_key ` set (ct_aliases ?db2)" using retired by (metis list.set_map)
  have ids: "product_ids ?db2 = product_ids db"
    by (rule product_ids_map) (simp add: set_key_def map_sql_update)
  show ?thesis
  proof (cases "skey = None")
    case True
    have "catalogue_ok (set_key survivor (Some key) ?db2)" by (rule set_key_ok [OF ok2]) (use live retired2 in auto)
    then show ?thesis using Some True by (simp add: retire_key_def Let_def)
  next
    case False
    show ?thesis using adopt_alias_ok [OF ok2 _ live] assms(2) ids Some False by (auto simp: retire_key_def Let_def)
  qed
qed

lemma delete_row_ok:
  assumes "catalogue_ok db" and "\<not> referenced i db"
  shows "catalogue_ok (delete_row i db)"
proof -
  let ?ps = "sql_delete (\<lambda>p. pd_id p = i) (ct_products db)"
  have ids: "pd_id ` set ?ps = product_ids db - {i}" by (auto simp: product_ids_def)
  have keys: "live_keys ?ps \<subseteq> live_keys (ct_products db)" by (auto simp: live_keys_def)
  have "of_product ` set (ct_offers db) \<subseteq> product_ids db - {i}" "co_product ` set (ct_collection db) \<subseteq> product_ids db - {i}"
    using assms(2) catalogue_okD(3,9) [OF assms(1)] by (auto simp: referenced_def offers_ok_def collection_ok_def)
  moreover have "products_ok ?ps (ct_next db)"
    by (rule products_ok_subset [OF catalogue_okD(1) [OF assms(1)]])
      (use catalogue_okD(1) [OF assms(1)] in \<open>auto simp: products_ok_def distinct_sql_delete\<close>)
  moreover have "aliases_ok (sql_delete (\<lambda>a. al_product a = i) (ct_aliases db)) (live_keys ?ps) (product_ids db - {i})"
    using catalogue_okD(2) [OF assms(1)] keys by (fastforce simp: aliases_ok_def distinct_sql_delete)
  moreover have "links_ok (sql_delete (\<lambda>l. fl_product l = i) (ct_links db)) (product_ids db - {i})"
    using catalogue_okD(5) [OF assms(1)] by (auto simp: links_ok_def distinct_sql_delete image_subset_iff)
  moreover have "conflicts_ok (sql_delete (\<lambda>c. cf_product c = i) (ct_conflicts db)) (product_ids db - {i})"
    using catalogue_okD(6) [OF assms(1)] by (auto simp: conflicts_ok_def distinct_sql_delete image_subset_iff)
  moreover have "user_list_ok (sql_delete (\<lambda>x. ul_product x = i) xs) (product_ids db - {i})" if "user_list_ok xs (product_ids db)" for xs
    using that by (auto simp: user_list_ok_def sql_delete_def image_subset_iff)
  ultimately show ?thesis
    using assms(1) by (simp add: delete_row_def catalogue_ok_def product_ids_def [of "delete_row i db"] ids
        product_ids_def [of "_\<lparr>ct_blacklist := _\<rparr>"] offers_ok_def collection_ok_def)
qed

section \<open>The merge as a whole\<close>

definition merge_steps :: "int \<Rightarrow> product_row \<Rightarrow> product_row \<Rightarrow> catalogue \<Rightarrow> catalogue" where
  \<comment> \<open>everything before the deletion\<close>
  "merge_steps now l k db =
     (let db1 = merge_facts now (pd_id k) (pd_id l) db;
          db2 = (if pd_flavors_curated_at l \<noteq> None \<and> pd_flavors_curated_at k = None then drop_links (pd_id k) db1 else db1)
      in retire_key (pd_id l, pd_match_key l) (pd_id k, pd_match_key k)
           (move_collection (pd_id l) (pd_id k) (move_user_lists (pd_id l) (pd_id k) (move_offers (pd_id l) (pd_id k)
             (merge_conflicts (pd_id k) (pd_id l) (merge_flavors (pd_id k) (pd_id l) db2))))))"

lemma merge_into_conv:
  assumes "product_by_id db loser = Some l" and "product_by_id db survivor = Some k" and "loser \<noteq> survivor"
  shows "merge_into now loser survivor db = delete_product loser (merge_steps now l k db)"
  using assms product_by_idD [OF assms(1)] product_by_idD [OF assms(2)]
  by (simp add: merge_into_def merge_steps_def Let_def)

lemmas merge_frame_defs = merge_facts_def drop_links_def merge_flavors_def merge_conflicts_def move_offers_def
  move_user_lists_def move_collection_def move_purchases_def drop_collection_def Let_def

lemma merge_frames:
  "ct_products (drop_links i db) = ct_products db" "ct_products (merge_flavors k l db) = ct_products db"
  "ct_products (merge_conflicts k l db) = ct_products db" "ct_products (move_offers l k db) = ct_products db"
  "ct_products (move_user_lists l k db) = ct_products db" "ct_products (move_collection l k db) = ct_products db"
  by (simp_all add: merge_frame_defs)

lemma merge_facts_ids: "product_ids (merge_facts now k l db) = product_ids db"
  by (rule product_ids_map) (simp add: merge_facts_def map_sql_update_from)

lemma merge_ids:
  "product_ids (drop_links i db) = product_ids db" "product_ids (merge_flavors k l db) = product_ids db"
  "product_ids (merge_conflicts k l db) = product_ids db" "product_ids (move_offers l k db) = product_ids db"
  "product_ids (move_user_lists l k db) = product_ids db" "product_ids (move_collection l k db) = product_ids db"
  by (simp_all add: product_ids_def merge_frames)

definition before_keys :: "int \<Rightarrow> product_row \<Rightarrow> product_row \<Rightarrow> catalogue \<Rightarrow> catalogue" where
  "before_keys now l k db =
     (let db1 = merge_facts now (pd_id k) (pd_id l) db;
          db2 = (if pd_flavors_curated_at l \<noteq> None \<and> pd_flavors_curated_at k = None then drop_links (pd_id k) db1 else db1)
      in move_collection (pd_id l) (pd_id k) (move_user_lists (pd_id l) (pd_id k) (move_offers (pd_id l) (pd_id k)
             (merge_conflicts (pd_id k) (pd_id l) (merge_flavors (pd_id k) (pd_id l) db2)))))"

lemma merge_steps_keys:
  "merge_steps now l k db = retire_key (pd_id l, pd_match_key l) (pd_id k, pd_match_key k) (before_keys now l k db)"
  by (simp add: merge_steps_def before_keys_def Let_def)

lemma before_keys_products: "ct_products (before_keys now l k db) = ct_products (merge_facts now (pd_id k) (pd_id l) db)"
  by (simp add: before_keys_def Let_def merge_frames)

lemma before_keys_ids: "product_ids (before_keys now l k db) = product_ids db"
  by (simp add: product_ids_def before_keys_products) (simp add: merge_facts_ids flip: product_ids_def)

lemma in_merge_facts:
  assumes "p \<in> set (ct_products (merge_facts now k l db))"
  shows "\<exists>q\<in>set (ct_products db). pd_id p = pd_id q \<and> pd_match_key p = pd_match_key q"
proof -
  have "p \<in> set (sql_update_from (\<lambda>l q. pd_id q = k) (\<lambda>l q. merge_row now q l) (filter (\<lambda>q. pd_id q = l) (ct_products db)) (ct_products db))"
    using assms by (simp add: merge_facts_def)
  from in_sql_update_from [OF this] show ?thesis by auto
qed

lemma before_keys_offers: "ct_offers (before_keys now l k db) = ct_offers (move_offers (pd_id l) (pd_id k) db)"
  by (simp add: before_keys_def merge_frame_defs)

lemma before_keys_collection:
  "ct_collection (before_keys now l k db) = ct_collection (move_collection (pd_id l) (pd_id k) db)"
  "ct_purchases (before_keys now l k db) = ct_purchases (move_collection (pd_id l) (pd_id k) db)"
  by (simp_all add: before_keys_def merge_frame_defs)

lemma before_keys_lists:
  "ct_favorites (before_keys now l k db) = move_user_list (pd_id l) (pd_id k) (ct_favorites db)"
  "ct_blacklist (before_keys now l k db) = move_user_list (pd_id l) (pd_id k) (ct_blacklist db)"
  "ct_snapshots (before_keys now l k db) = ct_snapshots db"
  by (simp_all add: before_keys_def merge_frame_defs)

lemma tail_ok:
  "catalogue_ok db \<Longrightarrow> k \<in> product_ids db \<Longrightarrow> k \<noteq> l \<Longrightarrow>
    catalogue_ok (move_collection l k (move_user_lists l k (move_offers l k (merge_conflicts k l (merge_flavors k l db)))))"
  by (simp add: merge_flavors_ok merge_conflicts_ok move_offers_ok move_user_lists_ok move_collection_ok merge_ids)

lemma before_keys_ok:
  assumes "catalogue_ok db" and k: "pd_id k \<in> product_ids db" and "pd_id k \<noteq> pd_id l"
  shows "catalogue_ok (before_keys now l k db)"
proof -
  let ?db1 = "merge_facts now (pd_id k) (pd_id l) db"
  let ?db2 = "if pd_flavors_curated_at l \<noteq> None \<and> pd_flavors_curated_at k = None then drop_links (pd_id k) ?db1 else ?db1"
  have "catalogue_ok ?db1" by (rule merge_facts_ok [OF assms(1)])
  then have ok: "catalogue_ok ?db2" by (simp add: drop_links_ok)
  have "product_ids ?db2 = product_ids db" by (simp add: merge_ids merge_facts_ids)
  then have ids: "pd_id k \<in> product_ids ?db2" using k by (simp only:)
  from tail_ok [OF ok ids assms(3)] show ?thesis unfolding before_keys_def Let_def .
qed

lemma merge_steps_ok:
  assumes ok: "catalogue_ok db" and l: "l \<in> set (ct_products db)" and k: "k \<in> set (ct_products db)" and ne: "pd_id k \<noteq> pd_id l"
  shows "catalogue_ok (merge_steps now l k db)"
  unfolding merge_steps_keys
proof (rule retire_key_ok)
  have ids: "pd_id k \<in> product_ids db" "pd_id l \<in> product_ids db" using l k by (auto simp: product_ids_def)
  show "catalogue_ok (before_keys now l k db)" using ok ids(1) ne by (rule before_keys_ok)
  show "pd_id k \<in> product_ids (before_keys now l k db)" "pd_id l \<in> product_ids (before_keys now l k db)"
    using ids by (simp_all add: before_keys_ids)
  show "pd_match_key p = pd_match_key l" if p: "p \<in> set (ct_products (before_keys now l k db))" "pd_id p = pd_id l" for p
  proof -
    obtain q where q: "q \<in> set (ct_products db)" "pd_id p = pd_id q" "pd_match_key p = pd_match_key q"
      using in_merge_facts [OF p(1) [unfolded before_keys_products]] by blast
    have "distinct (map pd_id (ct_products db))" using catalogue_okD(1) [OF ok] by (simp add: products_ok_def)
    from find_key_eq [OF this l q(1)] have "q = l" using p(2) q(2) by simp
    then show ?thesis using q by simp
  qed
qed (rule ne)

lemma retire_key_frames:
  "ct_offers (retire_key a b db) = ct_offers db" "ct_collection (retire_key a b db) = ct_collection db"
  "ct_purchases (retire_key a b db) = ct_purchases db" "ct_favorites (retire_key a b db) = ct_favorites db"
  "ct_blacklist (retire_key a b db) = ct_blacklist db" "ct_links (retire_key a b db) = ct_links db"
  "ct_conflicts (retire_key a b db) = ct_conflicts db" "ct_snapshots (retire_key a b db) = ct_snapshots db"
  by (simp_all add: retire_key_def set_key_def Let_def split: option.split)

lemma merge_unreferenced:
  assumes "pd_id k \<noteq> pd_id l"
  shows "\<not> referenced (pd_id l) (merge_steps now l k db)"
  using assms
  by (auto simp: referenced_def merge_steps_keys retire_key_frames before_keys_offers before_keys_collection sql_update_def
      move_offers_def move_collection_def drop_collection_def move_purchases_def Let_def split: if_splits)

lemma merge_succeeds:
  assumes ok: "catalogue_ok db" and "product_by_id db loser = Some l" and "product_by_id db survivor = Some k" and ne: "loser \<noteq> survivor"
  shows "merge_into now loser survivor db = Inr (delete_row loser (merge_steps now l k db))"
    and "catalogue_ok (delete_row loser (merge_steps now l k db))"
proof -
  have l: "l \<in> set (ct_products db)" "pd_id l = loser" and k: "k \<in> set (ct_products db)" "pd_id k = survivor"
    using product_by_idD assms(2,3) by blast+
  have free: "\<not> referenced loser (merge_steps now l k db)" using merge_unreferenced [of k l] l(2) k(2) ne by simp
  then show "merge_into now loser survivor db = Inr (delete_row loser (merge_steps now l k db))"
    by (simp add: merge_into_conv [OF assms(2-4)] delete_product_def)
  show "catalogue_ok (delete_row loser (merge_steps now l k db))"
    using delete_row_ok [OF merge_steps_ok [OF ok l(1) k(1)] free] l(2) k(2) ne by simp
qed

end
