(* ===== verification/Product_Kept.thy ===== *)
theory Product_Kept
  imports Product_Merge_Facts
begin

text \<open>
  Where everything recorded about a vanishing bottling ends up: its keys, the list entries, the
  collections with their purchases, the tags and the facts.
\<close>

section \<open>Keys\<close>

definition live_pairs :: "product_row list \<Rightarrow> (string \<times> row_id) set" where
  "live_pairs ps = {(key, i). \<exists>p\<in>set ps. pd_match_key p = Some key \<and> pd_id p = i}"

definition alias_pairs :: "alias_row list \<Rightarrow> (string \<times> row_id) set" where
  "alias_pairs als = (\<lambda>a. (al_key a, al_product a)) ` set als"

definition keys_of :: "catalogue \<Rightarrow> (string \<times> row_id) set" where
  \<comment> \<open>every key a bottling answers to, live or retired\<close>
  "keys_of db = live_pairs (ct_products db) \<union> alias_pairs (ct_aliases db)"

definition key_holder :: "catalogue \<Rightarrow> string \<Rightarrow> row_id option" where
  \<comment> \<open>the bottling a scrape finds under the key\<close>
  "key_holder db key = js_get (resolve_known_keys db [Some key]) key"

lemma live_pairs_unique:
  assumes "products_ok ps n" and "(key, i) \<in> live_pairs ps" and "(key, j) \<in> live_pairs ps"
  shows "i = j"
  using assms unfolding products_ok_def live_pairs_def by auto

lemma live_pairs_keys: "fst ` live_pairs ps = live_keys ps"
  by (force simp: live_pairs_def live_keys_def)

lemma alias_pairs_keys: "fst ` alias_pairs als = al_key ` set als"
  by (force simp: alias_pairs_def)

lemma alias_pairs_unique:
  assumes "distinct (map al_key als)" and "(key, i) \<in> alias_pairs als" and "(key, j) \<in> alias_pairs als"
  shows "i = j"
proof -
  obtain a b where "a \<in> set als" "b \<in> set als" "al_key a = key" "al_key b = key" "al_product a = i" "al_product b = j"
    using assms(2,3) by (auto simp: alias_pairs_def)
  then show ?thesis using find_key_eq [OF assms(1), of a b] by simp
qed

lemma live_not_retired:
  assumes "catalogue_ok db" and "(key, i) \<in> live_pairs (ct_products db)"
  shows "(key, j) \<notin> alias_pairs (ct_aliases db)"
proof
  assume "(key, j) \<in> alias_pairs (ct_aliases db)"
  then have "key \<in> al_key ` set (ct_aliases db)" using alias_pairs_keys by (metis fst_conv imageI)
  moreover have "key \<in> live_keys (ct_products db)" using assms(2) live_pairs_keys by (metis fst_conv imageI)
  ultimately show False using catalogue_okD(2) [OF assms(1)] by (auto simp: aliases_ok_def)
qed

lemma keys_of_unique:
  assumes ok: "catalogue_ok db" and "(key, i) \<in> keys_of db" and "(key, j) \<in> keys_of db"
  shows "i = j"
proof -
  have als: "distinct (map al_key (ct_aliases db))" using catalogue_okD(2) [OF ok] by (simp add: aliases_ok_def)
  show ?thesis
    using assms(2,3) live_pairs_unique [OF catalogue_okD(1) [OF ok]] alias_pairs_unique [OF als] live_not_retired [OF ok]
    unfolding keys_of_def by blast
qed

lemma set_known: "set (known_keys db [key]) = {e \<in> keys_of db. fst e = key}"
proof -
  have "set (map (\<lambda>p. (the (pd_match_key p), pd_id p))
       (filter (\<lambda>p. case pd_match_key p of None \<Rightarrow> False | Some k \<Rightarrow> k \<in> set [key]) (ct_products db)))
     = {e \<in> live_pairs (ct_products db). fst e = key}"
    by (force simp: live_pairs_def split: option.splits)
  then show ?thesis by (force simp: known_keys_def keys_of_def alias_pairs_def)
qed

lemma key_holder_iff:
  assumes "catalogue_ok db"
  shows "key_holder db key = Some i \<longleftrightarrow> (key, i) \<in> keys_of db"
proof -
  have holder: "key_holder db key = js_get (js_map (known_keys db [key])) key"
    by (simp add: key_holder_def resolve_known_keys_def Let_def List.map_filter_def)
  have fwd: "key_holder db key = Some j \<Longrightarrow> (key, j) \<in> keys_of db" for j
    unfolding holder using js_get_map_Some [of "known_keys db [key]" key j] set_known by blast
  have "key_holder db key = Some i" if mem: "(key, i) \<in> keys_of db"
  proof (cases "key_holder db key")
    case None
    then have "key \<notin> fst ` set (known_keys db [key])" unfolding holder by (simp add: js_get_map_None)
    then show ?thesis using mem set_known [of db key] by force
  next
    case (Some j)
    then show ?thesis using keys_of_unique [OF assms fwd [OF Some] mem] by simp
  qed
  then show ?thesis using fwd by blast
qed

lemma key_holder_map:
  assumes "catalogue_ok db" and "catalogue_ok db'" and keys: "keys_of db' = map_prod id g ` keys_of db"
  shows "key_holder db' key = map_option g (key_holder db key)"
proof (cases "key_holder db key")
  case None
  then have "(key, i) \<notin> keys_of db" for i using key_holder_iff [OF assms(1), of key i] by simp
  then have "(key, j) \<notin> keys_of db'" for j by (auto simp: keys)
  then have "key_holder db' key \<noteq> Some j" for j using key_holder_iff [OF assms(2)] by blast
  then show ?thesis using None by (cases "key_holder db' key") auto
next
  case (Some i)
  then have "(key, g i) \<in> keys_of db'" using key_holder_iff [OF assms(1)] by (force simp: keys)
  then show ?thesis using key_holder_iff [OF assms(2)] Some by simp
qed

lemma live_pairs_map: "map (\<lambda>p. (pd_match_key p, pd_id p)) ps = map (\<lambda>p. (pd_match_key p, pd_id p)) qs \<Longrightarrow> live_pairs ps = live_pairs qs"
proof -
  have image: "live_pairs rs = {(key, i). (Some key, i) \<in> set (map (\<lambda>p. (pd_match_key p, pd_id p)) rs)}" for rs
    by (force simp: live_pairs_def)
  show "map (\<lambda>p. (pd_match_key p, pd_id p)) ps = map (\<lambda>p. (pd_match_key p, pd_id p)) qs \<Longrightarrow> live_pairs ps = live_pairs qs"
    by (simp only: image)
qed

lemma before_keys_aliases: "ct_aliases (before_keys now l k db) = ct_aliases db"
  by (simp add: before_keys_def merge_frame_defs)

lemma keys_before: "keys_of (before_keys now l k db) = keys_of db"
proof -
  have "live_pairs (ct_products (before_keys now l k db)) = live_pairs (ct_products db)"
    by (rule live_pairs_map) (simp add: before_keys_products merge_facts_def map_sql_update_from)
  then show ?thesis by (simp add: keys_of_def before_keys_aliases)
qed

subsection \<open>Retiring a key\<close>

lemma live_pairs_set_None: "live_pairs (sql_update (\<lambda>p. pd_id p = l) (\<lambda>p. p\<lparr>pd_match_key := None\<rparr>) ps) = {e \<in> live_pairs ps. snd e \<noteq> l}"
  by (auto simp: live_pairs_def sql_update_def split: if_splits)

lemma live_pairs_set_Some:
  assumes "s \<in> pd_id ` set ps" and "\<And>p. p \<in> set ps \<Longrightarrow> pd_id p = s \<Longrightarrow> pd_match_key p = None"
  shows "live_pairs (sql_update (\<lambda>p. pd_id p = s) (\<lambda>p. p\<lparr>pd_match_key := Some key\<rparr>) ps) = insert (key, s) (live_pairs ps)"
proof (rule set_eqI)
  fix e
  let ?f = "\<lambda>p. if pd_id p = s then p\<lparr>pd_match_key := Some key\<rparr> else p"
  have "e \<in> live_pairs (map ?f ps) \<longleftrightarrow> (\<exists>p\<in>set ps. pd_match_key (?f p) = Some (fst e) \<and> pd_id (?f p) = snd e)"
    by (cases e) (simp only: live_pairs_def set_map mem_Collect_eq case_prod_conv bex_simps fst_conv snd_conv)
  also have "\<dots> \<longleftrightarrow> (\<exists>p\<in>set ps. if pd_id p = s then e = (key, s) else pd_match_key p = Some (fst e) \<and> pd_id p = snd e)"
    by (rule bex_cong) (cases e, auto)
  also have "\<dots> \<longleftrightarrow> e = (key, s) \<or> (\<exists>p\<in>set ps. pd_match_key p = Some (fst e) \<and> pd_id p = snd e)"
  proof
    assume "e = (key, s) \<or> (\<exists>p\<in>set ps. pd_match_key p = Some (fst e) \<and> pd_id p = snd e)"
    then show "\<exists>p\<in>set ps. if pd_id p = s then e = (key, s) else pd_match_key p = Some (fst e) \<and> pd_id p = snd e"
    proof
      assume "e = (key, s)"
      then show ?thesis using assms(1) by auto
    next
      assume "\<exists>p\<in>set ps. pd_match_key p = Some (fst e) \<and> pd_id p = snd e"
      then obtain p where p: "p \<in> set ps" "pd_match_key p = Some (fst e)" "pd_id p = snd e" by blast
      then have "pd_id p \<noteq> s" using assms(2) by auto
      then show ?thesis using p by (intro bexI [OF _ p(1)]) simp
    qed
  qed (auto split: if_splits)
  also have "\<dots> \<longleftrightarrow> e \<in> insert (key, s) (live_pairs ps)" by (cases e) (simp add: live_pairs_def)
  finally show "e \<in> live_pairs (sql_update (\<lambda>p. pd_id p = s) (\<lambda>p. p\<lparr>pd_match_key := Some key\<rparr>) ps) \<longleftrightarrow>
      e \<in> insert (key, s) (live_pairs ps)" by (simp add: sql_update_def)
qed

lemma alias_pairs_moved:
  "alias_pairs (sql_update (\<lambda>a. al_product a = l) (\<lambda>a. a\<lparr>al_product := s\<rparr>) als) = map_prod id (moved l s) ` alias_pairs als"
  unfolding alias_pairs_def sql_update_def set_map image_image by (rule image_cong) (simp_all add: moved_def)

lemma alias_pairs_adopt:
  "key \<notin> al_key ` set als \<Longrightarrow>
    alias_pairs (sql_upsert (\<lambda>a. al_key a = key) f \<lparr>al_key = key, al_product = s\<rparr> als) = insert (key, s) (alias_pairs als)"
  by (auto simp: sql_upsert_def alias_pairs_def)

lemma live_pairs_moved:
  assumes "\<And>key. (key, l) \<in> live_pairs ps \<longleftrightarrow> lkey = Some key"
  shows "map_prod id (moved l s) ` live_pairs ps = {e \<in> live_pairs ps. snd e \<noteq> l} \<union> (\<lambda>key. (key, s)) ` set_option lkey"
proof -
  have "live_pairs ps = {e \<in> live_pairs ps. snd e \<noteq> l} \<union> (\<lambda>key. (key, l)) ` set_option lkey"
    using assms by (auto simp: elem_set)
  then have "map_prod id (moved l s) ` live_pairs ps
      = map_prod id (moved l s) ` {e \<in> live_pairs ps. snd e \<noteq> l} \<union> map_prod id (moved l s) ` (\<lambda>key. (key, l)) ` set_option lkey"
    by (metis image_Un)
  moreover have "map_prod id (moved l s) ` {e \<in> live_pairs ps. snd e \<noteq> l} = {e \<in> live_pairs ps. snd e \<noteq> l}"
    by (force simp: moved_def image_iff)
  moreover have "map_prod id (moved l s) ` (\<lambda>key. (key, l)) ` set_option lkey = (\<lambda>key. (key, s)) ` set_option lkey"
    by (simp add: image_image moved_def)
  ultimately show ?thesis by simp
qed

lemma keys_retired:
  assumes ne: "s \<noteq> l" and rows: "\<And>p. p \<in> set (ct_products db) \<Longrightarrow> pd_id p = l \<Longrightarrow> pd_match_key p = lkey"
    "\<And>p. p \<in> set (ct_products db) \<Longrightarrow> pd_id p = s \<Longrightarrow> pd_match_key p = skey"
    and there: "l \<in> product_ids db" "s \<in> product_ids db" and ok: "catalogue_ok db"
  shows "keys_of (retire_key (l, lkey) (s, skey) db) = map_prod id (moved l s) ` keys_of db"
proof -
  let ?als = "sql_update (\<lambda>a. al_product a = l) (\<lambda>a. a\<lparr>al_product := s\<rparr>) (ct_aliases db)"
  let ?rest = "{e \<in> live_pairs (ct_products db). snd e \<noteq> l}"
  have own: "(key, l) \<in> live_pairs (ct_products db) \<longleftrightarrow> lkey = Some key" for key
    using rows(1) there(1) by (auto simp: live_pairs_def product_ids_def)
  have image: "map_prod id (moved l s) ` keys_of db = ?rest \<union> (\<lambda>key. (key, s)) ` set_option lkey \<union> alias_pairs ?als"
    by (simp only: keys_of_def image_Un live_pairs_moved [where ps = "ct_products db" and l = l, OF own] alias_pairs_moved)
  have "map al_key ?als = map al_key (ct_aliases db)" by (simp add: map_sql_update)
  then have als_keys: "al_key ` set ?als = al_key ` set (ct_aliases db)" by (metis list.set_map)
  show ?thesis
  proof (cases lkey)
    case None
    then have "?rest = live_pairs (ct_products db)" using own by auto
    then show ?thesis using None image by (simp add: retire_key_def keys_of_def)
  next
    case (Some key)
    have free: "key \<notin> al_key ` set ?als"
      using live_not_retired [OF ok, of key l] own Some als_keys by (auto simp: alias_pairs_def)
    let ?ps = "sql_update (\<lambda>p. pd_id p = l) (\<lambda>p. p\<lparr>pd_match_key := None\<rparr>) (ct_products db)"
    show ?thesis
    proof (cases "skey = None")
      case True
      have "map pd_id ?ps = map pd_id (ct_products db)" by (simp add: map_sql_update)
      then have "pd_id ` set ?ps = product_ids db" by (metis product_ids_def list.set_map)
      then have "s \<in> pd_id ` set ?ps" using there(2) by simp
      moreover have "pd_match_key p = None" if mem: "p \<in> set ?ps" "pd_id p = s" for p
      proof -
        obtain q where "q \<in> set (ct_products db)" "p = (if pd_id q = l then q\<lparr>pd_match_key := None\<rparr> else q)"
          using mem(1) unfolding in_sql_update by blast
        then show ?thesis using rows(2) [of q] True mem(2) by (simp split: if_splits)
      qed
      ultimately show ?thesis using True Some image
        by (simp add: retire_key_def Let_def set_key_def keys_of_def live_pairs_set_Some live_pairs_set_None)
    next
      case False
      then obtain kept where "skey = Some kept" by blast
      then show ?thesis using Some image
        by (simp add: retire_key_def Let_def set_key_def keys_of_def live_pairs_set_None alias_pairs_adopt [OF free])
    qed
  qed
qed

lemma keys_deleted: "(\<And>key. (key, i) \<notin> keys_of db) \<Longrightarrow> keys_of (delete_row i db) = keys_of db"
proof -
  assume none: "\<And>key. (key, i) \<notin> keys_of db"
  have "live_pairs (sql_delete (\<lambda>p. pd_id p = i) (ct_products db)) = {e \<in> live_pairs (ct_products db). snd e \<noteq> i}"
    by (auto simp: live_pairs_def)
  moreover have "alias_pairs (sql_delete (\<lambda>a. al_product a = i) (ct_aliases db)) = {e \<in> alias_pairs (ct_aliases db). snd e \<noteq> i}"
    by (auto simp: alias_pairs_def)
  ultimately have "keys_of (delete_row i db) = {e \<in> keys_of db. snd e \<noteq> i}" by (auto simp: keys_of_def delete_row_def)
  then show ?thesis using none by auto
qed

lemma merged_row_key:
  assumes ok: "catalogue_ok db" and l: "l \<in> set (ct_products db)"
    and p: "p \<in> set (ct_products (before_keys now a b db))" "pd_id p = pd_id l"
  shows "pd_match_key p = pd_match_key l"
proof -
  obtain q where q: "q \<in> set (ct_products db)" "pd_id p = pd_id q" "pd_match_key p = pd_match_key q"
    using in_merge_facts [OF p(1) [unfolded before_keys_products]] by blast
  have "distinct (map pd_id (ct_products db))" using catalogue_okD(1) [OF ok] by (simp add: products_ok_def)
  from find_key_eq [OF this l q(1)] show ?thesis using p(2) q(2,3) by simp
qed

lemma keys_merged:
  assumes ok: "catalogue_ok db" and l: "l \<in> set (ct_products db)" and k: "k \<in> set (ct_products db)" and ne: "pd_id k \<noteq> pd_id l"
  shows "keys_of (delete_row (pd_id l) (merge_steps now l k db)) = map_prod id (moved (pd_id l) (pd_id k)) ` keys_of db"
proof -
  have ids: "pd_id k \<in> product_ids db" "pd_id l \<in> product_ids db" using l k by (auto simp: product_ids_def)
  have steps: "keys_of (merge_steps now l k db) = map_prod id (moved (pd_id l) (pd_id k)) ` keys_of db"
    unfolding merge_steps_keys keys_before [of now l k db, symmetric]
    by (rule keys_retired [OF ne])
      (use ids ne merged_row_key [OF ok l] merged_row_key [OF ok k] before_keys_ok [OF ok ids(1) ne] in \<open>simp_all add: before_keys_ids\<close>)
  have "(key, pd_id l) \<notin> keys_of (merge_steps now l k db)" for key
    using ne by (auto simp: steps moved_def split: if_splits)
  then show ?thesis using keys_deleted steps by metis
qed

section \<open>Lists\<close>

definition listed :: "list_row list \<Rightarrow> row_id \<Rightarrow> row_id set" where
  \<comment> \<open>the bottlings on one user's list\<close>
  "listed xs u = {i. \<exists>x\<in>set xs. ul_user x = u \<and> ul_product x = i}"

lemma in_listed: "i \<in> listed xs u \<longleftrightarrow> \<lparr>ul_user = u, ul_product = i\<rparr> \<in> set xs"
proof
  assume "i \<in> listed xs u"
  then obtain x where x: "x \<in> set xs" "ul_user x = u" "ul_product x = i" by (auto simp: listed_def)
  from x(2,3) have "x = \<lparr>ul_user = u, ul_product = i\<rparr>" by simp
  then show "\<lparr>ul_user = u, ul_product = i\<rparr> \<in> set xs" using x(1) by simp
qed (force simp: listed_def)

lemma moved_listed:
  assumes "s \<noteq> l"
  shows "(\<exists>q\<in>set xs. ul_product q = l \<and> \<lparr>ul_user = u, ul_product = i\<rparr> = q\<lparr>ul_product := s\<rparr>
      \<and> \<not> (\<exists>kept\<in>set xs. ul_user kept = ul_user q \<and> ul_product kept = s)) \<longleftrightarrow> i = s \<and> l \<in> listed xs u \<and> s \<notin> listed xs u"
  (is "?lhs \<longleftrightarrow> ?rhs")
proof
  assume ?lhs
  then obtain q where q: "q \<in> set xs" "ul_product q = l" "\<lparr>ul_user = u, ul_product = i\<rparr> = q\<lparr>ul_product := s\<rparr>"
    and free: "\<not> (\<exists>kept\<in>set xs. ul_user kept = ul_user q \<and> ul_product kept = s)" by blast
  have "i = s" "u = ul_user q" using q(3) by (cases q; simp)+
  then show ?rhs using q(1,2) free by (auto simp: listed_def)
next
  assume rhs: ?rhs
  then have "\<lparr>ul_user = u, ul_product = l\<rparr> \<in> set xs" by (simp add: in_listed)
  then show ?lhs using rhs by (intro bexI [where x = "\<lparr>ul_user = u, ul_product = l\<rparr>"]) (auto simp: listed_def)
qed

lemma listed_moved:
  assumes "s \<noteq> l"
  shows "listed (move_user_list l s xs) u = moved l s ` listed xs u"
proof -
  have "i \<in> listed (move_user_list l s xs) u \<longleftrightarrow> (i \<noteq> l \<and> i \<in> listed xs u) \<or> (i = s \<and> l \<in> listed xs u)" for i
    using assms unfolding in_listed [of i "move_user_list l s xs"] in_move_user_list moved_listed [OF assms]
    by (auto simp: in_listed)
  then show ?thesis using assms by (auto simp: moved_def image_iff)
qed

lemma listed_deleted: "i \<notin> listed xs u \<Longrightarrow> listed (sql_delete (\<lambda>x. ul_product x = i) xs) u = listed xs u"
  by (auto simp: listed_def)

lemma lists_merged:
  fixes now :: int and db :: catalogue
  assumes "pd_id k \<noteq> pd_id l"
  defines "db' \<equiv> delete_row (pd_id l) (merge_steps now l k db)"
  shows "listed (ct_favorites db') u = moved (pd_id l) (pd_id k) ` listed (ct_favorites db) u"
    and "listed (ct_blacklist db') u = moved (pd_id l) (pd_id k) ` listed (ct_blacklist db) u"
proof -
  have away: "pd_id l \<notin> moved (pd_id l) (pd_id k) ` A" for A using assms(1) by (auto simp: moved_def)
  show "listed (ct_favorites db') u = moved (pd_id l) (pd_id k) ` listed (ct_favorites db) u"
    "listed (ct_blacklist db') u = moved (pd_id l) (pd_id k) ` listed (ct_blacklist db) u"
    using listed_deleted [of "pd_id l"] listed_moved [OF assms(1)] away
    by (simp_all add: db'_def delete_row_def merge_steps_keys retire_key_frames before_keys_lists)
qed

section \<open>Collections\<close>

definition held :: "collection_row list \<Rightarrow> (row_id \<times> row_id) set" where
  \<comment> \<open>who holds which bottling\<close>
  "held cs = (\<lambda>c. (co_user c, co_product c)) ` set cs"

definition bought :: "catalogue \<Rightarrow> (purchase_row \<times> row_id \<times> row_id) set" where
  \<comment> \<open>each purchase as recorded, but for the entry it hangs on, with its buyer and the bottling\<close>
  "bought db = {(p\<lparr>pu_collection := 0\<rparr>, co_user c, co_product c) | p c.
     p \<in> set (ct_purchases db) \<and> c \<in> set (ct_collection db) \<and> co_id c = pu_collection p}"

definition hung :: "row_id \<Rightarrow> row_id \<Rightarrow> collection_row list \<Rightarrow> purchase_row \<Rightarrow> purchase_row" where
  \<comment> \<open>a purchase after the move\<close>
  "hung l s cs p = (case kept_collection l s cs (pu_collection p) of None \<Rightarrow> p | Some k \<Rightarrow> p\<lparr>pu_collection := k\<rparr>)"

definition rehomed :: "row_id \<Rightarrow> row_id \<Rightarrow> collection_row \<Rightarrow> collection_row" where
  "rehomed l s c = (if co_product c = l then c\<lparr>co_product := s\<rparr> else c)"

lemma rehomed_simps [simp]: "co_id (rehomed l s c) = co_id c" "co_user (rehomed l s c) = co_user c"
  "co_product (rehomed l s c) = moved l s (co_product c)"
  by (simp_all add: rehomed_def moved_def)

lemma hung_content [simp]: "(hung l s cs p)\<lparr>pu_collection := 0\<rparr> = p\<lparr>pu_collection := 0\<rparr>"
  by (simp add: hung_def split: option.split)

lemma collection_moved:
  "ct_collection (move_collection l s db)
     = map (rehomed l s) (filter (\<lambda>c. \<not> collides l s (ct_collection db) c) (ct_collection db))"
  by (simp add: move_collection_def drop_collection_def move_purchases_def Let_def sql_update_def sql_delete_def rehomed_def)

lemma kept_collection_of:
  assumes ids: "distinct (map co_id cs)" and c: "c \<in> set cs"
  shows "kept_collection l s cs (co_id c) =
    (if co_product c = l then map_option co_id (find (\<lambda>k. co_user k = co_user c \<and> co_product k = s) cs) else None)"
proof (cases "find (\<lambda>e. co_id e = co_id c \<and> co_product e = l) cs")
  case None
  then have "co_product c \<noteq> l" using c by (auto simp: find_None_iff)
  then show ?thesis using None by (simp add: kept_collection_def)
next
  case (Some e)
  then have "e = c" using find_SomeD [OF Some] find_key_eq [OF ids c] by simp
  then show ?thesis using Some find_SomeD [OF Some] by (simp add: kept_collection_def)
qed

lemma purchases_moved:
  assumes ids: "distinct (map co_id (ct_collection db))" and ne: "s \<noteq> l"
  shows "ct_purchases (move_collection l s db) = map (hung l s (ct_collection db)) (ct_purchases db)"
proof -
  let ?cs = "ct_collection db"
  have "\<not> collides l s ?cs c" if c: "c \<in> set ?cs" and p: "pu_collection (hung l s ?cs p) = co_id c" for c p
  proof (cases "kept_collection l s ?cs (pu_collection p)")
    case None
    then have "pu_collection p = co_id c" using p by (simp add: hung_def)
    then show ?thesis using None kept_collection_of [OF ids c, of l s] by (auto simp: collides_def find_None_iff)
  next
    case (Some k)
    obtain r where r: "r \<in> set ?cs" "co_product r = s" "co_id r = k" using kept_collectionD [OF Some] by blast
    have "co_id c = k" using p Some by (simp add: hung_def)
    then have "c = r" using find_key_eq [OF ids r(1) c] r(3) by simp
    then show ?thesis using r(2) ne by (simp add: collides_def)
  qed
  then have "sql_delete (\<lambda>p. pu_collection p \<in> co_id ` set (filter (collides l s ?cs) ?cs)) (map (hung l s ?cs) (ct_purchases db))
      = map (hung l s ?cs) (ct_purchases db)"
    by (intro sql_delete_id) auto
  then show ?thesis by (simp add: move_collection_def drop_collection_def move_purchases_def Let_def hung_def [abs_def])
qed

lemma held_moved:
  assumes ne: "s \<noteq> l"
  shows "held (ct_collection (move_collection l s db)) = map_prod id (moved l s) ` held (ct_collection db)"
proof -
  let ?cs = "ct_collection db"
  have "(co_user c, moved l s (co_product c)) \<in> held (ct_collection (move_collection l s db))" if c: "c \<in> set ?cs" for c
  proof (cases "collides l s ?cs c")
    case True
    then obtain k where k: "k \<in> set ?cs" "co_user k = co_user c" "co_product k = s" "co_product c = l"
      by (auto simp: collides_def)
    then have "\<not> collides l s ?cs k" using ne by (simp add: collides_def)
    then have "rehomed l s k \<in> set (ct_collection (move_collection l s db))" using k(1) by (simp add: collection_moved)
    then show ?thesis unfolding held_def by (rule image_eqI [rotated]) (use k(2-4) ne in \<open>simp add: moved_def\<close>)
  next
    case False
    then have "rehomed l s c \<in> set (ct_collection (move_collection l s db))" using c by (simp add: collection_moved)
    then show ?thesis unfolding held_def by (rule image_eqI [rotated]) simp
  qed
  moreover have "held (ct_collection (move_collection l s db)) \<subseteq> map_prod id (moved l s) ` held ?cs"
    by (auto simp: held_def collection_moved image_image)
  ultimately show ?thesis unfolding held_def by (auto simp: image_image)
qed

lemma hung_entry:
  assumes ids: "distinct (map co_id (ct_collection db))" and ne: "s \<noteq> l"
    and c: "c \<in> set (ct_collection db)" "co_id c = pu_collection p"
  shows "\<exists>c'\<in>set (ct_collection (move_collection l s db)). co_id c' = pu_collection (hung l s (ct_collection db) p)
      \<and> co_user c' = co_user c \<and> co_product c' = moved l s (co_product c)"
proof -
  let ?cs = "ct_collection db"
  have there: "rehomed l s e \<in> set (ct_collection (move_collection l s db))" if "e \<in> set ?cs" "\<not> collides l s ?cs e" for e
    using that by (simp add: collection_moved)
  note kept = kept_collection_of [OF ids c(1), of l s, unfolded c(2)]
  show ?thesis
  proof (cases "kept_collection l s ?cs (pu_collection p)")
    case None
    then have "\<not> collides l s ?cs c" using kept by (auto simp: collides_def find_None_iff split: if_splits)
    then show ?thesis using there [OF c(1)] None c(2) by (intro bexI [where x = "rehomed l s c"]) (simp_all add: hung_def)
  next
    case (Some i)
    then obtain k where k: "co_product c = l" "find (\<lambda>k. co_user k = co_user c \<and> co_product k = s) ?cs = Some k" "co_id k = i"
      using kept by (auto split: if_splits)
    note r = find_SomeD [OF k(2)]
    then have "\<not> collides l s ?cs k" using ne by (simp add: collides_def)
    then show ?thesis using there [of k] r k Some ne
      by (intro bexI [where x = "rehomed l s k"]) (simp_all add: hung_def moved_def)
  qed
qed

lemma bought_moved:
  assumes ok: "catalogue_ok db" and there: "s \<in> product_ids db" and ne: "s \<noteq> l"
  shows "bought (move_collection l s db) = (\<lambda>(p, u, i). (p, u, moved l s i)) ` bought db"
proof -
  let ?db' = "move_collection l s db" and ?h = "hung l s (ct_collection db)"
  have ids: "distinct (map co_id (ct_collection db))" using catalogue_okD(9) [OF ok] by (simp add: collection_ok_def)
  have ids': "distinct (map co_id (ct_collection ?db'))"
    using catalogue_okD(9) [OF move_collection_ok [OF ok there ne]] by (simp add: collection_ok_def)
  note ps = purchases_moved [OF ids ne]
  have fwd: "(p\<lparr>pu_collection := 0\<rparr>, co_user c, moved l s (co_product c)) \<in> bought ?db'"
    if pc: "p \<in> set (ct_purchases db)" "c \<in> set (ct_collection db)" "co_id c = pu_collection p" for p c
  proof -
    obtain c' where c': "c' \<in> set (ct_collection ?db')" "co_id c' = pu_collection (?h p)" "co_user c' = co_user c"
      "co_product c' = moved l s (co_product c)" using hung_entry [OF ids ne pc(2,3)] by blast
    have "?h p \<in> set (ct_purchases ?db')" using pc(1) by (simp add: ps)
    then have "((?h p)\<lparr>pu_collection := 0\<rparr>, co_user c', co_product c') \<in> bought ?db'" using c' unfolding bought_def by blast
    then show ?thesis using c'(3,4) by simp
  qed
  have bwd: "\<exists>e\<in>bought db. (p'\<lparr>pu_collection := 0\<rparr>, co_user c', co_product c') = (\<lambda>(p, u, i). (p, u, moved l s i)) e"
    if pc: "p' \<in> set (ct_purchases ?db')" "c' \<in> set (ct_collection ?db')" "co_id c' = pu_collection p'" for p' c'
  proof -
    obtain p where p: "p \<in> set (ct_purchases db)" "p' = ?h p" using pc(1) by (auto simp: ps)
    obtain c where c: "c \<in> set (ct_collection db)" "co_id c = pu_collection p"
      using catalogue_okD(10) [OF ok] p(1) by (force simp: purchases_ok_def)
    obtain c'' where c'': "c'' \<in> set (ct_collection ?db')" "co_id c'' = pu_collection (?h p)" "co_user c'' = co_user c"
      "co_product c'' = moved l s (co_product c)" using hung_entry [OF ids ne c] by blast
    have "c'' = c'" using find_key_eq [OF ids' pc(2) c''(1)] c''(2) pc(3) p(2) by simp
    moreover have "(p\<lparr>pu_collection := 0\<rparr>, co_user c, co_product c) \<in> bought db" using p(1) c unfolding bought_def by blast
    ultimately show ?thesis using c''(3,4) p(2) by (intro bexI [where x = "(p\<lparr>pu_collection := 0\<rparr>, co_user c, co_product c)"]) simp_all
  qed
  show ?thesis
  proof (intro equalityI subsetI)
    fix e assume "e \<in> bought ?db'"
    then obtain p c where "p \<in> set (ct_purchases ?db')" "c \<in> set (ct_collection ?db')" "co_id c = pu_collection p"
      "e = (p\<lparr>pu_collection := 0\<rparr>, co_user c, co_product c)" unfolding bought_def by blast
    then show "e \<in> (\<lambda>(p, u, i). (p, u, moved l s i)) ` bought db" using bwd by blast
  next
    fix e assume "e \<in> (\<lambda>(p, u, i). (p, u, moved l s i)) ` bought db"
    then obtain p c where "p \<in> set (ct_purchases db)" "c \<in> set (ct_collection db)" "co_id c = pu_collection p"
      "e = (p\<lparr>pu_collection := 0\<rparr>, co_user c, moved l s (co_product c))" unfolding bought_def by auto
    then show "e \<in> bought ?db'" using fwd by simp
  qed
qed

end
