(* ===== verification/Scrape_Persist.thy ===== *)
theory Scrape_Persist
  imports Kb_Apply
begin

text \<open>
  Writing one store's scrape (scrape/persist/scrape-persist.service.ts): the run's snapshots are
  keyed and ordered, new SKUs are resolved to bottlings, every snapshot is upserted as an offer
  with its price of the day, the run's claims are logged, filled in and corrected by the knowledge
  base, and the offers the run did not see are flagged. What the service takes from elsewhere is
  the record \<open>persist_env\<close>: the locale order, lower case, the name cleaner and the match key of
  utils (text work over Unicode), the folds of the database and of the knowledge base, the
  transaction's time and the knowledge base's index.
\<close>

record product_snapshot =
  ps_sku :: string
  ps_url :: string
  ps_name :: string
  ps_clean_name :: "string option"
  ps_price :: rat
  ps_brand :: "string option"
  ps_old_price :: "rat option"
  ps_currency :: string
  ps_in_stock :: bool
  ps_promo :: bool
  ps_volume :: "int option"
  ps_abv :: "rat option"
  ps_age :: "int option"
  ps_type :: "string option"
  ps_country :: "string option"
  ps_flavor_tags :: "string list"
  ps_fact_sources :: "(fact_field \<times> fact_source) list"
  ps_llm_tags :: "string list option"
  ps_llm_checked :: bool
  ps_match_key :: "string option"

datatype listing_stop = Stop_Exhausted | Stop_Counted | Stop_Page_Failed | Stop_Page_Cap | Stop_Short | Stop_Ambiguous

record listing_result =
  lr_complete :: bool
  lr_stop :: listing_stop

datatype progress_event =
    Ev_Kb_Applied nat nat
  | Ev_Listing_Incomplete listing_stop nat nat
  | Ev_Stock_Drop nat nat
  | Ev_Persisted nat nat nat nat

record persist_counts =
  pc_stored :: nat
  pc_added :: nat
  pc_added_products :: nat
  pc_removed :: nat

record persist_env =
  pe_coll :: "string \<Rightarrow> string \<Rightarrow> rat"
  pe_lower :: "string \<Rightarrow> string"
  pe_clean :: "string \<Rightarrow> string option"
  pe_key :: "string option \<Rightarrow> string option \<Rightarrow> int option \<Rightarrow> int option \<Rightarrow> string option"
  pe_ident :: "string \<Rightarrow> string"
  pe_fold_key :: "string \<Rightarrow> string"
  pe_now :: int
  pe_index :: kb_index

definition abv_tolerance :: rat where
  "abv_tolerance = 1 / 10"

definition sweep_guard_ratio :: rat where
  "sweep_guard_ratio = 1 / 2"

section \<open>Keys\<close>

record resolved_snapshot =
  rv_snap :: product_snapshot
  rv_key :: "string option"

definition resolve_name :: "persist_env \<Rightarrow> product_snapshot \<Rightarrow> string option" where
  "resolve_name env s = (case ps_clean_name s of Some n \<Rightarrow> Some n | None \<Rightarrow> pe_clean env (ps_name s))"

definition resolved_order :: "(string \<Rightarrow> string \<Rightarrow> rat) \<Rightarrow> resolved_snapshot \<Rightarrow> resolved_snapshot \<Rightarrow> rat" where
  "resolved_order coll a b =
     (if rv_key a = rv_key b then coll (ps_sku (rv_snap a)) (ps_sku (rv_snap b))
      else (case (rv_key a, rv_key b) of
              (None, _) \<Rightarrow> 1
            | (_, None) \<Rightarrow> - 1
            | (Some x, Some y) \<Rightarrow> coll x y))"

definition resolve_keys :: "persist_env \<Rightarrow> product_snapshot list \<Rightarrow> resolved_snapshot list" where
  "resolve_keys env snaps =
     js_sort (resolved_order (pe_coll env))
       (map (\<lambda>s. \<lparr>rv_snap = s,
                  rv_key = (case ps_match_key s of
                              Some k \<Rightarrow> Some k
                            | None \<Rightarrow> pe_key env (resolve_name env s) (ps_brand s) (ps_volume s) (ps_age s))\<rparr>) snaps)"

section \<open>Bottlings of the new SKUs\<close>

record persist_lookups =
  lo_types :: "(string \<times> row_id) list"
  lo_countries :: "(string \<times> row_id) list"

definition snapshot_type_id :: "product_snapshot \<Rightarrow> (string \<times> row_id) list \<Rightarrow> row_id option" where
  "snapshot_type_id s m = (case ps_type s of None \<Rightarrow> None | Some n \<Rightarrow> if n = [] then None else js_get m n)"

definition snapshot_country_id :: "persist_env \<Rightarrow> product_snapshot \<Rightarrow> (string \<times> row_id) list \<Rightarrow> row_id option" where
  "snapshot_country_id env s m =
     (case ps_country s of None \<Rightarrow> None | Some n \<Rightarrow> if n = [] then None else js_get m (pe_lower env (js_trim n)))"

definition canonical_input_of :: "persist_env \<Rightarrow> persist_lookups \<Rightarrow> resolved_snapshot \<Rightarrow> canonical_input" where
  "canonical_input_of env lo r =
     (let s = rv_snap r
      in \<lparr>ci_match_key = rv_key r, ci_name = resolve_name env s, ci_brand_orig = ps_brand s,
          ci_type_id = snapshot_type_id s (lo_types lo), ci_country_id = snapshot_country_id env s (lo_countries lo),
          ci_fact_sources = ps_fact_sources s, ci_age = ps_age s, ci_abv = ps_abv s, ci_volume = ps_volume s\<rparr>)"

definition canonical_slot :: "product_snapshot \<Rightarrow> string option \<Rightarrow> string" where
  "canonical_slot s key = (case key of Some k \<Rightarrow> k | None \<Rightarrow> CHR 0x00 # ps_sku s)"

definition first_inputs :: "persist_env \<Rightarrow> persist_lookups \<Rightarrow> resolved_snapshot list \<Rightarrow> canonical_input list" where
  \<comment> \<open>\<open>byKey\<close>: the first snapshot of every key, in the order of the keys\<close>
  "first_inputs env lo rs =
     map snd (fold (\<lambda>r m. case rv_key r of None \<Rightarrow> m
                          | Some k \<Rightarrow> if js_get m k \<noteq> None then m else m @ [(k, canonical_input_of env lo r)]) rs [])"

definition key_text :: "canonical_input \<Rightarrow> string" where
  "key_text ci = (case ci_match_key ci of None \<Rightarrow> [] | Some k \<Rightarrow> k)"

definition create_slot :: "persist_env \<Rightarrow> persist_lookups \<Rightarrow> resolved_snapshot \<Rightarrow>
    (string option \<times> row_id) list \<times> catalogue \<Rightarrow> (string option \<times> row_id) list \<times> catalogue" where
  "create_slot env lo r st =
     (let (i, db) = create_unmatched (pe_now env) (canonical_input_of env lo r) (snd st)
      in (AList.update (Some (canonical_slot (rv_snap r) None)) i (fst st), db))"

definition resolve_canonical :: "persist_env \<Rightarrow> persist_lookups \<Rightarrow> string list \<Rightarrow> resolved_snapshot list \<Rightarrow> catalogue \<Rightarrow>
    ((string option \<times> row_id) list \<times> nat) \<times> catalogue" where
  "resolve_canonical env lo known work db =
     (let fresh = filter (\<lambda>r. ps_sku (rv_snap r) \<notin> set known) work;
          unmatchable = filter (\<lambda>r. rv_key r = None) fresh;
          sorted = js_sort (\<lambda>a b. pe_coll env (key_text a) (key_text b)) (first_inputs env lo fresh);
          ((ids, added), db1) = find_or_create_by_match_keys (pe_ident env) (pe_now env) sorted db;
          (slots, db2) = fold (create_slot env lo) unmatchable (ids, db1)
      in ((slots, added + length unmatchable), db2))"

section \<open>The write loop\<close>

definition upsert_offer :: "persist_env \<Rightarrow> persist_lookups \<Rightarrow> row_id \<Rightarrow> string \<Rightarrow> product_snapshot \<Rightarrow> row_id option \<Rightarrow>
    catalogue \<Rightarrow> (offer_result \<times> bool) \<times> catalogue" where
  "upsert_offer env lo store day s proposed db =
     (let input = \<lparr>oi_store = store, oi_product = proposed, oi_sku = ps_sku s, oi_url = ps_url s,
                   oi_name_orig = ps_name s, oi_seen_on = day\<rparr>
      in case upsert_from_scrape input db of
           (Some offer, db1) \<Rightarrow> ((offer, False), db1)
         | (None, db1) \<Rightarrow>
             (let (i, db2) = create_unmatched (pe_now env) (canonical_input_of env lo \<lparr>rv_snap = s, rv_key = None\<rparr>) db1;
                  (inserted, db3) = insert_offer i (input\<lparr>oi_product := Some i\<rparr>) db2
              in ((inserted, True), db3)))"

definition fact_source_of :: "product_snapshot \<Rightarrow> fact_field \<Rightarrow> fact_source" where
  "fact_source_of s field = (case js_get (ps_fact_sources s) field of None \<Rightarrow> Fact_Store | Some src \<Rightarrow> src)"

definition fill_of :: "persist_env \<Rightarrow> persist_lookups \<Rightarrow> product_snapshot \<Rightarrow> row_id \<Rightarrow> fill_input" where
  "fill_of env lo s i =
     \<lparr>fi_id = i, fi_abv = ps_abv s, fi_type_id = snapshot_type_id s (lo_types lo),
      fi_country_id = snapshot_country_id env s (lo_countries lo), fi_brand_orig = ps_brand s,
      fi_abv_source = fact_source_of s Field_Abv, fi_type_source = fact_source_of s Field_Type,
      fi_country_source = fact_source_of s Field_Country\<rparr>"

record write_state =
  ws_db :: catalogue
  ws_fills :: "(row_id \<times> fill_input) list"
  ws_links :: "(row_id \<times> row_id) list"
  ws_stamped :: "row_id list"
  ws_stored :: nat
  ws_added :: nat
  ws_products :: nat

definition write_llm_flavors :: "persist_env \<Rightarrow> (string \<times> row_id) list \<Rightarrow> row_id \<Rightarrow> product_snapshot \<Rightarrow>
    row_id list \<times> catalogue \<Rightarrow> row_id list \<times> catalogue" where
  "write_llm_flavors env flavor_ids i s st =
     (if \<not> ps_llm_checked s \<or> i \<in> set (fst st) then st
      else (fst st @ [i],
            set_llm_flavors (pe_now env) i
              (List.map_filter (js_get flavor_ids) (case ps_llm_tags s of None \<Rightarrow> [] | Some ts \<Rightarrow> ts)) (snd st)))"

definition write_snapshot :: "persist_env \<Rightarrow> persist_lookups \<Rightarrow> (string \<times> row_id) list \<Rightarrow> (string option \<times> row_id) list \<Rightarrow>
    string list \<Rightarrow> row_id \<Rightarrow> string \<Rightarrow> resolved_snapshot \<Rightarrow> write_state \<Rightarrow> write_state" where
  "write_snapshot env lo flavor_ids slots known store day r w =
     (let s = rv_snap r;
          proposed = (if ps_sku s \<in> set known then None else js_get slots (Some (canonical_slot s (rv_key r))));
          ((offer, created), db1) = upsert_offer env lo store day s proposed (ws_db w);
          i = or_product offer;
          (stamped, db2) = write_llm_flavors env flavor_ids i s (ws_stamped w, db1)
      in \<lparr>ws_db = upsert_for_date (or_id offer) day
            \<lparr>si_price = ps_price s, si_old_price = ps_old_price s, si_currency = ps_currency s,
             si_in_stock = ps_in_stock s, si_promo = ps_promo s\<rparr> db2,
          ws_fills = (if js_get (ws_fills w) i \<noteq> None then ws_fills w else ws_fills w @ [(i, fill_of env lo s i)]),
          ws_links = ws_links w @ map (Pair i) (List.map_filter (js_get flavor_ids) (ps_flavor_tags s)),
          ws_stamped = stamped,
          ws_stored = ws_stored w + 1,
          ws_added = (if or_is_new offer then ws_added w + 1 else ws_added w),
          ws_products = (if created then ws_products w + 1 else ws_products w)\<rparr>)"

definition order_links :: "(row_id \<times> row_id) list \<Rightarrow> (row_id \<times> row_id) list" where
  "order_links links = js_sort by_link (js_set links)"

section \<open>Conflicts\<close>

fun field_text :: "fact_field \<Rightarrow> string" where
  "field_text Field_Name = ''name''"
| "field_text Field_Type = ''type''"
| "field_text Field_Country = ''country''"
| "field_text Field_Abv = ''abv''"
| "field_text Field_Age = ''age''"
| "field_text Field_Volume = ''volume''"
| "field_text Field_Producer = ''producer''"

definition contradiction :: "row_id \<Rightarrow> fill_input \<Rightarrow> fact_field \<Rightarrow> conflict_value \<Rightarrow> conflict_value \<Rightarrow> fact_source option \<Rightarrow> conflict_input" where
  "contradiction store f attribute stored claimed src =
     \<lparr>cn_product = fi_id f, cn_store = store, cn_attribute = attribute, cn_stored_value = stored,
      cn_claimed_value = claimed, cn_stored_source = (case src of None \<Rightarrow> Fact_Legacy | Some x \<Rightarrow> x)\<rparr>"

definition compare_facts :: "row_id \<Rightarrow> fill_input \<Rightarrow> product_row \<Rightarrow> conflict_input list" where
  "compare_facts store f p =
     (case (fi_type_id f, pd_type_id p) of
        (Some c, Some s) \<Rightarrow> if c \<noteq> s then [contradiction store f Field_Type (Text_Ref s) (Text_Ref c) (pd_type_source p)] else []
      | _ \<Rightarrow> []) @
     (case (fi_country_id f, pd_country_id p) of
        (Some c, Some s) \<Rightarrow> if c \<noteq> s then [contradiction store f Field_Country (Text_Ref s) (Text_Ref c) (pd_country_source p)] else []
      | _ \<Rightarrow> []) @
     (case (fi_abv f, pd_abv p) of
        (Some c, Some s) \<Rightarrow>
          if \<bar>c - s\<bar> > abv_tolerance then [contradiction store f Field_Abv (Text_Number s) (Text_Number c) (pd_abv_source p)] else []
      | _ \<Rightarrow> [])"

definition conflict_order :: "(string \<Rightarrow> string \<Rightarrow> rat) \<Rightarrow> conflict_input \<Rightarrow> conflict_input \<Rightarrow> rat" where
  "conflict_order coll a b =
     js_or (by_number cn_product a b)
       (js_or (by_number cn_store a b) (coll (field_text (cn_attribute a)) (field_text (cn_attribute b))))"

definition log_conflicts :: "persist_env \<Rightarrow> row_id \<Rightarrow> fill_input list \<Rightarrow> catalogue \<Rightarrow> catalogue" where
  "log_conflicts env store fills db =
     (if fills = [] then db
      else log_fact_conflicts (pe_now env)
        (js_sort (conflict_order (pe_coll env))
          (concat (map (\<lambda>f. case product_by_id db (fi_id f) of None \<Rightarrow> [] | Some p \<Rightarrow> compare_facts store f p) fills))) db)"

section \<open>The sweep\<close>

definition flag_out_of_stock :: "row_id \<Rightarrow> string list \<Rightarrow> string list \<Rightarrow> nat \<Rightarrow> listing_result \<Rightarrow> catalogue \<Rightarrow>
    (nat \<times> progress_event list) \<times> catalogue" where
  "flag_out_of_stock store in_stock oos baseline listing db =
     (if \<not> lr_complete listing
      then (let (n, db') = mark_out_of_stock_by_skus store oos db
            in ((n, [Ev_Listing_Incomplete (lr_stop listing) (length in_stock) baseline]), db'))
      else (let (n, db') = mark_out_of_stock_except store in_stock db
            in ((n, if of_nat (length in_stock) < of_nat baseline * sweep_guard_ratio
                    then [Ev_Stock_Drop (length in_stock) baseline] else []), db')))"

section \<open>Persisting a run\<close>

definition truthy_distinct :: "string option list \<Rightarrow> string list" where
  "truthy_distinct vs = js_set (filter (\<lambda>v. v \<noteq> []) (List.map_filter (\<lambda>v. v) vs))"

record persist_outcome =
  po_counts :: persist_counts
  po_events :: "progress_event list"
  po_bumped :: string

definition write_run :: "persist_env \<Rightarrow> row_id \<Rightarrow> product_snapshot list \<Rightarrow> string \<Rightarrow> catalogue \<Rightarrow> write_state" where
  \<comment> \<open>everything up to the end of the write loop\<close>
  "write_run env store snaps day db =
     (let (type_ids, db1) = resolve_types (truthy_distinct (map ps_type snaps)) db;
          (flavor_ids, db2) = resolve_flavors
            (truthy_distinct (map Some (concat (map ps_flavor_tags snaps) @
               concat (map (\<lambda>s. case ps_llm_tags s of None \<Rightarrow> [] | Some ts \<Rightarrow> ts) snaps)))) db1;
          country_ids = resolve_by_name_ua (pe_lower env) (truthy_distinct (map ps_country snaps)) db2;
          lo = \<lparr>lo_types = type_ids, lo_countries = country_ids\<rparr>;
          known = existing_skus db2 store;
          work = resolve_keys env snaps;
          ((slots, added), db3) = resolve_canonical env lo known work db2
      in fold (write_snapshot env lo flavor_ids slots known store day) work
           \<lparr>ws_db = db3, ws_fills = [], ws_links = [], ws_stamped = [], ws_stored = 0, ws_added = 0, ws_products = added\<rparr>)"

definition persist :: "persist_env \<Rightarrow> row_id \<Rightarrow> product_snapshot list \<Rightarrow> string list \<Rightarrow> string \<Rightarrow> listing_result \<Rightarrow>
    catalogue \<Rightarrow> persist_outcome \<times> catalogue" where
  "persist env store snaps oos day listing db =
     (let baseline = count_by_store db store;
          w = write_run env store snaps day db;
          fills = map snd (ws_fills w);
          db1 = log_conflicts env store fills (ws_db w);
          db2 = fill_missing (pe_now env) fills db1;
          db3 = add_scrape_flavors (order_links (ws_links w)) db2;
          (kb, db4) = apply_kb (pe_fold_key env) (pe_lower env) (pe_coll env) (pe_now env) (pe_index env)
                        (map fst (ws_fills w)) db3;
          ((removed, events), db5) = flag_out_of_stock store (map ps_sku snaps) oos baseline listing db4;
          db6 = snd (mark_out_of_stock_for_day store day db5);
          counts = \<lparr>pc_stored = ws_stored w, pc_added = ws_added w, pc_added_products = ws_products w, pc_removed = removed\<rparr>
      in (\<lparr>po_counts = counts,
           po_events = (case kb of None \<Rightarrow> [] | Some (g, u) \<Rightarrow> [Ev_Kb_Applied g u]) @ events @
             [Ev_Persisted (ws_stored w) (ws_added w) (ws_products w) removed],
           po_bumped = ''catalogue''\<rparr>, db6))"

end
