(* ===== verification/Persist_Steps.thy ===== *)
theory Persist_Steps
  imports Scrape_Persist Catalogue_Write_Facts
begin

text \<open>
  The steps of a store's write as steps of the catalogue: conflicts, offers, snapshots, the write
  loop and the sweep, each keeping the constraints and the rows of \<open>evolves\<close>.
\<close>

section \<open>Conflicts\<close>

lemma log_conflict_ok:
  "conflicts_ok rs ids \<Longrightarrow> cn_product c \<in> ids \<Longrightarrow> conflicts_ok (log_conflict now c rs) ids"
proof -
  assume ok: "conflicts_ok rs ids" and c: "cn_product c \<in> ids"
  let ?new = "\<lparr>cf_product = cn_product c, cf_store = cn_store c, cf_attribute = cn_attribute c,
        cf_stored_value = cn_stored_value c, cf_claimed_value = cn_claimed_value c,
        cf_stored_source = cn_stored_source c, cf_seen_count = 1, cf_first_seen_at = now,
        cf_last_seen_at = now, cf_resolved_at = None\<rparr>"
  let ?f = "\<lambda>r. r\<lparr>cf_stored_value := cn_stored_value c, cf_claimed_value := cn_claimed_value c,
              cf_stored_source := cn_stored_source c, cf_seen_count := cf_seen_count r + 1,
              cf_last_seen_at := now\<rparr>"
  let ?hit = "\<lambda>r. conflict_key r = (cn_product c, cn_store c, cn_attribute c)"
  have hit: "?hit r \<longleftrightarrow> conflict_key r = conflict_key ?new" for r by (simp add: conflict_key_def)
  have keep: "conflict_key (?f r) = conflict_key r" for r by (simp add: conflict_key_def)
  note keys = keys_sql_upsert [of ?hit conflict_key ?new ?f rs, OF hit keep]
  have "cf_product ` set rs' = fst ` conflict_key ` set rs'" for rs' by (simp add: image_image conflict_key_def)
  then show ?thesis using ok c keys by (simp add: conflicts_ok_def log_conflict_def) (simp add: conflict_key_def)
qed

lemma log_fact_conflicts_advances:
  assumes "\<And>c. c \<in> set cs \<Longrightarrow> cn_product c \<in> product_ids db"
  shows "advances store day db (log_fact_conflicts now cs db)"
proof (cases "cs = []")
  case False
  have "conflicts_ok rs ids \<Longrightarrow> (\<And>c. c \<in> set cs' \<Longrightarrow> cn_product c \<in> ids) \<Longrightarrow> conflicts_ok (fold (log_conflict now) cs' rs) ids" for cs' rs ids
    by (induction cs' arbitrary: rs) (simp_all add: log_conflict_ok)
  then have "catalogue_ok db \<Longrightarrow> conflicts_ok (fold (log_conflict now) cs (ct_conflicts db)) (product_ids db)"
    using assms catalogue_okD(6) by blast
  then show ?thesis using False by (simp add: log_fact_conflicts_def advances_conflicts)
qed (simp add: log_fact_conflicts_def)

lemma contradiction_product: "c \<in> set (compare_facts store f p) \<Longrightarrow> cn_product c = fi_id f"
  by (auto simp: compare_facts_def contradiction_def split: option.splits if_splits)

lemma log_conflicts_advances: "advances store' day db (log_conflicts env store fills db)"
proof (cases "fills = []")
  case False
  have "cn_product c \<in> product_ids db"
    if mem: "c \<in> set (concat (map (\<lambda>f. case product_by_id db (fi_id f) of None \<Rightarrow> [] | Some p \<Rightarrow> compare_facts store f p) fills))" for c
  proof -
    obtain f where "c \<in> set (case product_by_id db (fi_id f) of None \<Rightarrow> [] | Some p \<Rightarrow> compare_facts store f p)"
      using mem unfolding set_concat set_map by blast
    then obtain p where f: "product_by_id db (fi_id f) = Some p" "c \<in> set (compare_facts store f p)"
      by (cases "product_by_id db (fi_id f)") auto
    then have "p \<in> set (ct_products db)" "pd_id p = fi_id f" by (auto simp: product_by_id_def dest: find_SomeD)
    then show ?thesis using contradiction_product [OF f(2)] by (force simp: product_ids_def)
  qed
  then show ?thesis unfolding log_conflicts_def using False
    by (auto intro!: log_fact_conflicts_advances simp del: set_concat)
qed (simp add: log_conflicts_def)

section \<open>Offers\<close>

lemma same_next [simp]: "db\<lparr>ct_offers := os, ct_next := ct_next db\<rparr> = db\<lparr>ct_offers := os\<rparr>"
  by simp

lemma offers_ok_update:
  assumes "offers_ok os ids n" and "\<And>x. offer_kept x (f x)"
  shows "offers_ok (sql_update w f os) ids n"
proof -
  have same: "of_id (f x) = of_id x" "offer_key (f x) = offer_key x" "of_product (f x) = of_product x" for x
    using assms(2) [of x] by (simp_all add: offer_kept_def offer_key_def)
  have keys: "map of_id (sql_update w f os) = map of_id os" "map offer_key (sql_update w f os) = map offer_key os"
    "map of_product (sql_update w f os) = map of_product os"
    by (rule map_sql_update, simp add: same)+
  have "of_product ` set (sql_update w f os) = of_product ` set os" "of_id ` set (sql_update w f os) = of_id ` set os"
    by (simp_all only: keys flip: list.set_map)
  moreover have "(\<forall>x\<in>set xs. of_id x < n) \<longleftrightarrow> (\<forall>i\<in>of_id ` set xs. i < n)" for xs by simp
  ultimately show ?thesis using assms(1) keys(1,2) unfolding offers_ok_def by metis
qed

lemma offers_update_advances:
  assumes "\<And>x. w x \<Longrightarrow> of_store x = store" and "\<And>x. offer_kept x (f x)"
  shows "advances store day db (db\<lparr>ct_offers := sql_update w f (ct_offers db)\<rparr>)"
proof -
  have "advances store day db (db\<lparr>ct_offers := sql_update w f (ct_offers db), ct_next := ct_next db\<rparr>)"
  proof (rule advances_offers)
    show "grows (store_offer_kept store) (\<lambda>x. of_store x = store \<and> ct_next db \<le> of_id x) (ct_offers db) (sql_update w f (ct_offers db))"
      by (rule grows_update) (use assms in \<open>auto simp: store_offer_kept_def\<close>)
    show "catalogue_ok db \<Longrightarrow> offers_ok (sql_update w f (ct_offers db)) (product_ids db) (ct_next db)"
      using offers_ok_update [OF _ assms(2)] catalogue_okD(3) by blast
  qed simp
  then show ?thesis by simp
qed

lemma refresh_kept: "offer_kept x (refresh_offer oi x)"
  by (simp add: offer_kept_def refresh_offer_def)

lemma touch_offer_advances: "oi_store oi = store \<Longrightarrow> advances store day db (snd (touch_offer oi db))"
  by (auto simp: touch_offer_def offer_at_def intro!: offers_update_advances refresh_kept)

lemma insert_offer_advances:
  assumes "oi_store oi = store" and "product \<in> product_ids db"
  shows "advances store day db (snd (insert_offer product oi db))"
proof (cases "find (offer_at (oi_store oi) (oi_sku oi)) (ct_offers db)")
  case None
  then have fresh: "offer_key (new_offer (ct_next db) product oi) \<notin> offer_key ` set (ct_offers db)"
    by (auto simp: find_None_iff offer_at_def offer_key_def new_offer_def)
  have "advances store day db (db\<lparr>ct_offers := ct_offers db @ [new_offer (ct_next db) product oi], ct_next := ct_next db + 1\<rparr>)"
  proof (rule advances_offers)
    show "grows (store_offer_kept store) (\<lambda>x. of_store x = store \<and> ct_next db \<le> of_id x) (ct_offers db) (ct_offers db @ [new_offer (ct_next db) product oi])"
      by (rule grows_append) (simp_all add: new_offer_def assms(1))
    show "offers_ok (ct_offers db @ [new_offer (ct_next db) product oi]) (product_ids db) (ct_next db + 1)" if "catalogue_ok db"
      using catalogue_okD(3) [OF that] fresh assms(2)
      by (fastforce simp: offers_ok_def new_offer_def)
  qed simp
  then show ?thesis using None by (simp add: insert_offer_def)
next
  case (Some x)
  then show ?thesis using assms(1)
    by (auto simp: insert_offer_def offer_at_def intro!: offers_update_advances refresh_kept)
qed

lemma refreshed_ids: "of_id ` set (sql_update w (refresh_offer oi) os) = of_id ` set os"
proof -
  have "map of_id (sql_update w (refresh_offer oi) os) = map of_id os"
    by (rule map_sql_update) (simp add: refresh_offer_def)
  then show ?thesis by (metis list.set_map)
qed

lemma upsert_result:
  assumes ok: "catalogue_ok db" and run: "upsert_from_scrape oi db = (Some r, db')"
    and p: "\<And>product. oi_product oi = Some product \<Longrightarrow> product \<in> product_ids db"
  shows "or_id r \<in> of_id ` set (ct_offers db')" and "or_product r \<in> product_ids db'"
proof -
  have old: "of_id x \<in> of_id ` set (ct_offers db)" "of_product x \<in> product_ids db" if "x \<in> set (ct_offers db)" for x
    using catalogue_okD(3) [OF ok] that by (auto simp: offers_ok_def)
  show "or_id r \<in> of_id ` set (ct_offers db')" "or_product r \<in> product_ids db'"
    using run p old
    by (auto simp: upsert_from_scrape_def touch_offer_def insert_offer_def new_offer_def product_ids_def refreshed_ids
        split: option.splits dest!: find_SomeD)
qed

lemma upsert_offer_facts:
  assumes ok: "catalogue_ok db" and p: "\<And>product. proposed = Some product \<Longrightarrow> product \<in> product_ids db"
    and run: "upsert_offer env lo store day s proposed db = ((r, c), db')"
  shows "catalogue_ok db'" and "evolves store day db db'"
    and "or_id r \<in> of_id ` set (ct_offers db')" and "or_product r \<in> product_ids db'"
proof -
  let ?in = "\<lparr>oi_store = store, oi_product = proposed, oi_sku = ps_sku s, oi_url = ps_url s, oi_name_orig = ps_name s, oi_seen_on = day\<rparr>"
  obtain r1 db1 where one: "upsert_from_scrape ?in db = (r1, db1)" by (cases "upsert_from_scrape ?in db")
  have a1: "advances store day db db1"
  proof (cases proposed)
    case None
    then have "db1 = snd (touch_offer ?in db)" using one by (simp add: upsert_from_scrape_def)
    then show ?thesis using touch_offer_advances [of ?in store day db] by simp
  next
    case (Some q)
    then have "db1 = snd (insert_offer q ?in db)" using one by (auto simp: upsert_from_scrape_def apfst_def map_prod_def split: prod.splits)
    then show ?thesis using insert_offer_advances [of ?in store q db day] p [OF Some] by simp
  qed
  then have ok1: "catalogue_ok db1" and ev1: "evolves store day db db1" using ok by (simp_all add: advances_def)
  have all: "catalogue_ok db' \<and> evolves store day db db' \<and> or_id r \<in> of_id ` set (ct_offers db') \<and> or_product r \<in> product_ids db'"
  proof (cases r1)
    case (Some r')
    then have "r = r'" "db' = db1" using run one by (simp_all add: upsert_offer_def Let_def)
    then show ?thesis using ok1 ev1 upsert_result [OF ok one [unfolded Some]] p by simp
  next
    case None
    let ?ci = "canonical_input_of env lo \<lparr>rv_snap = s, rv_key = None\<rparr>"
    obtain i db2 where two: "create_unmatched (pe_now env) ?ci db1 = (i, db2)" by (cases "create_unmatched (pe_now env) ?ci db1")
    have run2: "insert_offer i (?in\<lparr>oi_product := Some i\<rparr>) db2 = (r, db')"
      using run one two None by (auto simp: upsert_offer_def Let_def split: prod.splits)
    have "advances store day db1 db2" using create_unmatched_advances [of store day db1 "pe_now env" ?ci] two by simp
    then have ok2: "catalogue_ok db2" and ev2: "evolves store day db1 db2" using ok1 by (simp_all add: advances_def)
    have i: "i \<in> product_ids db2" using create_unmatched_id [of "pe_now env" ?ci db1] two by simp
    have "advances store day db2 db'" using insert_offer_advances [of "?in\<lparr>oi_product := Some i\<rparr>" store i db2 day] i run2 by simp
    then have ok3: "catalogue_ok db'" "evolves store day db2 db'" using ok2 by (simp_all add: advances_def)
    have "upsert_from_scrape (?in\<lparr>oi_product := Some i\<rparr>) db2 = (Some r, db')" using run2 by (simp add: upsert_from_scrape_def)
    note res = upsert_result [OF ok2 this]
    show ?thesis using ok3 res i evolves_trans [OF ev1 evolves_trans [OF ev2 ok3(2)]] by simp
  qed
  then show "catalogue_ok db'" "evolves store day db db'" "or_id r \<in> of_id ` set (ct_offers db')" "or_product r \<in> product_ids db'"
    by simp_all
qed

lemma flag_offers_advances: "(\<And>x. w x \<Longrightarrow> of_store x = store) \<Longrightarrow> advances store day db (snd (flag_offers w db))"
  by (auto simp: flag_offers_def offer_kept_def intro!: offers_update_advances)

lemma flag_out_of_stock_advances: "advances store day db (snd (flag_out_of_stock store skus oos n listing db))"
proof -
  have "advances store day db (snd (mark_out_of_stock_by_skus store oos db))"
    unfolding mark_out_of_stock_by_skus_def by (auto intro!: flag_offers_advances)
  moreover have "advances store day db (snd (mark_out_of_stock_except store skus db))"
    unfolding mark_out_of_stock_except_def by (auto intro!: flag_offers_advances)
  ultimately show ?thesis by (simp add: flag_out_of_stock_def split_def Let_def)
qed

section \<open>Snapshots\<close>

lemma snapshots_ok_update:
  "snapshots_ok ss oids \<Longrightarrow> (\<And>s. snapshot_key (f s) = snapshot_key s) \<Longrightarrow> snapshots_ok (sql_update w f ss) oids"
proof -
  assume ok: "snapshots_ok ss oids" and keep: "\<And>s. snapshot_key (f s) = snapshot_key s"
  have "map snapshot_key (sql_update w f ss) = map snapshot_key ss" by (rule map_sql_update) (rule keep)
  moreover have "sn_offer ` set (sql_update w f ss) \<subseteq> sn_offer ` set ss"
    using keep by (auto simp: in_sql_update snapshot_key_def)
  ultimately show ?thesis using ok by (auto simp: snapshots_ok_def)
qed

lemma upsert_for_date_advances:
  assumes "offer \<in> of_id ` set (ct_offers db)"
  shows "advances store day db (upsert_for_date offer day si db)"
proof -
  let ?f = "\<lambda>s. s\<lparr>sn_price := si_price si, sn_old_price := si_old_price si, sn_currency := si_currency si,
              sn_in_stock := si_in_stock si, sn_promo := si_promo si\<rparr>"
  let ?new = "\<lparr>sn_offer = offer, sn_captured_on = day, sn_price = si_price si, sn_old_price = si_old_price si,
        sn_currency = si_currency si, sn_in_stock = si_in_stock si, sn_promo = si_promo si\<rparr>"
  have keep: "snapshot_key (?f s) = snapshot_key s" for s by (simp add: snapshot_key_def)
  have hit: "snapshot_at offer day s \<longleftrightarrow> snapshot_key s = snapshot_key ?new" for s
    by (auto simp: snapshot_at_def snapshot_key_def)
  have "advances store day db (db\<lparr>ct_snapshots := sql_upsert (snapshot_at offer day) ?f ?new (ct_snapshots db)\<rparr>)"
  proof (rule advances_snapshots)
    show "grows (snapshot_kept day) (\<lambda>s. sn_captured_on s = day) (ct_snapshots db) (sql_upsert (snapshot_at offer day) ?f ?new (ct_snapshots db))"
      by (rule grows_upsert) (auto simp: snapshot_kept_def keep snapshot_at_def)
    show "snapshots_ok (sql_upsert (snapshot_at offer day) ?f ?new (ct_snapshots db)) (of_id ` set (ct_offers db))" if "catalogue_ok db"
    proof -
      have ok: "snapshots_ok (ct_snapshots db) (of_id ` set (ct_offers db))" by (rule catalogue_okD(4) [OF that])
      show ?thesis
      proof (cases "\<exists>r\<in>set (ct_snapshots db). snapshot_at offer day r")
        case True
        then show ?thesis using snapshots_ok_update [OF ok keep] by (simp add: sql_upsert_def)
      next
        case False
        then have "snapshot_key ?new \<notin> snapshot_key ` set (ct_snapshots db)" using hit by auto
        then show ?thesis using False ok assms by (simp add: sql_upsert_def snapshots_ok_def)
      qed
    qed
  qed
  then show ?thesis by (simp add: upsert_for_date_def)
qed

lemma mark_day_advances: "advances store' day db (snd (mark_out_of_stock_for_day store day db))"
proof -
  let ?w = "\<lambda>s. sn_captured_on s = day \<and> sn_in_stock s
                   \<and> (\<exists>o'\<in>set (ct_offers db). of_id o' = sn_offer s \<and> of_store o' = store \<and> \<not> of_in_stock o')"
  have "advances store' day db (db\<lparr>ct_snapshots := sql_update ?w (\<lambda>s. s\<lparr>sn_in_stock := False\<rparr>) (ct_snapshots db)\<rparr>)"
  proof (rule advances_snapshots)
    show "grows (snapshot_kept day) (\<lambda>s. sn_captured_on s = day) (ct_snapshots db) (sql_update ?w (\<lambda>s. s\<lparr>sn_in_stock := False\<rparr>) (ct_snapshots db))"
      by (rule grows_update) (auto simp: snapshot_kept_def snapshot_key_def)
    show "catalogue_ok db \<Longrightarrow> snapshots_ok (sql_update ?w (\<lambda>s. s\<lparr>sn_in_stock := False\<rparr>) (ct_snapshots db)) (of_id ` set (ct_offers db))"
      by (rule snapshots_ok_update [OF catalogue_okD(4)]) (simp_all add: snapshot_key_def)
  qed
  then show ?thesis by (simp add: mark_out_of_stock_for_day_def Let_def)
qed

end
