(* ===== verification/Persist_Facts.thy ===== *)
theory Persist_Facts
  imports Persist_Steps
begin

text \<open>
  The whole write of a store's run: the constraints of the catalogue and the rows that stay, then
  what the offers and the snapshots of the day say once it is over.
\<close>

section \<open>Constraints and kept rows\<close>

definition slots_ok :: "(string option \<times> row_id) list \<Rightarrow> catalogue \<Rightarrow> bool" where
  "slots_ok m db \<longleftrightarrow> (\<forall>k i. js_get m k = Some i \<longrightarrow> i \<in> product_ids db)"

lemma slots_ok_mono: "slots_ok m db \<Longrightarrow> evolves store day db db' \<Longrightarrow> slots_ok m db'"
  using evolves_product_ids unfolding slots_ok_def by blast

lemma create_slot_facts:
  assumes "slots_ok (fst st) (snd st)"
  shows "advances store day (snd st) (snd (create_slot env lo r st))"
    and "catalogue_ok (snd st) \<Longrightarrow> slots_ok (fst (create_slot env lo r st)) (snd (create_slot env lo r st))"
proof -
  obtain i db where run: "create_unmatched (pe_now env) (canonical_input_of env lo r) (snd st) = (i, db)"
    by (cases "create_unmatched (pe_now env) (canonical_input_of env lo r) (snd st)")
  have adv: "advances store' day' (snd st) db" for store' day'
    using create_unmatched_advances [of store' day' "snd st" "pe_now env" "canonical_input_of env lo r"] run by simp
  then show "advances store day (snd st) (snd (create_slot env lo r st))" by (simp add: create_slot_def run)
  assume ok: "catalogue_ok (snd st)"
  have "i \<in> product_ids db" using create_unmatched_id [of "pe_now env" "canonical_input_of env lo r" "snd st"] run by simp
  moreover have "slots_ok (fst st) db" using assms adv [of 0 "[]"] ok slots_ok_mono by (auto simp: advances_def)
  ultimately show "slots_ok (fst (create_slot env lo r st)) (snd (create_slot env lo r st))"
    by (simp add: create_slot_def run slots_ok_def js_get_update)
qed

lemma resolve_canonical_facts:
  assumes ok: "catalogue_ok db" and run: "resolve_canonical env lo known work db = ((slots, n), db')"
  shows "catalogue_ok db'" and "evolves store day db db'" and "slots_ok slots db'"
proof -
  let ?fresh = "filter (\<lambda>r. ps_sku (rv_snap r) \<notin> set known) work"
  let ?sorted = "js_sort (\<lambda>a b. pe_coll env (key_text a) (key_text b)) (first_inputs env lo ?fresh)"
  obtain ids k db1 where one: "find_or_create_by_match_keys (pe_ident env) (pe_now env) ?sorted db = ((ids, k), db1)"
    by (metis surj_pair)
  have two: "(slots, db') = fold (create_slot env lo) (filter (\<lambda>r. rv_key r = None) ?fresh) (ids, db1)"
    using run one by (auto simp: resolve_canonical_def Let_def split: prod.splits)
  have ok1: "catalogue_ok db1" and ev1: "evolves store day db db1" and sl1: "slots_ok ids db1"
    using find_or_create_facts [OF ok one] by (auto simp: slots_ok_def)
  have "catalogue_ok (snd (slots, db')) \<and> evolves store day (snd (ids, db1)) (snd (slots, db')) \<and> slots_ok (fst (slots, db')) (snd (slots, db'))"
    unfolding two
    by (rule advances_fold_inv [where I = "\<lambda>st. slots_ok (fst st) (snd st)" and g = snd])
      (use ok1 sl1 create_slot_facts in simp_all)
  then show "catalogue_ok db'" "evolves store day db db'" "slots_ok slots db'"
    using evolves_trans [OF ev1] by simp_all
qed

lemma find_or_create_one_frame:
  "ct_offers (snd (find_or_create_one now ci st)) = ct_offers (snd st) \<and> ct_snapshots (snd (find_or_create_one now ci st)) = ct_snapshots (snd st)"
  by (auto simp: find_or_create_one_def insert_product_def split: option.split)

lemma fold_find_or_create_frame:
  "ct_offers (snd (fold (find_or_create_one now) cs st)) = ct_offers (snd st) \<and> ct_snapshots (snd (fold (find_or_create_one now) cs st)) = ct_snapshots (snd st)"
  by (induction cs arbitrary: st) (simp_all add: find_or_create_one_frame)

lemma fold_create_slot_frame:
  "ct_offers (snd (fold (create_slot env lo) rs st)) = ct_offers (snd st) \<and> ct_snapshots (snd (fold (create_slot env lo) rs st)) = ct_snapshots (snd st)"
  by (induction rs arbitrary: st) (simp_all add: create_slot_def create_unmatched_def insert_product_def)

lemma find_or_create_frame:
  "ct_offers (snd (find_or_create_by_match_keys ident now cs db)) = ct_offers db
   \<and> ct_snapshots (snd (find_or_create_by_match_keys ident now cs db)) = ct_snapshots db"
  using fold_find_or_create_frame [of now _ "([], db)"]
  by (simp add: find_or_create_by_match_keys_def insert_fresh_def Let_def split_def)

lemma resolve_canonical_frame:
  assumes "resolve_canonical env lo known work db = (x, db')"
  shows "ct_offers db' = ct_offers db" and "ct_snapshots db' = ct_snapshots db"
proof -
  let ?fresh = "filter (\<lambda>r. ps_sku (rv_snap r) \<notin> set known) work"
  let ?sorted = "js_sort (\<lambda>a b. pe_coll env (key_text a) (key_text b)) (first_inputs env lo ?fresh)"
  let ?one = "find_or_create_by_match_keys (pe_ident env) (pe_now env) ?sorted db"
  have "db' = snd (fold (create_slot env lo) (filter (\<lambda>r. rv_key r = None) ?fresh) (fst (fst ?one), snd ?one))"
    using assms by (auto simp: resolve_canonical_def Let_def split_def)
  then show "ct_offers db' = ct_offers db" "ct_snapshots db' = ct_snapshots db"
    using fold_create_slot_frame [of env lo "filter (\<lambda>r. rv_key r = None) ?fresh" "(fst (fst ?one), snd ?one)"]
      find_or_create_frame [of "pe_ident env" "pe_now env" ?sorted db] by simp_all
qed

lemma write_llm_advances: "advances store day (snd st) (snd (write_llm_flavors env fids i s st))"
  by (simp add: write_llm_flavors_def set_llm_flavors_advances)

lemma set_llm_frame [simp]:
  "ct_offers (set_llm_flavors now i fs db) = ct_offers db" "ct_snapshots (set_llm_flavors now i fs db) = ct_snapshots db"
  by (simp_all add: set_llm_flavors_def stamp_llm_def Let_def)

lemma write_llm_frame [simp]:
  "ct_offers (snd (write_llm_flavors env fids i s st)) = ct_offers (snd st)"
  "ct_snapshots (snd (write_llm_flavors env fids i s st)) = ct_snapshots (snd st)"
  by (simp_all add: write_llm_flavors_def)

lemma write_snapshot_parts:
  obtains r1 c db1 st where
    "upsert_offer env lo store day (rv_snap r) (if ps_sku (rv_snap r) \<in> set known then None
        else js_get slots (Some (canonical_slot (rv_snap r) (rv_key r)))) (ws_db w) = ((r1, c), db1)"
    and "st = write_llm_flavors env fids (or_product r1) (rv_snap r) (ws_stamped w, db1)"
    and "ws_db (write_snapshot env lo fids slots known store day r w) =
      upsert_for_date (or_id r1) day \<lparr>si_price = ps_price (rv_snap r), si_old_price = ps_old_price (rv_snap r),
        si_currency = ps_currency (rv_snap r), si_in_stock = ps_in_stock (rv_snap r), si_promo = ps_promo (rv_snap r)\<rparr> (snd st)"
    and "ws_stored (write_snapshot env lo fids slots known store day r w) = ws_stored w + 1"
proof -
  let ?p = "if ps_sku (rv_snap r) \<in> set known then None else js_get slots (Some (canonical_slot (rv_snap r) (rv_key r)))"
  obtain r1 c db1 where u: "upsert_offer env lo store day (rv_snap r) ?p (ws_db w) = ((r1, c), db1)" by (metis surj_pair)
  show ?thesis
    by (rule that [OF u refl]) (simp_all add: write_snapshot_def Let_def u split_def)
qed

lemma write_snapshot_facts:
  assumes "slots_ok slots (ws_db w)" and "catalogue_ok (ws_db w)"
  shows "advances store day (ws_db w) (ws_db (write_snapshot env lo fids slots known store day r w))"
    and "slots_ok slots (ws_db (write_snapshot env lo fids slots known store day r w))"
proof -
  obtain r1 c db1 st where u: "upsert_offer env lo store day (rv_snap r) (if ps_sku (rv_snap r) \<in> set known then None
        else js_get slots (Some (canonical_slot (rv_snap r) (rv_key r)))) (ws_db w) = ((r1, c), db1)"
    and st: "st = write_llm_flavors env fids (or_product r1) (rv_snap r) (ws_stamped w, db1)"
    and w': "ws_db (write_snapshot env lo fids slots known store day r w) =
      upsert_for_date (or_id r1) day \<lparr>si_price = ps_price (rv_snap r), si_old_price = ps_old_price (rv_snap r),
        si_currency = ps_currency (rv_snap r), si_in_stock = ps_in_stock (rv_snap r), si_promo = ps_promo (rv_snap r)\<rparr> (snd st)"
    by (rule write_snapshot_parts [of env lo store day r known slots w fids]) blast
  have p: "product \<in> product_ids (ws_db w)" if "(if ps_sku (rv_snap r) \<in> set known then None
        else js_get slots (Some (canonical_slot (rv_snap r) (rv_key r)))) = Some product" for product
    using that assms(1) by (auto simp: slots_ok_def split: if_splits)
  note f = upsert_offer_facts [OF assms(2) p u]
  have a1: "advances store day (ws_db w) db1" using f(1,2) by (simp add: advances_def)
  have a2: "advances store day db1 (snd st)" using write_llm_advances [of store day "(ws_stamped w, db1)"] by (simp add: st)
  have "or_id r1 \<in> of_id ` set (ct_offers (snd st))" using f(3) by (simp add: st)
  then have a3: "advances store day (snd st) (ws_db (write_snapshot env lo fids slots known store day r w))"
    unfolding w' by (rule upsert_for_date_advances)
  show all: "advances store day (ws_db w) (ws_db (write_snapshot env lo fids slots known store day r w))"
    by (rule advances_trans [OF a1 advances_trans [OF a2 a3]])
  then show "slots_ok slots (ws_db (write_snapshot env lo fids slots known store day r w))"
    using assms slots_ok_mono by (auto simp: advances_def)
qed

lemma write_run_parts:
  obtains lo fids slots known n db3 where
    "write_run env store snaps day db =
       fold (write_snapshot env lo fids slots known store day) (resolve_keys env snaps)
         \<lparr>ws_db = db3, ws_fills = [], ws_links = [], ws_stamped = [], ws_stored = 0, ws_added = 0, ws_products = n\<rparr>"
    and "catalogue_ok db \<Longrightarrow> catalogue_ok db3 \<and> evolves store day db db3 \<and> slots_ok slots db3"
    and "ct_offers db3 = ct_offers db" and "ct_snapshots db3 = ct_snapshots db"
proof -
  obtain tids db1 where 1: "resolve_types (truthy_distinct (map ps_type snaps)) db = (tids, db1)" by (metis surj_pair)
  let ?tags = "truthy_distinct (map Some (concat (map ps_flavor_tags snaps) @
               concat (map (\<lambda>s. case ps_llm_tags s of None \<Rightarrow> [] | Some ts \<Rightarrow> ts) snaps)))"
  obtain fids db2 where 2: "resolve_flavors ?tags db1 = (fids, db2)" by (metis surj_pair)
  let ?lo = "\<lparr>lo_types = tids, lo_countries = resolve_by_name_ua (pe_lower env) (truthy_distinct (map ps_country snaps)) db2\<rparr>"
  obtain slots n db3 where 3: "resolve_canonical env ?lo (existing_skus db2 store) (resolve_keys env snaps) db2 = ((slots, n), db3)"
    by (metis surj_pair)
  have a1: "advances store day db db1" using resolve_types_advances [of store day db] 1 by (metis snd_conv)
  have a2: "advances store day db1 db2" using resolve_flavors_advances [of store day db1] 2 by (metis snd_conv)
  have ok: "catalogue_ok db3 \<and> evolves store day db db3 \<and> slots_ok slots db3" if "catalogue_ok db"
  proof -
    have "catalogue_ok db2 \<and> evolves store day db db2" using advances_trans [OF a1 a2] that by (simp add: advances_def)
    then show ?thesis using resolve_canonical_facts [OF _ 3] evolves_trans by blast
  qed
  have frame: "ct_offers db2 = ct_offers db \<and> ct_snapshots db2 = ct_snapshots db"
    using 1 2 by (auto simp: resolve_types_def resolve_flavors_def split: prod.splits)
  have frame3: "ct_offers db3 = ct_offers db2 \<and> ct_snapshots db3 = ct_snapshots db2"
    using resolve_canonical_frame [OF 3] by simp
  have run: "write_run env store snaps day db =
       fold (write_snapshot env ?lo fids slots (existing_skus db2 store) store day) (resolve_keys env snaps)
         \<lparr>ws_db = db3, ws_fills = [], ws_links = [], ws_stamped = [], ws_stored = 0, ws_added = 0, ws_products = n\<rparr>"
    by (simp only: write_run_def Let_def 1 2 3 prod.case)
  show ?thesis by (rule that [OF run ok]) (use frame frame3 in simp_all)
qed

lemma write_run_facts:
  assumes "catalogue_ok db"
  shows "catalogue_ok (ws_db (write_run env store snaps day db)) \<and> evolves store day db (ws_db (write_run env store snaps day db))"
proof -
  obtain lo fids slots known n db3 where run: "write_run env store snaps day db =
       fold (write_snapshot env lo fids slots known store day) (resolve_keys env snaps)
         \<lparr>ws_db = db3, ws_fills = [], ws_links = [], ws_stamped = [], ws_stored = 0, ws_added = 0, ws_products = n\<rparr>"
    and ok: "catalogue_ok db \<Longrightarrow> catalogue_ok db3 \<and> evolves store day db db3 \<and> slots_ok slots db3"
    by (rule write_run_parts [of env store snaps day db]) blast
  let ?w = "\<lparr>ws_db = db3, ws_fills = [], ws_links = [], ws_stamped = [], ws_stored = 0, ws_added = 0, ws_products = n\<rparr>"
  have "catalogue_ok (ws_db (write_run env store snaps day db)) \<and> evolves store day (ws_db ?w) (ws_db (write_run env store snaps day db))
      \<and> slots_ok slots (ws_db (write_run env store snaps day db))"
    unfolding run
    by (rule advances_fold_inv [where I = "\<lambda>w. slots_ok slots (ws_db w)" and g = ws_db])
      (use ok [OF assms] write_snapshot_facts in simp_all)
  then show ?thesis using ok [OF assms] evolves_trans by (simp, blast)
qed

lemma persist_parts:
  assumes "persist env store snaps oos day listing db = (out, db')"
  obtains w db4 removed evs db5 where "w = write_run env store snaps day db"
    and "advances store day (ws_db w) db4" and "ct_offers db4 = ct_offers (ws_db w)" and "ct_snapshots db4 = ct_snapshots (ws_db w)"
    and "flag_out_of_stock store (map ps_sku snaps) oos (count_by_store db store) listing db4 = ((removed, evs), db5)"
    and "db' = snd (mark_out_of_stock_for_day store day db5)"
    and "po_counts out = \<lparr>pc_stored = ws_stored w, pc_added = ws_added w, pc_added_products = ws_products w, pc_removed = removed\<rparr>"
proof -
  define w where "w = write_run env store snaps day db"
  define db1 where "db1 = log_conflicts env store (map snd (ws_fills w)) (ws_db w)"
  define db2 where "db2 = fill_missing (pe_now env) (map snd (ws_fills w)) db1"
  define db3 where "db3 = add_scrape_flavors (order_links (ws_links w)) db2"
  define kb where "kb = apply_kb (pe_fold_key env) (pe_lower env) (pe_coll env) (pe_now env) (pe_index env) (map fst (ws_fills w)) db3"
  obtain removed evs db5 where flag: "flag_out_of_stock store (map ps_sku snaps) oos (count_by_store db store) listing (snd kb) = ((removed, evs), db5)"
    by (metis surj_pair)
  have out: "po_counts out = \<lparr>pc_stored = ws_stored w, pc_added = ws_added w, pc_added_products = ws_products w, pc_removed = removed\<rparr>"
      and db': "db' = snd (mark_out_of_stock_for_day store day db5)"
    using assms flag unfolding persist_def Let_def w_def [symmetric] db1_def [symmetric] db2_def [symmetric] db3_def [symmetric] kb_def [symmetric]
    by (auto simp: split_def)
  have adv: "advances store day (ws_db w) (snd kb)"
    unfolding kb_def db3_def db2_def db1_def
    by (rule advances_trans [OF log_conflicts_advances advances_trans [OF fill_missing_advances
          advances_trans [OF add_scrape_flavors_advances apply_kb_advances]]])
  have kbf: "ct_offers (snd (apply_kb fk lower coll now kx ids d)) = ct_offers d \<and> ct_snapshots (snd (apply_kb fk lower coll now kx ids d)) = ct_snapshots d"
    for fk lower coll now kx ids d
    by (simp add: apply_kb_def apply_kb_plan_def apply_kb_flavors_def delete_kb_links_def insert_kb_links_def apply_kb_facts_def set_producers_def Let_def)
  have frame: "ct_offers (snd kb) = ct_offers (ws_db w)" "ct_snapshots (snd kb) = ct_snapshots (ws_db w)"
    unfolding kb_def db3_def db2_def db1_def using kbf
    by (simp_all add: add_scrape_flavors_def fill_missing_def log_conflicts_def log_fact_conflicts_def)
  show ?thesis by (rule that [OF w_def adv frame flag db' out])
qed

lemma persist_ok_evolves:
  assumes "catalogue_ok db" and "persist env store snaps oos day listing db = (out, db')"
  shows "catalogue_ok db' \<and> evolves store day db db'"
proof -
  obtain w db4 removed evs db5 where w: "w = write_run env store snaps day db" and a: "advances store day (ws_db w) db4"
    and flag: "flag_out_of_stock store (map ps_sku snaps) oos (count_by_store db store) listing db4 = ((removed, evs), db5)"
    and db': "db' = snd (mark_out_of_stock_for_day store day db5)" by (rule persist_parts [OF assms(2)]) blast
  have "advances store day db4 db5"
    using flag_out_of_stock_advances [of store day db4 "map ps_sku snaps" oos "count_by_store db store" listing] flag by simp
  moreover have "advances store day db5 db'" unfolding db' by (rule mark_day_advances)
  moreover have "advances store day db (ws_db w)" using write_run_facts [OF assms(1)] unfolding w advances_def by blast
  ultimately have "advances store day db db'" using a advances_trans by blast
  then show ?thesis using assms(1) by (simp add: advances_def)
qed

end
