(* ===== verification/Persist_Listing.thy ===== *)
theory Persist_Listing
  imports Persist_Facts
begin

text \<open>
  What a run leaves of the store's offers and of the day's prices: the offers it wrote, the offers
  it did not touch, the verdict of the sweep and the snapshots of the day.
\<close>

section \<open>Writing one offer\<close>

definition offers_written :: "row_id \<Rightarrow> string \<Rightarrow> string set \<Rightarrow> offer_row list \<Rightarrow> offer_row list \<Rightarrow> bool" where
  \<comment> \<open>the offers of these SKUs are in stock and seen today, every other row is where it was\<close>
  "offers_written store day skus os os' \<longleftrightarrow>
     (\<forall>x\<in>set os'. of_store x = store \<and> of_sku x \<in> skus \<longrightarrow> of_in_stock x \<and> of_last_seen x = day)
     \<and> (\<forall>k\<in>skus. \<exists>x\<in>set os'. of_store x = store \<and> of_sku x = k)
     \<and> filter (\<lambda>x. \<not> (of_store x = store \<and> of_sku x \<in> skus)) os' = filter (\<lambda>x. \<not> (of_store x = store \<and> of_sku x \<in> skus)) os"

lemma filter_sql_update: "(\<And>x. w x \<Longrightarrow> \<not> P x \<and> \<not> P (f x)) \<Longrightarrow> filter P (sql_update w f xs) = filter P xs"
  by (induction xs) (auto simp: sql_update_def)

lemma refresh_written:
  assumes "\<exists>x\<in>set os. offer_at (oi_store oi) (oi_sku oi) x"
  shows "offers_written (oi_store oi) (oi_seen_on oi) {oi_sku oi} os (sql_update (offer_at (oi_store oi) (oi_sku oi)) (refresh_offer oi) os)"
proof -
  let ?w = "offer_at (oi_store oi) (oi_sku oi)" and ?f = "refresh_offer oi"
  obtain y where y: "y \<in> set os" "?w y" using assms by blast
  have same: "of_store (?f x) = of_store x" "of_sku (?f x) = of_sku x" for x by (simp_all add: refresh_offer_def)
  have "?f y \<in> set (sql_update ?w ?f os)" using y by (auto simp: in_sql_update)
  then have "\<exists>x\<in>set (sql_update ?w ?f os). of_store x = oi_store oi \<and> of_sku x = oi_sku oi"
    using y(2) by (auto simp: offer_at_def same intro!: bexI [of _ "?f y"])
  moreover have "of_in_stock x \<and> of_last_seen x = oi_seen_on oi" if mem: "x \<in> set (sql_update ?w ?f os)" and hit: "?w x" for x
  proof -
    obtain q where q: "x = (if ?w q then ?f q else q)" using mem by (auto simp: in_sql_update)
    have "?w q" using hit q by (auto simp: offer_at_def same split: if_splits)
    then show ?thesis using q by (simp add: refresh_offer_def)
  qed
  moreover have "filter (\<lambda>x. \<not> ?w x) (sql_update ?w ?f os) = filter (\<lambda>x. \<not> ?w x) os"
    by (rule filter_sql_update) (simp add: offer_at_def same)
  ultimately show ?thesis by (simp add: offers_written_def offer_at_def)
qed

lemma insert_written:
  "offers_written (oi_store oi) (oi_seen_on oi) {oi_sku oi} (ct_offers db) (ct_offers (snd (insert_offer product oi db)))
   \<and> (\<exists>x\<in>set (ct_offers (snd (insert_offer product oi db))). offer_at (oi_store oi) (oi_sku oi) x
        \<and> of_id x = or_id (fst (insert_offer product oi db)))
   \<and> ct_snapshots (snd (insert_offer product oi db)) = ct_snapshots db"
proof (cases "find (offer_at (oi_store oi) (oi_sku oi)) (ct_offers db)")
  case None
  then have "\<not> offer_at (oi_store oi) (oi_sku oi) x" if "x \<in> set (ct_offers db)" for x using that by (simp add: find_None_iff)
  then show ?thesis using None
    by (auto simp: insert_offer_def offers_written_def new_offer_def offer_at_def)
next
  case (Some y)
  then have y: "y \<in> set (ct_offers db)" "offer_at (oi_store oi) (oi_sku oi) y" by (auto dest: find_SomeD)
  have "\<exists>x\<in>set (sql_update (offer_at (oi_store oi) (oi_sku oi)) (refresh_offer oi) (ct_offers db)).
      offer_at (oi_store oi) (oi_sku oi) x \<and> of_id x = of_id y"
    by (rule bexI [of _ "refresh_offer oi y"]) (use y in \<open>auto simp: in_sql_update refresh_offer_def offer_at_def\<close>)
  then show ?thesis using Some y refresh_written [of "ct_offers db" oi] by (auto simp: insert_offer_def)
qed

lemma touch_written:
  assumes "touch_offer oi db = (Some r, db')"
  shows "offers_written (oi_store oi) (oi_seen_on oi) {oi_sku oi} (ct_offers db) (ct_offers db')
   \<and> (\<exists>x\<in>set (ct_offers db'). offer_at (oi_store oi) (oi_sku oi) x \<and> of_id x = or_id r) \<and> ct_snapshots db' = ct_snapshots db"
proof -
  obtain y where y: "find (offer_at (oi_store oi) (oi_sku oi)) (ct_offers db) = Some y" "or_id r = of_id y"
    and db': "db' = db\<lparr>ct_offers := sql_update (offer_at (oi_store oi) (oi_sku oi)) (refresh_offer oi) (ct_offers db)\<rparr>"
    using assms by (auto simp: touch_offer_def)
  have m: "y \<in> set (ct_offers db)" "offer_at (oi_store oi) (oi_sku oi) y" using find_SomeD [OF y(1)] by auto
  have "\<exists>x\<in>set (ct_offers db'). offer_at (oi_store oi) (oi_sku oi) x \<and> of_id x = or_id r"
    by (rule bexI [of _ "refresh_offer oi y"]) (use m y(2) db' in \<open>auto simp: in_sql_update refresh_offer_def offer_at_def\<close>)
  then show ?thesis using refresh_written [of "ct_offers db" oi] m db' by auto
qed

lemma touch_none: "touch_offer oi db = (None, db') \<Longrightarrow> db' = db"
  by (auto simp: touch_offer_def find_None_iff sql_update_id)

lemma upsert_offer_written:
  assumes "upsert_offer env lo store day s proposed db = ((r, c), db')"
  shows "offers_written store day {ps_sku s} (ct_offers db) (ct_offers db')
    \<and> (\<exists>x\<in>set (ct_offers db'). offer_at store (ps_sku s) x \<and> of_id x = or_id r) \<and> ct_snapshots db' = ct_snapshots db"
proof -
  let ?in = "\<lparr>oi_store = store, oi_product = proposed, oi_sku = ps_sku s, oi_url = ps_url s, oi_name_orig = ps_name s, oi_seen_on = day\<rparr>"
  have in_simps: "oi_store ?in = store" "oi_sku ?in = ps_sku s" "oi_seen_on ?in = day" by simp_all
  show ?thesis
  proof (cases proposed)
    case (Some q)
    then have "insert_offer q ?in db = (r, db')"
      using assms by (auto simp: upsert_offer_def upsert_from_scrape_def Let_def apfst_def map_prod_def split: prod.splits)
    then show ?thesis using insert_written [of ?in db q, unfolded in_simps] by simp
  next
    case None
    obtain r1 db1 where t: "touch_offer ?in db = (r1, db1)" by (cases "touch_offer ?in db")
    show ?thesis
    proof (cases r1)
      case (Some r')
      then have "r = r'" "db' = db1" using assms t None by (simp_all add: upsert_offer_def upsert_from_scrape_def Let_def)
      then show ?thesis using touch_written [OF t [unfolded Some], unfolded in_simps] by simp
    next
      case (None)
      then have db1: "db1 = db" using touch_none t by simp
      let ?ci = "canonical_input_of env lo \<lparr>rv_snap = s, rv_key = None\<rparr>"
      let ?i = "fst (create_unmatched (pe_now env) ?ci db)" and ?db2 = "snd (create_unmatched (pe_now env) ?ci db)"
      let ?in2 = "?in\<lparr>oi_product := Some ?i\<rparr>"
      have run: "upsert_offer env lo store day s proposed db = ((fst (insert_offer ?i ?in2 ?db2), True), snd (insert_offer ?i ?in2 ?db2))"
        using t None \<open>proposed = None\<close> db1 by (simp add: upsert_offer_def upsert_from_scrape_def Let_def split_def)
      have "insert_offer ?i ?in2 ?db2 = (r, db')" using run unfolding assms by (simp add: prod_eq_iff)
      moreover have "ct_offers ?db2 = ct_offers db" "ct_snapshots ?db2 = ct_snapshots db"
        by (simp_all add: create_unmatched_def insert_product_def)
      moreover have "oi_store ?in2 = store" "oi_sku ?in2 = ps_sku s" "oi_seen_on ?in2 = day" by simp_all
      ultimately show ?thesis using insert_written [of ?in2 ?db2 ?i] by simp
    qed
  qed
qed

section \<open>The write loop\<close>

lemma offers_written_empty: "offers_written store day {} os os"
  by (simp add: offers_written_def)

lemma filter_narrow: "filter P xs = filter P ys \<Longrightarrow> (\<And>x. Q x \<Longrightarrow> P x) \<Longrightarrow> filter Q xs = filter Q ys"
proof -
  assume eq: "filter P xs = filter P ys" and sub: "\<And>x. Q x \<Longrightarrow> P x"
  have "filter Q zs = filter Q (filter P zs)" for zs using sub by (induction zs) auto
  then show ?thesis using eq by metis
qed

lemma offers_written_insert:
  assumes one: "offers_written store day ks os os'" and two: "offers_written store day {k} os' os''"
  shows "offers_written store day (insert k ks) os os''"
proof -
  let ?out = "\<lambda>ks x. \<not> (of_store x = store \<and> of_sku x \<in> ks)"
  have f1: "filter (?out ks) os' = filter (?out ks) os" and f2: "filter (?out {k}) os'' = filter (?out {k}) os'"
    using one two by (simp_all add: offers_written_def)
  have "filter (?out (insert k ks)) os'' = filter (?out (insert k ks)) os'" by (rule filter_narrow [OF f2]) auto
  also have "\<dots> = filter (?out (insert k ks)) os" by (rule filter_narrow [OF f1]) auto
  finally have frame: "filter (?out (insert k ks)) os'' = filter (?out (insert k ks)) os" .
  have stays: "x \<in> set os'' \<longleftrightarrow> x \<in> set os'" if "?out {k} x" for x
    using arg_cong [OF f2, of set] that by auto
  show ?thesis
    unfolding offers_written_def
  proof (intro conjI ballI impI)
    fix x assume x: "x \<in> set os''" "of_store x = store \<and> of_sku x \<in> insert k ks"
    show "of_in_stock x" "of_last_seen x = day"
      using x one two stays [of x] by (auto simp: offers_written_def)
  next
    fix j assume j: "j \<in> insert k ks"
    show "\<exists>x\<in>set os''. of_store x = store \<and> of_sku x = j"
    proof (cases "j = k")
      case True
      then show ?thesis using two by (simp add: offers_written_def)
    next
      case False
      then obtain x where "x \<in> set os'" "of_store x = store" "of_sku x = j" using j one by (auto simp: offers_written_def)
      then show ?thesis using stays [of x] False by auto
    qed
  qed (rule frame)
qed

definition priced :: "row_id \<Rightarrow> string \<Rightarrow> catalogue \<Rightarrow> product_snapshot \<Rightarrow> bool" where
  \<comment> \<open>the day's row of the snapshot's offer\<close>
  "priced store day db s \<longleftrightarrow>
     (\<exists>x\<in>set (ct_offers db). of_store x = store \<and> of_sku x = ps_sku s \<and>
        (\<exists>t\<in>set (ct_snapshots db). sn_offer t = of_id x \<and> sn_captured_on t = day \<and> sn_price t = ps_price s
           \<and> sn_old_price t = ps_old_price s \<and> sn_currency t = ps_currency s \<and> sn_in_stock t = ps_in_stock s \<and> sn_promo t = ps_promo s))"

lemma write_snapshot_written:
  fixes env lo fids known store day r
  assumes ok: "catalogue_ok (ws_db w)" and slots: "slots_ok slots (ws_db w)"
  defines "w' \<equiv> write_snapshot env lo fids slots known store day r w"
  shows "offers_written store day {ps_sku (rv_snap r)} (ct_offers (ws_db w)) (ct_offers (ws_db w'))"
    and "priced store day (ws_db w') (rv_snap r)"
    and "priced store day (ws_db w) s \<Longrightarrow> ps_sku s \<noteq> ps_sku (rv_snap r) \<Longrightarrow> priced store day (ws_db w') s"
    and "ws_stored w' = ws_stored w + 1"
proof -
  let ?si = "\<lparr>si_price = ps_price (rv_snap r), si_old_price = ps_old_price (rv_snap r),
        si_currency = ps_currency (rv_snap r), si_in_stock = ps_in_stock (rv_snap r), si_promo = ps_promo (rv_snap r)\<rparr>"
  obtain r1 c db1 st where u: "upsert_offer env lo store day (rv_snap r) (if ps_sku (rv_snap r) \<in> set known then None
        else js_get slots (Some (canonical_slot (rv_snap r) (rv_key r)))) (ws_db w) = ((r1, c), db1)"
    and st: "st = write_llm_flavors env fids (or_product r1) (rv_snap r) (ws_stamped w, db1)"
    and w': "ws_db w' = upsert_for_date (or_id r1) day ?si (snd st)" and n: "ws_stored w' = ws_stored w + 1"
    unfolding w'_def by (rule write_snapshot_parts [of env lo store day r known slots w fids]) blast
  have "catalogue_ok (ws_db w')"
    using write_snapshot_facts(1) [OF slots ok, of store day env lo fids known r] ok by (simp add: w'_def advances_def)
  note f = upsert_offer_written [OF u]
  have os: "ct_offers (ws_db w') = ct_offers db1" by (simp add: w' upsert_for_date_def st)
  have ss: "ct_snapshots (ws_db w') = ct_snapshots (upsert_for_date (or_id r1) day ?si db1)" by (simp add: w' upsert_for_date_def st)
  show "offers_written store day {ps_sku (rv_snap r)} (ct_offers (ws_db w)) (ct_offers (ws_db w'))" using f os by simp
  obtain x where x: "x \<in> set (ct_offers db1)" "offer_at store (ps_sku (rv_snap r)) x" "of_id x = or_id r1" using f by auto
  have "\<exists>t\<in>set (ct_snapshots (ws_db w')). sn_offer t = or_id r1 \<and> sn_captured_on t = day \<and> sn_price t = ps_price (rv_snap r)
      \<and> sn_old_price t = ps_old_price (rv_snap r) \<and> sn_currency t = ps_currency (rv_snap r)
      \<and> sn_in_stock t = ps_in_stock (rv_snap r) \<and> sn_promo t = ps_promo (rv_snap r)"
    unfolding ss upsert_for_date_def by (simp, rule sql_upsert_hits) (simp_all add: snapshot_at_def)
  then show "priced store day (ws_db w') (rv_snap r)"
    using x unfolding priced_def offer_at_def os by metis
  show "priced store day (ws_db w') s" if p: "priced store day (ws_db w) s" and other: "ps_sku s \<noteq> ps_sku (rv_snap r)"
  proof -
    obtain y t where y: "y \<in> set (ct_offers (ws_db w))" "of_store y = store" "of_sku y = ps_sku s"
      and t: "t \<in> set (ct_snapshots (ws_db w))" "sn_offer t = of_id y" "sn_captured_on t = day" "sn_price t = ps_price s"
        "sn_old_price t = ps_old_price s" "sn_currency t = ps_currency s" "sn_in_stock t = ps_in_stock s" "sn_promo t = ps_promo s"
      using p unfolding priced_def by blast
    let ?out = "\<lambda>x. \<not> (of_store x = store \<and> of_sku x \<in> {ps_sku (rv_snap r)})"
    have "filter ?out (ct_offers db1) = filter ?out (ct_offers (ws_db w))" using f by (simp add: offers_written_def)
    moreover have "y \<in> set (filter ?out (ct_offers (ws_db w)))" using y other by auto
    ultimately have "y \<in> set (filter ?out (ct_offers db1))" by simp
    then have y1: "y \<in> set (ct_offers db1)" by simp
    have "distinct (map of_id (ct_offers db1))" using catalogue_okD(3) [OF \<open>catalogue_ok (ws_db w')\<close>] by (simp add: offers_ok_def os)
    have "y \<noteq> x" using x(2) y(3) other by (auto simp: offer_at_def)
    then have "of_id y \<noteq> or_id r1"
      using find_key_eq [OF \<open>distinct (map of_id (ct_offers db1))\<close> x(1) y1] x(3) by metis
    then have "t \<in> set (ct_snapshots (ws_db w'))"
      using t(1,2) f unfolding ss upsert_for_date_def by (simp, intro sql_upsert_keeps) (simp_all add: snapshot_at_def)
    then show ?thesis unfolding priced_def os using y y1 t by blast
  qed
  show "ws_stored w' = ws_stored w + 1" by (rule n)
qed

lemma fold_prefix_inv:
  assumes "I [] s" and "\<And>pre x post s. xs = pre @ x # post \<Longrightarrow> I pre s \<Longrightarrow> I (pre @ [x]) (f x s)"
  shows "I xs (fold f xs s)"
  using assms(2)
proof (induction xs rule: rev_induct)
  case (snoc x xs)
  have "I xs (fold f xs s)" by (rule snoc.IH) (metis append.assoc append_Cons snoc.prems)
  then show ?case using snoc.prems [of xs x "[]" "fold f xs s"] by simp
qed (simp add: assms(1))

lemma resolve_keys_skus: "mset (map (\<lambda>r. ps_sku (rv_snap r)) (resolve_keys env snaps)) = mset (map ps_sku snaps)"
  and resolve_keys_snaps: "rv_snap ` set (resolve_keys env snaps) = set snaps"
  and resolve_keys_length: "length (resolve_keys env snaps) = length snaps"
proof -
  let ?rs = "map (\<lambda>s. \<lparr>rv_snap = s, rv_key = (case ps_match_key s of Some k \<Rightarrow> Some k
                            | None \<Rightarrow> pe_key env (resolve_name env s) (ps_brand s) (ps_volume s) (ps_age s))\<rparr>) snaps"
  have "mset (map (\<lambda>r. ps_sku (rv_snap r)) (resolve_keys env snaps)) = mset (map (\<lambda>r. ps_sku (rv_snap r)) ?rs)"
    unfolding resolve_keys_def by (simp only: mset_map mset_js_sort)
  also have "map (\<lambda>r. ps_sku (rv_snap r)) ?rs = map ps_sku snaps" by simp
  finally show "mset (map (\<lambda>r. ps_sku (rv_snap r)) (resolve_keys env snaps)) = mset (map ps_sku snaps)" .
  show "rv_snap ` set (resolve_keys env snaps) = set snaps" by (simp add: resolve_keys_def image_image)
  show "length (resolve_keys env snaps) = length snaps" by (simp add: resolve_keys_def)
qed

lemma write_run_written:
  fixes env store snaps day
  assumes ok: "catalogue_ok db"
  defines "w \<equiv> write_run env store snaps day db"
  shows "offers_written store day (ps_sku ` set snaps) (ct_offers db) (ct_offers (ws_db w))"
    and "distinct (map ps_sku snaps) \<Longrightarrow> s \<in> set snaps \<Longrightarrow> priced store day (ws_db w) s"
    and "ws_stored w = length snaps"
proof -
  obtain lo fids slots known n db3 where run: "w =
       fold (write_snapshot env lo fids slots known store day) (resolve_keys env snaps)
         \<lparr>ws_db = db3, ws_fills = [], ws_links = [], ws_stamped = [], ws_stored = 0, ws_added = 0, ws_products = n\<rparr>"
    and ok3: "catalogue_ok db3 \<and> evolves store day db db3 \<and> slots_ok slots db3" and os: "ct_offers db3 = ct_offers db"
    unfolding w_def by (rule write_run_parts [of env store snaps day db]) (use ok in blast)
  let ?w = "\<lparr>ws_db = db3, ws_fills = [], ws_links = [], ws_stamped = [], ws_stored = 0, ws_added = 0, ws_products = n\<rparr>"
  let ?sku = "\<lambda>r. ps_sku (rv_snap r)"
  let ?I = "\<lambda>pre (v :: write_state). catalogue_ok (ws_db v) \<and> slots_ok slots (ws_db v)
      \<and> offers_written store day (?sku ` set pre) (ct_offers db) (ct_offers (ws_db v)) \<and> ws_stored v = length pre
      \<and> (distinct (map ?sku (resolve_keys env snaps)) \<longrightarrow> (\<forall>r\<in>set pre. priced store day (ws_db v) (rv_snap r)))"
  have all: "?I (resolve_keys env snaps) w"
    unfolding run
  proof (rule fold_prefix_inv [where I = ?I])
    show "?I [] ?w" using ok3 os by (simp add: offers_written_empty)
    fix pre r post v assume split: "resolve_keys env snaps = pre @ r # post" and i: "?I pre v"
    let ?v = "write_snapshot env lo fids slots known store day r v"
    note step = write_snapshot_written [where w = v and slots = slots and env = env and lo = lo and fids = fids and known = known and store = store and day = day and r = r]
    have "catalogue_ok (ws_db ?v) \<and> slots_ok slots (ws_db ?v)"
      using write_snapshot_facts [of slots v] i by (auto simp: advances_def)
    moreover have "offers_written store day (?sku ` set (pre @ [r])) (ct_offers db) (ct_offers (ws_db ?v))"
    proof -
      have "?sku ` set (pre @ [r]) = insert (?sku r) (?sku ` set pre)" by auto
      then show ?thesis using offers_written_insert [OF _ step(1)] i by simp
    qed
    moreover have "\<forall>q\<in>set (pre @ [r]). priced store day (ws_db ?v) (rv_snap q)" if d: "distinct (map ?sku (resolve_keys env snaps))"
    proof
      fix q assume q: "q \<in> set (pre @ [r])"
      show "priced store day (ws_db ?v) (rv_snap q)"
      proof (cases "q = r")
        case True
        then show ?thesis using step(2) i by simp
      next
        case False
        then have "q \<in> set pre" using q by simp
        then have "?sku q \<noteq> ?sku r" using d split by (auto simp: image_iff)
        then show ?thesis using step(3) [of "rv_snap q"] i d \<open>q \<in> set pre\<close> by simp
      qed
    qed
    ultimately show "?I (pre @ [r]) ?v" using step(4) i by simp
  qed
  have skus: "?sku ` set (resolve_keys env snaps) = ps_sku ` set snaps"
    using resolve_keys_snaps [of env snaps] by (metis image_image)
  show "offers_written store day (ps_sku ` set snaps) (ct_offers db) (ct_offers (ws_db w))" using all skus by simp
  show "ws_stored w = length snaps" using all by (simp add: resolve_keys_length)
  show "priced store day (ws_db w) s" if d: "distinct (map ps_sku snaps)" and s: "s \<in> set snaps"
  proof -
    have dist: "distinct (map ?sku (resolve_keys env snaps))"
      using d mset_eq_imp_distinct_iff [OF resolve_keys_skus [of env snaps]] by blast
    have "s \<in> rv_snap ` set (resolve_keys env snaps)" using s by (simp only: resolve_keys_snaps)
    then obtain r where r: "r \<in> set (resolve_keys env snaps)" "rv_snap r = s" by blast
    have "\<forall>r\<in>set (resolve_keys env snaps). priced store day (ws_db w) (rv_snap r)" using all dist by blast
    then show ?thesis using r by blast
  qed
qed

section \<open>The verdict\<close>

definition swept :: "row_id \<Rightarrow> string list \<Rightarrow> string list \<Rightarrow> listing_result \<Rightarrow> offer_row \<Rightarrow> bool" where
  \<comment> \<open>the offers the sweep flags: after a whole listing every one it missed, otherwise the explicit ones\<close>
  "swept store skus oos listing x \<longleftrightarrow>
     of_store x = store \<and> of_in_stock x \<and> (if lr_complete listing then of_sku x \<notin> set skus else of_sku x \<in> set oos)"

lemma flag_is_sweep:
  assumes "flag_out_of_stock store skus oos n listing db = ((removed, evs), db')"
  shows "ct_offers db' = sql_update (swept store skus oos listing) (\<lambda>x. x\<lparr>of_in_stock := False\<rparr>) (ct_offers db)"
    and "removed = length (filter (swept store skus oos listing) (ct_offers db))" and "ct_snapshots db' = ct_snapshots db"
proof -
  have "ct_offers db' = sql_update (swept store skus oos listing) (\<lambda>x. x\<lparr>of_in_stock := False\<rparr>) (ct_offers db)
      \<and> removed = length (filter (swept store skus oos listing) (ct_offers db)) \<and> ct_snapshots db' = ct_snapshots db"
  proof (cases "lr_complete listing")
    case True
    then have "swept store skus oos listing = (\<lambda>x. of_store x = store \<and> of_in_stock x \<and> of_sku x \<notin> set skus)"
      by (simp add: swept_def fun_eq_iff)
    then show ?thesis using assms True
      by (auto simp: flag_out_of_stock_def mark_out_of_stock_except_def flag_offers_def sql_affected_def)
  next
    case False
    then have w: "swept store skus oos listing = (\<lambda>x. of_store x = store \<and> of_in_stock x \<and> of_sku x \<in> set oos)"
      by (simp add: swept_def fun_eq_iff)
    show ?thesis
    proof (cases "oos = []")
      case True
      then have "\<not> swept store skus oos listing x" for x using w by simp
      then show ?thesis using assms False True
        by (simp add: flag_out_of_stock_def mark_out_of_stock_by_skus_def sql_update_id filter_empty_conv)
    next
      case oos: False
      then show ?thesis using assms False w
        by (auto simp: flag_out_of_stock_def mark_out_of_stock_by_skus_def flag_offers_def sql_affected_def)
    qed
  qed
  then show "ct_offers db' = sql_update (swept store skus oos listing) (\<lambda>x. x\<lparr>of_in_stock := False\<rparr>) (ct_offers db)"
    "removed = length (filter (swept store skus oos listing) (ct_offers db))" "ct_snapshots db' = ct_snapshots db" by simp_all
qed

lemma day_closed:
  assumes "db' = snd (mark_out_of_stock_for_day store day db)" and "t \<in> set (ct_snapshots db')"
    and "sn_captured_on t = day" and "sn_in_stock t" and "x \<in> set (ct_offers db')" and "of_id x = sn_offer t" and "of_store x = store"
  shows "of_in_stock x"
proof (rule ccontr)
  assume no: "\<not> of_in_stock x"
  let ?w = "\<lambda>s. sn_captured_on s = day \<and> sn_in_stock s
                   \<and> (\<exists>o'\<in>set (ct_offers db). of_id o' = sn_offer s \<and> of_store o' = store \<and> \<not> of_in_stock o')"
  have "ct_snapshots db' = sql_update ?w (\<lambda>s. s\<lparr>sn_in_stock := False\<rparr>) (ct_snapshots db)" and os: "ct_offers db' = ct_offers db"
    using assms(1) by (simp_all add: mark_out_of_stock_for_day_def Let_def)
  then obtain q where "t = (if ?w q then q\<lparr>sn_in_stock := False\<rparr> else q)" using assms(2) by (auto simp: in_sql_update)
  then consider "t = q\<lparr>sn_in_stock := False\<rparr>" | "t = q" "\<not> ?w q" by (meson)
  then show False
  proof cases
    case 1
    then show ?thesis using assms(4) by simp
  next
    case 2
    have "?w t" using assms(3-7) no os by auto
    then show ?thesis using 2 by simp
  qed
qed

lemma persist_offers:
  assumes ok: "catalogue_ok db" and run: "persist env store snaps oos day listing db = (out, db')"
  obtains os where "offers_written store day (ps_sku ` set snaps) (ct_offers db) os"
    and "ct_offers db' = sql_update (swept store (map ps_sku snaps) oos listing) (\<lambda>x. x\<lparr>of_in_stock := False\<rparr>) os"
    and "pc_removed (po_counts out) = length (filter (swept store (map ps_sku snaps) oos listing) os)"
    and "pc_stored (po_counts out) = length snaps"
proof -
  obtain w db4 removed evs db5 where w: "w = write_run env store snaps day db"
    and os: "ct_offers db4 = ct_offers (ws_db w)"
    and flag: "flag_out_of_stock store (map ps_sku snaps) oos (count_by_store db store) listing db4 = ((removed, evs), db5)"
    and db': "db' = snd (mark_out_of_stock_for_day store day db5)"
    and out: "po_counts out = \<lparr>pc_stored = ws_stored w, pc_added = ws_added w, pc_added_products = ws_products w, pc_removed = removed\<rparr>"
    by (rule persist_parts [OF run]) blast
  have "ct_offers db' = ct_offers db5" using db' by (simp add: mark_out_of_stock_for_day_def Let_def)
  moreover have "offers_written store day (ps_sku ` set snaps) (ct_offers db) (ct_offers db4)" "ws_stored w = length snaps"
    using write_run_written [OF ok, where store = store and day = day and snaps = snaps and env = env] by (simp_all add: os w)
  ultimately show ?thesis using that [of "ct_offers db4"] flag_is_sweep [OF flag] out by simp
qed

lemma mark_day_member:
  "t \<in> set (ct_snapshots db) \<Longrightarrow> t \<in> set (ct_snapshots (snd (mark_out_of_stock_for_day store day db)))
     \<or> t\<lparr>sn_in_stock := False\<rparr> \<in> set (ct_snapshots (snd (mark_out_of_stock_for_day store day db)))"
  unfolding mark_out_of_stock_for_day_def Let_def sql_update_def by force

lemma priced_after:
  assumes ok: "catalogue_ok db" and run: "persist env store snaps oos day listing db = (out, db')"
    and d: "distinct (map ps_sku snaps)" and s: "s \<in> set snaps"
  obtains x t where "x \<in> set (ct_offers db')" and "of_store x = store" and "of_sku x = ps_sku s"
    and "t \<in> set (ct_snapshots db')" and "sn_offer t = of_id x" and "sn_captured_on t = day"
    and "sn_price t = ps_price s" and "sn_old_price t = ps_old_price s" and "sn_currency t = ps_currency s" and "sn_promo t = ps_promo s"
proof -
  obtain w db4 removed evs db5 where w: "w = write_run env store snaps day db"
    and os: "ct_offers db4 = ct_offers (ws_db w)" and ss: "ct_snapshots db4 = ct_snapshots (ws_db w)"
    and flag: "flag_out_of_stock store (map ps_sku snaps) oos (count_by_store db store) listing db4 = ((removed, evs), db5)"
    and db': "db' = snd (mark_out_of_stock_for_day store day db5)" by (rule persist_parts [OF run]) blast
  have "priced store day (ws_db w) s" unfolding w by (rule write_run_written(2) [OF ok d s])
  then obtain x t where x: "x \<in> set (ct_offers db4)" "of_store x = store" "of_sku x = ps_sku s"
    and t: "t \<in> set (ct_snapshots db4)" "sn_offer t = of_id x" "sn_captured_on t = day" "sn_price t = ps_price s"
      "sn_old_price t = ps_old_price s" "sn_currency t = ps_currency s" "sn_promo t = ps_promo s"
    unfolding priced_def os ss by blast
  obtain x' where x': "x' \<in> set (ct_offers db')" "of_store x' = store" "of_sku x' = ps_sku s" "of_id x' = of_id x"
  proof
    let ?x = "if swept store (map ps_sku snaps) oos listing x then x\<lparr>of_in_stock := False\<rparr> else x"
    show "?x \<in> set (ct_offers db')"
      using x(1) flag_is_sweep(1) [OF flag] by (auto simp: db' mark_out_of_stock_for_day_def Let_def in_sql_update)
  qed (use x in auto)
  obtain t' where "t' \<in> set (ct_snapshots db')" "t' = t \<or> t' = t\<lparr>sn_in_stock := False\<rparr>"
    using t(1) flag_is_sweep(3) [OF flag] mark_day_member [of t db5 store day] unfolding db' by auto
  then show ?thesis using that [OF x'(1-3), of t'] t x'(4) by auto
qed

lemma stock_after:
  assumes ok: "catalogue_ok db" and run: "persist env store snaps oos day listing db = (out, db')"
    and x: "x \<in> set (ct_offers db')" "of_store x = store"
  shows "of_in_stock x \<longleftrightarrow>
     (if lr_complete listing then of_sku x \<in> ps_sku ` set snaps
      else of_sku x \<notin> set oos \<and> (of_sku x \<in> ps_sku ` set snaps \<or> (\<exists>y\<in>set (ct_offers db). of_id y = of_id x \<and> of_in_stock y)))"
proof -
  obtain os where os: "offers_written store day (ps_sku ` set snaps) (ct_offers db) os"
    and db': "ct_offers db' = sql_update (swept store (map ps_sku snaps) oos listing) (\<lambda>x. x\<lparr>of_in_stock := False\<rparr>) os"
    by (rule persist_offers [OF ok run])
  obtain q where q: "q \<in> set os" "x = (if swept store (map ps_sku snaps) oos listing q then q\<lparr>of_in_stock := False\<rparr> else q)"
    using x(1) unfolding db' by (auto simp: in_sql_update)
  have same: "of_store x = of_store q" "of_sku x = of_sku q" "of_id x = of_id q" using q(2) by (auto split: if_splits)
  have "of_store q = store" using x(2) same by simp
  have flagged: "of_in_stock x \<longleftrightarrow> of_in_stock q \<and> \<not> swept store (map ps_sku snaps) oos listing q"
    using q(2) by (auto simp: swept_def split: if_splits)
  have seen: "of_in_stock q" if "of_sku q \<in> ps_sku ` set snaps"
    using os q(1) that \<open>of_store q = store\<close> by (auto simp: offers_written_def)
  have before: "of_in_stock q \<longleftrightarrow> (\<exists>y\<in>set (ct_offers db). of_id y = of_id x \<and> of_in_stock y)" if "of_sku q \<notin> ps_sku ` set snaps"
  proof -
    let ?out = "\<lambda>x. \<not> (of_store x = store \<and> of_sku x \<in> ps_sku ` set snaps)"
    have "q \<in> set (filter ?out os)" using q(1) that by auto
    moreover have "filter ?out os = filter ?out (ct_offers db)" using os unfolding offers_written_def by blast
    ultimately have "q \<in> set (filter ?out (ct_offers db))" by (simp only:)
    then have m: "q \<in> set (ct_offers db)" by simp
    have "distinct (map of_id (ct_offers db))" using catalogue_okD(3) [OF ok] by (simp add: offers_ok_def)
    then have "y = q" if "y \<in> set (ct_offers db)" "of_id y = of_id x" for y
      using find_key_eq [of of_id "ct_offers db" q y] m that same(3) by simp
    then show ?thesis using m same(3) by auto
  qed
  show ?thesis
    using flagged seen before \<open>of_store q = store\<close> by (auto simp: swept_def same(2))
qed

lemma others_after:
  assumes ok: "catalogue_ok db" and run: "persist env store snaps oos day listing db = (out, db')"
  shows "filter (\<lambda>x. of_store x \<noteq> store) (ct_offers db') = filter (\<lambda>x. of_store x \<noteq> store) (ct_offers db)"
    and "lr_complete listing \<Longrightarrow> pc_removed (po_counts out) =
      length (filter (\<lambda>x. of_store x = store \<and> of_in_stock x \<and> of_sku x \<notin> ps_sku ` set snaps) (ct_offers db))"
    and "\<forall>k\<in>ps_sku ` set snaps. \<exists>x\<in>set (ct_offers db'). of_store x = store \<and> of_sku x = k \<and> of_last_seen x = day"
    and "pc_stored (po_counts out) = length snaps"
proof -
  obtain os where os: "offers_written store day (ps_sku ` set snaps) (ct_offers db) os"
    and db': "ct_offers db' = sql_update (swept store (map ps_sku snaps) oos listing) (\<lambda>x. x\<lparr>of_in_stock := False\<rparr>) os"
    and n: "pc_removed (po_counts out) = length (filter (swept store (map ps_sku snaps) oos listing) os)"
      "pc_stored (po_counts out) = length snaps"
    by (rule persist_offers [OF ok run])
  let ?out = "\<lambda>x. \<not> (of_store x = store \<and> of_sku x \<in> ps_sku ` set snaps)"
  have frame: "filter ?out os = filter ?out (ct_offers db)" using os by (simp add: offers_written_def)
  have "filter (\<lambda>x. of_store x \<noteq> store) (ct_offers db') = filter (\<lambda>x. of_store x \<noteq> store) os"
    unfolding db' by (rule filter_sql_update) (simp add: swept_def)
  also have "\<dots> = filter (\<lambda>x. of_store x \<noteq> store) (ct_offers db)" by (rule filter_narrow [OF frame]) auto
  finally show "filter (\<lambda>x. of_store x \<noteq> store) (ct_offers db') = filter (\<lambda>x. of_store x \<noteq> store) (ct_offers db)" .
  show "pc_removed (po_counts out) = length (filter (\<lambda>x. of_store x = store \<and> of_in_stock x \<and> of_sku x \<notin> ps_sku ` set snaps) (ct_offers db))"
    if c: "lr_complete listing"
  proof -
    have "filter (swept store (map ps_sku snaps) oos listing) os = filter (swept store (map ps_sku snaps) oos listing) (ct_offers db)"
      by (rule filter_narrow [OF frame]) (use c in \<open>auto simp: swept_def\<close>)
    also have "\<dots> = filter (\<lambda>x. of_store x = store \<and> of_in_stock x \<and> of_sku x \<notin> ps_sku ` set snaps) (ct_offers db)"
      by (rule filter_cong) (simp_all add: swept_def c)
    finally show ?thesis using n(1) by simp
  qed
  show "\<forall>k\<in>ps_sku ` set snaps. \<exists>x\<in>set (ct_offers db'). of_store x = store \<and> of_sku x = k \<and> of_last_seen x = day"
  proof
    fix k assume k: "k \<in> ps_sku ` set snaps"
    then obtain x where x: "x \<in> set os" "of_store x = store" "of_sku x = k" using os by (auto simp: offers_written_def)
    let ?x = "if swept store (map ps_sku snaps) oos listing x then x\<lparr>of_in_stock := False\<rparr> else x"
    have "?x \<in> set (ct_offers db')" using x(1) unfolding db' in_sql_update by blast
    moreover have "of_last_seen ?x = day" using os x k by (auto simp: offers_written_def)
    ultimately show "\<exists>x\<in>set (ct_offers db'). of_store x = store \<and> of_sku x = k \<and> of_last_seen x = day"
      using x by (intro bexI [of _ ?x]) auto
  qed
  show "pc_stored (po_counts out) = length snaps" by (rule n(2))
qed

end
