(* ===== verification/Persist_Claims.thy ===== *)
theory Persist_Claims
  imports Persist_Listing
begin

text \<open>
  The properties of a store's write, with a small shop they are applied to: two stores list one
  bottling, the run of the first store sees it again, meets a new SKU and misses an old one.
\<close>

section \<open>A small shop\<close>

definition shop_product :: "row_id \<Rightarrow> string \<Rightarrow> product_row" where
  "shop_product i key =
     \<lparr>pd_id = i, pd_match_key = Some key, pd_name = Some key, pd_age = None, pd_abv = None, pd_volume = Some 700,
      pd_brand_orig = None, pd_type_id = None, pd_country_id = None, pd_last_llm_flavor_at = None,
      pd_flavors_curated_at = None, pd_producer_id = None, pd_bottler_id = None, pd_name_source = Some Fact_Store,
      pd_type_source = None, pd_country_source = None, pd_abv_source = None, pd_age_source = None,
      pd_volume_source = Some Fact_Store, pd_producer_source = None, pd_review_status = Some Review_Pending,
      pd_reviewed_at = None, pd_created_at = 1, pd_updated_at = 1\<rparr>"

definition shop_offer :: "row_id \<Rightarrow> row_id \<Rightarrow> row_id \<Rightarrow> string \<Rightarrow> offer_row" where
  "shop_offer i store product sku =
     \<lparr>of_id = i, of_store = store, of_product = product, of_sku = sku, of_url = ''u'', of_name_orig = sku,
      of_in_stock = True, of_first_seen = ''2026-01-01'', of_last_seen = ''2026-01-01''\<rparr>"

definition shop :: catalogue where
  "shop = \<lparr>ct_products = [shop_product 1 ''oban'', shop_product 2 ''arran''], ct_aliases = [],
     ct_offers = [shop_offer 3 90 1 ''a'', shop_offer 4 90 2 ''b'', shop_offer 5 91 1 ''a''],
     ct_snapshots = [], ct_links = [], ct_conflicts = [], ct_favorites = [], ct_blacklist = [], ct_collection = [],
     ct_purchases = [], ct_types = [], ct_flavors = [], ct_countries = [], ct_next = 6\<rparr>"

definition shop_snapshot :: "string \<Rightarrow> string \<Rightarrow> product_snapshot" where
  "shop_snapshot sku key =
     \<lparr>ps_sku = sku, ps_url = ''v'', ps_name = key, ps_clean_name = Some key, ps_price = 50, ps_brand = None,
      ps_old_price = None, ps_currency = ''UAH'', ps_in_stock = True, ps_promo = False, ps_volume = Some 700,
      ps_abv = Some 43, ps_age = None, ps_type = None, ps_country = None, ps_flavor_tags = [''honey''],
      ps_fact_sources = [], ps_llm_tags = None, ps_llm_checked = False, ps_match_key = Some key\<rparr>"

definition shop_env :: persist_env where
  "shop_env = \<lparr>pe_coll = code_unit_compare, pe_lower = (\<lambda>s. s), pe_clean = Some, pe_key = (\<lambda>n b v a. n),
     pe_ident = (\<lambda>s. s), pe_fold_key = (\<lambda>s. s), pe_now = 9,
     pe_index = \<lparr>kx_aliases = [], kx_producers = [], kx_rules = [], kx_house = [], kx_peat = \<lparr>peat_peated = None, peat_smoky = None\<rparr>\<rparr>\<rparr>"

definition whole_listing :: listing_result where
  "whole_listing = \<lparr>lr_complete = True, lr_stop = Stop_Exhausted\<rparr>"

abbreviation shop_run :: "product_snapshot list" where
  "shop_run \<equiv> [shop_snapshot ''c'' ''oban'', shop_snapshot ''a'' ''oban'']"

lemma shop_ok: "catalogue_ok shop"
  by (simp add: catalogue_ok_def constraint_defs shop_def shop_product_def shop_offer_def product_ids_def live_keys_def
      offer_key_def)

lemma shop_after:
  "map (\<lambda>x. (of_store x, of_sku x, of_product x, of_in_stock x))
     (ct_offers (snd (persist shop_env 90 shop_run [] ''2026-02-02'' whole_listing shop)))
   = [(90, ''a'', 1, True), (90, ''b'', 2, False), (91, ''a'', 1, True), (90, ''c'', 1, True)]"
  by code_simp

section \<open>Properties\<close>







end
