(* ===== verification/Preference_Facts.thy ===== *)
theory Preference_Facts
  imports Preferences Report_Endpoint Product_Kept Persist_Claims
begin

text \<open>
  What a preference request does to the three lists of a user, that it touches nothing else, and
  what a hidden bottling or maker means for the reports: the tables refine a map from users to
  three sets, and a page read with a user's lists shows nothing the user has hidden.
\<close>

section \<open>Memberships\<close>

lemma set_normalize_ids [simp]: "set (normalize_ids is) = set is"
  by (simp add: normalize_ids_def)

lemma set_insert_membership [simp]: "set (insert_membership row is rs) = set rs \<union> row ` set is"
  unfolding insert_membership_def by (induction "is" arbitrary: rs) auto

lemma distinct_insert_membership: "distinct rs \<Longrightarrow> distinct (insert_membership row is rs)"
  unfolding insert_membership_def by (induction "is" arbitrary: rs) auto

lemma set_delete_membership [simp]: "set (delete_membership row is rs) = set rs - row ` set is"
  by (auto simp: delete_membership_def)

lemma distinct_delete_membership: "distinct rs \<Longrightarrow> distinct (delete_membership row is rs)"
  by (simp add: delete_membership_def sql_delete_def)

lemma listed_insert: "listed (insert_membership (list_entry v) is rs) u = listed rs u \<union> (if u = v then set is else {})"
  by (auto simp: in_listed list_entry_def)

lemma listed_delete: "listed (delete_membership (list_entry v) is rs) u = listed rs u - (if u = v then set is else {})"
  by (auto simp: in_listed list_entry_def)

definition makers_hidden :: "maker_row list \<Rightarrow> row_id \<Rightarrow> row_id set" where
  "makers_hidden rs u = {m. maker_entry u m \<in> set rs}"

lemma makers_insert: "makers_hidden (insert_membership (maker_entry v) ms rs) u = makers_hidden rs u \<union> (if u = v then set ms else {})"
  by (auto simp: makers_hidden_def maker_entry_def)

lemma makers_delete: "makers_hidden (delete_membership (maker_entry v) ms rs) u = makers_hidden rs u - (if u = v then set ms else {})"
  by (auto simp: makers_hidden_def maker_entry_def)

lemmas membership_sets = listed_insert listed_delete makers_insert makers_delete

section \<open>The abstract lists\<close>

record wishes =
  ws_favorites :: "row_id set"
  ws_hidden :: "row_id set"
  ws_makers :: "row_id set"

definition wishes_of :: "preference_state \<Rightarrow> row_id \<Rightarrow> wishes" where
  "wishes_of st u =
     \<lparr>ws_favorites = listed (ct_favorites (pr_catalogue st)) u, ws_hidden = listed (ct_blacklist (pr_catalogue st)) u,
      ws_makers = makers_hidden (pr_makers st) u\<rparr>"

definition brand_ids :: "preference_env \<Rightarrow> preference_state \<Rightarrow> string list option \<Rightarrow> row_id set" where
  \<comment> \<open>the producers the names reach\<close>
  "brand_ids env st brands = snd ` set (find_ids_by_brand env (pr_producers st) (or_empty brands))"

fun request_effect :: "preference_env \<Rightarrow> preference_state \<Rightarrow> preference_request \<Rightarrow> wishes \<Rightarrow> wishes" where
  "request_effect env st (Add_Favorites is) w = w\<lparr>ws_favorites := ws_favorites w \<union> set is\<rparr>"
| "request_effect env st (Remove_Favorites is) w = w\<lparr>ws_favorites := ws_favorites w - set is\<rparr>"
| "request_effect env st (Hide is brands) w =
     \<lparr>ws_favorites = ws_favorites w - set (or_empty is), ws_hidden = ws_hidden w \<union> set (or_empty is),
      ws_makers = ws_makers w \<union> brand_ids env st brands\<rparr>"
| "request_effect env st (Unhide is brands) w =
     w\<lparr>ws_hidden := ws_hidden w - set (or_empty is), ws_makers := ws_makers w - brand_ids env st brands\<rparr>"

definition refusal :: "preference_env \<Rightarrow> bool \<Rightarrow> row_id \<Rightarrow> preference_request \<Rightarrow> preference_state \<Rightarrow> bool" where
  \<comment> \<open>an unknown user in the path, nothing named, or a bottling or a brand the catalogue does not carry\<close>
  "refusal env named u req st \<longleftrightarrow>
     named \<and> u \<notin> set (pr_users st) \<or>
     (case req of
        Add_Favorites is \<Rightarrow> \<not> set is \<subseteq> product_ids (pr_catalogue st)
      | Remove_Favorites is \<Rightarrow> False
      | Hide is brands \<Rightarrow> or_empty is = [] \<and> or_empty brands = [] \<or> \<not> set (or_empty is) \<subseteq> product_ids (pr_catalogue st)
          \<or> unknown_brands env st (or_empty brands) \<noteq> []
      | Unhide is brands \<Rightarrow> or_empty is = [] \<and> or_empty brands = [] \<or> unknown_brands env st (or_empty brands) \<noteq> [])"

lemma unknown_products_Nil: "unknown_products db is = [] \<longleftrightarrow> set is \<subseteq> product_ids db"
  by (auto simp: unknown_products_def find_existing_ids_def filter_empty_conv product_ids_def)

lemma unknown_products_cases: "(unknown_products db is \<noteq> []) = (\<not> set is \<subseteq> product_ids db)"
  by (simp add: unknown_products_Nil)

lemma resolve_brand_ids_cases:
  "resolve_brand_ids env st names =
     (if unknown_brands env st names \<noteq> [] then Inl (Unknown_Brands (unknown_brands env st names))
      else Inr (map snd (find_ids_by_brand env (pr_producers st) names)))"
  by (simp add: resolve_brand_ids_def unknown_brands_def find_ids_by_brand_def js_set_def)

lemma change_refused:
  "(\<exists>e. change_preference env u req st = Inl e) \<longleftrightarrow> refusal env False u req st"
  by (cases req) (auto simp: refusal_def unknown_products_cases resolve_brand_ids_cases)

lemma writes_effect:
  "wishes_of (add_favorites u is st) = (wishes_of st)(u := (wishes_of st u)\<lparr>ws_favorites := ws_favorites (wishes_of st u) \<union> set is\<rparr>)"
  "wishes_of (remove_favorites u is st) = (wishes_of st)(u := (wishes_of st u)\<lparr>ws_favorites := ws_favorites (wishes_of st u) - set is\<rparr>)"
  "wishes_of (add_to_blacklist u is ms st) = (wishes_of st)(u :=
     \<lparr>ws_favorites = ws_favorites (wishes_of st u) - set is, ws_hidden = ws_hidden (wishes_of st u) \<union> set is,
      ws_makers = ws_makers (wishes_of st u) \<union> set ms\<rparr>)"
  "wishes_of (remove_from_blacklist u is ms st) = (wishes_of st)(u :=
     (wishes_of st u)\<lparr>ws_hidden := ws_hidden (wishes_of st u) - set is, ws_makers := ws_makers (wishes_of st u) - set ms\<rparr>)"
  by (rule ext; simp add: wishes_of_def add_favorites_def remove_favorites_def add_to_blacklist_def remove_from_blacklist_def
      with_favorites_def with_hidden_def with_makers_def Let_def membership_sets)+

lemma change_effect:
  assumes "change_preference env u req st = Inr st'"
  shows "wishes_of st' = (wishes_of st)(u := request_effect env st req (wishes_of st u))"
  using assms
  by (cases req) (auto simp: writes_effect resolve_brand_ids_cases brand_ids_def split: if_splits)

lemma answer_cases:
  "answer_preference env named u req st = Inr (a, st') \<longleftrightarrow>
     \<not> refusal env named u req st \<and> change_preference env u req st = Inr st' \<and> a = find_preference env st' u"
  using change_refused [of env u req st]
  by (auto simp: answer_preference_def refusal_def split: sum.split)

section \<open>Frames and constraints\<close>

lemma writes_frame:
  assumes "change_preference env u req st = Inr st'"
  shows "pr_producers st' = pr_producers st \<and> pr_users st' = pr_users st
    \<and> pr_catalogue st' = (pr_catalogue st)\<lparr>ct_favorites := ct_favorites (pr_catalogue st'), ct_blacklist := ct_blacklist (pr_catalogue st')\<rparr>"
  using assms
  by (cases req) (auto simp: add_favorites_def remove_favorites_def add_to_blacklist_def remove_from_blacklist_def with_favorites_def
      with_hidden_def with_makers_def Let_def resolve_brand_ids_cases split: if_splits)

lemma user_list_insert: "user_list_ok xs known \<Longrightarrow> set is \<subseteq> known \<Longrightarrow> user_list_ok (insert_membership (list_entry u) is xs) known"
  by (auto simp: user_list_ok_def distinct_insert_membership list_entry_def)

lemma user_list_delete: "user_list_ok xs known \<Longrightarrow> user_list_ok (delete_membership (list_entry u) is xs) known"
  by (auto simp: user_list_ok_def distinct_delete_membership)

lemma change_keeps_catalogue:
  assumes "change_preference env u req st = Inr st'" and ok: "catalogue_ok (pr_catalogue st)"
  shows "catalogue_ok (pr_catalogue st')"
proof -
  let ?db = "pr_catalogue st"
  have lists: "user_list_ok (ct_favorites ?db) (product_ids ?db)" "user_list_ok (ct_blacklist ?db) (product_ids ?db)"
    using ok by (simp_all add: catalogue_ok_def)
  have both: "catalogue_ok (?db\<lparr>ct_favorites := f, ct_blacklist := b\<rparr>)"
    if "user_list_ok f (product_ids ?db)" "user_list_ok b (product_ids ?db)" for f b
    using ok that by (simp add: catalogue_ok_def product_ids_def)
  have "user_list_ok (ct_favorites (pr_catalogue st')) (product_ids ?db) \<and> user_list_ok (ct_blacklist (pr_catalogue st')) (product_ids ?db)"
    using assms(1) lists
    by (cases req) (auto simp: add_favorites_def remove_favorites_def add_to_blacklist_def remove_from_blacklist_def with_favorites_def
        with_hidden_def with_makers_def Let_def resolve_brand_ids_cases unknown_products_cases user_list_insert user_list_delete
        split: if_splits)
  then show ?thesis using both writes_frame [OF assms(1)] by metis
qed

section \<open>Later requests\<close>

fun shows_again :: "row_id \<Rightarrow> bool \<times> row_id \<times> preference_request \<Rightarrow> bool" where
  \<comment> \<open>a request that takes something off the user's blacklist\<close>
  "shows_again u (named, v, Unhide is brands) = (v = u)"
| "shows_again u _ = False"

definition still_hidden :: "wishes \<Rightarrow> wishes \<Rightarrow> bool" where
  "still_hidden w w' \<longleftrightarrow> ws_hidden w \<subseteq> ws_hidden w' \<and> ws_makers w \<subseteq> ws_makers w'"

lemma step_still_hidden:
  assumes "\<not> shows_again u r"
  shows "still_hidden (wishes_of st u) (wishes_of (preference_step env st r) u)"
proof -
  obtain named v req where r: "r = (named, v, req)" by (cases r)
  show ?thesis
  proof (cases "answer_preference env named v req st")
    case (Inl e)
    then show ?thesis by (simp add: preference_step_def r still_hidden_def)
  next
    case (Inr p)
    obtain a st' where p: "p = (a, st')" by (cases p)
    have "change_preference env v req st = Inr st'" using Inr unfolding p answer_cases by simp
    then have "wishes_of st' = (wishes_of st)(v := request_effect env st req (wishes_of st v))" by (rule change_effect)
    then show ?thesis using assms Inr by (cases req) (auto simp: preference_step_def r p still_hidden_def)
  qed
qed

lemma steps_still_hidden:
  "\<not> list_ex (shows_again u) rs \<Longrightarrow> still_hidden (wishes_of st u) (wishes_of (foldl (preference_step env) st rs) u)"
proof (induction rs arbitrary: st)
  case Nil
  then show ?case by (simp add: still_hidden_def)
next
  case (Cons r rs)
  then have "still_hidden (wishes_of st u) (wishes_of (preference_step env st r) u)" by (simp add: step_still_hidden)
  moreover have "still_hidden (wishes_of (preference_step env st r) u) (wishes_of (foldl (preference_step env) st (r # rs)) u)"
    using Cons by simp
  ultimately show ?case by (auto simp: still_hidden_def)
qed

section \<open>What a report shows\<close>

lemma filter_ids_conv:
  "set (favorites (find_filter_ids env st u)) = pv_uuid env ` ws_favorites (wishes_of st u)"
  "set (blacklist_products (find_filter_ids env st u)) = pv_uuid env ` ws_hidden (wishes_of st u)"
  "set (blacklist_producers (find_filter_ids env st u)) = pv_uuid env ` ws_makers (wishes_of st u)"
proof -
  have makers: "makers_hidden rs v = mk_producer ` {m \<in> set rs. mk_user m = v}" for rs v
  proof
    show "makers_hidden rs v \<subseteq> mk_producer ` {m \<in> set rs. mk_user m = v}"
      by (force simp: makers_hidden_def maker_entry_def)
    show "mk_producer ` {m \<in> set rs. mk_user m = v} \<subseteq> makers_hidden rs v"
    proof
      fix i assume "i \<in> mk_producer ` {m \<in> set rs. mk_user m = v}"
      then obtain m where m: "m \<in> set rs" "mk_user m = v" "i = mk_producer m" by auto
      then have "m = maker_entry v i" by (simp add: maker_entry_def)
      then show "i \<in> makers_hidden rs v" using m(1) by (simp add: makers_hidden_def)
    qed
  qed
  show "set (favorites (find_filter_ids env st u)) = pv_uuid env ` ws_favorites (wishes_of st u)"
    "set (blacklist_products (find_filter_ids env st u)) = pv_uuid env ` ws_hidden (wishes_of st u)"
    "set (blacklist_producers (find_filter_ids env st u)) = pv_uuid env ` ws_makers (wishes_of st u)"
    by (auto simp: find_filter_ids_def wishes_of_def listed_def makers)
qed

lemma shown_not_hidden:
  assumes "report_pick prefs fav options (build_index rt gs) = Inr pk" and "p \<in> set (positions pk)"
    and "1 \<le> opt_page options" and "0 \<le> opt_per_page options"
  shows "p < length gs \<and> \<not> group_hidden prefs (gs ! p)"
proof -
  have "p \<in> set (visible_order (build_index rt gs) prefs fav (order_key (opt_sort options) (opt_order options)))"
    using assms(1,2) unfolding report_pick_built [OF assms(3,4) refl]
    by (auto simp: visible_page_def dest!: in_set_takeD in_set_dropD)
  then show ?thesis by (simp add: set_visible_built)
qed

lemma others_rows:
  "(\<And>i. w (row i) \<longleftrightarrow> False) \<Longrightarrow> filter w (insert_membership row is rs) = filter w rs"
  "(\<And>i. w (row i) \<longleftrightarrow> False) \<Longrightarrow> filter w (delete_membership row is rs) = filter w rs"
proof -
  assume none: "\<And>i. w (row i) \<longleftrightarrow> False"
  show "filter w (insert_membership row is rs) = filter w rs"
    unfolding insert_membership_def by (induction "is" arbitrary: rs) (auto simp: none)
  show "filter w (delete_membership row is rs) = filter w rs"
    unfolding delete_membership_def sql_delete_def filter_filter by (rule filter_cong) (auto simp: none)
qed

lemma others_see_the_same:
  assumes "change_preference env u req st = Inr st'" and "v \<noteq> u"
  shows "find_filter_ids env st' v = find_filter_ids env st v"
proof -
  have rows: "filter (\<lambda>x. ul_user x = v) (insert_membership (list_entry u) is xs) = filter (\<lambda>x. ul_user x = v) xs"
    "filter (\<lambda>x. ul_user x = v) (delete_membership (list_entry u) is xs) = filter (\<lambda>x. ul_user x = v) xs"
    "filter (\<lambda>m. mk_user m = v) (insert_membership (maker_entry u) is ms) = filter (\<lambda>m. mk_user m = v) ms"
    "filter (\<lambda>m. mk_user m = v) (delete_membership (maker_entry u) is ms) = filter (\<lambda>m. mk_user m = v) ms" for "is" xs ms
    using assms(2) by (intro others_rows; simp add: list_entry_def maker_entry_def)+
  show ?thesis
    using assms(1)
    by (cases req) (auto simp: find_filter_ids_def add_favorites_def remove_favorites_def add_to_blacklist_def
        remove_from_blacklist_def with_favorites_def with_hidden_def with_makers_def Let_def rows resolve_brand_ids_cases
        split: if_splits)
qed

section \<open>The property\<close>

text \<open>
  C19: what a user hides stays hidden, for this user alone. Once a request to hide bottlings and
  brands is answered, whatever requests any users send afterwards, as long as this user takes
  nothing off the blacklist, no page of any report read with this user's lists, in any order, with
  or without the favorites filter, shows a bottling named or one whose maker or bottler was named.
  The bottlings named are favorites no more, the request leaves the catalogue's constraints in place, and every
  other user's reports are filtered exactly as before.
\<close>
theorem hidden_stays_hidden:
  assumes "catalogue_ok (pr_catalogue st)"
    and "answer_preference env named u (Hide is brands) st = Inr (a, st1)"
    and "st2 = foldl (preference_step env) st1 later" and "\<not> list_ex (shows_again u) later"
    and "report_pick (find_filter_ids env st2 u) fav options (build_index rt gs) = Inr pk" and "p \<in> set (positions pk)"
    and "1 \<le> opt_page options" and "0 \<le> opt_per_page options"
  shows "(\<forall>i\<in>set (or_empty is). product_id (gs ! p) \<noteq> pv_uuid env i)
    \<and> (\<forall>m\<in>brand_ids env st brands. producer_id (gs ! p) \<noteq> Some (pv_uuid env m) \<and> bottler_id (gs ! p) \<noteq> Some (pv_uuid env m))
    \<and> ws_favorites (wishes_of st1 u) \<inter> set (or_empty is) = {} \<and> catalogue_ok (pr_catalogue st1)
    \<and> (\<forall>v. v \<noteq> u \<longrightarrow> find_filter_ids env st1 v = find_filter_ids env st v)"
proof -
  have change: "change_preference env u (Hide is brands) st = Inr st1" using assms(2) by (simp add: answer_cases)
  have w1: "wishes_of st1 u = request_effect env st (Hide is brands) (wishes_of st u)" using change_effect [OF change] by simp
  have "still_hidden (wishes_of st1 u) (wishes_of st2 u)" unfolding assms(3) by (rule steps_still_hidden [OF assms(4)])
  then have hidden: "set (or_empty is) \<subseteq> ws_hidden (wishes_of st2 u)" "brand_ids env st brands \<subseteq> ws_makers (wishes_of st2 u)"
    by (auto simp: still_hidden_def w1)
  have "\<not> group_hidden (find_filter_ids env st2 u) (gs ! p)" using shown_not_hidden [OF assms(5-8)] by blast
  then have "product_id (gs ! p) \<notin> pv_uuid env ` ws_hidden (wishes_of st2 u)"
    and "\<forall>m\<in>ws_makers (wishes_of st2 u). producer_id (gs ! p) \<noteq> Some (pv_uuid env m) \<and> bottler_id (gs ! p) \<noteq> Some (pv_uuid env m)"
    unfolding group_hidden_def filter_ids_conv by auto
  then show ?thesis
    using hidden w1 change_keeps_catalogue [OF change assms(1)] others_see_the_same [OF change] by (intro conjI) auto
qed

definition shop_preferences :: preference_state where
  "shop_preferences =
     \<lparr>pr_catalogue = shop\<lparr>ct_favorites := [list_entry 1 2, list_entry 4 2]\<rparr>, pr_makers = [],
      pr_producers = [\<lparr>lk_id = 8, lk_name = ''Arran''\<rparr>], pr_users = [1, 4]\<rparr>"

definition shop_preference_env :: preference_env where
  "shop_preference_env =
     \<lparr>pv_uuid = (\<lambda>i. if i = 1 then ''islay'' else if i = 2 then ''speyside'' else ''arran''), pv_js_lower = (\<lambda>s. s),
      pv_sql_lower = (\<lambda>s. s), pv_names = code_unit_compare, pv_favored_at = (\<lambda>_. 0), pv_hidden_at = (\<lambda>_. 0),
      pv_maker_hidden_at = (\<lambda>_. 0), pv_day = (\<lambda>_. ''2026-02-02'')\<rparr>"

definition shop_hiding :: preference_state where
  "shop_hiding = add_to_blacklist 1 [2] [8] shop_preferences"

definition shop_later :: "(bool \<times> row_id \<times> preference_request) list" where
  "shop_later = [(False, 4, Unhide (Some [2]) None), (False, 1, Add_Favorites [2]), (True, 5, Hide (Some [1]) None)]"

text \<open>The bottling hidden stays off the page, though its user favorites it again, which the requests allow.\<close>
lemma hidden_stays_hidden_witness:
  "product_id (demo_groups ! 0) \<noteq> ''speyside'' \<and> producer_id (demo_groups ! 0) \<noteq> Some ''arran''
    \<and> map ul_product (filter (\<lambda>x. ul_user x = 1) (ct_favorites (pr_catalogue shop_hiding))) = []
    \<and> map ul_product (filter (\<lambda>x. ul_user x = 1)
        (ct_favorites (pr_catalogue (foldl (preference_step shop_preference_env) shop_hiding shop_later)))) = [2]"
proof -
  let ?env = shop_preference_env
  let ?later = "foldl (preference_step ?env) shop_hiding shop_later"
  have ok: "catalogue_ok (pr_catalogue shop_preferences)"
    using shop_ok by (simp add: catalogue_ok_def shop_preferences_def user_list_ok_def list_entry_def product_ids_def shop_def
        shop_product_def)
  have "change_preference ?env 1 (Hide (Some [2]) (Some [''Arran''])) shop_preferences = Inr shop_hiding" by code_simp
  moreover have "\<not> refusal ?env True 1 (Hide (Some [2]) (Some [''Arran''])) shop_preferences" by code_simp
  ultimately have hide: "answer_preference ?env True 1 (Hide (Some [2]) (Some [''Arran''])) shop_preferences
      = Inr (find_preference ?env shop_hiding 1, shop_hiding)" by (simp add: answer_cases)
  have quiet: "\<not> list_ex (shows_again 1) shop_later" by (simp add: shop_later_def)
  have lists: "find_filter_ids ?env ?later 1
      = \<lparr>favorites = [''speyside''], blacklist_products = [''speyside''], blacklist_producers = [''arran'']\<rparr>" by code_simp
  have vis: "visible_order (build_index demo_runtime demo_groups) (find_filter_ids ?env ?later 1) None Natural = [0]"
    unfolding lists by code_simp
  have pick: "report_pick (find_filter_ids ?env ?later 1) None demo_options (build_index demo_runtime demo_groups)
      = Inr \<lparr>positions = [0], pick_total = 1\<rparr>"
    using report_pick_built [of demo_options, OF _ _ refl, of "find_filter_ids ?env ?later 1" None demo_runtime demo_groups] vis
    by (simp add: demo_options_def order_key_def visible_page_def)
  have brand: "brand_ids ?env shop_preferences (Some [''Arran'']) = {8}" by code_simp
  note shown = hidden_stays_hidden [OF ok hide refl quiet pick, of 0]
  have "map ul_product (filter (\<lambda>x. ul_user x = 1) (ct_favorites (pr_catalogue shop_hiding))) = []"
    "map ul_product (filter (\<lambda>x. ul_user x = 1) (ct_favorites (pr_catalogue ?later))) = [2]" by code_simp+
  moreover have "pv_uuid ?env 2 = ''speyside''" "pv_uuid ?env 8 = ''arran''" by (simp_all add: shop_preference_env_def)
  moreover have "1 \<le> opt_page demo_options" "0 \<le> opt_per_page demo_options" by (simp_all add: demo_options_def)
  ultimately show ?thesis using shown by (simp add: or_empty_def brand)
qed

end
