(* ===== verification/Currency_Utils.thy ===== *)
theory Currency_Utils
  imports Js_Date Js_String
begin

text \<open>
  \<open>src/src/utils/currency.util.ts\<close>: conversion through the hryvnia, UTC day arithmetic, the mapping of
  a row of the national bank's answer onto a storable rate, the filling of unpublished days and the
  split of a day range by calendar year.  Amounts and rates are rationals, so the finiteness
  half of \<open>isPositive\<close> is vacuous; \<open>trim\<close> and \<open>toUpperCase\<close> are written out for ASCII.  A \<open>throw\<close> is
  \<open>Inl\<close>; the \<open>while\<close> of \<open>splitByYear\<close> is a partial function whose \<open>None\<close> is not returning.
\<close>

datatype currency_error =
    Invalid_Source_Rate rat | Invalid_Target_Rate rat | Invalid_Date string | Invalid_Time
  | Unexpected_Wire_Date string | Bad_Units rat | Bad_Rate rat | Row_Disagrees rat rat | Several_Currencies "string list"

record nbu_rate_row =
  exchangedate :: string
  cc :: string
  nbu_rate :: rat
  nbu_units :: rat
  rate_per_unit :: rat

record currency_rate_input =
  rate_code :: string
  rate_value :: rat
  effective_on :: string

section \<open>Strings\<close>

definition upper_char :: "char \<Rightarrow> char" where
  "upper_char c = (let n = (of_char c :: nat) in if 97 \<le> n \<and> n \<le> 122 then char_of (n - 32) else c)"

definition normal_code :: "string \<Rightarrow> string" where
  \<comment> \<open>\<open>code.trim().toUpperCase()\<close>\<close>
  "normal_code s = map upper_char (js_trim s)"

section \<open>Arithmetic\<close>

definition rate_scale :: nat where "rate_scale = 6"

definition converted_amount_scale :: nat where "converted_amount_scale = 2"

definition rate_identity_tolerance :: rat where "rate_identity_tolerance = 1 / 10 ^ 9"

definition is_positive :: "rat \<Rightarrow> bool" where "is_positive v = (v > 0)"

definition round_to :: "rat \<Rightarrow> nat \<Rightarrow> rat" where
  "round_to v scale = (let factor = 10 ^ scale in of_int (js_round (v * factor)) / factor)"

definition round_amount :: "rat \<Rightarrow> rat" where "round_amount v = round_to v converted_amount_scale"

definition convert_amount :: "rat \<Rightarrow> rat \<Rightarrow> rat \<Rightarrow> currency_error + rat" where
  "convert_amount amount from_rate to_rate =
     (if \<not> is_positive from_rate then Inl (Invalid_Source_Rate from_rate)
      else if \<not> is_positive to_rate then Inl (Invalid_Target_Rate to_rate)
      else Inr (round_amount (amount * from_rate / to_rate)))"

section \<open>Days\<close>

definition parse_currency_day :: "string \<Rightarrow> currency_error + int" where
  "parse_currency_day day = (case parse_day day of None \<Rightarrow> Inl (Invalid_Date day) | Some t \<Rightarrow> Inr t)"

definition shift_days :: "string \<Rightarrow> int \<Rightarrow> currency_error + string" where
  "shift_days day delta =
     (case parse_currency_day day of
        Inl e \<Rightarrow> Inl e
      | Inr t \<Rightarrow> (case iso_day (t + delta) of None \<Rightarrow> Inl Invalid_Time | Some s \<Rightarrow> Inr s))"

definition days_spanned :: "string \<Rightarrow> string \<Rightarrow> currency_error + int" where
  \<comment> \<open>\<open>daysBetween\<close>, both ends included\<close>
  "days_spanned from until =
     (case parse_currency_day from of
        Inl e \<Rightarrow> Inl e
      | Inr a \<Rightarrow> (case parse_currency_day until of Inl e \<Rightarrow> Inl e | Inr b \<Rightarrow> Inr (b - a + 1)))"

definition to_query_date :: "string \<Rightarrow> currency_error + string" where
  "to_query_date day = (if \<not> iso_shape day then Inl (Invalid_Date day) else Inr (filter (\<lambda>c. c \<noteq> CHR ''-'') day))"

definition wire_shape :: "string \<Rightarrow> bool" where
  \<comment> \<open>two digits, a dot, two digits, a dot, four digits\<close>
  "wire_shape s = (length s = 10 \<and> s ! 2 = CHR ''.'' \<and> s ! 5 = CHR ''.''
     \<and> list_all is_digit (take 2 s) \<and> list_all is_digit (take 2 (drop 3 s)) \<and> list_all is_digit (drop 6 s))"

definition from_wire_date :: "string \<Rightarrow> currency_error + string" where
  "from_wire_date wire =
     (if \<not> wire_shape wire then Inl (Unexpected_Wire_Date wire)
      else Inr (drop 6 wire @ ''-'' @ take 2 (drop 3 wire) @ ''-'' @ take 2 wire))"

section \<open>A row of the bank's answer\<close>

definition normalize_row :: "nbu_rate_row \<Rightarrow> currency_error + currency_rate_input" where
  "normalize_row row =
     (if \<not> is_positive (nbu_units row) then Inl (Bad_Units (nbu_units row))
      else if \<not> is_positive (nbu_rate row) then Inl (Bad_Rate (nbu_rate row))
      else let per_unit = nbu_rate row / nbu_units row; stated = rate_per_unit row
           in if \<bar>per_unit - stated\<bar> > rate_identity_tolerance then Inl (Row_Disagrees per_unit stated)
              else case from_wire_date (exchangedate row) of
                     Inl e \<Rightarrow> Inl e
                   | Inr day \<Rightarrow> Inr \<lparr>rate_code = normal_code (cc row), rate_value = round_to per_unit rate_scale,
                                    effective_on = day\<rparr>)"

section \<open>Filling the unpublished days\<close>

fun traverse :: "('a \<Rightarrow> 'x + 'b) \<Rightarrow> 'a list \<Rightarrow> 'x + 'b list" where
  \<comment> \<open>\<open>map\<close> with a callback that may throw\<close>
  "traverse f [] = Inr []"
| "traverse f (x # xs) =
     (case f x of
        Inl e \<Rightarrow> Inl e
      | Inr y \<Rightarrow> (case traverse f xs of Inl e \<Rightarrow> Inl e | Inr ys \<Rightarrow> Inr (y # ys)))"

definition bridge :: "currency_rate_input \<Rightarrow> string \<Rightarrow> currency_error + currency_rate_input list" where
  "bridge previous next_day =
     (case days_spanned (effective_on previous) next_day of
        Inl e \<Rightarrow> Inl e
      | Inr days \<Rightarrow>
          let missing = days - 2
          in if missing < 1 then Inr []
             else traverse (\<lambda>offset. case shift_days (effective_on previous) (int offset + 1) of
                      Inl e \<Rightarrow> Inl e
                    | Inr day \<Rightarrow> Inr \<lparr>rate_code = rate_code previous, rate_value = rate_value previous, effective_on = day\<rparr>)
                    [0..<nat missing])"

fun fill_from :: "currency_rate_input option \<Rightarrow> currency_rate_input list \<Rightarrow> currency_error + currency_rate_input list" where
  \<comment> \<open>the body of the \<open>forEach\<close>, with the rate before the current one\<close>
  "fill_from previous [] = Inr []"
| "fill_from previous (r # rs) =
     (case (case previous of None \<Rightarrow> Inr [] | Some p \<Rightarrow> bridge p (effective_on r)) of
        Inl e \<Rightarrow> Inl e
      | Inr carried \<Rightarrow> (case fill_from (Some r) rs of Inl e \<Rightarrow> Inl e | Inr rest \<Rightarrow> Inr (carried @ r # rest)))"

definition day_compare :: "currency_rate_input \<Rightarrow> currency_rate_input \<Rightarrow> rat" where
  "day_compare l r = (if effective_on l < effective_on r then -1 else 1)"

definition fill_gaps :: "currency_rate_input list \<Rightarrow> currency_error + currency_rate_input list" where
  "fill_gaps rates =
     (if length rates < 2 then Inr rates
      else let codes = js_set (map rate_code rates)
           in if length codes > 1 then Inl (Several_Currencies codes)
              else fill_from None (js_sort day_compare rates))"

section \<open>Splitting a range\<close>

partial_function (option) split_by_year ::
  "string \<Rightarrow> string \<Rightarrow> (currency_error + (string \<times> string) list) option" where
  "split_by_year cursor until =
     (if \<not> cursor \<le> until then Some (Inr [])
      else let year_end = take 4 cursor @ ''-12-31'';
               chunk_end = (if year_end < until then year_end else until)
           in case shift_days chunk_end 1 of
                Inl e \<Rightarrow> Some (Inl e)
              | Inr next_day \<Rightarrow>
                  Option.bind (split_by_year next_day until)
                    (\<lambda>rest. Some (case rest of Inl e \<Rightarrow> Inl e | Inr chunks \<Rightarrow> Inr ((cursor, chunk_end) # chunks))))"

end
