(* ===== verification/Currency_Rates.thy ===== *)
theory Currency_Rates
  imports Currency_Utils
begin

text \<open>
  The stored currencies and rates: \<open>CoreCurrencyService\<close> and the two repositories under
  \<open>src/src/core/currency\<close>.  The two tables are the lists of their rows, and a statement of the
  repository is the function its SQL text describes: the multi-row insert with its \<open>ON CONFLICT\<close>
  clause is refused as a whole when a row repeats a key or has no currency, and the lateral probe
  takes the latest row on or before the asked day, or nulls.  Days are stored as canonical ISO days,
  which the \<open>date\<close> column orders as strings; a stored rate is already rounded to the column's scale.
\<close>

record currency_row =
  currency_id :: string
  currency_code :: string
  numeric_code :: int
  name_ua :: string
  currency_symbol :: string
  is_base :: bool
  currency_active :: bool

record rate_row =
  row_currency :: "string option"
  row_rate :: rat
  row_day :: string

record rate_db =
  currencies :: "currency_row list"
  rate_rows :: "rate_row list"

record rate_probe =
  probe_code :: string
  requested_on :: string
  probe_effective :: "string option"
  probe_rate :: "rat option"

datatype currency_failure =
    Helper currency_error
  | Unknown_Codes "string list" | No_Codes | Base_Codes "string list" | No_Base
  | Not_A_Number | Inverted string string | Too_Long int | Unavailable | Statement_Refused
  | Wrong_Currency string string | Non_Array | Bad_Row

section \<open>Currencies\<close>

definition base_first :: "currency_row list \<Rightarrow> currency_row list" where
  \<comment> \<open>\<open>ORDER BY isBase DESC, code ASC\<close>\<close>
  "base_first cs = sort_key (\<lambda>c. if is_base c then 0 else 1 :: nat) (sort_key currency_code cs)"

definition find_all :: "rate_db \<Rightarrow> currency_row list" where
  "find_all db = base_first (currencies db)"

definition find_active :: "rate_db \<Rightarrow> currency_row list" where
  "find_active db = base_first (filter currency_active (currencies db))"

definition wanted_codes :: "string list \<Rightarrow> string list" where
  "wanted_codes codes = js_set (filter (\<lambda>c. c \<noteq> []) (map normal_code codes))"

definition find_by_codes :: "rate_db \<Rightarrow> string list \<Rightarrow> currency_row list" where
  "find_by_codes db codes =
     (let wanted = wanted_codes codes
      in if wanted = [] then [] else filter (\<lambda>c. currency_code c \<in> set wanted) (currencies db))"

definition resolve_ids :: "rate_db \<Rightarrow> string list \<Rightarrow> currency_failure + (string \<times> string) list" where
  "resolve_ids db codes =
     (let wanted = js_set (map normal_code codes);
          ids = js_index currency_code (find_by_codes db wanted);
          unknown = filter (\<lambda>c. js_get ids c = None) wanted
      in if unknown \<noteq> [] then Inl (Unknown_Codes unknown) else Inr (map (apsnd currency_id) ids))"

section \<open>Writing rates\<close>

definition upsert_chunk_size :: nat where "upsert_chunk_size = 1000"

definition probe_chunk_size :: nat where "probe_chunk_size = 500"

definition row_key :: "rate_row \<Rightarrow> string" where
  \<comment> \<open>\<open>${currencyId}|${effectiveOn}\<close>\<close>
  "row_key r = (case row_currency r of None \<Rightarrow> ''undefined'' | Some i \<Rightarrow> i) @ ''|'' @ row_day r"

definition dedupe :: "rate_row list \<Rightarrow> rate_row list" where
  "dedupe rs = map snd (js_index row_key rs)"

definition same_row :: "rate_row \<Rightarrow> rate_row \<Rightarrow> bool" where
  \<comment> \<open>the unique index of the table\<close>
  "same_row r s = (row_currency r = row_currency s \<and> row_day r = row_day s)"

fun upsert_row :: "rate_row \<Rightarrow> rate_row list \<Rightarrow> rate_row list" where
  "upsert_row r [] = [r]"
| "upsert_row r (s # ss) = (if same_row r s then r # ss else s # upsert_row r ss)"

fun repeats_row :: "rate_row list \<Rightarrow> bool" where
  "repeats_row [] = False"
| "repeats_row (r # rs) = (list_ex (same_row r) rs \<or> repeats_row rs)"

definition upsert_chunk :: "rate_row list \<Rightarrow> rate_db \<Rightarrow> (currency_failure + unit) \<times> rate_db" where
  \<comment> \<open>one statement: all of its rows, or none of them\<close>
  "upsert_chunk chunk db =
     (if list_ex (\<lambda>r. row_currency r = None) chunk \<or> repeats_row chunk then (Inl Statement_Refused, db)
      else (Inr (), db\<lparr>rate_rows := foldl (\<lambda>t r. upsert_row r t) (rate_rows db) chunk\<rparr>))"

fun upsert_chunks :: "rate_row list list \<Rightarrow> rate_db \<Rightarrow> (currency_failure + unit) \<times> rate_db" where
  "upsert_chunks [] db = (Inr (), db)"
| "upsert_chunks (c # cs) db =
     (case upsert_chunk c db of (Inl e, db') \<Rightarrow> (Inl e, db') | (Inr _, db') \<Rightarrow> upsert_chunks cs db')"

definition upsert_many :: "rate_row list \<Rightarrow> rate_db \<Rightarrow> (currency_failure + nat) \<times> rate_db" where
  "upsert_many rs db =
     (let rows = dedupe rs
      in if rows = [] then (Inr 0, db)
         else case upsert_chunks (chunkify upsert_chunk_size rows) db of
                (Inl e, db') \<Rightarrow> (Inl e, db')
              | (Inr _, db') \<Rightarrow> (Inr (length rows), db'))"

definition upsert_rates :: "currency_rate_input list \<Rightarrow> rate_db \<Rightarrow> (currency_failure + nat) \<times> rate_db" where
  "upsert_rates rs db =
     (if rs = [] then (Inr 0, db)
      else case resolve_ids db (map rate_code rs) of
             Inl e \<Rightarrow> (Inl e, db)
           | Inr ids \<Rightarrow>
               upsert_many (map (\<lambda>r. \<lparr>row_currency = js_get ids (rate_code r), row_rate = rate_value r,
                                      row_day = effective_on r\<rparr>) rs) db)"

section \<open>Reading rates\<close>

definition dedupe_pairs :: "(string \<times> string) list \<Rightarrow> (string \<times> string) list" where
  "dedupe_pairs pairs =
     map snd (js_index (\<lambda>(code, day). code @ ''|'' @ day) (map (\<lambda>(code, day). (normal_code code, day)) pairs))"

fun latest_row :: "rate_row list \<Rightarrow> rate_row option" where
  \<comment> \<open>\<open>ORDER BY effectiveOn DESC LIMIT 1\<close>\<close>
  "latest_row [] = None"
| "latest_row (r # rs) =
     (case latest_row rs of None \<Rightarrow> Some r | Some s \<Rightarrow> Some (if row_day r < row_day s then s else r))"

definition probe_pair :: "rate_db \<Rightarrow> string \<times> string \<Rightarrow> rate_probe" where
  "probe_pair db pair =
     (case pair of (code, day) \<Rightarrow>
        let found = Option.bind (find (\<lambda>c. currency_code c = code) (currencies db))
              (\<lambda>c. latest_row (filter (\<lambda>r. row_currency r = Some (currency_id c) \<and> row_day r \<le> day) (rate_rows db)))
        in \<lparr>probe_code = code, requested_on = day, probe_effective = map_option row_day found,
            probe_rate = map_option row_rate found\<rparr>)"

definition probe_chunk :: "rate_db \<Rightarrow> (string \<times> string) list \<Rightarrow> rate_probe list" where
  "probe_chunk db chunk = map (probe_pair db) chunk"

definition probe_rates :: "rate_db \<Rightarrow> (string \<times> string) list \<Rightarrow> rate_probe list" where
  "probe_rates db pairs =
     (let wanted = dedupe_pairs pairs
      in if wanted = [] then [] else concat (map (probe_chunk db) (chunkify probe_chunk_size wanted)))"

definition find_series :: "rate_db \<Rightarrow> string \<Rightarrow> string \<Rightarrow> string \<Rightarrow> (string \<times> rat) list" where
  "find_series db code from until =
     (case find (\<lambda>c. currency_code c = code) (currencies db) of
        None \<Rightarrow> []
      | Some c \<Rightarrow>
          sort_key fst (map (\<lambda>r. (row_day r, row_rate r))
            (filter (\<lambda>r. row_currency r = Some (currency_id c) \<and> from \<le> row_day r \<and> row_day r \<le> until) (rate_rows db))))"

definition find_latest :: "rate_db \<Rightarrow> (string \<times> string \<times> rat) list" where
  \<comment> \<open>code, day and rate; a currency without a rate has no row\<close>
  "find_latest db =
     concat (map (\<lambda>c. case latest_row (filter (\<lambda>r. row_currency r = Some (currency_id c)) (rate_rows db)) of
                        None \<Rightarrow> []
                      | Some r \<Rightarrow> [(currency_code c, row_day r, row_rate r)])
                 (sort_key currency_code (currencies db)))"

section \<open>Facts\<close>

lemma concat_map_chunkify: "0 < k \<Longrightarrow> concat (map (map f) (chunkify k xs)) = map f xs"
  by (metis concat_chunkify map_concat)

lemma probe_rates_conv: "probe_rates db pairs = map (probe_pair db) (dedupe_pairs pairs)"
proof -
  have "probe_chunk db = map (probe_pair db)" by (rule ext) (simp add: probe_chunk_def)
  then show ?thesis by (simp add: probe_rates_def Let_def concat_map_chunkify probe_chunk_size_def)
qed

lemma upsert_chunks_success:
  assumes "\<forall>r\<in>set (concat cs). row_currency r \<noteq> None" and "\<not> repeats_row (concat cs)"
  shows "upsert_chunks cs db = (Inr (), db\<lparr>rate_rows := foldl (\<lambda>t r. upsert_row r t) (rate_rows db) (concat cs)\<rparr>)"
proof -
  have "repeats_row (xs @ ys) \<longleftrightarrow> repeats_row xs \<or> repeats_row ys \<or> (\<exists>x\<in>set xs. list_ex (same_row x) ys)" for xs ys
    by (induction xs) (auto simp: list_ex_iff)
  then show ?thesis
    using assms by (induction cs arbitrary: db) (auto simp: upsert_chunk_def list_ex_iff)
qed

end
