(* ===== verification/Collection.thy ===== *)
theory Collection
  imports Preferences Offer_Price Currency_Rates
begin

text \<open>
  A user's collection (domain/collection, core/user-collection): the rows with what a person keeps
  about a bottling, their purchases, the requests that write them and the composed item they answer,
  and the range and currency of the statistics screen. What the current-rows statement answers for
  an offer, the moments rows were created and the day are the record \<open>shelf_env\<close>; an absent field of a
  request is \<open>None\<close>, and a column of a patch is \<open>Some None\<close> when it is cleared. The request classes
  have already checked lengths, ratings and prices.
\<close>

record store_info =
  si_id :: row_id
  si_slug :: string
  si_name :: string
  si_color :: "string option"

record shelf_env =
  sh_stores :: "store_info list"
  sh_rates :: rate_db
  sh_offer :: "row_id \<Rightarrow> (row_id \<times> report_current_row) option"
  sh_offers_of :: "row_id \<Rightarrow> report_current_row list"
  sh_row_created :: "row_id \<Rightarrow> int"
  sh_purchase_created :: "row_id \<Rightarrow> int"
  sh_collate :: "string \<Rightarrow> string \<Rightarrow> rat"
  sh_today :: string

datatype shelf_error =
  Shelf_Unknown_Product row_id
| Shelf_Unknown_Offer row_id
| Shelf_Offer_Elsewhere row_id
| Shelf_Two_Stores
| Shelf_Unknown_Store string
| Shelf_Already_Held row_id
| Shelf_Item_Not_Found row_id
| Shelf_Purchase_Not_Found row_id
| Shelf_Contradiction row_id

section \<open>Requests\<close>

record purchase_input =
  bi_purchased_on :: "string option"
  bi_price :: "rat option"
  bi_store_slug :: "string option"
  bi_store_name :: "string option"
  bi_offer :: "row_id option"

record purchase_change =
  bc_id :: row_id
  bc_purchased_on :: "string option"
  bc_price :: "rat option"
  bc_clear_price :: bool
  bc_store_slug :: "string option"
  bc_store_name :: "string option"
  bc_clear_store :: bool

record purchases_patch =
  bp_add :: "purchase_input list"
  bp_update :: "purchase_change list"
  bp_remove :: "row_id list"

record shelf_fields =
  sf_rating :: "rat option"
  sf_barcode :: "string option"
  sf_notes :: "string option"
  sf_nose :: "string option"
  sf_palate :: "string option"
  sf_finish :: "string option"

record shelf_create =
  sc_product :: row_id
  sc_fields :: shelf_fields
  sc_purchase :: "purchase_input option"

record shelf_update =
  su_fields :: shelf_fields
  su_clear_rating :: bool
  su_purchases :: "purchases_patch option"

datatype shelf_request = Shelf_Create shelf_create | Shelf_Update row_id shelf_update | Shelf_Remove row_id

section \<open>Resolved values\<close>

record row_patch =
  rw_rating :: "rat option option"
  rw_barcode :: "string option option"
  rw_notes :: "string option option"
  rw_nose :: "string option option"
  rw_palate :: "string option option"
  rw_finish :: "string option option"

record purchase_patch =
  pw_purchased_on :: "string option"
  pw_price :: "rat option option"
  pw_store :: "row_id option option"
  pw_store_name :: "string option option"
  pw_offer :: "row_id option option"

definition truthy_text :: "string option \<Rightarrow> bool" where
  "truthy_text s \<longleftrightarrow> s \<noteq> None \<and> s \<noteq> Some []"

definition to_create_row :: "shelf_fields \<Rightarrow> row_patch" where
  "to_create_row f =
     \<lparr>rw_rating = map_option Some (sf_rating f), rw_barcode = map_option Some (sf_barcode f),
      rw_notes = map_option Some (sf_notes f), rw_nose = map_option Some (sf_nose f),
      rw_palate = map_option Some (sf_palate f), rw_finish = map_option Some (sf_finish f)\<rparr>"

definition text_patch :: "string option \<Rightarrow> string option option" where
  "text_patch s = map_option (\<lambda>t. if t = [] then None else Some t) s"

definition to_update_row :: "shelf_update \<Rightarrow> row_patch" where
  "to_update_row up =
     (let f = su_fields up
      in \<lparr>rw_rating = (if su_clear_rating up then Some None else map_option Some (sf_rating f)),
          rw_barcode = text_patch (sf_barcode f), rw_notes = text_patch (sf_notes f), rw_nose = text_patch (sf_nose f),
          rw_palate = text_patch (sf_palate f), rw_finish = text_patch (sf_finish f)\<rparr>)"

definition patched :: "'a option \<Rightarrow> 'a \<Rightarrow> 'a" where
  "patched v old = (case v of None \<Rightarrow> old | Some x \<Rightarrow> x)"

definition patch_collection_row :: "row_patch \<Rightarrow> collection_row \<Rightarrow> collection_row" where
  "patch_collection_row v c =
     c\<lparr>co_rating := patched (rw_rating v) (co_rating c), co_barcode := patched (rw_barcode v) (co_barcode c),
       co_notes := patched (rw_notes v) (co_notes c), co_nose := patched (rw_nose v) (co_nose c),
       co_palate := patched (rw_palate v) (co_palate c), co_finish := patched (rw_finish v) (co_finish c)\<rparr>"

definition patch_purchase_row :: "purchase_patch \<Rightarrow> purchase_row \<Rightarrow> purchase_row" where
  "patch_purchase_row v p =
     p\<lparr>pu_purchased_on := patched (pw_purchased_on v) (pu_purchased_on p), pu_price := patched (pw_price v) (pu_price p),
       pu_store := patched (pw_store v) (pu_store p), pu_store_name := patched (pw_store_name v) (pu_store_name p),
       pu_offer := patched (pw_offer v) (pu_offer p)\<rparr>"

section \<open>What a purchase names\<close>

definition resolve_store_id :: "shelf_env \<Rightarrow> string \<Rightarrow> shelf_error + row_id" where
  "resolve_store_id env slug =
     (case find (\<lambda>s. si_slug s = slug) (sh_stores env) of None \<Rightarrow> Inl (Shelf_Unknown_Store slug) | Some s \<Rightarrow> Inr (si_id s))"

definition load_purchase_offer :: "shelf_env \<Rightarrow> row_id \<Rightarrow> row_id \<Rightarrow> shelf_error + report_current_row" where
  "load_purchase_offer env i expected =
     (case sh_offer env i of
        None \<Rightarrow> Inl (Shelf_Unknown_Offer i)
      | Some (pid, row) \<Rightarrow> if pid \<noteq> expected then Inl (Shelf_Offer_Elsewhere i) else Inr row)"

definition resolve_purchase :: "shelf_env \<Rightarrow> purchase_input \<Rightarrow> row_id \<Rightarrow> shelf_error + purchase_patch" where
  "resolve_purchase env inp expected =
     (case (case bi_offer inp of None \<Rightarrow> Inr None
            | Some i \<Rightarrow> (case load_purchase_offer env i expected of Inl e \<Rightarrow> Inl e | Inr row \<Rightarrow> Inr (Some row))) of
        Inl e \<Rightarrow> Inl e
      | Inr offer \<Rightarrow>
          if truthy_text (bi_store_slug inp) \<and> truthy_text (bi_store_name inp) then Inl Shelf_Two_Stores
          else (let names_no_store = \<not> truthy_text (bi_store_slug inp) \<and> \<not> truthy_text (bi_store_name inp);
                    slug = coalesce (bi_store_slug inp) (if names_no_store then map_option store_slug offer else None);
                    values = (\<lambda>store. \<lparr>pw_purchased_on = bi_purchased_on inp,
                        pw_price = map_option Some (coalesce (bi_price inp) (map_option price offer)),
                        pw_store = map_option Some store, pw_store_name = map_option Some (bi_store_name inp),
                        pw_offer = map_option Some (bi_offer inp)\<rparr>)
                in if truthy_text slug
                   then (case resolve_store_id env (the slug) of Inl e \<Rightarrow> Inl e | Inr i \<Rightarrow> Inr (values (Some i)))
                   else Inr (values None)))"

definition to_purchase_update_row :: "shelf_env \<Rightarrow> purchase_change \<Rightarrow> shelf_error + purchase_patch" where
  "to_purchase_update_row env ch =
     (if truthy_text (bc_store_slug ch) \<and> truthy_text (bc_store_name ch) then Inl Shelf_Two_Stores
      else (let values = (\<lambda>store name. \<lparr>pw_purchased_on = bc_purchased_on ch,
                pw_price = (if bc_clear_price ch then Some None else map_option Some (bc_price ch)),
                pw_store = store, pw_store_name = name, pw_offer = None\<rparr>)
            in if bc_clear_store ch then Inr (values (Some None) (Some None))
               else (case bc_store_slug ch of
                       Some slug \<Rightarrow> (case resolve_store_id env slug of
                           Inl e \<Rightarrow> Inl e | Inr i \<Rightarrow> Inr (values (Some (Some i)) (Some None)))
                     | None \<Rightarrow> (case bc_store_name ch of
                           Some name \<Rightarrow> Inr (values (Some None) (Some (Some name)))
                         | None \<Rightarrow> Inr (values None None)))))"

section \<open>The tables\<close>

definition owned_row :: "catalogue \<Rightarrow> row_id \<Rightarrow> row_id \<Rightarrow> collection_row option" where
  \<comment> \<open>WHERE id = and userId =, with the bottling joined\<close>
  "owned_row db i u =
     find (\<lambda>c. co_id c = i \<and> co_user c = u \<and> product_by_id db (co_product c) \<noteq> None) (ct_collection db)"

definition blank_row :: "row_id \<Rightarrow> row_id \<Rightarrow> row_id \<Rightarrow> collection_row" where
  "blank_row n u i =
     \<lparr>co_id = n, co_user = u, co_product = i, co_rating = None, co_barcode = None, co_notes = None, co_nose = None,
      co_palate = None, co_finish = None\<rparr>"

definition create_for_user :: "row_id \<Rightarrow> row_id \<Rightarrow> row_patch \<Rightarrow> catalogue \<Rightarrow> shelf_error + row_id \<times> catalogue" where
  "create_for_user u i v db =
     (if \<exists>c\<in>set (ct_collection db). co_user c = u \<and> co_product c = i then Inl (Shelf_Already_Held i)
      else Inr (ct_next db, db\<lparr>ct_collection := ct_collection db @ [patch_collection_row v (blank_row (ct_next db) u i)],
             ct_next := ct_next db + 1\<rparr>))"

definition empty_row_patch :: row_patch where
  "empty_row_patch = \<lparr>rw_rating = None, rw_barcode = None, rw_notes = None, rw_nose = None, rw_palate = None, rw_finish = None\<rparr>"

definition update_for_user :: "row_id \<Rightarrow> row_id \<Rightarrow> row_patch \<Rightarrow> catalogue \<Rightarrow> shelf_error + catalogue" where
  "update_for_user u i v db =
     (if v = empty_row_patch then Inr db
      else if sql_affected (\<lambda>c. co_id c = i \<and> co_user c = u) (ct_collection db) = 0 then Inl (Shelf_Item_Not_Found i)
      else Inr (db\<lparr>ct_collection := sql_update (\<lambda>c. co_id c = i \<and> co_user c = u) (patch_collection_row v) (ct_collection db)\<rparr>))"

definition delete_for_user :: "row_id \<Rightarrow> row_id \<Rightarrow> catalogue \<Rightarrow> shelf_error + catalogue" where
  \<comment> \<open>the purchases cascade\<close>
  "delete_for_user u i db =
     (let hit = (\<lambda>c. co_id c = i \<and> co_user c = u)
      in if sql_affected hit (ct_collection db) = 0 then Inl (Shelf_Item_Not_Found i)
         else Inr (db\<lparr>ct_collection := sql_delete hit (ct_collection db),
                ct_purchases := sql_delete (\<lambda>p. \<exists>c\<in>set (ct_collection db). hit c \<and> co_id c = pu_collection p) (ct_purchases db)\<rparr>))"

definition blank_purchase :: "shelf_env \<Rightarrow> row_id \<Rightarrow> row_id \<Rightarrow> purchase_row" where
  \<comment> \<open>the day defaults to CURRENT_DATE\<close>
  "blank_purchase env n i =
     \<lparr>pu_id = n, pu_collection = i, pu_purchased_on = sh_today env, pu_price = None, pu_store = None, pu_store_name = None,
      pu_offer = None\<rparr>"

definition create_for_collection :: "shelf_env \<Rightarrow> row_id \<Rightarrow> purchase_patch \<Rightarrow> catalogue \<Rightarrow> catalogue" where
  "create_for_collection env i v db =
     db\<lparr>ct_purchases := ct_purchases db @
          [patch_purchase_row v (blank_purchase env (ct_next db) i)],
        ct_next := ct_next db + 1\<rparr>"

definition empty_purchase_patch :: purchase_patch where
  "empty_purchase_patch = \<lparr>pw_purchased_on = None, pw_price = None, pw_store = None, pw_store_name = None, pw_offer = None\<rparr>"

definition update_for_collection :: "row_id \<Rightarrow> row_id \<Rightarrow> purchase_patch \<Rightarrow> catalogue \<Rightarrow> shelf_error + catalogue" where
  "update_for_collection i pid v db =
     (let hit = (\<lambda>p. pu_id p = pid \<and> pu_collection p = i)
      in if sql_affected hit (ct_purchases db) = 0 then Inl (Shelf_Purchase_Not_Found pid)
         else if v = empty_purchase_patch then Inr db
         else Inr (db\<lparr>ct_purchases := sql_update hit (patch_purchase_row v) (ct_purchases db)\<rparr>))"

definition delete_for_collection :: "row_id \<Rightarrow> row_id \<Rightarrow> catalogue \<Rightarrow> shelf_error + catalogue" where
  "delete_for_collection i pid db =
     (let hit = (\<lambda>p. pu_id p = pid \<and> pu_collection p = i)
      in if sql_affected hit (ct_purchases db) = 0 then Inl (Shelf_Purchase_Not_Found pid)
         else Inr (db\<lparr>ct_purchases := sql_delete hit (ct_purchases db)\<rparr>))"

section \<open>Changes to the purchases of a row\<close>

fun each :: "('x \<Rightarrow> catalogue \<Rightarrow> shelf_error + catalogue) \<Rightarrow> 'x list \<Rightarrow> catalogue \<Rightarrow> shelf_error + catalogue" where
  \<comment> \<open>one after the other, up to the first that throws\<close>
  "each f [] db = Inr db"
| "each f (x # xs) db = (case f x db of Inl e \<Rightarrow> Inl e | Inr db' \<Rightarrow> each f xs db')"

definition apply_change :: "shelf_env \<Rightarrow> row_id \<Rightarrow> purchase_change \<Rightarrow> catalogue \<Rightarrow> shelf_error + catalogue" where
  "apply_change env i ch db =
     (case to_purchase_update_row env ch of Inl e \<Rightarrow> Inl e | Inr v \<Rightarrow> update_for_collection i (bc_id ch) v db)"

definition apply_addition :: "shelf_env \<Rightarrow> collection_row \<Rightarrow> purchase_input \<Rightarrow> catalogue \<Rightarrow> shelf_error + catalogue" where
  "apply_addition env row inp db =
     (case resolve_purchase env inp (co_product row) of
        Inl e \<Rightarrow> Inl e | Inr v \<Rightarrow> Inr (create_for_collection env (co_id row) v db))"

definition apply_purchases_patch :: "shelf_env \<Rightarrow> collection_row \<Rightarrow> purchases_patch \<Rightarrow> catalogue \<Rightarrow> shelf_error + catalogue" where
  "apply_purchases_patch env row patch db =
     (case find (\<lambda>ch. bc_id ch \<in> set (bp_remove patch)) (bp_update patch) of
        Some ch \<Rightarrow> Inl (Shelf_Contradiction (bc_id ch))
      | None \<Rightarrow>
          (case each (delete_for_collection (co_id row)) (js_set (bp_remove patch)) db of
             Inl e \<Rightarrow> Inl e
           | Inr db1 \<Rightarrow>
               (case each (apply_change env (co_id row)) (bp_update patch) db1 of
                  Inl e \<Rightarrow> Inl e
                | Inr db2 \<Rightarrow> each (apply_addition env row) (bp_add patch) db2)))"

section \<open>The composed item\<close>

record purchase_rate =
  cr_code :: string
  cr_rate :: "rat option"
  cr_effective :: "string option"

record collection_purchase =
  kp_id :: row_id
  kp_purchased_on :: string
  kp_price :: "rat option"
  kp_store :: "(string \<times> string \<times> string option) option"
  kp_store_name :: "string option"
  kp_offer :: "row_id option"
  kp_rates :: "purchase_rate list"

record collection_offer =
  kf_id :: string
  kf_url :: string
  kf_store_slug :: string
  kf_store_name :: string
  kf_price :: rat
  kf_old_price :: "rat option"
  kf_reference :: "rat option"
  kf_discount :: "int option"
  kf_currency :: string
  kf_promo :: bool
  kf_captured :: string

record collection_item =
  ci_row :: collection_row
  ci_product :: product_row
  ci_name_orig :: "string option"
  ci_purchases :: "collection_purchase list"
  ci_offers :: "collection_offer list"

definition compare_purchase_date :: "shelf_env \<Rightarrow> purchase_row \<Rightarrow> purchase_row \<Rightarrow> rat" where
  "compare_purchase_date env a b =
     js_or (sh_collate env (pu_purchased_on a) (pu_purchased_on b))
       (of_int (sh_purchase_created env (pu_id a)) - of_int (sh_purchase_created env (pu_id b)))"

definition by_day_created_id :: "shelf_env \<Rightarrow> purchase_row \<Rightarrow> purchase_row \<Rightarrow> rat" where
  "by_day_created_id env a b =
     js_or (js_or (code_unit_compare (pu_purchased_on a) (pu_purchased_on b))
        (of_int (sh_purchase_created env (pu_id a)) - of_int (sh_purchase_created env (pu_id b)))) (by_number pu_id a b)"

definition find_by_collection_ids :: "shelf_env \<Rightarrow> catalogue \<Rightarrow> row_id list \<Rightarrow> purchase_row list" where
  "find_by_collection_ids env db is =
     js_sort (by_day_created_id env) (filter (\<lambda>p. pu_collection p \<in> set is) (ct_purchases db))"

definition load_rates :: "shelf_env \<Rightarrow> purchase_row list \<Rightarrow> (string \<times> purchase_rate list) list" where
  "load_rates env rows =
     (let codes = sort (map currency_code (filter (\<lambda>c. \<not> is_base c) (find_active (sh_rates env))));
          days = js_set (map pu_purchased_on rows);
          probes = probe_rates (sh_rates env) (concat (map (\<lambda>d. map (\<lambda>c. (c, d)) codes) days));
          by_key = js_index (\<lambda>p. probe_code p @ ''|'' @ requested_on p) probes
      in if rows = [] \<or> codes = [] then []
         else map (\<lambda>d. (d, map (\<lambda>c. let probe = js_get by_key (c @ ''|'' @ d)
                in \<lparr>cr_code = c, cr_rate = Option.bind probe probe_rate, cr_effective = Option.bind probe probe_effective\<rparr>) codes)) days)"

definition to_purchase :: "shelf_env \<Rightarrow> purchase_rate list \<Rightarrow> purchase_row \<Rightarrow> collection_purchase" where
  "to_purchase env rates p =
     \<lparr>kp_id = pu_id p, kp_purchased_on = pu_purchased_on p, kp_price = pu_price p,
      kp_store = Option.bind (pu_store p) (\<lambda>i. Option.bind (find (\<lambda>s. si_id s = i) (sh_stores env)) (\<lambda>s.
        if si_slug s \<noteq> [] \<and> si_name s \<noteq> [] then Some (si_slug s, si_name s, si_color s) else None)),
      kp_store_name = pu_store_name p, kp_offer = pu_offer p, kp_rates = rates\<rparr>"

definition load_purchases :: "shelf_env \<Rightarrow> catalogue \<Rightarrow> row_id list \<Rightarrow> (row_id \<times> collection_purchase list) list" where
  "load_purchases env db is =
     (let rows = find_by_collection_ids env db is;
          rates = load_rates env rows
      in map (\<lambda>(i, group). (i, map (\<lambda>p. to_purchase env (case js_get rates (pu_purchased_on p) of None \<Rightarrow> [] | Some rs \<Rightarrow> rs) p)
               (js_sort (compare_purchase_date env) group)))
           (js_group_by pu_collection rows))"

definition to_offer :: "report_current_row \<Rightarrow> collection_offer" where
  "to_offer row =
     \<lparr>kf_id = report_current_row.row_id row, kf_url = report_current_row.url row, kf_store_slug = store_slug row,
      kf_store_name = store_name row, kf_price = price row, kf_old_price = old_price row, kf_reference = previous_drop row,
      kf_discount = discount_pct_of (price row) (previous_drop row), kf_currency = currency row, kf_promo = promo row,
      kf_captured = captured_date row\<rparr>"

definition load_offers :: "shelf_env \<Rightarrow> row_id \<Rightarrow> collection_offer list" where
  \<comment> \<open>one bottling's group, cheapest first\<close>
  "load_offers env i = map to_offer (js_sort (by_price (sh_collate env)) (sh_offers_of env i))"

definition to_item :: "shelf_env \<Rightarrow> catalogue \<Rightarrow> (row_id \<times> collection_purchase list) list \<Rightarrow> collection_row \<Rightarrow> product_row \<Rightarrow> collection_item" where
  "to_item env db bought c p =
     \<lparr>ci_row = c, ci_product = p, ci_name_orig = map_option of_name_orig (shown_offer db (co_product c)),
      ci_purchases = (case js_get bought (co_id c) of None \<Rightarrow> [] | Some ps \<Rightarrow> ps), ci_offers = load_offers env (co_product c)\<rparr>"

definition by_newest_row :: "shelf_env \<Rightarrow> collection_row \<Rightarrow> collection_row \<Rightarrow> rat" where
  "by_newest_row env a b =
     js_or (of_int (sh_row_created env (co_id b)) - of_int (sh_row_created env (co_id a))) (by_number co_id a b)"

definition own_items :: "shelf_env \<Rightarrow> row_id \<Rightarrow> catalogue \<Rightarrow> collection_item list" where
  "own_items env u db =
     (let rows = js_sort (by_newest_row env) (filter (\<lambda>c. co_user c = u) (ct_collection db));
          bought = load_purchases env db (map co_id rows)
      in List.map_filter (\<lambda>c. map_option (to_item env db bought c) (product_by_id db (co_product c))) rows)"

definition own_ids :: "row_id \<Rightarrow> catalogue \<Rightarrow> row_id list" where
  "own_ids u db = sort (map co_product (filter (\<lambda>c. co_user c = u) (ct_collection db)))"

definition item_or_throw :: "shelf_env \<Rightarrow> row_id \<Rightarrow> row_id \<Rightarrow> catalogue \<Rightarrow> shelf_error + collection_item" where
  "item_or_throw env u i db =
     (case owned_row db i u of
        None \<Rightarrow> Inl (Shelf_Item_Not_Found i)
      | Some c \<Rightarrow> Inr (to_item env db (load_purchases env db [co_id c]) c (the (product_by_id db (co_product c)))))"

section \<open>The service\<close>

definition create_item :: "shelf_env \<Rightarrow> row_id \<Rightarrow> shelf_create \<Rightarrow> catalogue \<Rightarrow> shelf_error + collection_item \<times> catalogue" where
  "create_item env u inp db =
     (if sc_product inp \<notin> set (find_existing_ids db [sc_product inp]) then Inl (Shelf_Unknown_Product (sc_product inp))
      else (case (case sc_purchase inp of None \<Rightarrow> Inr None
                  | Some b \<Rightarrow> (case resolve_purchase env b (sc_product inp) of Inl e \<Rightarrow> Inl e | Inr v \<Rightarrow> Inr (Some v))) of
              Inl e \<Rightarrow> Inl e
            | Inr bought \<Rightarrow>
                (case create_for_user u (sc_product inp) (to_create_row (sc_fields inp)) db of
                   Inl e \<Rightarrow> Inl e
                 | Inr (i, db1) \<Rightarrow>
                     (let db2 = (case bought of None \<Rightarrow> db1 | Some v \<Rightarrow> create_for_collection env i v db1)
                      in case item_or_throw env u i db2 of Inl e \<Rightarrow> Inl e | Inr item \<Rightarrow> Inr (item, db2)))))"

definition update_item :: "shelf_env \<Rightarrow> row_id \<Rightarrow> row_id \<Rightarrow> shelf_update \<Rightarrow> catalogue \<Rightarrow> shelf_error + collection_item \<times> catalogue" where
  "update_item env u i inp db =
     (case owned_row db i u of
        None \<Rightarrow> Inl (Shelf_Item_Not_Found i)
      | Some row \<Rightarrow>
          (case update_for_user u (co_id row) (to_update_row inp) db of
             Inl e \<Rightarrow> Inl e
           | Inr db1 \<Rightarrow>
               (case (case su_purchases inp of None \<Rightarrow> Inr db1 | Some patch \<Rightarrow> apply_purchases_patch env row patch db1) of
                  Inl e \<Rightarrow> Inl e
                | Inr db2 \<Rightarrow> (case item_or_throw env u (co_id row) db2 of Inl e \<Rightarrow> Inl e | Inr item \<Rightarrow> Inr (item, db2)))))"

definition answer_shelf :: "shelf_env \<Rightarrow> row_id \<Rightarrow> shelf_request \<Rightarrow> catalogue \<Rightarrow> shelf_error + collection_item option \<times> catalogue" where
  "answer_shelf env u req db =
     (case req of
        Shelf_Create inp \<Rightarrow> (case create_item env u inp db of Inl e \<Rightarrow> Inl e | Inr (item, db') \<Rightarrow> Inr (Some item, db'))
      | Shelf_Update i inp \<Rightarrow> (case update_item env u i inp db of Inl e \<Rightarrow> Inl e | Inr (item, db') \<Rightarrow> Inr (Some item, db'))
      | Shelf_Remove i \<Rightarrow> (case delete_for_user u i db of Inl e \<Rightarrow> Inl e | Inr db' \<Rightarrow> Inr (None, db')))"

section \<open>The range of the statistics\<close>

definition stats_max_months :: int where
  "stats_max_months = 600"

datatype stats_error = Range_Inverted | Range_Too_Wide | Unknown_Display_Currency string

definition month_number :: "string \<Rightarrow> nat \<Rightarrow> int" where
  \<comment> \<open>the request class lets only \<open>YYYY-MM\<close> through\<close>
  "month_number m k = (case js_nth (js_split CHR ''-'' m) k of None \<Rightarrow> 0
     | Some t \<Rightarrow> (case js_parse_int t of None \<Rightarrow> 0 | Some n \<Rightarrow> n))"

definition months_between :: "string \<Rightarrow> string \<Rightarrow> int" where
  "months_between from to = (month_number to 0 - month_number from 0) * 12 + (month_number to 1 - month_number from 1) + 1"

definition clamp_month :: "string \<Rightarrow> string \<Rightarrow> string \<Rightarrow> string" where
  "clamp_month m earliest latest = (if m < earliest then earliest else if m > latest then latest else m)"

definition bounds_for_user :: "row_id \<Rightarrow> catalogue \<Rightarrow> (string \<times> string) option" where
  "bounds_for_user u db =
     (case map (take 7 \<circ> pu_purchased_on)
        (filter (\<lambda>p. \<exists>c\<in>set (ct_collection db). co_id c = pu_collection p \<and> co_user c = u) (ct_purchases db)) of
        [] \<Rightarrow> None | m # ms \<Rightarrow> Some (fold min ms m, fold max ms m))"

definition resolve_range :: "string option \<Rightarrow> string option \<Rightarrow> string \<Rightarrow> (string \<times> string) option \<Rightarrow> stats_error + string \<times> string" where
  "resolve_range from to this_month lived =
     (let earliest = (case lived of None \<Rightarrow> this_month | Some (m, _) \<Rightarrow> m);
          a = (case from of None \<Rightarrow> earliest | Some m \<Rightarrow> m);
          b = (case to of None \<Rightarrow> this_month | Some m \<Rightarrow> m)
      in if b < a then Inl Range_Inverted
         else if months_between a b > stats_max_months then Inl Range_Too_Wide
         else Inr (clamp_month a earliest this_month, clamp_month b earliest this_month))"

definition resolve_currency :: "shelf_env \<Rightarrow> string option \<Rightarrow> stats_error + string \<times> string option" where
  "resolve_currency env code =
     (let active = find_active (sh_rates env)
      in case code of
           None \<Rightarrow> Inr ((case find is_base active of None \<Rightarrow> ''UAH'' | Some c \<Rightarrow> currency_code c), None)
         | Some k \<Rightarrow> (case find (\<lambda>c. currency_code c = k) active of
               None \<Rightarrow> Inl (Unknown_Display_Currency k)
             | Some c \<Rightarrow> Inr (currency_code c, if is_base c then None else Some (currency_id c))))"

end
