(* ===== verification/Collection_Facts.thy ===== *)
theory Collection_Facts
  imports Collection Persist_Claims
begin

text \<open>
  What a collection request does to the shelves: each of its statements changes rows of one
  collection row only, so the frame \<open>only_row\<close> composes along a request; an update is one
  comprehension over the purchases, and the constraints, with the one that a purchase names at most
  one kind of shop, hold afterwards.
\<close>

section \<open>Frames and constraints\<close>

definition one_shop :: "purchase_row \<Rightarrow> bool" where
  "one_shop p \<longleftrightarrow> pu_store p = None \<or> pu_store_name p = None"

definition shelf_ok :: "catalogue \<Rightarrow> bool" where
  \<comment> \<open>the catalogue's constraints, purchase ids already handed out, and the check on the two shop columns\<close>
  "shelf_ok db \<longleftrightarrow> catalogue_ok db \<and> (\<forall>p\<in>set (ct_purchases db). pu_id p < ct_next db \<and> one_shop p)"

definition only_row :: "row_id \<Rightarrow> catalogue \<Rightarrow> catalogue \<Rightarrow> bool" where
  \<comment> \<open>nothing but one collection row and its purchases differs\<close>
  "only_row i db db' \<longleftrightarrow>
     filter (\<lambda>c. co_id c \<noteq> i) (ct_collection db') = filter (\<lambda>c. co_id c \<noteq> i) (ct_collection db)
     \<and> filter (\<lambda>p. pu_collection p \<noteq> i) (ct_purchases db') = filter (\<lambda>p. pu_collection p \<noteq> i) (ct_purchases db)
     \<and> ct_next db \<le> ct_next db'
     \<and> db' = db\<lparr>ct_collection := ct_collection db', ct_purchases := ct_purchases db', ct_next := ct_next db'\<rparr>"

lemma catalogue_ok_shelf:
  assumes "catalogue_ok db" and "ct_next db \<le> n" and "collection_ok cs (product_ids db) n" and "purchases_ok ps (co_id ` set cs)"
  shows "catalogue_ok (db\<lparr>ct_collection := cs, ct_purchases := ps, ct_next := n\<rparr>)"
  using assms by (auto simp: catalogue_ok_def product_ids_def products_ok_def offers_ok_def)

lemma patch_row_keys [simp]:
  "co_id (patch_collection_row v c) = co_id c" "co_user (patch_collection_row v c) = co_user c"
  "co_product (patch_collection_row v c) = co_product c" "collection_key (patch_collection_row v c) = collection_key c"
  by (simp_all add: patch_collection_row_def collection_key_def)

lemma patch_purchase_keys [simp]:
  "pu_id (patch_purchase_row v p) = pu_id p" "pu_collection (patch_purchase_row v p) = pu_collection p"
  by (simp_all add: patch_purchase_row_def)

lemma patch_empty [simp]:
  "patch_collection_row empty_row_patch c = c" "patch_purchase_row empty_purchase_patch p = p"
  by (simp_all add: patch_collection_row_def empty_row_patch_def patch_purchase_row_def empty_purchase_patch_def patched_def)

lemma sql_affected_0: "sql_affected w rs = 0 \<longleftrightarrow> (\<forall>r\<in>set rs. \<not> w r)"
  by (simp add: sql_affected_def filter_empty_conv)

section \<open>Ownership\<close>

lemma owned_row_Some: "owned_row db i u = Some c \<Longrightarrow> c \<in> set (ct_collection db) \<and> co_id c = i \<and> co_user c = u"
  unfolding owned_row_def by (auto dest: find_SomeD)

lemma row_unique: "catalogue_ok db \<Longrightarrow> c \<in> set (ct_collection db) \<Longrightarrow> d \<in> set (ct_collection db) \<Longrightarrow> co_id c = co_id d \<Longrightarrow> c = d"
  using find_key_eq [of co_id "ct_collection db" d c] by (simp add: catalogue_ok_def collection_ok_def)

lemma owned_hit:
  assumes "catalogue_ok db" and "owned_row db i u = Some row" and "c \<in> set (ct_collection db)"
  shows "(co_id c = i \<and> co_user c = u) = (co_id c = i)"
  using row_unique [OF assms(1) _ assms(3)] owned_row_Some [OF assms(2)] by metis

lemma update_for_user_owned:
  assumes ok: "catalogue_ok db" and own: "owned_row db i u = Some row" and run: "update_for_user u i v db = Inr db'"
  shows "db' = db\<lparr>ct_collection := map (\<lambda>c. if co_id c = i then patch_collection_row v c else c) (ct_collection db)\<rparr>"
proof (cases "v = empty_row_patch")
  case True
  have "(\<lambda>c. if co_id c = i then patch_collection_row v c else c) = (\<lambda>c. c)" by (simp add: True fun_eq_iff)
  then show ?thesis using run True by (simp add: update_for_user_def)
next
  case False
  have "sql_update (\<lambda>c. co_id c = i \<and> co_user c = u) (patch_collection_row v) (ct_collection db)
      = map (\<lambda>c. if co_id c = i then patch_collection_row v c else c) (ct_collection db)"
    unfolding sql_update_def by (rule map_cong) (auto dest: owned_hit [OF ok own])
  then show ?thesis using run False by (auto simp: update_for_user_def split: if_splits)
qed

section \<open>The purchases of one row\<close>

definition resolved_change :: "shelf_env \<Rightarrow> purchase_change \<Rightarrow> purchase_patch" where
  "resolved_change env ch = (case to_purchase_update_row env ch of Inl _ \<Rightarrow> empty_purchase_patch | Inr v \<Rightarrow> v)"

definition change_purchase :: "shelf_env \<Rightarrow> row_id \<Rightarrow> purchase_change \<Rightarrow> purchase_row \<Rightarrow> purchase_row" where
  "change_purchase env i ch p =
     (if pu_id p = bc_id ch \<and> pu_collection p = i then patch_purchase_row (resolved_change env ch) p else p)"

lemma change_purchase_keys [simp]:
  "pu_id (change_purchase env i ch p) = pu_id p" "pu_collection (change_purchase env i ch p) = pu_collection p"
  by (simp_all add: change_purchase_def)

lemma fold_change_keys [simp]:
  "pu_id (fold (change_purchase env i) chs p) = pu_id p" "pu_collection (fold (change_purchase env i) chs p) = pu_collection p"
  by (induction chs arbitrary: p) simp_all

lemma fold_change_elsewhere: "pu_collection p \<noteq> i \<Longrightarrow> fold (change_purchase env i) chs p = p"
  by (induction chs) (simp_all add: change_purchase_def)

lemma each_delete:
  "each (delete_for_collection i) is db = Inr db' \<Longrightarrow>
    db' = db\<lparr>ct_purchases := filter (\<lambda>p. \<not> (pu_collection p = i \<and> pu_id p \<in> set is)) (ct_purchases db)\<rparr>"
proof (induction "is" arbitrary: db)
  case (Cons x xs)
  then obtain db1 where one: "delete_for_collection i x db = Inr db1" and rest: "each (delete_for_collection i) xs db1 = Inr db'"
    by (auto split: sum.splits)
  have "db1 = db\<lparr>ct_purchases := sql_delete (\<lambda>p. pu_id p = x \<and> pu_collection p = i) (ct_purchases db)\<rparr>"
    using one by (auto simp: delete_for_collection_def Let_def split: if_splits)
  then show ?case using Cons.IH [OF rest] by (auto simp: sql_delete_def intro!: arg_cong [where f = "\<lambda>ps. db\<lparr>ct_purchases := ps\<rparr>"] filter_cong)
qed simp

lemma each_change:
  "each (apply_change env i) chs db = Inr db' \<Longrightarrow>
    db' = db\<lparr>ct_purchases := map (fold (change_purchase env i) chs) (ct_purchases db)\<rparr>"
proof (induction chs arbitrary: db)
  case (Cons ch chs)
  then obtain db1 where one: "apply_change env i ch db = Inr db1" and rest: "each (apply_change env i) chs db1 = Inr db'"
    by (auto split: sum.splits)
  obtain v where v: "to_purchase_update_row env ch = Inr v" using one by (auto simp: apply_change_def split: sum.splits)
  have change: "change_purchase env i ch = (\<lambda>p. if pu_id p = bc_id ch \<and> pu_collection p = i then patch_purchase_row v p else p)"
    by (simp add: change_purchase_def resolved_change_def v fun_eq_iff)
  have "update_for_collection i (bc_id ch) v db = Inr db1" using one v by (simp add: apply_change_def)
  then have "db1 = db\<lparr>ct_purchases := map (change_purchase env i ch) (ct_purchases db)\<rparr>"
  proof (cases "v = empty_purchase_patch")
    case True
    then have "change_purchase env i ch = (\<lambda>p. p)" by (simp add: change fun_eq_iff)
    then show ?thesis using \<open>update_for_collection i (bc_id ch) v db = Inr db1\<close> True
      by (simp add: update_for_collection_def Let_def split: if_splits)
  next
    case False
    then show ?thesis using \<open>update_for_collection i (bc_id ch) v db = Inr db1\<close>
      by (auto simp: update_for_collection_def Let_def change sql_update_def split: if_splits)
  qed
  then show ?case using Cons.IH [OF rest] by simp
qed simp

definition bought_as :: "shelf_env \<Rightarrow> row_id \<Rightarrow> row_id \<Rightarrow> purchase_input \<Rightarrow> purchase_row \<Rightarrow> bool" where
  \<comment> \<open>the purchase a request's entry becomes\<close>
  "bought_as env i product inp p \<longleftrightarrow>
     (\<exists>v. resolve_purchase env inp product = Inr v \<and> p = patch_purchase_row v (blank_purchase env (pu_id p) i))"

lemma each_addition:
  "each (apply_addition env row) inps db = Inr db' \<Longrightarrow>
    \<exists>added. db' = db\<lparr>ct_purchases := ct_purchases db @ added, ct_next := ct_next db + length added\<rparr>
      \<and> list_all2 (bought_as env (co_id row) (co_product row)) inps added
      \<and> map pu_id added = [ct_next db..<ct_next db + length added]"
proof (induction inps arbitrary: db)
  case Nil
  then show ?case by simp
next
  case (Cons inp inps)
  then obtain db1 where one: "apply_addition env row inp db = Inr db1" and more: "each (apply_addition env row) inps db1 = Inr db'"
    by (auto split: sum.splits)
  obtain v where v: "resolve_purchase env inp (co_product row) = Inr v" using one by (auto simp: apply_addition_def split: sum.splits)
  have rest: "each (apply_addition env row) inps (create_for_collection env (co_id row) v db) = Inr db'"
    using one more v by (simp add: apply_addition_def)
  let ?p = "patch_purchase_row v (blank_purchase env (ct_next db) (co_id row))"
  obtain added where added: "db' = (create_for_collection env (co_id row) v db)
        \<lparr>ct_purchases := ct_purchases (create_for_collection env (co_id row) v db) @ added,
         ct_next := ct_next (create_for_collection env (co_id row) v db) + length added\<rparr>"
      "list_all2 (bought_as env (co_id row) (co_product row)) inps added"
      "map pu_id added = [ct_next db + 1..<ct_next db + 1 + length added]"
    using Cons.IH [OF rest] by (auto simp: create_for_collection_def)
  have id: "pu_id ?p = ct_next db" by (simp add: blank_purchase_def)
  have first: "bought_as env (co_id row) (co_product row) inp ?p" unfolding bought_as_def id using v by blast
  have "map pu_id (?p # added) = [ct_next db..<ct_next db + length (?p # added)]" using added(3) id by (simp add: upt_rec)
  moreover have "db' = db\<lparr>ct_purchases := ct_purchases db @ ?p # added, ct_next := ct_next db + length (?p # added)\<rparr>"
    using added(1) by (simp add: create_for_collection_def)
  ultimately show ?case using added(2) first by (intro exI [of _ "?p # added"]) simp
qed

section \<open>At most one shop\<close>

lemma resolve_one_shop:
  assumes "resolve_purchase env inp product = Inr v" and "bi_store_name inp \<noteq> Some []"
  shows "one_shop (patch_purchase_row v (blank_purchase env n i))"
  using assms
  by (auto simp: resolve_purchase_def one_shop_def patch_purchase_row_def blank_purchase_def patched_def truthy_text_def coalesce_def
      Let_def split: option.splits sum.splits if_splits)

lemma change_one_shop:
  assumes "to_purchase_update_row env ch = Inr v" and "one_shop p"
  shows "one_shop (patch_purchase_row v p)"
  using assms
  by (auto simp: to_purchase_update_row_def one_shop_def patch_purchase_row_def patched_def Let_def
      split: option.splits sum.splits if_splits)

lemma change_purchase_one_shop: "one_shop p \<Longrightarrow> one_shop (change_purchase env i ch p)"
  by (auto simp: change_purchase_def resolved_change_def split: sum.split intro: change_one_shop)

lemma fold_change_one_shop: "one_shop p \<Longrightarrow> one_shop (fold (change_purchase env i) chs p)"
  by (induction chs arbitrary: p) (simp_all add: change_purchase_one_shop)

lemma bought_one_shop:
  "list_all2 (bought_as env i product) inps added \<Longrightarrow> \<forall>b\<in>set inps. bi_store_name b \<noteq> Some [] \<Longrightarrow>
    (\<forall>p\<in>set added. one_shop p \<and> pu_collection p = i)"
proof (induction rule: list_all2_induct)
  case (Cons b bs p ps)
  obtain v where v: "resolve_purchase env b product = Inr v" "p = patch_purchase_row v (blank_purchase env (pu_id p) i)"
    using Cons.hyps(1) by (auto simp: bought_as_def)
  have "one_shop p" using resolve_one_shop [OF v(1), of "pu_id p" i] Cons.prems v(2) by simp
  moreover have "pu_collection p = i" by (subst v(2)) (simp add: blank_purchase_def)
  ultimately show ?case using Cons by simp
qed simp

section \<open>Requests\<close>

fun shop_names_given :: "shelf_request \<Rightarrow> bool" where
  \<comment> \<open>the request classes refuse an empty shop name\<close>
  "shop_names_given (Shelf_Create inp) = (\<forall>b\<in>set_option (sc_purchase inp). bi_store_name b \<noteq> Some [])"
| "shop_names_given (Shelf_Update i inp) =
     (\<forall>patch\<in>set_option (su_purchases inp). \<forall>b\<in>set (bp_add patch). bi_store_name b \<noteq> Some [])"
| "shop_names_given (Shelf_Remove i) = True"

definition purchases_after :: "shelf_env \<Rightarrow> collection_row \<Rightarrow> purchases_patch option \<Rightarrow> purchase_row list \<Rightarrow> purchase_row list \<Rightarrow> bool" where
  \<comment> \<open>the removed ones gone, the patched ones changed in the order of the request, the added ones at the end\<close>
  "purchases_after env row patch ps ps' \<longleftrightarrow>
     (case patch of
        None \<Rightarrow> ps' = ps
      | Some b \<Rightarrow> \<exists>added. list_all2 (bought_as env (co_id row) (co_product row)) (bp_add b) added \<and>
          ps' = map (fold (change_purchase env (co_id row)) (bp_update b))
                  (filter (\<lambda>p. \<not> (pu_collection p = co_id row \<and> pu_id p \<in> set (bp_remove b))) ps) @ added)"

lemma apply_patch_effect:
  assumes "apply_purchases_patch env row b db = Inr db'"
  shows "\<exists>added. list_all2 (bought_as env (co_id row) (co_product row)) (bp_add b) added
    \<and> map pu_id added = [ct_next db..<ct_next db + length added]
    \<and> db' = db\<lparr>ct_purchases := map (fold (change_purchase env (co_id row)) (bp_update b))
          (filter (\<lambda>p. \<not> (pu_collection p = co_id row \<and> pu_id p \<in> set (bp_remove b))) (ct_purchases db)) @ added,
        ct_next := ct_next db + length added\<rparr>"
proof -
  obtain db1 db2 where steps: "each (delete_for_collection (co_id row)) (js_set (bp_remove b)) db = Inr db1"
    "each (apply_change env (co_id row)) (bp_update b) db1 = Inr db2" "each (apply_addition env row) (bp_add b) db2 = Inr db'"
    using assms by (auto simp: apply_purchases_patch_def split: option.splits sum.splits)
  show ?thesis using each_addition [OF steps(3)] each_change [OF steps(2)] each_delete [OF steps(1)] by auto
qed

definition row_updated :: "row_id \<Rightarrow> shelf_update \<Rightarrow> collection_row list \<Rightarrow> collection_row list" where
  "row_updated i inp cs = map (\<lambda>c. if co_id c = i then patch_collection_row (to_update_row inp) c else c) cs"

lemma row_updated_keys [simp]:
  "map co_id (row_updated i inp cs) = map co_id cs" "map collection_key (row_updated i inp cs) = map collection_key cs"
  "map co_product (row_updated i inp cs) = map co_product cs"
  "filter (\<lambda>c. co_id c \<noteq> i) (row_updated i inp cs) = filter (\<lambda>c. co_id c \<noteq> i) cs"
  by (induction cs) (auto simp: row_updated_def)

lemma row_updated_ok: "collection_ok (row_updated i inp cs) known n \<longleftrightarrow> collection_ok cs known n"
proof -
  have "collection_ok xs known n \<longleftrightarrow> distinct (map co_id xs) \<and> (\<forall>k\<in>set (map co_id xs). k < n) \<and> distinct (map collection_key xs)
      \<and> set (map co_product xs) \<subseteq> known" for xs by (simp add: collection_ok_def)
  then show ?thesis by (simp only: row_updated_keys)
qed

lemma update_item_parts:
  assumes ok: "catalogue_ok db" and run: "update_item env u i inp db = Inr (item, db')"
  obtains row where "owned_row db i u = Some row" and "co_id row = i"
    and "case su_purchases inp of
        None \<Rightarrow> db' = db\<lparr>ct_collection := row_updated i inp (ct_collection db)\<rparr>
      | Some b \<Rightarrow> apply_purchases_patch env row b (db\<lparr>ct_collection := row_updated i inp (ct_collection db)\<rparr>) = Inr db'"
proof -
  obtain row where own: "owned_row db i u = Some row" using run by (auto simp: update_item_def split: option.splits)
  have row: "co_id row = i" using owned_row_Some [OF own] by simp
  obtain db1 where one: "update_for_user u i (to_update_row inp) db = Inr db1"
    using run by (auto simp: update_item_def own row split: sum.splits)
  note db1 = update_for_user_owned [OF ok own one, folded row_updated_def]
  have "case su_purchases inp of None \<Rightarrow> db' = db1 | Some b \<Rightarrow> apply_purchases_patch env row b db1 = Inr db'"
    using run by (auto simp: update_item_def own row one split: option.splits sum.splits)
  then show thesis using that [OF own row] unfolding db1 by blast
qed

lemma purchases_ok_patched:
  assumes ps: "purchases_ok ps cids" "\<forall>p\<in>set ps. pu_id p < n \<and> one_shop p" and "i \<in> cids"
    and added: "\<forall>p\<in>set added. one_shop p \<and> pu_collection p = i" "map pu_id added = [n..<n + length added]"
  shows "purchases_ok (map (fold (change_purchase env i) chs) (filter w ps) @ added) cids
    \<and> (\<forall>p\<in>set (map (fold (change_purchase env i) chs) (filter w ps) @ added). pu_id p < n + length added \<and> one_shop p)"
proof -
  let ?kept = "map (fold (change_purchase env i) chs) (filter w ps)"
  have ids: "map pu_id ?kept = map pu_id (filter w ps)" by (simp add: comp_def)
  have new: "n \<le> pu_id p \<and> pu_id p < n + length added" if "p \<in> set added" for p
  proof -
    have "pu_id p \<in> set (map pu_id added)" using that by simp
    then show ?thesis unfolding added(2) by simp
  qed
  have old: "pu_id p < n" if "p \<in> set (filter w ps)" for p using ps(2) that by simp
  have "distinct (map pu_id ?kept)" unfolding ids using ps(1) by (simp add: purchases_ok_def distinct_map_filter)
  moreover have "distinct (map pu_id added)" unfolding added(2) by simp
  moreover have "set (map pu_id ?kept) \<inter> set (map pu_id added) = {}" unfolding ids added(2) using old by fastforce
  ultimately have "distinct (map pu_id (?kept @ added))" unfolding map_append distinct_append by blast
  moreover have "pu_collection ` set (?kept @ added) \<subseteq> cids" using ps(1) added(1) assms(3) by (auto simp: purchases_ok_def)
  moreover have "\<forall>p\<in>set (?kept @ added). pu_id p < n + length added \<and> one_shop p"
    using ps(2) added(1) new by (auto intro: fold_change_one_shop)
  ultimately show ?thesis by (simp add: purchases_ok_def)
qed

lemma update_item_keeps:
  assumes ok: "shelf_ok db" and run: "update_item env u i inp db = Inr (item, db')" and names: "shop_names_given (Shelf_Update i inp)"
  shows "\<exists>row. owned_row db i u = Some row \<and> ct_collection db' = row_updated i inp (ct_collection db)
    \<and> purchases_after env row (su_purchases inp) (ct_purchases db) (ct_purchases db') \<and> only_row i db db' \<and> shelf_ok db'"
proof -
  have cat: "catalogue_ok db" and old: "\<forall>p\<in>set (ct_purchases db). pu_id p < ct_next db \<and> one_shop p"
    using ok by (simp_all add: shelf_ok_def)
  obtain row where own: "owned_row db i u = Some row" and id: "co_id row = i"
    and parts: "case su_purchases inp of
        None \<Rightarrow> db' = db\<lparr>ct_collection := row_updated i inp (ct_collection db)\<rparr>
      | Some b \<Rightarrow> apply_purchases_patch env row b (db\<lparr>ct_collection := row_updated i inp (ct_collection db)\<rparr>) = Inr db'"
    by (rule update_item_parts [OF cat run])
  let ?cs = "row_updated i inp (ct_collection db)"
  have keys: "co_id ` set ?cs = co_id ` set (ct_collection db)" by (metis list.set_map row_updated_keys(1))
  have cids: "i \<in> co_id ` set (ct_collection db)" using owned_row_Some [OF own] by auto
  have rows: "collection_ok ?cs (product_ids db) n" if "ct_next db \<le> n" for n
    using cat that unfolding row_updated_ok by (auto simp: catalogue_ok_def collection_ok_def)
  have bought: "purchases_ok (ct_purchases db) (co_id ` set ?cs)" using cat by (simp add: catalogue_ok_def keys)
  show ?thesis
  proof (cases "su_purchases inp")
    case None
    then have db': "db' = db\<lparr>ct_collection := ?cs, ct_purchases := ct_purchases db, ct_next := ct_next db\<rparr>" using parts by simp
    have "catalogue_ok db'" unfolding db' by (rule catalogue_ok_shelf [OF cat order_refl rows bought]) simp
    then show ?thesis using own old by (intro exI [of _ row]) (simp add: db' only_row_def purchases_after_def None shelf_ok_def)
  next
    case (Some b)
    then obtain added where added: "list_all2 (bought_as env i (co_product row)) (bp_add b) added"
        "map pu_id added = [ct_next db..<ct_next db + length added]"
      and db': "db' = db\<lparr>ct_collection := ?cs, ct_purchases := map (fold (change_purchase env i) (bp_update b))
          (filter (\<lambda>p. \<not> (pu_collection p = i \<and> pu_id p \<in> set (bp_remove b))) (ct_purchases db)) @ added,
        ct_next := ct_next db + length added\<rparr>" (is "_ = db\<lparr>ct_collection := _, ct_purchases := ?ps, ct_next := _\<rparr>")
      using parts apply_patch_effect [of env row b] id by fastforce
    have new: "\<forall>p\<in>set added. one_shop p \<and> pu_collection p = i"
      using bought_one_shop [OF added(1)] names Some by simp
    have ps: "purchases_ok ?ps (co_id ` set ?cs) \<and> (\<forall>p\<in>set ?ps. pu_id p < ct_next db + length added \<and> one_shop p)"
      by (rule purchases_ok_patched [OF bought old _ new added(2)]) (simp add: keys cids)
    have "catalogue_ok db'" unfolding db' by (rule catalogue_ok_shelf [OF cat _ rows]) (use ps in simp_all)
    moreover have "filter (\<lambda>p. pu_collection p \<noteq> i) ?ps = filter (\<lambda>p. pu_collection p \<noteq> i) (ct_purchases db)"
    proof -
      have "filter (\<lambda>p. pu_collection p \<noteq> i) added = []" using new by (simp add: filter_empty_conv)
      moreover have "map (fold (change_purchase env i) chs) (filter (\<lambda>p. pu_collection p \<noteq> i) xs) = filter (\<lambda>p. pu_collection p \<noteq> i) xs"
        for chs xs by (rule map_idI) (simp add: fold_change_elsewhere)
      ultimately show ?thesis by (simp add: filter_map comp_def) (metis (no_types, lifting) filter_cong)
    qed
    moreover have "purchases_after env row (su_purchases inp) (ct_purchases db) ?ps"
      using added(1) by (auto simp: purchases_after_def Some id)
    ultimately show ?thesis using own ps by (intro exI [of _ row]) (simp add: db' only_row_def shelf_ok_def)
  qed
qed

definition first_purchase :: "shelf_create \<Rightarrow> purchase_input list" where
  "first_purchase inp = (case sc_purchase inp of None \<Rightarrow> [] | Some b \<Rightarrow> [b])"

lemma create_item_parts:
  assumes "create_item env u inp db = Inr (item, db')"
  obtains added where "sc_product inp \<in> product_ids db"
    and "\<forall>c\<in>set (ct_collection db). \<not> (co_user c = u \<and> co_product c = sc_product inp)"
    and "list_all2 (bought_as env (ct_next db) (sc_product inp)) (first_purchase inp) added"
    and "map pu_id added = [ct_next db + 1..<ct_next db + 1 + length added]"
    and "db' = db\<lparr>ct_collection := ct_collection db @
            [patch_collection_row (to_create_row (sc_fields inp)) (blank_row (ct_next db) u (sc_product inp))],
          ct_purchases := ct_purchases db @ added, ct_next := ct_next db + 1 + length added\<rparr>"
proof -
  let ?i = "ct_next db"
  let ?row = "patch_collection_row (to_create_row (sc_fields inp)) (blank_row ?i u (sc_product inp))"
  let ?db1 = "db\<lparr>ct_collection := ct_collection db @ [?row], ct_next := ?i + 1\<rparr>"
  have known: "sc_product inp \<in> product_ids db"
  proof -
    have "sc_product inp \<in> set (find_existing_ids db [sc_product inp])" using assms by (simp add: create_item_def split: if_splits)
    then show ?thesis unfolding find_existing_ids_def product_ids_def by (auto intro: rev_image_eqI)
  qed
  have free: "\<forall>c\<in>set (ct_collection db). \<not> (co_user c = u \<and> co_product c = sc_product inp)"
    using assms by (auto simp: create_item_def create_for_user_def split: if_splits sum.splits)
  then have made: "create_for_user u (sc_product inp) (to_create_row (sc_fields inp)) db = Inr (?i, ?db1)"
    by (auto simp: create_for_user_def)
  show thesis
  proof (cases "sc_purchase inp")
    case None
    then have "db' = ?db1" using assms by (auto simp: create_item_def made split: if_splits sum.splits)
    then show thesis using that [of "[]"] known free by (simp add: first_purchase_def None)
  next
    case (Some b)
    then obtain v where v: "resolve_purchase env b (sc_product inp) = Inr v"
      using assms by (auto simp: create_item_def split: if_splits sum.splits)
    let ?p = "patch_purchase_row v (blank_purchase env (?i + 1) ?i)"
    have id: "pu_id ?p = ?i + 1" by (simp add: blank_purchase_def)
    have "bought_as env ?i (sc_product inp) b ?p" unfolding bought_as_def id using v by blast
    moreover have "db' = create_for_collection env ?i v ?db1" using assms by (auto simp: create_item_def made Some v Let_def split: if_splits sum.splits)
    ultimately show thesis using that [of "[?p]"] known free id by (simp add: first_purchase_def Some create_for_collection_def)
  qed
qed

lemma create_item_keeps:
  assumes ok: "shelf_ok db" and run: "create_item env u inp db = Inr (item, db')" and names: "shop_names_given (Shelf_Create inp)"
  shows "\<exists>added. ct_collection db' = ct_collection db @
        [patch_collection_row (to_create_row (sc_fields inp)) (blank_row (ct_next db) u (sc_product inp))]
    \<and> ct_purchases db' = ct_purchases db @ added
    \<and> list_all2 (bought_as env (ct_next db) (sc_product inp)) (first_purchase inp) added
    \<and> only_row (ct_next db) db db' \<and> shelf_ok db'"
proof -
  let ?i = "ct_next db"
  let ?row = "patch_collection_row (to_create_row (sc_fields inp)) (blank_row ?i u (sc_product inp))"
  have cat: "catalogue_ok db" and old: "\<forall>p\<in>set (ct_purchases db). pu_id p < ?i \<and> one_shop p"
    using ok by (simp_all add: shelf_ok_def)
  have rows: "collection_ok (ct_collection db) (product_ids db) ?i" and bought: "purchases_ok (ct_purchases db) (co_id ` set (ct_collection db))"
    using cat by (simp_all add: catalogue_ok_def)
  obtain added where known: "sc_product inp \<in> product_ids db"
    and free: "\<forall>c\<in>set (ct_collection db). \<not> (co_user c = u \<and> co_product c = sc_product inp)"
    and added: "list_all2 (bought_as env ?i (sc_product inp)) (first_purchase inp) added"
      "map pu_id added = [?i + 1..<?i + 1 + length added]"
    and db': "db' = db\<lparr>ct_collection := ct_collection db @ [?row], ct_purchases := ct_purchases db @ added,
        ct_next := ?i + 1 + length added\<rparr>"
    by (rule create_item_parts [OF run])
  have new: "\<forall>p\<in>set added. one_shop p \<and> pu_collection p = ?i"
    using bought_one_shop [OF added(1)] names by (cases "sc_purchase inp") (simp_all add: first_purchase_def)
  have key: "collection_key ?row = (u, sc_product inp)" "co_id ?row = ?i" "co_product ?row = sc_product inp"
    by (simp_all add: collection_key_def blank_row_def)
  have rows': "collection_ok (ct_collection db @ [?row]) (product_ids db) (?i + 1 + length added)"
    using rows known free unfolding collection_ok_def map_append distinct_append
    by (auto simp: collection_key_def blank_row_def)
  have later: "\<forall>p\<in>set (ct_purchases db). pu_id p < ?i + 1 \<and> one_shop p" using old by auto
  have "purchases_ok (ct_purchases db) (co_id ` set (ct_collection db @ [?row]))" using bought by (auto simp: purchases_ok_def)
  from purchases_ok_patched [OF this later _ new added(2), where chs = "[]" and w = "\<lambda>_. True"]
  have ps: "purchases_ok (ct_purchases db @ added) (co_id ` set (ct_collection db @ [?row]))
      \<and> (\<forall>p\<in>set (ct_purchases db @ added). pu_id p < ?i + 1 + length added \<and> one_shop p)"
    by (simp add: fold_Nil id_def blank_row_def)
  have "catalogue_ok db'" unfolding db' by (rule catalogue_ok_shelf [OF cat _ rows']) (use ps in simp_all)
  moreover have "filter (\<lambda>p. pu_collection p \<noteq> ?i) added = []" using new by (simp add: filter_empty_conv)
  ultimately show ?thesis using added(1) ps
    by (intro exI [of _ added]) (simp add: db' only_row_def shelf_ok_def blank_row_def)
qed

lemma delete_keeps:
  assumes ok: "shelf_ok db" and run: "delete_for_user u i db = Inr db'"
  shows "(\<exists>c\<in>set (ct_collection db). co_id c = i \<and> co_user c = u)
    \<and> ct_collection db' = filter (\<lambda>c. co_id c \<noteq> i) (ct_collection db)
    \<and> ct_purchases db' = filter (\<lambda>p. pu_collection p \<noteq> i) (ct_purchases db) \<and> only_row i db db' \<and> shelf_ok db'"
proof -
  have cat: "catalogue_ok db" using ok by (simp add: shelf_ok_def)
  let ?hit = "\<lambda>c. co_id c = i \<and> co_user c = u"
  obtain c where c: "c \<in> set (ct_collection db)" "?hit c"
    using run by (auto simp: delete_for_user_def Let_def sql_affected_0 split: if_splits)
  have hit: "?hit d \<longleftrightarrow> co_id d = i" if "d \<in> set (ct_collection db)" for d
    using row_unique [OF cat that c(1)] c(2) by auto
  have "db' = db\<lparr>ct_collection := sql_delete ?hit (ct_collection db),
      ct_purchases := sql_delete (\<lambda>p. \<exists>c\<in>set (ct_collection db). ?hit c \<and> co_id c = pu_collection p) (ct_purchases db)\<rparr>"
    using run by (auto simp: delete_for_user_def Let_def split: if_splits)
  moreover have "sql_delete ?hit (ct_collection db) = filter (\<lambda>c. co_id c \<noteq> i) (ct_collection db)"
    unfolding sql_delete_def by (rule filter_cong) (simp_all add: hit)
  moreover have "sql_delete (\<lambda>p. \<exists>c\<in>set (ct_collection db). ?hit c \<and> co_id c = pu_collection p) (ct_purchases db)
      = filter (\<lambda>p. pu_collection p \<noteq> i) (ct_purchases db)"
    unfolding sql_delete_def by (rule filter_cong) (use c in auto)
  ultimately have db': "db' = db\<lparr>ct_collection := filter (\<lambda>c. co_id c \<noteq> i) (ct_collection db),
      ct_purchases := filter (\<lambda>p. pu_collection p \<noteq> i) (ct_purchases db), ct_next := ct_next db\<rparr>" by simp
  have "collection_ok (filter (\<lambda>c. co_id c \<noteq> i) (ct_collection db)) (product_ids db) (ct_next db)"
    using cat by (auto simp: catalogue_ok_def collection_ok_def distinct_map_filter)
  moreover have "purchases_ok (filter (\<lambda>p. pu_collection p \<noteq> i) (ct_purchases db)) (co_id ` set (filter (\<lambda>c. co_id c \<noteq> i) (ct_collection db)))"
    using cat by (auto simp: catalogue_ok_def purchases_ok_def distinct_map_filter)
  ultimately have "catalogue_ok db'" unfolding db' by (rule catalogue_ok_shelf [OF cat order_refl])
  then show ?thesis using c ok by (auto simp: db' only_row_def shelf_ok_def)
qed

section \<open>The property\<close>

definition shelf_effect :: "shelf_env \<Rightarrow> row_id \<Rightarrow> shelf_request \<Rightarrow> catalogue \<Rightarrow> catalogue \<Rightarrow> bool" where
  \<comment> \<open>what a granted request leaves\<close>
  "shelf_effect env u req db db' \<longleftrightarrow>
     (case req of
        Shelf_Create inp \<Rightarrow>
          only_row (ct_next db) db db'
          \<and> ct_collection db' = ct_collection db @
              [patch_collection_row (to_create_row (sc_fields inp)) (blank_row (ct_next db) u (sc_product inp))]
          \<and> (\<exists>added. ct_purchases db' = ct_purchases db @ added
              \<and> list_all2 (bought_as env (ct_next db) (sc_product inp)) (first_purchase inp) added)
      | Shelf_Update i inp \<Rightarrow>
          only_row i db db' \<and> ct_collection db' = row_updated i inp (ct_collection db)
          \<and> (\<exists>row. owned_row db i u = Some row \<and> purchases_after env row (su_purchases inp) (ct_purchases db) (ct_purchases db'))
      | Shelf_Remove i \<Rightarrow>
          only_row i db db' \<and> (\<exists>c\<in>set (ct_collection db). co_id c = i \<and> co_user c = u)
          \<and> ct_collection db' = filter (\<lambda>c. co_id c \<noteq> i) (ct_collection db)
          \<and> ct_purchases db' = filter (\<lambda>p. pu_collection p \<noteq> i) (ct_purchases db))"

fun addressed :: "shelf_request \<Rightarrow> row_id option" where
  "addressed (Shelf_Create inp) = None"
| "addressed (Shelf_Update i inp) = Some i"
| "addressed (Shelf_Remove i) = Some i"

lemma foreign_row_refused:
  assumes "addressed req = Some i" and "\<forall>c\<in>set (ct_collection db). \<not> (co_id c = i \<and> co_user c = u)"
  shows "answer_shelf env u req db = Inl (Shelf_Item_Not_Found i)"
proof -
  have "owned_row db i u = None" using assms(2) by (auto simp: owned_row_def find_None_iff)
  moreover have "delete_for_user u i db = Inl (Shelf_Item_Not_Found i)"
    using assms(2) by (simp add: delete_for_user_def Let_def sql_affected_0)
  ultimately show ?thesis using assms(1) by (cases req) (auto simp: answer_shelf_def update_item_def)
qed

text \<open>
  C21: a collection is changed by its owner alone, and exactly as asked. A request for a row that is
  not the caller's is answered as an unknown id, whatever else it says, and changes nothing. A
  granted one touches one row of the caller and that row's purchases, no other user's and no other
  table: a new row carries the given fields and its first purchase; an update sets, clears or keeps
  each field and removes, patches and adds purchases in that order, every purchase entry resolved
  from the offer and the shops; a removal takes the row with its purchases. The
  database's constraints hold afterwards: one row per bottling and user, purchases of
  existing rows, and no purchase at both a known shop and a named one.
\<close>
theorem shelf_is_the_owners:
  assumes "shelf_ok db" and "shop_names_given req"
  shows "(\<forall>i. addressed req = Some i \<and> \<not> (\<exists>c\<in>set (ct_collection db). co_id c = i \<and> co_user c = u) \<longrightarrow>
      answer_shelf env u req db = Inl (Shelf_Item_Not_Found i))
    \<and> (\<forall>ans db'. answer_shelf env u req db = Inr (ans, db') \<longrightarrow> shelf_effect env u req db db' \<and> shelf_ok db')"
proof (intro conjI allI impI)
  fix i assume "addressed req = Some i \<and> \<not> (\<exists>c\<in>set (ct_collection db). co_id c = i \<and> co_user c = u)"
  then show "answer_shelf env u req db = Inl (Shelf_Item_Not_Found i)" by (intro foreign_row_refused) auto
next
  fix ans db' assume run: "answer_shelf env u req db = Inr (ans, db')"
  have "shelf_effect env u req db db' \<and> shelf_ok db'"
  proof (cases req)
    case (Shelf_Create inp)
    then obtain item where "create_item env u inp db = Inr (item, db')" using run by (auto simp: answer_shelf_def split: sum.splits)
    from create_item_keeps [OF assms(1) this] show ?thesis using assms(2) by (auto simp: shelf_effect_def Shelf_Create)
  next
    case (Shelf_Update i inp)
    then obtain item where "update_item env u i inp db = Inr (item, db')" using run by (auto simp: answer_shelf_def split: sum.splits)
    from update_item_keeps [OF assms(1) this] show ?thesis using assms(2) by (auto simp: shelf_effect_def Shelf_Update)
  next
    case (Shelf_Remove i)
    then have "delete_for_user u i db = Inr db'" using run by (auto simp: answer_shelf_def split: sum.splits)
    from delete_keeps [OF assms(1) this] show ?thesis by (auto simp: shelf_effect_def Shelf_Remove)
  qed
  then show "shelf_effect env u req db db'" "shelf_ok db'" by simp_all
qed

text \<open>Two users hold the first bottling of the shop; the first of them has bought it twice.\<close>
definition shelf_row :: "row_id \<Rightarrow> row_id \<Rightarrow> collection_row" where
  "shelf_row n u = (blank_row n u 1)\<lparr>co_notes := Some ''honey''\<rparr>"

definition shelf_env0 :: shelf_env where
  "shelf_env0 =
     \<lparr>sh_stores = [\<lparr>si_id = 90, si_slug = ''okwine'', si_name = ''OkWine'', si_color = None\<rparr>],
      sh_rates = \<lparr>currencies = [], rate_rows = []\<rparr>, sh_offer = (\<lambda>_. None), sh_offers_of = (\<lambda>_. []), sh_row_created = (\<lambda>_. 0),
      sh_purchase_created = (\<lambda>_. 0), sh_collate = code_unit_compare, sh_today = ''2026-02-02''\<rparr>"

definition shelf_shop :: catalogue where
  "shelf_shop = shop\<lparr>ct_collection := [shelf_row 20 1, shelf_row 21 4],
     ct_purchases := [(blank_purchase shelf_env0 22 20)\<lparr>pu_store_name := Some ''bar''\<rparr>, blank_purchase shelf_env0 23 20,
       blank_purchase shelf_env0 24 21], ct_next := 25\<rparr>"

definition no_fields :: shelf_fields where
  "no_fields = \<lparr>sf_rating = None, sf_barcode = None, sf_notes = Some [], sf_nose = None, sf_palate = None, sf_finish = None\<rparr>"

definition shelf_edit :: shelf_update where
  "shelf_edit = \<lparr>su_fields = no_fields, su_clear_rating = False, su_purchases = Some
     \<lparr>bp_add = [\<lparr>bi_purchased_on = None, bi_price = Some 100, bi_store_slug = None, bi_store_name = Some ''duty free'', bi_offer = None\<rparr>],
      bp_update = [\<lparr>bc_id = 22, bc_purchased_on = None, bc_price = None, bc_clear_price = False, bc_store_slug = Some ''okwine'',
        bc_store_name = None, bc_clear_store = False\<rparr>],
      bp_remove = [23]\<rparr>\<rparr>"

definition shelf_edited :: "row_id \<Rightarrow> (row_id \<times> row_id \<times> rat option \<times> row_id option \<times> string option) list option" where
  "shelf_edited u = (case answer_shelf shelf_env0 u (Shelf_Update 20 shelf_edit) shelf_shop of Inl _ \<Rightarrow> None
     | Inr (_, db) \<Rightarrow> Some (map (\<lambda>p. (pu_id p, pu_collection p, pu_price p, pu_store p, pu_store_name p)) (ct_purchases db)))"

lemma shelf_is_the_owners_witness:
  "answer_shelf shelf_env0 4 (Shelf_Update 20 shelf_edit) shelf_shop = Inl (Shelf_Item_Not_Found 20)
   \<and> (\<exists>ans db'. answer_shelf shelf_env0 1 (Shelf_Update 20 shelf_edit) shelf_shop = Inr (ans, db')
        \<and> shelf_ok db' \<and> only_row 20 shelf_shop db')
   \<and> shelf_edited 1 = Some [(22, 20, None, Some 90, None), (24, 21, None, None, None), (25, 20, Some 100, None, Some ''duty free'')]"
proof -
  have ok: "shelf_ok shelf_shop"
    using shop_ok
    by (simp add: shelf_ok_def shelf_shop_def catalogue_ok_def collection_ok_def purchases_ok_def products_ok_def offers_ok_def
        product_ids_def collection_key_def shelf_row_def blank_row_def blank_purchase_def one_shop_def shop_def shop_product_def shop_offer_def)
  have names: "shop_names_given (Shelf_Update 20 shelf_edit)" by (simp add: shelf_edit_def)
  note both = shelf_is_the_owners [OF ok names, where env = shelf_env0]
  have foreign: "addressed (Shelf_Update 20 shelf_edit) = Some 20 \<and> \<not> (\<exists>c\<in>set (ct_collection shelf_shop). co_id c = 20 \<and> co_user c = 4)"
    by (simp add: shelf_shop_def shelf_row_def blank_row_def)
  have rows: "shelf_edited 1 = Some [(22, 20, None, Some 90, None), (24, 21, None, None, None), (25, 20, Some 100, None, Some ''duty free'')]"
    by code_simp
  obtain ans db' where run: "answer_shelf shelf_env0 1 (Shelf_Update 20 shelf_edit) shelf_shop = Inr (ans, db')"
  proof (cases "answer_shelf shelf_env0 1 (Shelf_Update 20 shelf_edit) shelf_shop")
    case (Inl e)
    have "shelf_edited 1 = None" unfolding shelf_edited_def Inl by (simp only: sum.case)
    then show thesis using rows by (simp only: option.distinct)
  next
    case (Inr p)
    then show thesis using that [of "fst p" "snd p"] by (simp only: prod.collapse)
  qed
  have "shelf_effect shelf_env0 1 (Shelf_Update 20 shelf_edit) shelf_shop db' \<and> shelf_ok db'" using both [where u = 1] run by blast
  then have "shelf_ok db'" "only_row 20 shelf_shop db'" by (simp_all add: shelf_effect_def)
  moreover have "answer_shelf shelf_env0 4 (Shelf_Update 20 shelf_edit) shelf_shop = Inl (Shelf_Item_Not_Found 20)"
    using both [where u = 4] foreign by blast
  ultimately show ?thesis using run rows by blast
qed

section \<open>The default range of the statistics\<close>

text \<open>
  A request without a range is refused when the first purchase lies in a later month than the current
  one, or more than fifty years back.
\<close>
lemma default_range_refused:
  "resolve_range None None ''2026-02'' (Some (''2026-03'', ''2026-03'')) = Inl Range_Inverted"
  "resolve_range None None ''2026-02'' (Some (''1970-01'', ''2026-01'')) = Inl Range_Too_Wide"
  by code_simp+

end
