(* ===== verification/Scrape_Listing.thy ===== *)
theory Scrape_Listing
  imports Scrape_Persist
begin

text \<open>
  Reading a shop's listing (scrape/http and scrape/adapters): the retrying client, the verdict on a
  walk, and the walks of the shops: the server-rendered ones, the two JSON shops that state a page
  count, the chain that states an item count, the one that marks its last page and the one read
  through a browser. What a page holds once a third-party library has parsed it is a \<open>page_reader\<close>,
  and what the network answers is a function of the page number; pauses and progress events are
  left out.
\<close>

section \<open>The retrying client\<close>

datatype 'r http_attempt = Attempt_Threw string | Attempt_Replied nat 'r

datatype failure_reason = Reason_None | Reason_Status nat | Reason_Thrown string

datatype scrape_failure = Http_Failure "nat option" failure_reason | Other_Failure string

definition http_retries :: nat where
  "http_retries = 3"

definition is_hard_status :: "nat \<Rightarrow> bool" where
  "is_hard_status s \<longleftrightarrow> s = 403 \<or> s = 429 \<or> 500 \<le> s"

definition is_end_of_catalog_status :: "nat \<Rightarrow> bool" where
  "is_end_of_catalog_status s \<longleftrightarrow> s = 404 \<or> s = 410"

fun is_end_of_catalog :: "scrape_failure \<Rightarrow> bool" where
  "is_end_of_catalog (Http_Failure (Some s) _) = is_end_of_catalog_status s"
| "is_end_of_catalog _ = False"

fun retry_get :: "nat \<Rightarrow> nat \<Rightarrow> (nat \<Rightarrow> 'r http_attempt) \<Rightarrow> nat option \<times> failure_reason \<Rightarrow>
    (scrape_failure + 'r) \<times> (nat \<times> bool) list" where
  \<comment> \<open>attempts left, this attempt, the transport, the last failure; with the backoffs slept, hard or not\<close>
  "retry_get 0 attempt inner failed = (Inl (Http_Failure (fst failed) (snd failed)), [])"
| "retry_get (Suc left) attempt inner failed =
     (case inner attempt of
        Attempt_Replied s r \<Rightarrow>
          if s < 400 then (Inr r, [])
          else if is_end_of_catalog_status s then (Inl (Http_Failure (Some s) (Reason_Status s)), [])
          else apsnd ((#) (attempt, is_hard_status s)) (retry_get left (attempt + 1) inner (Some s, Reason_Status s))
      | Attempt_Threw m \<Rightarrow> apsnd ((#) (attempt, False)) (retry_get left (attempt + 1) inner (None, Reason_Thrown m)))"

definition http_get :: "(nat \<Rightarrow> 'r http_attempt) \<Rightarrow> (scrape_failure + 'r) \<times> (nat \<times> bool) list" where
  "http_get inner = retry_get http_retries 0 inner (None, Reason_None)"

section \<open>The verdict on a walk\<close>

record walk_outcome =
  wo_items :: "product_snapshot list"
  wo_result :: listing_result
  wo_stated :: "int option"

definition listing_verdict :: "listing_stop \<Rightarrow> int option \<Rightarrow> nat \<Rightarrow> listing_result" where
  "listing_verdict stop stated received =
     (if stop \<noteq> Stop_Exhausted then \<lparr>lr_complete = False, lr_stop = stop\<rparr>
      else case stated of
        None \<Rightarrow> \<lparr>lr_complete = True, lr_stop = stop\<rparr>
      | Some n \<Rightarrow> if int received < n then \<lparr>lr_complete = False, lr_stop = Stop_Short\<rparr>
                  else \<lparr>lr_complete = True, lr_stop = Stop_Counted\<rparr>)"

definition close_listing :: "product_snapshot list \<Rightarrow> listing_stop \<Rightarrow> int option \<Rightarrow> nat \<Rightarrow> walk_outcome" where
  "close_listing items stop stated received =
     \<lparr>wo_items = items, wo_result = listing_verdict stop stated received, wo_stated = stated\<rparr>"

definition fresh_snapshots :: "('c \<Rightarrow> product_snapshot option) \<Rightarrow> string list \<Rightarrow> 'c list \<Rightarrow> product_snapshot list" where
  "fresh_snapshots to_snap seen items =
     foldl (\<lambda>fresh item. case to_snap item of
         None \<Rightarrow> fresh
       | Some s \<Rightarrow> if ps_sku s \<notin> set seen \<and> ps_sku s \<notin> ps_sku ` set fresh then fresh @ [s] else fresh) [] items"

section \<open>Walking page by page\<close>

record ('p, 'c) page_reader =
  rd_cards :: "'p \<Rightarrow> 'c list"
  rd_snap :: "'c \<Rightarrow> product_snapshot option"
  rd_ends :: "'p \<Rightarrow> bool"
  rd_stated :: "'p \<Rightarrow> int option"
  rd_declared :: "'p \<Rightarrow> int option"

record walk_state =
  wl_snaps :: "product_snapshot list"
  wl_seen :: "string list"
  wl_stated :: "int option"
  wl_received :: nat
  wl_declared :: "int option"

definition walk_start :: walk_state where
  "walk_start = \<lparr>wl_snaps = [], wl_seen = [], wl_stated = None, wl_received = 0, wl_declared = None\<rparr>"

definition coalesce_int :: "int option \<Rightarrow> int option \<Rightarrow> int option" where
  \<comment> \<open>\<open>a ??= b\<close>\<close>
  "coalesce_int a b = (case a of None \<Rightarrow> b | Some _ \<Rightarrow> a)"

definition page_fresh :: "('p, 'c) page_reader \<Rightarrow> 'p \<Rightarrow> walk_state \<Rightarrow> product_snapshot list" where
  "page_fresh rd p st = fresh_snapshots (rd_snap rd) (wl_seen st) (rd_cards rd p)"

definition take_page :: "('p, 'c) page_reader \<Rightarrow> 'p \<Rightarrow> walk_state \<Rightarrow> walk_state" where
  "take_page rd p st =
     (let fresh = page_fresh rd p st
      in \<lparr>wl_snaps = wl_snaps st @ fresh, wl_seen = wl_seen st @ map ps_sku fresh,
          wl_stated = coalesce_int (wl_stated st) (rd_stated rd p),
          wl_received = wl_received st + length (rd_cards rd p),
          wl_declared = coalesce_int (wl_declared st) (rd_declared rd p)\<rparr>)"

definition close_walk :: "walk_state \<Rightarrow> listing_stop \<Rightarrow> walk_outcome" where
  "close_walk st stop = close_listing (wl_snaps st) stop (wl_stated st) (wl_received st)"

definition walk_bound :: "nat \<Rightarrow> walk_state \<Rightarrow> int" where
  "walk_bound max_pages st = (case wl_declared st of None \<Rightarrow> int max_pages | Some d \<Rightarrow> min d (int max_pages))"

definition hit_page_cap :: "nat \<Rightarrow> walk_state \<Rightarrow> bool" where
  "hit_page_cap page st = (case wl_declared st of None \<Rightarrow> True | Some d \<Rightarrow> int page \<le> d)"

function walk_from :: "('p, 'c) page_reader \<Rightarrow> nat \<Rightarrow> (nat \<Rightarrow> scrape_failure + 'p) \<Rightarrow> nat \<Rightarrow> walk_state \<Rightarrow>
    scrape_failure + walk_outcome" where
  "walk_from rd max_pages fetch page st =
     (if int page \<le> walk_bound max_pages st
      then (case fetch page of
              Inl e \<Rightarrow>
                if wl_snaps st = [] then Inl e
                else Inr (close_walk st (if is_end_of_catalog e then Stop_Exhausted else Stop_Page_Failed))
            | Inr p \<Rightarrow>
                (let st' = take_page rd p st
                 in if page_fresh rd p st = [] \<or> rd_ends rd p then Inr (close_walk st' Stop_Exhausted)
                    else walk_from rd max_pages fetch (page + 1) st'))
      else Inr (close_walk st (if hit_page_cap page st then Stop_Page_Cap else Stop_Exhausted)))"
  by pat_completeness auto
termination
  by (relation "measure (\<lambda>(rd, max_pages, fetch, page, st). max_pages + 1 - page)")
    (auto simp: walk_bound_def split: option.splits)

declare walk_from.simps [simp del]

definition html_walk :: "('p, 'c) page_reader \<Rightarrow> nat \<Rightarrow> (nat \<Rightarrow> scrape_failure + 'p) \<Rightarrow> scrape_failure + walk_outcome" where
  \<comment> \<open>the server-rendered shops, each with its own cap on the pages\<close>
  "html_walk rd max_pages fetch = walk_from (rd\<lparr>rd_declared := \<lambda>_. None\<rparr>) max_pages fetch 1 walk_start"

definition okwine_walk :: "('p, 'c) page_reader \<Rightarrow> (nat \<Rightarrow> scrape_failure + 'p) \<Rightarrow> scrape_failure + walk_outcome" where
  "okwine_walk rd fetch = walk_from (rd\<lparr>rd_ends := \<lambda>_. False\<rparr>) 40 fetch 1 walk_start"

definition silpo_page_size :: int where
  "silpo_page_size = 100"

definition silpo_walk :: "('p, 'c) page_reader \<Rightarrow> (nat \<Rightarrow> scrape_failure + 'p) \<Rightarrow> scrape_failure + walk_outcome" where
  "silpo_walk rd fetch =
     walk_from (rd\<lparr>rd_ends := \<lambda>_. False,
                   rd_declared := \<lambda>p. map_option (\<lambda>total. (total + silpo_page_size - 1) div silpo_page_size) (rd_stated rd p)\<rparr>)
       40 fetch 1 walk_start"

definition zakaz_walk :: "('p, 'c) page_reader \<Rightarrow> (scrape_failure + 's) \<Rightarrow> ('s \<Rightarrow> nat \<Rightarrow> scrape_failure + 'p) \<Rightarrow>
    scrape_failure + walk_outcome" where
  \<comment> \<open>the first outlet of the chain, then its pages\<close>
  "zakaz_walk rd store fetch =
     (case store of Inl e \<Rightarrow> Inl e
      | Inr s \<Rightarrow> walk_from (rd\<lparr>rd_ends := \<lambda>_. False, rd_declared := \<lambda>_. None\<rparr>) 40 (fetch s) 1 walk_start)"

section \<open>The shop that marks its last page\<close>

record 'c maudau_page =
  md_products :: "'c list option"
  md_total_pages :: "int option"
  md_last :: bool

definition early_stop_empty_pages :: nat where
  "early_stop_empty_pages = 2"

definition maudau_take :: "('c \<Rightarrow> product_snapshot option) \<Rightarrow> 'c list \<Rightarrow> walk_state \<Rightarrow> walk_state" where
  \<comment> \<open>this shop's count is of nothing the walk keeps, so none is taken\<close>
  "maudau_take to_snap products st =
     (let fresh = fresh_snapshots to_snap (wl_seen st) products
      in st\<lparr>wl_snaps := wl_snaps st @ fresh, wl_seen := wl_seen st @ map ps_sku fresh\<rparr>)"

definition close_uncounted :: "walk_state \<Rightarrow> listing_stop \<Rightarrow> walk_outcome" where
  "close_uncounted st stop = close_listing (wl_snaps st) stop None (length (wl_snaps st))"

function maudau_from :: "('c \<Rightarrow> product_snapshot option) \<Rightarrow> nat \<Rightarrow> (nat \<Rightarrow> scrape_failure + 'c maudau_page) \<Rightarrow>
    nat \<Rightarrow> nat \<Rightarrow> walk_state \<Rightarrow> scrape_failure + walk_outcome" where
  "maudau_from to_snap max_pages fetch page streak st =
     (if int page \<le> walk_bound max_pages st
      then (case fetch page of
              Inl e \<Rightarrow> Inl e
            | Inr p \<Rightarrow>
                (let st1 = st\<lparr>wl_declared := coalesce_int (wl_declared st) (md_total_pages p)\<rparr>
                 in case md_products p of
                      None \<Rightarrow> Inr (close_uncounted st1 Stop_Ambiguous)
                    | Some products \<Rightarrow>
                        if products = [] then Inr (close_uncounted st1 Stop_Ambiguous)
                        else (let st2 = maudau_take to_snap products st1;
                                  streak' = (if fresh_snapshots to_snap (wl_seen st) products = [] then streak + 1 else 0)
                              in if md_last p \<or> early_stop_empty_pages \<le> streak' then Inr (close_uncounted st2 Stop_Exhausted)
                                 else maudau_from to_snap max_pages fetch (page + 1) streak' st2)))
      else Inr (close_uncounted st (if hit_page_cap page st then Stop_Page_Cap else Stop_Exhausted)))"
  by pat_completeness auto
termination
  by (relation "measure (\<lambda>(to_snap, max_pages, fetch, page, streak, st). max_pages + 1 - page)")
    (auto simp: walk_bound_def split: option.splits)

declare maudau_from.simps [simp del]

definition maudau_walk :: "('c \<Rightarrow> product_snapshot option) \<Rightarrow> (nat \<Rightarrow> scrape_failure + 'c maudau_page) \<Rightarrow>
    scrape_failure + walk_outcome" where
  "maudau_walk to_snap fetch = maudau_from to_snap 80 fetch 1 0 walk_start"

section \<open>The shop read through a browser\<close>

record 'c rozetka_page =
  rz_tiles :: "'c list"
  rz_stated :: "int option"

record 'c rozetka_reader =
  rz_sku :: "'c \<Rightarrow> string"
  rz_snap :: "'c \<Rightarrow> product_snapshot option"

definition absorb :: "'c rozetka_reader \<Rightarrow> 'c list \<Rightarrow> walk_state \<Rightarrow> nat option \<times> walk_state" where
  "absorb rd tiles st =
     (let unseen = filter (\<lambda>t. rz_sku rd t \<notin> set (wl_seen st)) tiles;
          fresh = fresh_snapshots (rz_snap rd) (wl_seen st) unseen
      in (if unseen = [] then None else Some (length fresh),
          st\<lparr>wl_snaps := wl_snaps st @ fresh, wl_seen := wl_seen st @ map (rz_sku rd) unseen,
             wl_received := wl_received st + length tiles\<rparr>))"

definition max_blank_streak :: nat where
  "max_blank_streak = 2"

definition max_blank_pages :: nat where
  "max_blank_pages = 4"

fun reread_blank_pages :: "'c rozetka_reader \<Rightarrow> (nat \<Rightarrow> scrape_failure + 'c rozetka_page) \<Rightarrow> nat list \<Rightarrow> walk_state \<Rightarrow>
    scrape_failure + nat \<times> walk_state" where
  "reread_blank_pages rd fetch [] st = Inr (0, st)"
| "reread_blank_pages rd fetch (page # pages) st =
     (case fetch page of
        Inl e \<Rightarrow> Inl e
      | Inr p \<Rightarrow>
          (case reread_blank_pages rd fetch pages (if rz_tiles p = [] then st else snd (absorb rd (rz_tiles p) st)) of
             Inl e \<Rightarrow> Inl e
           | Inr (missed, st') \<Rightarrow> Inr (missed + (if rz_tiles p = [] then 1 else 0), st')))"

definition finish_rozetka :: "'c rozetka_reader \<Rightarrow> (nat \<Rightarrow> scrape_failure + 'c rozetka_page) \<Rightarrow> nat list \<Rightarrow> walk_state \<Rightarrow>
    listing_stop \<Rightarrow> scrape_failure + walk_outcome" where
  "finish_rozetka rd again blanks st stop =
     (case reread_blank_pages rd again blanks st of
        Inl e \<Rightarrow> Inl e
      | Inr (missed, st') \<Rightarrow> Inr (close_walk st' (if missed > 0 then Stop_Ambiguous else stop)))"

fun rozetka_from :: "'c rozetka_reader \<Rightarrow> (nat \<Rightarrow> scrape_failure + 'c rozetka_page) \<Rightarrow>
    (nat \<Rightarrow> scrape_failure + 'c rozetka_page) \<Rightarrow> nat \<Rightarrow> nat \<Rightarrow> nat list \<Rightarrow> nat \<Rightarrow> walk_state \<Rightarrow> scrape_failure + walk_outcome" where
  \<comment> \<open>pages left, this page, the blank ones so far and the current run of them; \<open>again\<close> answers a second reading\<close>
  "rozetka_from rd fetch again 0 page blanks streak st = finish_rozetka rd again blanks st Stop_Page_Cap"
| "rozetka_from rd fetch again (Suc left) page blanks streak st =
     (case fetch page of
        Inl e \<Rightarrow> Inl e
      | Inr p \<Rightarrow>
          (let st1 = st\<lparr>wl_stated := coalesce_int (wl_stated st) (rz_stated p)\<rparr>
           in if rz_tiles p = []
              then (if max_blank_streak \<le> streak + 1 \<or> max_blank_pages \<le> length blanks + 1
                    then Inr (close_walk st1 Stop_Ambiguous)
                    else rozetka_from rd fetch again left (page + 1) (blanks @ [page]) (streak + 1) st1)
              else (case absorb rd (rz_tiles p) st1 of
                      (None, st2) \<Rightarrow> finish_rozetka rd again blanks st2 Stop_Exhausted
                    | (Some n, st2) \<Rightarrow> rozetka_from rd fetch again left (page + 1) blanks 0 st2)))"

definition rozetka_walk :: "'c rozetka_reader \<Rightarrow> (nat \<Rightarrow> scrape_failure + 'c rozetka_page) \<Rightarrow>
    (nat \<Rightarrow> scrape_failure + 'c rozetka_page) \<Rightarrow> scrape_failure + walk_outcome" where
  "rozetka_walk rd fetch again = rozetka_from rd fetch again 80 1 [] 0 walk_start"

end
