(* ===== verification/Scrape_Collect.thy ===== *)
theory Scrape_Collect
  imports Scrape_Listing
begin

text \<open>
  Collecting one shop (scrape/scrape.service.ts): read the listing, fetch the detail pages that can
  still add something, normalise, split by availability, ask the models where the catalogue has a
  gap, and persist, or hand the items back on a dry run. The adapter's detail page, the normaliser,
  the match key, the models and the moments the deadline is looked at are the record \<open>collect_env\<close>. The
  code changes snapshots in place; a listing holds each SKU once, so \<open>put_back\<close> replaces them by SKU.
\<close>

record collect_env =
  ce_persist :: persist_env
  ce_detail :: "(product_snapshot \<Rightarrow> product_snapshot option) option"
  ce_normalize :: "product_snapshot \<Rightarrow> product_snapshot"
  ce_match_key :: "product_snapshot \<Rightarrow> string option"
  ce_fields :: "(product_snapshot list \<Rightarrow> product_snapshot list) option"
  ce_names :: "(product_snapshot list \<Rightarrow> product_snapshot list) option"
  ce_flavors :: "(product_snapshot list \<Rightarrow> product_snapshot list) option"
  ce_late_detail :: "nat \<Rightarrow> bool"
  ce_late_fields :: bool
  ce_late_names :: bool
  ce_late_flavors :: bool

definition put_back :: "product_snapshot list \<Rightarrow> product_snapshot list \<Rightarrow> product_snapshot list" where
  "put_back changed snaps =
     map (\<lambda>s. case find (\<lambda>c. ps_sku c = ps_sku s) changed of None \<Rightarrow> s | Some c \<Rightarrow> c) snaps"

section \<open>What the catalogue knows\<close>

definition find_by_match_keys :: "catalogue \<Rightarrow> string list \<Rightarrow> (string \<times> product_row) list" where
  "find_by_match_keys db keys =
     (if keys = [] then []
      else js_map (List.map_filter (\<lambda>(k, i). map_option (Pair k) (product_by_id db i)) (known_keys db keys)))"

definition load_canonical :: "collect_env \<Rightarrow> catalogue \<Rightarrow> product_snapshot list \<Rightarrow>
    product_snapshot list \<times> (string \<times> product_row) list" where
  "load_canonical env db snaps =
     (let keyed = map (\<lambda>s. s\<lparr>ps_match_key := ce_match_key env s\<rparr>) snaps
      in (keyed, find_by_match_keys db (js_set (List.map_filter ps_match_key keyed))))"

definition stored_row :: "(string \<times> product_row) list \<Rightarrow> product_snapshot \<Rightarrow> product_row option" where
  "stored_row canon s = (case ps_match_key s of None \<Rightarrow> None | Some k \<Rightarrow> if k = [] then None else js_get canon k)"

definition is_incomplete :: "product_row option \<Rightarrow> bool" where
  "is_incomplete row =
     (case row of None \<Rightarrow> True
      | Some p \<Rightarrow> pd_abv p = None \<or> pd_volume p = None \<or> pd_type_id p = None \<or> pd_country_id p = None
          \<or> (pd_last_llm_flavor_at p = None \<and> pd_flavors_curated_at p = None))"

section \<open>Detail pages\<close>

definition details_pending :: "string list \<Rightarrow> (string \<times> product_row) list \<Rightarrow> bool \<Rightarrow> product_snapshot list \<Rightarrow> product_snapshot list" where
  "details_pending known canon backfill snaps =
     filter (\<lambda>s. ps_in_stock s \<and> (backfill \<or> ps_sku s \<notin> set known) \<and> is_incomplete (stored_row canon s)) snaps"

fun enrich_pending :: "(product_snapshot \<Rightarrow> product_snapshot option) \<Rightarrow> (nat \<Rightarrow> bool) \<Rightarrow> nat \<Rightarrow> product_snapshot list \<Rightarrow>
    product_snapshot list" where
  "enrich_pending detail late n [] = []"
| "enrich_pending detail late n (s # rest) =
     (if late n then s # rest
      else (case detail s of None \<Rightarrow> s | Some s' \<Rightarrow> s') # enrich_pending detail late (n + 1) rest)"

definition enrich_details :: "collect_env \<Rightarrow> string list \<Rightarrow> bool \<Rightarrow> catalogue \<Rightarrow> product_snapshot list \<Rightarrow> product_snapshot list" where
  "enrich_details env known backfill db snaps =
     (case ce_detail env of
        None \<Rightarrow> snaps
      | Some detail \<Rightarrow>
          if snaps = [] then snaps
          else (let (keyed, canon) = load_canonical env db snaps;
                    pending = details_pending known canon backfill keyed
                in put_back (enrich_pending detail (ce_late_detail env) 0 pending) keyed))"

section \<open>The models\<close>

definition wants_field :: "product_row option \<Rightarrow> product_snapshot \<Rightarrow> bool" where
  "wants_field row s \<longleftrightarrow>
     (ps_abv s = None \<and> Option.bind row pd_abv = None) \<or> (ps_volume s = None \<and> Option.bind row pd_volume = None)"

definition fields_pending :: "string list \<Rightarrow> (string \<times> product_row) list \<Rightarrow> bool \<Rightarrow> product_snapshot list \<Rightarrow> product_snapshot list" where
  "fields_pending known canon backfill snaps =
     filter (\<lambda>s. let row = stored_row canon s
                 in if \<not> backfill \<and> ps_sku s \<in> set known then False
                    else if \<not> backfill then wants_field row s
                    else wants_field row s \<or> (ps_type s = None \<and> Option.bind row pd_type_id = None)
                      \<or> (ps_country s = None \<and> Option.bind row pd_country_id = None)) snaps"

definition run_llm :: "collect_env \<Rightarrow> string list \<Rightarrow> (string \<times> product_row) list \<Rightarrow> bool \<Rightarrow> product_snapshot list \<Rightarrow> product_snapshot list" where
  "run_llm env known canon backfill snaps =
     (case ce_fields env of
        None \<Rightarrow> snaps
      | Some ask \<Rightarrow>
          (let pending = fields_pending known canon backfill snaps
           in if pending = [] \<or> ce_late_fields env then snaps else put_back (ask pending) snaps))"

definition run_name_extraction :: "collect_env \<Rightarrow> string list \<Rightarrow> (string \<times> product_row) list \<Rightarrow> product_snapshot list \<Rightarrow> product_snapshot list" where
  "run_name_extraction env known canon snaps =
     (case ce_names env of
        None \<Rightarrow> snaps
      | Some ask \<Rightarrow>
          (let pending = filter (\<lambda>s. ps_sku s \<notin> set known \<and> stored_row canon s = None) snaps
           in if snaps = [] \<or> pending = [] \<or> ce_late_names env then snaps else put_back (ask pending) snaps))"

definition flavors_pending :: "string list \<Rightarrow> (string \<times> product_row) list \<Rightarrow> bool \<Rightarrow> product_snapshot list \<Rightarrow> product_snapshot list" where
  "flavors_pending known canon backfill snaps =
     filter (\<lambda>s. if \<not> backfill \<and> ps_sku s \<in> set known then False
                 else Option.bind (stored_row canon s) pd_flavors_curated_at = None
                   \<and> Option.bind (stored_row canon s) pd_last_llm_flavor_at = None) snaps"

definition group_by_flavor_key :: "product_snapshot list \<Rightarrow> product_snapshot list list" where
  "group_by_flavor_key pending =
     map snd (js_group_by (\<lambda>s. the (ps_match_key s)) (filter (\<lambda>s. ps_match_key s \<noteq> None) pending))
     @ map (\<lambda>s. [s]) (filter (\<lambda>s. ps_match_key s = None) pending)"

definition copy_flavors :: "product_snapshot \<Rightarrow> product_snapshot \<Rightarrow> product_snapshot" where
  "copy_flavors head' s = s\<lparr>ps_llm_tags := ps_llm_tags head', ps_llm_checked := ps_llm_checked head'\<rparr>"

definition fan_out_flavors :: "product_snapshot list \<Rightarrow> product_snapshot list list \<Rightarrow> product_snapshot list" where
  \<comment> \<open>the answered heads, and the siblings with their head's answer\<close>
  "fan_out_flavors heads groups = concat (map2 (\<lambda>h g. h # map (copy_flavors h) (tl g)) heads groups)"

definition run_flavor_enrichment :: "collect_env \<Rightarrow> string list \<Rightarrow> (string \<times> product_row) list \<Rightarrow> bool \<Rightarrow>
    product_snapshot list \<Rightarrow> product_snapshot list" where
  "run_flavor_enrichment env known canon backfill snaps =
     (case ce_flavors env of
        None \<Rightarrow> snaps
      | Some ask \<Rightarrow>
          (let pending = flavors_pending known canon backfill snaps;
               groups = group_by_flavor_key pending
           in if snaps = [] \<or> pending = [] \<or> ce_late_flavors env then snaps
              else put_back (fan_out_flavors (ask (map hd groups)) groups) snaps))"

section \<open>One shop\<close>

datatype collect_error = Store_Not_Found string | No_Scrape_Config string | Scrape_Failed scrape_failure

record site_result =
  sr_found :: nat
  sr_stored :: nat
  sr_added :: nat
  sr_removed :: nat
  sr_listing :: listing_result
  sr_stated :: "int option"
  sr_items :: "product_snapshot list option"

definition prepare_stock :: "collect_env \<Rightarrow> string list \<Rightarrow> bool \<Rightarrow> catalogue \<Rightarrow> product_snapshot list \<Rightarrow> product_snapshot list" where
  \<comment> \<open>the passes over what is in stock\<close>
  "prepare_stock env known backfill db in_stock =
     (let (keyed, canon) = load_canonical env db in_stock;
          filled = run_llm env known canon backfill keyed;
          named = run_name_extraction env known canon filled;
          (rekeyed, canon') = load_canonical env db named
      in run_flavor_enrichment env known canon' backfill rekeyed)"

definition collect_items :: "collect_env \<Rightarrow> row_id \<Rightarrow> bool \<Rightarrow> bool \<Rightarrow> string \<Rightarrow> walk_outcome \<Rightarrow> catalogue \<Rightarrow> site_result \<times> catalogue" where
  \<comment> \<open>everything after the listing was read\<close>
  "collect_items env store backfill dry_run day listing db =
     (let known = existing_skus db store;
          snaps = map (ce_normalize env) (enrich_details env known backfill db (wo_items listing));
          in_stock = filter ps_in_stock snaps;
          oos = filter (\<lambda>s. \<not> ps_in_stock s) snaps;
          ready = prepare_stock env known backfill db in_stock
      in if dry_run
         then (\<lparr>sr_found = length snaps, sr_stored = length in_stock, sr_added = 0, sr_removed = 0,
                sr_listing = wo_result listing, sr_stated = wo_stated listing, sr_items = Some ready\<rparr>, db)
         else (let (out, db') = persist (ce_persist env) store ready (map ps_sku oos) day (wo_result listing) db
               in (\<lparr>sr_found = length snaps, sr_stored = pc_stored (po_counts out), sr_added = pc_added (po_counts out),
                    sr_removed = pc_removed (po_counts out), sr_listing = wo_result listing, sr_stated = wo_stated listing,
                    sr_items = None\<rparr>, db')))"

definition collect_store :: "collect_env \<Rightarrow> (string \<Rightarrow> (row_id \<times> bool) option) \<Rightarrow> (row_id \<Rightarrow> scrape_failure + walk_outcome) \<Rightarrow>
    string \<Rightarrow> bool \<Rightarrow> bool \<Rightarrow> string \<Rightarrow> catalogue \<Rightarrow> collect_error + site_result \<times> catalogue" where
  \<comment> \<open>the shop's id with whether it has a scrape configuration, and the walk of its adapter\<close>
  "collect_store env find_store walk slug backfill dry_run day db =
     (case find_store slug of
        None \<Rightarrow> Inl (Store_Not_Found slug)
      | Some (store, configured) \<Rightarrow>
          if \<not> configured then Inl (No_Scrape_Config slug)
          else (case walk store of
                  Inl e \<Rightarrow> Inl (Scrape_Failed e)
                | Inr listing \<Rightarrow> Inr (collect_items env store backfill dry_run day listing db)))"

end
