(* ===== verification/Scrape_Facts.thy ===== *)
theory Scrape_Facts
  imports Scrape_Collect Persist_Claims
begin

text \<open>
  What a walk proves. The state after some pages is a function of the pages; a walk stops for one of
  the stated reasons; and an offer is swept only when the whole listing was read without it.
\<close>

section \<open>Fresh snapshots\<close>

lemma fresh_snapshots_simps [simp]: "fresh_snapshots f seen [] = []"
  by (simp add: fresh_snapshots_def)

lemma fresh_snapshots_snoc:
  "fresh_snapshots f seen (cs @ [c]) =
     (case f c of None \<Rightarrow> fresh_snapshots f seen cs
      | Some s \<Rightarrow> if ps_sku s \<notin> set seen \<and> ps_sku s \<notin> ps_sku ` set (fresh_snapshots f seen cs)
                then fresh_snapshots f seen cs @ [s] else fresh_snapshots f seen cs)"
  unfolding fresh_snapshots_def by (simp split: option.split)

lemma fresh_snapshots_append:
  "fresh_snapshots f seen (xs @ ys) =
     fresh_snapshots f seen xs @ fresh_snapshots f (seen @ map ps_sku (fresh_snapshots f seen xs)) ys"
proof (induction ys rule: rev_induct)
  case (snoc y ys)
  then show ?case unfolding append.assoc [symmetric] fresh_snapshots_snoc by (auto split: option.split)
qed simp

lemma in_fresh_snapshots: "s \<in> set (fresh_snapshots f seen cs) \<Longrightarrow> (\<exists>c\<in>set cs. f c = Some s) \<and> ps_sku s \<notin> set seen"
  by (induction cs rule: rev_induct) (auto simp: fresh_snapshots_snoc split: option.splits if_splits)

lemma sku_in_fresh_snapshots:
  "c \<in> set cs \<Longrightarrow> f c = Some s \<Longrightarrow> ps_sku s \<notin> set seen \<Longrightarrow> ps_sku s \<in> ps_sku ` set (fresh_snapshots f seen cs)"
  by (induction cs rule: rev_induct) (auto simp: fresh_snapshots_snoc split: option.split)

lemma distinct_fresh_snapshots: "distinct (map ps_sku (fresh_snapshots f seen cs))"
  by (induction cs rule: rev_induct) (auto simp: fresh_snapshots_snoc split: option.split)

section \<open>The state of a walk\<close>

definition served :: "('p, 'c) page_reader \<Rightarrow> 'p list \<Rightarrow> 'c list" where
  \<comment> \<open>every card of the pages, in order\<close>
  "served rd ps = concat (map (rd_cards rd) ps)"

definition walked :: "('p, 'c) page_reader \<Rightarrow> 'p list \<Rightarrow> walk_state" where
  "walked rd ps = fold (take_page rd) ps walk_start"

lemma served_simps [simp]: "served rd [] = []" "served rd (ps @ qs) = served rd ps @ served rd qs" "served rd (p # ps) = rd_cards rd p @ served rd ps"
  by (simp_all add: served_def)

lemma walked_snoc [simp]: "walked rd (ps @ [p]) = take_page rd p (walked rd ps)"
  by (simp add: walked_def)

lemma walked_snaps:
  "wl_snaps (walked rd ps) = fresh_snapshots (rd_snap rd) [] (served rd ps)
     \<and> wl_seen (walked rd ps) = map ps_sku (wl_snaps (walked rd ps)) \<and> wl_received (walked rd ps) = length (served rd ps)"
proof (induction ps rule: rev_induct)
  case Nil
  then show ?case by (simp add: walked_def walk_start_def)
next
  case (snoc p ps)
  then show ?case by (simp add: take_page_def Let_def page_fresh_def fresh_snapshots_append)
qed

definition first_stated :: "('p \<Rightarrow> int option) \<Rightarrow> 'p list \<Rightarrow> int option" where
  \<comment> \<open>what the first page that states it says\<close>
  "first_stated f ps = (case List.map_filter f ps of [] \<Rightarrow> None | n # _ \<Rightarrow> Some n)"

lemma first_stated_simps: "first_stated f [] = None" "first_stated f (ps @ [p]) = coalesce_int (first_stated f ps) (f p)"
  by (auto simp: first_stated_def List.map_filter_def coalesce_int_def split: list.split option.split)

lemma walked_stated:
  "wl_stated (walked rd ps) = first_stated (rd_stated rd) ps \<and> wl_declared (walked rd ps) = first_stated (rd_declared rd) ps"
proof (induction ps rule: rev_induct)
  case Nil
  then show ?case by (simp add: walked_def walk_start_def first_stated_simps)
next
  case (snoc p ps)
  then show ?case by (simp add: take_page_def Let_def first_stated_simps)
qed

section \<open>Why a walk stops\<close>

definition got :: "(nat \<Rightarrow> scrape_failure + 'p) \<Rightarrow> 'p list \<Rightarrow> bool" where
  \<comment> \<open>the pages from the first on\<close>
  "got fetch ps \<longleftrightarrow> (\<forall>i<length ps. fetch (i + 1) = Inr (ps ! i))"

definition nothing_new :: "('p, 'c) page_reader \<Rightarrow> 'p list \<Rightarrow> bool" where
  \<comment> \<open>every card the last page maps was on a page before it\<close>
  "nothing_new rd ps \<longleftrightarrow> ps \<noteq> [] \<and>
     (\<forall>c\<in>set (rd_cards rd (last ps)). \<forall>s. rd_snap rd c = Some s \<longrightarrow>
        (\<exists>b\<in>set (served rd (butlast ps)). \<exists>t. rd_snap rd b = Some t \<and> ps_sku t = ps_sku s))"

definition listing_ended :: "('p, 'c) page_reader \<Rightarrow> (nat \<Rightarrow> scrape_failure + 'p) \<Rightarrow> 'p list \<Rightarrow> bool" where
  \<comment> \<open>the page after was declared missing, the last one is the end or brought nothing new, or all declared pages were read\<close>
  "listing_ended rd fetch ps \<longleftrightarrow>
     (\<exists>e. fetch (length ps + 1) = Inl e \<and> is_end_of_catalog e) \<or> (ps \<noteq> [] \<and> rd_ends rd (last ps)) \<or> nothing_new rd ps
     \<or> (\<exists>d. first_stated (rd_declared rd) ps = Some d \<and> d \<le> int (length ps))"

lemma got_snoc: "got fetch ps \<Longrightarrow> fetch (length ps + 1) = Inr p \<Longrightarrow> got fetch (ps @ [p])"
  by (auto simp: got_def nth_append less_Suc_eq)

lemma page_fresh_Nil:
  "page_fresh rd p (walked rd ps) = [] \<longleftrightarrow>
     (\<forall>c\<in>set (rd_cards rd p). \<forall>s. rd_snap rd c = Some s \<longrightarrow> (\<exists>b\<in>set (served rd ps). \<exists>t. rd_snap rd b = Some t \<and> ps_sku t = ps_sku s))"
proof -
  let ?seen = "wl_seen (walked rd ps)"
  have seen: "k \<in> set ?seen \<longleftrightarrow> (\<exists>b\<in>set (served rd ps). \<exists>t. rd_snap rd b = Some t \<and> ps_sku t = k)" for k
  proof
    assume "k \<in> set ?seen"
    then obtain t where t: "t \<in> set (fresh_snapshots (rd_snap rd) [] (served rd ps))" "ps_sku t = k" using walked_snaps [of rd ps] by auto
    then show "\<exists>b\<in>set (served rd ps). \<exists>t. rd_snap rd b = Some t \<and> ps_sku t = k" using in_fresh_snapshots [OF t(1)] by auto
  next
    assume "\<exists>b\<in>set (served rd ps). \<exists>t. rd_snap rd b = Some t \<and> ps_sku t = k"
    then show "k \<in> set ?seen" using walked_snaps [of rd ps] sku_in_fresh_snapshots [of _ "served rd ps" "rd_snap rd" _ "[]"] by auto
  qed
  have "page_fresh rd p (walked rd ps) = [] \<longleftrightarrow> (\<forall>c\<in>set (rd_cards rd p). \<forall>s. rd_snap rd c = Some s \<longrightarrow> ps_sku s \<in> set ?seen)"
    unfolding page_fresh_def
    using in_fresh_snapshots [of _ "rd_snap rd" ?seen "rd_cards rd p"] sku_in_fresh_snapshots [of _ "rd_cards rd p" "rd_snap rd" _ ?seen]
    by (metis empty_iff image_empty last_in_set list.set(1))
  then show ?thesis by (simp only: seen)
qed

lemma walk_stops:
  assumes "got fetch ps" and "walk_from rd max_pages fetch (length ps + 1) (walked rd ps) = Inr o'"
  shows "\<exists>qs stop. got fetch qs \<and> o' = close_walk (walked rd qs) stop \<and> (stop = Stop_Exhausted \<longrightarrow> listing_ended rd fetch qs)"
  using assms
proof (induction "max_pages + 1 - length ps" arbitrary: ps rule: less_induct)
  case less
  let ?st = "walked rd ps"
  show ?case
  proof (cases "int (length ps + 1) \<le> walk_bound max_pages ?st")
    case False
    have ended: "listing_ended rd fetch ps" if "\<not> hit_page_cap (length ps + 1) ?st"
      using that walked_stated [of rd ps] by (auto simp: hit_page_cap_def listing_ended_def split: option.splits)
    have "o' = close_walk ?st (if hit_page_cap (length ps + 1) ?st then Stop_Page_Cap else Stop_Exhausted)"
      using less.prems(2) False by (subst (asm) walk_from.simps) simp
    then show ?thesis using less.prems(1) ended
      by (intro exI [of _ ps] exI [of _ "if hit_page_cap (length ps + 1) ?st then Stop_Page_Cap else Stop_Exhausted"]) auto
  next
    case True
    show ?thesis
    proof (cases "fetch (length ps + 1)")
      case (Inl e)
      then have "o' = close_walk ?st (if is_end_of_catalog e then Stop_Exhausted else Stop_Page_Failed)"
        using less.prems(2) True by (subst (asm) walk_from.simps) (simp split: if_splits)
      moreover have "listing_ended rd fetch ps" if "is_end_of_catalog e" using Inl that by (auto simp: listing_ended_def)
      ultimately show ?thesis using less.prems(1)
        by (intro exI [of _ ps] exI [of _ "if is_end_of_catalog e then Stop_Exhausted else Stop_Page_Failed"]) auto
    next
      case (Inr p)
      note got' = got_snoc [OF less.prems(1) Inr]
      show ?thesis
      proof (cases "page_fresh rd p ?st = [] \<or> rd_ends rd p")
        case stop: True
        then have "o' = close_walk (walked rd (ps @ [p])) Stop_Exhausted"
          using less.prems(2) True Inr by (subst (asm) walk_from.simps) (auto simp: Let_def)
        moreover have "listing_ended rd fetch (ps @ [p])"
          using stop by (auto simp: listing_ended_def nothing_new_def page_fresh_Nil)
        ultimately show ?thesis using got' by blast
      next
        case False
        then have "walk_from rd max_pages fetch (length (ps @ [p]) + 1) (walked rd (ps @ [p])) = Inr o'"
          using less.prems(2) True Inr by (subst (asm) walk_from.simps) (simp add: Let_def)
        moreover have "max_pages + 1 - length (ps @ [p]) < max_pages + 1 - length ps"
          using True by (auto simp: walk_bound_def split: option.splits)
        ultimately show ?thesis using less.hyps [OF _ got'] by blast
      qed
    qed
  qed
qed

definition enough_served :: "('p, 'c) page_reader \<Rightarrow> 'p list \<Rightarrow> bool" where
  \<comment> \<open>no fewer cards than the shop said it has, where it says so\<close>
  "enough_served rd ps \<longleftrightarrow> (\<forall>n. first_stated (rd_stated rd) ps = Some n \<longrightarrow> n \<le> int (length (served rd ps)))"

lemma complete_walk:
  assumes "walk_from rd max_pages fetch 1 walk_start = Inr o'"
  shows "\<exists>ps. got fetch ps \<and> wo_items o' = fresh_snapshots (rd_snap rd) [] (served rd ps)
    \<and> (lr_complete (wo_result o') \<longrightarrow> listing_ended rd fetch ps \<and> enough_served rd ps)"
proof -
  have "walk_from rd max_pages fetch (length ([] :: 'a list) + 1) (walked rd []) = Inr o'" using assms by (simp add: walked_def)
  from walk_stops [OF _ this] obtain ps stop where ps: "got fetch ps" "o' = close_walk (walked rd ps) stop"
    "stop = Stop_Exhausted \<longrightarrow> listing_ended rd fetch ps" by (auto simp: got_def)
  have "lr_complete (wo_result o') \<longrightarrow> stop = Stop_Exhausted \<and> enough_served rd ps"
    using walked_snaps [of rd ps] walked_stated [of rd ps]
    by (auto simp: ps(2) close_walk_def close_listing_def listing_verdict_def enough_served_def split: option.splits if_splits)
  moreover have "wo_items o' = fresh_snapshots (rd_snap rd) [] (served rd ps)"
    using walked_snaps [of rd ps] by (simp add: ps(2) close_walk_def close_listing_def)
  ultimately show ?thesis using ps by blast
qed

section \<open>Collecting a shop\<close>

lemma put_back_skus [simp]: "map ps_sku (put_back changed snaps) = map ps_sku snaps"
  unfolding put_back_def map_map by (rule map_cong) (auto split: option.split dest: find_SomeD)

lemma load_canonical_skus: "load_canonical env db snaps = (keyed, canon) \<Longrightarrow> map ps_sku keyed = map ps_sku snaps"
  by (auto simp: load_canonical_def Let_def)

lemma enrich_details_skus: "map ps_sku (enrich_details env known backfill db snaps) = map ps_sku snaps"
  by (auto simp: enrich_details_def Let_def dest: load_canonical_skus split: option.split prod.split)

lemma model_skus:
  "map ps_sku (run_llm env known canon backfill snaps) = map ps_sku snaps"
  "map ps_sku (run_name_extraction env known canon snaps) = map ps_sku snaps"
  "map ps_sku (run_flavor_enrichment env known canon backfill snaps) = map ps_sku snaps"
  by (simp_all add: run_llm_def run_name_extraction_def run_flavor_enrichment_def Let_def split: option.split)

lemma prepare_stock_skus: "map ps_sku (prepare_stock env known backfill db snaps) = map ps_sku snaps"
  unfolding prepare_stock_def Let_def
  by (auto simp: model_skus load_canonical_skus split: prod.split)

definition facts_only :: "(product_snapshot \<Rightarrow> product_snapshot) \<Rightarrow> bool" where
  \<comment> \<open>the normaliser writes facts, not the SKU nor the availability\<close>
  "facts_only f \<longleftrightarrow> (\<forall>s. ps_sku (f s) = ps_sku s \<and> ps_in_stock (f s) = ps_in_stock s)"

abbreviation listed_items :: "collect_env \<Rightarrow> bool \<Rightarrow> catalogue \<Rightarrow> row_id \<Rightarrow> walk_outcome \<Rightarrow> product_snapshot list" where
  \<comment> \<open>the items of a listing with what their detail pages added\<close>
  "listed_items env backfill db store listing \<equiv> enrich_details env (existing_skus db store) backfill db (wo_items listing)"

lemma collect_parts:
  assumes run: "collect_store env find_store walk slug backfill False day db = Inr (r, db')"
  obtains store listing out snaps where "find_store slug = Some (store, True)" and "walk store = Inr listing"
    and "snaps = map (ce_normalize env) (listed_items env backfill db store listing)"
    and "persist (ce_persist env) store (prepare_stock env (existing_skus db store) backfill db (filter ps_in_stock snaps))
        (map ps_sku (filter (\<lambda>s. \<not> ps_in_stock s) snaps)) day (wo_result listing) db = (out, db')"
proof -
  obtain store where store: "find_store slug = Some (store, True)"
    using run by (auto simp: collect_store_def split: option.splits if_splits)
  obtain listing where listing: "walk store = Inr listing"
    using run by (auto simp: collect_store_def store split: sum.splits)
  define snaps where "snaps = map (ce_normalize env) (listed_items env backfill db store listing)"
  have "collect_items env store backfill False day listing db = (r, db')"
    using run by (simp add: collect_store_def store listing)
  then have "\<exists>out. persist (ce_persist env) store (prepare_stock env (existing_skus db store) backfill db (filter ps_in_stock snaps))
      (map ps_sku (filter (\<lambda>s. \<not> ps_in_stock s) snaps)) day (wo_result listing) db = (out, db')"
    unfolding collect_items_def Let_def if_False snaps_def [symmetric] by (auto split: prod.splits)
  then show thesis using that [OF store listing snaps_def] by blast
qed

lemma swept_after_collect:
  assumes ok: "catalogue_ok db" and normal: "facts_only (ce_normalize env)"
    and run: "persist (ce_persist env) store (prepare_stock env known backfill db (filter ps_in_stock snaps))
        (map ps_sku (filter (\<lambda>s. \<not> ps_in_stock s) snaps)) day listing db = (out, db')"
    and snaps: "snaps = map (ce_normalize env) items"
    and y: "y \<in> set (ct_offers db')" "of_store y = store" "\<not> of_in_stock y"
    and before: "\<exists>x\<in>set (ct_offers db). of_id x = of_id y \<and> of_in_stock x"
  shows "(\<exists>s\<in>set items. ps_sku s = of_sku y \<and> \<not> ps_in_stock s) \<or> (lr_complete listing \<and> (\<forall>s\<in>set items. ps_sku s \<noteq> of_sku y))"
proof -
  let ?ready = "prepare_stock env known backfill db (filter ps_in_stock snaps)"
  have "ps_sku ` set ?ready = set (map ps_sku ?ready)" by simp
  also have "\<dots> = set (map ps_sku (filter ps_in_stock snaps))" by (simp only: prepare_stock_skus)
  also have "\<dots> = ps_sku ` {s \<in> set items. ps_in_stock s}"
    using normal by (simp add: snaps facts_only_def filter_map comp_def image_image)
  finally have inn: "ps_sku ` set ?ready = ps_sku ` {s \<in> set items. ps_in_stock s}" .
  have out: "set (map ps_sku (filter (\<lambda>s. \<not> ps_in_stock s) snaps)) = ps_sku ` {s \<in> set items. \<not> ps_in_stock s}"
    using normal by (simp add: snaps facts_only_def filter_map comp_def image_image)
  obtain x where x: "x \<in> set (ct_offers db)" "of_id x = of_id y" "of_in_stock x" using before by blast
  note after = stock_after [OF ok run y(1,2), unfolded inn out]
  show ?thesis
  proof (cases "lr_complete listing")
    case True
    then have "of_sku y \<notin> ps_sku ` {s \<in> set items. ps_in_stock s}" using after y(3) by simp
    then have "\<not> ps_in_stock s" if "s \<in> set items" "ps_sku s = of_sku y" for s using that by (auto simp: image_iff)
    then show ?thesis using True by blast
  next
    case False
    then have "of_sku y \<in> ps_sku ` {s \<in> set items. \<not> ps_in_stock s}" using after y(3) x by auto
    then show ?thesis by auto
  qed
qed

section \<open>A shop to collect\<close>

definition counter_reader :: "(product_snapshot list, product_snapshot) page_reader" where
  \<comment> \<open>pages that are lists of snapshots\<close>
  "counter_reader = \<lparr>rd_cards = (\<lambda>p. p), rd_snap = Some, rd_ends = (\<lambda>_. False), rd_stated = (\<lambda>_. None), rd_declared = (\<lambda>_. None)\<rparr>"

definition one_page :: "nat \<Rightarrow> scrape_failure + product_snapshot list" where
  "one_page n = (if n = 1 then Inr shop_run else Inl (Http_Failure (Some 404) (Reason_Status 404)))"

definition plain_env :: collect_env where
  "plain_env = \<lparr>ce_persist = shop_env, ce_detail = None, ce_normalize = (\<lambda>s. s), ce_match_key = ps_match_key,
     ce_fields = None, ce_names = None, ce_flavors = None, ce_late_detail = (\<lambda>_. False), ce_late_fields = False,
     ce_late_names = False, ce_late_flavors = False\<rparr>"

definition counter_run :: "collect_error + site_result \<times> catalogue" where
  "counter_run = collect_store plain_env (\<lambda>_. Some (90, True)) (\<lambda>_. walk_from counter_reader 40 one_page 1 walk_start)
     ''counter'' False False ''2026-02-02'' shop"

lemma counter_run_result:
  "\<exists>r db'. counter_run = Inr (r, db') \<and>
     map (\<lambda>x. (of_id x, of_store x, of_sku x, of_in_stock x)) (ct_offers db')
       = [(3, 90, ''a'', True), (4, 90, ''b'', False), (5, 91, ''a'', True), (7, 90, ''c'', True)]"
proof -
  have rows: "(case counter_run of Inl _ \<Rightarrow> None | Inr (r, db') \<Rightarrow>
      Some (map (\<lambda>x. (of_id x, of_store x, of_sku x, of_in_stock x)) (ct_offers db')))
    = Some [(3, 90, ''a'', True), (4, 90, ''b'', False), (5, 91, ''a'', True), (7, 90, ''c'', True)]" by code_simp
  then obtain r db' where run: "counter_run = Inr (r, db')" 
  proof (cases counter_run)
    case (Inl e)
    show ?thesis using rows unfolding Inl by (simp only: sum.case option.distinct)
  qed (use that in auto)
  from rows [unfolded run sum.case prod.case option.inject] run show ?thesis by (intro exI conjI) assumption+
qed

lemma got_one_page: "got one_page ps \<Longrightarrow> ps = [] \<or> ps = [shop_run]"
proof (cases ps)
  case (Cons p qs)
  assume got: "got one_page ps"
  then have "qs = []" using Cons by (cases qs) (auto simp: got_def one_page_def)
  then show ?thesis using got Cons by (simp add: got_def one_page_def)
qed simp

section \<open>The property\<close>



end
