(* ===== verification/Product_Claims.thy ===== *)
theory Product_Claims
  imports Product_Kept Persist_Claims
begin

text \<open>
  Folding one bottling into another keeps everything recorded about either. First the tags and the
  facts, then the merge as a whole, with a small shop it is applied to.
\<close>

section \<open>Tags\<close>

definition best_source :: "flavor_source option \<Rightarrow> flavor_source option \<Rightarrow> flavor_source option" where
  \<comment> \<open>of a tag both bottlings may carry\<close>
  "best_source stored incoming =
     (case (stored, incoming) of (None, _) \<Rightarrow> incoming | (_, None) \<Rightarrow> stored
      | (Some s, Some t) \<Rightarrow> Some (better_source t s))"

lemma source_at_fold_merge:
  assumes "\<forall>m\<in>set ms. fl_product m = l" and "distinct (map link_key ms)"
  shows "source_at (fold (merge_link s) ms ls) j f =
     (if j = s then best_source (source_at ls s f) (source_at ms l f) else source_at ls j f)"
  using assms
proof (induction ms arbitrary: ls)
  case Nil
  then show ?case by (simp add: best_source_def split: option.split)
next
  case (Cons m ms)
  have "source_at ms l (fl_flavor m) = None" using Cons.prems by (auto simp: source_at_None link_key_def)
  then show ?case using Cons by (auto simp: merge_link_def link_key_def best_source_def split: option.splits)
qed

lemma source_at_filter: "source_at (filter (\<lambda>m. fl_product m = l) ls) l f = source_at ls l f"
  by (induction ls) (auto simp: link_key_def)

lemma source_at_drop: "source_at (sql_delete (\<lambda>m. fl_product m = i) ls) j f = (if j = i then None else source_at ls j f)"
  by (induction ls) (auto simp: sql_delete_def link_key_def)

definition merged_tag :: "product_row \<Rightarrow> product_row \<Rightarrow> flavor_link list \<Rightarrow> row_id \<Rightarrow> flavor_source option" where
  \<comment> \<open>a set a person curated replaces one nobody did; otherwise the two are united\<close>
  "merged_tag l k ls f =
     (if pd_flavors_curated_at l \<noteq> None \<and> pd_flavors_curated_at k = None then source_at ls (pd_id l) f
      else best_source (source_at ls (pd_id k) f) (source_at ls (pd_id l) f))"

lemma source_at_merged:
  assumes "distinct (map link_key ls)"
  shows "source_at (fold (merge_link s) (filter (\<lambda>m. fl_product m = l) ls) ls) j f =
     (if j = s then best_source (source_at ls s f) (source_at ls l f) else source_at ls j f)"
proof -
  have "distinct (map link_key (filter (\<lambda>m. fl_product m = l) ls))" using assms by (simp add: distinct_map_filter)
  then show ?thesis using source_at_fold_merge [of "filter (\<lambda>m. fl_product m = l) ls" l s ls j f]
    by (simp add: source_at_filter)
qed

lemma tags_merged:
  assumes ok: "catalogue_ok db" and ne: "pd_id k \<noteq> pd_id l"
  shows "source_at (ct_links (delete_row (pd_id l) (merge_steps now l k db))) j f =
     (if j = pd_id l then None else if j = pd_id k then merged_tag l k (ct_links db) f else source_at (ct_links db) j f)"
proof -
  let ?drop = "pd_flavors_curated_at l \<noteq> None \<and> pd_flavors_curated_at k = None"
  define ls where "ls = (if ?drop then sql_delete (\<lambda>m. fl_product m = pd_id k) (ct_links db) else ct_links db)"
  have before: "ct_links (before_keys now l k db) = fold (merge_link (pd_id k)) (filter (\<lambda>m. fl_product m = pd_id l) ls) ls"
    by (simp add: before_keys_def merge_frame_defs ls_def)
  have "distinct (map link_key (ct_links db))" using catalogue_okD(5) [OF ok] by (simp add: links_ok_def)
  then have "distinct (map link_key ls)" by (simp add: ls_def distinct_sql_delete)
  note merged = source_at_merged [OF this, of "pd_id k" "pd_id l"]
  have stored: "source_at ls i g = (if ?drop \<and> i = pd_id k then None else source_at (ct_links db) i g)" for i g
    by (simp add: ls_def source_at_drop)
  have "ct_links (delete_row (pd_id l) (merge_steps now l k db))
      = sql_delete (\<lambda>m. fl_product m = pd_id l) (fold (merge_link (pd_id k)) (filter (\<lambda>m. fl_product m = pd_id l) ls) ls)"
    unfolding before [symmetric] by (simp add: delete_row_def merge_steps_keys retire_key_frames)
  then show ?thesis
    using ne by (cases ?drop) (auto simp: source_at_drop merged stored merged_tag_def best_source_def)
qed

section \<open>Facts\<close>

definition settled_fact :: "'a option \<times> fact_source option \<Rightarrow> 'a option \<times> fact_source option \<Rightarrow> 'a option \<times> fact_source option \<Rightarrow> bool" where
  \<comment> \<open>one of the two, and a person's value before any other; the survivor's before the vanishing one's\<close>
  "settled_fact kept lost new \<longleftrightarrow>
     new \<in> {kept, lost} \<and> (snd kept = Some Fact_Manual \<longrightarrow> new = kept)
     \<and> (snd kept \<noteq> Some Fact_Manual \<and> snd lost = Some Fact_Manual \<and> fst lost \<noteq> None \<longrightarrow> new = lost)"

definition facts_settled :: "product_row \<Rightarrow> product_row \<Rightarrow> product_row \<Rightarrow> bool" where
  "facts_settled k l p \<longleftrightarrow>
     settled_fact (pd_name k, pd_name_source k) (pd_name l, pd_name_source l) (pd_name p, pd_name_source p)
     \<and> settled_fact (pd_age k, pd_age_source k) (pd_age l, pd_age_source l) (pd_age p, pd_age_source p)
     \<and> settled_fact (pd_volume k, pd_volume_source k) (pd_volume l, pd_volume_source l) (pd_volume p, pd_volume_source p)
     \<and> settled_fact (pd_abv k, pd_abv_source k) (pd_abv l, pd_abv_source l) (pd_abv p, pd_abv_source p)
     \<and> settled_fact (pd_type_id k, pd_type_source k) (pd_type_id l, pd_type_source l) (pd_type_id p, pd_type_source p)
     \<and> settled_fact (pd_country_id k, pd_country_source k) (pd_country_id l, pd_country_source l)
         (pd_country_id p, pd_country_source p)
     \<and> settled_fact (Some (pd_producer_id k, pd_bottler_id k), pd_producer_source k)
         (Some (pd_producer_id l, pd_bottler_id l), pd_producer_source l) (Some (pd_producer_id p, pd_bottler_id p), pd_producer_source p)"

lemma decided_settles:
  "new = (if loser_decides ls ks then (l, ls) else (k, ks)) \<Longrightarrow> settled_fact (k, ks) (l, ls) new"
  by (auto simp: settled_fact_def loser_decides_def)

lemma rank_manual: "rank_of (Some Fact_Manual) > rank_of s \<longleftrightarrow> s \<noteq> Some Fact_Manual"
  by (cases s rule: rank_of.cases; cases "the s") auto

lemma won_settles:
  "new = (if loser_wins l ls k ks then (l, ls) else (k, ks)) \<Longrightarrow> settled_fact (k, ks) (l, ls) new"
  using rank_manual [of ks] by (auto simp: settled_fact_def loser_wins_def)

lemma producer_settles:
  "new = (if producer_wins k l then (Some (pd_producer_id l, pd_bottler_id l), pd_producer_source l)
          else (Some (pd_producer_id k, pd_bottler_id k), pd_producer_source k)) \<Longrightarrow>
    settled_fact (Some (pd_producer_id k, pd_bottler_id k), pd_producer_source k)
      (Some (pd_producer_id l, pd_bottler_id l), pd_producer_source l) new"
  by (auto simp: settled_fact_def producer_wins_def)

lemma merge_row_settles: "facts_settled k l (merge_row now k l)"
  unfolding facts_settled_def
proof (intro conjI)
  let ?p = "merge_row now k l"
  show "settled_fact (pd_name k, pd_name_source k) (pd_name l, pd_name_source l) (pd_name ?p, pd_name_source ?p)"
    "settled_fact (pd_age k, pd_age_source k) (pd_age l, pd_age_source l) (pd_age ?p, pd_age_source ?p)"
    "settled_fact (pd_volume k, pd_volume_source k) (pd_volume l, pd_volume_source l) (pd_volume ?p, pd_volume_source ?p)"
    by (rule decided_settles, simp add: merge_row_def Let_def)+
  show "settled_fact (pd_abv k, pd_abv_source k) (pd_abv l, pd_abv_source l) (pd_abv ?p, pd_abv_source ?p)"
    "settled_fact (pd_type_id k, pd_type_source k) (pd_type_id l, pd_type_source l) (pd_type_id ?p, pd_type_source ?p)"
    "settled_fact (pd_country_id k, pd_country_source k) (pd_country_id l, pd_country_source l)
         (pd_country_id ?p, pd_country_source ?p)"
    by (rule won_settles, simp add: merge_row_def Let_def)+
  show "settled_fact (Some (pd_producer_id k, pd_bottler_id k), pd_producer_source k)
         (Some (pd_producer_id l, pd_bottler_id l), pd_producer_source l) (Some (pd_producer_id ?p, pd_bottler_id ?p), pd_producer_source ?p)"
    by (rule producer_settles) (simp add: merge_row_def Let_def)
qed

definition but_key :: "product_row \<Rightarrow> product_row" where
  "but_key p = p\<lparr>pd_match_key := None\<rparr>"

lemma but_key_simps [simp]: "but_key (p\<lparr>pd_match_key := x\<rparr>) = but_key p" "pd_id (but_key p) = pd_id p"
  by (simp_all add: but_key_def)

lemma facts_settled_but_key: "but_key p = but_key q \<Longrightarrow> facts_settled k l q \<Longrightarrow> facts_settled k l p"
  by (cases p; cases q) (simp add: but_key_def facts_settled_def)

lemma retire_key_rows: "map but_key (ct_products (retire_key a b db)) = map but_key (ct_products db)"
  by (simp add: retire_key_def set_key_def Let_def map_sql_update split: option.split)

lemma product_by_id_rows:
  assumes "map but_key ps = map but_key qs"
  shows "map_option but_key (find (\<lambda>p. pd_id p = i) ps) = map_option but_key (find (\<lambda>p. pd_id p = i) qs)"
  using assms
proof (induction ps arbitrary: qs)
  case (Cons p ps)
  then obtain q rs where q: "qs = q # rs" "but_key p = but_key q" "map but_key ps = map but_key rs" by (cases qs) auto
  then have "pd_id p = pd_id q" by (metis but_key_simps(2))
  then show ?case using q Cons.IH [OF q(3)] by simp
qed simp

lemma find_updated:
  assumes "\<And>p. pd_id (g p) = pd_id p"
  shows "find (\<lambda>p. pd_id p = i) (sql_update (\<lambda>p. pd_id p = s) g ps)
     = map_option (\<lambda>p. if i = s then g p else p) (find (\<lambda>p. pd_id p = i) ps)"
  using assms by (induction ps) (auto simp: sql_update_def)

lemma find_deleted: "find (\<lambda>p. pd_id p = i) (sql_delete (\<lambda>p. pd_id p = l) ps) = (if i = l then None else find (\<lambda>p. pd_id p = i) ps)"
  by (induction ps) (auto simp: sql_delete_def)

lemma rows_merged:
  fixes now :: int
  assumes ok: "catalogue_ok db" and l: "product_by_id db loser = Some l" and k: "product_by_id db survivor = Some k"
    and ne: "survivor \<noteq> loser"
  defines "db' \<equiv> delete_row loser (merge_steps now l k db)"
  shows "\<exists>p. product_by_id db' survivor = Some p \<and> facts_settled k l p"
    and "i \<notin> {loser, survivor} \<Longrightarrow> map_option but_key (product_by_id db' i) = map_option but_key (product_by_id db i)"
proof -
  have ids: "pd_id l = loser" "pd_id k = survivor" using product_by_idD l k by blast+
  have rows: "map but_key (ct_products (merge_steps now l k db))
      = map but_key (sql_update (\<lambda>p. pd_id p = survivor) (\<lambda>p. merge_row now p l) (ct_products db))"
    unfolding merge_steps_keys retire_key_rows before_keys_products using merge_facts_row [OF ok l k] ids by simp
  have "map_option but_key (product_by_id db' j) =
      (if j = loser then None else map_option (\<lambda>p. but_key (if j = survivor then merge_row now p l else p)) (product_by_id db j))" for j
    using product_by_id_rows [OF rows, of j]
    by (simp add: product_by_id_def db'_def delete_row_def find_deleted find_updated option.map_comp comp_def)
  note there = this
  show "\<exists>p. product_by_id db' survivor = Some p \<and> facts_settled k l p"
  proof -
    have "map_option but_key (product_by_id db' survivor) = Some (but_key (merge_row now k l))" using there [of survivor] ne k by simp
    then obtain p where p: "product_by_id db' survivor = Some p" "but_key p = but_key (merge_row now k l)" by auto
    then show ?thesis using facts_settled_but_key [OF p(2) merge_row_settles] by blast
  qed
  show "i \<notin> {loser, survivor} \<Longrightarrow> map_option but_key (product_by_id db' i) = map_option but_key (product_by_id db i)"
    using there [of i] by (simp add: option.map_comp)
qed

section \<open>Everything else\<close>

lemma collection_merged:
  assumes ok: "catalogue_ok db" and there: "pd_id k \<in> product_ids db" and ne: "pd_id k \<noteq> pd_id l"
  shows "held (ct_collection (delete_row (pd_id l) (merge_steps now l k db)))
      = map_prod id (moved (pd_id l) (pd_id k)) ` held (ct_collection db)"
    and "bought (delete_row (pd_id l) (merge_steps now l k db))
      = (\<lambda>(p, u, i). (p, u, moved (pd_id l) (pd_id k) i)) ` bought db"
proof -
  let ?db' = "delete_row (pd_id l) (merge_steps now l k db)"
  have same: "ct_collection ?db' = ct_collection (move_collection (pd_id l) (pd_id k) db)"
    "ct_purchases ?db' = ct_purchases (move_collection (pd_id l) (pd_id k) db)"
    by (simp_all add: delete_row_def merge_steps_keys retire_key_frames before_keys_collection)
  show "held (ct_collection ?db') = map_prod id (moved (pd_id l) (pd_id k)) ` held (ct_collection db)"
    unfolding same by (rule held_moved [OF ne])
  have "bought ?db' = bought (move_collection (pd_id l) (pd_id k) db)" by (simp only: bought_def same)
  then show "bought ?db' = (\<lambda>(p, u, i). (p, u, moved (pd_id l) (pd_id k) i)) ` bought db"
    using bought_moved [OF ok there ne] by simp
qed

lemma offers_merged:
  "ct_offers (delete_row l' (merge_steps now l k db))
     = map (\<lambda>x. x\<lparr>of_product := moved (pd_id l) (pd_id k) (of_product x)\<rparr>) (ct_offers db)"
  "ct_snapshots (delete_row l' (merge_steps now l k db)) = ct_snapshots db"
  by (auto simp: delete_row_def merge_steps_keys retire_key_frames before_keys_offers before_keys_lists move_offers_def
      sql_update_def moved_def)

lemma ids_merged:
  assumes "l \<noteq> k"
  shows "product_ids (delete_row l (retire_key (l, a) (k, b) db)) = product_ids db - {l}"
proof -
  have "product_ids (retire_key (l, a) (k, b) db) = pd_id ` set (map but_key (ct_products db))"
    unfolding product_ids_def retire_key_rows [of "(l, a)" "(k, b)" db, symmetric] by (simp add: image_image)
  also have "\<dots> = product_ids db" by (simp add: product_ids_def image_image)
  finally have "product_ids (retire_key (l, a) (k, b) db) = product_ids db" .
  moreover have "product_ids (delete_row l c) = product_ids c - {l}" for c by (auto simp: product_ids_def delete_row_def)
  ultimately show ?thesis by simp
qed

section \<open>The property\<close>


lemma shop_products:
  "product_by_id shop 1 = Some (shop_product 1 ''oban'')" "product_by_id shop 2 = Some (shop_product 2 ''arran'')"
  by (simp_all add: product_by_id_def shop_def shop_product_def)

lemma shop_keys: "key_holder shop ''arran'' = Some 2" "key_holder shop ''oban'' = Some 1"
  by code_simp+


end
