(* ===== verification/Product_Edit_Facts.thy ===== *)
theory Product_Edit_Facts
  imports Product_Claims
begin

text \<open>
  What an edit settles. A chain of merges into one survivor as a fold of single merges, the twins of
  an identity as a set, the writes before the merge, and the edit as a whole: when it is refused, and
  where everybody ends up when it is not.
\<close>

section \<open>Chains of merges\<close>

definition folded :: "row_id set \<Rightarrow> row_id \<Rightarrow> row_id \<Rightarrow> row_id" where
  \<comment> \<open>where a bottling is after those of \<open>A\<close> were folded into \<open>s\<close>\<close>
  "folded A s i = (if i \<in> A then s else i)"

definition bears :: "(string \<Rightarrow> string) \<Rightarrow> string option \<Rightarrow> int option \<Rightarrow> int option \<Rightarrow> catalogue \<Rightarrow> row_id set" where
  \<comment> \<open>the bottlings of one identity\<close>
  "bears ident name vol age db = {i. \<exists>p\<in>set (ct_products db). pd_id p = i \<and> same_identity ident p name vol age}"

lemma bears_products: "ct_products a = ct_products b \<Longrightarrow> bears ident name vol age a = bears ident name vol age b"
  by (simp add: bears_def)

lemma same_identity_but_key: "but_key p = but_key q \<Longrightarrow> same_identity ident p name vol age = same_identity ident q name vol age"
  by (cases p; cases q) (simp add: but_key_def same_identity_def)

lemma merge_step:
  assumes ok: "catalogue_ok db" and ids: "i \<in> product_ids db" "s \<in> product_ids db" and ne: "i \<noteq> s"
  shows "\<exists>db'. merge_into now i s db = Inr db' \<and> catalogue_ok db' \<and> product_ids db' = product_ids db - {i}
    \<and> keys_of db' = map_prod id (moved i s) ` keys_of db
    \<and> bears ident name vol age db' \<subseteq> insert s (bears ident name vol age db)"
proof -
  obtain l where l: "product_by_id db i = Some l" using ids(1) product_by_id_iff by blast
  obtain k where k: "product_by_id db s = Some k" using ids(2) product_by_id_iff by blast
  let ?db' = "delete_row i (merge_steps now l k db)"
  have l': "l \<in> set (ct_products db)" "pd_id l = i" and k': "k \<in> set (ct_products db)" "pd_id k = s"
    using product_by_idD l k by blast+
  note whole = merge_succeeds [OF ok l k ne, where now = now]
  have "product_ids ?db' = product_ids db - {i}"
    using ids_merged [OF ne] by (simp add: merge_steps_keys l'(2) k'(2) before_keys_ids)
  moreover have "keys_of ?db' = map_prod id (moved i s) ` keys_of db"
    using keys_merged [OF ok l'(1) k'(1), of now] ne by (simp add: l'(2) k'(2))
  moreover have "j \<in> insert s (bears ident name vol age db)" if bearer: "j \<in> bears ident name vol age ?db'" for j
  proof (cases "j = s")
    case False
    obtain p where p: "p \<in> set (ct_products ?db')" "pd_id p = j" "same_identity ident p name vol age"
      using bearer by (auto simp: bears_def)
    then have "j \<noteq> i" by (auto simp: delete_row_def)
    have "product_by_id ?db' j = Some p" using product_by_id_row [OF whole(2) p(1)] p(2) by simp
    then have "map_option but_key (product_by_id db j) = Some (but_key p)"
      using rows_merged(2) [OF ok l k ne [symmetric], of j now] False \<open>j \<noteq> i\<close> by simp
    then obtain q where q: "product_by_id db j = Some q" "but_key q = but_key p" by auto
    then have "same_identity ident q name vol age" using p(3) same_identity_but_key by blast
    then show ?thesis using product_by_idD [OF q(1)] by (auto simp: bears_def)
  qed simp
  ultimately show ?thesis using whole by blast
qed

lemma merge_all_settles:
  assumes "catalogue_ok db" and "s \<in> product_ids db" and "set js \<subseteq> product_ids db" and "s \<notin> set js" and "distinct js"
  shows "\<exists>db'. merge_all now s js db = Inr db' \<and> catalogue_ok db' \<and> product_ids db' = product_ids db - set js
    \<and> keys_of db' = map_prod id (folded (set js) s) ` keys_of db
    \<and> bears ident name vol age db' \<subseteq> insert s (bears ident name vol age db - set js)"
  using assms
proof (induction js arbitrary: db)
  case Nil
  then show ?case by (auto simp: folded_def map_prod_def)
next
  case (Cons i js)
  obtain db1 where step: "merge_into now i s db = Inr db1" "catalogue_ok db1" "product_ids db1 = product_ids db - {i}"
    "keys_of db1 = map_prod id (moved i s) ` keys_of db" "bears ident name vol age db1 \<subseteq> insert s (bears ident name vol age db)"
    using merge_step [OF Cons.prems(1), of i s now ident name vol age] Cons.prems by auto
  obtain db' where rest: "merge_all now s js db1 = Inr db'" "catalogue_ok db'" "product_ids db' = product_ids db1 - set js"
    "keys_of db' = map_prod id (folded (set js) s) ` keys_of db1"
    "bears ident name vol age db' \<subseteq> insert s (bears ident name vol age db1 - set js)"
  proof -
    have "s \<in> product_ids db1" "set js \<subseteq> product_ids db1" "s \<notin> set js" "distinct js" using Cons.prems step(3) by auto
    from Cons.IH [OF step(2) this] show ?thesis using that by blast
  qed
  have "folded (set js) s (moved i s j) = folded (set (i # js)) s j" for j
    using Cons.prems(4,5) by (simp add: folded_def moved_def)
  then have "keys_of db' = map_prod id (folded (set (i # js)) s) ` keys_of db"
    unfolding rest(4) step(4) image_image by (intro image_cong) (auto simp: map_prod_def split: prod.splits)
  moreover have "bears ident name vol age db' \<subseteq> product_ids db'" by (auto simp: bears_def product_ids_def)
  then have "bears ident name vol age db' \<subseteq> insert s (bears ident name vol age db - set (i # js))"
    using rest(3,5) step(3,5) Cons.prems(4) by auto
  moreover have "merge_all now s (i # js) db = Inr db'" using step(1) rest(1) by simp
  moreover have "product_ids db' = product_ids db - set (i # js)" using rest(3) step(3) by auto
  ultimately show ?case using rest(2) by blast
qed

section \<open>Twins\<close>

lemma set_identity_twins:
  "set (identity_twins ident db name vol age except) = {i \<in> bears ident name vol age db. Some i \<noteq> except}"
  by (auto simp: identity_twins_def bears_def)

lemma distinct_identity_twins:
  assumes "catalogue_ok db"
  shows "distinct (identity_twins ident db name vol age except)"
proof -
  have ids: "distinct (map pd_id (ct_products db))" using catalogue_okD(1) [OF assms] by (simp add: products_ok_def)
  have "distinct (map pd_id (js_sort cmp (filter Q (ct_products db))))" for cmp Q
  proof -
    have "mset (map pd_id (js_sort cmp (filter Q (ct_products db)))) = mset (map pd_id (filter Q (ct_products db)))"
      by (simp add: mset_js_sort)
    then show ?thesis using ids by (metis distinct_map_filter mset_eq_imp_distinct_iff)
  qed
  then show ?thesis by (simp add: identity_twins_def)
qed

lemma merge_twins_settles:
  assumes ok: "catalogue_ok db" and i: "i \<in> product_ids db"
  shows "\<exists>s db'. merge_twins ident now i name vol age db = Inr (s, db') \<and> catalogue_ok db' \<and> s \<in> product_ids db'
    \<and> product_ids db' = product_ids db - (insert i (bears ident name vol age db) - {s})
    \<and> keys_of db' = map_prod id (folded (insert i (bears ident name vol age db)) s) ` keys_of db
    \<and> bears ident name vol age db' \<subseteq> {s} \<and> s \<in> insert i (bears ident name vol age db)"
proof (cases "identity_twins ident db name vol age (Some i)")
  case Nil
  then have alone: "bears ident name vol age db \<subseteq> {i}" using set_identity_twins [of ident db name vol age "Some i"] by auto
  moreover have "folded (insert i (bears ident name vol age db)) i j = j" for j using alone by (auto simp: folded_def)
  ultimately show ?thesis using Nil ok i by (auto simp: merge_twins_def map_prod_def)
next
  case (Cons s rest)
  let ?B = "bears ident name vol age db"
  have twins: "insert s (set rest) = ?B - {i}" using set_identity_twins [of ident db name vol age "Some i"] Cons by auto
  have known: "?B \<subseteq> product_ids db" by (auto simp: bears_def product_ids_def)
  have d: "distinct (s # rest)" using distinct_identity_twins [OF ok, of ident name vol age "Some i"] Cons by simp
  have "s \<in> product_ids db" "set (i # rest) \<subseteq> product_ids db" "s \<notin> set (i # rest)" "distinct (i # rest)"
    using twins known i d by auto
  from merge_all_settles [OF ok this, of now ident name vol age]
  obtain db' where db': "merge_all now s (i # rest) db = Inr db'" "catalogue_ok db'"
    "product_ids db' = product_ids db - set (i # rest)" "keys_of db' = map_prod id (folded (set (i # rest)) s) ` keys_of db"
    "bears ident name vol age db' \<subseteq> insert s (?B - set (i # rest))" by blast
  have gone: "set (i # rest) = insert i ?B - {s}" using twins d by auto
  have "folded (set (i # rest)) s j = folded (insert i ?B) s j" for j unfolding gone by (auto simp: folded_def)
  then have "keys_of db' = map_prod id (folded (insert i ?B) s) ` keys_of db"
    unfolding db'(4) by (intro image_cong) (auto simp: map_prod_def)
  moreover have "bears ident name vol age db' \<subseteq> {s}" using db'(5) unfolding gone by auto
  moreover have ids: "product_ids db' = product_ids db - (insert i ?B - {s})" using db'(3) unfolding gone .
  moreover have "s \<in> insert i ?B" using twins by auto
  moreover have "s \<in> product_ids db'" using known twins i by (auto simp: ids)
  moreover have "merge_twins ident now i name vol age db = Inr (s, db')"
    using Cons db'(1) by (simp add: merge_twins_def del: merge_all.simps)
  ultimately show ?thesis using db'(2) by blast
qed

section \<open>Writes that touch no key\<close>

definition but_stamps :: "product_row \<Rightarrow> row_id \<times> string option \<times> string option \<times> int option \<times> int option" where
  \<comment> \<open>what the identity and the keys of a bottling are read from\<close>
  "but_stamps p = (pd_id p, pd_match_key p, pd_name p, pd_volume p, pd_age p)"

lemma same_stamps:
  assumes "map but_stamps (ct_products b) = map but_stamps (ct_products a)" and "ct_aliases b = ct_aliases a"
  shows "product_ids b = product_ids a" "keys_of b = keys_of a" "bears ident name vol age b = bears ident name vol age a"
    "map_option pd_name (product_by_id b i) = map_option pd_name (product_by_id a i)"
proof -
  have image: "but_stamps ` set (ct_products b) = but_stamps ` set (ct_products a)" using assms(1) by (metis list.set_map)
  have "product_ids c = fst ` but_stamps ` set (ct_products c)" for c
    by (simp add: product_ids_def image_image but_stamps_def)
  then show "product_ids b = product_ids a" by (simp only: image)
  have "live_pairs (ct_products c) = {(key, i). \<exists>t\<in>but_stamps ` set (ct_products c). fst (snd t) = Some key \<and> fst t = i}" for c
    by (simp add: live_pairs_def but_stamps_def)
  note live = this
  have "live_pairs (ct_products b) = live_pairs (ct_products a)" by (subst (1 2) live) (simp only: image)
  then show "keys_of b = keys_of a" by (simp add: keys_of_def assms(2))
  have "bears ident name vol age c = {i. \<exists>t\<in>but_stamps ` set (ct_products c). fst t = i
      \<and> (case snd (snd t) of (n, v, g) \<Rightarrow> (case (n, name) of (Some n, Some m) \<Rightarrow> ident n = ident m | _ \<Rightarrow> False) \<and> v = vol \<and> g = age)}" for c
    by (simp add: bears_def but_stamps_def same_identity_def)
  then show "bears ident name vol age b = bears ident name vol age a" by (simp only: image)
  have "map_option pd_name (find (\<lambda>p. pd_id p = i) qs) = map_option pd_name (find (\<lambda>p. pd_id p = i) ps)"
    if "map but_stamps qs = map but_stamps ps" for ps qs
    using that
  proof (induction qs arbitrary: ps)
    case (Cons q qs)
    then show ?case by (cases ps) (auto simp: but_stamps_def)
  qed simp
  then show "map_option pd_name (product_by_id b i) = map_option pd_name (product_by_id a i)"
    unfolding product_by_id_def using assms(1) by blast
qed

lemma review_status_keeps:
  fixes now :: int and js :: "row_id list" and status :: review_status and pending :: bool
  assumes "catalogue_ok db"
  defines "db' \<equiv> snd (apply_review_status now js status pending db)"
  shows "catalogue_ok db'" "map but_stamps (ct_products db') = map but_stamps (ct_products db)" "ct_aliases db' = ct_aliases db"
  using assms(1) unfolding db'_def
  by (auto simp: apply_review_status_def Let_def but_stamps_def map_sql_update intro!: update_products_ok)

lemma manual_flavors_keep:
  fixes now :: int and fs :: "row_id list"
  assumes ok: "catalogue_ok db" and i: "i \<in> product_ids db"
  defines "db' \<equiv> set_manual_flavors now i fs db"
  shows "catalogue_ok db'" "map but_stamps (ct_products db') = map but_stamps (ct_products db)" "ct_aliases db' = ct_aliases db"
proof -
  let ?new = "map (\<lambda>f. \<lparr>fl_product = i, fl_flavor = f, fl_source = Flavor_Manual\<rparr>) (js_sort (by_number (\<lambda>f. f)) (js_set fs))"
  let ?ls = "sql_delete (\<lambda>l. fl_product l = i) (ct_links db) @ ?new"
  have "links_ok (ct_links db) (product_ids db)" by (rule catalogue_okD(5) [OF ok])
  moreover have "distinct (map link_key ?new)" by (simp add: comp_def link_key_def distinct_map inj_on_def distinct_js_sort distinct_js_set)
  ultimately have "links_ok ?ls (product_ids db)"
    using i by (auto simp: links_ok_def distinct_sql_delete link_key_def)
  then have "catalogue_ok (db\<lparr>ct_links := ?ls\<rparr>)" by (rule with_links_ok [OF ok])
  then show "catalogue_ok db'"
    unfolding db'_def set_manual_flavors_def stamp_curated_def by (rule update_products_ok) simp_all
  show "map but_stamps (ct_products db') = map but_stamps (ct_products db)" "ct_aliases db' = ct_aliases db"
    by (simp_all add: db'_def set_manual_flavors_def stamp_curated_def but_stamps_def map_sql_update)
qed

section \<open>What an edit names\<close>

definition unknown_name :: "string set \<Rightarrow> string option option \<Rightarrow> bool" where
  \<comment> \<open>a name is given, is not blank, and is none of the known ones\<close>
  "unknown_name known v \<longleftrightarrow> (\<exists>n. v = Some (Some n) \<and> n \<noteq> [] \<and> n \<notin> known)"

definition unknown_flavor :: "catalogue \<Rightarrow> string list option \<Rightarrow> bool" where
  "unknown_flavor db v \<longleftrightarrow> (\<exists>names. v = Some names \<and> (\<exists>n\<in>set names. js_trim n \<notin> lk_name ` set (ct_flavors db) - {[]}))"

lemma find_offer_refD: "find_offer_ref i db = Some x \<Longrightarrow> x \<in> set (ct_offers db) \<and> i \<in> {of_id x, of_product x}"
proof (cases "find (\<lambda>x. of_id x = i) (ct_offers db)")
  case None
  assume found: "find_offer_ref i db = Some x"
  then obtain xs where "js_sort by_stock_then_seen (filter (\<lambda>x. of_product x = i) (ct_offers db)) = x # xs"
    using None by (auto simp: find_offer_ref_def split: list.splits)
  then have "x \<in> set (filter (\<lambda>x. of_product x = i) (ct_offers db))" by (metis list.set_intros(1) set_js_sort)
  then show ?thesis by auto
next
  case (Some y)
  assume "find_offer_ref i db = Some x"
  then show ?thesis using find_SomeD [OF Some] Some by (simp add: find_offer_ref_def)
qed

lemma find_offer_ref_None: "find_offer_ref i db = None \<longleftrightarrow> (\<forall>x\<in>set (ct_offers db). i \<notin> {of_id x, of_product x})"
proof
  assume none: "find_offer_ref i db = None"
  then have "find (\<lambda>x. of_id x = i) (ct_offers db) = None" by (auto simp: find_offer_ref_def split: option.splits)
  moreover have "js_sort by_stock_then_seen (filter (\<lambda>x. of_product x = i) (ct_offers db)) = []"
    using none calculation by (auto simp: find_offer_ref_def split: list.splits)
  ultimately show "\<forall>x\<in>set (ct_offers db). i \<notin> {of_id x, of_product x}"
    by (auto simp: find_None_iff filter_empty_conv)
next
  assume "\<forall>x\<in>set (ct_offers db). i \<notin> {of_id x, of_product x}"
  then show "find_offer_ref i db = None" using find_offer_refD [of i db] by (cases "find_offer_ref i db") auto
qed

lemma resolve_country_unknown:
  "(\<exists>e. traverse_field (\<lambda>c. resolve_country_id code_of c db) v = Inl e)
     \<longleftrightarrow> unknown_name ((\<lambda>r. code_of (lk_id r)) ` set (ct_countries db)) v"
  by (auto simp: traverse_field_def resolve_country_id_def unknown_name_def find_None_iff image_iff
      split: option.splits sum.splits if_splits dest!: find_SomeD)

lemma resolve_type_unknown:
  "(\<exists>e. traverse_field (\<lambda>n. resolve_type_id n db) v = Inl e) \<longleftrightarrow> unknown_name (lk_name ` set (ct_types db)) v"
  by (auto simp: traverse_field_def resolve_type_id_def unknown_name_def find_None_iff image_iff
      split: option.splits sum.splits if_splits dest!: find_SomeD)

lemma build_patch_unknown:
  "(\<exists>e. build_patch code_of ed db = Inl e) \<longleftrightarrow>
     unknown_name ((\<lambda>r. code_of (lk_id r)) ` set (ct_countries db)) (ed_country ed)
     \<or> unknown_name (lk_name ` set (ct_types db)) (ed_type ed)"
  unfolding resolve_country_unknown [symmetric] resolve_type_unknown [symmetric] build_patch_def
  by (auto split: sum.splits)

lemma build_patch_identity:
  "build_patch code_of ed db = Inr mp \<Longrightarrow> mp_name mp = ed_name ed \<and> mp_age mp = ed_age ed \<and> mp_volume mp = ed_volume ed"
  by (auto simp: build_patch_def split: sum.splits)

lemma set_flavors_unknown: "(\<exists>e. set_flavors now i names db = Inl e) \<longleftrightarrow> unknown_flavor db (Some names)"
proof -
  have "js_get (find_ids_by_name names db) (js_trim n) = None \<longleftrightarrow> js_trim n \<notin> lk_name ` set (ct_flavors db) - {[]}"
    if "n \<in> set names" for n
  proof (cases "js_trim n = []")
    case False
    then have "js_trim n \<in> set (js_set (filter (\<lambda>n. n \<noteq> []) (map js_trim names)))" using that by simp
    moreover have "js_set (filter (\<lambda>n. n \<noteq> []) (map js_trim names)) \<noteq> []" using calculation by force
    ultimately show ?thesis using False that
      by (auto simp: find_ids_by_name_def Let_def js_get_map_None image_iff)
  next
    case True
    then show ?thesis by (auto simp: find_ids_by_name_def Let_def js_get_map_None js_get_def [of "[]"])
  qed
  then show ?thesis by (auto simp: set_flavors_def Let_def unknown_flavor_def filter_empty_conv)
qed

section \<open>The edit\<close>

lemma save_patch_keeps:
  assumes "catalogue_ok db"
  shows "catalogue_ok (save_patch now mp i db)" "product_ids (save_patch now mp i db) = product_ids db"
    "keys_of (save_patch now mp i db) = keys_of db" "ct_flavors (save_patch now mp i db) = ct_flavors db"
proof -
  show "catalogue_ok (save_patch now mp i db)"
    unfolding save_patch_def by (rule update_products_ok [OF assms]) (simp_all add: patch_row_def)
  show "product_ids (save_patch now mp i db) = product_ids db"
    by (rule product_ids_map) (simp add: save_patch_def map_sql_update patch_row_def)
  have "live_pairs (ct_products (save_patch now mp i db)) = live_pairs (ct_products db)"
    by (rule live_pairs_map) (simp add: save_patch_def map_sql_update patch_row_def)
  then show "keys_of (save_patch now mp i db) = keys_of db" by (simp add: keys_of_def) (simp add: save_patch_def)
  show "ct_flavors (save_patch now mp i db) = ct_flavors db" by (simp add: save_patch_def)
qed

definition before_merge :: "int \<Rightarrow> edit_input \<Rightarrow> manual_patch \<Rightarrow> row_id \<Rightarrow> catalogue \<Rightarrow> product_error + catalogue" where
  "before_merge now ed mp i db =
     (case ed_flavors ed of None \<Rightarrow> Inr (save_patch now mp i db)
      | Some names \<Rightarrow> set_flavors now i names (save_patch now mp i db))"

lemma before_merge_unknown: "(\<exists>e. before_merge now ed mp i db = Inl e) \<longleftrightarrow> unknown_flavor db (ed_flavors ed)"
proof (cases "ed_flavors ed")
  case (Some names)
  then show ?thesis using set_flavors_unknown [of now i names "save_patch now mp i db"]
    by (simp add: before_merge_def unknown_flavor_def save_patch_def)
qed (simp add: before_merge_def unknown_flavor_def)

lemma before_merge_keeps:
  assumes ok: "catalogue_ok db" and i: "i \<in> product_ids db" and done': "before_merge now ed mp i db = Inr db'"
  shows "catalogue_ok db' \<and> product_ids db' = product_ids db \<and> keys_of db' = keys_of db
    \<and> (\<forall>j. map_option pd_name (product_by_id db' j) = map_option pd_name (product_by_id (save_patch now mp i db) j))"
proof (cases "ed_flavors ed")
  case None
  then have "db' = save_patch now mp i db" using done' by (simp add: before_merge_def)
  then show ?thesis using save_patch_keeps [OF ok, of now mp i] by simp
next
  case (Some names)
  then obtain fs where db': "db' = set_manual_flavors now i fs (save_patch now mp i db)"
    using done' by (auto simp: before_merge_def set_flavors_def Let_def split: if_splits)
  note saved = save_patch_keeps [OF ok, of now mp i]
  have "i \<in> product_ids (save_patch now mp i db)" using i saved(2) by simp
  note manual = manual_flavors_keep [OF saved(1) this, of now fs, folded db']
  show ?thesis using manual(1) same_stamps [OF manual(2,3)] saved by simp
qed

lemma finish_edit_settles:
  fixes ident :: "string \<Rightarrow> string"
  assumes ok: "catalogue_ok db" and i: "of_product ref \<in> product_ids db"
    and name: "map_option pd_name (product_by_id db (of_product ref)) = Some (pd_name q)"
  defines "bearers \<equiv> insert (of_product ref) (bears ident (pd_name q) (pd_volume q) (pd_age q) db)"
  shows "\<exists>a db'. finish_edit ident now ed ref q db = Inr (a, db') \<and> catalogue_ok db'
    \<and> pa_product a \<in> bearers \<and> product_ids db' = product_ids db - (bearers - {pa_product a})
    \<and> keys_of db' = map_prod id (folded bearers (pa_product a)) ` keys_of db
    \<and> bears ident (pd_name q) (pd_volume q) (pd_age q) db' \<subseteq> {pa_product a}
    \<and> pa_name_orig a = of_name_orig ref \<and> pa_id a = ed_id ed \<and> (pa_merged a \<longleftrightarrow> of_product ref \<noteq> pa_product a)
    \<and> map_option pd_name (product_by_id db' (pa_product a)) = Some (pa_name a)"
proof -
  let ?i = "of_product ref" and ?n = "pd_name q" and ?v = "pd_volume q" and ?g = "pd_age q"
  obtain s db1 where twins: "merge_twins ident now ?i ?n ?v ?g db = Inr (s, db1)" "catalogue_ok db1" "s \<in> product_ids db1"
    "product_ids db1 = product_ids db - (bearers - {s})" "keys_of db1 = map_prod id (folded bearers s) ` keys_of db"
    "bears ident ?n ?v ?g db1 \<subseteq> {s}" "s \<in> bearers"
    using merge_twins_settles [OF ok i, of ident now ?n ?v ?g] unfolding bearers_def by blast
  let ?db2 = "snd (apply_review_status now [s] Review_Verified True db1)"
  note kept = review_status_keeps [OF twins(2), of now "[s]" Review_Verified True]
  note same = same_stamps [OF kept(2,3)]
  have alone: "s = ?i \<Longrightarrow> db1 = db"
    using twins(1) set_identity_twins [of ident db ?n ?v ?g "Some ?i"]
    by (auto simp: merge_twins_def split: list.splits sum.splits)
  have "s \<in> product_ids ?db2" unfolding same(1) by (rule twins(3))
  then obtain r where r: "product_by_id ?db2 s = Some r" unfolding product_by_id_iff [symmetric] by blast
  define answer where "answer = \<lparr>pa_id = ed_id ed, pa_product = s, pa_name = (if s = ?i then pd_name q else pd_name r),
      pa_name_orig = of_name_orig ref, pa_merged = (s \<noteq> ?i), pa_created = False\<rparr>"
  have "finish_edit ident now ed ref q db = Inr (answer, ?db2)"
    using r by (simp add: finish_edit_def twins(1) Let_def answer_def)
  moreover have "map_option pd_name (product_by_id ?db2 s) = Some (pa_name answer)"
  proof (cases "s = ?i")
    case True
    then show ?thesis using same(4) [of s] name alone by (simp add: answer_def)
  next
    case False
    then show ?thesis using r by (simp add: answer_def)
  qed
  ultimately show ?thesis
    using kept(1) twins(4-7) unfolding same(1-3) [symmetric]
    by (intro exI [of _ answer] exI [of _ ?db2]) (auto simp: answer_def)
qed

lemma edit_product_conv:
  "edit_product ident code_of now ed db =
     (case find_offer_ref (ed_id ed) db of None \<Rightarrow> Inl (Not_Found_Product (ed_id ed))
      | Some ref \<Rightarrow> (case build_patch code_of ed db of Inl e \<Rightarrow> Inl e
          | Inr mp \<Rightarrow> (case product_by_id db (of_product ref) of None \<Rightarrow> Inl (Not_Found_Product (of_product ref))
              | Some p \<Rightarrow> (case before_merge now ed mp (of_product ref) db of Inl e \<Rightarrow> Inl e
                  | Inr db2 \<Rightarrow> finish_edit ident now ed ref (patch_row now mp p) db2))))"
  by (simp only: edit_product_def before_merge_def Let_def)

lemma find_patched:
  "product_by_id db i = Some p \<Longrightarrow> product_by_id (save_patch now mp i db) i = Some (patch_row now mp p)"
  unfolding product_by_id_def save_patch_def by (simp add: find_updated patch_row_def)

lemma edit_result:
  assumes ok: "catalogue_ok db" and ref: "find_offer_ref (ed_id ed) db = Some x" and p: "product_by_id db (of_product x) = Some p"
    and edited: "edit_product ident code_of now ed db = Inr (a, db')"
  shows "catalogue_ok db' \<and> pa_product a \<in> product_ids db' \<and> product_ids db' \<subseteq> product_ids db
    \<and> (\<forall>key. key_holder db' key = map_option (folded (product_ids db - product_ids db') (pa_product a)) (key_holder db key))
    \<and> bears ident (stamped (ed_name ed) (pd_name p)) (stamped (ed_volume ed) (pd_volume p)) (stamped (ed_age ed) (pd_age p)) db'
        \<subseteq> {pa_product a}
    \<and> pa_name_orig a = of_name_orig x \<and> pa_id a = ed_id ed \<and> (pa_merged a \<longleftrightarrow> of_product x \<notin> product_ids db')
    \<and> map_option pd_name (product_by_id db' (pa_product a)) = Some (pa_name a)"
proof -
  obtain mp db2 where mp: "build_patch code_of ed db = Inr mp" and db2: "before_merge now ed mp (of_product x) db = Inr db2"
    and fin: "finish_edit ident now ed x (patch_row now mp p) db2 = Inr (a, db')"
    using edited by (auto simp: edit_product_conv ref p split: sum.splits)
  have i: "of_product x \<in> product_ids db" using p product_by_id_iff by blast
  note kept = before_merge_keeps [OF ok i db2]
  let ?q = "patch_row now mp p"
  let ?B = "insert (of_product x) (bears ident (pd_name ?q) (pd_volume ?q) (pd_age ?q) db2)"
  have "map_option pd_name (product_by_id db2 (of_product x)) = Some (pd_name ?q)" using kept find_patched [OF p] by simp
  from finish_edit_settles [OF _ _ this, of ident now ed] kept i fin
  have done': "catalogue_ok db'" "pa_product a \<in> ?B" "product_ids db' = product_ids db - (?B - {pa_product a})"
    "keys_of db' = map_prod id (folded ?B (pa_product a)) ` keys_of db"
    "bears ident (pd_name ?q) (pd_volume ?q) (pd_age ?q) db' \<subseteq> {pa_product a}"
    "pa_name_orig a = of_name_orig x" "pa_id a = ed_id ed" "pa_merged a \<longleftrightarrow> of_product x \<noteq> pa_product a"
    "map_option pd_name (product_by_id db' (pa_product a)) = Some (pa_name a)" by auto
  have B: "?B \<subseteq> product_ids db" using kept i by (auto simp: bears_def product_ids_def)
  then have gone: "product_ids db - product_ids db' = ?B - {pa_product a}" using done'(3) by blast
  have same: "folded ?B (pa_product a) = folded (product_ids db - product_ids db') (pa_product a)"
    unfolding gone by (auto simp: folded_def)
  have keys: "key_holder db' key = map_option (folded (product_ids db - product_ids db') (pa_product a)) (key_holder db key)" for key
    by (rule key_holder_map [OF ok done'(1)]) (simp only: done'(4) same)
  have "pa_product a \<in> product_ids db'" "product_ids db' \<subseteq> product_ids db" using B done'(2,3) by blast+
  moreover have "of_product x \<notin> product_ids db' \<longleftrightarrow> of_product x \<noteq> pa_product a" using i done'(3) by blast
  moreover have "pd_name ?q = stamped (ed_name ed) (pd_name p)" "pd_volume ?q = stamped (ed_volume ed) (pd_volume p)"
    "pd_age ?q = stamped (ed_age ed) (pd_age p)"
    using build_patch_identity [OF mp] by (simp_all add: patch_row_def)
  ultimately show ?thesis using done' keys by simp
qed

lemma edit_refused:
  assumes ok: "catalogue_ok db"
  shows "(\<exists>e. edit_product ident code_of now ed db = Inl e) \<longleftrightarrow>
    (\<forall>x\<in>set (ct_offers db). ed_id ed \<notin> {of_id x, of_product x})
    \<or> unknown_name ((\<lambda>r. code_of (lk_id r)) ` set (ct_countries db)) (ed_country ed)
    \<or> unknown_name (lk_name ` set (ct_types db)) (ed_type ed)
    \<or> unknown_flavor db (ed_flavors ed)"
proof (cases "find_offer_ref (ed_id ed) db")
  case None
  then show ?thesis using find_offer_ref_None [of "ed_id ed" db] by (simp add: edit_product_conv)
next
  case (Some x)
  have listed: "\<not> (\<forall>x\<in>set (ct_offers db). ed_id ed \<notin> {of_id x, of_product x})" using Some find_offer_ref_None [of "ed_id ed" db] by auto
  have i: "of_product x \<in> product_ids db"
    using find_offer_refD [OF Some] catalogue_okD(3) [OF ok] by (auto simp: offers_ok_def)
  then obtain p where p: "product_by_id db (of_product x) = Some p" unfolding product_by_id_iff [symmetric] by blast
  show ?thesis
  proof (cases "build_patch code_of ed db")
    case (Inl e)
    then show ?thesis using build_patch_unknown [of code_of ed db] by (auto simp: edit_product_conv Some)
  next
    case (Inr mp)
    then have known: "\<not> unknown_name ((\<lambda>r. code_of (lk_id r)) ` set (ct_countries db)) (ed_country ed)"
      "\<not> unknown_name (lk_name ` set (ct_types db)) (ed_type ed)" using build_patch_unknown [of code_of ed db] by auto
    show ?thesis
    proof (cases "before_merge now ed mp (of_product x) db")
      case (Inl e)
      then have "unknown_flavor db (ed_flavors ed)" using before_merge_unknown [of now ed mp "of_product x" db] by blast
      then show ?thesis using Inl Inr p by (simp add: edit_product_conv Some)
    next
      case (Inr db2)
      have "map_option pd_name (product_by_id db2 (of_product x)) = Some (pd_name (patch_row now mp p))"
        using before_merge_keeps [OF ok i Inr] find_patched [OF p] by simp
      from finish_edit_settles [OF _ _ this, of ident now ed] before_merge_keeps [OF ok i Inr] i
      obtain a db' where "finish_edit ident now ed x (patch_row now mp p) db2 = Inr (a, db')" by auto
      moreover have "\<not> unknown_flavor db (ed_flavors ed)" using before_merge_unknown [of now ed mp "of_product x" db] Inr by auto
      ultimately show ?thesis using Inr \<open>build_patch code_of ed db = Inr mp\<close> p known listed by (simp add: edit_product_conv Some)
    qed
  qed
qed

section \<open>The property\<close>


definition rename_arran :: edit_input where
  "rename_arran = \<lparr>ed_id = 4, ed_name = Some (Some ''oban''), ed_country = None, ed_type = None, ed_age = None,
     ed_abv = None, ed_volume = None, ed_flavors = None\<rparr>"

lemma rename_runs:
  "(case edit_product (\<lambda>n. n) (\<lambda>i. []) 9 rename_arran shop of Inl e \<Rightarrow> None
    | Inr (a, db') \<Rightarrow> Some (pa_product a, pa_merged a, map pd_id (ct_products db'))) = Some (1, True, [1])"
  by code_simp


end
