(* ===== verification/Kb_Facts.thy ===== *)
theory Kb_Facts
  imports Kb_Apply Catalogue_Facts
begin

text \<open>
  Facts about the resolver and the pass: which producer slot a bottler may take, the tags of a
  resolution, the flavor plan of a bottling as sets, the links after a plan is applied, and that a
  second pass has nothing left to do.
\<close>

section \<open>Resolver\<close>

lemma coalesce_simps [simp]: "coalesce (Some x) b = Some x" "coalesce None b = b"
  by (simp_all add: coalesce_def)

lemma arbitrate_cases: "arbitrate b n \<in> {b, n}"
  by (auto simp: arbitrate_def split: option.splits)

lemma bottler_of_not_producer:
  "bottler_of p n b ps = Some q \<Longrightarrow> Some (pf_id q) \<noteq> map_option pf_id p"
  by (auto simp: bottler_of_def Let_def split: if_splits option.splits)

lemma slots_of_choice:
  assumes "(p, q) = (if map_option pf_kind c = Some Kind_Bottler then (None, x) else (c, bottler_of c n b ps))"
  shows "map_option pf_kind p \<noteq> Some Kind_Bottler" and "p \<noteq> None \<Longrightarrow> map_option pf_id p \<noteq> map_option pf_id q"
proof -
  consider "p = None" | "map_option pf_kind c \<noteq> Some Kind_Bottler" "p = c" "q = bottler_of c n b ps"
    using assms by (cases "map_option pf_kind c = Some Kind_Bottler") (simp only: if_True if_False simp_thms prod.inject)+
  note choice = this
  show "map_option pf_kind p \<noteq> Some Kind_Bottler" by (rule choice) simp_all
  assume some: "p \<noteq> None"
  have q: "p = c" "q = bottler_of c n b ps" by (rule choice, use some in simp_all)+
  show "map_option pf_id p \<noteq> map_option pf_id q"
  proof (cases q)
    case None
    then show ?thesis using some by simp
  next
    case (Some r)
    have "Some (pf_id r) \<noteq> map_option pf_id c" by (rule bottler_of_not_producer) (use q(2) Some in simp)
    then show ?thesis unfolding q(1) Some by (metis option.simps(9))
  qed
qed

lemma match_producer_slots:
  assumes "match_producer name brand kx = (p, q)"
  shows "map_option pf_kind p \<noteq> Some Kind_Bottler" and "p \<noteq> None \<Longrightarrow> map_option pf_id p \<noteq> map_option pf_id q"
  using assms [symmetric] unfolding match_producer_def Let_def by (rule slots_of_choice)+

lemma baseline_never_forbidden:
  "set (rs_baseline (resolve_one fk kx ri)) \<inter> set (rs_forbidden (resolve_one fk kx ri)) = {}"
  by (auto simp: resolve_one_def resolve_tags_def Let_def split: prod.splits)

section \<open>Plan of one bottling\<close>

lemma set_set_add [simp]: "set (set_add x xs) = insert x (set xs)"
  by (auto simp: set_add_def)

lemma swept_set:
  "set (fold (removal_step ids sp w forb) ls acc) = set acc \<union>
     {f. \<exists>s. (f, s) \<in> set ls \<and> s \<noteq> Flavor_Manual \<and>
        (if is_peat ids f then \<not> sp \<and> f \<notin> set w else s \<in> {Flavor_Scrape, Flavor_Llm} \<and> f \<in> set forb)}"
  by (induction ls arbitrary: acc) (auto simp: removal_step_def)

lemma wished_set: "set (fold (want_step m ow) w acc) = set acc \<union> (set w - set m - set ow)"
  by (induction w arbitrary: acc) (auto simp: want_step_def)

lemma required_sets:
  "fold (require_step ids m ow) rs st = (i, d) \<Longrightarrow>
    set i = set (fst st) \<union> {f \<in> set rs. Some f \<noteq> peat_peated ids \<and> f \<notin> set m \<and> f \<notin> set ow} \<and>
    set d = set (snd st) - {f \<in> set rs. Some f \<noteq> peat_peated ids \<and> f \<notin> set m}"
  by (induction rs arbitrary: st) (auto simp: require_step_def split: if_splits)

lemma baseline_set: "set (fold (baseline_step h d) bs acc) = set acc \<union> (set bs - set h - set d)"
  by (induction bs arbitrary: acc) (auto simp: baseline_step_def)

lemma linked_by_set: "f \<in> set (linked_by s row) \<longleftrightarrow> (f, s) \<in> set (kr_flavors row)"
  by (force simp: linked_by_def)

definition plan_keeps :: "peat_ids \<Rightarrow> kb_resolution \<Rightarrow> kb_row \<Rightarrow> row_id \<Rightarrow> bool" where
  \<comment> \<open>a required tag other than the peat tag, on a link no person set\<close>
  "plan_keeps ids res row f \<longleftrightarrow>
     f \<in> set (rs_required res) \<and> Some f \<noteq> peat_peated ids \<and> (f, Flavor_Manual) \<notin> set (kr_flavors row)"

definition plan_sweeps :: "bool \<Rightarrow> peat_ids \<Rightarrow> kb_resolution \<Rightarrow> row_id \<Rightarrow> flavor_source \<Rightarrow> bool" where
  \<comment> \<open>a link the sweep or the house style takes away\<close>
  "plan_sweeps ku ids res f s \<longleftrightarrow> s \<noteq> Flavor_Manual \<and>
     (if is_peat ids f then \<not> (ku \<and> rs_peat res = Peat_Unknown) \<and> f \<notin> set (wanted_peat ids (rs_peat res))
      else s \<in> {Flavor_Scrape, Flavor_Llm} \<and> f \<in> set (rs_forbidden res))"

lemma plan_sets:
  "set (vw_delete (plan_flavors ku ids row res)) =
     {f. \<exists>s. (f, s) \<in> set (kr_flavors row) \<and> plan_sweeps ku ids res f s} - {f. plan_keeps ids res row f}" (is ?D)
  "set (vw_insert (plan_flavors ku ids row res)) =
     {f \<in> set (wanted_peat ids (rs_peat res)) \<union> {f. plan_keeps ids res row f}.
        (f, Flavor_Manual) \<notin> set (kr_flavors row) \<and> (f, Flavor_Kb) \<notin> set (kr_flavors row)}
     \<union> (set (rs_baseline res) - fst ` set (kr_flavors row) - set (vw_delete (plan_flavors ku ids row res)))" (is ?I)
proof -
  let ?w = "wanted_peat ids (rs_peat res)" and ?m = "linked_by Flavor_Manual row" and ?o = "linked_by Flavor_Kb row"
  let ?sw = "fold (removal_step ids (ku \<and> rs_peat res = Peat_Unknown) ?w (rs_forbidden res)) (kr_flavors row) []"
  obtain i d where id: "fold (require_step ids ?m ?o) (rs_required res) (fold (want_step ?m ?o) ?w [], ?sw) = (i, d)"
    by (cases "fold (require_step ids ?m ?o) (rs_required res) (fold (want_step ?m ?o) ?w [], ?sw)")
  have plan: "plan_flavors ku ids row res =
      \<lparr>vw_product = kr_id row, vw_insert = fold (baseline_step (map fst (kr_flavors row)) d) (rs_baseline res) i, vw_delete = d\<rparr>"
    using id by (simp add: plan_flavors_def Let_def)
  have sw: "set ?sw = {f. \<exists>s. (f, s) \<in> set (kr_flavors row) \<and> plan_sweeps ku ids res f s}"
    by (simp add: swept_set plan_sweeps_def)
  note sets = required_sets [OF id, unfolded fst_conv snd_conv wished_set sw linked_by_set]
  show d: ?D using sets by (auto simp: plan plan_keeps_def linked_by_set)
  show ?I using sets by (auto simp: plan baseline_set plan_keeps_def linked_by_set)
qed

lemma wanted_is_peat: "f \<in> set (wanted_peat ids profile) \<Longrightarrow> is_peat ids f"
  by (cases profile) (auto simp: wanted_peat_def is_peat_def map_filter_def split: if_splits)

section \<open>Settling one bottling\<close>

definition link_source :: "kb_row \<Rightarrow> row_id \<Rightarrow> flavor_source option" where
  "link_source row f = map_of (kr_flavors row) f"

definition planned_source :: "flavor_write \<Rightarrow> row_id \<Rightarrow> flavor_source option \<Rightarrow> flavor_source option" where
  \<comment> \<open>what a write leaves of one link: the deletions run first\<close>
  "planned_source w f s =
     (if f \<in> set (vw_insert w) then Some Flavor_Kb
      else case s of None \<Rightarrow> None | Some t \<Rightarrow> if f \<in> set (vw_delete w) \<and> t \<noteq> Flavor_Manual then None else Some t)"

lemma plan_settles:
  assumes links: "\<And>f s. (f, s) \<in> set (kr_flavors row) \<longleftrightarrow> src f = Some s"
    and links': "\<And>f s. (f, s) \<in> set (kr_flavors row') \<longleftrightarrow> planned_source (plan_flavors ku ids row res) f (src f) = Some s"
    and base: "\<And>f. f \<in> set (rs_baseline res) \<Longrightarrow> \<not> is_peat ids f \<and> f \<notin> set (rs_forbidden res)"
  shows "vw_delete (plan_flavors ku ids row' res) = []" and "vw_insert (plan_flavors ku ids row' res) = []"
proof -
  let ?w = "plan_flavors ku ids row res" and ?P = "\<lambda>f. f \<in> set (wanted_peat ids (rs_peat res))"
  have held: "f \<in> fst ` set (kr_flavors row) \<longleftrightarrow> src f \<noteq> None" for f using links by force
  have held': "f \<in> fst ` set (kr_flavors row') \<longleftrightarrow> planned_source ?w f (src f) \<noteq> None" for f using links' by force
  have del: "f \<in> set (vw_delete ?w) \<longleftrightarrow> (\<exists>s. src f = Some s \<and> plan_sweeps ku ids res f s) \<and> \<not> plan_keeps ids res row f" for f
    by (auto simp: plan_sets links)
  have ins: "f \<in> set (vw_insert ?w) \<longleftrightarrow>
      ((?P f \<or> plan_keeps ids res row f) \<and> src f \<noteq> Some Flavor_Manual \<and> src f \<noteq> Some Flavor_Kb)
      \<or> (f \<in> set (rs_baseline res) \<and> src f = None \<and> f \<notin> set (vw_delete ?w))" for f
    unfolding plan_sets(2) using held by (auto simp: links)
  have manual: "planned_source ?w f (src f) = Some Flavor_Manual \<longleftrightarrow> src f = Some Flavor_Manual" for f
    using ins [of f] by (auto simp: planned_source_def plan_keeps_def links split: option.splits)
  have keeps: "plan_keeps ids res row' f \<longleftrightarrow> plan_keeps ids res row f" for f
    using manual [of f] by (simp add: plan_keeps_def links links')
  have swept: "plan_keeps ids res row f" if "planned_source ?w f (src f) = Some s" and sw: "plan_sweeps ku ids res f s" for f s
  proof (cases "f \<in> set (vw_insert ?w)")
    case True
    then have s: "s = Flavor_Kb" using that(1) by (simp add: planned_source_def)
    then have "is_peat ids f" and "\<not> ?P f" using sw by (auto simp: plan_sweeps_def split: if_splits)
    then show ?thesis using True ins base by blast
  next
    case False
    then have "src f = Some s" and "\<not> (f \<in> set (vw_delete ?w) \<and> s \<noteq> Flavor_Manual)"
      using that(1) by (auto simp: planned_source_def split: option.splits if_splits)
    moreover have "s \<noteq> Flavor_Manual" using sw by (simp add: plan_sweeps_def)
    ultimately show ?thesis using sw del by blast
  qed
  have "f \<notin> set (vw_delete (plan_flavors ku ids row' res))" for f
    using swept by (auto simp: plan_sets links' keeps)
  then show d: "vw_delete (plan_flavors ku ids row' res) = []" by (metis list.set_intros(1) neq_Nil_conv)
  have kb: "planned_source ?w f (src f) = Some Flavor_Kb \<or> src f = Some Flavor_Manual" if "?P f \<or> plan_keeps ids res row f" for f
  proof -
    have "\<not> plan_sweeps ku ids res f Flavor_Kb \<or> plan_keeps ids res row f" using that wanted_is_peat by (auto simp: plan_sweeps_def)
    then show ?thesis using that ins [of f] del [of f] by (auto simp: planned_source_def)
  qed
  have stays: "planned_source ?w f (src f) \<noteq> None" if b: "f \<in> set (rs_baseline res)" for f
    using base [OF b] b ins [of f] del [of f] by (auto simp: planned_source_def plan_sweeps_def split: option.splits)
  have "f \<notin> set (vw_insert (plan_flavors ku ids row' res))" for f
    unfolding plan_sets(2) d using held' [of f] kb [of f] stays [of f] manual [of f] by (auto simp: keeps links')
  then show "vw_insert (plan_flavors ku ids row' res) = []" by (metis list.set_intros(1) neq_Nil_conv)
qed

end
