(* ===== verification/Kb_Pass_Facts.thy ===== *)
theory Kb_Pass_Facts
  imports Kb_Facts
begin

text \<open>
  The pass over the catalogue: the rows a plan covers, what applying it does to products and
  links, the source every peat link ends up with, and that the pass is idempotent.
\<close>

section \<open>The rows of a plan\<close>

definition plan_pairs :: "(string \<Rightarrow> string) \<Rightarrow> (string \<Rightarrow> string) \<Rightarrow> (string \<Rightarrow> string \<Rightarrow> rat) \<Rightarrow> kb_index \<Rightarrow>
    kb_row list \<Rightarrow> (kb_group \<times> kb_resolution) list" where
  "plan_pairs fk lower coll kx rows =
     zip (group_by_name lower rows) (kb_resolve fk kx (group_inputs coll (group_by_name lower rows)))"

lemma plan_writes:
  "kp_producers (kb_plan_for fk lower coll ku kx tids rows) =
     concat (map (\<lambda>(g, res). map (producer_write_of res) (kg_rows g)) (plan_pairs fk lower coll kx rows))"
  "kp_facts (kb_plan_for fk lower coll ku kx tids rows) =
     concat (map (\<lambda>(g, res). map (fact_write_of tids res) (kg_rows g)) (plan_pairs fk lower coll kx rows))"
  "kp_flavors (kb_plan_for fk lower coll ku kx tids rows) =
     concat (map (\<lambda>(g, res). map (flavor_write_of ku (kx_peat kx) res) (kg_rows g)) (plan_pairs fk lower coll kx rows))"
  by (simp_all add: kb_plan_for_def plan_pairs_def Let_def)

lemma length_resolutions: "length (kb_resolve fk kx (group_inputs coll gs)) = length gs"
  by (simp add: kb_resolve_def group_inputs_def)

lemma map_pair_rows:
  assumes "length gs = length rs" and "\<And>res row. K (F res row) = kr_id row"
  shows "map K (concat (map (\<lambda>(g, res). map (F res) (kg_rows g)) (zip gs rs))) = map kr_id (concat (map kg_rows gs))"
  using assms by (induction gs rs rule: list_induct2) (auto simp: comp_def)

lemma mset_group_rows: "mset (concat (map kg_rows (group_by_name lower rows))) = mset rows"
proof -
  have "map kg_rows (group_by_name lower rows) = map snd (js_group_by (group_key_of lower) rows)"
    by (auto simp: group_by_name_def)
  then show ?thesis by (simp add: mset_concat_group_by)
qed

lemma distinct_plan_ids:
  assumes "distinct (map kr_id rows)" and "\<And>res row. K (F res row) = kr_id row"
  shows "distinct (map K (concat (map (\<lambda>(g, res). map (F res) (kg_rows g)) (plan_pairs fk lower coll kx rows))))"
proof -
  have "distinct (map kr_id (concat (map kg_rows (group_by_name lower rows))))"
    using assms(1) mset_group_rows [of lower rows] by (metis mset_eq_imp_distinct_iff mset_map)
  then show ?thesis
    unfolding plan_pairs_def by (subst map_pair_rows) (simp_all add: length_resolutions assms(2))
qed

lemma plan_pair_of_row:
  assumes "row \<in> set rows"
  obtains g res where "(g, res) \<in> set (plan_pairs fk lower coll kx rows)" and "row \<in> set (kg_rows g)"
proof -
  have "row \<in> set (concat (map kg_rows (group_by_name lower rows)))"
    using assms mset_group_rows [of lower rows] by (metis set_mset_mset)
  then obtain g where g: "g \<in> set (group_by_name lower rows)" "row \<in> set (kg_rows g)" by auto
  then obtain i where i: "i < length (group_by_name lower rows)" "g = group_by_name lower rows ! i"
    by (metis in_set_conv_nth)
  then have "(g, kb_resolve fk kx (group_inputs coll (group_by_name lower rows)) ! i) \<in> set (plan_pairs fk lower coll kx rows)"
    unfolding plan_pairs_def set_zip by (auto simp: length_resolutions)
  then show ?thesis using g(2) that by blast
qed

lemma plan_pair_rows: "(g, res) \<in> set (plan_pairs fk lower coll kx rows) \<Longrightarrow> row \<in> set (kg_rows g) \<Longrightarrow> row \<in> set rows"
proof -
  assume "(g, res) \<in> set (plan_pairs fk lower coll kx rows)" and r: "row \<in> set (kg_rows g)"
  then have "g \<in> set (group_by_name lower rows)" by (auto simp: plan_pairs_def dest: set_zip_leftD)
  then have "row \<in> set (concat (map kg_rows (group_by_name lower rows)))" using r by auto
  then show ?thesis using mset_group_rows [of lower rows] by (metis set_mset_mset)
qed

lemma plan_pair_resolution:
  "(g, res) \<in> set (plan_pairs fk lower coll kx rows) \<Longrightarrow> \<exists>ri. res = resolve_one fk kx ri"
  by (auto simp: plan_pairs_def kb_resolve_def dest!: set_zip_rightD)

section \<open>Rows that changed in their links only\<close>

lemma group_by_name_map:
  assumes "\<And>r. kr_id (h r) = kr_id r" and "\<And>r. kr_name (h r) = kr_name r"
  shows "group_by_name lower (map h rows) = map (\<lambda>g. g\<lparr>kg_rows := map h (kg_rows g)\<rparr>) (group_by_name lower rows)"
proof -
  have key: "group_key_of lower (h r) = group_key_of lower r" for r using assms by (simp add: group_key_of_def split: option.split)
  have "js_group_by (group_key_of lower) (map h rows) = map (apsnd (map h)) (js_group_by (group_key_of lower) rows)"
    by (rule js_group_by_map) (rule key)
  moreover have "kr_name (hd (map h rs)) = kr_name (hd rs)" if "(k, rs) \<in> set (js_group_by (group_key_of lower) rows)" for k rs
  proof -
    have "rs \<in> set (map snd (js_group_by (group_key_of lower) rows))" using that by force
    then show ?thesis using group_by_values_nonempty assms(2) by (metis hd_map)
  qed
  ultimately show ?thesis by (auto simp: group_by_name_def)
qed

lemma map_filter_over_map: "List.map_filter f (map h xs) = List.map_filter (f \<circ> h) xs"
  by (simp add: List.map_filter_def filter_map comp_def)

lemma brand_of_map:
  assumes "\<And>r. kr_brand (h r) = kr_brand r"
  shows "brand_of coll (g\<lparr>kg_rows := map h (kg_rows g)\<rparr>) = brand_of coll g"
  by (simp add: brand_of_def map_filter_over_map comp_def assms)

lemma plan_pairs_map:
  assumes "\<And>r. kr_id (h r) = kr_id r" and "\<And>r. kr_name (h r) = kr_name r" and "\<And>r. kr_brand (h r) = kr_brand r"
  shows "plan_pairs fk lower coll kx (map h rows) =
    map (\<lambda>(g, res). (g\<lparr>kg_rows := map h (kg_rows g)\<rparr>, res)) (plan_pairs fk lower coll kx rows)"
proof -
  have "group_inputs coll (map (\<lambda>g. g\<lparr>kg_rows := map h (kg_rows g)\<rparr>) gs) = group_inputs coll gs" for gs
    by (simp add: group_inputs_def zip_map2 brand_of_map assms(3) split_def)
  then show ?thesis by (simp add: plan_pairs_def group_by_name_map assms zip_map1)
qed

section \<open>Baselines\<close>

definition baselines_spare_peat :: "kb_index \<Rightarrow> bool" where
  \<comment> \<open>no house style adds a peat tag as a mere baseline\<close>
  "baselines_spare_peat kx \<longleftrightarrow>
     list_all (\<lambda>(i, hs). list_all (\<lambda>h. hf_effect h = Effect_Baseline \<longrightarrow> \<not> is_peat (kx_peat kx) (hf_flavor h)) hs) (kx_house kx)"

lemma house_baseline:
  "f \<in> set (tg_baseline (fold house_step hs t)) \<Longrightarrow>
    f \<in> set (tg_baseline t) \<or> (\<exists>h\<in>set hs. hf_effect h = Effect_Baseline \<and> hf_flavor h = f)"
proof (induction hs arbitrary: t)
  case (Cons h hs)
  from Cons.IH [of "house_step h t"] Cons.prems
  have "f \<in> set (tg_baseline (house_step h t)) \<or> (\<exists>h\<in>set hs. hf_effect h = Effect_Baseline \<and> hf_flavor h = f)" by simp
  then show ?case by (auto simp: house_step_def split: flavor_effect.splits)
qed simp

lemma rule_step_baseline: "tg_baseline (fold rule_step rs t) = tg_baseline t"
  by (induction rs arbitrary: t) (auto simp: rule_step_def split: option.split flavor_effect.split)

lemma resolution_baseline:
  assumes "baselines_spare_peat kx" and "f \<in> set (rs_baseline (resolve_one fk kx ri))"
  shows "\<not> is_peat (kx_peat kx) f" and "f \<notin> set (rs_forbidden (resolve_one fk kx ri))"
proof -
  show "f \<notin> set (rs_forbidden (resolve_one fk kx ri))" using assms(2) baseline_never_forbidden by blast
  obtain name p where tags: "f \<in> set (tg_baseline (resolve_tags name p kx))"
    using assms(2) by (auto simp: resolve_one_def Let_def split: prod.splits)
  obtain hs where hs: "hs = [] \<or> (\<exists>i. (i, hs) \<in> set (kx_house kx))"
      and "f \<in> set (tg_baseline (fold house_step hs \<lparr>tg_required = [], tg_forbidden = [], tg_baseline = []\<rparr>))"
  proof
    let ?hs = "case p of None \<Rightarrow> [] | Some p \<Rightarrow> (case js_get (kx_house kx) (pf_id p) of None \<Rightarrow> [] | Some hs \<Rightarrow> hs)"
    show "?hs = [] \<or> (\<exists>i. (i, ?hs) \<in> set (kx_house kx))"
      by (auto simp: js_get_def split: option.split dest: map_of_SomeD)
    show "f \<in> set (tg_baseline (fold house_step ?hs \<lparr>tg_required = [], tg_forbidden = [], tg_baseline = []\<rparr>))"
      using tags by (auto simp: resolve_tags_def Let_def rule_step_baseline)
  qed
  then obtain h where "h \<in> set hs" "hf_effect h = Effect_Baseline" "hf_flavor h = f" by (auto dest: house_baseline)
  then show "\<not> is_peat (kx_peat kx) f" using hs assms(1) by (fastforce simp: baselines_spare_peat_def list_all_iff)
qed

section \<open>Applying a plan\<close>

definition same_listing :: "product_row \<Rightarrow> product_row \<Rightarrow> bool" where
  \<comment> \<open>what the pass reads of a product, apart from its links\<close>
  "same_listing p q \<longleftrightarrow> pd_id p = pd_id q \<and> pd_match_key p = pd_match_key q \<and> pd_name p = pd_name q
     \<and> pd_brand_orig p = pd_brand_orig q \<and> pd_flavors_curated_at p = pd_flavors_curated_at q"

lemma same_listing_refl [simp]: "same_listing p p"
  by (simp add: same_listing_def)

lemma sql_update_from_is_map:
  assumes "\<And>v r. g (f v r) r"
    and "\<And>r. g r r"
  obtains u where "sql_update_from w f vs rs = map u rs" and "\<And>r. g (u r) r"
proof
  let ?u = "\<lambda>r. case find (\<lambda>v. w v r) vs of None \<Rightarrow> r | Some v \<Rightarrow> f v r"
  show "sql_update_from w f vs rs = map ?u rs" by (simp add: sql_update_from_def)
  show "g (?u r) r" for r using assms by (auto split: option.split)
qed

lemma kb_facts_are_map:
  "\<exists>u. ct_products (apply_kb_facts now fs (set_producers now ws db)) = map u (ct_products db)
     \<and> (\<forall>p. same_listing (u p) p)"
proof -
  have one: "\<exists>u. ct_products (set_producers now ws db) = map u (ct_products db) \<and> (\<forall>p. same_listing (u p) p)" for db
  proof (cases "ws = []")
    case True
    then show ?thesis by (intro exI [of _ "\<lambda>p. p"]) (simp add: set_producers_def)
  next
    case False
    show ?thesis
      by (rule sql_update_from_is_map [where g = same_listing and vs = ws and rs = "ct_products db"
            and f = "\<lambda>v p. p\<lparr>pd_producer_id := pw_producer v, pd_bottler_id := pw_bottler v,
                 pd_producer_source := Some (pw_source v), pd_updated_at := now\<rparr>"
            and w = "\<lambda>v p. pd_id p = pw_product v \<and> pd_producer_source p \<noteq> Some Fact_Manual
               \<and> (pd_producer_id p \<noteq> pw_producer v \<or> pd_bottler_id p \<noteq> pw_bottler v
                  \<or> pd_producer_source p \<noteq> Some (pw_source v))"])
        (use False in \<open>auto simp: same_listing_def set_producers_def\<close>)
  qed
  have two: "\<exists>u. ct_products (apply_kb_facts now fs db) = map u (ct_products db) \<and> (\<forall>p. same_listing (u p) p)" for db
  proof (cases "fs = []")
    case True
    then show ?thesis by (intro exI [of _ "\<lambda>p. p"]) (simp add: apply_kb_facts_def)
  next
    case False
    show ?thesis
      by (rule sql_update_from_is_map [where g = same_listing and vs = fs and rs = "ct_products db" and f = "kb_fact_row now"
            and w = "\<lambda>v p. pd_id p = fw_product v
               \<and> (kb_fact_differs (fw_country v) (pd_country_id p) (pd_country_source p)
                  \<or> kb_fact_differs (fw_type v) (pd_type_id p) (pd_type_source p))"])
        (use False in \<open>auto simp: same_listing_def kb_fact_row_def apply_kb_facts_def\<close>)
  qed
  obtain u1 u2 where "ct_products (set_producers now ws db) = map u1 (ct_products db)" "\<forall>p. same_listing (u1 p) p"
    "ct_products (apply_kb_facts now fs (set_producers now ws db)) = map u2 (ct_products (set_producers now ws db))"
    "\<forall>p. same_listing (u2 p) p" using one two by metis
  then show ?thesis by (intro exI [of _ "u2 \<circ> u1"]) (auto simp: same_listing_def)
qed

lemma kb_frame:
  "ct_links (apply_kb_facts now fs (set_producers now ws db)) = ct_links db"
  "ct_types (apply_kb_facts now fs (set_producers now ws db)) = ct_types db"
  "ct_products (apply_kb_flavors vs db) = ct_products db"
  "ct_types (apply_kb_flavors vs db) = ct_types db"
  by (simp_all add: apply_kb_facts_def set_producers_def apply_kb_flavors_def delete_kb_links_def insert_kb_links_def Let_def)

lemma flatten_set: "set (flatten_writes pick ws) = {(vw_product w, f) | w f. w \<in> set ws \<and> f \<in> set (pick w)}"
  by (auto simp: flatten_writes_def)

lemma uncurated_links [simp]: "uncurated (db\<lparr>ct_links := ls\<rparr>) i = uncurated db i"
  by (simp add: uncurated_def)

lemma source_after_kb:
  assumes "distinct (map link_key (ct_links db))"
  shows "source_at (ct_links (apply_kb_flavors ws db)) i f =
     (if \<not> uncurated db i then source_at (ct_links db) i f
      else if (i, f) \<in> set (flatten_writes vw_insert ws) then Some Flavor_Kb
      else case source_at (ct_links db) i f of None \<Rightarrow> None
           | Some s \<Rightarrow> if (i, f) \<in> set (flatten_writes vw_delete ws) \<and> s \<noteq> Flavor_Manual then None else Some s)"
proof -
  let ?D = "flatten_writes vw_delete ws" and ?I = "flatten_writes vw_insert ws"
  have del: "source_at (ct_links (delete_kb_links ?D db)) i f =
      (case source_at (ct_links db) i f of None \<Rightarrow> None
       | Some s \<Rightarrow> if (i, f) \<in> set ?D \<and> uncurated db i \<and> s \<noteq> Flavor_Manual then None else Some s)"
    using source_at_delete [OF assms, of "\<lambda>j g s. (j, g) \<in> set ?D \<and> uncurated db j \<and> s \<noteq> Flavor_Manual"]
    by (simp add: delete_kb_links_def)
  have ins: "source_at (ct_links (insert_kb_links ?I d)) i f =
      (if (i, f) \<in> set ?I \<and> uncurated d i then Some Flavor_Kb else source_at (ct_links d) i f)" for d
    by (auto simp: insert_kb_links_def source_at_fold_put split: option.split)
  have "uncurated (delete_kb_links ?D db) i = uncurated db i" by (simp add: delete_kb_links_def)
  then show ?thesis
    by (cases "source_at (ct_links db) i f") (auto simp: apply_kb_flavors_def Let_def ins del)
qed

lemma row_links:
  "distinct (map link_key (ct_links db)) \<Longrightarrow>
    (f, s) \<in> set (kr_flavors (kb_row_of db p)) \<longleftrightarrow> source_at (ct_links db) (pd_id p) f = Some s"
  by (auto simp: kb_row_of_def source_at_member image_iff)
     (metis flavor_link.cases flavor_link.simps(1,2,3))

lemma kb_links_distinct:
  "distinct (map link_key (ct_links db)) \<Longrightarrow> distinct (map link_key (ct_links (apply_kb_flavors ws db)))"
  by (simp add: apply_kb_flavors_def delete_kb_links_def insert_kb_links_def Let_def distinct_sql_delete fold_put_keys(2))

section \<open>One pass\<close>

locale kb_run =
  fixes fk :: "string \<Rightarrow> string" and lower :: "string \<Rightarrow> string" and coll :: "string \<Rightarrow> string \<Rightarrow> rat"
    and now :: int and kx :: kb_index and ids :: "row_id list" and db :: catalogue
  assumes ids_unique: "distinct (map pd_id (ct_products db))"
    and links_unique: "distinct (map link_key (ct_links db))"
begin

definition rows :: "kb_row list" where "rows = kb_reconcile_candidates lower coll ids db"

definition pairs :: "(kb_group \<times> kb_resolution) list" where "pairs = plan_pairs fk lower coll kx rows"

definition plan :: kb_plan where "plan = kb_plan_of_run fk lower coll kx ids db"

definition after :: catalogue where "after = apply_kb_plan now plan db"

lemma row_ids: "distinct (map kr_id rows)"
proof -
  let ?ps = "filter (\<lambda>p. ids = [] \<or> pd_id p \<in> set ids) (ct_products db)"
  have "mset (map pd_id (js_sort (by_lower_name lower coll) ?ps)) = mset (map pd_id ?ps)" by (simp add: mset_js_sort)
  moreover have "distinct (map pd_id ?ps)" using ids_unique by (rule distinct_map_filter)
  ultimately have "distinct (map pd_id (js_sort (by_lower_name lower coll) ?ps))" by (metis mset_eq_imp_distinct_iff)
  then show ?thesis by (simp add: rows_def kb_reconcile_candidates_def comp_def kb_row_of_def)
qed

lemma plan_is:
  "kp_producers plan = concat (map (\<lambda>(g, res). map (producer_write_of res) (kg_rows g)) pairs)"
  "kp_facts plan = concat (map (\<lambda>(g, res). map (fact_write_of (kb_type_ids (default_type_names kx) db) res) (kg_rows g)) pairs)"
  "kp_flavors plan = concat (map (\<lambda>(g, res). map (flavor_write_of False (kx_peat kx) res) (kg_rows g)) pairs)"
  by (simp_all add: plan_def kb_plan_of_run_def plan_writes pairs_def rows_def)

lemma plan_ids:
  "distinct (map pw_product (kp_producers plan))" "distinct (map fw_product (kp_facts plan))"
  "distinct (map vw_product (kp_flavors plan))"
  unfolding plan_is pairs_def
  by (rule distinct_plan_ids [OF row_ids],
      simp add: producer_write_of_def fact_write_of_def flavor_write_of_def plan_flavors_def Let_def split: prod.splits)+

lemma flatten_row:
  assumes w: "w \<in> set (kp_flavors plan)" and empty: "\<And>v. vw_insert v = [] \<Longrightarrow> vw_delete v = [] \<Longrightarrow> pick v = []"
  shows "(vw_product w, f) \<in> set (flatten_writes pick (filter writes_flavors (kp_flavors plan)))
    \<longleftrightarrow> f \<in> set (pick w)"
proof -
  have "v = w" if "v \<in> set (kp_flavors plan)" "vw_product v = vw_product w" for v
    using find_key_eq [OF plan_ids(3) w that(1)] that(2) by simp
  then show ?thesis using w empty [of w] by (auto simp: flatten_set writes_flavors_def)
qed

lemma after_products:
  obtains u where "ct_products after = map u (ct_products db)" and "\<And>p. same_listing (u p) p"
  using kb_facts_are_map [of now "kp_facts plan" "kp_producers plan" db]
  by (auto simp: after_def apply_kb_plan_def kb_frame)

lemma after_uncurated [simp]: "uncurated (apply_kb_facts now fs (set_producers now ws db)) i = uncurated db i"
proof -
  obtain u where "ct_products (apply_kb_facts now fs (set_producers now ws db)) = map u (ct_products db)"
    and "\<forall>p. same_listing (u p) p" using kb_facts_are_map by blast
  then show ?thesis by (simp add: uncurated_def same_listing_def)
qed

lemma after_source:
  assumes "w \<in> set (kp_flavors plan)"
  shows "source_at (ct_links after) (vw_product w) f =
    (if uncurated db (vw_product w) then planned_source w f (source_at (ct_links db) (vw_product w) f)
     else source_at (ct_links db) (vw_product w) f)"
proof -
  let ?ws = "filter writes_flavors (kp_flavors plan)"
  have flat: "(vw_product w, f) \<in> set (flatten_writes vw_insert ?ws) \<longleftrightarrow> f \<in> set (vw_insert w)"
    "(vw_product w, f) \<in> set (flatten_writes vw_delete ?ws) \<longleftrightarrow> f \<in> set (vw_delete w)"
    by (rule flatten_row [OF assms]; simp)+
  show ?thesis
    unfolding after_def apply_kb_plan_def
    by (subst source_after_kb) (simp_all add: kb_frame links_unique flat planned_source_def split: option.split)
qed

lemma row_write:
  assumes "row \<in> set rows"
  obtains g res where "(g, res) \<in> set pairs" and "row \<in> set (kg_rows g)"
    and "flavor_write_of False (kx_peat kx) res row \<in> set (kp_flavors plan)"
proof -
  obtain g res where "(g, res) \<in> set pairs" "row \<in> set (kg_rows g)"
    using plan_pair_of_row [OF assms] unfolding pairs_def by blast
  then show ?thesis using that by (force simp: plan_is)
qed

lemma flavor_write_product [simp]: "vw_product (flavor_write_of ku pids res row) = kr_id row"
  by (simp add: flavor_write_of_def plan_flavors_def Let_def split: prod.split)

lemma row_of_product:
  assumes "p \<in> set (ct_products db)" and "ids = [] \<or> pd_id p \<in> set ids"
  shows "kb_row_of db p \<in> set rows"
  using assms by (auto simp: rows_def kb_reconcile_candidates_def)

lemma peat_source_after:
  assumes p: "p \<in> set (ct_products db)" "ids = [] \<or> pd_id p \<in> set ids" "pd_flavors_curated_at p = None"
    and f: "is_peat (kx_peat kx) f" and s: "source_at (ct_links after) (pd_id p) f = Some s"
  shows "s \<in> {Flavor_Kb, Flavor_Manual}"
proof -
  let ?row = "kb_row_of db p"
  have unc: "uncurated db (pd_id p)" using p by (auto simp: uncurated_def)
  obtain g res where res: "flavor_write_of False (kx_peat kx) res ?row \<in> set (kp_flavors plan)"
    by (rule row_write [OF row_of_product [OF p(1,2)]]) blast
  have row: "kr_id ?row = pd_id p" "kr_curated_at ?row = None" using p(3) by (simp_all add: kb_row_of_def)
  let ?w = "plan_flavors False (kx_peat kx) ?row res" and ?s = "source_at (ct_links db) (pd_id p) f"
  have w: "flavor_write_of False (kx_peat kx) res ?row = ?w" by (simp add: flavor_write_of_def row)
  have links: "(f, t) \<in> set (kr_flavors ?row) \<longleftrightarrow> ?s = Some t" for t by (rule row_links [OF links_unique])
  have s': "planned_source ?w f ?s = Some s"
    using after_source [OF res, of f, unfolded flavor_write_product row] s unc by (simp only: if_True w)
  show ?thesis
  proof (rule ccontr)
    assume no: "s \<notin> {Flavor_Kb, Flavor_Manual}"
    then have notin: "f \<notin> set (vw_insert ?w)" "?s = Some s" "f \<notin> set (vw_delete ?w)"
      using s' by (auto simp: planned_source_def split: option.splits if_splits)
    then have "plan_keeps (kx_peat kx) res ?row f \<or> f \<in> set (wanted_peat (kx_peat kx) (rs_peat res))"
      using no f by (auto simp: plan_sets links plan_sweeps_def)
    then show False using notin(1,2) no unfolding plan_sets by (auto simp: links)
  qed
qed

lemma after_links_unique: "distinct (map link_key (ct_links after))"
  by (simp add: after_def apply_kb_plan_def kb_links_distinct kb_frame links_unique)

lemma after_types: "ct_types after = ct_types db"
  by (simp add: after_def apply_kb_plan_def kb_frame)

definition relinked :: "kb_row \<Rightarrow> kb_row" where
  "relinked row = row\<lparr>kr_flavors := map (\<lambda>l. (fl_flavor l, fl_source l)) (filter (\<lambda>l. fl_product l = kr_id row) (ct_links after))\<rparr>"

lemma relinked_simps [simp]:
  "kr_id (relinked row) = kr_id row" "kr_name (relinked row) = kr_name row"
  "kr_brand (relinked row) = kr_brand row" "kr_curated_at (relinked row) = kr_curated_at row"
  by (simp_all add: relinked_def)

lemma rows_after: "kb_reconcile_candidates lower coll ids after = map relinked rows"
proof -
  obtain u where u: "ct_products after = map u (ct_products db)" "\<And>p. same_listing (u p) p"
    using after_products by blast
  have same: "pd_id (u p) = pd_id p" "pd_name (u p) = pd_name p" "pd_brand_orig (u p) = pd_brand_orig p"
    "pd_flavors_curated_at (u p) = pd_flavors_curated_at p" for p using u(2) [of p] by (simp_all add: same_listing_def)
  have sorted: "js_sort (by_lower_name lower coll) (map u ps) = map u (js_sort (by_lower_name lower coll) ps)" for ps
    by (rule js_sort_map) (simp add: by_lower_name_def by_number_def same)
  have row: "kb_row_of after (u p) = relinked (kb_row_of db p)" for p
    by (simp add: kb_row_of_def relinked_def same)
  show ?thesis
    by (simp add: kb_reconcile_candidates_def rows_def u(1) filter_map comp_def same sorted row)
qed

lemma row_product:
  assumes "row \<in> set rows"
  obtains p where "p \<in> set (ct_products db)" and "row = kb_row_of db p"
  using assms by (auto simp: rows_def kb_reconcile_candidates_def)

lemma row_settled:
  assumes spare: "baselines_spare_peat kx" and pair: "(g, res) \<in> set pairs" and row: "row \<in> set (kg_rows g)"
  shows "\<not> writes_flavors (flavor_write_of False (kx_peat kx) res (relinked row))"
proof (cases "kr_curated_at row = None")
  case False
  then show ?thesis by (simp add: flavor_write_of_def writes_flavors_def)
next
  case True
  have "row \<in> set rows" using plan_pair_rows pair row unfolding pairs_def by blast
  then obtain p where p: "p \<in> set (ct_products db)" "row = kb_row_of db p" by (rule row_product)
  have i: "kr_id row = pd_id p" and c: "pd_flavors_curated_at p = None" using p(2) True by (simp_all add: kb_row_of_def)
  then have unc: "uncurated db (kr_id row)" using p(1) by (auto simp: uncurated_def)
  let ?src = "source_at (ct_links db) (kr_id row)" and ?w = "plan_flavors False (kx_peat kx) row res"
  have w: "flavor_write_of False (kx_peat kx) res row = ?w" by (simp add: flavor_write_of_def True)
  have "?w \<in> set (kp_flavors plan)" using pair row w by (force simp: plan_is)
  then have src: "source_at (ct_links after) (kr_id row) f = planned_source ?w f (?src f)" for f
    using after_source [of ?w f] unc by (simp add: flip: w)
  have links: "(f, s) \<in> set (kr_flavors row) \<longleftrightarrow> ?src f = Some s" for f s
    unfolding p(2) i [unfolded p(2)] by (rule row_links [OF links_unique])
  have "(f, s) \<in> set (kr_flavors (relinked row)) \<longleftrightarrow> source_at (ct_links after) (kr_id row) f = Some s" for f s
    using row_links [OF after_links_unique, of f s p] i by (simp add: relinked_def kb_row_of_def)
  then have links': "(f, s) \<in> set (kr_flavors (relinked row)) \<longleftrightarrow> planned_source ?w f (?src f) = Some s" for f s
    by (simp add: src)
  obtain ri where ri: "res = resolve_one fk kx ri" using plan_pair_resolution pair unfolding pairs_def by blast
  have "\<not> is_peat (kx_peat kx) f \<and> f \<notin> set (rs_forbidden res)" if "f \<in> set (rs_baseline res)" for f
    using resolution_baseline [OF spare] that unfolding ri by blast
  note settled = plan_settles [OF links links' this]
  show ?thesis using settled True by (simp add: flavor_write_of_def writes_flavors_def)
qed

lemma plan_after:
  assumes "baselines_spare_peat kx"
  shows "kp_producers (kb_plan_of_run fk lower coll kx ids after) = kp_producers plan"
    and "kp_facts (kb_plan_of_run fk lower coll kx ids after) = kp_facts plan"
    and "filter writes_flavors (kp_flavors (kb_plan_of_run fk lower coll kx ids after)) = []"
proof -
  have tids: "kb_type_ids (default_type_names kx) after = kb_type_ids (default_type_names kx) db"
    unfolding kb_type_ids_def after_types by (rule refl)
  have pairs: "plan_pairs fk lower coll kx (map relinked rows) =
      map (\<lambda>(g, res). (g\<lparr>kg_rows := map relinked (kg_rows g)\<rparr>, res)) pairs"
    unfolding pairs_def by (rule plan_pairs_map) simp_all
  have pw: "producer_write_of res (relinked row) = producer_write_of res row" for res row by (simp add: producer_write_of_def)
  have fw: "fact_write_of tids res (relinked row) = fact_write_of tids res row" for tids res row by (simp add: fact_write_of_def)
  show "kp_producers (kb_plan_of_run fk lower coll kx ids after) = kp_producers plan"
    by (simp add: kb_plan_of_run_def plan_writes rows_after pairs plan_is comp_def split_def pw)
  show "kp_facts (kb_plan_of_run fk lower coll kx ids after) = kp_facts plan"
    by (simp add: kb_plan_of_run_def plan_writes rows_after pairs plan_is comp_def split_def fw tids)
  show "filter writes_flavors (kp_flavors (kb_plan_of_run fk lower coll kx ids after)) = []"
    using row_settled [OF assms] by (auto simp: kb_plan_of_run_def plan_writes rows_after pairs filter_empty_conv)
qed

lemma products_settled:
  "apply_kb_facts now' (kp_facts plan) (set_producers now' (kp_producers plan) after) = after"
proof -
  have step: "ct_products after = ct_products (apply_kb_facts now (kp_facts plan) (set_producers now (kp_producers plan) db))"
    by (simp add: after_def apply_kb_plan_def kb_frame)
  let ?wp = "\<lambda>v p. pd_id p = pw_product v \<and> pd_producer_source p \<noteq> Some Fact_Manual
               \<and> (pd_producer_id p \<noteq> pw_producer v \<or> pd_bottler_id p \<noteq> pw_bottler v
                  \<or> pd_producer_source p \<noteq> Some (pw_source v))"
  let ?wf = "\<lambda>v p. pd_id p = fw_product v
               \<and> (kb_fact_differs (fw_country v) (pd_country_id p) (pd_country_source p)
                  \<or> kb_fact_differs (fw_type v) (pd_type_id p) (pd_type_source p))"
  have producers: "\<not> ?wp v p" if p: "p \<in> set (ct_products (set_producers now (kp_producers plan) db))" and v: "v \<in> set (kp_producers plan)" for p v
  proof (rule sql_update_from_settles [where w = ?wp and k = pw_product and i = pd_id and vs = "kp_producers plan" and rs = "ct_products db"
        and f = "\<lambda>v p. p\<lparr>pd_producer_id := pw_producer v, pd_bottler_id := pw_bottler v,
                 pd_producer_source := Some (pw_source v), pd_updated_at := now\<rparr>"])
    show "distinct (map pw_product (kp_producers plan))" by (rule plan_ids(1))
    show "v \<in> set (kp_producers plan)" by (rule v)
    show "p \<in> set (sql_update_from ?wp (\<lambda>v p. p\<lparr>pd_producer_id := pw_producer v, pd_bottler_id := pw_bottler v,
                 pd_producer_source := Some (pw_source v), pd_updated_at := now\<rparr>) (kp_producers plan) (ct_products db))"
      using p v by (auto simp: set_producers_def split: if_splits)
  qed auto
  have facts: "\<not> ?wf v p" if p: "p \<in> set (ct_products after)" and v: "v \<in> set (kp_facts plan)" for p v
  proof (rule sql_update_from_settles [where w = ?wf and k = fw_product and i = pd_id and vs = "kp_facts plan"
        and rs = "ct_products (set_producers now (kp_producers plan) db)" and f = "kb_fact_row now"])
    show "distinct (map fw_product (kp_facts plan))" by (rule plan_ids(2))
    show "v \<in> set (kp_facts plan)" by (rule v)
    show "p \<in> set (sql_update_from ?wf (kb_fact_row now) (kp_facts plan) (ct_products (set_producers now (kp_producers plan) db)))"
      using p v unfolding step by (auto simp: apply_kb_facts_def split: if_splits)
    show "\<not> ?wf v (kb_fact_row now v q)" for v q
      by (auto simp: kb_fact_row_def kb_fact_differs_def kb_may_write_def split: if_splits)
  qed (auto simp: kb_fact_row_def)
  have "\<not> ?wp v p" if p: "p \<in> set (ct_products after)" and v: "v \<in> set (kp_producers plan)" for p v
  proof -
    have "\<exists>q\<in>set (ct_products (set_producers now (kp_producers plan) db)). pd_id p = pd_id q \<and> pd_producer_id p = pd_producer_id q
        \<and> pd_bottler_id p = pd_bottler_id q \<and> pd_producer_source p = pd_producer_source q"
    proof -
      let ?ps = "ct_products (set_producers now (kp_producers plan) db)"
      have "p \<in> set ?ps \<or> (\<exists>q\<in>set ?ps. \<exists>v. p = kb_fact_row now v q)"
        using p in_sql_update_from [of p ?wf "kb_fact_row now" "kp_facts plan" ?ps]
        unfolding step apply_kb_facts_def by (cases "kp_facts plan = []") auto
      moreover have "pd_id (kb_fact_row now v q) = pd_id q \<and> pd_producer_id (kb_fact_row now v q) = pd_producer_id q
        \<and> pd_bottler_id (kb_fact_row now v q) = pd_bottler_id q
        \<and> pd_producer_source (kb_fact_row now v q) = pd_producer_source q" for v q by (simp add: kb_fact_row_def)
      ultimately show ?thesis by auto
    qed
    then show ?thesis using producers [OF _ v] by metis
  qed
  then have "set_producers now' (kp_producers plan) after = after"
    by (simp add: set_producers_def sql_update_from_settled)
  moreover have "apply_kb_facts now' (kp_facts plan) after = after"
    using facts by (simp add: apply_kb_facts_def sql_update_from_settled)
  ultimately show ?thesis by simp
qed

lemma second_pass:
  assumes "baselines_spare_peat kx"
  shows "apply_kb_plan now' (kb_plan_of_run fk lower coll kx ids after) after = after"
  unfolding apply_kb_plan_def plan_after [OF assms] products_settled
  by (simp add: apply_kb_flavors_def flatten_writes_def js_sort_def)

lemma written_row:
  assumes "(i, f) \<in> set (flatten_writes pick (filter writes_flavors (kp_flavors plan)))"
  obtains p g res where "p \<in> set (ct_products db)" and "pd_id p = i" and "ids = [] \<or> i \<in> set ids"
    and "f \<in> set (pick (flavor_write_of False (kx_peat kx) res (kb_row_of db p)))"
proof -
  obtain g res row where pair: "(g, res) \<in> set pairs" "row \<in> set (kg_rows g)"
    and f: "i = kr_id row" "f \<in> set (pick (flavor_write_of False (kx_peat kx) res row))"
    using assms by (fastforce simp: flatten_set plan_is)
  have "row \<in> set rows" using plan_pair_rows pair unfolding pairs_def by blast
  then obtain p where "p \<in> set (ct_products db)" "row = kb_row_of db p" "ids = [] \<or> pd_id p \<in> set ids"
    by (auto simp: rows_def kb_reconcile_candidates_def)
  then show ?thesis using that f by (simp add: kb_row_of_def)
qed

lemma manual_after:
  assumes m: "source_at (ct_links db) i f = Some Flavor_Manual"
  shows "source_at (ct_links after) i f = Some Flavor_Manual"
proof -
  let ?ws = "filter writes_flavors (kp_flavors plan)"
  have "(i, f) \<notin> set (flatten_writes vw_insert ?ws)"
  proof
    assume "(i, f) \<in> set (flatten_writes vw_insert ?ws)"
    then obtain p res where p: "p \<in> set (ct_products db)" "pd_id p = i"
      and f: "f \<in> set (vw_insert (flavor_write_of False (kx_peat kx) res (kb_row_of db p)))"
      by (rule written_row) blast
    have "(f, Flavor_Manual) \<in> set (kr_flavors (kb_row_of db p))" using m p(2) by (simp add: row_links [OF links_unique])
    moreover from this have "f \<in> fst ` set (kr_flavors (kb_row_of db p))" by force
    ultimately show False using f by (auto simp: flavor_write_of_def plan_sets plan_keeps_def split: if_splits)
  qed
  then show ?thesis
    unfolding after_def apply_kb_plan_def
    by (subst source_after_kb) (simp_all add: kb_frame links_unique m)
qed

lemma outsiders_after:
  assumes "ids \<noteq> []" and "i \<notin> set ids \<or> \<not> uncurated db i"
  shows "source_at (ct_links after) i f = source_at (ct_links db) i f"
proof (cases "uncurated db i")
  case True
  then have "(i, f) \<notin> set (flatten_writes pick (filter writes_flavors (kp_flavors plan)))" for pick
    using assms by (blast elim: written_row)
  then show ?thesis
    unfolding after_def apply_kb_plan_def
    by (subst source_after_kb) (simp_all add: kb_frame links_unique split: option.split)
next
  case False
  then show ?thesis
    unfolding after_def apply_kb_plan_def
    by (subst source_after_kb) (simp_all add: kb_frame links_unique)
qed

end

end
