(* ===== verification/Kb_Claims.thy ===== *)
theory Kb_Claims
  imports Persist_Claims Kb_Pass_Facts
begin

text \<open>
  The properties of the knowledge base's pass over the catalogue. The pass is interpreted on every
  catalogue the store runs build up from an empty database, and applied to a small cellar: an
  unpeated bottling a scrape called peated, a peated one nobody tagged, and a curated one.
\<close>

section \<open>The pass on what the store runs wrote\<close>

definition no_catalogue :: catalogue where
  "no_catalogue = \<lparr>ct_products = [], ct_aliases = [], ct_offers = [], ct_snapshots = [], ct_links = [], ct_conflicts = [],
     ct_favorites = [], ct_blacklist = [], ct_collection = [], ct_purchases = [], ct_types = [], ct_flavors = [],
     ct_countries = [], ct_next = 0\<rparr>"

definition after_runs :: "(persist_env \<times> row_id \<times> product_snapshot list \<times> string list \<times> string \<times> listing_result) list \<Rightarrow> catalogue" where
  "after_runs runs = fold (\<lambda>(env, store, snaps, oos, day, listing) db. snd (persist env store snaps oos day listing db)) runs no_catalogue"

lemma no_catalogue_ok: "catalogue_ok no_catalogue"
  by (simp add: no_catalogue_def catalogue_ok_def constraint_defs product_ids_def live_keys_def)

lemma persist_keeps_ok: "catalogue_ok db \<Longrightarrow> catalogue_ok (snd (persist env store snaps oos day listing db))"
  using persist_ok_evolves [OF _ surjective_pairing] by blast

lemma fold_keeps_ok: "(\<And>x db. catalogue_ok db \<Longrightarrow> catalogue_ok (f x db)) \<Longrightarrow> catalogue_ok db \<Longrightarrow> catalogue_ok (fold f xs db)"
  by (induction xs arbitrary: db) simp_all

lemma after_runs_ok: "catalogue_ok (after_runs runs)"
  unfolding after_runs_def by (rule fold_keeps_ok) (auto simp: persist_keeps_ok no_catalogue_ok)

lemma kb_run_on_ok: "catalogue_ok db \<Longrightarrow> kb_run db"
  by unfold_locales (use catalogue_okD [of db] in \<open>simp_all add: products_ok_def links_ok_def\<close>)

interpretation built: kb_run fk lower coll now kx ids "after_runs runs"
  for fk lower coll now kx ids runs
  by (rule kb_run_on_ok) (rule after_runs_ok)

lemma apply_kb_is_plan:
  "snd (apply_kb fk lower coll now kx ids db) =
     (if ids = [] \<or> kx_aliases kx = [] then db else apply_kb_plan now (kb_plan_of_run fk lower coll kx ids db) db)"
  by (simp add: apply_kb_def Let_def)

section \<open>A small cellar\<close>

definition cellar_product :: "row_id \<Rightarrow> string \<Rightarrow> int option \<Rightarrow> product_row" where
  "cellar_product i name curated = (shop_product i name)\<lparr>pd_flavors_curated_at := curated\<rparr>"

definition cellar :: catalogue where
  "cellar = no_catalogue\<lparr>
     ct_products := [cellar_product 1 ''glen'' None, cellar_product 2 ''ardbeg'' None, cellar_product 3 ''glen old'' (Some 5)],
     ct_links := [\<lparr>fl_product = 1, fl_flavor = 70, fl_source = Flavor_Scrape\<rparr>, \<lparr>fl_product = 1, fl_flavor = 72, fl_source = Flavor_Manual\<rparr>,
       \<lparr>fl_product = 3, fl_flavor = 70, fl_source = Flavor_Scrape\<rparr>],
     ct_next := 80\<rparr>"

definition cellar_producer :: "row_id \<Rightarrow> peat_profile \<Rightarrow> producer_facts" where
  "cellar_producer i peat =
     \<lparr>pf_id = i, pf_kind = Kind_Distillery, pf_country = None, pf_parent = None, pf_bottler = None, pf_default_type = None,
      pf_peat = peat\<rparr>"

definition cellar_index :: kb_index where
  "cellar_index =
     \<lparr>kx_aliases = [\<lparr>ae_key = ''ardbeg'', ae_scope = Scope_Any, ae_producer = cellar_producer 50 Peat_Heavy\<rparr>,
        \<lparr>ae_key = ''glen'', ae_scope = Scope_Lead, ae_producer = cellar_producer 51 Peat_None\<rparr>],
      kx_producers = [(50, cellar_producer 50 Peat_Heavy), (51, cellar_producer 51 Peat_None)], kx_rules = [],
      kx_house = [(51, [\<lparr>hf_flavor = 73, hf_effect = Effect_Baseline\<rparr>])],
      kx_peat = \<lparr>peat_peated = Some 70, peat_smoky = Some 71\<rparr>\<rparr>"

abbreviation cellar_pass :: "row_id list \<Rightarrow> catalogue \<Rightarrow> (nat \<times> nat) option \<times> catalogue" where
  "cellar_pass \<equiv> apply_kb (\<lambda>s. s) (\<lambda>s. s) code_unit_compare 9 cellar_index"

lemma cellar_ok: "catalogue_ok cellar"
  by (simp add: catalogue_ok_def constraint_defs cellar_def cellar_product_def no_catalogue_def shop_product_def product_ids_def
      live_keys_def link_key_def)

lemma cellar_spared: "baselines_spare_peat cellar_index"
  by (simp add: baselines_spare_peat_def cellar_index_def is_peat_def)

lemma cellar_after:
  "map (\<lambda>l. (fl_product l, fl_flavor l, fl_source l)) (ct_links (snd (cellar_pass [1, 2, 3] cellar)))
   = [(1, 72, Flavor_Manual), (3, 70, Flavor_Scrape), (1, 73, Flavor_Kb), (2, 70, Flavor_Kb), (2, 71, Flavor_Kb)]"
  by code_simp

section \<open>Properties\<close>

text \<open>
  C9: after a pass the knowledge base alone answers for peat. No bottling of the run whose tags no
  person curated keeps a peat or smoke tag from a scrape or a model: what is left is the pass's own
  or a person's. Every link a person set stays theirs, and neither a curated bottling nor one
  outside the run sees any of its links change.
\<close>
theorem kb_owns_peat:
  assumes "catalogue_ok db" and "kx_aliases kx \<noteq> []"
  shows "let db' = snd (apply_kb fk lower coll now kx ids db) in
    (\<forall>p\<in>set (ct_products db). pd_id p \<in> set ids \<and> pd_flavors_curated_at p = None \<longrightarrow>
       (\<forall>f s. is_peat (kx_peat kx) f \<and> source_at (ct_links db') (pd_id p) f = Some s \<longrightarrow> s \<in> {Flavor_Kb, Flavor_Manual}))
    \<and> (\<forall>i f. source_at (ct_links db) i f = Some Flavor_Manual \<longrightarrow> source_at (ct_links db') i f = Some Flavor_Manual)
    \<and> (\<forall>i f. i \<notin> set ids \<or> \<not> uncurated db i \<longrightarrow> source_at (ct_links db') i f = source_at (ct_links db) i f)"
proof (cases "ids = []")
  case True
  then show ?thesis by (simp add: apply_kb_is_plan)
next
  case False
  note run = kb_run_on_ok [OF assms(1)]
  have db': "snd (apply_kb fk lower coll now kx ids db) = kb_run.after fk lower coll now kx ids db"
    by (simp add: apply_kb_is_plan kb_run.after_def [OF run] kb_run.plan_def [OF run] assms(2) False)
  show ?thesis
    unfolding Let_def db'
  proof (intro conjI ballI allI impI)
    fix p f s assume "p \<in> set (ct_products db)" "pd_id p \<in> set ids \<and> pd_flavors_curated_at p = None"
      and "is_peat (kx_peat kx) f \<and> source_at (ct_links (kb_run.after fk lower coll now kx ids db)) (pd_id p) f = Some s"
    then show "s \<in> {Flavor_Kb, Flavor_Manual}" using kb_run.peat_source_after [OF run] by blast
  qed (rule kb_run.manual_after [OF run], assumption, rule kb_run.outsiders_after [OF run False], assumption)
qed

theorem kb_owns_peat_witness:
  "source_at (ct_links (snd (cellar_pass [1, 2, 3] cellar))) 1 70 \<notin> {Some Flavor_Scrape, Some Flavor_Llm}
   \<and> source_at (ct_links (snd (cellar_pass [1, 2, 3] cellar))) 3 70 = Some Flavor_Scrape"
proof
  have here: "source_at (ct_links cellar) 3 70 = Some Flavor_Scrape" "\<not> uncurated cellar 3"
    by (simp_all add: cellar_def cellar_product_def no_catalogue_def shop_product_def uncurated_def link_key_def)
  have aliases: "kx_aliases cellar_index \<noteq> []" by (simp add: cellar_index_def)
  have one: "cellar_product 1 ''glen'' None \<in> set (ct_products cellar)" by (simp add: cellar_def)
  have peat: "is_peat (kx_peat cellar_index) 70" by (simp add: cellar_index_def is_peat_def)
  note settled = kb_owns_peat [OF cellar_ok aliases, of "\<lambda>s. s" "\<lambda>s. s" code_unit_compare 9 "[1, 2, 3]", unfolded Let_def]
  have "s \<in> {Flavor_Kb, Flavor_Manual}" if "source_at (ct_links (snd (cellar_pass [1, 2, 3] cellar))) 1 70 = Some s" for s
    using settled one peat that by (force simp: cellar_product_def shop_product_def)
  then show "source_at (ct_links (snd (cellar_pass [1, 2, 3] cellar))) 1 70 \<notin> {Some Flavor_Scrape, Some Flavor_Llm}"
    by auto
  show "source_at (ct_links (snd (cellar_pass [1, 2, 3] cellar))) 3 70 = Some Flavor_Scrape"
    using settled here by simp
qed



end
