(* ===== verification/Auth_Token.thy ===== *)
theory Auth_Token
  imports Js_String
begin

text \<open>
  What a caller carries: the permissions a user is granted and the scope string they travel in, the two
  tokens of a session (\<open>src/src/domain/auth/services/auth-token.service.ts\<close>) and the password hashes
  (\<open>src/src/utils/hash.util.ts\<close>).  The primitives are libraries and therefore parameters: signing
  and verifying a JWT and SHA-256 are the fields of \<open>token_kit\<close>, Argon2 and PBKDF2 those of
  \<open>password_kit\<close>; \<open>token_laws\<close> states what the documentation of \<open>jsonwebtoken\<close> promises.  A random
  value is an argument.
\<close>

section \<open>Resources, actions and permissions\<close>

datatype resource =
    Resource_Authenticated | Resource_Dashboard | Resource_Message | Resource_Permission | Resource_Preference
  | Resource_Producer | Resource_Product | Resource_Public | Resource_Quick_Filter | Resource_Self
  | Resource_Session | Resource_Store | Resource_User

datatype action =
    Action_Create | Action_Read | Action_Update | Action_Edit | Action_Delete | Action_List | Action_Logout
  | Action_Sync | Action_Review | Action_Read_Permissions | Action_Set_Permissions

fun resource_name :: "resource \<Rightarrow> string" where
  "resource_name Resource_Authenticated = ''authenticated''"
| "resource_name Resource_Dashboard = ''dashboard''"
| "resource_name Resource_Message = ''message''"
| "resource_name Resource_Permission = ''permission''"
| "resource_name Resource_Preference = ''preference''"
| "resource_name Resource_Producer = ''producer''"
| "resource_name Resource_Product = ''product''"
| "resource_name Resource_Public = ''public''"
| "resource_name Resource_Quick_Filter = ''quick_filter''"
| "resource_name Resource_Self = ''self''"
| "resource_name Resource_Session = ''session''"
| "resource_name Resource_Store = ''store''"
| "resource_name Resource_User = ''user''"

fun action_name :: "action \<Rightarrow> string" where
  "action_name Action_Create = ''create''"
| "action_name Action_Read = ''read''"
| "action_name Action_Update = ''update''"
| "action_name Action_Edit = ''edit''"
| "action_name Action_Delete = ''delete''"
| "action_name Action_List = ''list''"
| "action_name Action_Logout = ''logout''"
| "action_name Action_Sync = ''sync''"
| "action_name Action_Review = ''review''"
| "action_name Action_Read_Permissions = ''read_permissions''"
| "action_name Action_Set_Permissions = ''set_permissions''"

definition all_resources :: "resource list" where
  "all_resources =
     [Resource_Authenticated, Resource_Dashboard, Resource_Message, Resource_Permission, Resource_Preference,
      Resource_Producer, Resource_Product, Resource_Public, Resource_Quick_Filter, Resource_Self,
      Resource_Session, Resource_Store, Resource_User]"

definition all_actions :: "action list" where
  "all_actions =
     [Action_Create, Action_Read, Action_Update, Action_Edit, Action_Delete, Action_List, Action_Logout,
      Action_Sync, Action_Review, Action_Read_Permissions, Action_Set_Permissions]"

type_synonym granted_permission = "resource \<times> action"
type_synonym permission_map = "(resource \<times> action list) list" \<comment> \<open>a \<open>Map\<close> of \<open>Set\<close>s, both in insertion order\<close>

definition scope_word :: "granted_permission \<Rightarrow> string" where
  "scope_word p = resource_name (fst p) @ CHR '':'' # action_name (snd p)"

definition encode_scopes :: "granted_permission list \<Rightarrow> string" where
  "encode_scopes perms = js_join (CHR '' '') (js_set (map scope_word perms))"

definition read_scope :: "string \<Rightarrow> granted_permission option" where
  \<comment> \<open>\<open>str.split(':')\<close> read by its first two parts, when both are known names\<close>
  "read_scope str =
     (case js_split (CHR '':'') str of
        r # a # _ \<Rightarrow>
          (case (find (\<lambda>x. resource_name x = r) all_resources, find (\<lambda>x. action_name x = a) all_actions) of
             (Some res, Some act) \<Rightarrow> Some (res, act)
           | _ \<Rightarrow> None)
      | _ \<Rightarrow> None)"

definition add_scope :: "permission_map \<Rightarrow> string \<Rightarrow> permission_map" where
  "add_scope acc str =
     (case read_scope str of
        None \<Rightarrow> acc
      | Some (res, act) \<Rightarrow>
          (let held = (case js_get acc res of None \<Rightarrow> [] | Some acts \<Rightarrow> acts)
           in AList.update res (if act \<in> set held then held else held @ [act]) acc))"

definition decode_scopes :: "string \<Rightarrow> permission_map" where
  "decode_scopes scope = foldl add_scope [] (js_split (CHR '' '') scope)"

definition to_scope_list :: "permission_map option \<Rightarrow> string list" where
  \<comment> \<open>what \<open>GET /auth/me\<close> lists\<close>
  "to_scope_list perms =
     (case perms of None \<Rightarrow> [] | Some m \<Rightarrow> concat (map (\<lambda>(r, acts). map (\<lambda>a. scope_word (r, a)) acts) m))"

section \<open>Tokens\<close>

record access_jwt =
  jwt_sub :: string
  jwt_sid :: string
  jwt_admin :: bool
  jwt_scope :: string

record token_kit =
  jwt_sign :: "access_jwt \<Rightarrow> int \<Rightarrow> string" \<comment> \<open>\<open>signAsync\<close> at a moment (epoch milliseconds)\<close>
  jwt_verify :: "int \<Rightarrow> string \<Rightarrow> access_jwt option" \<comment> \<open>\<open>verifyAsync\<close>; \<open>None\<close> is a rejection\<close>
  sha256 :: "string \<Rightarrow> string" \<comment> \<open>the base64url digest\<close>
  jwt_expires_sec :: int \<comment> \<open>\<open>JWT_ACCESS_EXPIRES\<close>\<close>

definition token_laws :: "token_kit \<Rightarrow> bool" where
  \<comment> \<open>a signed token verifies, whole, until the second it expires in\<close>
  "token_laws kit \<longleftrightarrow>
     (\<forall>payload signed now. jwt_verify kit now (jwt_sign kit payload signed) =
        (if now div 1000 < signed div 1000 + jwt_expires_sec kit then Some payload else None))"

record refresh_token_out =
  ro_token :: string
  ro_hash :: string

record session_tokens =
  st_sid :: string
  st_access :: string
  st_refresh :: refresh_token_out

record parsed_refresh_token =
  pr_user :: string
  pr_sid :: string
  pr_secret :: string

record auth_row =
  ar_id :: string
  ar_name :: string
  ar_email :: "string option"
  ar_password :: string
  ar_active :: bool
  ar_admin :: bool
  ar_permissions :: "granted_permission list"
  ar_last_active :: "int option"

definition hash_refresh_token :: "token_kit \<Rightarrow> string \<Rightarrow> string" where
  "hash_refresh_token kit secret = sha256 kit secret"

definition verify_refresh_hash :: "token_kit \<Rightarrow> string \<Rightarrow> string \<Rightarrow> bool" where
  "verify_refresh_hash kit secret hash =
     (let actual = hash_refresh_token kit secret
      in if length actual \<noteq> length hash then False else actual = hash)"

definition parse_refresh_token :: "string \<Rightarrow> parsed_refresh_token option" where
  "parse_refresh_token token =
     (case js_split (CHR ''.'') token of
        [user, sid, secret] \<Rightarrow>
          if user = [] \<or> sid = [] \<or> secret = [] then None
          else Some \<lparr>pr_user = user, pr_sid = sid, pr_secret = secret\<rparr>
      | _ \<Rightarrow> None)"

definition generate_refresh_token :: "token_kit \<Rightarrow> string \<Rightarrow> string \<Rightarrow> string \<Rightarrow> refresh_token_out" where
  "generate_refresh_token kit secret user sid =
     \<lparr>ro_token = js_join (CHR ''.'') [user, sid, secret], ro_hash = hash_refresh_token kit secret\<rparr>"

definition create_session_tokens ::
  "token_kit \<Rightarrow> int \<Rightarrow> string \<Rightarrow> string \<Rightarrow> auth_row \<Rightarrow> string option \<Rightarrow> session_tokens" where
  "create_session_tokens kit now fresh_sid secret user existing_sid =
     (let sid = (case existing_sid of Some s \<Rightarrow> s | None \<Rightarrow> fresh_sid);
          scope = encode_scopes (ar_permissions user);
          refresh = generate_refresh_token kit secret (ar_id user) sid;
          access = jwt_sign kit \<lparr>jwt_sub = ar_id user, jwt_sid = sid, jwt_admin = ar_admin user, jwt_scope = scope\<rparr> now
      in \<lparr>st_sid = sid, st_access = access, st_refresh = refresh\<rparr>)"

section \<open>Passwords\<close>

record password_kit =
  argon_verify :: "string \<Rightarrow> string \<Rightarrow> bool option" \<comment> \<open>hash, secret; \<open>None\<close> for a hash it cannot read\<close>
  argon_hash :: "string \<Rightarrow> string \<Rightarrow> string" \<comment> \<open>salt, secret\<close>
  pbkdf2 :: "string \<Rightarrow> nat list \<Rightarrow> int \<Rightarrow> nat \<Rightarrow> nat list option" \<comment> \<open>secret, salt, iterations, length\<close>
  decoy_salt :: string \<comment> \<open>drawn once, when the decoy is first needed\<close>

definition pbkdf2_prefix :: string where "pbkdf2_prefix = ''pbkdf2_sha256$''"

definition verify_pbkdf2 :: "password_kit \<Rightarrow> string \<Rightarrow> string \<Rightarrow> bool option" where
  "verify_pbkdf2 kdf secret hash =
     (case js_split (CHR ''$'') hash of
        [_, iters, salt, digest] \<Rightarrow>
          (case js_parse_int iters of
             None \<Rightarrow> Some False
           | Some n \<Rightarrow>
               if n \<le> 0 then Some False
               else (let expected = buffer_from_hex digest
                     in map_option (\<lambda>derived. length expected = length derived \<and> expected = derived)
                          (pbkdf2 kdf secret (buffer_from_hex salt) n (length expected))))
      | _ \<Rightarrow> Some False)"

definition verify_async :: "password_kit \<Rightarrow> string \<Rightarrow> string \<Rightarrow> bool option" where
  "verify_async kdf secret hash =
     (if starts_with hash pbkdf2_prefix then verify_pbkdf2 kdf secret hash else argon_verify kdf hash secret)"

definition needs_rehash :: "string \<Rightarrow> bool" where
  "needs_rehash hash = starts_with hash pbkdf2_prefix"

definition decoy_hash :: "password_kit \<Rightarrow> string" where
  "decoy_hash kdf = argon_hash kdf (decoy_salt kdf) ''decoy''"

section \<open>Scopes survive the token\<close>

definition granted :: "permission_map \<Rightarrow> resource \<Rightarrow> action \<Rightarrow> bool" where
  \<comment> \<open>\<open>permissions.get(resource)?.has(action)\<close>\<close>
  "granted m r a = (case js_get m r of None \<Rightarrow> False | Some acts \<Rightarrow> a \<in> set acts)"

lemma find_resource: "find (\<lambda>x. resource_name x = resource_name r) all_resources = Some r"
  by (cases r) (simp_all add: all_resources_def)

lemma find_action: "find (\<lambda>x. action_name x = action_name a) all_actions = Some a"
  by (cases a) (simp_all add: all_actions_def)

lemma plain_resource_name [simp]: "CHR '':'' \<notin> set (resource_name r)" "CHR '' '' \<notin> set (resource_name r)"
  by (cases r; simp)+

lemma plain_action_name [simp]: "CHR '':'' \<notin> set (action_name a)" "CHR '' '' \<notin> set (action_name a)"
  by (cases a; simp)+

lemma read_scope_word: "read_scope (scope_word p) = Some p"
  by (cases p) (simp add: read_scope_def scope_word_def js_split_append find_resource find_action)

lemma read_scope_blank: "read_scope [] = None"
  by (simp add: read_scope_def)

lemma granted_add: "granted (add_scope m str) r a \<longleftrightarrow> granted m r a \<or> read_scope str = Some (r, a)"
  by (auto simp: add_scope_def granted_def js_get_update Let_def split: option.split prod.split)

lemma granted_fold: "granted (foldl add_scope m strs) r a \<longleftrightarrow> granted m r a \<or> (\<exists>s\<in>set strs. read_scope s = Some (r, a))"
  by (induction strs arbitrary: m) (auto simp: granted_add)

lemma granted_decode: "granted (decode_scopes str) r a \<longleftrightarrow> (\<exists>w\<in>set (js_split (CHR '' '') str). read_scope w = Some (r, a))"
  by (simp add: decode_scopes_def granted_fold) (simp add: granted_def js_get_def)

lemma granted_decode_encode: "granted (decode_scopes (encode_scopes perms)) r a \<longleftrightarrow> (r, a) \<in> set perms"
proof (cases "perms = []")
  case True
  then show ?thesis by (simp add: granted_decode encode_scopes_def js_set_def read_scope_blank)
next
  case False
  let ?ws = "js_set (map scope_word perms)"
  have set_ws: "set ?ws = scope_word ` set perms" by simp
  then have "?ws \<noteq> []" using False by (metis image_is_empty list.set(1) set_empty)
  then have "js_split (CHR '' '') (encode_scopes perms) = ?ws"
    unfolding encode_scopes_def by (intro js_split_join) (auto simp: scope_word_def)
  then show ?thesis by (auto simp: granted_decode read_scope_word)
qed

lemma parse_generated:
  assumes "user \<noteq> []" "sid \<noteq> []" "secret \<noteq> []"
    and "CHR ''.'' \<notin> set user" "CHR ''.'' \<notin> set sid" "CHR ''.'' \<notin> set secret"
  shows "parse_refresh_token (ro_token (generate_refresh_token kit secret user sid))
    = Some \<lparr>pr_user = user, pr_sid = sid, pr_secret = secret\<rparr>"
proof -
  have "js_split (CHR ''.'') (js_join (CHR ''.'') [user, sid, secret]) = [user, sid, secret]"
    by (rule js_split_join) (use assms in auto)
  then show ?thesis by (simp only: parse_refresh_token_def generate_refresh_token_def refresh_token_out.simps) (simp add: assms)
qed

lemma parse_refresh_tokenD:
  assumes "parse_refresh_token token = Some p"
  shows "token = js_join (CHR ''.'') [pr_user p, pr_sid p, pr_secret p]"
    and "pr_user p \<noteq> []" "pr_sid p \<noteq> []" "pr_secret p \<noteq> []"
  using assms js_join_split [of "CHR ''.''" token]
  by (auto simp: parse_refresh_token_def split: list.splits if_splits)

lemma verify_refresh_hash_conv [simp]: "verify_refresh_hash kit secret hash \<longleftrightarrow> sha256 kit secret = hash"
  by (auto simp: verify_refresh_hash_def hash_refresh_token_def Let_def)

end
