(* ===== verification/Auth_Session.thy ===== *)
theory Auth_Session
  imports Auth_Token
begin

text \<open>
  Stored sessions: \<open>src/src/domain/auth/services/auth-session.service.ts\<close>.  A session is a value with an
  expiry under a key of its own, and a sorted set indexes a user's sessions by expiry.  Valkey is a
  service: its commands are the fields of \<open>session_db\<close>, and \<open>session_laws\<close> states their documented
  behaviour.  A value is the session its JSON text stands for, \<open>MULTI\<close> runs its commands one after the
  other, and a \<open>SCAN\<close> with one user's pattern finds the keys with that prefix (the ids are GUIDs, which
  hold no pattern character).  \<open>session_memory\<close> is a store that satisfies the laws; it only serves to
  apply the theorems at a concrete input.
\<close>

section \<open>Commands and their laws\<close>

record type_session =
  ss_sid :: string
  ss_ip :: string
  ss_user_agent :: string
  ss_expires :: int
  ss_refresh_hash :: string

datatype stored_reply = Absent | Stored type_session | Wrong_Type

record 's session_db =
  sd_now :: "'s \<Rightarrow> int" \<comment> \<open>the server's clock, milliseconds\<close>
  sd_get :: "'s \<Rightarrow> string \<Rightarrow> stored_reply" \<comment> \<open>\<open>GET\<close>\<close>
  sd_exists :: "'s \<Rightarrow> string \<Rightarrow> bool" \<comment> \<open>\<open>EXISTS\<close>\<close>
  sd_set :: "string \<Rightarrow> type_session \<Rightarrow> int option \<Rightarrow> 's \<Rightarrow> 's" \<comment> \<open>\<open>SET\<close>, with \<open>PXAT\<close> or without\<close>
  sd_del :: "string list \<Rightarrow> 's \<Rightarrow> 's" \<comment> \<open>\<open>DEL\<close>\<close>
  sd_zadd :: "string \<Rightarrow> int \<Rightarrow> string \<Rightarrow> 's \<Rightarrow> 's" \<comment> \<open>\<open>ZADD\<close>; an error changes nothing\<close>
  sd_zrem :: "string \<Rightarrow> string list \<Rightarrow> 's \<Rightarrow> 's" \<comment> \<open>\<open>ZREM\<close>\<close>
  sd_zrange :: "'s \<Rightarrow> string \<Rightarrow> (string \<times> int) list" \<comment> \<open>a sorted set in its order\<close>
  sd_keys :: "'s \<Rightarrow> string list" \<comment> \<open>the keys a full \<open>SCAN\<close> returns\<close>
  sd_wait :: "nat \<Rightarrow> 's \<Rightarrow> 's" \<comment> \<open>so many milliseconds pass\<close>

definition session_laws :: "'s session_db \<Rightarrow> bool" where
  "session_laws db \<longleftrightarrow>
     (\<forall>s k. sd_exists db s k = (sd_get db s k \<noteq> Absent))
     \<and> (\<forall>s k v e k'. sd_get db (sd_set db k v e s) k' =
          (if k' \<noteq> k then sd_get db s k'
           else if e = None \<or> sd_now db s < the e then Stored v else Absent))
     \<and> (\<forall>s ks k. sd_get db (sd_del db ks s) k = (if k \<in> set ks then Absent else sd_get db s k))
     \<and> (\<forall>s k score m k'. sd_get db (sd_zadd db k score m s) k' =
          (if k' = k \<and> sd_get db s k = Absent then Wrong_Type else sd_get db s k'))
     \<and> (\<forall>s k ms k'. sd_get db (sd_zrem db k ms s) k' =
          (if k' = k \<and> sd_get db s k = Wrong_Type \<and> (\<forall>e\<in>set (sd_zrange db s k). fst e \<in> set ms) then Absent
           else sd_get db s k'))
     \<and> (\<forall>s k. k \<in> set (sd_keys db s) \<longleftrightarrow> sd_get db s k \<noteq> Absent)
     \<and> (\<forall>s d k. sd_get db (sd_wait db d s) k \<in> {Absent, sd_get db s k})
     \<and> (\<forall>s k. sd_zrange db s k \<noteq> [] \<longleftrightarrow> sd_get db s k = Wrong_Type)
     \<and> (\<forall>s k v e k'. k' \<noteq> k \<longrightarrow> sd_zrange db (sd_set db k v e s) k' = sd_zrange db s k')
     \<and> (\<forall>s ks k. k \<notin> set ks \<longrightarrow> sd_zrange db (sd_del db ks s) k = sd_zrange db s k)
     \<and> (\<forall>s k score m k'. set (sd_zrange db (sd_zadd db k score m s) k') =
          (if k' = k \<and> (\<forall>v. sd_get db s k \<noteq> Stored v)
           then insert (m, score) {e \<in> set (sd_zrange db s k). fst e \<noteq> m} else set (sd_zrange db s k')))
     \<and> (\<forall>s k ms k'. sd_zrange db (sd_zrem db k ms s) k' =
          (if k' = k then filter (\<lambda>e. fst e \<notin> set ms) (sd_zrange db s k) else sd_zrange db s k'))
     \<and> (\<forall>s k. distinct (map fst (sd_zrange db s k)))
     \<and> (\<forall>s k. sorted (map snd (sd_zrange db s k)))
     \<and> (\<forall>s k v e. sd_now db (sd_set db k v e s) = sd_now db s)
     \<and> (\<forall>s ks. sd_now db (sd_del db ks s) = sd_now db s)
     \<and> (\<forall>s k score m. sd_now db (sd_zadd db k score m s) = sd_now db s)
     \<and> (\<forall>s k ms. sd_now db (sd_zrem db k ms s) = sd_now db s)"

lemma session_laws_simps:
  assumes "session_laws db"
  shows "sd_exists db s k = (sd_get db s k \<noteq> Absent)"
    and "sd_get db (sd_set db k v e s) k' =
      (if k' \<noteq> k then sd_get db s k' else if e = None \<or> sd_now db s < the e then Stored v else Absent)"
    and "sd_get db (sd_del db ks s) k = (if k \<in> set ks then Absent else sd_get db s k)"
    and "sd_get db (sd_zadd db k score m s) k' =
      (if k' = k \<and> sd_get db s k = Absent then Wrong_Type else sd_get db s k')"
    and "sd_get db (sd_zrem db k ms s) k' =
      (if k' = k \<and> sd_get db s k = Wrong_Type \<and> (\<forall>e\<in>set (sd_zrange db s k). fst e \<in> set ms) then Absent
       else sd_get db s k')"
    and "k \<in> set (sd_keys db s) \<longleftrightarrow> sd_get db s k \<noteq> Absent"
    and "sd_now db (sd_set db k v e s) = sd_now db s"
    and "sd_now db (sd_del db ks s) = sd_now db s"
    and "sd_now db (sd_zadd db k score m s) = sd_now db s"
    and "sd_now db (sd_zrem db k ms s) = sd_now db s"
  using assms by (simp_all add: session_laws_def)

lemma session_laws_zset:
  assumes "session_laws db"
  shows "sd_zrange db s k \<noteq> [] \<longleftrightarrow> sd_get db s k = Wrong_Type"
    and "k' \<noteq> k \<Longrightarrow> sd_zrange db (sd_set db k v e s) k' = sd_zrange db s k'"
    and "k \<notin> set ks \<Longrightarrow> sd_zrange db (sd_del db ks s) k = sd_zrange db s k"
    and "set (sd_zrange db (sd_zadd db k score m s) k') =
      (if k' = k \<and> (\<forall>v. sd_get db s k \<noteq> Stored v)
       then insert (m, score) {e \<in> set (sd_zrange db s k). fst e \<noteq> m} else set (sd_zrange db s k'))"
    and "sd_zrange db (sd_zrem db k ms s) k' =
      (if k' = k then filter (\<lambda>e. fst e \<notin> set ms) (sd_zrange db s k) else sd_zrange db s k')"
    and "distinct (map fst (sd_zrange db s k))"
    and "sorted (map snd (sd_zrange db s k))"
  using assms by (simp_all add: session_laws_def)

lemma session_wait:
  assumes "session_laws db"
  shows "sd_get db (sd_wait db d s) k = Absent \<or> sd_get db (sd_wait db d s) k = sd_get db s k"
  using assms by (simp add: session_laws_def)

section \<open>The service\<close>

definition session_prefix :: string where "session_prefix = ''auth:session''"

definition user_key :: "string \<Rightarrow> string" where
  "user_key user = js_join (CHR '':'') [session_prefix, user]"

definition session_key :: "string \<Rightarrow> string \<Rightarrow> string" where
  "session_key user sid = js_join (CHR '':'') [user_key user, sid]"

definition registry_key :: "string \<Rightarrow> string" where
  "registry_key user = js_join (CHR '':'') [user_key user, ''registry'']"

definition register_session :: "'s session_db \<Rightarrow> string \<Rightarrow> type_session \<Rightarrow> int option \<Rightarrow> 's \<Rightarrow> 's" where
  "register_session db user data expires s =
     (let key = session_key user (ss_sid data);
          s1 = (if expires \<noteq> None \<and> expires \<noteq> Some 0 then sd_set db key data expires s else sd_set db key data None s)
      in sd_zadd db (registry_key user) (case expires of Some e \<Rightarrow> e | None \<Rightarrow> - 1) key s1)"

definition has_session :: "'s session_db \<Rightarrow> string \<Rightarrow> string \<Rightarrow> 's \<Rightarrow> bool" where
  "has_session db user sid s = sd_exists db s (session_key user sid)"

datatype session_fault = Wrong_Type_Fault \<comment> \<open>\<open>WRONGTYPE\<close>: the promise is rejected\<close>

definition get_session :: "'s session_db \<Rightarrow> string \<Rightarrow> string \<Rightarrow> 's \<Rightarrow> session_fault + type_session option" where
  "get_session db user sid s =
     (case sd_get db s (session_key user sid) of
        Absent \<Rightarrow> Inr None
      | Stored v \<Rightarrow> Inr (Some v)
      | Wrong_Type \<Rightarrow> Inl Wrong_Type_Fault)"

definition revoke_session :: "'s session_db \<Rightarrow> string \<Rightarrow> string \<Rightarrow> 's \<Rightarrow> 's" where
  "revoke_session db user sid s =
     (let key = session_key user sid in sd_zrem db (registry_key user) [key] (sd_del db [key] s))"

definition zrangebyscore :: "'s session_db \<Rightarrow> 's \<Rightarrow> string \<Rightarrow> int \<Rightarrow> int option \<Rightarrow> string list" where
  \<comment> \<open>\<open>ZRANGEBYSCORE key min max\<close>; \<open>None\<close> is \<open>+inf\<close>\<close>
  "zrangebyscore db s key lo hi =
     map fst (filter (\<lambda>e. lo \<le> snd e \<and> (case hi of None \<Rightarrow> True | Some h \<Rightarrow> snd e \<le> h)) (sd_zrange db s key))"

definition cleanup_obsolete_sessions :: "'s session_db \<Rightarrow> int \<Rightarrow> string \<Rightarrow> 's \<Rightarrow> 's" where
  "cleanup_obsolete_sessions db now user s =
     (let keys = zrangebyscore db s (registry_key user) 0 (Some now)
      in if keys = [] then s else sd_zrem db (registry_key user) keys s)"

record session_page =
  sp_data :: "type_session list"
  sp_total :: nat
  sp_limit :: nat
  sp_offset :: nat

definition session_registry ::
  "'s session_db \<Rightarrow> int \<Rightarrow> string \<Rightarrow> nat option \<Rightarrow> nat option \<Rightarrow> 's \<Rightarrow> session_page \<times> 's" where
  \<comment> \<open>\<open>limit\<close> and \<open>page\<close> are positive when given (their DTO)\<close>
  "session_registry db now user limit page s =
     (let limit = (case limit of Some n \<Rightarrow> n | None \<Rightarrow> 10);
          page = (case page of Some n \<Rightarrow> n | None \<Rightarrow> 1);
          s1 = cleanup_obsolete_sessions db now user s;
          offset = (page - 1) * limit;
          total = length (sd_zrange db s1 (registry_key user));
          keys = take limit (drop offset (zrangebyscore db s1 (registry_key user) (- 1) None));
          raw = map (sd_get db s1) keys
      in (\<lparr>sp_data = List.map_filter (\<lambda>r. case r of Stored v \<Rightarrow> Some v | _ \<Rightarrow> None) raw,
           sp_total = total, sp_limit = limit, sp_offset = offset\<rparr>, s1))"

definition revoke_node_keys :: "'s session_db \<Rightarrow> string list \<Rightarrow> 's \<Rightarrow> 's" where
  \<comment> \<open>one batch of the scan\<close>
  "revoke_node_keys db keys s = (if keys = [] then s else sd_del db keys s)"

definition user_pattern :: "string \<Rightarrow> string \<Rightarrow> bool" where
  \<comment> \<open>\<open>MATCH auth:session:<user>:*\<close>\<close>
  "user_pattern user key = starts_with key (user_key user @ '':'')"

definition revoke_all :: "'s session_db \<Rightarrow> string \<Rightarrow> 's \<Rightarrow> 's" where
  "revoke_all db user s = revoke_node_keys db (filter (user_pattern user) (sd_keys db s)) s"

section \<open>What the operations leave stored\<close>

lemma session_key_conv: "session_key user sid = session_prefix @ '':'' @ user @ '':'' @ sid"
  by (simp add: session_key_def user_key_def)

lemma registry_key_conv: "registry_key user = session_key user ''registry''"
  by (simp add: registry_key_def session_key_def)

lemma session_key_inject:
  assumes "session_key u s = session_key u' s'" and "CHR '':'' \<notin> set u" and "CHR '':'' \<notin> set u'"
  shows "u = u' \<and> s = s'"
proof -
  have "js_split (CHR '':'') (u @ '':'' @ s) = js_split (CHR '':'') (u' @ '':'' @ s')"
    using assms(1) by (simp add: session_key_conv)
  then have "u = u'" using assms(2,3) by (simp add: js_split_append)
  then show ?thesis using assms(1) by (simp add: session_key_conv)
qed

lemma registry_key_apart: "sid \<noteq> ''registry'' \<Longrightarrow> session_key user sid \<noteq> registry_key user"
  by (simp add: registry_key_conv session_key_conv)

lemma user_pattern_session [simp]: "user_pattern user (session_key user sid)"
  by (simp add: user_pattern_def session_key_conv user_key_def starts_with_conv)

locale session_store =
  fixes db :: "'s session_db"
  assumes laws: "session_laws db"
begin

lemma get_register:
  "sd_get db (register_session db user data expires s) k =
     (if k = session_key user (ss_sid data) then
        (if expires = None \<or> expires = Some 0 \<or> sd_now db s < the expires then Stored data
         else if k = registry_key user then Wrong_Type else Absent)
      else if k = registry_key user \<and> sd_get db s k = Absent then Wrong_Type
      else sd_get db s k)"
  by (auto simp: register_session_def Let_def session_laws_simps [OF laws])

lemma now_register: "sd_now db (register_session db user data expires s) = sd_now db s"
  by (simp add: register_session_def Let_def session_laws_simps [OF laws])

lemma get_revoke:
  "sid \<noteq> ''registry'' \<Longrightarrow> k \<noteq> registry_key user \<Longrightarrow>
     sd_get db (revoke_session db user sid s) k = (if k = session_key user sid then Absent else sd_get db s k)"
  by (simp add: revoke_session_def Let_def session_laws_simps [OF laws])

lemma get_revoke_stored:
  "sd_get db (revoke_session db user sid s) k = Stored v \<longleftrightarrow> k \<noteq> session_key user sid \<and> sd_get db s k = Stored v"
  by (auto simp: revoke_session_def Let_def session_laws_simps [OF laws])

lemma get_node_keys:
  "sd_get db (revoke_node_keys db keys s) k = (if k \<in> set keys then Absent else sd_get db s k)"
  by (simp add: revoke_node_keys_def session_laws_simps [OF laws])

lemma get_revoke_all:
  "sd_get db (revoke_all db user s) k = (if user_pattern user k then Absent else sd_get db s k)"
  by (simp add: revoke_all_def get_node_keys session_laws_simps [OF laws])

end

lemmas session_gets =
  session_store.get_register [unfolded session_store_def] session_store.get_revoke [unfolded session_store_def]
  session_store.get_revoke_stored [unfolded session_store_def] session_store.get_revoke_all [unfolded session_store_def]
  session_store.now_register [unfolded session_store_def]

section \<open>A store in memory\<close>

record session_memory =
  sm_now :: int
  sm_values :: "(string \<times> type_session \<times> int option) list"
  sm_sets :: "(string \<times> (string \<times> int) list) list"

definition memory_value :: "session_memory \<Rightarrow> string \<Rightarrow> type_session option" where
  "memory_value s k =
     (case map_of (sm_values s) k of
        None \<Rightarrow> None
      | Some (v, e) \<Rightarrow> if e = None \<or> sm_now s < the e then Some v else None)"

definition memory_set :: "session_memory \<Rightarrow> string \<Rightarrow> (string \<times> int) list" where
  "memory_set s k = (case map_of (sm_sets s) k of None \<Rightarrow> [] | Some zs \<Rightarrow> zs)"

definition memory_order :: "(string \<times> int) list \<Rightarrow> (string \<times> int) list" where
  "memory_order zs = sort_key snd (AList.clearjunk zs)"

definition memory_sessions :: "session_memory session_db" where
  "memory_sessions =
     \<lparr>sd_now = sm_now,
      sd_get = (\<lambda>s k. case memory_value s k of Some v \<Rightarrow> Stored v
                        | None \<Rightarrow> if memory_set s k = [] then Absent else Wrong_Type),
      sd_exists = (\<lambda>s k. memory_value s k \<noteq> None \<or> memory_set s k \<noteq> []),
      sd_set = (\<lambda>k v e s. s\<lparr>sm_values := (k, v, e) # sm_values s, sm_sets := (k, []) # sm_sets s\<rparr>),
      sd_del = (\<lambda>ks s. s\<lparr>sm_values := filter (\<lambda>e. fst e \<notin> set ks) (sm_values s),
                         sm_sets := filter (\<lambda>e. fst e \<notin> set ks) (sm_sets s)\<rparr>),
      sd_zadd = (\<lambda>k score m s. if memory_value s k \<noteq> None then s
                   else s\<lparr>sm_sets := (k, (m, score) # filter (\<lambda>e. fst e \<noteq> m) (memory_set s k)) # sm_sets s\<rparr>),
      sd_zrem = (\<lambda>k ms s. if memory_value s k \<noteq> None then s
                   else s\<lparr>sm_sets := (k, filter (\<lambda>e. fst e \<notin> set ms) (memory_set s k)) # sm_sets s\<rparr>),
      sd_zrange = (\<lambda>s k. if memory_value s k \<noteq> None then [] else memory_order (memory_set s k)),
      sd_keys = (\<lambda>s. filter (\<lambda>k. memory_value s k \<noteq> None \<or> memory_set s k \<noteq> [])
                         (remdups (map fst (sm_values s) @ map fst (sm_sets s)))),
      sd_wait = (\<lambda>d s. s\<lparr>sm_now := sm_now s + int d,
                         sm_sets := filter (\<lambda>e. fst e \<notin> {k. memory_value s k \<noteq> None}) (sm_sets s)\<rparr>)\<rparr>"

lemma clearjunk_filter: "AList.clearjunk (filter (\<lambda>e. P (fst e)) zs) = filter (\<lambda>e. P (fst e)) (AList.clearjunk zs)"
proof (induction zs rule: AList.clearjunk.induct)
  case (2 x al)
  have shift: "AList.delete (fst x) (filter (\<lambda>e. P (fst e)) al) = filter (\<lambda>e. P (fst e)) (AList.delete (fst x) al)"
    by (simp add: AList.delete_eq split_def conj_commute)
  have "filter (\<lambda>e. P (fst e)) al = filter (\<lambda>e. P (fst e)) (AList.delete (fst x) al)" if "\<not> P (fst x)"
    using that by (auto simp: AList.delete_eq split_def intro: filter_cong)
  then show ?case using 2 shift by (cases x) auto
qed simp

lemma memory_order_filter: "memory_order (filter (\<lambda>e. P (fst e)) zs) = filter (\<lambda>e. P (fst e)) (memory_order zs)"
  by (simp add: memory_order_def clearjunk_filter filter_sort)

lemma memory_order_Nil [simp]: "memory_order zs = [] \<longleftrightarrow> zs = []"
  by (cases zs) (auto simp: memory_order_def)

lemma set_memory_order: "set (memory_order zs) = set (AList.clearjunk zs)"
  by (simp add: memory_order_def)

lemma memory_set_simps:
  "memory_set (s\<lparr>sm_sets := (k, zs) # sm_sets s\<rparr>) k' = (if k' = k then zs else memory_set s k')"
  "memory_set (s\<lparr>sm_values := vs\<rparr>) k' = memory_set s k'"
  "memory_value (s\<lparr>sm_sets := zz\<rparr>) k' = memory_value s k'"
  "memory_value (s\<lparr>sm_values := (k, v, e) # sm_values s\<rparr>) k' =
     (if k' = k then if e = None \<or> sm_now s < the e then Some v else None else memory_value s k')"
  by (auto simp: memory_set_def memory_value_def split: option.split)

lemma map_of_drop: "map_of (filter (\<lambda>e. fst e \<notin> A) xs) k = (if k \<in> A then None else map_of xs k)"
  by (induction xs) auto

lemma memory_drop:
  "memory_value (s\<lparr>sm_values := filter (\<lambda>e. fst e \<notin> A) (sm_values s)\<rparr>) k =
     (if k \<in> A then None else memory_value s k)"
  "memory_set (s\<lparr>sm_values := vs, sm_sets := filter (\<lambda>e. fst e \<notin> A) (sm_sets s)\<rparr>) k =
     (if k \<in> A then [] else memory_set s k)"
  by (auto simp: memory_set_def memory_value_def map_of_drop split: option.split)

lemma memory_store:
  "memory_value (s\<lparr>sm_values := (k, v, e) # sm_values s, sm_sets := zz\<rparr>) k' =
     (if k' = k then if e = None \<or> sm_now s < the e then Some v else None else memory_value s k')"
  "memory_set (s\<lparr>sm_values := vs, sm_sets := (k, zs) # sm_sets s\<rparr>) k' = (if k' = k then zs else memory_set s k')"
  by (auto simp: memory_set_def memory_value_def split: option.split)

lemma memory_keys: "memory_value s k \<noteq> None \<Longrightarrow> k \<in> set (map fst (sm_values s))" "memory_set s k \<noteq> [] \<Longrightarrow> k \<in> set (map fst (sm_sets s))"
proof -
  have known: "k \<in> set (map fst xs)" if "map_of xs k = Some y" for xs :: "(string \<times> 'v) list" and y
    using that by (force dest: map_of_SomeD)
  show "k \<in> set (map fst (sm_values s))" if "memory_value s k \<noteq> None"
    using that by (cases "map_of (sm_values s) k") (auto simp: memory_value_def simp del: set_map dest: known)
  show "k \<in> set (map fst (sm_sets s))" if "memory_set s k \<noteq> []"
    using that by (cases "map_of (sm_sets s) k") (auto simp: memory_set_def simp del: set_map dest: known)
qed

lemma memory_wait:
  "memory_value (s\<lparr>sm_now := sm_now s + int d, sm_sets := zz\<rparr>) k \<in> {None, memory_value s k}"
  "memory_set (s\<lparr>sm_now := t, sm_sets := filter (\<lambda>e. fst e \<notin> {k. memory_value s k \<noteq> None}) (sm_sets s)\<rparr>) k =
     (if memory_value s k \<noteq> None then [] else memory_set s k)"
proof -
  show "memory_value (s\<lparr>sm_now := sm_now s + int d, sm_sets := zz\<rparr>) k \<in> {None, memory_value s k}"
    by (auto simp: memory_value_def split: option.split)
  have shelf: "memory_set (s\<lparr>sm_now := t, sm_sets := zs\<rparr>) k = (case map_of zs k of None \<Rightarrow> [] | Some zs \<Rightarrow> zs)" for zs
    by (simp add: memory_set_def)
  show "memory_set (s\<lparr>sm_now := t, sm_sets := filter (\<lambda>e. fst e \<notin> {k. memory_value s k \<noteq> None}) (sm_sets s)\<rparr>) k =
      (if memory_value s k \<noteq> None then [] else memory_set s k)"
    unfolding shelf map_of_drop by (simp add: memory_set_def)
qed

lemma memory_get: "sd_get memory_sessions s k =
    (case memory_value s k of Some v \<Rightarrow> Stored v | None \<Rightarrow> if memory_set s k = [] then Absent else Wrong_Type)"
  by (simp add: memory_sessions_def)

lemma memory_zrange: "sd_zrange memory_sessions s k = (if memory_value s k \<noteq> None then [] else memory_order (memory_set s k))"
  by (simp add: memory_sessions_def)

lemma memory_commands:
  "sd_set memory_sessions k v e s = s\<lparr>sm_values := (k, v, e) # sm_values s, sm_sets := (k, []) # sm_sets s\<rparr>"
  "sd_del memory_sessions ks s = s\<lparr>sm_values := filter (\<lambda>e. fst e \<notin> set ks) (sm_values s),
     sm_sets := filter (\<lambda>e. fst e \<notin> set ks) (sm_sets s)\<rparr>"
  "sd_zadd memory_sessions k score m s =
     (if memory_value s k \<noteq> None then s
      else s\<lparr>sm_sets := (k, (m, score) # filter (\<lambda>e. fst e \<noteq> m) (memory_set s k)) # sm_sets s\<rparr>)"
  "sd_zrem memory_sessions k ms s =
     (if memory_value s k \<noteq> None then s
      else s\<lparr>sm_sets := (k, filter (\<lambda>e. fst e \<notin> set ms) (memory_set s k)) # sm_sets s\<rparr>)"
  "sd_wait memory_sessions d s = s\<lparr>sm_now := sm_now s + int d,
     sm_sets := filter (\<lambda>e. fst e \<notin> {k. memory_value s k \<noteq> None}) (sm_sets s)\<rparr>"
  "sd_now memory_sessions s = sm_now s"
  "sd_exists memory_sessions s k = (memory_value s k \<noteq> None \<or> memory_set s k \<noteq> [])"
  by (simp_all add: memory_sessions_def)

lemmas memory_eqs = memory_get memory_zrange memory_commands memory_set_simps memory_drop memory_store

lemma set_memory_zadd: "set (memory_order ((m, score) # filter (\<lambda>e. fst e \<noteq> m) zs)) = insert (m, score) {e \<in> set (memory_order zs). fst e \<noteq> m}"
proof -
  have "AList.delete m (filter (\<lambda>e. fst e \<noteq> m) zs) = filter (\<lambda>e. fst e \<noteq> m) zs"
    by (auto simp: AList.delete_eq split_def intro: filter_cong)
  then show ?thesis using clearjunk_filter [of "\<lambda>k. k \<noteq> m" zs] by (auto simp: set_memory_order)
qed

lemma memory_set_empty: "filter (\<lambda>e. fst e \<notin> set ms) zs = [] \<longleftrightarrow> (\<forall>e\<in>set (memory_order zs). fst e \<in> set ms)"
  using memory_order_filter [of "\<lambda>k. k \<notin> set ms" zs] memory_order_Nil [of "filter (\<lambda>e. fst e \<notin> set ms) zs"]
  by (metis (mono_tags, lifting) filter_empty_conv)

lemma memory_session_laws: "session_laws memory_sessions"
  unfolding session_laws_def
proof (intro conjI allI impI)
  fix s k ms k'
  show "sd_get memory_sessions (sd_zrem memory_sessions k ms s) k' =
      (if k' = k \<and> sd_get memory_sessions s k = Wrong_Type \<and> (\<forall>e\<in>set (sd_zrange memory_sessions s k). fst e \<in> set ms)
       then Absent else sd_get memory_sessions s k')"
    using memory_set_empty [of ms "memory_set s k"] by (auto simp: memory_eqs simp del: filter_empty_conv split: option.split)
next
  fix s k
  have "sd_keys memory_sessions s = filter (\<lambda>k. memory_value s k \<noteq> None \<or> memory_set s k \<noteq> [])
      (remdups (map fst (sm_values s) @ map fst (sm_sets s)))"
    by (simp add: memory_sessions_def)
  then show "(k \<in> set (sd_keys memory_sessions s)) = (sd_get memory_sessions s k \<noteq> Absent)"
    using memory_keys [of s k] by (auto simp: memory_get simp del: set_map split: option.split)
next
  fix s k and d :: nat
  show "sd_get memory_sessions (sd_wait memory_sessions d s) k \<in> {Absent, sd_get memory_sessions s k}"
    unfolding memory_get memory_commands memory_wait(2)
    using memory_wait(1) [where s = s and d = d and k = k
        and zz = "filter (\<lambda>e. fst e \<notin> {k. memory_value s k \<noteq> None}) (sm_sets s)"]
    by (auto split: option.splits)
next
  fix s k
  show "distinct (map fst (sd_zrange memory_sessions s k))"
    using distinct_clearjunk [of "memory_set s k"] by (simp add: memory_zrange memory_order_def distinct_map)
next
  fix s k
  show "sorted (map snd (sd_zrange memory_sessions s k))" by (simp add: memory_zrange memory_order_def)
qed (auto simp: memory_eqs memory_order_filter [of "\<lambda>k. k \<notin> _"] set_memory_zadd split: option.split)

interpretation memory_sessions: session_store memory_sessions
  by unfold_locales (rule memory_session_laws)

definition no_sessions :: "int \<Rightarrow> session_memory" where
  "no_sessions now = \<lparr>sm_now = now, sm_values = [], sm_sets = []\<rparr>"

end
