(* ===== verification/Auth_Throttle.thy ===== *)
theory Auth_Throttle
  imports Valkey
begin

text \<open>
  The login ladder: the two Lua scripts of
  \<open>src/src/domain/auth/services/auth-throttle.script.ts\<close>, the service that runs them
  (\<open>auth-throttle.service.ts\<close>) and the interceptor around the login handler
  (\<open>interceptors/auth-throttle.interceptor.ts\<close>), with the numbers of
  \<open>constants/auth.constants.ts\<close>.  A script is a function of the store's state; the service adds
  the network's faults; the interceptor is a function of the handler, which may itself move the
  store (time passes while a password is verified, other callers are served).  \<open>ladder_attempt\<close> and
  \<open>ladder_failure\<close> restate the scripts over the record the hash stands for, and the refinement
  lemmas carry every later argument to that record.
\<close>

section \<open>The numbers\<close>

definition login_attempts_per_stage :: int where "login_attempts_per_stage = 5"

definition login_penalty_seconds :: "int list" where "login_penalty_seconds = [5, 10, 60, 300, 900, 3600]"

definition login_attempt_min_interval_ms :: int where "login_attempt_min_interval_ms = 1000"

definition login_throttle_retention_sec :: int where "login_throttle_retention_sec = 7200"

lemmas login_numbers =
  login_attempts_per_stage_def login_penalty_seconds_def login_attempt_min_interval_ms_def
  login_throttle_retention_sec_def

section \<open>The stored state\<close>

record login_throttle_state =
  failures :: int
  stage :: int
  blocked_until :: int
  last_attempt_at :: int

definition or_zero :: "int option \<Rightarrow> int" where
  \<comment> \<open>\<open>tonumber(x) or 0\<close>\<close>
  "or_zero v = (case v of None \<Rightarrow> 0 | Some n \<Rightarrow> n)"

definition ladder_of :: "('s, int) valkey \<Rightarrow> 's \<Rightarrow> string \<Rightarrow> login_throttle_state" where
  \<comment> \<open>the hash under a key, read as \<open>LoginThrottleState\<close>\<close>
  "ladder_of vk s key =
     \<lparr>failures = or_zero (vk_hget vk s key ''failures''), stage = or_zero (vk_hget vk s key ''stage''),
      blocked_until = or_zero (vk_hget vk s key ''blockedUntil''),
      last_attempt_at = or_zero (vk_hget vk s key ''lastAttemptAt'')\<rparr>"

section \<open>The scripts\<close>

definition attempt_script :: "('s, int) valkey \<Rightarrow> string \<Rightarrow> int \<Rightarrow> int \<Rightarrow> 's \<Rightarrow> int list \<times> 's" where
  "attempt_script vk key interval retention s =
     (let now = now_ms vk s;
          blockedUntil = or_zero (vk_hget vk s key ''blockedUntil'');
          lastAttemptAt = or_zero (vk_hget vk s key ''lastAttemptAt'');
          fails = or_zero (vk_hget vk s key ''failures'');
          blockedFor = (if blockedUntil - now < 0 then 0 else blockedUntil - now)
      in if blockedFor > 0 then ([0, blockedFor, fails, blockedFor], s)
         else let sinceLast = now - lastAttemptAt
              in if sinceLast \<ge> 0 \<and> sinceLast < interval then ([0, interval - sinceLast, fails, 0], s)
                 else let s1 = vk_hset vk key [(''lastAttemptAt'', now)] s;
                          s2 = vk_expire vk key retention s1
                      in ([1, 0, fails, 0], s2))"

definition failure_script ::
  "('s, int) valkey \<Rightarrow> string \<Rightarrow> int \<Rightarrow> int \<Rightarrow> int list \<Rightarrow> 's \<Rightarrow> int list \<times> 's" where
  "failure_script vk key perStage retention penalties s =
     (let rungs = int (length penalties);
          now = now_ms vk s;
          fails = or_zero (vk_hget vk s key ''failures'') + 1;
          st = or_zero (vk_hget vk s key ''stage'')
      in if fails < perStage
         then let s1 = vk_hset vk key [(''failures'', fails), (''lastAttemptAt'', now)] s
              in ([fails, 0], vk_expire vk key retention s1)
         else let blockedFor = penalties ! nat (min (st + 1) rungs - 1) * 1000;
                  s1 = vk_hset vk key
                    [(''failures'', 0), (''stage'', st + 1), (''blockedUntil'', now + blockedFor),
                     (''lastAttemptAt'', now)] s
              in ([0, blockedFor], vk_expire vk key retention s1))"

section \<open>The service\<close>

datatype script_reply = Reply_List "int option list" | Reply_Other

record login_throttle_standing =
  standing_limit :: int
  standing_remaining :: int
  standing_blocked_for_ms :: int

record login_throttle_decision =
  decision_allowed :: bool
  decision_retry_after_ms :: int
  decision_standing :: login_throttle_standing

datatype login_error =
    Not_Authenticated
  | Too_Many_Requests int int "login_throttle_standing option" \<comment> \<open>seconds named, \<open>retryAfterMs\<close>, standing\<close>
  | Other_Error string

definition numbers :: "script_reply option \<Rightarrow> nat \<Rightarrow> int list option" where
  "numbers reply n =
     (case reply of
        Some (Reply_List values) \<Rightarrow>
          if length values \<noteq> n then None
          else if None \<in> set values then None
          else Some (map the values)
      | _ \<Rightarrow> None)"

definition standing :: "int \<Rightarrow> int \<Rightarrow> login_throttle_standing" where
  "standing fails blockedForMs =
     \<lparr>standing_limit = login_attempts_per_stage,
      standing_remaining = max 0 (login_attempts_per_stage - fails),
      standing_blocked_for_ms = max 0 blockedForMs\<rparr>"

definition decision :: "script_reply option \<Rightarrow> login_throttle_decision option" where
  "decision reply =
     (case numbers reply 4 of
        Some [allowed, retryAfterMs, fails, blockedForMs] \<Rightarrow>
          Some \<lparr>decision_allowed = (allowed = 1), decision_retry_after_ms = retryAfterMs,
                decision_standing = standing fails blockedForMs\<rparr>
      | _ \<Rightarrow> None)"

definition throttle_key :: "string \<Rightarrow> string" where
  "throttle_key address = ''auth:throttle:ladder'' @ '':'' @ address"

definition run_script :: "('s \<Rightarrow> int list \<times> 's) \<Rightarrow> 's \<Rightarrow> script_reply \<times> 's" where
  "run_script f s = (case f s of (r, s') \<Rightarrow> (Reply_List (map Some r), s'))"

definition ceil_seconds :: "int \<Rightarrow> int" where
  \<comment> \<open>\<open>Math.ceil(ms / 1000)\<close>\<close>
  "ceil_seconds ms = (ms + 999) div 1000"

definition assert_allowed ::
  "('s, int) valkey \<Rightarrow> fault \<Rightarrow> string \<Rightarrow> 's \<Rightarrow> (login_error + login_throttle_standing option) \<times> 's" where
  "assert_allowed vk fault address s =
     (case vk_call fault (run_script (attempt_script vk (throttle_key address)
             login_attempt_min_interval_ms login_throttle_retention_sec)) s of
        (reply, s') \<Rightarrow>
          (case decision reply of
             None \<Rightarrow> (Inr None, s')
           | Some d \<Rightarrow>
               if decision_allowed d then (Inr (Some (decision_standing d)), s')
               else (Inl (Too_Many_Requests (ceil_seconds (decision_retry_after_ms d))
                            (decision_retry_after_ms d) (Some (decision_standing d))), s')))"

definition register_failure ::
  "('s, int) valkey \<Rightarrow> fault \<Rightarrow> string \<Rightarrow> 's \<Rightarrow> login_throttle_standing option \<times> 's" where
  "register_failure vk fault address s =
     (case vk_call fault (run_script (failure_script vk (throttle_key address) login_attempts_per_stage
             login_throttle_retention_sec login_penalty_seconds)) s of
        (reply, s') \<Rightarrow>
          (case numbers reply 2 of
             Some [fails, blockedForMs] \<Rightarrow> (Some (standing fails blockedForMs), s')
           | _ \<Rightarrow> (None, s')))"

definition reset :: "('s, int) valkey \<Rightarrow> fault \<Rightarrow> string \<Rightarrow> 's \<Rightarrow> 's" where
  "reset vk fault address s = snd (vk_call fault (\<lambda>s. ((), vk_del vk (throttle_key address) s)) s)"

section \<open>The interceptor\<close>

datatype login_metric = Login_Success | Login_Throttled | Login_Failed | Login_Penalty nat

record 'a login_answer =
  answer :: "login_error + 'a"
  metrics :: "login_metric list"
  headers :: "(string \<times> int) list"

definition standing_of :: "login_error \<Rightarrow> login_throttle_standing option" where
  "standing_of e = (case e of Too_Many_Requests _ _ st \<Rightarrow> st | _ \<Rightarrow> None)"

definition js_find_index :: "('a \<Rightarrow> bool) \<Rightarrow> 'a list \<Rightarrow> nat option" where
  "js_find_index P xs = (let n = length (takeWhile (\<lambda>x. \<not> P x) xs) in if n < length xs then Some n else None)"

definition count_penalty :: "login_throttle_standing option \<Rightarrow> login_metric list" where
  "count_penalty st =
     (case st of
        None \<Rightarrow> []
      | Some d \<Rightarrow>
          if standing_blocked_for_ms d \<le> 0 then []
          else (case js_find_index (\<lambda>seconds. seconds * 1000 \<ge> standing_blocked_for_ms d) login_penalty_seconds of
                  None \<Rightarrow> [Login_Penalty (length login_penalty_seconds - 1)]
                | Some i \<Rightarrow> [Login_Penalty i]))"

definition describe :: "login_throttle_standing option \<Rightarrow> (string \<times> int) list" where
  "describe st =
     (case st of
        None \<Rightarrow> []
      | Some d \<Rightarrow>
          [(''X-Login-Attempts'', standing_limit d), (''X-Login-Attempts-Remaining'', standing_remaining d)]
          @ (if standing_blocked_for_ms d > 0 then [(''X-Login-Retry-After-Ms'', standing_blocked_for_ms d)] else []))"

definition on_success :: "('s, int) valkey \<Rightarrow> fault \<Rightarrow> string \<Rightarrow> 'a \<Rightarrow> 's \<Rightarrow> 'a login_answer \<times> 's" where
  "on_success vk fault address a s =
     (\<lparr>answer = Inr a, metrics = [Login_Success], headers = []\<rparr>, reset vk fault address s)"

definition on_failure :: "('s, int) valkey \<Rightarrow> fault \<Rightarrow> string \<Rightarrow> login_error \<Rightarrow> 's \<Rightarrow> 'a login_answer \<times> 's" where
  "on_failure vk fault address e s =
     (case standing_of e of
        Some refusal \<Rightarrow> (\<lparr>answer = Inl e, metrics = [Login_Throttled], headers = describe (Some refusal)\<rparr>, s)
      | None \<Rightarrow>
          if e \<noteq> Not_Authenticated then (\<lparr>answer = Inl e, metrics = [], headers = []\<rparr>, s)
          else (case register_failure vk fault address s of
                  (st, s') \<Rightarrow> (\<lparr>answer = Inl e, metrics = Login_Failed # count_penalty st, headers = describe st\<rparr>, s')))"

definition intercept ::
  "('s, int) valkey \<Rightarrow> fault \<Rightarrow> fault \<Rightarrow> string \<Rightarrow> ('s \<Rightarrow> (login_error + 'a) \<times> 's) \<Rightarrow> 's \<Rightarrow> 'a login_answer \<times> 's" where
  "intercept vk before after address handler s =
     (case assert_allowed vk before address s of
        (Inl e, s1) \<Rightarrow> on_failure vk after address e s1
      | (Inr _, s1) \<Rightarrow>
          (case handler s1 of
             (Inr a, s2) \<Rightarrow> on_success vk after address a s2
           | (Inl e, s2) \<Rightarrow> on_failure vk after address e s2))"

section \<open>The scripts over the record\<close>

definition ladder_attempt :: "int \<Rightarrow> int \<Rightarrow> login_throttle_state \<Rightarrow> int list \<times> login_throttle_state" where
  \<comment> \<open>specification: refused during a penalty or within the spacing, stamped otherwise\<close>
  "ladder_attempt interval now l =
     (if now < blocked_until l then ([0, blocked_until l - now, failures l, blocked_until l - now], l)
      else if last_attempt_at l \<le> now \<and> now < last_attempt_at l + interval
           then ([0, last_attempt_at l + interval - now, failures l, 0], l)
      else ([1, 0, failures l, 0], l\<lparr>last_attempt_at := now\<rparr>))"

definition penalty_ms :: "int list \<Rightarrow> int \<Rightarrow> int" where
  \<comment> \<open>specification: what the run that ends at a stage costs; the last rung repeats\<close>
  "penalty_ms penalties st = penalties ! min (nat st) (length penalties - 1) * 1000"

definition ladder_failure :: "int \<Rightarrow> int list \<Rightarrow> int \<Rightarrow> login_throttle_state \<Rightarrow> int list \<times> login_throttle_state" where
  \<comment> \<open>specification: one more failure, or the run is over and the next penalty starts\<close>
  "ladder_failure perStage penalties now l =
     (if failures l + 1 < perStage
      then ([failures l + 1, 0], l\<lparr>failures := failures l + 1, last_attempt_at := now\<rparr>)
      else ([0, penalty_ms penalties (stage l)],
            \<lparr>failures = 0, stage = stage l + 1, blocked_until = now + penalty_ms penalties (stage l),
             last_attempt_at = now\<rparr>))"

lemma ladder_of_cong:
  "(\<And>field. vk_hget vk s key field = vk_hget vk s' key field) \<Longrightarrow> ladder_of vk s key = ladder_of vk s' key"
  by (simp add: ladder_of_def)

lemma ladder_of_hset_expire:
  assumes "valkey_laws vk" and "0 < seconds"
  shows "ladder_of vk (vk_expire vk key seconds (vk_hset vk key fs s)) key =
    \<lparr>failures = (case map_of fs ''failures'' of None \<Rightarrow> failures (ladder_of vk s key) | Some v \<Rightarrow> v),
     stage = (case map_of fs ''stage'' of None \<Rightarrow> stage (ladder_of vk s key) | Some v \<Rightarrow> v),
     blocked_until = (case map_of fs ''blockedUntil'' of None \<Rightarrow> blocked_until (ladder_of vk s key) | Some v \<Rightarrow> v),
     last_attempt_at = (case map_of fs ''lastAttemptAt'' of None \<Rightarrow> last_attempt_at (ladder_of vk s key) | Some v \<Rightarrow> v)\<rparr>"
  by (simp add: ladder_of_def valkey_expire_simps [OF assms] valkey_laws_simps [OF assms(1)] or_zero_def
      split: option.split)

lemma attempt_refines:
  assumes "valkey_laws vk" and "0 < retention"
  shows "fst (attempt_script vk key interval retention s) = fst (ladder_attempt interval (now_ms vk s) (ladder_of vk s key))"
    and "ladder_of vk (snd (attempt_script vk key interval retention s)) key
      = snd (ladder_attempt interval (now_ms vk s) (ladder_of vk s key))"
proof -
  let ?l = "ladder_of vk s key"
  have script: "attempt_script vk key interval retention s =
      (if now_ms vk s < blocked_until ?l then ([0, blocked_until ?l - now_ms vk s, failures ?l, blocked_until ?l - now_ms vk s], s)
       else if last_attempt_at ?l \<le> now_ms vk s \<and> now_ms vk s < last_attempt_at ?l + interval
            then ([0, last_attempt_at ?l + interval - now_ms vk s, failures ?l, 0], s)
       else ([1, 0, failures ?l, 0], vk_expire vk key retention (vk_hset vk key [(''lastAttemptAt'', now_ms vk s)] s)))"
    by (auto simp: attempt_script_def ladder_of_def Let_def)
  show "fst (attempt_script vk key interval retention s) = fst (ladder_attempt interval (now_ms vk s) ?l)"
    by (simp add: script ladder_attempt_def)
  show "ladder_of vk (snd (attempt_script vk key interval retention s)) key = snd (ladder_attempt interval (now_ms vk s) ?l)"
    by (simp add: script ladder_attempt_def ladder_of_hset_expire [OF assms])
qed

lemma attempt_refused_unchanged:
  "hd (fst (attempt_script vk key interval retention s)) \<noteq> 1 \<Longrightarrow> snd (attempt_script vk key interval retention s) = s"
  by (auto simp: attempt_script_def Let_def split: if_splits)

lemma failure_refines:
  assumes "valkey_laws vk" and "0 < retention" and "penalties \<noteq> []" and "0 \<le> stage (ladder_of vk s key)"
  shows "fst (failure_script vk key perStage retention penalties s)
      = fst (ladder_failure perStage penalties (now_ms vk s) (ladder_of vk s key))"
    and "ladder_of vk (snd (failure_script vk key perStage retention penalties s)) key
      = snd (ladder_failure perStage penalties (now_ms vk s) (ladder_of vk s key))"
proof -
  let ?l = "ladder_of vk s key"
  have "1 \<le> length penalties" using assms(3) by (cases penalties) auto
  then have "nat (min (stage ?l + 1) (int (length penalties)) - 1) = min (nat (stage ?l)) (length penalties - 1)"
    using assms(4) by (simp add: min_def) linarith
  then have script: "failure_script vk key perStage retention penalties s =
      (if failures ?l + 1 < perStage
       then ([failures ?l + 1, 0],
             vk_expire vk key retention (vk_hset vk key [(''failures'', failures ?l + 1), (''lastAttemptAt'', now_ms vk s)] s))
       else ([0, penalty_ms penalties (stage ?l)],
             vk_expire vk key retention (vk_hset vk key
               [(''failures'', 0), (''stage'', stage ?l + 1),
                (''blockedUntil'', now_ms vk s + penalty_ms penalties (stage ?l)), (''lastAttemptAt'', now_ms vk s)] s)))"
    by (simp add: failure_script_def ladder_of_def Let_def penalty_ms_def)
  show "fst (failure_script vk key perStage retention penalties s) = fst (ladder_failure perStage penalties (now_ms vk s) ?l)"
    by (simp add: script ladder_failure_def)
  show "ladder_of vk (snd (failure_script vk key perStage retention penalties s)) key
      = snd (ladder_failure perStage penalties (now_ms vk s) ?l)"
    by (simp add: script ladder_failure_def ladder_of_hset_expire [OF assms(1,2)])
qed

end
