(* ===== verification/Auth_Service.thy ===== *)
theory Auth_Service
  imports Auth_Session Auth_Throttle
begin

text \<open>
  Sign-in, rotation and sign-out: \<open>src/src/domain/auth/auth.service.ts\<close> over the session store, with the
  user rows it reads and writes through \<open>src/src/core/user\<close>.  A request reads one clock.  The random
  session id, secret and salt of a request are arguments.  \<open>refresh\<close> is composed of the three steps
  between which the code awaits - the check of the presented token, the lookup of its user and the
  conclusion - so that \<open>auth_step\<close> can interleave them with every other request, and so is \<open>login\<close>.
  A command the store rejects rejects the request; only \<open>GET\<close> on the sorted set can, as an
  internal error (\<open>Other_Error\<close>).
\<close>

section \<open>Users\<close>

record user_get_by =
  gb_id :: "string option"
  gb_name :: "string option"
  gb_email :: "string option"

definition truthy_text :: "string option \<Rightarrow> bool" where
  "truthy_text v = (v \<noteq> None \<and> v \<noteq> Some [])"

definition find_auth_info :: "auth_row list \<Rightarrow> user_get_by \<Rightarrow> auth_row option" where
  \<comment> \<open>the repository: by id, else by email, else by name; the first row the database returns\<close>
  "find_auth_info users q =
     find (\<lambda>u. if truthy_text (gb_id q) then Some (ar_id u) = gb_id q
               else if truthy_text (gb_email q) then ar_email u = gb_email q
               else Some (ar_name u) = gb_name q) users"

definition get_auth_info :: "auth_row list \<Rightarrow> user_get_by \<Rightarrow> auth_row option" where
  "get_auth_info users q =
     (if truthy_text (gb_id q) \<or> truthy_text (gb_name q) \<or> truthy_text (gb_email q) then find_auth_info users q else None)"

definition by_id :: "string \<Rightarrow> user_get_by" where
  "by_id i = \<lparr>gb_id = Some i, gb_name = None, gb_email = None\<rparr>"

definition save_password :: "password_kit \<Rightarrow> string \<Rightarrow> string \<Rightarrow> string \<Rightarrow> auth_row list \<Rightarrow> auth_row list" where
  \<comment> \<open>the column hashes what it is given, unless it is empty\<close>
  "save_password kdf salt user password users =
     map (\<lambda>u. if ar_id u = user then u\<lparr>ar_password := (if password = [] then password else argon_hash kdf salt password)\<rparr>
              else u) users"

definition change_password ::
  "password_kit \<Rightarrow> string \<Rightarrow> string \<Rightarrow> string \<Rightarrow> auth_row list \<Rightarrow> login_error + auth_row list" where
  "change_password kdf salt user password users =
     (if user \<notin> ar_id ` set users then Inl (Other_Error ''NotFoundError'')
      else Inr (save_password kdf salt user password users))"

definition activity_throttle_seconds :: int where "activity_throttle_seconds = 300"

definition touch_activity :: "int \<Rightarrow> string \<Rightarrow> auth_row list \<Rightarrow> auth_row list" where
  \<comment> \<open>the guarded \<open>UPDATE\<close>: at most one stamp in the window\<close>
  "touch_activity now user users =
     map (\<lambda>u. if ar_id u = user \<and> (case ar_last_active u of None \<Rightarrow> True | Some t \<Rightarrow> t < now - activity_throttle_seconds * 1000)
              then u\<lparr>ar_last_active := Some now\<rparr> else u) users"

section \<open>Issuing a session\<close>

record 's auth_state =
  as_users :: "auth_row list"
  as_db :: 's

record auth_tokens =
  at_access :: string
  at_refresh :: string

record auth_env =
  en_kit :: token_kit
  en_kdf :: password_kit
  en_refresh_sec :: int \<comment> \<open>\<open>REFRESH_EXPIRES_SEC\<close>\<close>

record draws =
  dr_sid :: string
  dr_secret :: string
  dr_salt :: string

definition create_session ::
  "'s session_db \<Rightarrow> auth_env \<Rightarrow> int \<Rightarrow> draws \<Rightarrow> string \<Rightarrow> string \<Rightarrow> auth_row \<Rightarrow> string option \<Rightarrow> 's \<Rightarrow> auth_tokens \<times> 's" where
  "create_session db env now dr ip agent user existing_sid s =
     (let tokens = create_session_tokens (en_kit env) now (dr_sid dr) (dr_secret dr) user existing_sid;
          expires = now + en_refresh_sec env * 1000;
          payload = \<lparr>ss_sid = st_sid tokens, ss_ip = ip, ss_user_agent = agent, ss_expires = expires,
                     ss_refresh_hash = ro_hash (st_refresh tokens)\<rparr>
      in (\<lparr>at_access = st_access tokens, at_refresh = ro_token (st_refresh tokens)\<rparr>,
          register_session db (ar_id user) payload (Some expires) s))"

definition not_authorized :: login_error where "not_authorized = Other_Error ''NotAuthorizedError''"

definition upgrade_hash ::
  "password_kit \<Rightarrow> string \<Rightarrow> string \<Rightarrow> string \<Rightarrow> string \<Rightarrow> auth_row list \<Rightarrow> login_error + auth_row list" where
  "upgrade_hash kdf salt user stored password users =
     (if \<not> needs_rehash stored then Inr users else change_password kdf salt user password users)"

definition login_query :: "string \<Rightarrow> user_get_by" where
  "login_query lgn =
     (if js_index_of lgn (CHR ''@'') \<ge> 1 then \<lparr>gb_id = None, gb_name = None, gb_email = Some lgn\<rparr>
      else \<lparr>gb_id = None, gb_name = Some lgn, gb_email = None\<rparr>)"

definition login_check ::
  "auth_env \<Rightarrow> draws \<Rightarrow> string \<Rightarrow> string \<Rightarrow> auth_row list \<Rightarrow> (login_error + auth_row) \<times> auth_row list" where
  \<comment> \<open>the credentials, the account's state and the upgrade of an old hash\<close>
  "login_check env dr lgn password users =
     (let user = get_auth_info users (login_query lgn);
          hash = (case user of Some u \<Rightarrow> ar_password u | None \<Rightarrow> decoy_hash (en_kdf env))
      in case (verify_async (en_kdf env) password hash, user) of
           (None, _) \<Rightarrow> (Inl (Other_Error ''hash''), users)
         | (Some True, Some u) \<Rightarrow>
             if \<not> ar_active u then (Inl not_authorized, users)
             else (case upgrade_hash (en_kdf env) (dr_salt dr) (ar_id u) (ar_password u) password users of
                     Inl e \<Rightarrow> (Inl e, users)
                   | Inr users' \<Rightarrow> (Inr u, users'))
         | _ \<Rightarrow> (Inl Not_Authenticated, users))"

definition auth_login ::
  "'s session_db \<Rightarrow> auth_env \<Rightarrow> int \<Rightarrow> draws \<Rightarrow> string \<Rightarrow> string \<Rightarrow> string \<Rightarrow> string \<Rightarrow> 's auth_state
     \<Rightarrow> (login_error + auth_tokens) \<times> 's auth_state" where
  "auth_login db env now dr lgn password ip agent st =
     (case login_check env dr lgn password (as_users st) of
        (Inl e, users) \<Rightarrow> (Inl e, st\<lparr>as_users := users\<rparr>)
      | (Inr u, users) \<Rightarrow>
          (case create_session db env now dr ip agent u None (as_db st) of
             (tokens, s) \<Rightarrow> (Inr tokens, \<lparr>as_users = users, as_db = s\<rparr>)))"

section \<open>Rotating one\<close>

definition refresh_check :: "'s session_db \<Rightarrow> token_kit \<Rightarrow> string \<Rightarrow> 's \<Rightarrow> login_error + parsed_refresh_token" where
  "refresh_check db kit token s =
     (case parse_refresh_token token of
        None \<Rightarrow> Inl Not_Authenticated
      | Some p \<Rightarrow>
          (case get_session db (pr_user p) (pr_sid p) s of
             Inl _ \<Rightarrow> Inl (Other_Error ''WRONGTYPE'')
           | Inr None \<Rightarrow> Inl Not_Authenticated
           | Inr (Some session) \<Rightarrow>
               if \<not> verify_refresh_hash kit (pr_secret p) (ss_refresh_hash session) then Inl Not_Authenticated
               else Inr p))"

definition refresh_user :: "auth_row list \<Rightarrow> parsed_refresh_token \<Rightarrow> auth_row option" where
  \<comment> \<open>the user when there is one and it is active\<close>
  "refresh_user users p =
     (case get_auth_info users (by_id (pr_user p)) of
        None \<Rightarrow> None
      | Some u \<Rightarrow> if \<not> ar_active u then None else Some u)"

definition refresh_finish ::
  "'s session_db \<Rightarrow> auth_env \<Rightarrow> int \<Rightarrow> draws \<Rightarrow> string \<Rightarrow> string \<Rightarrow> parsed_refresh_token \<Rightarrow> auth_row option \<Rightarrow> 's
     \<Rightarrow> (login_error + auth_tokens) \<times> 's" where
  "refresh_finish db env now dr ip agent p user s =
     (case user of
        None \<Rightarrow> (Inl Not_Authenticated, revoke_session db (pr_user p) (pr_sid p) s)
      | Some u \<Rightarrow> (case create_session db env now dr ip agent u (Some (pr_sid p)) s of (tokens, s') \<Rightarrow> (Inr tokens, s')))"

definition auth_refresh ::
  "'s session_db \<Rightarrow> auth_env \<Rightarrow> int \<Rightarrow> draws \<Rightarrow> string \<Rightarrow> string \<Rightarrow> string \<Rightarrow> 's auth_state
     \<Rightarrow> (login_error + auth_tokens) \<times> 's auth_state" where
  "auth_refresh db env now dr token ip agent st =
     (case refresh_check db (en_kit env) token (as_db st) of
        Inl e \<Rightarrow> (Inl e, st)
      | Inr p \<Rightarrow>
          (case refresh_finish db env now dr ip agent p (refresh_user (as_users st) p) (as_db st) of
             (r, s) \<Rightarrow> (r, st\<lparr>as_db := s\<rparr>)))"

section \<open>Using and ending one\<close>

record ctx_user =
  cu_id :: string
  cu_sid :: string
  cu_admin :: bool
  cu_permissions :: permission_map

definition auth_logout :: "'s session_db \<Rightarrow> ctx_user \<Rightarrow> string \<Rightarrow> 's \<Rightarrow> 's" where
  "auth_logout db user sid s = revoke_session db (cu_id user) sid s"

definition validate_session :: "'s session_db \<Rightarrow> string \<Rightarrow> string \<Rightarrow> 's \<Rightarrow> (login_error + unit) \<times> 's" where
  "validate_session db user sid s =
     (if \<not> has_session db user sid s then (Inl Not_Authenticated, revoke_all db user s) else (Inr (), s))"

definition authenticate :: "'s session_db \<Rightarrow> token_kit \<Rightarrow> int \<Rightarrow> string \<Rightarrow> 's \<Rightarrow> (login_error + ctx_user) \<times> 's" where
  "authenticate db kit now token s =
     (case jwt_verify kit now token of
        None \<Rightarrow> (Inl Not_Authenticated, s)
      | Some jwt \<Rightarrow>
          (let permissions = decode_scopes (jwt_scope jwt)
           in case validate_session db (jwt_sub jwt) (jwt_sid jwt) s of
                (Inl e, s') \<Rightarrow> (Inl e, s')
              | (Inr _, s') \<Rightarrow>
                  (Inr \<lparr>cu_id = jwt_sub jwt, cu_sid = jwt_sid jwt, cu_admin = jwt_admin jwt, cu_permissions = permissions\<rparr>, s')))"

definition verify_current_password :: "password_kit \<Rightarrow> auth_row list \<Rightarrow> string \<Rightarrow> string option \<Rightarrow> login_error + unit" where
  \<comment> \<open>\<open>DomainUserService.verifyCurrentPassword\<close> over \<open>CoreUserService.verifyPassword\<close>\<close>
  "verify_current_password kdf users user old =
     (if \<not> truthy_text old then Inl (Other_Error ''BadRequestError'')
      else (case find (\<lambda>u. ar_id u = user) users of
              None \<Rightarrow> Inl (Other_Error ''BadRequestError'')
            | Some u \<Rightarrow>
                if ar_password u = [] then Inl (Other_Error ''BadRequestError'')
                else (case verify_async kdf (the old) (ar_password u) of
                        None \<Rightarrow> Inl (Other_Error ''hash'')
                      | Some valid \<Rightarrow> if valid then Inr () else Inl (Other_Error ''BadRequestError''))))"

definition user_change_password ::
  "password_kit \<Rightarrow> string \<Rightarrow> string option \<Rightarrow> string \<Rightarrow> ctx_user \<Rightarrow> string option \<Rightarrow> auth_row list \<Rightarrow> login_error + auth_row list" where
  \<comment> \<open>\<open>DomainUserService.changePassword\<close>\<close>
  "user_change_password kdf salt old new actor target users =
     (let user = (case target of Some t \<Rightarrow> t | None \<Rightarrow> cu_id actor)
      in if user = cu_id actor
         then (case verify_current_password kdf users user old of
                 Inl e \<Rightarrow> Inl e
               | Inr _ \<Rightarrow> change_password kdf salt user new users)
         else change_password kdf salt user new users)"

end
