(* ===== verification/Auth_Requests.thy ===== *)
theory Auth_Requests
  imports Auth_Service
begin

text \<open>
  The requests of every caller over one session store, each cut at its awaits: between the check of a
  refresh token, the lookup of its user and the issue of the new pair, and between a verified password and
  the session it opens, any other request may run.  Signing a user out everywhere is a scan that deletes
  in batches, so a batch is a step.  What an event of a trace records is what the step has just checked.
\<close>

record 's auth_world =
  aw_users :: "auth_row list"
  aw_db :: 's
  aw_opening :: "auth_row list" \<comment> \<open>passwords verified, session not yet stored\<close>
  aw_checked :: "parsed_refresh_token list" \<comment> \<open>refresh tokens found valid\<close>
  aw_rotating :: "(auth_row \<times> string) list" \<comment> \<open>their users found, pair not yet stored\<close>

datatype auth_event =
    Password_Verified string auth_row
  | Token_Presented parsed_refresh_token
  | Quiet

inductive auth_step :: "'s session_db \<Rightarrow> auth_env \<Rightarrow> 's auth_world \<Rightarrow> auth_event \<Rightarrow> 's auth_world \<Rightarrow> bool"
  for db :: "'s session_db" and env :: auth_env where
  Login_Verified: "login_check env dr lgn password (aw_users w) = (Inr u, users)
      \<Longrightarrow> auth_step db env w (Password_Verified password u) (w\<lparr>aw_users := users, aw_opening := u # aw_opening w\<rparr>)"
| Login_Refused: "login_check env dr lgn password (aw_users w) = (Inl e, users)
      \<Longrightarrow> auth_step db env w Quiet (w\<lparr>aw_users := users\<rparr>)"
| Login_Opened: "u \<in> set (aw_opening w) \<Longrightarrow> create_session db env now dr ip agent u None (aw_db w) = (tokens, s)
      \<Longrightarrow> auth_step db env w Quiet (w\<lparr>aw_db := s, aw_opening := remove1 u (aw_opening w)\<rparr>)"
| Refresh_Checked: "refresh_check db (en_kit env) token (aw_db w) = Inr p
      \<Longrightarrow> auth_step db env w (Token_Presented p) (w\<lparr>aw_checked := p # aw_checked w\<rparr>)"
| Refresh_Found: "p \<in> set (aw_checked w) \<Longrightarrow> refresh_user (aw_users w) p = Some u
      \<Longrightarrow> auth_step db env w Quiet
            (w\<lparr>aw_checked := remove1 p (aw_checked w), aw_rotating := (u, pr_sid p) # aw_rotating w\<rparr>)"
| Refresh_Dropped: "p \<in> set (aw_checked w) \<Longrightarrow> refresh_user (aw_users w) p = None
      \<Longrightarrow> auth_step db env w Quiet
            (w\<lparr>aw_checked := remove1 p (aw_checked w), aw_db := revoke_session db (pr_user p) (pr_sid p) (aw_db w)\<rparr>)"
| Refresh_Issued: "(u, sid) \<in> set (aw_rotating w)
      \<Longrightarrow> create_session db env now dr ip agent u (Some sid) (aw_db w) = (tokens, s)
      \<Longrightarrow> auth_step db env w Quiet (w\<lparr>aw_db := s, aw_rotating := remove1 (u, sid) (aw_rotating w)\<rparr>)"
| Revoked: "auth_step db env w Quiet (w\<lparr>aw_db := revoke_session db user sid (aw_db w)\<rparr>)"
| Swept: "auth_step db env w Quiet (w\<lparr>aw_db := revoke_node_keys db keys (aw_db w)\<rparr>)"
| Listed: "auth_step db env w Quiet (w\<lparr>aw_db := snd (session_registry db now user limit page (aw_db w))\<rparr>)"
| Users_Edited: "auth_step db env w Quiet (w\<lparr>aw_users := users\<rparr>)"
| Time_Passed: "auth_step db env w Quiet (w\<lparr>aw_db := sd_wait db d (aw_db w)\<rparr>)"

inductive auth_path :: "'s session_db \<Rightarrow> auth_env \<Rightarrow> 's auth_world \<Rightarrow> auth_event list \<Rightarrow> 's auth_world \<Rightarrow> bool"
  for db :: "'s session_db" and env :: auth_env where
  Path_Nil: "auth_path db env w [] w"
| Path_Snoc: "auth_path db env w evs w' \<Longrightarrow> auth_step db env w' ev w'' \<Longrightarrow> auth_path db env w (evs @ [ev]) w''"

definition quiet_world :: "'s auth_world \<Rightarrow> bool" where
  "quiet_world w = (aw_opening w = [] \<and> aw_checked w = [] \<and> aw_rotating w = [])"

section \<open>Where a stored session comes from\<close>

definition proven_login :: "auth_env \<Rightarrow> auth_event list \<Rightarrow> string \<Rightarrow> bool" where
  \<comment> \<open>specification: somebody gave this active user's password\<close>
  "proven_login env evs user \<longleftrightarrow>
     (\<exists>password u. Password_Verified password u \<in> set evs \<and> ar_id u = user \<and> ar_active u
        \<and> verify_async (en_kdf env) password (ar_password u) = Some True)"

definition presented :: "auth_event list \<Rightarrow> string \<Rightarrow> bool" where
  \<comment> \<open>specification: somebody presented a valid refresh token of the session under this key\<close>
  "presented evs key \<longleftrightarrow> (\<exists>p. Token_Presented p \<in> set evs \<and> key = session_key (pr_user p) (pr_sid p))"

definition rooted :: "'s session_db \<Rightarrow> auth_env \<Rightarrow> 's auth_world \<Rightarrow> auth_event list \<Rightarrow> string \<Rightarrow> bool" where
  \<comment> \<open>specification: the key held a session at the start, or its user gave a password since\<close>
  "rooted db env w0 evs key \<longleftrightarrow>
     (\<exists>d. sd_get db (aw_db w0) key = Stored d) \<or> (\<exists>user sid. key = session_key user sid \<and> proven_login env evs user)"

definition traced :: "'s session_db \<Rightarrow> auth_env \<Rightarrow> 's auth_world \<Rightarrow> auth_event list \<Rightarrow> 's auth_world \<Rightarrow> bool" where
  "traced db env w0 evs w \<longleftrightarrow>
     (\<forall>k d. sd_get db (aw_db w) k = Stored d \<longrightarrow>
        sd_get db (aw_db w0) k = Stored d \<or> presented evs k
        \<or> (\<exists>user sid. k = session_key user sid \<and> proven_login env evs user))
     \<and> (\<forall>u\<in>set (aw_opening w). proven_login env evs (ar_id u))
     \<and> (\<forall>p\<in>set (aw_checked w). pr_user p \<noteq> [] \<and> presented evs (session_key (pr_user p) (pr_sid p)))
     \<and> (\<forall>(u, sid)\<in>set (aw_rotating w). presented evs (session_key (ar_id u) sid))
     \<and> (\<forall>k. presented evs k \<longrightarrow> rooted db env w0 evs k)"

lemma presented_snoc: "presented evs k \<Longrightarrow> presented (evs @ [ev]) k"
  by (auto simp: presented_def)

lemma proven_snoc: "proven_login env evs user \<Longrightarrow> proven_login env (evs @ [ev]) user"
  by (auto simp: proven_login_def)

lemma rooted_snoc: "rooted db env w0 evs k \<Longrightarrow> rooted db env w0 (evs @ [ev]) k"
  by (auto simp: rooted_def intro: proven_snoc)

lemma traced_rooted: "traced db env w0 evs w \<Longrightarrow> sd_get db (aw_db w) k = Stored d \<Longrightarrow> rooted db env w0 evs k"
  unfolding traced_def rooted_def by blast

lemma login_checkD:
  "login_check env dr lgn password users = (Inr u, users') \<Longrightarrow> ar_active u \<and> verify_async (en_kdf env) password (ar_password u) = Some True"
  by (auto simp: login_check_def Let_def split: option.splits bool.splits if_splits sum.splits)

lemma refresh_userD: "refresh_user users p = Some u \<Longrightarrow> ar_id u = pr_user p \<or> pr_user p = []"
  by (auto simp: refresh_user_def get_auth_info_def find_auth_info_def by_id_def truthy_text_def find_Some_iff
      split: option.splits if_splits)

lemma refresh_checkD:
  assumes "refresh_check db kit token s = Inr p"
  shows "parse_refresh_token token = Some p"
    and "\<exists>d. sd_get db s (session_key (pr_user p) (pr_sid p)) = Stored d \<and> sha256 kit (pr_secret p) = ss_refresh_hash d"
  using assms by (auto simp: refresh_check_def get_session_def split: option.splits sum.splits stored_reply.splits if_splits)

lemma traced_snoc:
  assumes ok: "traced db env w0 evs w"
    and stored: "\<And>k d. sd_get db (aw_db w') k = Stored d \<Longrightarrow> sd_get db (aw_db w) k = Stored d
      \<or> presented (evs @ [ev]) k \<or> (\<exists>user sid. k = session_key user sid \<and> proven_login env (evs @ [ev]) user)"
    and opened: "\<And>u. u \<in> set (aw_opening w') \<Longrightarrow> u \<in> set (aw_opening w) \<or> proven_login env (evs @ [ev]) (ar_id u)"
    and checked: "\<And>p. p \<in> set (aw_checked w') \<Longrightarrow> p \<in> set (aw_checked w)
      \<or> pr_user p \<noteq> [] \<and> presented (evs @ [ev]) (session_key (pr_user p) (pr_sid p))"
    and rotating: "\<And>u sid. (u, sid) \<in> set (aw_rotating w') \<Longrightarrow> (u, sid) \<in> set (aw_rotating w)
      \<or> presented (evs @ [ev]) (session_key (ar_id u) sid)"
    and given: "\<And>p. ev = Token_Presented p \<Longrightarrow> \<exists>d. sd_get db (aw_db w) (session_key (pr_user p) (pr_sid p)) = Stored d"
  shows "traced db env w0 (evs @ [ev]) w'"
  unfolding traced_def
proof (intro conjI allI impI ballI)
  fix k d assume "sd_get db (aw_db w') k = Stored d"
  then show "sd_get db (aw_db w0) k = Stored d \<or> presented (evs @ [ev]) k
      \<or> (\<exists>user sid. k = session_key user sid \<and> proven_login env (evs @ [ev]) user)"
    using stored ok unfolding traced_def by (meson presented_snoc proven_snoc)
next
  fix u assume "u \<in> set (aw_opening w')"
  then show "proven_login env (evs @ [ev]) (ar_id u)" using opened ok unfolding traced_def by (meson proven_snoc)
next
  fix p assume "p \<in> set (aw_checked w')"
  then show "pr_user p \<noteq> []" "presented (evs @ [ev]) (session_key (pr_user p) (pr_sid p))"
    using checked ok unfolding traced_def by (meson presented_snoc)+
next
  fix r assume "r \<in> set (aw_rotating w')"
  then show "case r of (u, sid) \<Rightarrow> presented (evs @ [ev]) (session_key (ar_id u) sid)"
    using rotating [of "fst r" "snd r"] ok unfolding traced_def by (fastforce intro: presented_snoc)
next
  fix k assume k: "presented (evs @ [ev]) k"
  then consider "presented evs k" | p where "ev = Token_Presented p" "k = session_key (pr_user p) (pr_sid p)"
    by (auto simp: presented_def)
  then show "rooted db env w0 (evs @ [ev]) k"
  proof cases
    case 1
    then show ?thesis using ok by (auto simp: traced_def intro: rooted_snoc)
  next
    case 2
    then show ?thesis using given traced_rooted [OF ok] by (auto intro: rooted_snoc)
  qed
qed

end
