(* ===== verification/Auth_Guard.thy ===== *)
theory Auth_Guard
  imports Auth_Service
begin

text \<open>
  What stands before a handler: the bearer token of the request
  (\<open>src/src/app/context/http-context-manager.ts\<close>), the permissions a route declares
  (\<open>src/src/decorators/auth/permission.decorator.ts\<close>), \<open>AuthJwtGuard\<close> and \<open>PermissionGuard\<close>
  (\<open>src/src/app/guards\<close>), and the two ownership predicates of the controllers.  A permission is its
  resource, its action and its predicate, the last two optional and, as in the guard, located by type.
  The stamp of the last activity is not awaited by the guard and is \<open>touch_activity\<close> of its own.
\<close>

record request =
  rq_user :: "ctx_user option"
  rq_access :: "string option" \<comment> \<open>\<open>req.ctx.accessToken\<close>, once read\<close>
  rq_authorization :: "string option"
  rq_param_id :: "string option"
  rq_param_user :: "string option"

type_synonym can_do = "request \<Rightarrow> bool"
type_synonym auth_permission = "resource \<times> action option \<times> can_do option"

datatype permission_mode = Mode_And | Mode_Or

record permission_meta =
  mt_permissions :: "auth_permission list"
  mt_mode :: permission_mode
  mt_public :: bool

datatype permission_args =
    Positional auth_permission
  | Spread "auth_permission list" \<comment> \<open>two or more tuples\<close>
  | List_Of "auth_permission list" \<comment> \<open>one array of tuples\<close>
  | Single auth_permission

definition make_meta :: "auth_permission list \<Rightarrow> permission_mode \<Rightarrow> permission_meta" where
  "make_meta perms mode =
     \<lparr>mt_permissions = perms, mt_mode = mode,
      mt_public = foldl (\<lambda>acc p. if mode = Mode_Or then acc \<or> fst p = Resource_Public else acc \<and> fst p = Resource_Public)
                    (mode = Mode_And) perms\<rparr>"

fun permission :: "permission_args \<Rightarrow> permission_meta" where
  "permission (Positional p) = make_meta [p] Mode_And"
| "permission (Spread ps) = make_meta ps Mode_Or"
| "permission (List_Of ps) = make_meta ps Mode_And"
| "permission (Single p) = make_meta [p] Mode_And"

definition meta_check :: "permission_meta \<Rightarrow> (auth_permission \<Rightarrow> bool) \<Rightarrow> bool" where
  "meta_check meta cb = (if mt_mode meta = Mode_And then list_all cb (mt_permissions meta) else list_ex cb (mt_permissions meta))"

section \<open>The request\<close>

definition get_access_token :: "request \<Rightarrow> string option \<times> request" where
  "get_access_token rq =
     (if truthy_text (rq_access rq) then (rq_access rq, rq)
      else let parts = (case rq_authorization rq of None \<Rightarrow> [] | Some h \<Rightarrow> js_split (CHR '' '') h);
               token = (case parts of
                          typ # tok # _ \<Rightarrow> if typ = ''Bearer'' \<and> tok \<noteq> [] then Some tok else None
                        | _ \<Rightarrow> None)
           in (token, rq\<lparr>rq_access := token\<rparr>))"

definition self_by_user :: can_do where
  \<comment> \<open>\<open>isSelf\<close> of the auth controller and \<open>isSelfPassword\<close>: no \<open>userId\<close> parameter, or the caller's own\<close>
  "self_by_user rq =
     (case rq_user rq of None \<Rightarrow> False | Some u \<Rightarrow> \<not> truthy_text (rq_param_user rq) \<or> Some (cu_id u) = rq_param_user rq)"

definition self_by_id :: can_do where
  \<comment> \<open>\<open>isSelf\<close> of the user controller\<close>
  "self_by_id rq = (case rq_user rq of None \<Rightarrow> False | Some u \<Rightarrow> Some (cu_id u) = rq_param_id rq)"

section \<open>The guards\<close>

definition verify_request ::
  "'s session_db \<Rightarrow> token_kit \<Rightarrow> int \<Rightarrow> request \<Rightarrow> 's \<Rightarrow> (login_error + bool) \<times> request \<times> 's" where
  "verify_request db kit now rq s =
     (case get_access_token rq of
        (None, rq) \<Rightarrow> (Inl Not_Authenticated, rq, s)
      | (Some token, rq) \<Rightarrow>
          (case authenticate db kit now token s of
             (Inl e, s') \<Rightarrow> (Inl e, rq, s')
           | (Inr u, s') \<Rightarrow> (Inr True, rq\<lparr>rq_user := Some u\<rparr>, s')))"

definition jwt_guard ::
  "'s session_db \<Rightarrow> token_kit \<Rightarrow> int \<Rightarrow> permission_meta option \<Rightarrow> request \<Rightarrow> 's \<Rightarrow> (login_error + bool) \<times> request \<times> 's" where
  "jwt_guard db kit now meta rq s =
     (if truthy_text (map_option cu_id (rq_user rq)) then (Inr True, rq, s)
      else (case meta of
              None \<Rightarrow> (Inl (Other_Error ''ServerError''), rq, s)
            | Some m \<Rightarrow>
                (case verify_request db kit now rq s of
                   (Inl e, rq', s') \<Rightarrow> if mt_public m then (Inr True, rq', s') else (Inl e, rq', s')
                 | (Inr ok, rq', s') \<Rightarrow> (Inr ok, rq', s'))))"

definition user_can_do :: "ctx_user option \<Rightarrow> resource \<Rightarrow> action option \<Rightarrow> bool \<Rightarrow> bool" where
  "user_can_do user res act canDo =
     (let self_like = (res = Resource_Authenticated \<or> res = Resource_Self)
      in if (case user of Some u \<Rightarrow> cu_admin u | None \<Rightarrow> False) \<or> res = Resource_Public \<or> (user \<noteq> None \<and> self_like)
         then canDo
         else (case user of
                 None \<Rightarrow> False
               | Some u \<Rightarrow>
                   (let scope = js_get (cu_permissions u) res;
                        holds = (case act of
                                   Some a \<Rightarrow> (case scope of None \<Rightarrow> False | Some acts \<Rightarrow> a \<in> set acts)
                                 | None \<Rightarrow> scope \<noteq> None)
                    in canDo \<and> holds)))"

definition check_permission :: "request \<Rightarrow> auth_permission \<Rightarrow> bool" where
  "check_permission rq p =
     (case p of (res, act, canDo) \<Rightarrow>
        user_can_do (rq_user rq) res act (case canDo of Some f \<Rightarrow> f rq | None \<Rightarrow> True))"

definition permission_guard :: "permission_meta option \<Rightarrow> request \<Rightarrow> login_error + bool" where
  "permission_guard meta rq =
     (case meta of
        None \<Rightarrow> Inl (Other_Error ''ServerError'')
      | Some m \<Rightarrow> if mt_public m then Inr True else Inr (meta_check m (check_permission rq)))"

definition admit ::
  "'s session_db \<Rightarrow> token_kit \<Rightarrow> int \<Rightarrow> permission_meta option \<Rightarrow> request \<Rightarrow> 's \<Rightarrow> (login_error + bool) \<times> request \<times> 's" where
  \<comment> \<open>the two guards in the order the module registers them; the rate limit between them is \<open>Rate_Limit\<close>\<close>
  "admit db kit now meta rq s =
     (case jwt_guard db kit now meta rq s of
        (Inl e, rq', s') \<Rightarrow> (Inl e, rq', s')
      | (Inr ok, rq', s') \<Rightarrow> if \<not> ok then (Inr False, rq', s') else (permission_guard meta rq', rq', s'))"

section \<open>What the guards decide\<close>

definition allowed :: "auth_row \<Rightarrow> request \<Rightarrow> auth_permission \<Rightarrow> bool" where
  \<comment> \<open>specification: the predicate holds, and the account is an administrator, the resource a special
     one or the permission granted in the database\<close>
  "allowed u rq p =
     (case p of (res, act, canDo) \<Rightarrow>
        (case canDo of Some f \<Rightarrow> f rq | None \<Rightarrow> True)
        \<and> (ar_admin u \<or> res \<in> {Resource_Public, Resource_Authenticated, Resource_Self}
            \<or> (case act of Some a \<Rightarrow> (res, a) \<in> set (ar_permissions u) | None \<Rightarrow> res \<in> fst ` set (ar_permissions u))))"

fun all_allowed :: "auth_row \<Rightarrow> request \<Rightarrow> permission_args \<Rightarrow> bool" where
  "all_allowed u rq (Positional p) = allowed u rq p"
| "all_allowed u rq (Spread ps) = (\<exists>p\<in>set ps. allowed u rq p)"
| "all_allowed u rq (List_Of ps) = (\<forall>p\<in>set ps. allowed u rq p)"
| "all_allowed u rq (Single p) = allowed u rq p"

fun open_to_all :: "permission_args \<Rightarrow> bool" where
  "open_to_all (Positional p) = (fst p = Resource_Public)"
| "open_to_all (Spread ps) = (\<exists>p\<in>set ps. fst p = Resource_Public)"
| "open_to_all (List_Of ps) = (\<forall>p\<in>set ps. fst p = Resource_Public)"
| "open_to_all (Single p) = (fst p = Resource_Public)"

definition token_user :: "auth_row \<Rightarrow> string \<Rightarrow> ctx_user" where
  \<comment> \<open>the caller a token of this row and session stands for\<close>
  "token_user u sid =
     \<lparr>cu_id = ar_id u, cu_sid = sid, cu_admin = ar_admin u, cu_permissions = decode_scopes (encode_scopes (ar_permissions u))\<rparr>"

lemma fold_or: "foldl (\<lambda>acc p. acc \<or> Q p) b ps \<longleftrightarrow> b \<or> (\<exists>p\<in>set ps. Q p)"
  by (induction ps arbitrary: b) auto

lemma fold_and: "foldl (\<lambda>acc p. acc \<and> Q p) b ps \<longleftrightarrow> b \<and> (\<forall>p\<in>set ps. Q p)"
  by (induction ps arbitrary: b) auto

lemma public_meta: "mt_public (permission args) = open_to_all args"
  by (cases args) (simp_all add: make_meta_def fold_or fold_and)

lemma check_meta: "meta_check (permission args) cb =
    (case args of Positional p \<Rightarrow> cb p | Spread ps \<Rightarrow> (\<exists>p\<in>set ps. cb p) | List_Of ps \<Rightarrow> (\<forall>p\<in>set ps. cb p) | Single p \<Rightarrow> cb p)"
  by (cases args) (simp_all add: meta_check_def make_meta_def list_all_iff list_ex_iff)

lemma scope_present: "js_get (decode_scopes (encode_scopes perms)) r \<noteq> None \<longleftrightarrow> r \<in> fst ` set perms"
proof -
  have nonempty: "js_get (foldl add_scope m ws) r \<noteq> Some []" if "js_get m r \<noteq> Some []" for m ws
    using that
  proof (induction ws arbitrary: m)
    case (Cons w ws)
    have "js_get (add_scope m w) r \<noteq> Some []"
      using Cons.prems by (cases "read_scope w") (auto simp: add_scope_def js_get_update Let_def split: if_splits option.splits)
    then show ?case by (simp add: Cons.IH)
  qed simp
  have "js_get (decode_scopes (encode_scopes perms)) r \<noteq> Some []"
    unfolding decode_scopes_def by (rule nonempty) (simp add: js_get_def)
  then have "js_get (decode_scopes (encode_scopes perms)) r \<noteq> None
      \<longleftrightarrow> (\<exists>a. granted (decode_scopes (encode_scopes perms)) r a)"
    by (cases "js_get (decode_scopes (encode_scopes perms)) r") (auto simp: granted_def neq_Nil_conv)
  then show ?thesis by (force simp: granted_decode_encode)
qed

lemma check_allowed: "check_permission (rq\<lparr>rq_user := Some (token_user u sid)\<rparr>) p = allowed u (rq\<lparr>rq_user := Some (token_user u sid)\<rparr>) p"
proof -
  obtain res act canDo where p: "p = (res, act, canDo)" by (cases p)
  have "granted (decode_scopes (encode_scopes (ar_permissions u))) res a \<longleftrightarrow> (res, a) \<in> set (ar_permissions u)" for a
    by (rule granted_decode_encode)
  then show ?thesis using scope_present [of "ar_permissions u" res]
    by (auto simp: p check_permission_def allowed_def user_can_do_def token_user_def granted_def Let_def split: option.splits)
qed

lemma check_args: "meta_check (permission args) (check_permission (rq\<lparr>rq_user := Some (token_user u sid)\<rparr>))
    = all_allowed u (rq\<lparr>rq_user := Some (token_user u sid)\<rparr>) args"
  unfolding check_meta by (cases args) (simp_all add: check_allowed)

end
