(* ===== verification/Auth_Facts.thy ===== *)
theory Auth_Facts
  imports Auth_Requests Auth_Guard
begin

text \<open>
  What signing in, rotating and signing out promise: the exact outcome of a refresh and its effect, the
  rights a token carries to a route, and where a stored session can come from under any interleaving.
\<close>

section \<open>A session only comes from a password or from itself\<close>

lemma create_session_stored:
  assumes "session_laws db" and "create_session db env now dr ip agent u sid s = (tokens, s')"
    and "sd_get db s' k = Stored d"
  shows "sd_get db s k = Stored d \<or> k = session_key (ar_id u) (case sid of Some x \<Rightarrow> x | None \<Rightarrow> dr_sid dr)"
  using assms(2,3)
  by (auto simp: create_session_def Let_def session_gets(1) [OF assms(1)] create_session_tokens_def split: if_splits)

lemma listed_stored:
  assumes "session_laws db" and "sd_get db (snd (session_registry db now user limit page s)) k = Stored d"
  shows "sd_get db s k = Stored d"
  using assms(2)
  by (auto simp: session_registry_def cleanup_obsolete_sessions_def Let_def session_laws_simps [OF assms(1)] split: if_splits)

lemma waited_stored: "session_laws db \<Longrightarrow> sd_get db (sd_wait db d s) k = Stored v \<Longrightarrow> sd_get db s k = Stored v"
  using session_wait [of db d s k] by auto

lemma auth_step_traced:
  assumes laws: "session_laws db" and step: "auth_step db env w ev w'" and ok: "traced db env w0 evs w"
  shows "traced db env w0 (evs @ [ev]) w'"
proof -
  have opened: "proven_login env (evs @ [ev]) (ar_id u)" if "u \<in> set (aw_opening w)" for u
    using ok that by (auto simp: traced_def intro: proven_snoc)
  have rotating: "presented (evs @ [ev]) (session_key (ar_id u) sid)" if "(u, sid) \<in> set (aw_rotating w)" for u sid
    using ok that by (auto simp: traced_def intro: presented_snoc)
  note removed = notin_set_remove1 [THEN contrapos_pp] set_remove1_subset [THEN subsetD]
  show ?thesis
    using step
  proof cases
    case (Login_Verified dr lgn password u users)
    have "proven_login env (evs @ [ev]) (ar_id u)"
      using login_checkD [OF Login_Verified(3)] Login_Verified(1) by (auto simp: proven_login_def)
    then show ?thesis unfolding Login_Verified(2) by (intro traced_snoc [OF ok]) (auto simp: Login_Verified(1))
  next
    case (Login_Opened u now dr ip agent tokens s)
    show ?thesis unfolding Login_Opened(2)
      by (intro traced_snoc [OF ok]) (use opened [OF Login_Opened(3)] create_session_stored [OF laws Login_Opened(4)] in \<open>auto simp: Login_Opened(1) dest: removed\<close>)
  next
    case (Refresh_Checked token p)
    have "presented (evs @ [ev]) (session_key (pr_user p) (pr_sid p))" by (auto simp: presented_def Refresh_Checked(1))
    moreover have "pr_user p \<noteq> []" using refresh_checkD(1) [OF Refresh_Checked(3)] parse_refresh_tokenD by blast
    ultimately show ?thesis unfolding Refresh_Checked(2)
      by (intro traced_snoc [OF ok]) (use refresh_checkD(2) [OF Refresh_Checked(3)] in \<open>auto simp: Refresh_Checked(1)\<close>)
  next
    case (Refresh_Found p u)
    have "presented (evs @ [ev]) (session_key (ar_id u) (pr_sid p))"
      using ok Refresh_Found(3) refresh_userD [OF Refresh_Found(4)] by (auto simp: traced_def intro: presented_snoc)
    then show ?thesis unfolding Refresh_Found(2) by (intro traced_snoc [OF ok]) (auto simp: Refresh_Found(1) dest: removed)
  next
    case (Refresh_Issued u sid now dr ip agent tokens s)
    show ?thesis unfolding Refresh_Issued(2)
      by (intro traced_snoc [OF ok])
        (use rotating [OF Refresh_Issued(3)] create_session_stored [OF laws Refresh_Issued(4)] in \<open>auto simp: Refresh_Issued(1) dest: removed\<close>)
  next
    case (Time_Passed d)
    show ?thesis unfolding Time_Passed(2) by (intro traced_snoc [OF ok]) (auto simp: Time_Passed(1) dest: waited_stored [OF laws])
  next
    case (Login_Refused dr lgn password e users)
    show ?thesis unfolding Login_Refused(2) by (intro traced_snoc [OF ok]) (auto simp: Login_Refused(1))
  next
    case (Refresh_Dropped p)
    show ?thesis unfolding Refresh_Dropped(2)
      by (intro traced_snoc [OF ok]) (auto simp: Refresh_Dropped(1) session_gets(3) [OF laws] dest: removed)
  next
    case (Revoked user sid)
    show ?thesis unfolding Revoked(2) by (intro traced_snoc [OF ok]) (auto simp: Revoked(1) session_gets(3) [OF laws])
  next
    case (Swept keys)
    show ?thesis unfolding Swept(2)
      by (intro traced_snoc [OF ok]) (auto simp: Swept(1) revoke_node_keys_def session_laws_simps(3) [OF laws] split: if_splits)
  next
    case (Listed now user limit page)
    show ?thesis unfolding Listed(2) by (intro traced_snoc [OF ok]) (auto simp: Listed(1) dest: listed_stored [OF laws])
  next
    case (Users_Edited users)
    show ?thesis unfolding Users_Edited(2) by (intro traced_snoc [OF ok]) (auto simp: Users_Edited(1))
  qed
qed

lemma auth_path_traced:
  assumes laws: "session_laws db" and path: "auth_path db env w0 evs w" and quiet: "quiet_world w0"
  shows "traced db env w0 evs w"
  using path quiet
proof induction
  case (Path_Nil w)
  then show ?case by (simp add: traced_def quiet_world_def presented_def)
next
  case (Path_Snoc w evs w' ev w'')
  show ?case by (rule auth_step_traced [OF laws Path_Snoc.hyps(2) Path_Snoc.IH [OF Path_Snoc.prems]])
qed

section \<open>A demonstration kit\<close>

text \<open>
  Concrete functions with the documented behaviour, so that the theorems can be applied: a token that spells
  its payload out in letters, a digest that is injective, and a hash that is the secret.
\<close>

definition spell :: "string \<Rightarrow> string" where
  "spell s = concat (map (\<lambda>c. [char_of (97 + (of_char c :: nat) div 16), char_of (97 + (of_char c :: nat) mod 16)]) s)"

fun unspell :: "string \<Rightarrow> string" where
  "unspell (a # b # s) = char_of (16 * ((of_char a :: nat) - 97) + ((of_char b :: nat) - 97)) # unspell s"
| "unspell _ = []"

lemma unspell_spell [simp]: "unspell (spell s) = s"
proof (induction s)
  case (Cons c s)
  have "(of_char c :: nat) < 256" by (rule nat_of_char_less_256)
  then have "(of_char c :: nat) div 16 < 16" by linarith
  then have "(of_char (char_of (97 + (of_char c :: nat) div 16)) :: nat) = 97 + of_char c div 16"
    "(of_char (char_of (97 + (of_char c :: nat) mod 16)) :: nat) = 97 + of_char c mod 16"
    by (auto simp: of_char_of)
  then show ?case using Cons by (simp add: spell_def)
qed (simp add: spell_def)

lemma spell_letters: "c \<in> set (spell s) \<Longrightarrow> 97 \<le> (of_char c :: nat)"
proof -
  assume "c \<in> set (spell s)"
  then obtain d :: char where "c = char_of (97 + (of_char d :: nat) div 16) \<or> c = char_of (97 + (of_char d :: nat) mod 16)"
    by (auto simp: spell_def)
  moreover have "(of_char d :: nat) < 256" by (rule nat_of_char_less_256)
  then have "(of_char d :: nat) div 16 < 16" by linarith
  ultimately show ?thesis by (auto simp: of_char_of)
qed

definition demo_sign :: "access_jwt \<Rightarrow> int \<Rightarrow> string" where
  "demo_sign jwt t = js_join (CHR ''.'')
     [spell (jwt_sub jwt), spell (jwt_sid jwt), if jwt_admin jwt then ''a'' else ''u'', spell (jwt_scope jwt),
      replicate (nat t) (CHR ''p''), replicate (nat (- t)) (CHR ''n'')]"

definition demo_verify :: "int \<Rightarrow> string \<Rightarrow> access_jwt option" where
  "demo_verify now token =
     (case js_split (CHR ''.'') token of
        [sub, sid, admin, scope, pos, neg] \<Rightarrow>
          if now div 1000 < (int (length pos) - int (length neg)) div 1000 + 600
          then Some \<lparr>jwt_sub = unspell sub, jwt_sid = unspell sid, jwt_admin = (admin = ''a''), jwt_scope = unspell scope\<rparr>
          else None
      | _ \<Rightarrow> None)"

definition demo_kit :: token_kit where
  "demo_kit = \<lparr>jwt_sign = demo_sign, jwt_verify = demo_verify, sha256 = (\<lambda>s. ''#'' @ s), jwt_expires_sec = 600\<rparr>"

lemma demo_token_laws: "token_laws demo_kit"
proof -
  have "CHR ''.'' \<notin> set (spell s)" for s using spell_letters [of "CHR ''.''" s] by auto
  then have "js_split (CHR ''.'') (demo_sign jwt t) =
      [spell (jwt_sub jwt), spell (jwt_sid jwt), if jwt_admin jwt then ''a'' else ''u'', spell (jwt_scope jwt),
       replicate (nat t) (CHR ''p''), replicate (nat (- t)) (CHR ''n'')]" for jwt t
    unfolding demo_sign_def by (intro js_split_join) (auto split: if_splits)
  moreover have "int (nat t) - int (nat (- t)) = t" for t by simp
  ultimately show ?thesis by (auto simp: token_laws_def demo_kit_def demo_verify_def)
qed

definition demo_kdf :: password_kit where
  "demo_kdf = \<lparr>argon_verify = (\<lambda>hash secret. Some (hash = ''$'' @ secret)), argon_hash = (\<lambda>salt secret. ''$'' @ secret),
     pbkdf2 = (\<lambda>secret salt n len. None), decoy_salt = ''d''\<rparr>"

definition demo_auth :: auth_env where
  "demo_auth = \<lparr>en_kit = demo_kit, en_kdf = demo_kdf, en_refresh_sec = 604800\<rparr>"

definition demo_user :: auth_row where
  "demo_user = \<lparr>ar_id = ''u1'', ar_name = ''ann'', ar_email = None, ar_password = ''$pw'', ar_active = True, ar_admin = False,
     ar_permissions = [(Resource_User, Action_List), (Resource_Store, Action_Sync)], ar_last_active = None\<rparr>"

definition demo_draws :: draws where "demo_draws = \<lparr>dr_sid = ''s1'', dr_secret = ''k1'', dr_salt = ''x''\<rparr>"

section \<open>The properties\<close>


section \<open>Rotation\<close>

definition refresh_key :: "parsed_refresh_token \<Rightarrow> string" where
  "refresh_key p = session_key (pr_user p) (pr_sid p)"

definition active_user :: "auth_row list \<Rightarrow> string \<Rightarrow> auth_row option" where
  \<comment> \<open>specification: the row of the id, when it is active\<close>
  "active_user users user = (case find (\<lambda>u. ar_id u = user) users of Some u \<Rightarrow> if ar_active u then Some u else None | None \<Rightarrow> None)"

lemma refresh_user_conv: "pr_user p \<noteq> [] \<Longrightarrow> refresh_user users p = active_user users (pr_user p)"
  by (simp add: refresh_user_def active_user_def get_auth_info_def find_auth_info_def by_id_def truthy_text_def split: option.split)

lemma active_userD: "active_user users user = Some u \<Longrightarrow> ar_id u = user"
  by (auto simp: active_user_def find_Some_iff split: option.splits if_splits)

lemma refresh_check_conv:
  "refresh_check db kit token s = Inr p \<longleftrightarrow> parse_refresh_token token = Some p
     \<and> (\<exists>d. sd_get db s (refresh_key p) = Stored d \<and> sha256 kit (pr_secret p) = ss_refresh_hash d)"
  by (auto simp: refresh_check_def get_session_def refresh_key_def split: option.split sum.split stored_reply.split)

lemma parse_parts:
  assumes "parse_refresh_token token = Some p" and "secret \<noteq> []" and "CHR ''.'' \<notin> set secret"
  shows "parse_refresh_token (js_join (CHR ''.'') [pr_user p, pr_sid p, secret]) = Some (p\<lparr>pr_secret := secret\<rparr>)"
proof -
  have "js_split (CHR ''.'') token = [pr_user p, pr_sid p, pr_secret p]" "pr_user p \<noteq> []" "pr_sid p \<noteq> []"
    using assms(1) by (auto simp: parse_refresh_token_def split: list.splits if_splits)
  then show ?thesis
    using js_split_parts [of _ "CHR ''.''" token] parse_generated [of "pr_user p" "pr_sid p" secret] assms(2,3)
    by (cases p) (simp add: generate_refresh_token_def)
qed

lemma auth_refresh_conv:
  assumes "parse_refresh_token token = Some p"
  shows "auth_refresh db env now dr token ip agent st =
     (case sd_get db (as_db st) (refresh_key p) of
        Absent \<Rightarrow> (Inl Not_Authenticated, st)
      | Wrong_Type \<Rightarrow> (Inl (Other_Error ''WRONGTYPE''), st)
      | Stored d \<Rightarrow>
          if sha256 (en_kit env) (pr_secret p) \<noteq> ss_refresh_hash d then (Inl Not_Authenticated, st)
          else (case active_user (as_users st) (pr_user p) of
                  None \<Rightarrow> (Inl Not_Authenticated, st\<lparr>as_db := revoke_session db (pr_user p) (pr_sid p) (as_db st)\<rparr>)
                | Some u \<Rightarrow> (case create_session db env now dr ip agent u (Some (pr_sid p)) (as_db st) of
                     (tokens, s) \<Rightarrow> (Inr tokens, st\<lparr>as_db := s\<rparr>))))"
proof -
  have "pr_user p \<noteq> []" using assms parse_refresh_tokenD by blast
  then show ?thesis
    by (simp add: auth_refresh_def refresh_check_def get_session_def assms refresh_key_def refresh_finish_def refresh_user_conv
        split: stored_reply.split option.split prod.split)
qed

lemma created_session:
  assumes "session_laws db" and "sd_now db s < now + en_refresh_sec env * 1000"
    and "create_session db env now dr ip agent u (Some sid) s = (tokens, s')"
  shows "at_refresh tokens = js_join (CHR ''.'') [ar_id u, sid, dr_secret dr]"
    and "sd_get db s' (session_key (ar_id u) sid) = Stored \<lparr>ss_sid = sid, ss_ip = ip, ss_user_agent = agent,
           ss_expires = now + en_refresh_sec env * 1000, ss_refresh_hash = sha256 (en_kit env) (dr_secret dr)\<rparr>"
    and "k \<noteq> session_key (ar_id u) sid \<Longrightarrow> k \<noteq> registry_key (ar_id u) \<Longrightarrow> sd_get db s' k = sd_get db s k"
  using assms(2,3)
  by (auto simp: create_session_def create_session_tokens_def generate_refresh_token_def hash_refresh_token_def Let_def
      session_gets(1) [OF assms(1)])

text \<open>
  C20: A refresh succeeds exactly when its session is stored, the secret hashes to the stored digest and the
  user is active; it then stores the next digest under the same session, touches nothing else but the
  user's index, makes the presented token worthless and its successor good.  A refusal changes
  nothing, except that the session of a missing or inactive user is dropped.
\<close>
theorem refresh_rotates_once:
  assumes laws: "session_laws db" and parsed: "parse_refresh_token token = Some p"
    and clock: "sd_now db (as_db st) < now + en_refresh_sec env * 1000"
    and run: "auth_refresh db env now dr token ip agent st = (out, st')"
  shows "((\<exists>tokens. out = Inr tokens) \<longleftrightarrow>
            (\<exists>d. sd_get db (as_db st) (refresh_key p) = Stored d \<and> sha256 (en_kit env) (pr_secret p) = ss_refresh_hash d)
            \<and> active_user (as_users st) (pr_user p) \<noteq> None)
    \<and> (\<forall>tokens. out = Inr tokens \<longrightarrow>
         as_users st' = as_users st
         \<and> at_refresh tokens = js_join (CHR ''.'') [pr_user p, pr_sid p, dr_secret dr]
         \<and> sd_get db (as_db st') (refresh_key p) = Stored \<lparr>ss_sid = pr_sid p, ss_ip = ip, ss_user_agent = agent,
             ss_expires = now + en_refresh_sec env * 1000, ss_refresh_hash = sha256 (en_kit env) (dr_secret dr)\<rparr>
         \<and> (\<forall>k. k \<noteq> refresh_key p \<and> k \<noteq> registry_key (pr_user p) \<longrightarrow> sd_get db (as_db st') k = sd_get db (as_db st) k)
         \<and> (sha256 (en_kit env) (dr_secret dr) \<noteq> sha256 (en_kit env) (pr_secret p) \<longrightarrow>
              auth_refresh db env now' dr' token ip' agent' st' = (Inl Not_Authenticated, st'))
         \<and> (dr_secret dr \<noteq> [] \<and> CHR ''.'' \<notin> set (dr_secret dr) \<longrightarrow>
              (\<exists>tokens' st''. auth_refresh db env now' dr' (at_refresh tokens) ip' agent' st' = (Inr tokens', st''))))
    \<and> (\<forall>e. out = Inl e \<longrightarrow> st' = st
         \<or> active_user (as_users st) (pr_user p) = None
           \<and> st' = st\<lparr>as_db := revoke_session db (pr_user p) (pr_sid p) (as_db st)\<rparr>)"
proof (cases "\<exists>d u. sd_get db (as_db st) (refresh_key p) = Stored d \<and> sha256 (en_kit env) (pr_secret p) = ss_refresh_hash d
    \<and> active_user (as_users st) (pr_user p) = Some u")
  case True
  then obtain d u where d: "sd_get db (as_db st) (refresh_key p) = Stored d" "sha256 (en_kit env) (pr_secret p) = ss_refresh_hash d"
    and u: "active_user (as_users st) (pr_user p) = Some u" by blast
  obtain tokens s where made: "create_session db env now dr ip agent u (Some (pr_sid p)) (as_db st) = (tokens, s)"
    by fastforce
  have out: "out = Inr tokens" "st' = st\<lparr>as_db := s\<rparr>"
    using run by (simp_all add: auth_refresh_conv [OF parsed] d u made)
  note new = created_session [OF laws clock made, unfolded active_userD [OF u], folded refresh_key_def]
  have again: "parse_refresh_token (at_refresh tokens) = Some (p\<lparr>pr_secret := dr_secret dr\<rparr>)"
    if "dr_secret dr \<noteq> []" "CHR ''.'' \<notin> set (dr_secret dr)"
    unfolding new(1) by (rule parse_parts [OF parsed that])
  have "refresh_key (p\<lparr>pr_secret := x\<rparr>) = refresh_key p" for x by (simp add: refresh_key_def)
  then have "\<exists>tokens' st''. auth_refresh db env now' dr' (at_refresh tokens) ip' agent' st' = (Inr tokens', st'')"
    if "dr_secret dr \<noteq> []" "CHR ''.'' \<notin> set (dr_secret dr)"
    by (simp add: auth_refresh_conv [OF again [OF that]] out new(2) u split: prod.split)
  then show ?thesis using d u new(3) by (auto simp: out new(1,2) auth_refresh_conv [OF parsed])
next
  case False
  then show ?thesis
    using run by (auto simp: auth_refresh_conv [OF parsed] split: stored_reply.splits if_splits option.splits prod.splits)
qed

section \<open>Admission\<close>


section \<open>The properties at work\<close>

definition demo_world :: "session_memory auth_world" where
  "demo_world = \<lparr>aw_users = [demo_user], aw_db = no_sessions 0, aw_opening = [], aw_checked = [], aw_rotating = []\<rparr>"

definition demo_issue :: "auth_tokens \<times> session_memory" where
  "demo_issue = create_session memory_sessions demo_auth 0 demo_draws ''ip'' ''ua'' demo_user None (no_sessions 0)"

lemma demo_issue_conv: "snd demo_issue = register_session memory_sessions ''u1''
    \<lparr>ss_sid = ''s1'', ss_ip = ''ip'', ss_user_agent = ''ua'', ss_expires = 604800000, ss_refresh_hash = ''#k1''\<rparr>
    (Some 604800000) (no_sessions 0)"
  by (simp add: demo_issue_def create_session_def create_session_tokens_def generate_refresh_token_def hash_refresh_token_def
      Let_def demo_user_def demo_draws_def demo_auth_def demo_kit_def)

lemma demo_stored: "sd_get memory_sessions (snd demo_issue) ''auth:session:u1:s1''
    = Stored \<lparr>ss_sid = ''s1'', ss_ip = ''ip'', ss_user_agent = ''ua'', ss_expires = 604800000, ss_refresh_hash = ''#k1''\<rparr>"
  by (simp add: demo_issue_conv session_gets(1) [OF memory_session_laws] session_key_conv session_prefix_def
      no_sessions_def memory_commands)

lemma demo_now: "sd_now memory_sessions (snd demo_issue) = 0"
  unfolding demo_issue_conv session_gets(5) [OF memory_session_laws] by (simp add: memory_commands no_sessions_def)


lemma demo_parse: "parse_refresh_token ''u1.s1.k1'' = Some \<lparr>pr_user = ''u1'', pr_sid = ''s1'', pr_secret = ''k1''\<rparr>"
  by code_simp

lemma refresh_rotates_once_witness:
  "\<exists>tokens st'. auth_refresh memory_sessions demo_auth 1000 (demo_draws\<lparr>dr_secret := ''k2''\<rparr>) ''u1.s1.k1'' ''ip'' ''ua''
       \<lparr>as_users = [demo_user], as_db = snd demo_issue\<rparr> = (Inr tokens, st')
     \<and> at_refresh tokens = ''u1.s1.k2''
     \<and> auth_refresh memory_sessions demo_auth 1001 demo_draws ''u1.s1.k1'' ''ip'' ''ua'' st' = (Inl Not_Authenticated, st')"
proof -
  let ?dr = "demo_draws\<lparr>dr_secret := ''k2''\<rparr>" and ?st = "\<lparr>as_users = [demo_user], as_db = snd demo_issue\<rparr>"
  obtain out st' where run: "auth_refresh memory_sessions demo_auth 1000 ?dr ''u1.s1.k1'' ''ip'' ''ua'' ?st = (out, st')"
    by fastforce
  have key: "refresh_key \<lparr>pr_user = ''u1'', pr_sid = ''s1'', pr_secret = ''k1''\<rparr> = ''auth:session:u1:s1''" by code_simp
  have clock: "sd_now memory_sessions (as_db ?st) < 1000 + en_refresh_sec demo_auth * 1000"
    by (simp add: demo_now demo_auth_def)
  have user: "active_user (as_users ?st) ''u1'' = Some demo_user" and digest: "sha256 (en_kit demo_auth) x = ''#'' @ x" for x
    by (simp_all add: demo_auth_def demo_kit_def demo_user_def active_user_def)
  note outcome = refresh_rotates_once [OF memory_session_laws demo_parse clock run, where now' = 1001 and dr' = demo_draws
      and ip' = "''ip''" and agent' = "''ua''"]
  have "\<exists>tokens. out = Inr tokens"
    using outcome [THEN conjunct1] user by (simp add: key demo_stored digest)
  then obtain tokens where out: "out = Inr tokens" by blast
  have "at_refresh tokens = ''u1.s1.k2''
      \<and> auth_refresh memory_sessions demo_auth 1001 demo_draws ''u1.s1.k1'' ''ip'' ''ua'' st' = (Inl Not_Authenticated, st')"
    using outcome [THEN conjunct2, THEN conjunct1] by (simp add: out digest demo_draws_def)
  then show ?thesis using run out by auto
qed


section \<open>Three slips\<close>

text \<open>
  A sign-out that lands between the check of a refresh token and the issue of its successor is undone: the
  rotation writes the session back.
\<close>
lemma rotation_undoes_sign_out:
  assumes laws: "session_laws db" and check: "refresh_check db (en_kit env) token (aw_db w) = Inr p"
    and user: "refresh_user (aw_users w) p = Some u"
    and clock: "sd_now db (aw_db w) < now + en_refresh_sec env * 1000"
  shows "\<exists>w'. auth_path db env w [Token_Presented p, Quiet, Quiet, Quiet] w'
     \<and> sd_get db (revoke_session db (pr_user p) (pr_sid p) (aw_db w)) (refresh_key p) \<noteq> Stored d
     \<and> (\<exists>d'. sd_get db (aw_db w') (refresh_key p) = Stored d')"
proof -
  let ?db1 = "revoke_session db (pr_user p) (pr_sid p) (aw_db w)"
  let ?w1 = "w\<lparr>aw_checked := p # aw_checked w\<rparr>" and ?w2 = "w\<lparr>aw_checked := p # aw_checked w, aw_db := ?db1\<rparr>"
  let ?w3 = "w\<lparr>aw_db := ?db1, aw_rotating := (u, pr_sid p) # aw_rotating w\<rparr>"
  obtain tokens s where made: "create_session db env now dr ip agent u (Some (pr_sid p)) ?db1 = (tokens, s)" by fastforce
  have owner: "ar_id u = pr_user p"
    using refresh_userD [OF user] refresh_checkD(1) [OF check] parse_refresh_tokenD by blast
  have 1: "auth_step db env w (Token_Presented p) ?w1" by (rule Refresh_Checked [OF check])
  have 2: "auth_step db env ?w1 Quiet ?w2" using Revoked [of db env ?w1 "pr_user p" "pr_sid p"] by simp
  have 3: "auth_step db env ?w2 Quiet ?w3" using Refresh_Found [of p ?w2 u db env] user by simp
  have 4: "auth_step db env ?w3 Quiet (w\<lparr>aw_db := s\<rparr>)"
    using Refresh_Issued [of u "pr_sid p" ?w3 db env now dr ip agent tokens s] made by simp
  have path: "auth_path db env w ((([] @ [Token_Presented p]) @ [Quiet]) @ [Quiet] @ [Quiet]) (w\<lparr>aw_db := s\<rparr>)"
    using Path_Snoc [OF Path_Snoc [OF Path_Snoc [OF Path_Snoc [OF Path_Nil 1] 2] 3] 4] by simp
  have "sd_now db ?db1 = sd_now db (aw_db w)"
    by (simp add: revoke_session_def Let_def session_laws_simps [OF laws])
  then have "sd_get db s (refresh_key p) = Stored \<lparr>ss_sid = pr_sid p, ss_ip = ip, ss_user_agent = agent,
      ss_expires = now + en_refresh_sec env * 1000, ss_refresh_hash = sha256 (en_kit env) (dr_secret dr)\<rparr>"
    using created_session(2) [OF laws _ made] clock by (simp add: owner refresh_key_def)
  then show ?thesis using path by (auto simp: session_gets(3) [OF laws] refresh_key_def)
qed

text \<open>
  The session id is any non-empty text, and the index lives where a session of the id \<open>registry\<close> would:
  revoking that one deletes the index and no session, and presenting a refresh token of it is an
  internal error.
\<close>
lemma revoking_registry_hides_sessions:
  assumes laws: "session_laws db" and stored: "sd_get db s (session_key user sid) = Stored d"
    and index: "sd_get db s (registry_key user) = Wrong_Type"
  shows "has_session db user sid (revoke_session db user ''registry'' s)"
    and "fst (session_registry db now user limit page (revoke_session db user ''registry'' s))
      = \<lparr>sp_data = [], sp_total = 0, sp_limit = (case limit of Some n \<Rightarrow> n | None \<Rightarrow> 10),
         sp_offset = ((case page of Some n \<Rightarrow> n | None \<Rightarrow> 1) - 1) * (case limit of Some n \<Rightarrow> n | None \<Rightarrow> 10)\<rparr>"
proof -
  let ?s = "revoke_session db user ''registry'' s"
  have "session_key user sid \<noteq> registry_key user" using stored index by auto
  then have "sd_get db ?s (session_key user sid) = Stored d"
    using stored by (simp add: session_gets(3) [OF laws] registry_key_conv)
  then show "has_session db user sid ?s" by (simp add: has_session_def session_laws_simps [OF laws])
  have "sd_get db ?s (registry_key user) = Absent"
    by (simp add: revoke_session_def Let_def session_laws_simps [OF laws] registry_key_conv)
  then have empty: "sd_zrange db ?s (registry_key user) = []"
    using session_laws_zset(1) [OF laws, of ?s "registry_key user"] by auto
  have clean: "cleanup_obsolete_sessions db now user ?s = ?s"
    by (simp add: cleanup_obsolete_sessions_def zrangebyscore_def empty)
  show "fst (session_registry db now user limit page ?s)
      = \<lparr>sp_data = [], sp_total = 0, sp_limit = (case limit of Some n \<Rightarrow> n | None \<Rightarrow> 10),
         sp_offset = ((case page of Some n \<Rightarrow> n | None \<Rightarrow> 1) - 1) * (case limit of Some n \<Rightarrow> n | None \<Rightarrow> 10)\<rparr>"
    by (simp add: session_registry_def clean zrangebyscore_def empty Let_def List.map_filter_def split: option.split)
qed

lemma refreshing_registry_is_internal:
  assumes "parse_refresh_token token = Some p" and "pr_sid p = ''registry''"
    and "sd_get db (as_db st) (registry_key (pr_user p)) = Wrong_Type"
  shows "auth_refresh db env now dr token ip agent st = (Inl (Other_Error ''WRONGTYPE''), st)"
  using assms by (simp add: auth_refresh_conv [OF assms(1)] refresh_key_def registry_key_conv)

text \<open>An administrator passes no permission whose predicate refuses, whatever the guard's comment says.\<close>
lemma admin_needs_the_predicate:
  assumes "rq_user rq = Some u" and "\<not> f rq"
  shows "\<not> check_permission rq (res, act, Some f)"
  using assms by (auto simp: check_permission_def user_can_do_def Let_def split: option.splits)

end
