(* ===== verification/Auth_Throttle_Facts.thy ===== *)
theory Auth_Throttle_Facts
  imports Auth_Throttle
begin

text \<open>
  What the login ladder promises over any run of the shared store: \<open>ladder_step\<close> is one thing that can
  happen to a caller's key (an attempt, a recorded failure, a reset after a success, the passing
  of time with key expiry, anything on other keys), in any interleaving, and \<open>ladder_path\<close> a run of
  them.  Attempts in flight are not tied to the failures they later record, so every
  interleaving of concurrent logins is a path.
\<close>

section \<open>Runs\<close>

definition login_attempt :: "('s, int) valkey \<Rightarrow> string \<Rightarrow> 's \<Rightarrow> int list \<times> 's" where
  \<comment> \<open>the attempt script with the service's arguments\<close>
  "login_attempt vk key = attempt_script vk key login_attempt_min_interval_ms login_throttle_retention_sec"

definition login_failure :: "('s, int) valkey \<Rightarrow> string \<Rightarrow> 's \<Rightarrow> int list \<times> 's" where
  \<comment> \<open>the failure script with the service's arguments\<close>
  "login_failure vk key =
     failure_script vk key login_attempts_per_stage login_throttle_retention_sec login_penalty_seconds"

datatype ladder_event = Attempted "int list" | Failed "int list" | Reset | Waited nat | Elsewhere

inductive ladder_step :: "('s, int) valkey \<Rightarrow> string \<Rightarrow> 's \<Rightarrow> ladder_event \<Rightarrow> 's \<Rightarrow> bool"
  for vk :: "('s, int) valkey" and key :: string
where
  attempt: "login_attempt vk key s = (r, s') \<Longrightarrow> ladder_step vk key s (Attempted r) s'"
| failure: "login_failure vk key s = (r, s') \<Longrightarrow> ladder_step vk key s (Failed r) s'"
| reset: "ladder_step vk key s Reset (vk_del vk key s)"
| wait: "ladder_step vk key s (Waited d) (vk_wait vk d s)"
| elsewhere: "now_ms vk s' = now_ms vk s \<Longrightarrow> vk_pttl vk s' key = vk_pttl vk s key \<Longrightarrow>
    (\<And>field. vk_hget vk s' key field = vk_hget vk s key field) \<Longrightarrow> ladder_step vk key s Elsewhere s'"

inductive_cases ladder_stepE:
  "ladder_step vk key s (Attempted r) s'" "ladder_step vk key s (Failed r) s'" "ladder_step vk key s Reset s'"
  "ladder_step vk key s (Waited d) s'" "ladder_step vk key s Elsewhere s'"

inductive ladder_path :: "('s, int) valkey \<Rightarrow> string \<Rightarrow> 's \<Rightarrow> ladder_event list \<Rightarrow> 's \<Rightarrow> bool"
  for vk :: "('s, int) valkey" and key :: string and s0 :: 's
where
  here: "ladder_path vk key s0 [] s0"
| more: "ladder_path vk key s0 es s \<Longrightarrow> ladder_step vk key s e s' \<Longrightarrow> ladder_path vk key s0 (es @ [e]) s'"

section \<open>What one step does to the ladder\<close>

definition ladder_life :: "('s, int) valkey \<Rightarrow> 's \<Rightarrow> string \<Rightarrow> int option" where
  \<comment> \<open>specification: the moment the caller's state will be forgotten\<close>
  "ladder_life vk s key = map_option (\<lambda>t. now_ms vk s + t) (vk_pttl vk s key)"

lemma touch_life:
  assumes "valkey_laws vk" and "0 < seconds" and "fs \<noteq> []"
  shows "ladder_life vk (vk_expire vk key seconds (vk_hset vk key fs s)) key = Some (now_ms vk s + seconds * 1000)"
    and "now_ms vk (vk_expire vk key seconds (vk_hset vk key fs s)) = now_ms vk s"
  using assms vk_present_hset [OF assms(1,3)]
  by (simp_all add: ladder_life_def valkey_expire_simps [OF assms(1,2)] valkey_laws_simps [OF assms(1)])

lemma login_attempt_effect:
  assumes "valkey_laws vk" and "login_attempt vk key s = (r, s')"
  shows "r = fst (ladder_attempt 1000 (now_ms vk s) (ladder_of vk s key))"
    and "ladder_of vk s' key = snd (ladder_attempt 1000 (now_ms vk s) (ladder_of vk s key))"
    and "now_ms vk s' = now_ms vk s"
    and "ladder_life vk s' key = (if hd r = 1 then Some (now_ms vk s + 7200000) else ladder_life vk s key)"
proof -
  have pos: "(0 :: int) < 7200" by simp
  note e = assms(2) [unfolded login_attempt_def login_numbers]
  note ref = attempt_refines [OF assms(1) pos, of key 1000 s, unfolded e fst_conv snd_conv]
  then show "r = fst (ladder_attempt 1000 (now_ms vk s) (ladder_of vk s key))"
    and "ladder_of vk s' key = snd (ladder_attempt 1000 (now_ms vk s) (ladder_of vk s key))" by simp_all
  show "now_ms vk s' = now_ms vk s"
    and "ladder_life vk s' key = (if hd r = 1 then Some (now_ms vk s + 7200000) else ladder_life vk s key)"
    using e touch_life [OF assms(1) pos, of "[(''lastAttemptAt'', now_ms vk s)]"]
    by (auto simp: attempt_script_def Let_def split: if_splits)
qed

lemma login_failure_effect:
  assumes "valkey_laws vk" and "0 \<le> stage (ladder_of vk s key)" and "login_failure vk key s = (r, s')"
  shows "r = fst (ladder_failure 5 login_penalty_seconds (now_ms vk s) (ladder_of vk s key))"
    and "ladder_of vk s' key = snd (ladder_failure 5 login_penalty_seconds (now_ms vk s) (ladder_of vk s key))"
    and "now_ms vk s' = now_ms vk s"
    and "ladder_life vk s' key = Some (now_ms vk s + 7200000)"
proof -
  have pos: "(0 :: int) < 7200" and ne: "login_penalty_seconds \<noteq> []" by (simp_all add: login_penalty_seconds_def)
  note e = assms(3) [unfolded login_failure_def login_attempts_per_stage_def login_throttle_retention_sec_def]
  note ref = failure_refines [OF assms(1) pos ne assms(2), of 5, unfolded e fst_conv snd_conv]
  then show "r = fst (ladder_failure 5 login_penalty_seconds (now_ms vk s) (ladder_of vk s key))"
    and "ladder_of vk s' key = snd (ladder_failure 5 login_penalty_seconds (now_ms vk s) (ladder_of vk s key))" by simp_all
  have "\<exists>fs. fs \<noteq> [] \<and> s' = vk_expire vk key 7200 (vk_hset vk key fs s)"
    using e by (auto simp: failure_script_def Let_def split: if_splits)
  then show "now_ms vk s' = now_ms vk s" and "ladder_life vk s' key = Some (now_ms vk s + 7200000)"
    using touch_life [OF assms(1) pos] by auto
qed

lemma wait_effect:
  assumes "valkey_laws vk"
  shows "now_ms vk (vk_wait vk d s) = now_ms vk s + int d"
    and "(\<And>t. ladder_life vk s key = Some t \<Longrightarrow> now_ms vk s + int d < t) \<Longrightarrow>
      ladder_of vk (vk_wait vk d s) key = ladder_of vk s key \<and> ladder_life vk (vk_wait vk d s) key = ladder_life vk s key"
    and "ladder_of vk (vk_wait vk d s) key = ladder_of vk s key
      \<or> ladder_of vk (vk_wait vk d s) key = \<lparr>failures = 0, stage = 0, blocked_until = 0, last_attempt_at = 0\<rparr>"
  by (auto simp: valkey_laws_simps [OF assms] ladder_life_def ladder_of_def or_zero_def
      vk_expires_within_def split: option.splits)

lemma elsewhere_effect:
  assumes "ladder_step vk key s Elsewhere s'"
  shows "ladder_of vk s' key = ladder_of vk s key" "ladder_life vk s' key = ladder_life vk s key"
    "now_ms vk s' = now_ms vk s"
  using assms by (auto elim!: ladder_stepE simp: ladder_of_def ladder_life_def)

section \<open>The well-formed ladder\<close>

definition ladder_wf :: "login_throttle_state \<Rightarrow> bool" where
  "ladder_wf l \<longleftrightarrow> 0 \<le> failures l \<and> failures l < 5 \<and> 0 \<le> stage l"

lemma ladder_step_wf:
  assumes "valkey_laws vk" and "ladder_step vk key s e s'" and "ladder_wf (ladder_of vk s key)"
  shows "ladder_wf (ladder_of vk s' key)"
proof (cases e)
  case (Attempted r)
  then show ?thesis
    using assms login_attempt_effect(2) [OF assms(1), of key s r s']
    by (auto elim!: ladder_stepE simp: ladder_attempt_def ladder_wf_def)
next
  case (Failed r)
  then show ?thesis
    using assms login_failure_effect(2) [OF assms(1), of s key r s']
    by (auto elim!: ladder_stepE simp: ladder_failure_def ladder_wf_def)
next
  case Reset
  then show ?thesis
    using assms(2) by (auto elim!: ladder_stepE simp: ladder_wf_def ladder_of_def or_zero_def valkey_laws_simps [OF assms(1)])
next
  case (Waited d)
  then show ?thesis
    using assms(2,3) wait_effect(3) [OF assms(1), of d s key] by (auto elim!: ladder_stepE simp: ladder_wf_def)
next
  case Elsewhere
  then show ?thesis using assms(2,3) elsewhere_effect(1) by metis
qed

lemma ladder_path_wf:
  assumes "valkey_laws vk" and "ladder_path vk key s0 es s" and "ladder_wf (ladder_of vk s0 key)"
  shows "ladder_wf (ladder_of vk s key)"
  using assms(2) by induction (auto intro: assms(3) ladder_step_wf [OF assms(1)])

lemma fresh_ladder:
  assumes "\<not> vk_present vk s key"
  shows "ladder_of vk s key = \<lparr>failures = 0, stage = 0, blocked_until = 0, last_attempt_at = 0\<rparr>"
  using assms by (simp add: ladder_of_def vk_present_def or_zero_def)

section \<open>Penalties\<close>

lemma penalty_ms_values:
  "0 \<le> st \<Longrightarrow> penalty_ms login_penalty_seconds st =
     (if st = 0 then 5000 else if st = 1 then 10000 else if st = 2 then 60000
      else if st = 3 then 300000 else if st = 4 then 900000 else 3600000)"
proof -
  assume "0 \<le> st"
  then consider "st = 0" | "st = 1" | "st = 2" | "st = 3" | "st = 4" | "5 \<le> st" by linarith
  then show ?thesis
    by cases (simp_all add: penalty_ms_def login_penalty_seconds_def min_def nat_le_iff)
qed

lemma penalty_ms_mono:
  "0 \<le> m \<Longrightarrow> m \<le> n \<Longrightarrow> penalty_ms login_penalty_seconds m \<le> penalty_ms login_penalty_seconds n"
  by (simp add: penalty_ms_values)

lemma penalty_ms_bounds: "0 \<le> st \<Longrightarrow> 5000 \<le> penalty_ms login_penalty_seconds st \<and> penalty_ms login_penalty_seconds st \<le> 3600000"
  by (simp add: penalty_ms_values)

definition serving :: "('s, int) valkey \<Rightarrow> string \<Rightarrow> int \<Rightarrow> int \<Rightarrow> 's \<Rightarrow> bool" where
  \<comment> \<open>specification: the penalty that ends at a moment, bought at a stage, is still in force or over\<close>
  "serving vk key until st s \<longleftrightarrow>
     until - penalty_ms login_penalty_seconds st \<le> now_ms vk s
     \<and> (now_ms vk s < until \<longrightarrow>
          until \<le> blocked_until (ladder_of vk s key) \<and> st < stage (ladder_of vk s key)
          \<and> (\<forall>t. ladder_life vk s key = Some t \<longrightarrow> until \<le> t))"

lemma serving_step:
  assumes "valkey_laws vk" and "0 \<le> st" and "ladder_step vk key s e s'" and "e \<noteq> Reset"
    and "serving vk key until st s" and "ladder_wf (ladder_of vk s key)"
  shows "serving vk key until st s'"
proof (cases e)
  case (Attempted r)
  then have a: "login_attempt vk key s = (r, s')" using assms(3) by (auto elim: ladder_stepE)
  show ?thesis
    using assms(5) login_attempt_effect [OF assms(1) a] penalty_ms_bounds [OF assms(2)]
    by (auto simp: serving_def ladder_attempt_def split: if_splits)
next
  case (Failed r)
  then have f: "login_failure vk key s = (r, s')" using assms(3) by (auto elim: ladder_stepE)
  have "0 \<le> stage (ladder_of vk s key)" using assms(6) by (simp add: ladder_wf_def)
  note eff = login_failure_effect [OF assms(1) this f]
  have "st < stage (ladder_of vk s key) \<Longrightarrow>
      penalty_ms login_penalty_seconds st \<le> penalty_ms login_penalty_seconds (stage (ladder_of vk s key))"
    using assms(2) by (intro penalty_ms_mono) auto
  then show ?thesis
    using assms(5) eff penalty_ms_bounds [OF assms(2)]
    by (auto simp: serving_def ladder_failure_def split: if_splits)
next
  case (Waited d)
  then have s': "s' = vk_wait vk d s" using assms(3) by (auto elim: ladder_stepE)
  show ?thesis
  proof (cases "now_ms vk s + int d < until")
    case True
    then have "\<And>t. ladder_life vk s key = Some t \<Longrightarrow> now_ms vk s + int d < t"
      using assms(5) by (auto simp: serving_def)
    from wait_effect(2) [OF assms(1) this] show ?thesis
      using True assms(5) by (auto simp: serving_def s' wait_effect(1) [OF assms(1)])
  next
    case False
    then show ?thesis using assms(5) by (auto simp: serving_def s' wait_effect(1) [OF assms(1)])
  qed
next
  case Elsewhere
  then show ?thesis using assms(3,5) elsewhere_effect [of vk key s s'] by (simp add: serving_def)
qed (use assms(4) in simp)

lemma serving_path:
  assumes "valkey_laws vk" and "0 \<le> st" and "ladder_path vk key s0 es s" and "Reset \<notin> set es"
    and "serving vk key until st s0" and "ladder_wf (ladder_of vk s0 key)"
  shows "serving vk key until st s"
  using assms(3,4)
proof induction
  case (more es s e s')
  then show ?case
    using serving_step [OF assms(1,2) more.hyps(2)] ladder_path_wf [OF assms(1) more.hyps(1) assms(6)] by auto
qed (rule assms(5))

lemma attempt_refused_same:
  assumes "login_attempt vk key s = (r, s')" and "hd r \<noteq> 1"
  shows "s' = s"
  using attempt_refused_unchanged [of vk key login_attempt_min_interval_ms login_throttle_retention_sec s] assms
  by (simp add: login_attempt_def)

lemma blocked_attempt:
  assumes "valkey_laws vk" and "now_ms vk s < blocked_until (ladder_of vk s key)"
  shows "login_attempt vk key s =
    ([0, blocked_until (ladder_of vk s key) - now_ms vk s, failures (ladder_of vk s key),
      blocked_until (ladder_of vk s key) - now_ms vk s], s)"
proof -
  obtain r s' where a: "login_attempt vk key s = (r, s')" by fastforce
  have "r = [0, blocked_until (ladder_of vk s key) - now_ms vk s, failures (ladder_of vk s key),
      blocked_until (ladder_of vk s key) - now_ms vk s]"
    using login_attempt_effect(1) [OF assms(1) a] assms(2) by (simp add: ladder_attempt_def)
  with a attempt_refused_same [OF a] show ?thesis by simp
qed

section \<open>A small store\<close>

definition demo_store :: "int memory_state" where
  \<comment> \<open>one caller four failures into their first run, last seen a second before noon\<close>
  "demo_store =
     \<lparr>mem_now = 43200000, mem_fields = [((''k'', ''failures''), 4), ((''k'', ''lastAttemptAt''), 43199000)],
      mem_life = []\<rparr>"

lemma demo_ladder:
  "ladder_of memory demo_store ''k'' = \<lparr>failures = 4, stage = 0, blocked_until = 0, last_attempt_at = 43199000\<rparr>"
  by (simp add: ladder_of_def memory_def demo_store_def or_zero_def)

lemma demo_wf: "ladder_wf (ladder_of memory demo_store ''k'')"
  by (simp add: demo_ladder ladder_wf_def)

section \<open>What the ladder promises\<close>

text \<open>
  C15: a penalty is served to its end.  From the moment a failure buys one, whatever attempts,
  failures of logins still in flight, expiries and other callers' requests happen in between, and as
  long as no login succeeds, every attempt before the penalty's end is refused, writes nothing, and
  states a wait that reaches that end.
\<close>

theorem penalty_served:
  assumes "valkey_laws vk" and "ladder_wf (ladder_of vk s0 key)"
    and "login_failure vk key s0 = ([0, b], s1)" and "0 < b"
    and "ladder_path vk key s1 es s2" and "Reset \<notin> set es" and "now_ms vk s2 < now_ms vk s1 + b"
  shows "\<exists>w f. login_attempt vk key s2 = ([0, w, f, w], s2) \<and> now_ms vk s1 + b \<le> now_ms vk s2 + w"
proof -
  let ?st = "stage (ladder_of vk s0 key)"
  have st: "0 \<le> ?st" using assms(2) by (simp add: ladder_wf_def)
  note eff = login_failure_effect [OF assms(1) st assms(3)]
  have b: "b = penalty_ms login_penalty_seconds ?st"
    using eff(1) assms(4) by (auto simp: ladder_failure_def split: if_splits)
  then have "serving vk key (now_ms vk s1 + b) ?st s1"
    using eff assms(4) penalty_ms_bounds [OF st]
    by (auto simp: serving_def ladder_failure_def split: if_splits)
  moreover have "ladder_wf (ladder_of vk s1 key)"
    using ladder_step_wf [OF assms(1) ladder_step.failure [OF assms(3)] assms(2)] .
  ultimately have "serving vk key (now_ms vk s1 + b) ?st s2"
    by (rule serving_path [OF assms(1) st assms(5,6)])
  then have "now_ms vk s1 + b \<le> blocked_until (ladder_of vk s2 key)"
    using assms(7) by (simp add: serving_def)
  then show ?thesis using blocked_attempt [OF assms(1), of s2 key] assms(7) by auto
qed

theorem penalty_served_witness:
  "\<exists>w f. login_attempt memory ''k'' (vk_wait memory 4999 (snd (login_failure memory ''k'' demo_store)))
      = ([0, w, f, w], vk_wait memory 4999 (snd (login_failure memory ''k'' demo_store))) \<and> 5000 \<le> 4999 + w"
proof -
  let ?s1 = "snd (login_failure memory ''k'' demo_store)"
  have f: "login_failure memory ''k'' demo_store = ([0, 5000], ?s1)"
    by (rule prod_eqI) code_simp+
  have "ladder_path memory ''k'' ?s1 ([] @ [Waited 4999]) (vk_wait memory 4999 ?s1)"
    by (rule ladder_path.more [OF ladder_path.here ladder_step.wait])
  from penalty_served [OF memory_laws demo_wf f _ this]
  show ?thesis by (auto simp: valkey_laws_simps [OF memory_laws])
qed

lemma spaced_step:
  assumes "valkey_laws vk" and "ladder_step vk key s e s'" and "e \<noteq> Reset"
    and "ladder_wf (ladder_of vk s key)" and "t0 \<le> now_ms vk s"
    and "now_ms vk s < t0 + 1000 \<longrightarrow> t0 \<le> last_attempt_at (ladder_of vk s key)
           \<and> last_attempt_at (ladder_of vk s key) \<le> now_ms vk s
           \<and> (\<forall>t. ladder_life vk s key = Some t \<longrightarrow> t0 + 1000 \<le> t)"
  shows "t0 \<le> now_ms vk s' \<and> (now_ms vk s' < t0 + 1000 \<longrightarrow> t0 \<le> last_attempt_at (ladder_of vk s' key)
           \<and> last_attempt_at (ladder_of vk s' key) \<le> now_ms vk s'
           \<and> (\<forall>t. ladder_life vk s' key = Some t \<longrightarrow> t0 + 1000 \<le> t))"
proof (cases e)
  case (Attempted r)
  then have a: "login_attempt vk key s = (r, s')" using assms(2) by (auto elim: ladder_stepE)
  show ?thesis
    using assms(5,6) login_attempt_effect [OF assms(1) a] by (auto simp: ladder_attempt_def split: if_splits)
next
  case (Failed r)
  then have f: "login_failure vk key s = (r, s')" using assms(2) by (auto elim: ladder_stepE)
  have "0 \<le> stage (ladder_of vk s key)" using assms(4) by (simp add: ladder_wf_def)
  from login_failure_effect [OF assms(1) this f] assms(5) show ?thesis
    by (auto simp: ladder_failure_def split: if_splits)
next
  case (Waited d)
  then have s': "s' = vk_wait vk d s" using assms(2) by (auto elim: ladder_stepE)
  show ?thesis
  proof (cases "now_ms vk s + int d < t0 + 1000")
    case True
    then have "\<And>t. ladder_life vk s key = Some t \<Longrightarrow> now_ms vk s + int d < t"
      using assms(6) by auto
    from wait_effect(2) [OF assms(1) this] show ?thesis
      using True assms(5,6) by (auto simp: s' wait_effect(1) [OF assms(1)])
  qed (use assms(5) in \<open>auto simp: s' wait_effect(1) [OF assms(1)]\<close>)
next
  case Elsewhere
  then show ?thesis using assms(2,5,6) elsewhere_effect [of vk key s s'] by simp
qed (use assms(3) in simp)

text \<open>
  Spacing: two attempts let through with no success in between are at least a second apart, however many
  other attempts, failures and waits separate them.
\<close>

theorem attempts_spaced:
  assumes "valkey_laws vk" and "ladder_wf (ladder_of vk s0 key)"
    and "login_attempt vk key s0 = (r1, s1)" and "hd r1 = 1"
    and "ladder_path vk key s1 es s2" and "Reset \<notin> set es"
    and "login_attempt vk key s2 = (r2, s3)" and "hd r2 = 1"
  shows "now_ms vk s0 + 1000 \<le> now_ms vk s2"
proof (rule ccontr)
  assume early: "\<not> now_ms vk s0 + 1000 \<le> now_ms vk s2"
  let ?t0 = "now_ms vk s0"
  note eff = login_attempt_effect [OF assms(1,3)]
  have wf1: "ladder_wf (ladder_of vk s1 key)"
    using ladder_step_wf [OF assms(1) ladder_step.attempt [OF assms(3)] assms(2)] .
  have "?t0 \<le> now_ms vk s2 \<and> (now_ms vk s2 < ?t0 + 1000 \<longrightarrow> ?t0 \<le> last_attempt_at (ladder_of vk s2 key)
      \<and> last_attempt_at (ladder_of vk s2 key) \<le> now_ms vk s2
      \<and> (\<forall>t. ladder_life vk s2 key = Some t \<longrightarrow> ?t0 + 1000 \<le> t))"
    using assms(5,6)
  proof induction
    case here
    then show ?case using eff assms(4) by (auto simp: ladder_attempt_def split: if_splits)
  next
    case (more es s e s')
    from more.prems have "e \<noteq> Reset" "Reset \<notin> set es" by auto
    then show ?case
      using spaced_step [OF assms(1) more.hyps(2) _ ladder_path_wf [OF assms(1) more.hyps(1) wf1]] more.IH by blast
  qed
  then show False
    using early login_attempt_effect(1) [OF assms(1,7)] assms(8) by (auto simp: ladder_attempt_def split: if_splits)
qed

theorem attempts_spaced_witness:
  "hd (fst (login_attempt memory ''k'' (vk_wait memory 1000 (snd (login_attempt memory ''k'' demo_store))))) = 1
   \<and> now_ms memory demo_store + 1000 \<le> now_ms memory (vk_wait memory 1000 (snd (login_attempt memory ''k'' demo_store)))"
proof -
  let ?s1 = "snd (login_attempt memory ''k'' demo_store)"
  have p: "ladder_path memory ''k'' ?s1 ([] @ [Waited 1000]) (vk_wait memory 1000 ?s1)"
    by (rule ladder_path.more [OF ladder_path.here ladder_step.wait])
  have 1: "hd (fst (login_attempt memory ''k'' demo_store)) = 1" by code_simp
  have 2: "hd (fst (login_attempt memory ''k'' (vk_wait memory 1000 ?s1))) = 1" by code_simp
  from attempts_spaced [OF memory_laws demo_wf prod.collapse [symmetric] 1 p _ prod.collapse [symmetric] 2]
  show ?thesis using 2 by simp
qed

text \<open>
  The spacing does not survive a success.  A successful login clears the caller's whole state, the
  stamp of its attempt included, so the next attempt is let through in the same millisecond,
  although the spacing is documented to count successes too.
\<close>

theorem success_clears_spacing:
  assumes "valkey_laws vk" and "1000 \<le> now_ms vk s0" and "login_attempt vk key s0 = (r1, s1)"
  shows "\<exists>s2. login_attempt vk key (vk_del vk key s1) = ([1, 0, 0, 0], s2) \<and> now_ms vk s2 = now_ms vk s0"
proof -
  obtain r2 s2 where a: "login_attempt vk key (vk_del vk key s1) = (r2, s2)" by fastforce
  have "\<not> vk_present vk (vk_del vk key s1) key"
    by (simp add: vk_present_def valkey_laws_simps [OF assms(1)])
  note fresh = fresh_ladder [OF this]
  have n: "now_ms vk (vk_del vk key s1) = now_ms vk s0"
    using login_attempt_effect(3) [OF assms(1,3)] by (simp add: valkey_laws_simps [OF assms(1)])
  have "r2 = [1, 0, 0, 0]" and "now_ms vk s2 = now_ms vk s0"
    using login_attempt_effect [OF assms(1) a] assms(2) n by (simp_all add: fresh ladder_attempt_def)
  with a show ?thesis by simp
qed

theorem success_clears_spacing_witness:
  "\<exists>s2. login_attempt memory ''k'' (vk_del memory ''k'' (snd (login_attempt memory ''k'' demo_store))) = ([1, 0, 0, 0], s2)
     \<and> now_ms memory s2 = now_ms memory demo_store"
  by (rule success_clears_spacing [OF memory_laws _ prod.collapse [symmetric]]) (simp add: now_ms_memory demo_store_def)

text \<open>
  A refusal states a wait that is enough.  A caller that waits as long as it was told, with
  nothing recorded against it meanwhile, is let through, or is told to wait for less than a second
  more and no longer serves a penalty.
\<close>

theorem stated_wait_enough:
  assumes "valkey_laws vk" and "1000 \<le> now_ms vk s"
    and "last_attempt_at (ladder_of vk s key) \<le> now_ms vk s"
    and "login_attempt vk key s = ([a, w, f, b], s')" and "a \<noteq> 1"
  shows "\<exists>w' f'. fst (login_attempt vk key (vk_wait vk (nat w) s')) \<in> {[1, 0, f', 0], [0, w', f', 0]} \<and> w' < 1000"
proof -
  let ?l = "ladder_of vk s key" and ?s2 = "vk_wait vk (nat w) s'"
  have s': "s' = s" using attempt_refused_same [OF assms(4)] assms(5) by simp
  have r: "[a, w, f, b] = fst (ladder_attempt 1000 (now_ms vk s) ?l)"
    by (rule login_attempt_effect(1) [OF assms(1,4)])
  then have w: "0 < w" "blocked_until ?l \<le> now_ms vk s + w"
    using assms(5) by (auto simp: ladder_attempt_def split: if_splits)
  have n: "now_ms vk ?s2 = now_ms vk s + w"
    using w(1) by (simp add: s' wait_effect(1) [OF assms(1)])
  obtain r2 s3 where a2: "login_attempt vk key ?s2 = (r2, s3)" by fastforce
  have r2: "r2 = fst (ladder_attempt 1000 (now_ms vk s + w) (ladder_of vk ?s2 key))"
    using login_attempt_effect(1) [OF assms(1) a2] by (simp add: n)
  have "ladder_of vk ?s2 key = ?l \<or> ladder_of vk ?s2 key = \<lparr>failures = 0, stage = 0, blocked_until = 0, last_attempt_at = 0\<rparr>"
    using wait_effect(3) [OF assms(1)] s' by simp
  then show ?thesis
    unfolding a2 fst_conv r2
    using w assms(2,3)
    by (auto simp: ladder_attempt_def intro: exI [of _ "last_attempt_at ?l + 1000 - (now_ms vk s + w)"] exI [of _ 0])
qed

theorem stated_wait_enough_witness:
  "\<exists>w' f'. fst (login_attempt memory ''k'' (vk_wait memory 1 (demo_store\<lparr>mem_now := 43199999\<rparr>))) \<in> {[1, 0, f', 0], [0, w', f', 0]}
     \<and> w' < 1000"
proof -
  let ?s = "demo_store\<lparr>mem_now := 43199999\<rparr>"
  have a: "login_attempt memory ''k'' ?s = ([0, 1, 4, 0], ?s)"
  proof (rule prod_eqI)
    show "fst (login_attempt memory ''k'' ?s) = fst ([0, 1, 4, 0], ?s)" by code_simp
    then show "snd (login_attempt memory ''k'' ?s) = snd ([0, 1, 4, 0], ?s)"
      using attempt_refused_same [OF prod.collapse [symmetric], of memory "''k''" ?s] by simp
  qed
  have l: "last_attempt_at (ladder_of memory ?s ''k'') = 43199000"
    by (simp add: ladder_of_def memory_def demo_store_def or_zero_def)
  from stated_wait_enough [OF memory_laws _ _ a] show ?thesis
    by (simp add: l now_ms_memory)
qed

section \<open>What guessing costs\<close>

fun guesses :: "('s, int) valkey \<Rightarrow> string \<Rightarrow> nat list \<Rightarrow> 's \<Rightarrow> 's option" where
  \<comment> \<open>one wrong password after another, each after a wait; \<open>None\<close> once an attempt is refused\<close>
  "guesses vk key [] s = Some s"
| "guesses vk key (w # ws) s =
     (let (r, s1) = login_attempt vk key (vk_wait vk w s)
      in if hd r = 1 then guesses vk key ws (snd (login_failure vk key s1)) else None)"

definition guess_gap :: "nat \<Rightarrow> nat" where
  \<comment> \<open>specification: the wait between the \<open>i\<close>-th guess and the next\<close>
  "guess_gap i = (if i mod 5 = 0 then nat (penalty_ms login_penalty_seconds (int (i div 5) - 1)) else 1000)"

definition after_guesses :: "('s, int) valkey \<Rightarrow> string \<Rightarrow> nat \<Rightarrow> 's \<Rightarrow> bool" where
  \<comment> \<open>specification: the state \<open>i\<close> wrong guesses leave\<close>
  "after_guesses vk key i s \<longleftrightarrow>
     failures (ladder_of vk s key) = int (i mod 5) \<and> stage (ladder_of vk s key) = int (i div 5)
     \<and> last_attempt_at (ladder_of vk s key) = now_ms vk s
     \<and> (i mod 5 = 0 \<longrightarrow> blocked_until (ladder_of vk s key) = now_ms vk s + int (guess_gap i))
     \<and> blocked_until (ladder_of vk s key) \<le> now_ms vk s + int (guess_gap i)
     \<and> ladder_life vk s key = Some (now_ms vk s + 7200000)"

lemma guess_gap_ge: "1 \<le> i \<Longrightarrow> 1000 \<le> guess_gap i"
proof -
  assume "1 \<le> i"
  then have "i mod 5 = 0 \<Longrightarrow> 1 \<le> i div 5" by (metis div_by_1 dvd_imp_mod_0 dvd_mod_imp_dvd less_one mod_0_imp_dvd not_le dvd_div_eq_0_iff)
  then show ?thesis using penalty_ms_bounds [of "int (i div 5) - 1"] by (auto simp: guess_gap_def)
qed

lemma after_one_guess:
  assumes "valkey_laws vk" and "after_guesses vk key i s" and "1 \<le> i" and "w < 7200000"
    and "login_attempt vk key (vk_wait vk w s) = (r, s1)"
  shows "hd r = 1 \<longleftrightarrow> guess_gap i \<le> w"
    and "guess_gap i \<le> w \<Longrightarrow> after_guesses vk key (Suc i) (snd (login_failure vk key s1))"
proof -
  let ?l = "ladder_of vk s key"
  have i: "failures ?l = int (i mod 5)" "stage ?l = int (i div 5)" "last_attempt_at ?l = now_ms vk s"
    "i mod 5 = 0 \<Longrightarrow> blocked_until ?l = now_ms vk s + int (guess_gap i)"
    "blocked_until ?l \<le> now_ms vk s + int (guess_gap i)" "ladder_life vk s key = Some (now_ms vk s + 7200000)"
    using assms(2) by (simp_all add: after_guesses_def)
  have n: "now_ms vk (vk_wait vk w s) = now_ms vk s + int w" by (rule wait_effect(1) [OF assms(1)])
  have l: "ladder_of vk (vk_wait vk w s) key = ?l"
    using wait_effect(2) [OF assms(1), of s key w] assms(4) i(6) by simp
  note eff = login_attempt_effect [OF assms(1,5), unfolded n l]
  have gap: "1000 \<le> guess_gap i" "i mod 5 \<noteq> 0 \<Longrightarrow> guess_gap i = 1000"
    using guess_gap_ge [OF assms(3)] by (simp_all add: guess_gap_def)
  show iff: "hd r = 1 \<longleftrightarrow> guess_gap i \<le> w"
    unfolding eff(1) using i(3-5) gap by (cases "i mod 5 = 0") (auto simp: ladder_attempt_def)
  assume w: "guess_gap i \<le> w"
  then have l1: "ladder_of vk s1 key = ?l\<lparr>last_attempt_at := now_ms vk s + int w\<rparr>"
    and n1: "now_ms vk s1 = now_ms vk s + int w"
    using eff(1-3) iff by (auto simp: ladder_attempt_def split: if_splits)
  obtain r2 s2 where f: "login_failure vk key s1 = (r2, s2)" by fastforce
  have st: "0 \<le> stage (ladder_of vk s1 key)" by (simp add: l1 i(2))
  note eff2 = login_failure_effect [OF assms(1) st f, unfolded l1 n1]
  show "after_guesses vk key (Suc i) (snd (login_failure vk key s1))"
  proof (cases "i mod 5 = 4")
    case True
    then have m: "Suc i mod 5 = 0" "Suc i div 5 = Suc (i div 5)" by (simp_all add: mod_Suc div_Suc)
    then have "int (guess_gap (Suc i)) = penalty_ms login_penalty_seconds (int (i div 5))"
      using penalty_ms_bounds [of "int (i div 5)"] by (simp add: guess_gap_def)
    then show ?thesis
      using eff2 True m i(1,2) by (simp add: f after_guesses_def ladder_failure_def)
  next
    case False
    then have m: "Suc i mod 5 = Suc (i mod 5)" "Suc i div 5 = i div 5" and less: "i mod 5 < 4"
      by (simp_all add: mod_Suc div_Suc)
    then show ?thesis
      using eff2 i(1,2,5) w gap by (simp add: f after_guesses_def ladder_failure_def)
  qed
qed

lemma guesses_from:
  assumes "valkey_laws vk" and "after_guesses vk key i s" and "1 \<le> i" and "\<forall>w \<in> set ws. w < 7200000"
  shows "guesses vk key ws s \<noteq> None \<longleftrightarrow> list_all2 (\<le>) (map guess_gap [i..<i + length ws]) ws"
  using assms(2-4)
proof (induction ws arbitrary: i s)
  case Nil
  then show ?case by simp
next
  case (Cons w ws)
  obtain r s1 where a: "login_attempt vk key (vk_wait vk w s) = (r, s1)" by fastforce
  have "w < 7200000" using Cons.prems(3) by simp
  note one = after_one_guess [OF assms(1) Cons.prems(1,2) this a]
  have "[i..<i + length (w # ws)] = i # [Suc i..<Suc i + length ws]"
    by (subst upt_conv_Cons) (simp, simp del: upt_Suc)
  then show ?case
    using one Cons.IH [of "Suc i" "snd (login_failure vk key s1)"] Cons.prems(3) by (simp add: a)
qed

lemma first_guess:
  assumes "valkey_laws vk" and "\<not> vk_present vk s key" and "1000 \<le> now_ms vk s"
    and "login_attempt vk key (vk_wait vk w s) = (r, s1)"
  shows "hd r = 1" and "after_guesses vk key 1 (snd (login_failure vk key s1))"
proof -
  have "\<not> vk_present vk (vk_wait vk w s) key"
    using assms(2) by (simp add: vk_present_def valkey_laws_simps [OF assms(1)])
  note l = fresh_ladder [OF this]
  note eff = login_attempt_effect [OF assms(1,4), unfolded wait_effect(1) [OF assms(1)] l]
  show "hd r = 1" using eff(1) assms(3) by (simp add: ladder_attempt_def)
  have l1: "ladder_of vk s1 key = \<lparr>failures = 0, stage = 0, blocked_until = 0, last_attempt_at = now_ms vk s + int w\<rparr>"
    using eff(2) assms(3) by (simp add: ladder_attempt_def)
  obtain r2 s2 where f: "login_failure vk key s1 = (r2, s2)" by fastforce
  have "0 \<le> stage (ladder_of vk s1 key)" by (simp add: l1)
  from login_failure_effect [OF assms(1) this f] assms(3)
  show "after_guesses vk key 1 (snd (login_failure vk key s1))"
    by (simp add: f after_guesses_def ladder_failure_def l1 eff(3) guess_gap_def)
qed

lemma guesses_fresh:
  assumes "valkey_laws vk" and "\<not> vk_present vk s key" and "1000 \<le> now_ms vk s" and "\<forall>w \<in> set ws. w < 7200000"
  shows "guesses vk key (w0 # ws) s \<noteq> None \<longleftrightarrow> list_all2 (\<le>) (map guess_gap [1..<Suc (length ws)]) ws"
proof -
  obtain r s1 where a: "login_attempt vk key (vk_wait vk w0 s) = (r, s1)" by fastforce
  note one = first_guess [OF assms(1-3) a]
  show ?thesis using guesses_from [OF assms(1) one(2) le_refl assms(4)] one(1) by (simp add: a)
qed

lemma sum_list_all2: "list_all2 (\<le>) xs ys \<Longrightarrow> sum_list xs \<le> (sum_list ys :: nat)"
  by (induction rule: list_all2_induct) auto

lemma thirty_gaps:
  "map guess_gap [1..<30] =
     [1000, 1000, 1000, 1000, 5000, 1000, 1000, 1000, 1000, 10000, 1000, 1000, 1000, 1000, 60000,
      1000, 1000, 1000, 1000, 300000, 1000, 1000, 1000, 1000, 900000, 1000, 1000, 1000, 1000]"
  by (simp add: upt_conv_Cons [of 1] guess_gap_def penalty_ms_values del: One_nat_def)

text \<open>
  What the ladder charges for guessing.  Starting from a clean ladder, a caller that submits one
  wrong password after another, never pausing for the two hours that clear its record, gets every
  attempt through exactly when each wait is at least the spacing and, after every fifth guess, the
  penalty of that run: 5, 10, 60, 300 and 900 seconds, then an hour each; so the whole run takes at
  least the sum of these.
\<close>

theorem guessing_cost:
  assumes "valkey_laws vk" and "\<not> vk_present vk s key" and "1000 \<le> now_ms vk s" and "\<forall>w \<in> set ws. w < 7200000"
  shows "(guesses vk key (w0 # ws) s \<noteq> None \<longleftrightarrow> list_all2 (\<le>) (map guess_gap [1..<Suc (length ws)]) ws)
    \<and> (guesses vk key (w0 # ws) s = None \<or> sum_list (map guess_gap [1..<Suc (length ws)]) \<le> sum_list ws)"
  using guesses_fresh [OF assms] sum_list_all2 by blast

definition empty_store :: "int memory_state" where
  "empty_store = \<lparr>mem_now = 43200000, mem_fields = [], mem_life = []\<rparr>"

lemma empty_store_fresh: "\<not> vk_present memory empty_store ''k''" "1000 \<le> now_ms memory empty_store"
  by (simp_all add: vk_present_def memory_def empty_store_def now_ms_def)

theorem guessing_cost_witness:
  "guesses memory ''k'' [0, 1000, 1000, 1000, 1000, 5000] empty_store \<noteq> None
   \<and> guesses memory ''k'' [0, 1000, 1000, 1000, 1000, 4999] empty_store = None"
proof -
  have g: "map guess_gap [1..<6] = [1000, 1000, 1000, 1000, 5000]"
    by (simp add: upt_conv_Cons [of 1] guess_gap_def penalty_ms_values del: One_nat_def)
  have l: "Suc (length [1000, 1000, 1000, 1000, w :: nat]) = 6" for w by simp
  note cost = guessing_cost [OF memory_laws empty_store_fresh, of "[1000, 1000, 1000, 1000, w]" 0 for w, unfolded l g]
  show ?thesis
    using cost [of 5000] cost [of 4999] by (simp del: guesses.simps)
qed

text \<open>
  Thirty wrong guesses take a patient caller 1299 seconds, well under half an hour, not the
  "well over an hour" the ladder's numbers are documented to cost; the hour-long rung is first charged
  after the thirtieth guess.
\<close>

theorem thirty_guesses_cost:
  assumes "valkey_laws vk" and "\<not> vk_present vk s key" and "1000 \<le> now_ms vk s"
  shows "guesses vk key (0 # map guess_gap [1..<30]) s \<noteq> None
    \<and> length (0 # map guess_gap [1..<30]) = 30 \<and> sum_list (0 # map guess_gap [1..<30]) = 1299 * 1000"
proof -
  have g: "sum_list (map guess_gap [1..<30]) = 1299 * 1000" "\<forall>w \<in> set (map guess_gap [1..<30]). w < 7200000"
    unfolding thirty_gaps by simp_all
  then show ?thesis
    using guesses_fresh [OF assms g(2), of 0] by (simp add: list.rel_refl del: guesses.simps)
qed

theorem thirty_guesses_cost_witness:
  "guesses memory ''k'' (0 # map guess_gap [1..<30]) empty_store \<noteq> None"
  using thirty_guesses_cost [OF memory_laws empty_store_fresh] by (rule conjunct1)

section \<open>The login route\<close>

lemma assert_allowed_no_fault:
  assumes "login_attempt vk (throttle_key address) s = ([a, w, f, b], s')"
  shows "assert_allowed vk No_Fault address s =
    (if a = 1 then (Inr (Some (standing f b)), s')
     else (Inl (Too_Many_Requests (ceil_seconds w) w (Some (standing f b))), s'))"
  using assms by (simp add: assert_allowed_def login_attempt_def run_script_def decision_def numbers_def)

lemma assert_allowed_fault:
  assumes "fault \<noteq> No_Fault"
  shows "assert_allowed vk fault address s =
    (Inr None, if fault = Not_Sent then s else snd (login_attempt vk (throttle_key address) s))"
  using assms
  by (cases fault) (simp_all add: assert_allowed_def login_attempt_def run_script_def decision_def numbers_def case_prod_unfold)

lemma login_attempt_shape:
  assumes "valkey_laws vk"
  obtains a w f b s' where "login_attempt vk key s = ([a, w, f, b], s')" and "a = 1 \<or> a = 0"
proof -
  obtain r s' where a: "login_attempt vk key s = (r, s')" by fastforce
  show thesis
    using a that login_attempt_effect(1) [OF assms a] by (auto simp: ladder_attempt_def split: if_splits)
qed

lemma register_failure_no_fault:
  assumes "login_failure vk (throttle_key address) s = ([f, b], s')"
  shows "register_failure vk No_Fault address s = (Some (standing f b), s')"
  using assms by (simp add: register_failure_def login_failure_def run_script_def numbers_def)

lemma count_penalty_rung:
  assumes "0 \<le> st"
  shows "count_penalty (Some (standing f (penalty_ms login_penalty_seconds st))) = [Login_Penalty (min (nat st) 5)]"
proof -
  consider "st = 0" | "st = 1" | "st = 2" | "st = 3" | "st = 4" | "5 \<le> st" using assms by linarith
  then show ?thesis
  proof cases
    case 6
    then have "min (nat st) 5 = 5" by simp
    then show ?thesis
      unfolding penalty_ms_values [OF assms]
      using 6 by (simp add: count_penalty_def standing_def js_find_index_def login_penalty_seconds_def)
  qed (unfold penalty_ms_values [OF assms], simp_all add: count_penalty_def standing_def js_find_index_def login_penalty_seconds_def)
qed

text \<open>
  What a wrong password is answered.  The failure is recorded before the answer leaves; the answer
  re-raises the handler's error and states the attempts left in the run, or, when this failure ended
  it, a fresh run, the penalty it bought, and one count on that penalty's own rung.
\<close>

theorem wrong_password_answer:
  assumes "valkey_laws vk" and "login_attempt vk (throttle_key address) s = ([1, 0, f, 0], s1)"
    and "handler s1 = (Inl Not_Authenticated, s2)" and "ladder_wf (ladder_of vk s2 (throttle_key address))"
  shows "intercept vk No_Fault No_Fault address handler s =
    (let l = ladder_of vk s2 (throttle_key address)
     in if failures l < 4
        then \<lparr>answer = Inl Not_Authenticated, metrics = [Login_Failed],
               headers = [(''X-Login-Attempts'', 5), (''X-Login-Attempts-Remaining'', 4 - failures l)]\<rparr>
        else \<lparr>answer = Inl Not_Authenticated, metrics = [Login_Failed, Login_Penalty (min (nat (stage l)) 5)],
               headers = [(''X-Login-Attempts'', 5), (''X-Login-Attempts-Remaining'', 5),
                          (''X-Login-Retry-After-Ms'', penalty_ms login_penalty_seconds (stage l))]\<rparr>,
     snd (login_failure vk (throttle_key address) s2))"
proof -
  let ?l = "ladder_of vk s2 (throttle_key address)"
  obtain r s3 where fl: "login_failure vk (throttle_key address) s2 = (r, s3)" by fastforce
  have st: "0 \<le> stage ?l" using assms(4) by (simp add: ladder_wf_def)
  have r: "r = (if failures ?l < 4 then [failures ?l + 1, 0] else [0, penalty_ms login_penalty_seconds (stage ?l)])"
    using login_failure_effect(1) [OF assms(1) st fl] by (simp add: ladder_failure_def)
  have i: "intercept vk No_Fault No_Fault address handler s =
      (on_failure vk No_Fault address Not_Authenticated s2 :: 'b login_answer \<times> 'a)"
    by (simp add: intercept_def assert_allowed_no_fault [OF assms(2)] assms(3))
  show ?thesis
  proof (cases "failures ?l < 4")
    case True
    then show ?thesis
      using assms(4) register_failure_no_fault [of vk address s2 "failures ?l + 1" 0 s3] r fl
      by (simp add: i on_failure_def standing_of_def standing_def count_penalty_def describe_def ladder_wf_def
          login_attempts_per_stage_def)
  next
    case False
    then have "register_failure vk No_Fault address s2 = (Some (standing 0 (penalty_ms login_penalty_seconds (stage ?l))), s3)"
      using register_failure_no_fault r fl by simp
    then show ?thesis
      using False penalty_ms_bounds [OF st]
      by (simp add: i on_failure_def standing_of_def count_penalty_rung [OF st] fl)
        (simp add: describe_def standing_def login_attempts_per_stage_def Let_def)
  qed
qed

theorem wrong_password_answer_witness:
  "fst (intercept memory No_Fault No_Fault ''1.2.3.4'' (\<lambda>s. (Inl Not_Authenticated :: login_error + nat, vk_wait memory 80 s)) empty_store)
     = \<lparr>answer = Inl Not_Authenticated, metrics = [Login_Failed],
        headers = [(''X-Login-Attempts'', 5), (''X-Login-Attempts-Remaining'', 4)]\<rparr>"
proof -
  let ?k = "throttle_key ''1.2.3.4''" and ?h = "\<lambda>s. (Inl Not_Authenticated :: login_error + nat, vk_wait memory 80 s)"
  let ?s1 = "snd (login_attempt memory ?k empty_store)"
  have a: "login_attempt memory ?k empty_store = ([1, 0, 0, 0], ?s1)"
    by (rule prod_eqI) code_simp+
  have l: "ladder_of memory (vk_wait memory 80 ?s1) ?k = \<lparr>failures = 0, stage = 0, blocked_until = 0, last_attempt_at = 43200000\<rparr>"
    by code_simp
  from wrong_password_answer [where handler = ?h, OF memory_laws a refl] show ?thesis
    by (simp add: l ladder_wf_def)
qed

text \<open>
  The throttle fails open.  When the store cannot be asked before the handler runs, the handler
  runs and its answer is the route's; and whatever happens to the call after it, the answer is the
  same, so an outage neither refuses a login nor changes one's outcome.
\<close>

theorem throttle_fails_open:
  assumes "before \<noteq> No_Fault"
  shows "answer (fst (intercept vk before after address handler s))
      = fst (handler (if before = Not_Sent then s else snd (login_attempt vk (throttle_key address) s)))
    \<and> answer (fst (intercept vk before' after address handler s)) = answer (fst (intercept vk before' after' address handler s))"
proof (rule conjI)
  have fail: "answer (fst (on_failure vk aft address e t)) = Inl e" for aft e t
    by (simp add: on_failure_def case_prod_unfold split: option.split)
  show "answer (fst (intercept vk before after address handler s))
      = fst (handler (if before = Not_Sent then s else snd (login_attempt vk (throttle_key address) s)))"
    by (simp add: intercept_def assert_allowed_fault [OF assms] on_success_def fail split: prod.split sum.split)
  show "answer (fst (intercept vk before' after address handler s)) = answer (fst (intercept vk before' after' address handler s))"
    by (simp add: intercept_def on_success_def fail split: prod.split sum.split)
qed

theorem throttle_fails_open_witness:
  "answer (fst (intercept memory Not_Sent No_Fault ''1.2.3.4'' (\<lambda>s. (Inr True, s)) demo_store)) = Inr True"
  using throttle_fails_open [where before = Not_Sent and vk = memory and after = No_Fault and address = "''1.2.3.4''"
      and handler = "\<lambda>s. (Inr True, s)" and s = demo_store, THEN conjunct1] by simp

end
