(* ===== verification/Rate_Limit.thy ===== *)
theory Rate_Limit
  imports Valkey
begin

text \<open>
  The per-caller request limiter: the Lua charge of \<open>src/src/app/rate-limit/rate-limit-consume.script.ts\<close>,
  the store that runs it (\<open>rate-limit.store.ts\<close>), the guard in front of every route
  (\<open>user-rate-limit.guard.ts\<close>) and the rules of \<open>config/parts/rate-limit.config.ts\<close>.  Tokens are
  rationals: the store keeps fractions of a token.  \<open>bucket_level\<close> states how many tokens a bucket
  holds now, kept or expired; every lemma about limits is one about it.
\<close>

section \<open>Rules, charges and decisions\<close>

record rate_limit_rule =
  rate_per_sec :: int
  rule_burst :: int

record rate_limit_charge =
  charge_key :: string
  charge_rule :: rate_limit_rule

record rate_limit_decision =
  rl_allowed :: bool
  rl_limit :: int
  rl_remaining :: int
  rl_retry_after_ms :: int

datatype rate_limit_profile = Heavy | Strict | Auth

record rate_limit_config =
  rl_enabled :: bool
  rl_global :: rate_limit_rule
  rl_heavy :: rate_limit_rule
  rl_strict :: rate_limit_rule
  rl_auth :: rate_limit_rule

definition default_rate_limits :: rate_limit_config where
  "default_rate_limits =
     \<lparr>rl_enabled = True, rl_global = \<lparr>rate_per_sec = 3, rule_burst = 10\<rparr>,
      rl_heavy = \<lparr>rate_per_sec = 1, rule_burst = 60\<rparr>, rl_strict = \<lparr>rate_per_sec = 1, rule_burst = 3\<rparr>,
      rl_auth = \<lparr>rate_per_sec = 1, rule_burst = 5\<rparr>\<rparr>"

fun rule_for :: "rate_limit_config \<Rightarrow> rate_limit_profile \<Rightarrow> rate_limit_rule" where
  "rule_for cfg Heavy = rl_heavy cfg"
| "rule_for cfg Auth = rl_auth cfg"
| "rule_for cfg Strict = rl_strict cfg"

section \<open>The charge script\<close>

definition charge_bucket :: "('s, rat) valkey \<Rightarrow> int \<Rightarrow> string \<times> int \<times> int \<Rightarrow> 's \<Rightarrow> int list \<times> 's" where
  \<comment> \<open>the body of the loop: one bucket\<close>
  "charge_bucket vk nowMs bucket s =
     (case bucket of (key, rate, burst) \<Rightarrow>
       let tokens = (case (vk_hget vk s key ''t'', vk_hget vk s key ''u'') of
             (Some t, Some u) \<Rightarrow> min (of_int burst) (t + max 0 (of_int nowMs - u) * of_int rate / 1000)
           | _ \<Rightarrow> of_int burst);
           allowed = (if tokens \<ge> 1 then 1 else 0);
           left = (if tokens \<ge> 1 then tokens - 1 else tokens);
           full = max 1 \<lceil>(of_int burst - left) * 1000 / of_int rate\<rceil>;
           s1 = vk_hset vk key [(''t'', left), (''u'', of_int nowMs)] s;
           s2 = vk_pexpire vk key full s1;
           wait = (if left < 1 then \<lceil>(1 - left) * 1000 / of_int rate\<rceil> else 0)
       in ([allowed, \<lfloor>left\<rfloor>, wait], s2))"

fun charge_chain :: "('s, rat) valkey \<Rightarrow> int \<Rightarrow> (string \<times> int \<times> int) list \<Rightarrow> 's \<Rightarrow> int list \<times> 's" where
  \<comment> \<open>the loop, left at the first bucket that refuses\<close>
  "charge_chain vk nowMs [] s = ([], s)"
| "charge_chain vk nowMs (b # bs) s =
     (case charge_bucket vk nowMs b s of
        (answer, s') \<Rightarrow>
          if hd answer = 0 then (answer, s')
          else (case charge_chain vk nowMs bs s' of (rest, s'') \<Rightarrow> (answer @ rest, s'')))"

fun script_args :: "string list \<Rightarrow> int list \<Rightarrow> (string \<times> int \<times> int) list" where
  \<comment> \<open>\<open>KEYS[i]\<close> with \<open>ARGV[2i - 1]\<close> and \<open>ARGV[2i]\<close>\<close>
  "script_args (k # ks) (rate # burst # args) = (k, rate, burst) # script_args ks args"
| "script_args _ _ = []"

definition consume_script :: "('s, rat) valkey \<Rightarrow> string list \<Rightarrow> int list \<Rightarrow> 's \<Rightarrow> int list \<times> 's" where
  "consume_script vk keys args s = charge_chain vk (now_ms vk s) (script_args keys args) s"

section \<open>The store\<close>

definition reply_fields :: nat where "reply_fields = 3"

definition reply_numbers :: "int list option \<Rightarrow> nat \<Rightarrow> int list option" where
  \<comment> \<open>\<open>RateLimitStore.numbers\<close>: the script's integers, if there is a whole number of answers and not too many\<close>
  "reply_numbers reply expected =
     (case reply of
        None \<Rightarrow> None
      | Some ns \<Rightarrow>
          if length ns mod reply_fields = 0 \<and> length ns \<le> expected * reply_fields then Some ns else None)"

definition js_int_at :: "int list \<Rightarrow> nat \<Rightarrow> int" where
  \<comment> \<open>\<open>reply[i] ?? 0\<close>\<close>
  "js_int_at ns i = (case js_nth ns i of None \<Rightarrow> 0 | Some n \<Rightarrow> n)"

definition decisions :: "int list \<Rightarrow> rate_limit_charge list \<Rightarrow> rate_limit_decision list" where
  "decisions reply charges =
     map (\<lambda>(i, charge). let at_i = i * reply_fields in
            \<lparr>rl_allowed = (js_nth reply at_i = Some 1), rl_limit = rule_burst (charge_rule charge),
             rl_remaining = js_int_at reply (at_i + 1), rl_retry_after_ms = js_int_at reply (at_i + 2)\<rparr>)
       (enumerate 0 (take (length reply div reply_fields) charges))"

definition bucket_key :: "rate_limit_charge \<Rightarrow> string" where
  "bucket_key charge = ''ratelimit'' @ '':'' @ charge_key charge"

record limiter_log =
  log_suppressed :: nat
  log_last_at :: "int option"
  log_warned :: "nat list" \<comment> \<open>what each warning said it stands for, newest first\<close>

definition failure_log_window_ms :: int where "failure_log_window_ms = 60000"

definition record_failure :: "int \<Rightarrow> limiter_log \<Rightarrow> limiter_log" where
  "record_failure now l =
     (let quiet = (case log_last_at l of None \<Rightarrow> False | Some t \<Rightarrow> now - t < failure_log_window_ms)
      in if quiet then l\<lparr>log_suppressed := log_suppressed l + 1\<rparr>
         else \<lparr>log_suppressed = 0, log_last_at = Some now, log_warned = log_suppressed l # log_warned l\<rparr>)"

definition run_charges ::
  "('s, rat) valkey \<Rightarrow> fault \<Rightarrow> rate_limit_charge list \<Rightarrow> 's \<Rightarrow> int list option \<times> 's" where
  \<comment> \<open>\<open>RateLimitStore.run\<close>; a rejected or late call is \<open>None\<close>\<close>
  "run_charges vk fault charges s =
     vk_call fault (consume_script vk (map bucket_key charges)
       (concat (map (\<lambda>c. [rate_per_sec (charge_rule c), rule_burst (charge_rule c)]) charges))) s"

definition consume ::
  "('s, rat) valkey \<Rightarrow> fault \<Rightarrow> rate_limit_charge list \<Rightarrow> 's \<Rightarrow> rate_limit_decision list \<times> 's" where
  "consume vk fault charges s =
     (if charges = [] then ([], s)
      else case run_charges vk fault charges s of
             (reply, s') \<Rightarrow>
               (case reply_numbers reply (length charges) of
                  None \<Rightarrow> ([], s')
                | Some ns \<Rightarrow> (decisions ns charges, s')))"

section \<open>The guard\<close>

definition pick :: "rate_limit_decision list \<Rightarrow> rate_limit_decision option" where
  "pick ds =
     (case find (\<lambda>d. \<not> rl_allowed d) ds of
        Some refused \<Rightarrow> Some refused
      | None \<Rightarrow>
          foldl (\<lambda>narrowest d. case narrowest of
                   Some n \<Rightarrow> if rl_remaining n < rl_remaining d then Some n else Some d
                 | None \<Rightarrow> Some d) None ds)"

record request_caller =
  caller_user :: "string option"
  caller_ip :: string

definition tracker :: "request_caller \<Rightarrow> string" where
  "tracker caller =
     (case caller_user caller of
        Some u \<Rightarrow> if u \<noteq> [] then ''user:'' @ u else ''ip:'' @ caller_ip caller
      | None \<Rightarrow> ''ip:'' @ caller_ip caller)"

fun profile_name :: "rate_limit_profile \<Rightarrow> string" where
  "profile_name Heavy = ''heavy''"
| "profile_name Strict = ''strict''"
| "profile_name Auth = ''auth''"

definition charges_of ::
  "rate_limit_config \<Rightarrow> rate_limit_profile option \<Rightarrow> string \<Rightarrow> request_caller \<Rightarrow> rate_limit_charge list" where
  "charges_of cfg profile controller caller =
     (let global = \<lparr>charge_key = ''global:'' @ tracker caller, charge_rule = rl_global cfg\<rparr>
      in case profile of
           None \<Rightarrow> [global]
         | Some p \<Rightarrow> [global, \<lparr>charge_key = profile_name p @ '':'' @ controller @ '':'' @ tracker caller,
                              charge_rule = rule_for cfg p\<rparr>])"

datatype limit_metric = Failed_Open | Rate_Limited string bool

definition bucket_label :: "string \<Rightarrow> string" where
  \<comment> \<open>what stands before the first colon, or \<open>unknown\<close>\<close>
  "bucket_label key =
     (let label = takeWhile (\<lambda>c. c \<noteq> CHR '':'') key
      in if label \<noteq> [] \<and> length label < length key then label else ''unknown'')"

definition count_decisions :: "rate_limit_charge list \<Rightarrow> rate_limit_decision list \<Rightarrow> limit_metric list" where
  "count_decisions charges ds =
     (if ds = [] then [Failed_Open]
      else map (\<lambda>(i, d). Rate_Limited (bucket_label (case js_nth charges i of None \<Rightarrow> [] | Some c \<Rightarrow> charge_key c)) (rl_allowed d))
             (enumerate 0 ds))"

definition ceil_sec :: "int \<Rightarrow> int" where "ceil_sec ms = (ms + 999) div 1000"

definition report_headers :: "rate_limit_decision \<Rightarrow> (string \<times> int) list" where
  "report_headers d =
     [(''X-RateLimit-Limit'', rl_limit d), (''X-RateLimit-Remaining'', rl_remaining d),
      (''X-RateLimit-Reset'', ceil_sec (rl_retry_after_ms d))]
     @ (if rl_allowed d then []
        else [(''Retry-After'', max 1 (ceil_sec (rl_retry_after_ms d))),
              (''X-RateLimit-Retry-After-Ms'', rl_retry_after_ms d)])"

datatype guard_answer = Pass | Too_Many int

record guard_result =
  guard_answer :: guard_answer
  guard_headers :: "(string \<times> int) list"
  guard_metrics :: "limit_metric list"

definition can_activate ::
  "('s, rat) valkey \<Rightarrow> fault \<Rightarrow> rate_limit_config \<Rightarrow> bool \<Rightarrow> bool \<Rightarrow> rate_limit_profile option \<Rightarrow> string
    \<Rightarrow> request_caller \<Rightarrow> 's \<Rightarrow> guard_result \<times> 's" where
  \<comment> \<open>\<open>is_http\<close> and \<open>exempt\<close> are what the route's context and metadata say\<close>
  "can_activate vk fault cfg is_http exempt profile controller caller s =
     (if \<not> rl_enabled cfg \<or> \<not> is_http \<or> exempt then (\<lparr>guard_answer = Pass, guard_headers = [], guard_metrics = []\<rparr>, s)
      else let charges = charges_of cfg profile controller caller
           in case consume vk fault charges s of
                (ds, s') \<Rightarrow>
                  (case pick ds of
                     None \<Rightarrow> (\<lparr>guard_answer = Pass, guard_headers = [], guard_metrics = count_decisions charges ds\<rparr>, s')
                   | Some d \<Rightarrow>
                       (\<lparr>guard_answer = (if rl_allowed d then Pass else Too_Many (rl_retry_after_ms d)),
                         guard_headers = report_headers d, guard_metrics = count_decisions charges ds\<rparr>, s')))"

section \<open>What a bucket holds\<close>

definition bucket_level :: "('s, rat) valkey \<Rightarrow> 's \<Rightarrow> string \<Rightarrow> int \<Rightarrow> int \<Rightarrow> rat" where
  \<comment> \<open>specification: the tokens a charge would find now\<close>
  "bucket_level vk s key rate burst =
     (case (vk_hget vk s key ''t'', vk_hget vk s key ''u'') of
        (Some t, Some u) \<Rightarrow> min (of_int burst) (t + max 0 (of_int (now_ms vk s) - u) * of_int rate / 1000)
      | _ \<Rightarrow> of_int burst)"

definition bucket_wf :: "('s, rat) valkey \<Rightarrow> 's \<Rightarrow> string \<Rightarrow> int \<Rightarrow> int \<Rightarrow> bool" where
  \<comment> \<open>specification: between empty and full, stamped in the past, and kept until it would be full\<close>
  "bucket_wf vk s key rate burst \<longleftrightarrow>
     0 \<le> bucket_level vk s key rate burst
     \<and> (\<forall>t u. vk_hget vk s key ''t'' = Some t \<longrightarrow> vk_hget vk s key ''u'' = Some u \<longrightarrow> u \<le> of_int (now_ms vk s))
     \<and> (\<forall>life. vk_pttl vk s key = Some life \<longrightarrow>
          of_int burst \<le> bucket_level vk s key rate burst + of_int life * of_int rate / 1000)"

lemma bucket_level_le: "0 < rate \<Longrightarrow> bucket_level vk s key rate burst \<le> of_int burst"
  by (simp add: bucket_level_def split: option.split)

lemma bucket_wf_absent:
  "\<not> vk_present vk s key \<Longrightarrow> vk_pttl vk s key = None \<Longrightarrow> 0 \<le> burst \<Longrightarrow> bucket_wf vk s key rate burst"
  by (simp add: bucket_wf_def bucket_level_def vk_present_def)

definition level_after :: "('s, rat) valkey \<Rightarrow> 's \<Rightarrow> string \<Rightarrow> int \<Rightarrow> int \<Rightarrow> rat" where
  \<comment> \<open>specification: what a charge leaves\<close>
  "level_after vk s key rate burst =
     (if 1 \<le> bucket_level vk s key rate burst then bucket_level vk s key rate burst - 1
      else bucket_level vk s key rate burst)"

lemma charge_bucket_conv:
  "charge_bucket vk (now_ms vk s) (key, rate, burst) s =
     ([if 1 \<le> bucket_level vk s key rate burst then 1 else 0, \<lfloor>level_after vk s key rate burst\<rfloor>,
       if level_after vk s key rate burst < 1 then \<lceil>(1 - level_after vk s key rate burst) * 1000 / of_int rate\<rceil> else 0],
      vk_pexpire vk key (max 1 \<lceil>(of_int burst - level_after vk s key rate burst) * 1000 / of_int rate\<rceil>)
        (vk_hset vk key [(''t'', level_after vk s key rate burst), (''u'', of_int (now_ms vk s))] s))"
  unfolding charge_bucket_def level_after_def bucket_level_def Let_def by simp

lemma charge_effect:
  fixes vk :: "('s, rat) valkey"
  assumes "valkey_laws vk" and "0 < rate" and "bucket_wf vk s key rate burst"
    and "charge_bucket vk (now_ms vk s) (key, rate, burst) s = ([a, rem, w], s')"
  shows "a = (if 1 \<le> bucket_level vk s key rate burst then 1 else 0)"
    and "bucket_level vk s' key rate burst = bucket_level vk s key rate burst - of_int a"
    and "bucket_wf vk s' key rate burst" and "now_ms vk s' = now_ms vk s"
    and "rem = \<lfloor>bucket_level vk s' key rate burst\<rfloor>"
    and "w = (if bucket_level vk s' key rate burst < 1 then \<lceil>(1 - bucket_level vk s' key rate burst) * 1000 / of_int rate\<rceil> else 0)"
proof -
  let ?lv = "bucket_level vk s key rate burst"
  let ?after = "level_after vk s key rate burst"
  define full where "full = max 1 \<lceil>(of_int burst - ?after) * 1000 / of_int rate\<rceil>"
  have c: "[a, rem, w] = [if 1 \<le> ?lv then 1 else 0, \<lfloor>?after\<rfloor>,
        if ?after < 1 then \<lceil>(1 - ?after) * 1000 / of_int rate\<rceil> else 0]"
    "s' = vk_pexpire vk key full (vk_hset vk key [(''t'', ?after), (''u'', of_int (now_ms vk s))] s)"
    using assms(4) unfolding charge_bucket_conv full_def [symmetric] by simp_all
  show a: "a = (if 1 \<le> ?lv then 1 else 0)" using c(1) by simp
  have pos: "0 < full" by (simp add: full_def)
  have pres: "vk_present vk (vk_hset vk key [(''t'', ?after), (''u'', of_int (now_ms vk s))] s) key"
    by (rule vk_present_hset [OF assms(1)]) simp
  note laws = valkey_laws_simps [OF assms(1)]
  show n: "now_ms vk s' = now_ms vk s" by (simp add: c(2) laws)
  have t: "vk_hget vk s' key ''t'' = Some ?after" "vk_hget vk s' key ''u'' = Some (of_int (now_ms vk s))"
    by (simp_all add: c(2) laws(1) laws(3) [OF pos])
  have p: "vk_pttl vk s' key = Some full" by (simp add: c(2) laws(4) [OF pos pres])
  have nonneg: "0 \<le> ?lv" using assms(3) by (simp add: bucket_wf_def)
  have le: "?after \<le> of_int burst" using bucket_level_le [OF assms(2), of vk s key burst] by (simp add: level_after_def)
  have lv': "bucket_level vk s' key rate burst = ?after"
    using le by (simp add: bucket_level_def [of vk s'] t n)
  show "bucket_level vk s' key rate burst = ?lv - of_int a" by (simp add: lv' a level_after_def)
  have "(of_int burst - ?after) * 1000 / of_int rate \<le> of_int full"
    by (rule order_trans [OF le_of_int_ceiling]) (simp add: full_def)
  then have "of_int burst - ?after \<le> of_int full * of_int rate / 1000"
    using assms(2) by (simp add: pos_divide_le_eq pos_le_divide_eq)
  then show "bucket_wf vk s' key rate burst"
    using nonneg by (simp add: bucket_wf_def lv' n t p level_after_def)
  show "rem = \<lfloor>bucket_level vk s' key rate burst\<rfloor>"
    and "w = (if bucket_level vk s' key rate burst < 1 then \<lceil>(1 - bucket_level vk s' key rate burst) * 1000 / of_int rate\<rceil> else 0)"
    using c(1) by (simp_all add: lv')
qed

end
