(* ===== verification/Rate_Limit_Facts.thy ===== *)
theory Rate_Limit_Facts
  imports Rate_Limit
begin

text \<open>
  What the limiter promises: \<open>bucket_step\<close> is one thing that can happen to a bucket (a charge from any
  instance, the passing of time with key expiry, anything on other keys) and \<open>bucket_path\<close> a run of
  them.  \<open>wait_level\<close> shows that expiry is invisible, and the rate bound, the stated waits and the
  guard's decision follow from it and \<open>charge_effect\<close>.
\<close>

section \<open>Runs of one bucket\<close>

datatype bucket_event = Charged bool | Passed nat | Others

inductive bucket_step :: "('s, rat) valkey \<Rightarrow> string \<Rightarrow> int \<Rightarrow> int \<Rightarrow> 's \<Rightarrow> bucket_event \<Rightarrow> 's \<Rightarrow> bool"
  for vk :: "('s, rat) valkey" and key :: string and rate :: int and burst :: int
where
  charge: "charge_bucket vk (now_ms vk s) (key, rate, burst) s = (r, s') \<Longrightarrow>
    bucket_step vk key rate burst s (Charged (hd r = 1)) s'"
| pass: "bucket_step vk key rate burst s (Passed d) (vk_wait vk d s)"
| others: "now_ms vk s' = now_ms vk s \<Longrightarrow> vk_pttl vk s' key = vk_pttl vk s key \<Longrightarrow>
    (\<And>field. vk_hget vk s' key field = vk_hget vk s key field) \<Longrightarrow> bucket_step vk key rate burst s Others s'"

inductive_cases bucket_stepE:
  "bucket_step vk key rate burst s (Charged ok) s'" "bucket_step vk key rate burst s (Passed d) s'"
  "bucket_step vk key rate burst s Others s'"

inductive bucket_path :: "('s, rat) valkey \<Rightarrow> string \<Rightarrow> int \<Rightarrow> int \<Rightarrow> 's \<Rightarrow> bucket_event list \<Rightarrow> 's \<Rightarrow> bool"
  for vk :: "('s, rat) valkey" and key :: string and rate :: int and burst :: int and s0 :: 's
where
  here: "bucket_path vk key rate burst s0 [] s0"
| more: "bucket_path vk key rate burst s0 es s \<Longrightarrow> bucket_step vk key rate burst s e s' \<Longrightarrow>
    bucket_path vk key rate burst s0 (es @ [e]) s'"

lemma charge_shape:
  obtains a rem w s' where "charge_bucket vk (now_ms vk s) (key, rate, burst) s = ([a, rem, w], s')"
  unfolding charge_bucket_conv by simp

lemma wait_level:
  fixes vk :: "('s, rat) valkey"
  assumes "valkey_laws vk" and "0 < rate" and "bucket_wf vk s key rate burst"
  shows "bucket_level vk (vk_wait vk d s) key rate burst
      = min (of_int burst) (bucket_level vk s key rate burst + of_int (int d) * of_int rate / 1000)"
    and "bucket_wf vk (vk_wait vk d s) key rate burst"
proof -
  note laws = valkey_laws_simps [OF assms(1)]
  let ?lv = "bucket_level vk s key rate burst" and ?gain = "of_int (int d) * of_int rate / 1000 :: rat"
  have nonneg: "0 \<le> ?lv" "0 \<le> ?gain" using assms(2,3) by (simp_all add: bucket_wf_def)
  have le: "?lv \<le> of_int burst" by (rule bucket_level_le [OF assms(2)])
  show lv: "bucket_level vk (vk_wait vk d s) key rate burst = min (of_int burst) (?lv + ?gain)"
  proof (cases "vk_expires_within vk s key d")
    case True
    then obtain life where life: "vk_pttl vk s key = Some life" "life \<le> int d"
      by (auto simp: vk_expires_within_def split: option.splits)
    have "of_int life \<le> (of_int (int d) :: rat)" using life(2) by (simp only: of_int_le_iff)
    moreover have "0 \<le> (of_int rate :: rat)" using assms(2) by simp
    ultimately have "of_int life * of_int rate / 1000 \<le> ?gain"
      by (intro divide_right_mono mult_right_mono) simp_all
    moreover have "of_int burst \<le> ?lv + of_int life * of_int rate / 1000"
      using assms(3) life(1) by (simp add: bucket_wf_def)
    ultimately have "of_int burst \<le> ?lv + ?gain" by linarith
    then show ?thesis using True by (simp add: bucket_level_def [of vk "vk_wait vk d s"] laws)
  next
    case False
    show ?thesis
    proof (cases "vk_hget vk s key ''t'' = None \<or> vk_hget vk s key ''u'' = None")
      case True
      then have "?lv = of_int burst" by (auto simp: bucket_level_def split: option.split)
      then show ?thesis using True False nonneg(2) by (auto simp: bucket_level_def laws split: option.split)
    next
      case both: False
      then obtain t u where tu: "vk_hget vk s key ''t'' = Some t" "vk_hget vk s key ''u'' = Some u" by auto
      then have "u \<le> of_int (now_ms vk s)" using assms(3) by (simp add: bucket_wf_def)
      moreover have "t + (of_int (now_ms vk s) + of_int (int d) - u) * of_int rate / 1000
          = t + (of_int (now_ms vk s) - u) * of_int rate / 1000 + ?gain"
        by (simp add: field_simps)
      ultimately show ?thesis
        using False nonneg(2) by (auto simp: bucket_level_def laws tu max_def min_def add_divide_distrib)
    qed
  qed
  have "of_int burst \<le> min (of_int burst) (?lv + ?gain) + of_int (life - int d) * of_int rate / 1000"
    if "vk_pttl vk s key = Some life" "int d < life" for life
  proof -
    have "of_int burst \<le> ?lv + of_int life * of_int rate / 1000"
      using assms(3) that(1) by (simp add: bucket_wf_def)
    moreover have "of_int life * of_int rate / 1000 = ?gain + of_int (life - int d) * of_int rate / (1000 :: rat)"
      by (simp add: field_simps)
    moreover have "0 \<le> of_int (life - int d) * of_int rate / (1000 :: rat)"
      using that(2) assms(2) by simp
    ultimately show ?thesis by (simp add: min_def)
  qed
  then show "bucket_wf vk (vk_wait vk d s) key rate burst"
    using assms(3) nonneg le
    by (auto simp: bucket_wf_def lv laws vk_expires_within_def not_le split: option.splits if_splits
        simp del: of_int_diff)
qed

lemma others_level:
  assumes "bucket_step vk key rate burst s Others s'"
  shows "bucket_level vk s' key rate burst = bucket_level vk s key rate burst" "now_ms vk s' = now_ms vk s"
    "bucket_wf vk s' key rate burst = bucket_wf vk s key rate burst"
proof -
  have h: "vk_hget vk s' key field = vk_hget vk s key field" "now_ms vk s' = now_ms vk s"
    "vk_pttl vk s' key = vk_pttl vk s key" for field
    using assms by (auto elim: bucket_stepE)
  show lv: "bucket_level vk s' key rate burst = bucket_level vk s key rate burst"
    by (simp only: bucket_level_def h)
  show "now_ms vk s' = now_ms vk s" by (rule h(2))
  show "bucket_wf vk s' key rate burst = bucket_wf vk s key rate burst"
    by (simp only: bucket_wf_def lv h)
qed

lemma bucket_step_level:
  fixes vk :: "('s, rat) valkey"
  assumes "valkey_laws vk" and "0 < rate" and "bucket_wf vk s key rate burst" and "bucket_step vk key rate burst s e s'"
  shows "bucket_wf vk s' key rate burst"
    and "bucket_level vk s' key rate burst + (if e = Charged True then 1 else 0)
      \<le> bucket_level vk s key rate burst + of_int (now_ms vk s' - now_ms vk s) * of_int rate / 1000"
proof -
  have "bucket_wf vk s' key rate burst \<and> bucket_level vk s' key rate burst + (if e = Charged True then 1 else 0)
      \<le> bucket_level vk s key rate burst + of_int (now_ms vk s' - now_ms vk s) * of_int rate / 1000"
  proof (cases e)
    case (Charged ok)
    then obtain r where r: "charge_bucket vk (now_ms vk s) (key, rate, burst) s = (r, s')" "ok = (hd r = 1)"
      using assms(4) by (auto elim: bucket_stepE)
    obtain a rem w where a: "r = [a, rem, w]" using charge_shape [of vk s key rate burst] r(1) by (metis prod.inject)
    note eff = charge_effect [OF assms(1-3) r(1) [unfolded a]]
    show ?thesis using Charged r(2) eff(1-4) by (simp add: a)
  next
    case (Passed d)
    then have s': "s' = vk_wait vk d s" using assms(4) by (auto elim: bucket_stepE)
    have n: "now_ms vk s' - now_ms vk s = int d" by (simp add: s' valkey_laws_simps [OF assms(1)])
    show ?thesis
      using Passed wait_level(2) [OF assms(1-3)] unfolding n unfolding s' wait_level(1) [OF assms(1-3)] by simp
  next
    case Others
    then show ?thesis using assms(3,4) others_level [of vk key rate burst s s'] by simp
  qed
  then show "bucket_wf vk s' key rate burst"
    and "bucket_level vk s' key rate burst + (if e = Charged True then 1 else 0)
      \<le> bucket_level vk s key rate burst + of_int (now_ms vk s' - now_ms vk s) * of_int rate / 1000" by blast+
qed

section \<open>What the limiter promises\<close>

definition demo_bucket :: "rat memory_state" where
  \<comment> \<open>a bucket with half a token left\<close>
  "demo_bucket =
     \<lparr>mem_now = 43200000, mem_fields = [((''b'', ''t''), 1 / 2), ((''b'', ''u''), 43200000)],
      mem_life = [(''b'', 3167)]\<rparr>"

lemma demo_bucket_wf: "bucket_wf memory demo_bucket ''b'' 3 10"
  by (simp add: bucket_wf_def bucket_level_def memory_def demo_bucket_def now_ms_def)

text \<open>
  C23: a bucket holds its limit.  In any run of charges from any instances, pauses, expiries and other
  callers' traffic, the charges it lets through number at most the tokens it held plus its rate
  times the elapsed time, so never more than its burst plus that.
\<close>

theorem rate_bound:
  fixes vk :: "('s, rat) valkey"
  assumes "valkey_laws vk" and "0 < rate" and "bucket_wf vk s0 key rate burst"
    and "bucket_path vk key rate burst s0 es s"
  shows "of_nat (length (filter (\<lambda>e. e = Charged True) es))
      \<le> bucket_level vk s0 key rate burst + of_int (now_ms vk s - now_ms vk s0) * of_int rate / 1000
    \<and> bucket_level vk s0 key rate burst \<le> of_int burst"
proof -
  have "bucket_wf vk s key rate burst \<and>
      bucket_level vk s key rate burst + of_nat (length (filter (\<lambda>e. e = Charged True) es))
      \<le> bucket_level vk s0 key rate burst + of_int (now_ms vk s - now_ms vk s0) * of_int rate / 1000"
    using assms(4)
  proof induction
    case here
    then show ?case using assms(3) by simp
  next
    case (more es s e s')
    then have wf: "bucket_wf vk s key rate burst" by blast
    note step = bucket_step_level [OF assms(1,2) wf more.hyps(2)]
    have "of_int (now_ms vk s - now_ms vk s0) * of_int rate / 1000 + of_int (now_ms vk s' - now_ms vk s) * of_int rate / 1000
        = (of_int (now_ms vk s' - now_ms vk s0) * of_int rate / 1000 :: rat)"
      by (simp add: field_simps)
    with more.IH step show ?case by (cases "e = Charged True") simp_all
  qed
  then show ?thesis using bucket_level_le [OF assms(2), of vk s0 key burst] by (auto simp: bucket_wf_def)
qed

theorem rate_bound_witness:
  "\<exists>s. bucket_path memory ''b'' 3 10 demo_bucket ([] @ [Passed 200]) s
     \<and> of_nat (length (filter (\<lambda>e. e = Charged True) ([] @ [Passed 200])))
        \<le> bucket_level memory demo_bucket ''b'' 3 10 + of_int (now_ms memory s - now_ms memory demo_bucket) * of_int 3 / 1000"
proof -
  have p: "bucket_path memory ''b'' 3 10 demo_bucket ([] @ [Passed 200]) (vk_wait memory 200 demo_bucket)"
    by (rule bucket_path.more [OF bucket_path.here bucket_step.pass])
  have "(0 :: int) < 3" by simp
  from rate_bound [OF memory_laws this demo_bucket_wf p, THEN conjunct1] p show ?thesis by (intro exI conjI)
qed

lemma ceiling_wait:
  fixes x :: rat
  assumes "0 < rate" and "x < 1"
  shows "1 \<le> x + of_int d * of_int rate / 1000 \<longleftrightarrow> \<lceil>(1 - x) * 1000 / of_int rate\<rceil> \<le> d"
proof -
  have "\<lceil>(1 - x) * 1000 / of_int rate\<rceil> \<le> d \<longleftrightarrow> (1 - x) * 1000 / of_int rate \<le> of_int d"
    by (rule ceiling_le_iff)
  also have "\<dots> \<longleftrightarrow> (1 - x) * 1000 \<le> of_int d * of_int rate"
    using assms(1) by (simp add: pos_divide_le_eq)
  also have "\<dots> \<longleftrightarrow> 1 \<le> x + of_int d * of_int rate / 1000"
    by (simp add: field_simps)
  finally show ?thesis by simp
qed

text \<open>
  C24: the wait an answer states is exact.  After a charge that leaves less than a token, a next charge
  with nothing in between passes if and only if it comes no earlier than the stated wait, whether
  the bucket was kept or had expired by then.
\<close>

theorem stated_wait_exact:
  fixes vk :: "('s, rat) valkey"
  assumes "valkey_laws vk" and "0 < rate" and "0 < burst" and "bucket_wf vk s key rate burst"
    and "charge_bucket vk (now_ms vk s) (key, rate, burst) s = ([a, 0, w], s')"
  shows "hd (fst (charge_bucket vk (now_ms vk (vk_wait vk d s')) (key, rate, burst) (vk_wait vk d s'))) = 1 \<longleftrightarrow> w \<le> int d"
proof -
  note eff = charge_effect [OF assms(1,2,4,5)]
  have less: "bucket_level vk s' key rate burst < 1"
    using eff(5) by (simp add: eq_commute [of 0] floor_eq_iff)
  have "hd (fst (charge_bucket vk (now_ms vk (vk_wait vk d s')) (key, rate, burst) (vk_wait vk d s'))) = 1
      \<longleftrightarrow> 1 \<le> bucket_level vk (vk_wait vk d s') key rate burst"
    by (simp add: charge_bucket_conv)
  also have "\<dots> \<longleftrightarrow> 1 \<le> bucket_level vk s' key rate burst + of_int (int d) * of_int rate / 1000"
    using assms(3) by (simp only: wait_level(1) [OF assms(1,2) eff(3)] min.bounded_iff) simp
  also have "\<dots> \<longleftrightarrow> w \<le> int d"
    using ceiling_wait [OF assms(2) less, of "int d"] eff(6) less by simp
  finally show ?thesis .
qed

theorem stated_wait_exact_witness:
  "charge_bucket memory 43200000 (''b'', 3, 10) demo_bucket = ([0, 0, 167], snd (charge_bucket memory 43200000 (''b'', 3, 10) demo_bucket))
   \<and> hd (fst (charge_bucket memory (43200000 + 167) (''b'', 3, 10)
        (vk_wait memory 167 (snd (charge_bucket memory 43200000 (''b'', 3, 10) demo_bucket))))) = 1"
proof -
  let ?s' = "snd (charge_bucket memory 43200000 (''b'', 3, 10) demo_bucket)"
  have n: "now_ms memory demo_bucket = 43200000" by (simp add: now_ms_memory demo_bucket_def)
  have c: "charge_bucket memory 43200000 (''b'', 3, 10) demo_bucket = ([0, 0, 167], ?s')"
    by (rule prod_eqI) code_simp+
  have n': "now_ms memory (vk_wait memory 167 ?s') = 43200000 + 167" by code_simp
  from stated_wait_exact [OF memory_laws _ _ demo_bucket_wf c [folded n], of 167]
  show ?thesis using c unfolding n' n by simp
qed

section \<open>The guard\<close>

lemma charge_elsewhere:
  fixes vk :: "('s, rat) valkey"
  assumes "valkey_laws vk" and "charge_bucket vk nowMs (key, rate, burst) s = (r, s')" and "key' \<noteq> key"
  shows "bucket_level vk s' key' rate' burst' = bucket_level vk s key' rate' burst'"
    and "bucket_wf vk s' key' rate' burst' = bucket_wf vk s key' rate' burst'" and "now_ms vk s' = now_ms vk s"
proof -
  obtain full fs where s': "s' = vk_pexpire vk key full (vk_hset vk key fs s)" and "0 < full" and "fs \<noteq> []"
    using assms(2) unfolding charge_bucket_def Let_def by (auto split: option.splits)
  then have pres: "0 < full" "vk_present vk (vk_hset vk key fs s) key"
    by (auto intro: vk_present_hset [OF assms(1)])
  note laws = valkey_laws_simps [OF assms(1)]
  show "now_ms vk s' = now_ms vk s" by (simp add: s' laws)
  have h: "vk_hget vk s' key' field = vk_hget vk s key' field" "vk_pttl vk s' key' = vk_pttl vk s key'"
    "now_ms vk s' = now_ms vk s" for field
    using assms(3) by (simp_all add: s' laws(1,2,7,8) laws(3) [OF pres(1)] laws(4) [OF pres])
  show lv: "bucket_level vk s' key' rate' burst' = bucket_level vk s key' rate' burst'"
    by (simp only: bucket_level_def h)
  show "bucket_wf vk s' key' rate' burst' = bucket_wf vk s key' rate' burst'"
    by (simp only: bucket_wf_def lv h)
qed

lemma script_args_charges:
  "script_args (map bucket_key cs) (concat (map (\<lambda>c. [rate_per_sec (charge_rule c), rule_burst (charge_rule c)]) cs))
     = map (\<lambda>c. (bucket_key c, rate_per_sec (charge_rule c), rule_burst (charge_rule c))) cs"
  by (induction cs) simp_all

definition global_charge :: "rate_limit_config \<Rightarrow> request_caller \<Rightarrow> rate_limit_charge" where
  \<comment> \<open>specification: the bucket every request of a caller pays\<close>
  "global_charge cfg caller = hd (charges_of cfg None [] caller)"

definition route_charge :: "rate_limit_config \<Rightarrow> rate_limit_profile \<Rightarrow> string \<Rightarrow> request_caller \<Rightarrow> rate_limit_charge" where
  \<comment> \<open>specification: the bucket of a route's own profile\<close>
  "route_charge cfg p controller caller = last (charges_of cfg (Some p) controller caller)"

lemma charges_of_profile:
  "charges_of cfg (Some p) controller caller = [global_charge cfg caller, route_charge cfg p controller caller]"
  by (simp add: charges_of_def global_charge_def route_charge_def Let_def)

lemma charge_rules:
  "charge_rule (global_charge cfg caller) = rl_global cfg"
  "charge_rule (route_charge cfg p controller caller) = rule_for cfg p"
  by (simp_all add: charges_of_def global_charge_def route_charge_def Let_def)

lemma charge_keys_differ: "bucket_key (global_charge cfg caller) \<noteq> bucket_key (route_charge cfg p controller caller')"
  by (cases p) (simp_all add: charges_of_def global_charge_def route_charge_def Let_def bucket_key_def)

definition charge_level :: "('s, rat) valkey \<Rightarrow> 's \<Rightarrow> rate_limit_charge \<Rightarrow> rat" where
  \<comment> \<open>specification: the tokens in a charge's bucket\<close>
  "charge_level vk s c = bucket_level vk s (bucket_key c) (rate_per_sec (charge_rule c)) (rule_burst (charge_rule c))"

definition charge_wf :: "('s, rat) valkey \<Rightarrow> 's \<Rightarrow> rate_limit_charge \<Rightarrow> bool" where
  "charge_wf vk s c \<longleftrightarrow> 0 < rate_per_sec (charge_rule c)
     \<and> bucket_wf vk s (bucket_key c) (rate_per_sec (charge_rule c)) (rule_burst (charge_rule c))"

text \<open>
  C25: what the guard decides on a route with a profile.  The request passes exactly when the caller's
  global bucket and the route's own bucket both hold a token; each is then charged one; a request the
  global bucket refuses spends nothing from the route's.
\<close>

theorem guard_decides:
  fixes vk :: "('s, rat) valkey"
  assumes "valkey_laws vk" and "rl_enabled cfg"
    and "charge_wf vk s (global_charge cfg caller)" and "charge_wf vk s (route_charge cfg p controller caller)"
    and "can_activate vk No_Fault cfg True False (Some p) controller caller s = (res, s')"
  shows "(guard_answer res = Pass \<longleftrightarrow>
        1 \<le> charge_level vk s (global_charge cfg caller) \<and> 1 \<le> charge_level vk s (route_charge cfg p controller caller))
    \<and> charge_level vk s' (global_charge cfg caller) = charge_level vk s (global_charge cfg caller)
        - (if 1 \<le> charge_level vk s (global_charge cfg caller) then 1 else 0)
    \<and> charge_level vk s' (route_charge cfg p controller caller) = charge_level vk s (route_charge cfg p controller caller)
        - (if guard_answer res = Pass then 1 else 0)"
proof -
  let ?g = "global_charge cfg caller" and ?r = "route_charge cfg p controller caller"
  let ?gb = "(bucket_key ?g, rate_per_sec (charge_rule ?g), rule_burst (charge_rule ?g))"
    and ?rb = "(bucket_key ?r, rate_per_sec (charge_rule ?r), rule_burst (charge_rule ?r))"
  have differ: "bucket_key ?r \<noteq> bucket_key ?g" using charge_keys_differ by metis
  obtain a rem w s1 where g: "charge_bucket vk (now_ms vk s) ?gb s = ([a, rem, w], s1)"
    by (rule charge_shape)
  have gwf: "0 < rate_per_sec (charge_rule ?g)" "bucket_wf vk s (bucket_key ?g) (rate_per_sec (charge_rule ?g)) (rule_burst (charge_rule ?g))"
    using assms(3) by (simp_all add: charge_wf_def)
  have rwf: "0 < rate_per_sec (charge_rule ?r)" "bucket_wf vk s (bucket_key ?r) (rate_per_sec (charge_rule ?r)) (rule_burst (charge_rule ?r))"
    using assms(4) by (simp_all add: charge_wf_def)
  note geff = charge_effect [OF assms(1) gwf g]
  note gother = charge_elsewhere [OF assms(1) g differ]
  have cons: "consume vk No_Fault [?g, ?r] s = (case charge_chain vk (now_ms vk s) [?gb, ?rb] s of
      (reply, t) \<Rightarrow> (case reply_numbers (Some reply) 2 of None \<Rightarrow> ([], t) | Some ns \<Rightarrow> (decisions ns [?g, ?r], t)))"
    using script_args_charges [of "[?g, ?r]"]
    by (simp add: consume_def run_charges_def consume_script_def numeral_2_eq_2 split: prod.split)
  show ?thesis
  proof (cases "1 \<le> charge_level vk s ?g")
    case False
    then have a: "a = 0" using geff(1) by (simp add: charge_level_def)
    then have c: "consume vk No_Fault [?g, ?r] s = (decisions [a, rem, w] [?g, ?r], s1)"
      by (simp add: cons g reply_numbers_def reply_fields_def)
    have "\<not> rl_allowed (hd (decisions [a, rem, w] [?g, ?r]))" "decisions [a, rem, w] [?g, ?r] = [hd (decisions [a, rem, w] [?g, ?r])]"
      by (simp_all add: decisions_def reply_fields_def js_nth_def a Let_def)
    then have "pick (decisions [a, rem, w] [?g, ?r]) = Some (hd (decisions [a, rem, w] [?g, ?r]))"
      unfolding pick_def by (metis (no_types, lifting) find.simps(2) option.simps(5))
    then have "guard_answer res \<noteq> Pass" "s' = s1"
      using assms(2,5) \<open>\<not> rl_allowed _\<close> by (auto simp: can_activate_def charges_of_profile Let_def c)
    then show ?thesis using False geff(2) gother(1) a by (simp add: charge_level_def)
  next
    case True
    then have a: "a = 1" using geff(1) by (simp add: charge_level_def)
    obtain a' rem' w' s2 where r: "charge_bucket vk (now_ms vk s1) ?rb s1 = ([a', rem', w'], s2)"
      by (rule charge_shape)
    note reff = charge_effect [OF assms(1) rwf(1) rwf(2) [folded gother(2)] r]
    note rother = charge_elsewhere [OF assms(1) r differ [symmetric]]
    have c: "consume vk No_Fault [?g, ?r] s = (decisions [a, rem, w, a', rem', w'] [?g, ?r], s2)"
      using r by (simp add: cons g a reply_numbers_def reply_fields_def gother(3))
    obtain d1 d2 where d: "decisions [a, rem, w, a', rem', w'] [?g, ?r] = [d1, d2]" "rl_allowed d1" "rl_allowed d2 \<longleftrightarrow> a' = 1"
      by (simp add: decisions_def reply_fields_def js_nth_def a Let_def)
    have "pick [d1, d2] = Some (if a' = 1 then (if rl_remaining d1 < rl_remaining d2 then d1 else d2) else d2)"
      using d(2,3) by (simp add: pick_def)
    then have res: "guard_answer res = Pass \<longleftrightarrow> a' = 1" "s' = s2"
      using assms(2,5) d by (auto simp: can_activate_def charges_of_profile Let_def c split: if_splits)
    have lr: "charge_level vk s ?r = bucket_level vk s1 (bucket_key ?r) (rate_per_sec (charge_rule ?r)) (rule_burst (charge_rule ?r))"
      by (simp add: charge_level_def gother(1))
    have "a' = (if 1 \<le> charge_level vk s ?r then 1 else 0)" "charge_level vk s2 ?r = charge_level vk s ?r - of_int a'"
      using reff(1,2) by (simp_all add: lr) (simp add: charge_level_def)
    moreover have "charge_level vk s2 ?g = charge_level vk s ?g - 1"
      using rother(1) geff(2) a by (simp add: charge_level_def)
    ultimately show ?thesis using True res by (auto split: if_splits)
  qed
qed

definition demo_caller :: request_caller where
  "demo_caller = \<lparr>caller_user = Some ''7'', caller_ip = ''10.0.0.1''\<rparr>"

definition no_buckets :: "rat memory_state" where
  "no_buckets = \<lparr>mem_now = 43200000, mem_fields = [], mem_life = []\<rparr>"

lemma no_buckets_wf: "0 < rate_per_sec (charge_rule c) \<Longrightarrow> 0 \<le> rule_burst (charge_rule c) \<Longrightarrow> charge_wf memory no_buckets c"
  by (simp add: charge_wf_def bucket_wf_absent vk_present_def memory_def no_buckets_def)

theorem guard_decides_witness:
  "guard_answer (fst (can_activate memory No_Fault default_rate_limits True False (Some Heavy) ''Report'' demo_caller no_buckets)) = Pass
   \<and> charge_level memory (snd (can_activate memory No_Fault default_rate_limits True False (Some Heavy) ''Report'' demo_caller no_buckets))
       (global_charge default_rate_limits demo_caller) = 9"
proof -
  have wf: "charge_wf memory no_buckets (global_charge default_rate_limits demo_caller)"
    "charge_wf memory no_buckets (route_charge default_rate_limits Heavy ''Report'' demo_caller)"
    by (rule no_buckets_wf; simp add: charge_rules default_rate_limits_def)+
  have level: "charge_level memory no_buckets c = of_int (rule_burst (charge_rule c))" for c
    by (simp add: charge_level_def bucket_level_def memory_def no_buckets_def)
  have on: "rl_enabled default_rate_limits" by (simp add: default_rate_limits_def)
  from guard_decides [OF memory_laws on wf prod.collapse [symmetric]]
  show ?thesis by (simp add: level charge_rules default_rate_limits_def)
qed

text \<open>
  The limiter fails open and says so.  When the store cannot be asked or does not answer in time,
  the request passes, no standing is stated in its headers, and one fail-open is counted.
\<close>

theorem limiter_fails_open:
  assumes "fault \<noteq> No_Fault" and "rl_enabled cfg"
  shows "fst (can_activate vk fault cfg True False profile controller caller s)
    = \<lparr>guard_answer = Pass, guard_headers = [], guard_metrics = [Failed_Open]\<rparr>"
proof -
  have "\<exists>t'. vk_call fault f t = (None, t')" for f :: "'a \<Rightarrow> int list \<times> 'a" and t
    using assms(1) by (cases fault) simp_all
  then obtain t' where "run_charges vk fault (charges_of cfg profile controller caller) s = (None, t')"
    unfolding run_charges_def by blast
  then have "consume vk fault (charges_of cfg profile controller caller) s
      = ([], if charges_of cfg profile controller caller = [] then s else t')"
    by (simp add: consume_def reply_numbers_def)
  then show ?thesis
    using assms(2) by (simp add: can_activate_def Let_def pick_def count_decisions_def)
qed

theorem limiter_fails_open_witness:
  "guard_answer (fst (can_activate memory Answer_Lost default_rate_limits True False None ''Meta'' demo_caller demo_bucket)) = Pass"
  by (subst limiter_fails_open) (simp_all add: default_rate_limits_def)

text \<open>
  No limiter failure goes unaccounted: however the failures fall, each is either the one a
  warning reports, one of those a later warning says it stands for, or still counted for the next.
\<close>

theorem failures_accounted:
  "let l = foldl (\<lambda>l now. record_failure now l) \<lparr>log_suppressed = 0, log_last_at = None, log_warned = []\<rparr> moments
   in sum_list (map Suc (log_warned l)) + log_suppressed l = length moments"
proof -
  have "sum_list (map Suc (log_warned (foldl (\<lambda>l now. record_failure now l) l moments)))
      + log_suppressed (foldl (\<lambda>l now. record_failure now l) l moments)
      = sum_list (map Suc (log_warned l)) + log_suppressed l + length moments" for l
    by (induction moments arbitrary: l) (simp_all add: record_failure_def Let_def)
  then show ?thesis by (simp add: Let_def)
qed

end
