(* ===== verification/Currency_Conversion.thy ===== *)
theory Currency_Conversion
  imports Currency_Rates
begin

text \<open>
  \<open>CurrencyService\<close> and \<open>CurrencyConversionService\<close>: the lookup of currencies held in memory, the
  validation of codes and ranges, the memo of probes and the conversion of a batch.  A method is a
  function of the state it keeps, of the clock readings it takes and of the database it finds; the
  batch conversion awaits three times, so it takes the database as a function of time and one clock
  reading for each stretch that runs without waiting.  An amount that is not finite is \<open>None\<close>.
\<close>

section \<open>The lookup of currencies\<close>

record lookup_state =
  cached_lookup :: "(string \<times> currency_row) list option"
  lookup_expires_at :: int

definition lookup_ttl_ms :: int where "lookup_ttl_ms = 60 * 1000"

definition ms_per_day :: int where "ms_per_day = 24 * 60 * 60 * 1000"

definition today_at :: "int \<Rightarrow> string" where
  "today_at now = iso_string (now div ms_per_day)"

definition lookup_all :: "int \<Rightarrow> rate_db \<Rightarrow> lookup_state \<Rightarrow> (string \<times> currency_row) list \<times> lookup_state" where
  "lookup_all now db st =
     (case cached_lookup st of
        Some m \<Rightarrow>
          if now < lookup_expires_at st then (m, st)
          else let fresh = js_index currency_code (find_all db)
               in (fresh, \<lparr>cached_lookup = Some fresh, lookup_expires_at = now + lookup_ttl_ms\<rparr>)
      | None \<Rightarrow>
          let fresh = js_index currency_code (find_all db)
          in (fresh, \<lparr>cached_lookup = Some fresh, lookup_expires_at = now + lookup_ttl_ms\<rparr>))"

definition base_code :: "int \<Rightarrow> rate_db \<Rightarrow> lookup_state \<Rightarrow> (currency_failure + string) \<times> lookup_state" where
  "base_code now db st =
     (case lookup_all now db st of
        (m, st') \<Rightarrow> (case find is_base (map snd m) of
             None \<Rightarrow> (Inl No_Base, st')
           | Some c \<Rightarrow> (Inr (currency_code c), st')))"

definition assert_known :: "int \<Rightarrow> rate_db \<Rightarrow> string list \<Rightarrow> lookup_state \<Rightarrow> (currency_failure + string list) \<times> lookup_state" where
  "assert_known now db codes st =
     (let wanted = wanted_codes codes
      in if wanted = [] then (Inl No_Codes, st)
         else case lookup_all now db st of
                (m, st') \<Rightarrow>
                  let unknown = filter (\<lambda>c. js_get m c = None) wanted
                  in (if unknown \<noteq> [] then Inl (Unknown_Codes unknown) else Inr wanted, st'))"

definition rates_on ::
  "int \<Rightarrow> rate_db \<Rightarrow> string list \<Rightarrow> string option \<Rightarrow> lookup_state \<Rightarrow> (currency_failure + rate_probe list) \<times> lookup_state" where
  "rates_on now db codes day st =
     (let on = (case day of None \<Rightarrow> today_at now | Some d \<Rightarrow> d)
      in case assert_known now db codes st of
           (Inl e, st1) \<Rightarrow> (Inl e, st1)
         | (Inr wanted, st1) \<Rightarrow>
             (case base_code now db st1 of
                (Inl e, st2) \<Rightarrow> (Inl e, st2)
              | (Inr base, st2) \<Rightarrow>
                  let probes = probe_rates db (map (\<lambda>c. (c, on)) (filter (\<lambda>c. c \<noteq> base) wanted));
                      by_code = js_index probe_code probes
                  in (Inr (map (\<lambda>c.
                        if c = base then \<lparr>probe_code = c, requested_on = on, probe_effective = Some on, probe_rate = Some 1\<rparr>
                        else case js_get by_code c of
                               Some p \<Rightarrow> p
                             | None \<Rightarrow> \<lparr>probe_code = c, requested_on = on, probe_effective = None, probe_rate = None\<rparr>)
                      wanted), st2)))"

definition currency_series_max_days :: int where "currency_series_max_days = 732"

definition assert_range :: "string \<Rightarrow> string \<Rightarrow> currency_failure + unit" where
  "assert_range from until =
     (if until < from then Inl (Inverted from until)
      else case days_spanned from until of
             Inl e \<Rightarrow> Inl (Helper e)
           | Inr len \<Rightarrow> if len > currency_series_max_days then Inl (Too_Long len) else Inr ())"

definition rate_series ::
  "int \<Rightarrow> rate_db \<Rightarrow> string \<Rightarrow> string \<Rightarrow> string \<Rightarrow> lookup_state
    \<Rightarrow> (currency_failure + string \<times> string \<times> string \<times> (string \<times> rat) list) \<times> lookup_state" where
  \<comment> \<open>the code, the narrowed range and the points\<close>
  "rate_series now db code from until st =
     (case assert_known now db [code] st of
        (Inl e, st') \<Rightarrow> (Inl e, st')
      | (Inr [], st') \<Rightarrow> (Inl No_Codes, st')
      | (Inr (wanted # _), st') \<Rightarrow>
          (case assert_range from until of
             Inl e \<Rightarrow> (Inl e, st')
           | Inr _ \<Rightarrow>
               let points = find_series db wanted from until
               in (Inr (wanted, if points = [] then from else fst (hd points),
                        if points = [] then until else fst (last points), points), st')))"

section \<open>The memo of probes\<close>

record memo_entry =
  memo_probe :: rate_probe
  expires_at :: "int option"

type_synonym rate_memo = "(string \<times> memo_entry) list"

definition currency_rate_cache_size :: nat where "currency_rate_cache_size = 4096"

definition currency_latest_cache_ttl_ms :: int where "currency_latest_cache_ttl_ms = 60 * 1000"

definition rate_key :: "string \<Rightarrow> string \<Rightarrow> string" where
  "rate_key code day = code @ ''|'' @ day"

definition from_cache :: "int \<Rightarrow> string \<Rightarrow> rate_memo \<Rightarrow> rate_probe option \<times> rate_memo" where
  "from_cache now k memo =
     (case js_get memo k of
        None \<Rightarrow> (None, memo)
      | Some e \<Rightarrow>
          if (case expires_at e of None \<Rightarrow> False | Some x \<Rightarrow> now > x) then (None, AList.delete k memo)
          else (Some (memo_probe e), memo))"

definition immutable_probe :: "int \<Rightarrow> rate_probe \<Rightarrow> bool" where
  "immutable_probe now p = (probe_effective p = Some (requested_on p) \<and> requested_on p < today_at now)"

definition to_cache :: "int \<Rightarrow> string \<Rightarrow> rate_probe \<Rightarrow> rate_memo \<Rightarrow> rate_memo" where
  "to_cache now k p memo =
     (let memo' = AList.update k \<lparr>memo_probe = p,
             expires_at = (if immutable_probe now p then None else Some (now + currency_latest_cache_ttl_ms))\<rparr> memo
      in if length memo' > currency_rate_cache_size then AList.delete (fst (hd memo')) memo' else memo')"

section \<open>Converting a batch\<close>

record convert_request =
  rq_amount :: "rat option"
  rq_from :: string
  rq_to :: string
  rq_on :: "string option"

record normal_request =
  nr_amount :: "rat option"
  nr_from :: string
  nr_to :: string
  nr_on :: string

record conversion =
  cv_amount :: rat
  cv_from :: string
  cv_to :: string
  cv_requested_on :: string
  cv_effective_on :: "string option"
  cv_from_rate :: "rat option"
  cv_to_rate :: "rat option"
  converted :: rat

record conversion_state =
  lookup_part :: lookup_state
  rate_memo :: rate_memo

record batch_clock =
  at_base :: int
  at_normal :: int
  at_read :: int
  at_answer :: int

definition normal_request :: "string \<Rightarrow> convert_request \<Rightarrow> normal_request" where
  "normal_request today r =
     \<lparr>nr_amount = rq_amount r, nr_from = normal_code (rq_from r), nr_to = normal_code (rq_to r),
      nr_on = (case rq_on r of None \<Rightarrow> today | Some d \<Rightarrow> d)\<rparr>"

definition normalize_requests ::
  "int \<Rightarrow> rate_db \<Rightarrow> convert_request list \<Rightarrow> string \<Rightarrow> lookup_state \<Rightarrow> (currency_failure + normal_request list) \<times> lookup_state" where
  "normalize_requests now db requests base st =
     (case lookup_all now db st of
        (known, st') \<Rightarrow>
          let normalized = map (normal_request (today_at now)) requests
          in if list_ex (\<lambda>r. nr_amount r = None) normalized then (Inl Not_A_Number, st')
             else let unknown = filter (\<lambda>c. c \<noteq> base \<and> js_get known c = None)
                        (concat (map (\<lambda>r. [nr_from r, nr_to r]) normalized))
                  in if unknown \<noteq> [] then (Inl (Unknown_Codes (js_set unknown)), st') else (Inr normalized, st'))"

definition needed_pairs :: "normal_request list \<Rightarrow> string \<Rightarrow> (string \<times> string \<times> string) list" where
  "needed_pairs requests base =
     foldl (\<lambda>m (code, day). AList.update (rate_key code day) (code, day) m) []
       (concat (map (\<lambda>r. map (\<lambda>c. (c, nr_on r)) (filter (\<lambda>c. c \<noteq> base) [nr_from r, nr_to r])) requests))"

fun read_memo ::
  "int \<Rightarrow> (string \<times> string \<times> string) list \<Rightarrow> (string \<times> rate_probe) list \<Rightarrow> (string \<times> string) list \<Rightarrow> rate_memo
    \<Rightarrow> (string \<times> rate_probe) list \<times> (string \<times> string) list \<times> rate_memo" where
  "read_memo now [] resolved missing memo = (resolved, missing, memo)"
| "read_memo now ((k, pair) # needed) resolved missing memo =
     (case from_cache now k memo of
        (Some p, memo') \<Rightarrow> read_memo now needed (AList.update k p resolved) missing memo'
      | (None, memo') \<Rightarrow> read_memo now needed resolved (missing @ [pair]) memo')"

fun store_probes ::
  "int \<Rightarrow> rate_probe list \<Rightarrow> (string \<times> rate_probe) list \<Rightarrow> rate_memo \<Rightarrow> (string \<times> rate_probe) list \<times> rate_memo" where
  "store_probes now [] resolved memo = (resolved, memo)"
| "store_probes now (p # ps) resolved memo =
     (let k = rate_key (probe_code p) (requested_on p)
      in store_probes now ps (AList.update k p resolved) (to_cache now k p memo))"

definition resolve_rates ::
  "batch_clock \<Rightarrow> (int \<Rightarrow> rate_db) \<Rightarrow> normal_request list \<Rightarrow> string \<Rightarrow> rate_memo
    \<Rightarrow> (string \<times> rate_probe) list \<times> rate_memo" where
  "resolve_rates clock db requests base memo =
     (case read_memo (at_read clock) (needed_pairs requests base) [] [] memo of
        (resolved, missing, memo') \<Rightarrow>
          if missing = [] then (resolved, memo')
          else store_probes (at_answer clock) (probe_rates (db (at_answer clock)) missing) resolved memo')"

definition rate_of :: "string \<Rightarrow> string \<Rightarrow> (string \<times> rate_probe) list \<Rightarrow> string \<Rightarrow> (rat \<times> string) option" where
  "rate_of code day resolved base =
     (if code = base then Some (1, day)
      else case js_get resolved (rate_key code day) of
             None \<Rightarrow> None
           | Some p \<Rightarrow> (case (probe_rate p, probe_effective p) of (Some r, Some d) \<Rightarrow> Some (r, d) | _ \<Rightarrow> None))"

definition reported_day :: "string \<Rightarrow> string \<Rightarrow> string" where
  "reported_day from until = (if from < until then from else until)"

definition apply_rates ::
  "(string \<times> rate_probe) list \<Rightarrow> string \<Rightarrow> normal_request \<Rightarrow> currency_failure + conversion option" where
  "apply_rates resolved base r =
     (let amount = the (nr_amount r);
          shared = \<lparr>cv_amount = amount, cv_from = nr_from r, cv_to = nr_to r, cv_requested_on = nr_on r,
                    cv_effective_on = None, cv_from_rate = None, cv_to_rate = None, converted = round_amount amount\<rparr>
      in if nr_from r = nr_to r then Inr (Some shared)
         else case (rate_of (nr_from r) (nr_on r) resolved base, rate_of (nr_to r) (nr_on r) resolved base) of
                (Some (fr, fd), Some (tr, td)) \<Rightarrow>
                  (case convert_amount amount fr tr of
                     Inl e \<Rightarrow> Inl (Helper e)
                   | Inr v \<Rightarrow> Inr (Some (shared\<lparr>cv_effective_on := Some (reported_day fd td), cv_from_rate := Some fr,
                                           cv_to_rate := Some tr, converted := v\<rparr>)))
              | _ \<Rightarrow> Inr None)"

definition convert_many ::
  "batch_clock \<Rightarrow> (int \<Rightarrow> rate_db) \<Rightarrow> convert_request list \<Rightarrow> conversion_state
    \<Rightarrow> (currency_failure + conversion option list) \<times> conversion_state" where
  "convert_many clock db requests st =
     (if requests = [] then (Inr [], st)
      else case base_code (at_base clock) (db (at_base clock)) (lookup_part st) of
             (Inl e, l) \<Rightarrow> (Inl e, st\<lparr>lookup_part := l\<rparr>)
           | (Inr base, l) \<Rightarrow>
               (case normalize_requests (at_normal clock) (db (at_normal clock)) requests base l of
                  (Inl e, l') \<Rightarrow> (Inl e, st\<lparr>lookup_part := l'\<rparr>)
                | (Inr normalized, l') \<Rightarrow>
                    (case resolve_rates clock db normalized base (rate_memo st) of
                       (resolved, memo') \<Rightarrow>
                         (traverse (apply_rates resolved base) normalized,
                          st\<lparr>lookup_part := l', rate_memo := memo'\<rparr>))))"

definition convert_one ::
  "batch_clock \<Rightarrow> (int \<Rightarrow> rate_db) \<Rightarrow> convert_request \<Rightarrow> conversion_state
    \<Rightarrow> (currency_failure + conversion option) \<times> conversion_state" where
  "convert_one clock db request st =
     (case convert_many clock db [request] st of
        (Inl e, st') \<Rightarrow> (Inl e, st')
      | (Inr [], st') \<Rightarrow> (Inr None, st')
      | (Inr (x # _), st') \<Rightarrow> (Inr x, st'))"

end
