(* ===== verification/Currency_Sync.thy ===== *)
theory Currency_Sync
  imports Currency_Conversion
begin

text \<open>
  Fetching and storing the official rates: \<open>NbuRateService\<close> and \<open>CurrencyRateSyncService\<close>.  The bank's
  endpoint and the clock are the client \<open>bank\<close> over an environment the calls advance: a fetch
  answers a query, a wait lets time pass.  The request's \<open>URL\<close> is the record of the parameters
  \<open>buildUrl\<close> sets on it; the configuration's origin is not part of it.
\<close>

datatype json =
    J_null | J_bool bool | J_num rat | J_str string | J_array "json list" | J_object "(string \<times> json) list"

record nbu_query =
  query_start :: string
  query_end :: string
  query_valcode :: string

datatype bank_reply = No_Reply | Not_Ok nat | Not_Json | Ok_Json json

record 'w bank =
  bank_fetch :: "nbu_query \<Rightarrow> 'w \<Rightarrow> bank_reply \<times> 'w"
  bank_wait :: "int \<Rightarrow> 'w \<Rightarrow> 'w"

record currency_config =
  nbu_retries :: int
  rate_codes :: "string list"
  sync_window_days :: int

section \<open>The client of the bank\<close>

definition retry_base_delay_ms :: int where "retry_base_delay_ms = 500"

definition retry_max_delay_ms :: int where "retry_max_delay_ms = 5000"

definition pause_ms :: "nat \<Rightarrow> int" where
  "pause_ms attempt = min retry_max_delay_ms (retry_base_delay_ms * 2 ^ (attempt - 1))"

definition lower_char :: "char \<Rightarrow> char" where
  "lower_char c = (let n = (of_char c :: nat) in if 65 \<le> n \<and> n \<le> 90 then char_of (n + 32) else c)"

definition build_query :: "string \<Rightarrow> string \<Rightarrow> string \<Rightarrow> currency_failure + nbu_query" where
  "build_query code from until =
     (case to_query_date from of
        Inl e \<Rightarrow> Inl (Helper e)
      | Inr a \<Rightarrow> (case to_query_date until of
            Inl e \<Rightarrow> Inl (Helper e)
          | Inr b \<Rightarrow> Inr \<lparr>query_start = a, query_end = b, query_valcode = map lower_char code\<rparr>))"

definition json_string :: "json option \<Rightarrow> string option" where
  "json_string j = (case j of Some (J_str s) \<Rightarrow> Some s | _ \<Rightarrow> None)"

definition json_number :: "json option \<Rightarrow> rat option" where
  "json_number j = (case j of Some (J_num x) \<Rightarrow> Some x | _ \<Rightarrow> None)"

definition is_row :: "json \<Rightarrow> bool" where
  "is_row j =
     (case j of
        J_object f \<Rightarrow>
          json_string (js_get f ''exchangedate'') \<noteq> None \<and> json_string (js_get f ''cc'') \<noteq> None
          \<and> json_number (js_get f ''rate'') \<noteq> None \<and> json_number (js_get f ''units'') \<noteq> None
          \<and> json_number (js_get f ''rate_per_unit'') \<noteq> None
      | _ \<Rightarrow> False)"

definition json_truthy :: "json \<Rightarrow> bool" where
  "json_truthy j =
     (case j of J_null \<Rightarrow> False | J_bool b \<Rightarrow> b | J_num x \<Rightarrow> x \<noteq> 0 | J_str s \<Rightarrow> s \<noteq> [] | _ \<Rightarrow> True)"

definition assert_rows :: "json \<Rightarrow> currency_failure + json list" where
  \<comment> \<open>the first row of the wrong shape is an error when it is truthy\<close>
  "assert_rows payload =
     (case payload of
        J_array rows \<Rightarrow>
          (case find (\<lambda>r. \<not> is_row r) rows of
             None \<Rightarrow> Inr rows
           | Some bad \<Rightarrow> if json_truthy bad then Inl Bad_Row else Inr rows)
      | _ \<Rightarrow> Inl Non_Array)"

definition attempt_result :: "bank_reply \<Rightarrow> currency_failure + json list" where
  "attempt_result r = (case r of Ok_Json payload \<Rightarrow> assert_rows payload | _ \<Rightarrow> Inl Unavailable)"

fun request_loop :: "'w bank \<Rightarrow> nbu_query \<Rightarrow> nat \<Rightarrow> nat \<Rightarrow> 'w \<Rightarrow> (currency_failure + json list) \<times> 'w" where
  \<comment> \<open>the attempts left and the number of the current one\<close>
  "request_loop b q 0 n w = (Inl Unavailable, w)"
| "request_loop b q (Suc k) n w =
     (case bank_fetch b q w of
        (r, w') \<Rightarrow>
          (case attempt_result r of
             Inr rows \<Rightarrow> (Inr rows, w')
           | Inl _ \<Rightarrow> request_loop b q k (Suc n) (if k = 0 then w' else bank_wait b (pause_ms n) w')))"

definition nbu_request ::
  "'w bank \<Rightarrow> currency_config \<Rightarrow> string \<Rightarrow> string \<Rightarrow> string \<Rightarrow> 'w \<Rightarrow> (currency_failure + json list) \<times> 'w" where
  "nbu_request b cf code from until w =
     (case build_query code from until of
        Inl e \<Rightarrow> (Inl e, w)
      | Inr q \<Rightarrow> request_loop b q (nat (max 1 (nbu_retries cf))) 1 w)"

definition read_row :: "json \<Rightarrow> currency_failure + nbu_rate_row" where
  \<comment> \<open>the fields the mapper reads; a row that lacks them makes it throw\<close>
  "read_row j =
     (if \<not> is_row j then Inl Bad_Row
      else case j of
             J_object f \<Rightarrow> Inr \<lparr>exchangedate = the (json_string (js_get f ''exchangedate'')),
               cc = the (json_string (js_get f ''cc'')), nbu_rate = the (json_number (js_get f ''rate'')),
               nbu_units = the (json_number (js_get f ''units'')),
               rate_per_unit = the (json_number (js_get f ''rate_per_unit''))\<rparr>
           | _ \<Rightarrow> Inl Bad_Row)"

definition to_rate :: "string \<Rightarrow> json \<Rightarrow> currency_failure + currency_rate_input" where
  "to_rate code j =
     (case read_row j of
        Inl e \<Rightarrow> Inl e
      | Inr row \<Rightarrow>
          (case normalize_row row of
             Inl e \<Rightarrow> Inl (Helper e)
           | Inr rate \<Rightarrow> if rate_code rate \<noteq> code then Inl (Wrong_Currency (rate_code rate) code) else Inr rate))"

definition fetch_range ::
  "'w bank \<Rightarrow> currency_config \<Rightarrow> string \<Rightarrow> string \<Rightarrow> string \<Rightarrow> 'w \<Rightarrow> (currency_failure + currency_rate_input list) \<times> 'w" where
  "fetch_range b cf code from until w =
     (let wanted = normal_code code
      in case nbu_request b cf wanted from until w of
           (Inl e, w') \<Rightarrow> (Inl e, w')
         | (Inr rows, w') \<Rightarrow> (traverse (to_rate wanted) rows, w'))"

section \<open>The sync\<close>

record sync_request =
  sync_codes :: "string list option"
  sync_from :: "string option"
  sync_to :: "string option"
  dry_run :: bool

record sync_report =
  report_codes :: "string list"
  report_from :: string
  report_to :: string
  report_fetched :: nat
  report_written :: nat

datatype sync_metric = Sync_Success | Sync_Failed

definition resolve_codes :: "rate_db \<Rightarrow> currency_config \<Rightarrow> string list option \<Rightarrow> currency_failure + string list" where
  "resolve_codes db cf requested =
     (let wanted = wanted_codes (case requested of None \<Rightarrow> rate_codes cf | Some cs \<Rightarrow> cs)
      in if wanted = [] then Inl No_Codes
         else let by_code = js_index currency_code (find_by_codes db wanted);
                  unknown = filter (\<lambda>c. js_get by_code c = None) wanted
              in if unknown \<noteq> [] then Inl (Unknown_Codes unknown)
                 else let base = filter (\<lambda>c. case js_get by_code c of None \<Rightarrow> False | Some r \<Rightarrow> is_base r) wanted
                      in if base \<noteq> [] then Inl (Base_Codes base) else Inr wanted)"

definition window_start :: "int \<Rightarrow> currency_config \<Rightarrow> currency_failure + string" where
  "window_start now cf =
     (case shift_days (today_at now) (- (max 1 (sync_window_days cf) - 1)) of
        Inl e \<Rightarrow> Inl (Helper e) | Inr d \<Rightarrow> Inr d)"

fun fetch_chunks ::
  "'w bank \<Rightarrow> currency_config \<Rightarrow> string \<Rightarrow> (string \<times> string) list \<Rightarrow> 'w
    \<Rightarrow> (currency_failure + currency_rate_input list) \<times> 'w" where
  "fetch_chunks b cf code [] w = (Inr [], w)"
| "fetch_chunks b cf code ((from, until) # chunks) w =
     (case fetch_range b cf code from until w of
        (Inl e, w') \<Rightarrow> (Inl e, w')
      | (Inr rs, w') \<Rightarrow>
          (case fetch_chunks b cf code chunks w' of
             (Inl e, w'') \<Rightarrow> (Inl e, w'')
           | (Inr rest, w'') \<Rightarrow> (Inr (rs @ rest), w'')))"

definition fetch_code ::
  "'w bank \<Rightarrow> currency_config \<Rightarrow> string \<Rightarrow> (string \<times> string) list \<Rightarrow> 'w
    \<Rightarrow> (currency_failure + currency_rate_input list) \<times> 'w" where
  "fetch_code b cf code chunks w =
     (case fetch_chunks b cf code chunks w of
        (Inl e, w') \<Rightarrow> (Inl e, w')
      | (Inr collected, w') \<Rightarrow>
          (case fill_gaps collected of Inl e \<Rightarrow> (Inl (Helper e), w') | Inr filled \<Rightarrow> (Inr filled, w')))"

fun run_codes ::
  "'w bank \<Rightarrow> currency_config \<Rightarrow> bool \<Rightarrow> (string \<times> string) list \<Rightarrow> string list \<Rightarrow> nat \<Rightarrow> nat \<Rightarrow> 'w \<times> rate_db
    \<Rightarrow> (currency_failure + nat \<times> nat) \<times> 'w \<times> rate_db" where
  \<comment> \<open>the loop over the codes, with the rows fetched and written so far\<close>
  "run_codes b cf dry chunks [] fetched written (w, db) = (Inr (fetched, written), w, db)"
| "run_codes b cf dry chunks (code # codes) fetched written (w, db) =
     (case fetch_code b cf code chunks w of
        (Inl e, w') \<Rightarrow> (Inl e, w', db)
      | (Inr rs, w') \<Rightarrow>
          if \<not> dry \<and> rs \<noteq> [] then
            (case upsert_rates rs db of
               (Inl e, db') \<Rightarrow> (Inl e, w', db')
             | (Inr n, db') \<Rightarrow> run_codes b cf dry chunks codes (fetched + length rs) (written + n) (w', db'))
          else run_codes b cf dry chunks codes (fetched + length rs) written (w', db))"

definition run_sync ::
  "'w bank \<Rightarrow> currency_config \<Rightarrow> string list \<Rightarrow> string \<Rightarrow> string \<Rightarrow> bool \<Rightarrow> 'w \<times> rate_db
    \<Rightarrow> ((currency_failure + sync_report) \<times> 'w \<times> rate_db) option" where
  "run_sync b cf codes from until dry s =
     Option.bind (split_by_year from until) (\<lambda>chunks. Some (case chunks of
        Inl e \<Rightarrow> (Inl (Helper e), s)
      | Inr cs \<Rightarrow>
          (case run_codes b cf dry cs codes 0 0 s of
             (Inl e, s') \<Rightarrow> (Inl e, s')
           | (Inr (fetched, written), s') \<Rightarrow>
               (Inr \<lparr>report_codes = codes, report_from = from, report_to = until, report_fetched = fetched,
                     report_written = written\<rparr>, s'))))"

definition sync_rates ::
  "'w bank \<Rightarrow> currency_config \<Rightarrow> int \<Rightarrow> sync_request \<Rightarrow> 'w \<times> rate_db
    \<Rightarrow> ((currency_failure + sync_report) \<times> sync_metric list \<times> 'w \<times> rate_db) option" where
  \<comment> \<open>the report or the error, what the metrics counted and the new state\<close>
  "sync_rates b cf now rq s =
     (case resolve_codes (snd s) cf (sync_codes rq) of
        Inl e \<Rightarrow> Some (Inl e, [], s)
      | Inr codes \<Rightarrow>
          (case (case sync_to rq of Some d \<Rightarrow> Inr d
                 | None \<Rightarrow> (case shift_days (today_at now) 1 of Inl e \<Rightarrow> Inl (Helper e) | Inr d \<Rightarrow> Inr d)) of
             Inl e \<Rightarrow> Some (Inl e, [], s)
           | Inr until \<Rightarrow>
               (case (case sync_from rq of Some d \<Rightarrow> Inr d | None \<Rightarrow> window_start now cf) of
                  Inl e \<Rightarrow> Some (Inl e, [], s)
                | Inr from \<Rightarrow>
                    if until < from then Some (Inl (Inverted from until), [], s)
                    else Option.bind (run_sync b cf codes from until (dry_run rq) s) (\<lambda>out. Some (case out of
                        (Inl e, s') \<Rightarrow> (Inl e, [Sync_Failed], s')
                      | (Inr report, s') \<Rightarrow>
                          if report_fetched report = 0 then (Inl Unavailable, [Sync_Failed], s')
                          else (Inr report, [Sync_Success], s'))))))"

end
