(* ===== verification/Currency_Facts.thy ===== *)
theory Currency_Facts
  imports Currency_Utils
begin

text \<open>
  The day arithmetic of the rate history: a range is split into the calendar years it spans and the
  loop returns, and a fetched series becomes one rate per day, each the last one published by then.
\<close>

section \<open>Splitting a range by year\<close>

definition year_end :: "int \<Rightarrow> int" where
  \<comment> \<open>specification: the last day of a day's calendar year\<close>
  "year_end n = day_from_year (year_from_day n + 1) - 1"

lemma year_end_ge: "n \<le> year_end n"
  using year_from_day_bounds(2) [of n] by (simp add: year_end_def)

lemma year_between: "n \<le> m \<Longrightarrow> m \<le> year_end n \<Longrightarrow> year_from_day m = year_from_day n"
  using year_from_day_bounds(1) [of n] by (intro year_from_day_unique) (auto simp: year_end_def)

lemma year_end_civil: "civil_of_days (year_end n) = (year_from_day n, 12, 31)"
proof -
  let ?y = "year_from_day n"
  have "days_of_civil ?y 12 31 = year_end n"
    using day_from_year_step [of ?y] by (cases "leap_year ?y") (simp_all add: days_of_civil_def month_start_def year_end_def)
  moreover have "civil_of_days (days_of_civil ?y 12 31) = (?y, 12, 31)"
    by (rule civil_of_days_of_civil) (auto simp: month_start_def)
  ultimately show ?thesis by simp
qed

lemma year_end_four_digit:
  assumes "four_digit_day n"
  shows "four_digit_day (year_end n)"
  using assms year_between [of n "year_end n"] year_end_ge [of n] by (simp add: four_digit_year)

lemma year_end_string:
  assumes "four_digit_day n"
  shows "take 4 (iso_string n) @ ''-12-31'' = iso_string (year_end n)"
proof -
  obtain y m d where c: "civil_of_days n = (y, m, d)" by (cases "civil_of_days n")
  then have y: "y = year_from_day n" by (rule civil_of_days_bounds(5))
  have "pad_digits 2 (nat 12) = ''12''" "pad_digits 2 (nat 31) = ''31''" by code_simp+
  then show ?thesis
    using iso_string_four_digit [OF assms c] iso_string_four_digit [OF year_end_four_digit [OF assms] year_end_civil]
    by (simp add: y)
qed

lemma shift_days_iso:
  assumes "four_digit_day n" and "four_digit_day (n + k)"
  shows "shift_days (iso_string n) k = Inr (iso_string (n + k))"
  by (simp add: shift_days_def parse_currency_day_def parse_iso_string [OF assms(1)] iso_day_four_digit [OF assms(2)])

lemma iso_string_le:
  "four_digit_day m \<Longrightarrow> four_digit_day n \<Longrightarrow> iso_string m \<le> iso_string n \<longleftrightarrow> m \<le> n"
  by (simp add: iso_string_less linorder_not_less [symmetric])

function year_ranges :: "int \<Rightarrow> int \<Rightarrow> (int \<times> int) list" where
  \<comment> \<open>specification: the days from one to another, year by year\<close>
  "year_ranges a b = (if b < a then [] else (a, min (year_end a) b) # year_ranges (min (year_end a) b + 1) b)"
  by auto
termination
proof (relation "measure (\<lambda>(a, b). nat (b + 1 - a))")
  fix a b :: int
  assume "\<not> b < a"
  then show "((min (year_end a) b + 1, b), (a, b)) \<in> measure (\<lambda>(a, b). nat (b + 1 - a))"
    using year_end_ge [of a] by (auto simp: min_def)
qed simp

declare year_ranges.simps [simp del]

lemma four_digit_between: "four_digit_day a \<Longrightarrow> four_digit_day b \<Longrightarrow> a \<le> n \<Longrightarrow> n \<le> b \<Longrightarrow> four_digit_day n"
  by (auto simp: four_digit_day_def)

lemma split_by_year_ranges:
  assumes "four_digit_day a" and "four_digit_day (b + 1)" and "four_digit_day b"
  shows "split_by_year (iso_string a) (iso_string b) = Some (Inr (map (map_prod iso_string iso_string) (year_ranges a b)))"
  using assms
proof (induction a b rule: year_ranges.induct)
  case (1 a b)
  note b = 1(4)
  show ?case
  proof (cases "b < a")
    case True
    then show ?thesis
      using 1(2) b by (subst split_by_year.simps) (simp add: iso_string_le year_ranges.simps [of a])
  next
    case False
    let ?e = "min (year_end a) b"
    have e: "four_digit_day ?e" using year_end_four_digit [OF 1(2)] b by (simp add: min_def)
    have "a \<le> ?e + 1" "?e + 1 \<le> b + 1" using False year_end_ge [of a] by auto
    then have e1: "four_digit_day (?e + 1)" using four_digit_between 1(2,3) by blast
    have chunk_end: "(if iso_string (year_end a) < iso_string b then iso_string (year_end a) else iso_string b) = iso_string ?e"
      using iso_string_less [OF year_end_four_digit [OF 1(2)] b] by (auto simp: min_def)
    have "split_by_year (iso_string (?e + 1)) (iso_string b) = Some (Inr (map (map_prod iso_string iso_string) (year_ranges (?e + 1) b)))"
      using 1(1) [OF False e1 1(3) b] .
    then show ?thesis
      using False 1(2) b
      by (subst split_by_year.simps)
        (simp add: iso_string_le year_end_string Let_def chunk_end shift_days_iso [OF e e1] year_ranges.simps [of a b])
  qed
qed

lemma year_ranges_cover: "concat (map (\<lambda>(x, y). [x..y]) (year_ranges a b)) = [a..b]"
proof (induction a b rule: year_ranges.induct)
  case (1 a b)
  let ?e = "min (year_end a) b"
  show ?case
  proof (cases "b < a")
    case True
    then show ?thesis by (simp add: year_ranges.simps [of a])
  next
    case False
    have "[a..b] = [a..?e] @ [?e + 1..b]"
      using False year_end_ge [of a] upto_split1 [of a ?e b] upto_rec2 [of a ?e]
      by (metis (no_types) add.commute add_diff_cancel_left' append_assoc append_Cons append_Nil le_cases
          linorder_not_le min.cobounded2 min_def upto_split2)
    then show ?thesis using 1 [OF False] False by (subst year_ranges.simps) simp
  qed
qed

lemma year_ranges_years: "(x, y) \<in> set (year_ranges a b) \<Longrightarrow> x \<le> y \<and> year_from_day x = year_from_day y"
proof (induction a b rule: year_ranges.induct)
  case (1 a b)
  show ?case
  proof (cases "b < a")
    case True
    then show ?thesis using 1(2) by (simp add: year_ranges.simps [of a])
  next
    case False
    then show ?thesis
      using 1(1) [OF False] 1(2) year_end_ge [of a] year_between [of a "min (year_end a) b"]
      by (subst (asm) year_ranges.simps) auto
  qed
qed

lemma year_ranges_distinct: "distinct (map (year_from_day \<circ> fst) (year_ranges a b)) \<and> (\<forall>(x, y)\<in>set (year_ranges a b). a \<le> x)"
proof (induction a b rule: year_ranges.induct)
  case (1 a b)
  show ?case
  proof (cases "b < a")
    case True
    then show ?thesis by (simp add: year_ranges.simps [of a])
  next
    case False
    let ?e = "min (year_end a) b"
    note ih = 1 [OF False]
    have "year_from_day a \<noteq> year_from_day x" if "(x, y) \<in> set (year_ranges (?e + 1) b)" for x y
    proof -
      have x: "?e + 1 \<le> x" using ih that by auto
      have "x \<in> set [x..y]" using year_ranges_years [OF that] by simp
      then have "x \<in> set (concat (map (\<lambda>(x, y). [x..y]) (year_ranges (?e + 1) b)))" using that by force
      then have "x \<le> b" by (simp only: year_ranges_cover) simp
      then have "year_end a + 1 \<le> x" using x by (auto simp: min_def split: if_splits)
      then have "year_from_day a + 1 \<le> year_from_day x" by (simp add: le_year_from_day year_end_def)
      then show ?thesis by simp
    qed
    moreover have "year_ranges a b = (a, ?e) # year_ranges (?e + 1) b"
      using False by (subst year_ranges.simps) simp
    moreover have "a \<le> x" if "(x, y) \<in> set (year_ranges (?e + 1) b)" for x y
    proof -
      have "?e + 1 \<le> x" using ih that by blast
      then show ?thesis using False year_end_ge [of a] by linarith
    qed
    ultimately show ?thesis using ih by (auto; blast)
  qed
qed

text \<open>
  C34: the split of a range returns and is a partition by calendar year.  For calendar days of the
  years 0 to 9999, but for a range that ends on the very last of them, the loop ends without throwing
  and its chunks are, in order and without overlap, exactly the days of the range; each chunk lies in
  one calendar year and no year has two chunks.  An inverted range has none.
\<close>

theorem split_by_year_partitions:
  assumes "four_digit_day a" and "four_digit_day b" and "four_digit_day (b + 1)"
  shows "\<exists>chunks. split_by_year (iso_string a) (iso_string b) = Some (Inr (map (map_prod iso_string iso_string) chunks))
    \<and> concat (map (\<lambda>(x, y). [x..y]) chunks) = [a..b]
    \<and> (\<forall>(x, y)\<in>set chunks. x \<le> y \<and> year_from_day x = year_from_day y)
    \<and> distinct (map (year_from_day \<circ> fst) chunks)"
  using split_by_year_ranges [OF assms(1,3,2)] year_ranges_cover year_ranges_years year_ranges_distinct
  by (intro exI [of _ "year_ranges a b"]) auto

text \<open>A range over three years: New Year's Eve 2019 to New Year's Day 2021.\<close>

lemma split_by_year_partitions_witness:
  "\<exists>chunks. split_by_year ''2019-12-31'' ''2021-01-01'' = Some (Inr (map (map_prod iso_string iso_string) chunks))
    \<and> concat (map (\<lambda>(x, y). [x..y]) chunks) = [18261..18628]"
proof -
  have "iso_string 18261 = ''2019-12-31''" "iso_string 18628 = ''2021-01-01''" by code_simp+
  moreover have "four_digit_day 18261" "four_digit_day 18628" "four_digit_day (18628 + 1)" by (simp_all add: four_digit_day_def)
  ultimately show ?thesis using split_by_year_partitions [of 18261 18628] by auto
qed

section \<open>Filling the unpublished days\<close>

definition rate_day :: "currency_rate_input \<Rightarrow> int" where
  "rate_day r = (case parse_day (effective_on r) of None \<Rightarrow> 0 | Some d \<Rightarrow> d)"

definition dated :: "currency_rate_input \<Rightarrow> bool" where
  \<comment> \<open>its day is a calendar day of the years 0 to 9999\<close>
  "dated r \<longleftrightarrow> (\<exists>d. four_digit_day d \<and> effective_on r = iso_string d)"

lemma datedD:
  assumes "dated r"
  shows "effective_on r = iso_string (rate_day r)" and "four_digit_day (rate_day r)"
  using assms parse_iso_string by (auto simp: dated_def rate_day_def)

definition in_force :: "currency_rate_input set \<Rightarrow> int \<Rightarrow> currency_rate_input \<Rightarrow> bool" where
  \<comment> \<open>specification: the last rate of a series published by a day\<close>
  "in_force rates k s \<longleftrightarrow> s \<in> rates \<and> rate_day s \<le> k \<and> (\<forall>s'\<in>rates. rate_day s' \<le> k \<longrightarrow> rate_day s' \<le> rate_day s)"

lemma traverse_map: "(\<And>x. x \<in> set xs \<Longrightarrow> f x = Inr (g x)) \<Longrightarrow> traverse f xs = Inr (map g xs)"
  by (induction xs) simp_all

lemma map_upt_upto: "map (\<lambda>i. d + (int i + 1)) [0..<nat n] = [d + 1..d + n]"
  by (rule nth_equalityI) auto

lemma bridge_dated:
  assumes "dated p" and "four_digit_day e" and "rate_day p < e"
  shows "bridge p (iso_string e) = Inr (map (\<lambda>k. p\<lparr>effective_on := iso_string k\<rparr>) [rate_day p + 1..e - 1])"
proof -
  let ?d = "rate_day p"
  note p = datedD [OF assms(1)]
  have days: "days_spanned (effective_on p) (iso_string e) = Inr (e - ?d + 1)"
    by (simp add: days_spanned_def parse_currency_day_def p(1) parse_iso_string [OF p(2)] parse_iso_string [OF assms(2)])
  have shift: "shift_days (effective_on p) (int i + 1) = Inr (iso_string (?d + (int i + 1)))"
    if "i \<in> set [0..<nat (e - ?d - 1)]" for i
  proof -
    have "?d + (int i + 1) \<le> e" using that by auto
    then have "four_digit_day (?d + (int i + 1))" using four_digit_between [OF p(2) assms(2)] by simp
    then show ?thesis using shift_days_iso [OF p(2)] p(1) by simp
  qed
  have "bridge p (iso_string e) = Inr (map (\<lambda>i. p\<lparr>effective_on := iso_string (?d + (int i + 1))\<rparr>) [0..<nat (e - ?d - 1)])"
    using assms(3) shift by (auto simp: bridge_def days Let_def intro!: traverse_map)
  also have "map (\<lambda>i. p\<lparr>effective_on := iso_string (?d + (int i + 1))\<rparr>) [0..<nat (e - ?d - 1)]
      = map (\<lambda>k. p\<lparr>effective_on := iso_string k\<rparr>) (map (\<lambda>i. ?d + (int i + 1)) [0..<nat (e - ?d - 1)])"
    by simp
  also have "map (\<lambda>i. ?d + (int i + 1)) [0..<nat (e - ?d - 1)] = [?d + 1..e - 1]"
    using map_upt_upto [of ?d "e - ?d - 1"] by simp
  finally show ?thesis .
qed

lemma fill_from_sorted:
  assumes "sorted_wrt (\<lambda>a b. rate_day a < rate_day b) (p # rs)" and "\<forall>r\<in>set (p # rs). dated r"
  shows "\<exists>rest. fill_from (Some p) rs = Inr rest
    \<and> map effective_on rest = map iso_string [rate_day p + 1..rate_day (last (p # rs))]
    \<and> (\<forall>x\<in>set rest. \<exists>k s. in_force (set (p # rs)) k s \<and> rate_day p < k \<and> x = s\<lparr>effective_on := iso_string k\<rparr>)"
  using assms
proof (induction rs arbitrary: p)
  case Nil
  then show ?case by simp
next
  case (Cons r rs)
  have lt: "rate_day p < rate_day r" "\<forall>s\<in>set rs. rate_day r < rate_day s" using Cons.prems(1) by auto
  have d: "dated p" "dated r" using Cons.prems(2) by auto
  note r = datedD [OF d(2)]
  obtain rest where rest: "fill_from (Some r) rs = Inr rest"
    "map effective_on rest = map iso_string [rate_day r + 1..rate_day (last (r # rs))]"
    "\<forall>x\<in>set rest. \<exists>k s. in_force (set (r # rs)) k s \<and> rate_day r < k \<and> x = s\<lparr>effective_on := iso_string k\<rparr>"
    using Cons.IH [of r] Cons.prems by auto
  let ?carried = "map (\<lambda>k. p\<lparr>effective_on := iso_string k\<rparr>) [rate_day p + 1..rate_day r - 1]"
  have run: "fill_from (Some p) (r # rs) = Inr (?carried @ r # rest)"
    using bridge_dated [OF d(1) r(2) lt(1)] rest(1) by (simp add: r(1) [symmetric])
  have last: "rate_day r \<le> rate_day (last (r # rs))"
    using lt(2) last_in_set [of rs] by (cases "rs = []") (auto intro: less_imp_le)
  have "[rate_day p + 1..rate_day (last (r # rs))]
      = [rate_day p + 1..rate_day r - 1] @ rate_day r # [rate_day r + 1..rate_day (last (r # rs))]"
    using lt(1) last by (intro upto_split3) simp_all
  then have days: "map effective_on (?carried @ r # rest) = map iso_string [rate_day p + 1..rate_day (last (p # r # rs))]"
    using rest(2) r(1) by (simp add: comp_def del: last.simps) simp
  have old: "in_force (set (p # r # rs)) k s" if "in_force (set (r # rs)) k s" for k s
    using that lt by (auto simp: in_force_def)
  have "\<exists>k s. in_force (set (p # r # rs)) k s \<and> rate_day p < k \<and> x = s\<lparr>effective_on := iso_string k\<rparr>"
    if x: "x \<in> set (?carried @ r # rest)" for x
  proof -
    consider k where "x = p\<lparr>effective_on := iso_string k\<rparr>" "rate_day p < k" "k < rate_day r" | "x = r" | "x \<in> set rest"
      using x by auto
    then show ?thesis
    proof cases
      case 1
      then have "in_force (set (p # r # rs)) k p" using lt by (auto simp: in_force_def)
      then show ?thesis using 1 by blast
    next
      case 2
      have "in_force (set (p # r # rs)) (rate_day r) r" using lt by (auto simp: in_force_def)
      moreover have "x = r\<lparr>effective_on := iso_string (rate_day r)\<rparr>" using 2 r(1) by simp
      ultimately show ?thesis using lt(1) by blast
    next
      case 3
      then show ?thesis using rest(3) old lt(1) by (metis order.strict_trans)
    qed
  qed
  then show ?case using run days by blast
qed

lemma fill_from_keeps: "fill_from previous rs = Inr rest \<Longrightarrow> set rs \<subseteq> set rest"
  by (induction previous rs arbitrary: rest rule: fill_from.induct) (fastforce split: sum.splits option.splits)+

lemma day_insert_sorted:
  assumes "sorted_wrt (\<lambda>a b. effective_on a < effective_on b) ys" and "effective_on x \<notin> effective_on ` set ys"
  shows "sorted_wrt (\<lambda>a b. effective_on a < effective_on b) (js_insert day_compare x ys)"
  using assms
proof (induction ys)
  case Nil
  then show ?case by simp
next
  case (Cons y ys)
  consider "effective_on x < effective_on y" | "effective_on y < effective_on x"
    using Cons.prems(2) by (auto simp: neq_iff)
  then show ?case
  proof cases
    case 1
    then show ?thesis using Cons.prems(1) by (auto simp: day_compare_def intro: order.strict_trans)
  next
    case 2
    then show ?thesis using Cons by (auto simp: day_compare_def set_js_insert)
  qed
qed

lemma day_sort_sorted:
  assumes "distinct (map effective_on rates)"
  shows "sorted_wrt (\<lambda>a b. effective_on a < effective_on b) (js_sort day_compare rates)"
proof -
  have "sorted_wrt (\<lambda>a b. effective_on a < effective_on b) (foldl (\<lambda>acc x. js_insert day_compare x acc) acc rates)"
    if "sorted_wrt (\<lambda>a b. effective_on a < effective_on b) acc" "distinct (map effective_on (acc @ rates))" for acc
    using that
  proof (induction rates arbitrary: acc)
    case Nil
    then show ?case by simp
  next
    case (Cons r rates)
    have "mset (js_insert day_compare r acc @ rates) = mset (acc @ r # rates)" by (simp add: mset_js_insert)
    then have "distinct (map effective_on (js_insert day_compare r acc @ rates))"
      using Cons.prems(2) by (metis mset_eq_imp_distinct_iff mset_map)
    then show ?case using Cons.IH [of "js_insert day_compare r acc"] Cons.prems by (simp add: day_insert_sorted)
  qed
  from this [of "[]"] show ?thesis using assms by (simp add: js_sort_def)
qed

lemma last_rate_Max:
  assumes "sorted_wrt (\<lambda>a b. rate_day a < rate_day b) (p # rs)"
  shows "rate_day p = Min (rate_day ` set (p # rs))" and "rate_day (last (p # rs)) = Max (rate_day ` set (p # rs))"
proof -
  show "rate_day p = Min (rate_day ` set (p # rs))" using assms by (intro Min_eqI [symmetric]) (auto intro: less_imp_le)
  have "rate_day x \<le> rate_day (last (p # rs))" if "x \<in> set (p # rs)" for x
    using assms that by (induction rs arbitrary: p x) (auto split: if_splits intro: less_imp_le)
  then show "rate_day (last (p # rs)) = Max (rate_day ` set (p # rs))"
    by (intro Max_eqI [symmetric]) (use last_in_set [of "p # rs"] in auto)
qed

lemma fill_gaps_spec:
  assumes "rates \<noteq> []" and "\<forall>r\<in>set rates. dated r" and "distinct (map effective_on rates)"
    and "\<forall>r\<in>set rates. \<forall>s\<in>set rates. rate_code r = rate_code s"
  shows "\<exists>filled. fill_gaps rates = Inr filled
    \<and> map effective_on filled = map iso_string [Min (rate_day ` set rates)..Max (rate_day ` set rates)]
    \<and> (\<forall>x\<in>set filled. \<exists>k s. in_force (set rates) k s \<and> x = s\<lparr>effective_on := iso_string k\<rparr>)
    \<and> set rates \<subseteq> set filled"
proof -
  let ?sorted = "js_sort day_compare rates"
  obtain p rs where ps: "?sorted = p # rs" using assms(1) by (cases ?sorted) auto
  then have set: "set (p # rs) = set rates" by (metis set_js_sort)
  have "sorted_wrt (\<lambda>a b. effective_on a < effective_on b) (p # rs)" using day_sort_sorted [OF assms(3)] ps by simp
  then have sorted: "sorted_wrt (\<lambda>a b. rate_day a < rate_day b) (p # rs)"
  proof (rule sorted_wrt_mono_rel [rotated])
    fix a b
    assume "a \<in> set (p # rs)" "b \<in> set (p # rs)" "effective_on a < effective_on b"
    then show "rate_day a < rate_day b"
      using assms(2) set datedD iso_string_less by metis
  qed
  have dated: "\<forall>r\<in>set (p # rs). dated r" using assms(2) set by metis
  obtain rest where rest: "fill_from (Some p) rs = Inr rest"
    "map effective_on rest = map iso_string [rate_day p + 1..rate_day (last (p # rs))]"
    "\<forall>x\<in>set rest. \<exists>k s. in_force (set (p # rs)) k s \<and> rate_day p < k \<and> x = s\<lparr>effective_on := iso_string k\<rparr>"
    using fill_from_sorted [OF sorted dated] by blast
  have one: "length (js_set (map rate_code rates)) \<le> 1"
  proof -
    have "p \<in> set rates" using set by auto
    then have "rate_code r = rate_code p" if "r \<in> set rates" for r using assms(4) that by blast
    then have "set (js_set (map rate_code rates)) \<subseteq> {rate_code p}" by auto
    then have "card (set (js_set (map rate_code rates))) \<le> card {rate_code p}" by (intro card_mono) auto
    then show ?thesis by (simp only: distinct_card [OF distinct_js_set]) simp
  qed
  have run: "fill_gaps rates = Inr (p # rest)"
  proof (cases "length rates < 2")
    case True
    then have "length (p # rs) < 2" using ps length_js_sort by metis
    moreover from True assms(1) obtain r where "rates = [r]" by (cases rates) auto
    ultimately show ?thesis using rest(1) set True by (auto simp: fill_gaps_def)
  next
    case False
    then show ?thesis using one ps rest(1) by (simp add: fill_gaps_def Let_def)
  qed
  have p: "effective_on p = iso_string (rate_day p)" using datedD(1) dated by simp
  have "rate_day p \<le> rate_day (last (p # rs))" using last_rate_Max [OF sorted] by simp
  then have days: "map effective_on (p # rest) = map iso_string [rate_day p..rate_day (last (p # rs))]"
    using rest(2) p by (simp add: upto_rec1)
  have "in_force (set (p # rs)) (rate_day p) p" using sorted by (auto simp: in_force_def)
  moreover have "p = p\<lparr>effective_on := iso_string (rate_day p)\<rparr>" using p by simp
  ultimately have own: "\<exists>k s. in_force (set rates) k s \<and> p = s\<lparr>effective_on := iso_string k\<rparr>"
    unfolding set by blast
  have carried: "\<exists>k s. in_force (set rates) k s \<and> x = s\<lparr>effective_on := iso_string k\<rparr>" if "x \<in> set rest" for x
    using rest(3) that unfolding set by blast
  have "set rs \<subseteq> set rest" using fill_from_keeps [OF rest(1)] .
  then have "set rates \<subseteq> set (p # rest)" unfolding set [symmetric] by auto
  moreover have "\<forall>x\<in>set (p # rest). \<exists>k s. in_force (set rates) k s \<and> x = s\<lparr>effective_on := iso_string k\<rparr>"
    using own carried by simp
  ultimately show ?thesis
    using run days unfolding last_rate_Max [OF sorted] set by blast
qed

text \<open>
  C35: the filled series has one rate for every day.  Given rates of a single currency, in any order,
  on different calendar days, the result has exactly one entry for each day from the first to the
  last, ascending; each entry is the last rate published by its day, with its day in place of the
  published one, and every rate given is still there.
\<close>

theorem fill_gaps_complete:
  assumes "rates \<noteq> []" and "\<forall>r\<in>set rates. dated r" and "distinct (map effective_on rates)"
    and "\<forall>r\<in>set rates. \<forall>s\<in>set rates. rate_code r = rate_code s"
  shows "\<exists>filled. fill_gaps rates = Inr filled
    \<and> map effective_on filled = map iso_string [Min (rate_day ` set rates)..Max (rate_day ` set rates)]
    \<and> (\<forall>x\<in>set filled. \<exists>k s. in_force (set rates) k s \<and> x = s\<lparr>effective_on := iso_string k\<rparr>)
    \<and> set rates \<subseteq> set filled"
  using fill_gaps_spec [OF assms] .

text \<open>Two dollar rates, given late first: the weekend between them is filled.\<close>

lemma fill_gaps_complete_witness:
  "\<exists>filled. fill_gaps [\<lparr>rate_code = ''USD'', rate_value = 28, effective_on = ''2021-01-04''\<rparr>,
      \<lparr>rate_code = ''USD'', rate_value = 27, effective_on = ''2021-01-01''\<rparr>] = Inr filled
    \<and> map effective_on filled = [''2021-01-01'', ''2021-01-02'', ''2021-01-03'', ''2021-01-04'']"
proof -
  let ?a = "\<lparr>rate_code = ''USD'', rate_value = 28, effective_on = ''2021-01-04''\<rparr>"
  let ?b = "\<lparr>rate_code = ''USD'', rate_value = 27, effective_on = ''2021-01-01''\<rparr>"
  have iso: "iso_string 18628 = ''2021-01-01''" "iso_string 18629 = ''2021-01-02''" "iso_string 18630 = ''2021-01-03''"
    "iso_string 18631 = ''2021-01-04''" by code_simp+
  have dated: "\<forall>r\<in>set [?a, ?b]. dated r"
    using iso by (auto simp: dated_def four_digit_day_def intro: exI [of _ 18628] exI [of _ 18631])
  have parse: "parse_day ''2021-01-04'' = Some 18631" "parse_day ''2021-01-01'' = Some 18628" by code_simp+
  have days: "rate_day ` set [?a, ?b] = {18631, 18628}" by (simp add: rate_day_def parse)
  have upto: "[18628..18631] = [18628, 18629, 18630, 18631::int]" by (simp add: upto_rec1)
  have "\<forall>r\<in>set [?a, ?b]. \<forall>s\<in>set [?a, ?b]. rate_code r = rate_code s" by simp
  moreover have "distinct (map effective_on [?a, ?b])" by simp
  ultimately obtain filled where "fill_gaps [?a, ?b] = Inr filled"
    "map effective_on filled = map iso_string [Min (rate_day ` set [?a, ?b])..Max (rate_day ` set [?a, ?b])]"
    using fill_gaps_complete [of "[?a, ?b]", OF _ dated] by blast
  then have "fill_gaps [?a, ?b] = Inr filled \<and> map effective_on filled = map iso_string [18628..18631]"
    unfolding days by simp
  then show ?thesis unfolding upto by (simp add: iso)
qed

end
