(* ===== verification/Currency_Conversion_Facts.thy ===== *)
theory Currency_Conversion_Facts
  imports Currency_Conversion
begin

text \<open>
  A batch conversion answers every request as a lone one would, with rates the database held no more
  than the memo's minute ago, whatever the memo keeps, drops or evicts on the way.
\<close>

section \<open>Codes and keys\<close>

lemma dropWhile_idem [simp]: "dropWhile P (dropWhile P xs) = dropWhile P xs"
  by (induction xs) auto

lemma js_trim_idem [simp]: "js_trim (js_trim s) = js_trim s"
proof -
  have ends: "dropWhile P (rev (dropWhile P (rev (dropWhile P s)))) = rev (dropWhile P (rev (dropWhile P s)))"
    for P :: "char \<Rightarrow> bool"
  proof (cases "dropWhile P s")
    case Nil
    show ?thesis unfolding Nil by simp
  next
    case d: (Cons x xs)
    then have x: "\<not> P x" by (metis dropWhile_eq_Cons_conv)
    have "dropWhile P (rev xs @ [x]) = dropWhile P (rev xs) @ [x]" using x by (simp add: dropWhile_append3)
    then have "rev (dropWhile P (rev (dropWhile P s))) = x # rev (dropWhile P (rev xs))" using d by simp
    then show ?thesis using x by simp
  qed
  show ?thesis unfolding js_trim_def by (simp add: ends [of js_space])
qed

lemma upper_char_idem [simp]: "upper_char (upper_char c) = upper_char c"
  by (auto simp: upper_char_def Let_def)

lemma js_space_upper [simp]: "js_space (upper_char c) = js_space c"
  by (auto simp: js_space_def upper_char_def Let_def)

lemma js_trim_map_upper: "js_trim (map upper_char s) = map upper_char (js_trim s)"
proof -
  have "js_space \<circ> upper_char = js_space" by (rule ext) simp
  then show ?thesis by (simp add: js_trim_def dropWhile_map rev_map)
qed

lemma normal_code_idem [simp]: "normal_code (normal_code s) = normal_code s"
  by (simp add: normal_code_def js_trim_map_upper)

definition plain :: "string \<Rightarrow> bool" where
  \<comment> \<open>a code without the separator of the keys\<close>
  "plain code \<longleftrightarrow> CHR ''|'' \<notin> set code"

lemma rate_key_inject:
  assumes "plain c" and "plain c'" and "rate_key c d = rate_key c' d'"
  shows "c = c'" and "d = d'"
proof -
  have "takeWhile (\<lambda>x. x \<noteq> CHR ''|'') (rate_key c d) = c" if "plain c" for c d
    using that unfolding plain_def rate_key_def by (induction c) auto
  then show "c = c'" using assms by metis
  then show "d = d'" using assms(3) by (simp add: rate_key_def)
qed

section \<open>The history of the database\<close>

definition rate_history :: "(int \<Rightarrow> rate_db) \<Rightarrow> bool" where
  \<comment> \<open>a rate published for a past day is never restated; codes are plain; stored rates are positive\<close>
  "rate_history db \<longleftrightarrow>
     (\<forall>t t' pair. t \<le> t' \<longrightarrow> immutable_probe t (probe_pair (db t) pair) \<longrightarrow> probe_pair (db t') pair = probe_pair (db t) pair)
     \<and> (\<forall>t. \<forall>c\<in>set (currencies (db t)). plain (currency_code c))
     \<and> (\<forall>t. \<forall>r\<in>set (rate_rows (db t)). row_rate r > 0)"

lemma history_settled:
  "rate_history db \<Longrightarrow> t \<le> t' \<Longrightarrow> immutable_probe t (probe_pair (db t) pair) \<Longrightarrow> probe_pair (db t') pair = probe_pair (db t) pair"
  unfolding rate_history_def by blast

lemma history_plain: "rate_history db \<Longrightarrow> c \<in> set (currencies (db t)) \<Longrightarrow> plain (currency_code c)"
  unfolding rate_history_def by blast

lemma latest_row_member: "latest_row rs = Some r \<Longrightarrow> r \<in> set rs"
  by (induction rs arbitrary: r) (auto split: option.splits if_splits)

lemma history_positive: "rate_history db \<Longrightarrow> probe_rate (probe_pair (db t) pair) = Some r \<Longrightarrow> r > 0"
  unfolding rate_history_def
  by (auto simp: probe_pair_def Let_def split: prod.splits dest!: latest_row_member bind_eq_Some_conv [THEN iffD1])

section \<open>The lookup\<close>

definition honest_lookup :: "(int \<Rightarrow> rate_db) \<Rightarrow> int \<Rightarrow> lookup_state \<Rightarrow> bool" where
  "honest_lookup db now l \<longleftrightarrow>
     (\<forall>m. cached_lookup l = Some m \<longrightarrow> (\<exists>t\<le>now. m = js_index currency_code (find_all (db t))))"

lemma lookup_all_honest:
  assumes "honest_lookup db now l" and "lookup_all now (db now) l = (m, l')"
  shows "honest_lookup db now l'" and "\<exists>t\<le>now. m = js_index currency_code (find_all (db t))"
  using assms by (auto simp: lookup_all_def honest_lookup_def Let_def split: option.splits if_splits)

lemma honest_lookup_mono: "honest_lookup db now l \<Longrightarrow> now \<le> now' \<Longrightarrow> honest_lookup db now' l"
  unfolding honest_lookup_def by (meson order_trans)

lemma set_find_all: "set (find_all db) = set (currencies db)"
  by (simp add: find_all_def base_first_def)

lemma known_code:
  assumes "m = js_index currency_code (find_all (db t))" and "js_get m c \<noteq> None"
  shows "\<exists>r\<in>set (currencies (db t)). currency_code r = c"
  using assms by (auto simp: js_get_index find_Some_iff set_find_all [symmetric] in_set_conv_nth) (metis length_rev nth_mem set_rev in_set_conv_nth)

lemma base_code_honest:
  assumes "honest_lookup db now l" and "base_code now (db now) l = (b, l')"
  shows "honest_lookup db now l'"
proof -
  obtain m l1 where m: "lookup_all now (db now) l = (m, l1)" by fastforce
  then show ?thesis
    using lookup_all_honest(1) [OF assms(1) m] assms(2) by (auto simp: base_code_def split: option.splits)
qed

lemma base_code_row:
  assumes "honest_lookup db now l" and "base_code now (db now) l = (Inr base, l')"
  shows "\<exists>t\<le>now. \<exists>c\<in>set (currencies (db t)). is_base c \<and> currency_code c = base"
proof -
  obtain m l1 where m: "lookup_all now (db now) l = (m, l1)" by fastforce
  then obtain c where c: "find is_base (map snd m) = Some c" "currency_code c = base" "l' = l1"
    using assms(2) by (auto simp: base_code_def split: option.splits)
  obtain t where t: "t \<le> now" "m = js_index currency_code (find_all (db t))" using lookup_all_honest(2) [OF assms(1) m] by blast
  have "c \<in> set (map snd m)" "is_base c" using c(1) by (auto simp: find_Some_iff)
  then have "c \<in> set (currencies (db t))" using t(2) js_index_value set_find_all by fastforce
  then show "\<exists>t\<le>now. \<exists>c\<in>set (currencies (db t)). is_base c \<and> currency_code c = base"
    using t(1) c(2) \<open>is_base c\<close> by blast
qed

section \<open>The memo\<close>

definition honest_entry :: "(int \<Rightarrow> rate_db) \<Rightarrow> int \<Rightarrow> string \<Rightarrow> memo_entry \<Rightarrow> bool" where
  \<comment> \<open>the entry holds what the database answered at some time, and expires a minute later or never\<close>
  "honest_entry db now k e \<longleftrightarrow>
     (\<exists>code day t. plain code \<and> k = rate_key code day \<and> t \<le> now \<and> memo_probe e = probe_pair (db t) (code, day)
        \<and> expires_at e = (if immutable_probe t (memo_probe e) then None else Some (t + currency_latest_cache_ttl_ms)))"

definition honest_memo :: "(int \<Rightarrow> rate_db) \<Rightarrow> int \<Rightarrow> rate_memo \<Rightarrow> bool" where
  "honest_memo db now memo \<longleftrightarrow> distinct (map fst memo) \<and> length memo \<le> currency_rate_cache_size
     \<and> (\<forall>(k, e)\<in>set memo. honest_entry db now k e)"

definition fresh_probe :: "(int \<Rightarrow> rate_db) \<Rightarrow> int \<Rightarrow> int \<Rightarrow> string \<Rightarrow> string \<Rightarrow> rate_probe \<Rightarrow> bool" where
  \<comment> \<open>what the database answered in an interval that reaches one memo lifetime back\<close>
  "fresh_probe db from until code day p \<longleftrightarrow>
     (\<exists>t. from - currency_latest_cache_ttl_ms \<le> t \<and> t \<le> until \<and> p = probe_pair (db t) (code, day))"

lemma honest_entry_mono: "honest_entry db now k e \<Longrightarrow> now \<le> now' \<Longrightarrow> honest_entry db now' k e"
  unfolding honest_entry_def by (blast intro: order_trans)

lemma honest_memo_mono: "honest_memo db now memo \<Longrightarrow> now \<le> now' \<Longrightarrow> honest_memo db now' memo"
  using honest_entry_mono unfolding honest_memo_def by blast

lemma honest_memo_delete: "honest_memo db now memo \<Longrightarrow> honest_memo db now (AList.delete k memo)"
  unfolding honest_memo_def
  by (auto simp: AList.delete_eq distinct_map_filter intro: order_trans [OF length_filter_le])

lemma length_update: "length (AList.update k v m) = (if k \<in> fst ` set m then length m else Suc (length m))"
  by (induction m) auto

lemma set_update_subset: "set (AList.update k v m) \<subseteq> insert (k, v) (set m)"
  by (induction m) auto

lemma from_cache_hit:
  assumes "rate_history db" and "honest_memo db now memo" and "from_cache now k memo = (Some p, memo')"
    and "plain code" and "k = rate_key code day" and "now \<le> until"
  shows "memo' = memo" and "fresh_probe db now until code day p"
proof -
  obtain e where e: "js_get memo k = Some e" "memo' = memo" "p = memo_probe e"
    "\<not> (case expires_at e of None \<Rightarrow> False | Some x \<Rightarrow> now > x)"
    using assms(3) by (auto simp: from_cache_def split: option.splits if_splits)
  then show "memo' = memo" by simp
  have "(k, e) \<in> set memo" using e(1) by (simp add: js_get_def map_of_SomeD)
  then have "honest_entry db now k e" using assms(2) by (auto simp: honest_memo_def)
  then obtain c d t where t: "plain c" "k = rate_key c d" "t \<le> now" "memo_probe e = probe_pair (db t) (c, d)"
    "expires_at e = (if immutable_probe t (memo_probe e) then None else Some (t + currency_latest_cache_ttl_ms))"
    unfolding honest_entry_def by blast
  have "rate_key c d = rate_key code day" using t(2) assms(5) by simp
  note cd = rate_key_inject [OF t(1) assms(4) this]
  show "fresh_probe db now until code day p"
  proof (cases "immutable_probe t (memo_probe e)")
    case True
    then have "p = probe_pair (db now) (code, day)"
      using history_settled [OF assms(1) t(3), of "(c, d)"] t(4) cd e(3) by simp
    then show ?thesis using assms(6) unfolding fresh_probe_def
      by (intro exI [of _ now]) (simp add: currency_latest_cache_ttl_ms_def)
  next
    case False
    then have "now - currency_latest_cache_ttl_ms \<le> t" using e(4) t(5) by simp
    then show ?thesis using t(3,4) cd e(3) assms(6) unfolding fresh_probe_def
      by (intro exI [of _ t]) simp
  qed
qed

lemma from_cache_miss:
  assumes "honest_memo db now memo" and "from_cache now k memo = (None, memo')"
  shows "honest_memo db now memo'"
  using assms honest_memo_delete [OF assms(1)] by (auto simp: from_cache_def split: option.splits if_splits)

lemma to_cache_honest:
  assumes "honest_memo db t memo" and "plain code" and "p = probe_pair (db t) (code, day)"
  shows "honest_memo db t (to_cache t (rate_key code day) p memo)"
proof -
  let ?e = "\<lparr>memo_probe = p, expires_at = (if immutable_probe t p then None else Some (t + currency_latest_cache_ttl_ms))\<rparr>"
  let ?m = "AList.update (rate_key code day) ?e memo"
  have entry: "honest_entry db t (rate_key code day) ?e"
    unfolding honest_entry_def using assms(2,3) by (intro exI [of _ code] exI [of _ day] exI [of _ t]) simp
  have entries: "\<forall>(k, e)\<in>set ?m. honest_entry db t k e"
    using assms(1) entry set_update_subset [of "rate_key code day" ?e memo] unfolding honest_memo_def by fast
  have d: "distinct (map fst ?m)" using assms(1) by (simp add: honest_memo_def distinct_update)
  have len: "length ?m \<le> Suc currency_rate_cache_size"
    using assms(1) by (auto simp: honest_memo_def length_update)
  show ?thesis
  proof (cases "length ?m > currency_rate_cache_size")
    case False
    then show ?thesis using entries d by (simp add: to_cache_def Let_def honest_memo_def)
  next
    case True
    then obtain q m' where m: "?m = q # m'" by (cases ?m) auto
    then have "fst q \<notin> fst ` set m'" using d by simp
    then have "AList.delete (fst q) ?m = m'" unfolding m by (force simp: AList.delete_eq filter_id_conv)
    then show ?thesis using entries d len True unfolding m
      by (simp add: to_cache_def Let_def honest_memo_def m)
  qed
qed

section \<open>Resolving the rates of a batch\<close>

definition resolved_ok :: "(int \<Rightarrow> rate_db) \<Rightarrow> int \<Rightarrow> int \<Rightarrow> (string \<times> rate_probe) list \<Rightarrow> bool" where
  "resolved_ok db from until resolved \<longleftrightarrow>
     (\<forall>code day p. plain code \<longrightarrow> js_get resolved (rate_key code day) = Some p \<longrightarrow> fresh_probe db from until code day p)"

lemma resolved_ok_update:
  assumes "resolved_ok db from until resolved" and "plain code" and "fresh_probe db from until code day p"
  shows "resolved_ok db from until (AList.update (rate_key code day) p resolved)"
  unfolding resolved_ok_def
proof (intro allI impI)
  fix c d q
  assume c: "plain c" and q: "js_get (AList.update (rate_key code day) p resolved) (rate_key c d) = Some q"
  show "fresh_probe db from until c d q"
  proof (cases "rate_key c d = rate_key code day")
    case True
    then show ?thesis using rate_key_inject [OF c assms(2) True] q assms(3) by (simp add: js_get_update)
  next
    case False
    then show ?thesis using assms(1) c q unfolding resolved_ok_def by (simp add: js_get_update)
  qed
qed

definition pairs_ok :: "(string \<times> string \<times> string) list \<Rightarrow> bool" where
  "pairs_ok needed \<longleftrightarrow> (\<forall>(k, c, d)\<in>set needed. plain c \<and> normal_code c = c \<and> k = rate_key c d)"

lemma read_memo_ok:
  assumes "rate_history db" and "now \<le> until" and "pairs_ok needed"
    and "resolved_ok db now until resolved" and "honest_memo db now memo"
    and "read_memo now needed resolved missing memo = (resolved', missing', memo')"
  shows "resolved_ok db now until resolved' \<and> honest_memo db now memo'
    \<and> set missing' \<subseteq> set missing \<union> snd ` set needed
    \<and> (\<forall>k. js_get resolved k \<noteq> None \<longrightarrow> js_get resolved' k \<noteq> None)
    \<and> set missing \<subseteq> set missing'
    \<and> (\<forall>(k, pair)\<in>set needed. js_get resolved' k \<noteq> None \<or> pair \<in> set missing')"
  using assms(3-6)
proof (induction needed arbitrary: resolved missing memo)
  case Nil
  then show ?case by simp
next
  case (Cons x needed)
  obtain k c d where x: "x = (k, c, d)" by (cases x)
  have ok: "plain c" "k = rate_key c d" "pairs_ok needed" using Cons.prems(1) x by (auto simp: pairs_ok_def)
  obtain a m1 where a: "from_cache now k memo = (a, m1)" by fastforce
  show ?case
  proof (cases a)
    case None
    have "honest_memo db now m1" using from_cache_miss Cons.prems(3) a None by blast
    moreover have "read_memo now needed resolved (missing @ [(c, d)]) m1 = (resolved', missing', memo')"
      using Cons.prems(4) x a None by simp
    ultimately show ?thesis using Cons.IH [OF ok(3) Cons.prems(2)] x by fastforce
  next
    case (Some p)
    note hit = from_cache_hit [OF assms(1) Cons.prems(3) a [unfolded Some] ok(1,2) assms(2)]
    have "resolved_ok db now until (AList.update k p resolved)"
      using resolved_ok_update [OF Cons.prems(2) ok(1) hit(2)] ok(2) by simp
    moreover have "read_memo now needed (AList.update k p resolved) missing memo = (resolved', missing', memo')"
      using Cons.prems(4) x a Some hit(1) by simp
    ultimately have ih: "resolved_ok db now until resolved' \<and> honest_memo db now memo'
      \<and> set missing' \<subseteq> set missing \<union> snd ` set needed
      \<and> (\<forall>j. js_get (AList.update k p resolved) j \<noteq> None \<longrightarrow> js_get resolved' j \<noteq> None)
      \<and> set missing \<subseteq> set missing'
      \<and> (\<forall>(k, pair)\<in>set needed. js_get resolved' k \<noteq> None \<or> pair \<in> set missing')"
      using Cons.IH [OF ok(3) _ Cons.prems(3)] by blast
    then have "js_get resolved' k \<noteq> None" "\<forall>j. js_get resolved j \<noteq> None \<longrightarrow> js_get resolved' j \<noteq> None"
      by (simp_all add: js_get_update)
    then show ?thesis using ih x by (auto simp: image_Un)
  qed
qed

lemma store_probes_ok:
  assumes "\<forall>p\<in>set ps. \<exists>c d. plain c \<and> p = probe_pair (db t) (c, d)" and "from - currency_latest_cache_ttl_ms \<le> t"
    and "resolved_ok db from t resolved" and "honest_memo db t memo"
    and "store_probes t ps resolved memo = (resolved', memo')"
  shows "resolved_ok db from t resolved' \<and> honest_memo db t memo'
    \<and> (\<forall>k. js_get resolved k \<noteq> None \<longrightarrow> js_get resolved' k \<noteq> None)
    \<and> (\<forall>p\<in>set ps. js_get resolved' (rate_key (probe_code p) (requested_on p)) \<noteq> None)"
  using assms(1,3-5)
proof (induction ps arbitrary: resolved memo)
  case Nil
  then show ?case by simp
next
  case (Cons p ps)
  obtain c d where p: "plain c" "p = probe_pair (db t) (c, d)" using Cons.prems(1) by auto
  have k: "probe_code p = c" "requested_on p = d" by (simp_all add: p(2) probe_pair_def Let_def)
  have fresh: "fresh_probe db from t c d p" using p(2) assms(2) unfolding fresh_probe_def by blast
  have ih: "resolved_ok db from t resolved' \<and> honest_memo db t memo'
    \<and> (\<forall>j. js_get (AList.update (rate_key c d) p resolved) j \<noteq> None \<longrightarrow> js_get resolved' j \<noteq> None)
    \<and> (\<forall>p\<in>set ps. js_get resolved' (rate_key (probe_code p) (requested_on p)) \<noteq> None)"
  proof (rule Cons.IH)
    show "\<forall>p\<in>set ps. \<exists>c d. plain c \<and> p = probe_pair (db t) (c, d)" using Cons.prems(1) by simp
    show "resolved_ok db from t (AList.update (rate_key c d) p resolved)"
      by (rule resolved_ok_update [OF Cons.prems(2) p(1) fresh])
    show "honest_memo db t (to_cache t (rate_key c d) p memo)"
      by (rule to_cache_honest [OF Cons.prems(3) p])
    show "store_probes t ps (AList.update (rate_key c d) p resolved) (to_cache t (rate_key c d) p memo) = (resolved', memo')"
      using Cons.prems(4) by (simp add: Let_def k)
  qed
  then have "\<forall>j. js_get resolved j \<noteq> None \<longrightarrow> js_get resolved' j \<noteq> None" "js_get resolved' (rate_key c d) \<noteq> None"
    by (simp_all add: js_get_update)
  then show ?case using ih k by simp
qed

lemma needed_pairs_index:
  "needed_pairs requests base = js_index (\<lambda>(c, d). rate_key c d)
     (concat (map (\<lambda>r. map (\<lambda>c. (c, nr_on r)) (filter (\<lambda>c. c \<noteq> base) [nr_from r, nr_to r])) requests))"
proof -
  have "(\<lambda>m (code, day). AList.update (rate_key code day) (code, day) m)
      = (\<lambda>m x. AList.update (case x of (c, d) \<Rightarrow> rate_key c d) x m)"
    by (intro ext) auto
  then show ?thesis by (simp add: needed_pairs_def js_index_def)
qed

definition plain_requests :: "normal_request list \<Rightarrow> bool" where
  "plain_requests rs \<longleftrightarrow> (\<forall>r\<in>set rs. \<forall>c\<in>{nr_from r, nr_to r}. plain c \<and> normal_code c = c)"

lemma needed_pairs_ok:
  assumes "plain_requests rs"
  shows "pairs_ok (needed_pairs rs base)"
    and "r \<in> set rs \<Longrightarrow> c \<in> {nr_from r, nr_to r} \<Longrightarrow> c \<noteq> base
      \<Longrightarrow> (rate_key c (nr_on r), c, nr_on r) \<in> set (needed_pairs rs base)"
proof -
  let ?pairs = "concat (map (\<lambda>r. map (\<lambda>c. (c, nr_on r)) (filter (\<lambda>c. c \<noteq> base) [nr_from r, nr_to r])) rs)"
  have plain: "plain c \<and> normal_code c = c" if "(c, d) \<in> set ?pairs" for c d
    using that assms by (auto simp: plain_requests_def split: if_splits)
  show ok: "pairs_ok (needed_pairs rs base)"
    unfolding pairs_ok_def needed_pairs_index
    using plain js_index_value [of _ _ "\<lambda>(c, d). rate_key c d" ?pairs] by fastforce
  assume r: "r \<in> set rs" "c \<in> {nr_from r, nr_to r}" "c \<noteq> base"
  then have c: "(c, nr_on r) \<in> set ?pairs" by auto
  then have "rate_key c (nr_on r) \<in> set (map fst (needed_pairs rs base))"
    unfolding needed_pairs_index js_index_keys by force
  then obtain c' d' where p: "(rate_key c (nr_on r), c', d') \<in> set (needed_pairs rs base)" by auto
  then have "plain c'" "rate_key c (nr_on r) = rate_key c' d'" using ok by (auto simp: pairs_ok_def)
  then have "c' = c" "d' = nr_on r" using rate_key_inject plain [OF c] by metis+
  then show "(rate_key c (nr_on r), c, nr_on r) \<in> set (needed_pairs rs base)" using p by simp
qed

lemma dedupe_pairs_member:
  assumes "\<forall>(c, d)\<in>set pairs. plain c \<and> normal_code c = c"
  shows "set (dedupe_pairs pairs) = set pairs"
proof -
  let ?key = "\<lambda>(code, day). code @ ''|'' @ day"
  have id: "map (\<lambda>(code, day). (normal_code code, day)) pairs = pairs"
    using assms by (intro map_idI) auto
  have "set (map snd (js_index ?key pairs)) \<subseteq> set pairs" using js_index_value by fastforce
  moreover have "(c, d) \<in> set (map snd (js_index ?key pairs))" if cd: "(c, d) \<in> set pairs" for c d
  proof -
    have "?key (c, d) \<in> set (map fst (js_index ?key pairs))" unfolding js_index_keys using cd by (rule imageI)
    then obtain q where "(?key (c, d), q) \<in> set (js_index ?key pairs)" by auto
    moreover then have "q \<in> set pairs" "?key q = ?key (c, d)" using js_index_value by metis+
    moreover obtain c' d' where "q = (c', d')" by (cases q)
    ultimately have "(?key (c, d), c', d') \<in> set (js_index ?key pairs)" "plain c'" "rate_key c' d' = rate_key c d"
      using assms by (auto simp: rate_key_def)
    moreover have "plain c" using assms cd by auto
    ultimately have "(?key (c, d), c, d) \<in> set (js_index ?key pairs)" using rate_key_inject by metis
    then show ?thesis by force
  qed
  ultimately show ?thesis unfolding dedupe_pairs_def id by auto
qed

lemma resolve_rates_ok:
  assumes "rate_history db" and "at_read clock \<le> at_answer clock" and "plain_requests rs"
    and "honest_memo db (at_read clock) memo" and "resolve_rates clock db rs base memo = (resolved, memo')"
  shows "resolved_ok db (at_read clock) (at_answer clock) resolved" and "honest_memo db (at_answer clock) memo'"
    and "r \<in> set rs \<Longrightarrow> c \<in> {nr_from r, nr_to r} \<Longrightarrow> c \<noteq> base \<Longrightarrow> js_get resolved (rate_key c (nr_on r)) \<noteq> None"
proof -
  let ?needed = "needed_pairs rs base"
  obtain res1 missing memo1 where read: "read_memo (at_read clock) ?needed [] [] memo = (res1, missing, memo1)"
    by (metis prod_cases3)
  have "resolved_ok db (at_read clock) (at_answer clock) []" by (simp add: resolved_ok_def js_get_def)
  note r = read_memo_ok [OF assms(1,2) needed_pairs_ok(1) [OF assms(3)] this assms(4) read]
  have missing: "\<forall>(c, d)\<in>set missing. plain c \<and> normal_code c = c"
    using r needed_pairs_ok(1) [OF assms(3), of base] by (fastforce simp: pairs_ok_def)
  have memo1: "honest_memo db (at_answer clock) memo1" using r honest_memo_mono assms(2) by blast
  have "resolved_ok db (at_read clock) (at_answer clock) resolved \<and> honest_memo db (at_answer clock) memo'
    \<and> (\<forall>(k, pair)\<in>set ?needed. js_get resolved k \<noteq> None)"
  proof (cases "missing = []")
    case True
    then have "resolved = res1" "memo' = memo1" using assms(5) read by (simp_all add: resolve_rates_def)
    then show ?thesis using r memo1 True by auto
  next
    case False
    let ?probes = "probe_rates (db (at_answer clock)) missing"
    have store: "store_probes (at_answer clock) ?probes res1 memo1 = (resolved, memo')"
      using assms(5) read False by (simp add: resolve_rates_def)
    have probes: "set ?probes = probe_pair (db (at_answer clock)) ` set missing"
      by (simp add: probe_rates_conv dedupe_pairs_member [OF missing])
    have "\<forall>p\<in>set ?probes. \<exists>c d. plain c \<and> p = probe_pair (db (at_answer clock)) (c, d)"
      using missing unfolding probes by fast
    moreover have "at_read clock - currency_latest_cache_ttl_ms \<le> at_answer clock"
      using assms(2) by (simp add: currency_latest_cache_ttl_ms_def)
    ultimately have s: "resolved_ok db (at_read clock) (at_answer clock) resolved \<and> honest_memo db (at_answer clock) memo'
      \<and> (\<forall>k. js_get res1 k \<noteq> None \<longrightarrow> js_get resolved k \<noteq> None)
      \<and> (\<forall>p\<in>set ?probes. js_get resolved (rate_key (probe_code p) (requested_on p)) \<noteq> None)"
      using store_probes_ok [OF _ _ _ memo1 store] r by blast
    have "js_get resolved k \<noteq> None" if need: "(k, c, d) \<in> set ?needed" for k c d
    proof -
      have k: "k = rate_key c d" using needed_pairs_ok(1) [OF assms(3), of base] need unfolding pairs_ok_def by blast
      from need r have "js_get res1 k \<noteq> None \<or> (c, d) \<in> set missing" by blast
      then show ?thesis
      proof
        assume "(c, d) \<in> set missing"
        then have "probe_pair (db (at_answer clock)) (c, d) \<in> set ?probes" unfolding probes by (rule imageI)
        then have "js_get resolved (rate_key (probe_code (probe_pair (db (at_answer clock)) (c, d)))
            (requested_on (probe_pair (db (at_answer clock)) (c, d)))) \<noteq> None" using s by blast
        then show ?thesis by (simp add: k probe_pair_def Let_def)
      qed (use s in blast)
    qed
    then show ?thesis using s by auto
  qed
  then show "resolved_ok db (at_read clock) (at_answer clock) resolved" "honest_memo db (at_answer clock) memo'"
    "r \<in> set rs \<Longrightarrow> c \<in> {nr_from r, nr_to r} \<Longrightarrow> c \<noteq> base \<Longrightarrow> js_get resolved (rate_key c (nr_on r)) \<noteq> None"
    using needed_pairs_ok(2) [OF assms(3)] by blast+
qed

section \<open>The answers of a batch\<close>

lemma traverse_Inr: "map f xs = map Inr ys \<Longrightarrow> traverse f xs = Inr ys"
  by (induction xs arbitrary: ys) auto

definition expected :: "(string \<Rightarrow> rate_probe) \<Rightarrow> string \<Rightarrow> string \<Rightarrow> convert_request \<Rightarrow> conversion option" where
  \<comment> \<open>specification: the conversion of one request at the rates it was shown\<close>
  "expected seen base today q =
     (let amount = the (rq_amount q); a = normal_code (rq_from q); b = normal_code (rq_to q);
          day = (case rq_on q of None \<Rightarrow> today | Some d \<Rightarrow> d);
          rate = (\<lambda>c. if c = base then Some 1 else probe_rate (seen c));
          found = (\<lambda>c. if c = base then Some day else probe_effective (seen c))
      in if a = b then Some \<lparr>cv_amount = amount, cv_from = a, cv_to = b, cv_requested_on = day, cv_effective_on = None,
                             cv_from_rate = None, cv_to_rate = None, converted = round_to amount 2\<rparr>
         else if rate a = None \<or> rate b = None then None
         else Some \<lparr>cv_amount = amount, cv_from = a, cv_to = b, cv_requested_on = day,
                    cv_effective_on = Some (min (the (found a)) (the (found b))),
                    cv_from_rate = rate a, cv_to_rate = rate b,
                    converted = round_to (amount * the (rate a) / the (rate b)) 2\<rparr>)"

lemma probe_nulls: "probe_rate (probe_pair db pair) = None \<longleftrightarrow> probe_effective (probe_pair db pair) = None"
  by (cases pair) (simp add: probe_pair_def Let_def)

lemma apply_rates_expected:
  assumes "rate_history db" and "resolved_ok db from until resolved"
    and "nr = normal_request today q" and "plain (nr_from nr)" and "plain (nr_to nr)"
    and "\<And>c. c \<in> {nr_from nr, nr_to nr} \<Longrightarrow> c \<noteq> base \<Longrightarrow> js_get resolved (rate_key c (nr_on nr)) \<noteq> None"
    and "seen = (\<lambda>c. the (js_get resolved (rate_key c (nr_on nr))))"
  shows "apply_rates resolved base nr = Inr (expected seen base today q)"
    and "c \<in> {nr_from nr, nr_to nr} \<Longrightarrow> c \<noteq> base \<Longrightarrow> fresh_probe db from until c (nr_on nr) (seen c)"
proof -
  have nr: "nr_amount nr = rq_amount q" "normal_code (rq_from q) = nr_from nr" "normal_code (rq_to q) = nr_to nr"
    "(case rq_on q of None \<Rightarrow> today | Some d \<Rightarrow> d) = nr_on nr"
    using assms(3) by (simp_all add: normal_request_def)
  have fresh: "fresh_probe db from until c (nr_on nr) (seen c)" if "c \<in> {nr_from nr, nr_to nr}" "c \<noteq> base" for c
    using assms(2,4-7) that by (auto simp: resolved_ok_def)
  then show "c \<in> {nr_from nr, nr_to nr} \<Longrightarrow> c \<noteq> base \<Longrightarrow> fresh_probe db from until c (nr_on nr) (seen c)" .
  define rate where "rate c = (if c = base then Some 1 else probe_rate (seen c))" for c
  define found where "found c = (if c = base then Some (nr_on nr) else probe_effective (seen c))" for c
  have both: "rate c = None \<longleftrightarrow> found c = None" and pos: "rate c = Some x \<Longrightarrow> x > 0"
    if "c \<in> {nr_from nr, nr_to nr}" for c x
  proof -
    show "rate c = None \<longleftrightarrow> found c = None"
      using fresh [OF that] probe_nulls by (auto simp: rate_def found_def fresh_probe_def)
    show "rate c = Some x \<Longrightarrow> x > 0"
      using fresh [OF that] history_positive [OF assms(1)] by (auto simp: rate_def fresh_probe_def split: if_splits)
  qed
  have rate_of: "rate_of c (nr_on nr) resolved base
      = (case (rate c, found c) of (Some r, Some d) \<Rightarrow> Some (r, d) | _ \<Rightarrow> None)" if c: "c \<in> {nr_from nr, nr_to nr}" for c
  proof (cases "c = base")
    case True
    then show ?thesis by (simp add: rate_of_def rate_def found_def)
  next
    case False
    then obtain p where "js_get resolved (rate_key c (nr_on nr)) = Some p" using assms(6) [OF c] by blast
    then show ?thesis using False by (simp add: rate_of_def rate_def found_def assms(7) split: option.splits)
  qed
  have reported: "reported_day x y = min x y" for x y by (auto simp: reported_day_def min_def)
  have spec: "expected seen base today q = (let amount = the (nr_amount nr) in
      if nr_from nr = nr_to nr then Some \<lparr>cv_amount = amount, cv_from = nr_from nr, cv_to = nr_to nr,
        cv_requested_on = nr_on nr, cv_effective_on = None, cv_from_rate = None, cv_to_rate = None, converted = round_to amount 2\<rparr>
      else if rate (nr_from nr) = None \<or> rate (nr_to nr) = None then None
      else Some \<lparr>cv_amount = amount, cv_from = nr_from nr, cv_to = nr_to nr, cv_requested_on = nr_on nr,
        cv_effective_on = Some (min (the (found (nr_from nr))) (the (found (nr_to nr)))),
        cv_from_rate = rate (nr_from nr), cv_to_rate = rate (nr_to nr),
        converted = round_to (amount * the (rate (nr_from nr)) / the (rate (nr_to nr))) 2\<rparr>)"
    unfolding expected_def nr(2-4) nr(1) [symmetric] rate_def found_def Let_def by (rule refl)
  show "apply_rates resolved base nr = Inr (expected seen base today q)"
  proof (cases "nr_from nr = nr_to nr")
    case True
    then show ?thesis unfolding spec by (simp add: apply_rates_def Let_def round_amount_def converted_amount_scale_def)
  next
    case False
    have f: "nr_from nr \<in> {nr_from nr, nr_to nr}" and t: "nr_to nr \<in> {nr_from nr, nr_to nr}" by simp_all
    show ?thesis
    proof (cases "rate (nr_from nr) = None \<or> rate (nr_to nr) = None")
      case True
      then show ?thesis unfolding spec using False both [OF f] both [OF t]
        by (auto simp: apply_rates_def Let_def rate_of [OF f] rate_of [OF t] split: option.splits)
    next
      case defined: False
      then obtain fr tr fd td where r: "rate (nr_from nr) = Some fr" "rate (nr_to nr) = Some tr"
        "found (nr_from nr) = Some fd" "found (nr_to nr) = Some td"
        using both [OF f] both [OF t] by auto
      have "fr > 0" "tr > 0" using pos [OF f r(1)] pos [OF t r(2)] .
      then show ?thesis unfolding spec using False
        by (simp add: apply_rates_def Let_def rate_of [OF f] rate_of [OF t] r convert_amount_def is_positive_def
            round_amount_def converted_amount_scale_def reported)
    qed
  qed
qed

lemma normalize_requests_ok:
  assumes "rate_history db" and "honest_lookup db now l" and "plain base"
    and "normalize_requests now (db now) requests base l = (out, l')"
  shows "honest_lookup db now l'"
    and "out = Inr ns \<Longrightarrow> ns = map (normal_request (today_at now)) requests \<and> plain_requests ns"
    and "out = Inl e \<Longrightarrow> e = Not_A_Number \<or> (\<exists>cs. e = Unknown_Codes cs)"
proof -
  obtain known l1 where known: "lookup_all now (db now) l = (known, l1)" by fastforce
  note run = assms(4) [unfolded normalize_requests_def known prod.case Let_def]
  show "honest_lookup db now l'" using run lookup_all_honest(1) [OF assms(2) known] by (auto split: if_splits)
  show "out = Inl e \<Longrightarrow> e = Not_A_Number \<or> (\<exists>cs. e = Unknown_Codes cs)" using run by (auto split: if_splits)
  assume out: "out = Inr ns"
  let ?ns = "map (normal_request (today_at now)) requests"
  have ns: "ns = ?ns" and empty: "filter (\<lambda>c. c \<noteq> base \<and> js_get known c = None) (concat (map (\<lambda>r. [nr_from r, nr_to r]) ?ns)) = []"
    using run out by (auto split: if_splits)
  have "plain c \<and> normal_code c = c" if "r \<in> set ?ns" "c \<in> {nr_from r, nr_to r}" for r c
  proof
    have "c = base \<or> js_get known c \<noteq> None" using empty that unfolding filter_empty_conv by auto
    then show "plain c"
    proof
      assume "js_get known c \<noteq> None"
      then show ?thesis
        using lookup_all_honest(2) [OF assms(2) known] known_code history_plain [OF assms(1)] by metis
    qed (use assms(3) in simp)
    show "normal_code c = c" using that by (auto simp: normal_request_def)
  qed
  then show "ns = ?ns \<and> plain_requests ns" using ns unfolding plain_requests_def by blast
qed

definition answered :: "(int \<Rightarrow> rate_db) \<Rightarrow> batch_clock \<Rightarrow> string \<Rightarrow> convert_request \<Rightarrow> conversion option \<Rightarrow> bool" where
  \<comment> \<open>specification: the result of a lone conversion at fresh probes\<close>
  "answered db clock base q v \<longleftrightarrow>
     (\<exists>seen. v = expected seen base (today_at (at_normal clock)) q
        \<and> (let nr = normal_request (today_at (at_normal clock)) q
           in \<forall>c\<in>{nr_from nr, nr_to nr} - {base}. fresh_probe db (at_read clock) (at_answer clock) c (nr_on nr) (seen c)))"

lemma apply_rates_answers:
  assumes "rate_history db" and "at_read clock \<le> at_answer clock" and "honest_memo db (at_read clock) memo"
    and "ns = map (normal_request (today_at (at_normal clock))) requests" and "plain_requests ns"
    and "resolve_rates clock db ns base memo = (resolved, memo')"
  shows "\<exists>results. traverse (apply_rates resolved base) ns = Inr results \<and> list_all2 (answered db clock base) requests results"
proof -
  note r = resolve_rates_ok [OF assms(1,2,5,3,6)]
  have "\<exists>v. apply_rates resolved base (normal_request (today_at (at_normal clock)) q) = Inr v \<and> answered db clock base q v"
    if q: "q \<in> set requests" for q
  proof -
    define nr where "nr = normal_request (today_at (at_normal clock)) q"
    define seen where "seen = (\<lambda>c. the (js_get resolved (rate_key c (nr_on nr))))"
    have "nr \<in> set ns" using q assms(4) nr_def by simp
    then have "plain (nr_from nr)" "plain (nr_to nr)" using assms(5) by (simp_all add: plain_requests_def)
    note a = apply_rates_expected [OF assms(1) r(1) nr_def this r(3) [OF \<open>nr \<in> set ns\<close>] seen_def]
    have "answered db clock base q (expected seen base (today_at (at_normal clock)) q)"
      unfolding answered_def using a(2) by (intro exI [of _ seen]) (auto simp: nr_def [symmetric])
    then show ?thesis using a(1) nr_def by blast
  qed
  then have "\<exists>results. traverse (apply_rates resolved base) (map (normal_request (today_at (at_normal clock))) requests) = Inr results
      \<and> list_all2 (answered db clock base) requests results"
  proof (induction requests)
    case Nil
    then show ?case by simp
  next
    case (Cons q requests)
    then obtain results where "traverse (apply_rates resolved base) (map (normal_request (today_at (at_normal clock))) requests) = Inr results"
      "list_all2 (answered db clock base) requests results" by auto
    moreover obtain v where "apply_rates resolved base (normal_request (today_at (at_normal clock)) q) = Inr v" "answered db clock base q v"
      using Cons.prems by (meson list.set_intros(1))
    ultimately show ?case by simp
  qed
  then show ?thesis using assms(4) by simp
qed

text \<open>
  C36: a batch is answered request by request, with rates no older than the memo's lifetime.  Whatever
  state earlier batches left, each result is, in its request's place, the conversion at the rates of one
  base currency and, for either code, of a probe that the database answered for the requested day no more
  than a minute before the batch read the memo; the only errors are the validation's, never a rate's.
  The memo left behind again holds only what the database answered, at most 4096 entries of it.
\<close>

theorem convert_many_answers_each:
  assumes "rate_history db" and "honest_lookup db (at_base clock) (lookup_part st)"
    and "honest_memo db (at_read clock) (rate_memo st)"
    and "at_base clock \<le> at_normal clock" and "at_read clock \<le> at_answer clock"
  shows "(case fst (convert_many clock db requests st) of
      Inl e \<Rightarrow> e = No_Base \<or> e = Not_A_Number \<or> (\<exists>cs. e = Unknown_Codes cs)
    | Inr results \<Rightarrow> \<exists>base. list_all2 (answered db clock base) requests results)
    \<and> honest_memo db (at_answer clock) (rate_memo (snd (convert_many clock db requests st)))
    \<and> honest_lookup db (at_normal clock) (lookup_part (snd (convert_many clock db requests st)))"
proof (cases "requests = []")
  case True
  then show ?thesis
    using assms honest_memo_mono honest_lookup_mono by (auto simp: convert_many_def)
next
  case False
  obtain b l where b: "base_code (at_base clock) (db (at_base clock)) (lookup_part st) = (b, l)" by fastforce
  have memo: "honest_memo db (at_answer clock) (rate_memo st)" using honest_memo_mono assms(3,5) by blast
  have l: "honest_lookup db (at_normal clock) l"
    using base_code_honest [OF assms(2) b] honest_lookup_mono assms(4) by blast
  show ?thesis
  proof (cases b)
    case (Inl e)
    then have "e = No_Base" using b by (auto simp: base_code_def split: option.splits prod.splits)
    then show ?thesis using False b Inl memo l by (auto simp: convert_many_def)
  next
    case (Inr base)
    have plain: "plain base" using base_code_row [OF assms(2) b [unfolded Inr]] history_plain [OF assms(1)] by blast
    obtain out l' where n: "normalize_requests (at_normal clock) (db (at_normal clock)) requests base l = (out, l')" by fastforce
    note ok = normalize_requests_ok [OF assms(1) l plain n]
    show ?thesis
    proof (cases out)
      case (Inl e)
      then show ?thesis using False b Inr n ok(1) ok(3) [OF Inl] memo by (auto simp: convert_many_def)
    next
      case normal: (Inr ns)
      obtain resolved memo' where res: "resolve_rates clock db ns base (rate_memo st) = (resolved, memo')" by fastforce
      have ns: "ns = map (normal_request (today_at (at_normal clock))) requests" "plain_requests ns" using ok(2) [OF normal] by blast+
      obtain results where "traverse (apply_rates resolved base) ns = Inr results" "list_all2 (answered db clock base) requests results"
        using apply_rates_answers [OF assms(1,5,3) ns res] by blast
      then show ?thesis
        using False b Inr n normal res resolve_rates_ok(2) [OF assms(1,5) ns(2) assms(3) res] ok(1)
        by (auto simp: convert_many_def)
    qed
  qed
qed

text \<open>One batch over a two-row table: dollars to hryvnias, and dollars to euros that have no rate.\<close>

definition sample_rates :: rate_db where
  "sample_rates =
     \<lparr>currencies =
        [\<lparr>currency_id = ''1'', currency_code = ''UAH'', numeric_code = 980, name_ua = [], currency_symbol = [],
          is_base = True, currency_active = True\<rparr>,
         \<lparr>currency_id = ''2'', currency_code = ''USD'', numeric_code = 840, name_ua = [], currency_symbol = [],
          is_base = False, currency_active = True\<rparr>,
         \<lparr>currency_id = ''3'', currency_code = ''EUR'', numeric_code = 978, name_ua = [], currency_symbol = [],
          is_base = False, currency_active = True\<rparr>],
      rate_rows = [\<lparr>row_currency = Some ''2'', row_rate = 40, row_day = ''2024-05-01''\<rparr>]\<rparr>"

lemma convert_many_answers_each_witness:
  defines "clock \<equiv> \<lparr>at_base = 1715000000000, at_normal = 1715000000001, at_read = 1715000000002, at_answer = 1715000000009\<rparr>"
    and "requests \<equiv> [\<lparr>rq_amount = Some 3, rq_from = ''usd '', rq_to = ''UAH'', rq_on = Some ''2024-05-02''\<rparr>,
                     \<lparr>rq_amount = Some 3, rq_from = ''USD'', rq_to = ''EUR'', rq_on = Some ''2024-05-02''\<rparr>]"
    and "st \<equiv> \<lparr>lookup_part = \<lparr>cached_lookup = None, lookup_expires_at = 0\<rparr>, rate_memo = []\<rparr>"
  shows "(\<exists>base. list_all2 (answered (\<lambda>_. sample_rates) clock base) requests
      (projr (fst (convert_many clock (\<lambda>_. sample_rates) requests st))))
    \<and> map (map_option converted) (projr (fst (convert_many clock (\<lambda>_. sample_rates) requests st))) = [Some 120, None]"
proof -
  have "fst (convert_many clock (\<lambda>_. sample_rates) requests st) =
      Inr [Some \<lparr>cv_amount = 3, cv_from = ''USD'', cv_to = ''UAH'', cv_requested_on = ''2024-05-02'',
                 cv_effective_on = Some ''2024-05-01'', cv_from_rate = Some 40, cv_to_rate = Some 1, converted = 120\<rparr>, None]"
    unfolding clock_def requests_def st_def by code_simp
  moreover have "rate_history (\<lambda>_. sample_rates)"
    unfolding rate_history_def by (auto simp: sample_rates_def plain_def)
  moreover have "honest_lookup (\<lambda>_. sample_rates) (at_base clock) (lookup_part st)" "honest_memo (\<lambda>_. sample_rates) (at_read clock) (rate_memo st)"
    by (simp_all add: st_def honest_lookup_def honest_memo_def)
  moreover have "at_base clock \<le> at_normal clock" "at_read clock \<le> at_answer clock" by (simp_all add: clock_def)
  ultimately show ?thesis
    using convert_many_answers_each [of "\<lambda>_. sample_rates" clock st requests] by simp
qed

end
