(* ===== verification/Currency_Sync_Facts.thy ===== *)
theory Currency_Sync_Facts
  imports Currency_Sync Currency_Facts Currency_Conversion_Facts
begin

text \<open>
  A sync that reports success has stored, for each of its currencies, a rate for every day between the
  first and the last day the bank answered: from the bank's rows over the fill of unpublished
  days and the write in chunks to the exact hit of the conversion's probe.
\<close>

section \<open>What the bank answers\<close>

definition compact_day :: "int \<Rightarrow> string" where
  "compact_day d = filter (\<lambda>c. c \<noteq> CHR ''-'') (iso_string d)"

definition wire_day_of :: "json \<Rightarrow> currency_error + string" where
  "wire_day_of j = (case read_row j of Inl _ \<Rightarrow> Inl Invalid_Time | Inr row \<Rightarrow> from_wire_date (exchangedate row))"

definition bank_law :: "'w bank \<Rightarrow> bool" where
  \<comment> \<open>the rows of an answer are of different calendar days of the range that was asked for\<close>
  "bank_law b \<longleftrightarrow> (\<forall>q w rows w'. bank_fetch b q w = (Ok_Json (J_array rows), w') \<longrightarrow>
     (\<exists>ds. distinct ds \<and> map wire_day_of (filter is_row rows) = map (\<lambda>d. Inr (iso_string d)) ds
        \<and> (\<forall>d\<in>set ds. four_digit_day d \<and> query_start q \<le> compact_day d \<and> compact_day d \<le> query_end q)))"

lemma no_dash_digits: "filter (\<lambda>c. c \<noteq> CHR ''-'') (pad_digits k n) = pad_digits k n"
proof -
  have "list_all is_digit (pad_digits k n)" by (rule all_digits_pad)
  then show ?thesis by (induction "pad_digits k n") (auto simp: filter_id_conv list_all_iff is_digit_def)
qed

lemma compact_day_less:
  assumes "four_digit_day n" and "four_digit_day n'"
  shows "compact_day n < compact_day n' \<longleftrightarrow> n < n'"
proof -
  obtain y m d where c: "civil_of_days n = (y, m, d)" by (cases "civil_of_days n")
  obtain y' m' d' where c': "civil_of_days n' = (y', m', d')" by (cases "civil_of_days n'")
  note b = civil_of_days_bounds [OF c] civil_of_days_bounds [OF c']
  have y: "0 \<le> y" "y \<le> 9999" "0 \<le> y'" "y' \<le> 9999" using assms b by (auto simp: four_digit_year)
  note p = pad_digits_less [of _ 4] pad_digits_less [of _ 2] pad_digits_inject [of _ 4] pad_digits_inject [of _ 2]
  have "compact_day n < compact_day n' \<longleftrightarrow> iso_string n < iso_string n'"
    using b y by (simp add: compact_day_def iso_string_four_digit [OF assms(1) c] iso_string_four_digit [OF assms(2) c']
        no_dash_digits append_less_iff p zless_nat_eq_int_zless eq_nat_nat_iff)
  then show ?thesis using iso_string_less [OF assms] by simp
qed

text \<open>A \<open>null\<close> among the rows passes the check of their shape, and hides every row after it from that check.\<close>

lemma null_row_accepted: "assert_rows (J_array (J_null # rows)) = Inr (J_null # rows)"
  by (simp add: assert_rows_def is_row_def json_truthy_def)

lemma request_loop_rows:
  "request_loop b q k n w = (Inr rows, w') \<Longrightarrow> \<exists>w0 w1. bank_fetch b q w0 = (Ok_Json (J_array rows), w1)"
proof (induction b q k n w arbitrary: rule: request_loop.induct)
  case (1 b q n w)
  then show ?case by simp
next
  case (2 b q k n w)
  obtain r w1 where f: "bank_fetch b q w = (r, w1)" by fastforce
  show ?case
  proof (cases "attempt_result r")
    case (Inl e)
    then show ?thesis using 2(1) [OF f [symmetric] Inl] 2(2) f by simp
  next
    case (Inr rs)
    then have "rs = rows" using 2(2) f by simp
    moreover obtain j where "r = Ok_Json j" "assert_rows j = Inr rs" using Inr by (auto simp: attempt_result_def split: bank_reply.splits)
    moreover then have "j = J_array rs" by (auto simp: assert_rows_def split: json.splits option.splits if_splits)
    ultimately show ?thesis using f by blast
  qed
qed

definition rates_of :: "string \<Rightarrow> int list \<Rightarrow> currency_rate_input list \<Rightarrow> bool" where
  \<comment> \<open>one rate of the currency for each of the days\<close>
  "rates_of code ds rs \<longleftrightarrow> map effective_on rs = map iso_string ds \<and> (\<forall>r\<in>set rs. rate_code r = code) \<and> (\<forall>d\<in>set ds. four_digit_day d)"

lemma traverse_all: "traverse f xs = Inr ys \<Longrightarrow> list_all2 (\<lambda>x y. f x = Inr y) xs ys"
  by (induction xs arbitrary: ys) (auto split: sum.splits)

lemma to_rate_day:
  assumes "to_rate code j = Inr r"
  shows "is_row j" and "wire_day_of j = Inr (effective_on r)" and "rate_code r = code"
  using assms
  by (auto simp: to_rate_def wire_day_of_def read_row_def normalize_row_def Let_def split: sum.splits if_splits json.splits)

lemma fetch_range_days:
  assumes "bank_law b" and "four_digit_day x" and "four_digit_day y" and "normal_code code = code"
    and "fetch_range b cf code (iso_string x) (iso_string y) w = (Inr rs, w')"
  shows "\<exists>ds. rates_of code ds rs \<and> distinct ds \<and> set ds \<subseteq> {x..y}"
proof -
  have shape: "iso_shape (iso_string d)" if "four_digit_day d" for d
    using parse_iso_string [OF that] by (auto simp: parse_day_def split: if_splits)
  define q where "q = \<lparr>query_start = compact_day x, query_end = compact_day y, query_valcode = map lower_char code\<rparr>"
  have "build_query code (iso_string x) (iso_string y) = Inr q"
    using shape assms(2,3) by (simp add: build_query_def to_query_date_def compact_day_def q_def)
  then obtain rows w1 where "request_loop b q (nat (max 1 (nbu_retries cf))) 1 w = (Inr rows, w1)"
    and t: "traverse (to_rate code) rows = Inr rs"
    using assms(4,5) by (auto simp: fetch_range_def nbu_request_def Let_def split: prod.splits sum.splits)
  then obtain ds where ds: "distinct ds" "map wire_day_of (filter is_row rows) = map (\<lambda>d. Inr (iso_string d)) ds"
    "\<forall>d\<in>set ds. four_digit_day d \<and> query_start q \<le> compact_day d \<and> compact_day d \<le> query_end q"
    using request_loop_rows assms(1) unfolding bank_law_def by meson
  have all: "list_all2 (\<lambda>j r. to_rate code j = Inr r) rows rs" by (rule traverse_all [OF t])
  have "is_row j" if j: "j \<in> set rows" for j
  proof -
    obtain i where "i < length rows" "rows ! i = j" using j by (auto simp: in_set_conv_nth)
    then have "to_rate code j = Inr (rs ! i)" using all by (auto simp: list_all2_conv_all_nth)
    then show ?thesis by (rule to_rate_day(1))
  qed
  then have "filter is_row rows = rows" by (simp add: filter_id_conv)
  moreover have "map wire_day_of rows = map (\<lambda>r. Inr (effective_on r)) rs"
    using all by (intro nth_equalityI) (auto simp: list_all2_conv_all_nth dest: to_rate_day(2))
  ultimately have "map Inr (map effective_on rs) = (map Inr (map iso_string ds) :: (currency_error + string) list)"
    using ds(2) by (simp add: comp_def)
  then have "map effective_on rs = map iso_string ds" by (simp only: inj_map_eq_map [OF inj_Inr])
  moreover have "rate_code r = code" if r: "r \<in> set rs" for r
  proof -
    obtain i where "i < length rs" "rs ! i = r" using r by (auto simp: in_set_conv_nth)
    then have "to_rate code (rows ! i) = Inr r" using all by (auto simp: list_all2_conv_all_nth)
    then show ?thesis by (rule to_rate_day(3))
  qed
  moreover have "set ds \<subseteq> {x..y}"
    using ds(3) compact_day_less assms(2,3) by (auto simp: q_def linorder_not_less [symmetric])
  ultimately show ?thesis using ds unfolding rates_of_def by blast
qed

lemma fetch_chunks_days:
  assumes "bank_law b" and "normal_code code = code" and "distinct (concat (map (\<lambda>(x, y). [x..y]) chunks))"
    and "\<forall>(x, y)\<in>set chunks. four_digit_day x \<and> four_digit_day y"
    and "fetch_chunks b cf code (map (map_prod iso_string iso_string) chunks) w = (Inr rs, w')"
  shows "\<exists>ds. rates_of code ds rs \<and> distinct ds \<and> set ds \<subseteq> set (concat (map (\<lambda>(x, y). [x..y]) chunks))"
  using assms(3-5)
proof (induction chunks arbitrary: w rs)
  case Nil
  then show ?case by (simp add: rates_of_def)
next
  case (Cons c chunks)
  obtain x y where c: "c = (x, y)" by (cases c)
  obtain r1 w1 r2 where r: "fetch_range b cf code (iso_string x) (iso_string y) w = (Inr r1, w1)"
    "fetch_chunks b cf code (map (map_prod iso_string iso_string) chunks) w1 = (Inr r2, w')" "rs = r1 @ r2"
    using Cons.prems(3) c by (auto split: prod.splits sum.splits)
  have "four_digit_day x" "four_digit_day y" using Cons.prems(2) c by auto
  then obtain d1 where d1: "rates_of code d1 r1" "distinct d1" "set d1 \<subseteq> {x..y}"
    using fetch_range_days [OF assms(1) _ _ assms(2) r(1)] by blast
  obtain d2 where d2: "rates_of code d2 r2" "distinct d2" "set d2 \<subseteq> set (concat (map (\<lambda>(x, y). [x..y]) chunks))"
    using Cons.IH [OF _ _ r(2)] Cons.prems by auto
  have "{x..y} \<inter> set (concat (map (\<lambda>(x, y). [x..y]) chunks)) = {}" using Cons.prems(1) c by auto
  then have "distinct (d1 @ d2)" using d1 d2 by auto
  moreover have "rates_of code (d1 @ d2) rs" using d1(1) d2(1) r(3) by (auto simp: rates_of_def)
  moreover have "set (d1 @ d2) \<subseteq> set (concat (map (\<lambda>(x, y). [x..y]) (c # chunks)))" using d1(3) d2(3) c by auto
  ultimately show ?case by blast
qed

section \<open>What the table holds\<close>

definition row_at :: "rate_row list \<Rightarrow> string \<Rightarrow> string \<Rightarrow> rate_row option" where
  "row_at t i d = find (\<lambda>r. row_currency r = Some i \<and> row_day r = d) t"

lemma find_some_memberD: "find P xs = Some x \<Longrightarrow> x \<in> set xs \<and> P x"
  by (induction xs) (auto split: if_splits)

lemma row_at_upsert:
  "row_at (upsert_row r t) i d = (if row_currency r = Some i \<and> row_day r = d then Some r else row_at t i d)"
  by (induction t) (auto simp: row_at_def same_row_def)

lemma row_at_upserts:
  "row_at t i d \<noteq> None \<or> (\<exists>r\<in>set rs. row_currency r = Some i \<and> row_day r = d)
    \<Longrightarrow> row_at (foldl (\<lambda>t r. upsert_row r t) t rs) i d \<noteq> None"
  by (induction rs arbitrary: t) (auto simp: row_at_upsert)

lemma latest_row_greatest:
  "r \<in> set rs \<Longrightarrow> \<exists>s. latest_row rs = Some s \<and> row_day r \<le> row_day s"
  by (induction rs) (fastforce split: option.splits)+

lemma exact_probe:
  assumes "find (\<lambda>c. currency_code c = code) (currencies db) = Some c" and "row_at (rate_rows db) (currency_id c) d \<noteq> None"
  shows "probe_effective (probe_pair db (code, d)) = Some d"
proof -
  let ?rows = "filter (\<lambda>r. row_currency r = Some (currency_id c) \<and> row_day r \<le> d) (rate_rows db)"
  obtain r where r: "r \<in> set (rate_rows db)" "row_currency r = Some (currency_id c)" "row_day r = d"
    using assms(2) unfolding row_at_def by (auto dest: find_some_memberD)
  then have "r \<in> set ?rows" by simp
  then obtain s where s: "latest_row ?rows = Some s" "d \<le> row_day s" using latest_row_greatest r(3) by blast
  then have "row_day s \<le> d" using latest_row_member [OF s(1)] by simp
  then show ?thesis using s assms(1) by (simp add: probe_pair_def Let_def)
qed

lemma js_index_unique:
  assumes "distinct (map f xs)" and "js_get (js_index f xs) k = Some x"
  shows "find (\<lambda>x. f x = k) xs = Some x"
proof -
  have x: "x \<in> set xs" "f x = k" using assms(2) js_index_value by (fastforce simp: js_get_def dest: map_of_SomeD)+
  then have "find (\<lambda>x. f x = k) xs \<noteq> None" by (auto simp: find_None_iff)
  then obtain y where y: "find (\<lambda>x. f x = k) xs = Some y" by blast
  then have "y \<in> set xs" "f y = k" by (auto simp: find_Some_iff)
  then have "y = x" using assms(1) x by (auto simp: distinct_map inj_on_def)
  then show ?thesis using y by simp
qed

lemma find_filter: "find P (filter Q xs) = find (\<lambda>x. P x \<and> Q x) xs"
  by (induction xs) auto

definition stored_days :: "rate_db \<Rightarrow> string \<Rightarrow> int set \<Rightarrow> bool" where
  \<comment> \<open>a currency the table knows has a row of its own for each of the days\<close>
  "stored_days db code ds \<longleftrightarrow> (\<exists>c. find (\<lambda>c. currency_code c = code) (currencies db) = Some c
     \<and> (\<forall>d\<in>ds. row_at (rate_rows db) (currency_id c) (iso_string d) \<noteq> None))"

lemma update_new: "k \<notin> set (map fst m) \<Longrightarrow> AList.update k v m = m @ [(k, v)]"
  by (induction m) auto

lemma js_set_replicate: "js_set (replicate (Suc m) x) = [x]"
proof -
  have "foldl (\<lambda>acc x. if x \<in> set acc then acc else acc @ [x]) [x] (replicate m x) = [x]" by (induction m) auto
  then show ?thesis by (simp add: js_set_def)
qed

lemma dedupe_distinct: "distinct (map row_key rs) \<Longrightarrow> dedupe rs = rs"
proof (induction rs rule: rev_induct)
  case Nil
  then show ?case by (simp add: dedupe_def js_index_def)
next
  case (snoc r rs)
  then have "row_key r \<notin> set (map fst (js_index row_key rs))" unfolding js_index_keys by simp
  then have "js_index row_key (rs @ [r]) = js_index row_key rs @ [(row_key r, r)]"
    by (simp add: js_index_def update_new)
  then show ?case using snoc by (simp add: dedupe_def)
qed

lemma distinct_no_repeats: "distinct (map row_day rs) \<Longrightarrow> \<not> repeats_row rs"
  by (induction rs) (auto simp: list_ex_iff same_row_def)

lemma upsert_rates_stores:
  assumes "rates_of code ds rs" and "distinct ds" and "rs \<noteq> []" and "normal_code code = code" and "code \<noteq> []"
    and "distinct (map currency_code (currencies db))" and "upsert_rates rs db = (Inr n, db')"
  shows "n = length ds \<and> currencies db' = currencies db \<and> stored_days db' code (set ds)
    \<and> (\<forall>c e. stored_days db c e \<longrightarrow> stored_days db' c e)"
proof -
  have codes: "map rate_code rs = replicate (length rs) code" using assms(1) by (intro nth_equalityI) (auto simp: rates_of_def)
  have one: "js_set (map normal_code (map rate_code rs)) = [code]"
    using assms(3,4) js_set_replicate [of "length rs - 1" code] unfolding codes by (cases rs) simp_all
  have wanted: "wanted_codes [code] = [code]" using assms(4,5) by (simp add: wanted_codes_def js_set_def)
  let ?known = "filter (\<lambda>c. currency_code c = code) (currencies db)"
  obtain c where c: "js_get (js_index currency_code ?known) code = Some c"
    and ids: "resolve_ids db (map rate_code rs) = Inr (map (apsnd currency_id) (js_index currency_code ?known))"
    using assms(3,7) unfolding upsert_rates_def resolve_ids_def one find_by_codes_def wanted Let_def
    by (auto split: if_splits option.splits)
  have "distinct (map currency_code ?known)" using assms(6) by (simp add: distinct_map_filter)
  from js_index_unique [OF this c] have row: "find (\<lambda>c. currency_code c = code) (currencies db) = Some c"
    by (simp add: find_filter)
  have get: "js_get (map (apsnd currency_id) (js_index currency_code ?known)) code = Some (currency_id c)"
    using c by (simp add: js_get_def map_of_map apsnd_def map_prod_def)
  let ?rows = "map (\<lambda>r. \<lparr>row_currency = Some (currency_id c), row_rate = rate_value r, row_day = effective_on r\<rparr>) rs"
  have rows: "map (\<lambda>r. \<lparr>row_currency = js_get (map (apsnd currency_id) (js_index currency_code ?known)) (rate_code r),
      row_rate = rate_value r, row_day = effective_on r\<rparr>) rs = ?rows"
    using assms(1) get by (auto simp: rates_of_def)
  have days: "map row_day ?rows = map iso_string ds" using assms(1) by (simp add: rates_of_def comp_def)
  have "inj_on iso_string (set ds)" using assms(1) iso_string_inject by (auto simp: rates_of_def inj_on_def)
  then have dist: "distinct (map row_day ?rows)" using assms(2) unfolding days by (simp add: distinct_map)
  then have "distinct (map row_key ?rows)" by (simp add: distinct_map inj_on_def row_key_def)
  then have dedupe: "dedupe ?rows = ?rows" by (rule dedupe_distinct)
  have "upsert_chunks (chunkify upsert_chunk_size ?rows) db
      = (Inr (), db\<lparr>rate_rows := foldl (\<lambda>t r. upsert_row r t) (rate_rows db) ?rows\<rparr>)"
    using upsert_chunks_success [of "chunkify upsert_chunk_size ?rows" db] distinct_no_repeats [OF dist]
    by (simp add: upsert_chunk_size_def)
  then have out: "upsert_rates rs db
      = (Inr (length ?rows), db\<lparr>rate_rows := foldl (\<lambda>t r. upsert_row r t) (rate_rows db) ?rows\<rparr>)"
    using assms(3) unfolding upsert_rates_def ids sum.case rows upsert_many_def dedupe Let_def by simp
  then have db': "db' = db\<lparr>rate_rows := foldl (\<lambda>t r. upsert_row r t) (rate_rows db) ?rows\<rparr>" and n: "n = length rs"
    using assms(7) by simp_all
  have "length rs = length ds" using assms(1) by (metis length_map rates_of_def)
  moreover have "stored_days db' code (set ds)"
  proof -
    have "row_at (rate_rows db') (currency_id c) (iso_string d) \<noteq> None" if "d \<in> set ds" for d
    proof -
      have "iso_string d \<in> set (map row_day ?rows)" unfolding days using that by simp
      then have "\<exists>r\<in>set ?rows. row_currency r = Some (currency_id c) \<and> row_day r = iso_string d" by auto
      then show ?thesis unfolding db' by (simp del: set_map add: row_at_upserts)
    qed
    then show ?thesis using row unfolding stored_days_def by (intro exI [of _ c]) (simp add: db')
  qed
  moreover have "stored_days db' k e" if "stored_days db k e" for k e
    using that row_at_upserts unfolding stored_days_def db' by fastforce
  ultimately show ?thesis using n by (simp add: db')
qed

section \<open>A run over the currencies\<close>

lemma fetch_code_span:
  assumes "bank_law b" and "normal_code code = code" and "four_digit_day x" and "four_digit_day y"
    and "fetch_code b cf code (map (map_prod iso_string iso_string) (year_ranges x y)) w = (Inr rs, w')"
  shows "\<exists>m n. rates_of code [m..n] rs \<and> {m..n} \<subseteq> {x..y}"
proof -
  let ?chunks = "year_ranges x y"
  have cover: "concat (map (\<lambda>(x, y). [x..y]) ?chunks) = [x..y]" by (rule year_ranges_cover)
  have four: "four_digit_day p \<and> four_digit_day q" if "(p, q) \<in> set ?chunks" for p q
  proof -
    have "p \<le> q" using year_ranges_years [OF that] by simp
    then have "set [p..q] \<subseteq> set [x..y]" "p \<in> set [p..q]" "q \<in> set [p..q]"
      using that unfolding cover [symmetric] by (force, simp, simp)
    then show ?thesis using four_digit_between [OF assms(3,4)] by auto
  qed
  obtain collected where c: "fetch_chunks b cf code (map (map_prod iso_string iso_string) ?chunks) w = (Inr collected, w')"
    "fill_gaps collected = Inr rs"
    using assms(5) by (auto simp: fetch_code_def split: prod.splits sum.splits)
  have "distinct (concat (map (\<lambda>(x, y). [x..y]) ?chunks))" by (simp only: cover distinct_upto)
  moreover have "\<forall>(x, y)\<in>set ?chunks. four_digit_day x \<and> four_digit_day y" using four by blast
  ultimately obtain ds where ds: "rates_of code ds collected" "distinct ds" "set ds \<subseteq> {x..y}"
    using fetch_chunks_days [OF assms(1,2) _ _ c(1)] unfolding cover by auto
  show ?thesis
  proof (cases "collected = []")
    case True
    then have "rates_of code [1..0] rs" using c(2) by (simp add: fill_gaps_def rates_of_def)
    then show ?thesis by (intro exI [of _ 1] exI [of _ 0]) simp
  next
    case False
    have "map effective_on collected = map iso_string ds" "\<forall>d\<in>set ds. four_digit_day d"
      using ds(1) by (simp_all add: rates_of_def)
    moreover have "inj_on iso_string (set ds)" using calculation(2) iso_string_inject by (auto simp: inj_on_def)
    ultimately have "distinct (map effective_on collected)" using ds(2) by (simp add: distinct_map)
    have day: "effective_on r \<in> iso_string ` set ds" if "r \<in> set collected" for r
      using that \<open>map effective_on collected = _\<close> by (metis image_eqI image_set)
    then have dated: "\<forall>r\<in>set collected. dated r" using \<open>\<forall>d\<in>set ds. _ d\<close> unfolding dated_def by blast
    have "rate_day r \<in> set ds" if "r \<in> set collected" for r
      using day [OF that] datedD [of r] dated that \<open>\<forall>d\<in>set ds. _ d\<close> iso_string_inject by auto
    then have days: "rate_day ` set collected \<subseteq> {x..y}" using ds(3) by blast
    let ?m = "Min (rate_day ` set collected)" and ?n = "Max (rate_day ` set collected)"
    have one: "\<forall>r\<in>set collected. \<forall>s\<in>set collected. rate_code r = rate_code s" using ds(1) by (simp add: rates_of_def)
    from fill_gaps_spec [OF False dated \<open>distinct (map effective_on collected)\<close> one] c(2)
    have f: "map effective_on rs = map iso_string [?m..?n]"
      "\<forall>x\<in>set rs. \<exists>k s. in_force (set collected) k s \<and> x = s\<lparr>effective_on := iso_string k\<rparr>" by auto
    have "?m \<in> rate_day ` set collected" "?n \<in> rate_day ` set collected" using False by (auto intro!: Min_in Max_in)
    then have span: "{?m..?n} \<subseteq> {x..y}" using days by auto
    have "\<forall>r\<in>set rs. rate_code r = code" using f(2) ds(1) by (auto simp: in_force_def rates_of_def)
    moreover have "\<forall>d\<in>set [?m..?n]. four_digit_day d" using span four_digit_between [OF assms(3,4)] by auto
    ultimately show ?thesis using f(1) span unfolding rates_of_def by blast
  qed
qed

lemma run_codes_stores:
  assumes "bank_law b" and "four_digit_day x" and "four_digit_day y"
    and "\<forall>c\<in>set codes. normal_code c = c \<and> c \<noteq> []" and "distinct (map currency_code (currencies db))"
    and "run_codes b cf False (map (map_prod iso_string iso_string) (year_ranges x y)) codes f0 n0 (w, db)
      = (Inr (fetched, written), w', db')"
  shows "\<exists>spans. list_all2 (\<lambda>code (p, q). {p..q} \<subseteq> {x..y} \<and> (p \<le> q \<longrightarrow> stored_days db' code {p..q})) codes spans
    \<and> fetched = f0 + (\<Sum>(p, q)\<leftarrow>spans. nat (q - p + 1)) \<and> written = n0 + (\<Sum>(p, q)\<leftarrow>spans. nat (q - p + 1))
    \<and> (\<forall>c e. stored_days db c e \<longrightarrow> stored_days db' c e)"
  using assms(4-6)
proof (induction codes arbitrary: f0 n0 w db)
  case Nil
  then show ?case by simp
next
  case (Cons code codes)
  let ?chunks = "map (map_prod iso_string iso_string) (year_ranges x y)"
  have code: "normal_code code = code" "code \<noteq> []" using Cons.prems(1) by auto
  obtain rs w1 where rs: "fetch_code b cf code ?chunks w = (Inr rs, w1)"
    using Cons.prems(3) by (auto split: prod.splits sum.splits)
  obtain p q where pq: "rates_of code [p..q] rs" "{p..q} \<subseteq> {x..y}"
    using fetch_code_span [OF assms(1) code(1) assms(2,3) rs] by blast
  have len: "length rs = nat (q - p + 1)" using pq(1) by (metis length_map length_upto rates_of_def)
  obtain n1 db1 where step: "run_codes b cf False ?chunks codes (f0 + length rs) (n0 + length rs) (w1, db1)
      = (Inr (fetched, written), w', db')" "currencies db1 = currencies db"
    "p \<le> q \<longrightarrow> stored_days db1 code {p..q}" "\<forall>c e. stored_days db c e \<longrightarrow> stored_days db1 c e"
  proof (cases "rs = []")
    case True
    then have "q < p" using len by simp
    then show ?thesis using that [of db] Cons.prems(3) rs True by simp
  next
    case False
    then obtain n db1 where u: "upsert_rates rs db = (Inr n, db1)"
      "run_codes b cf False ?chunks codes (f0 + length rs) (n0 + n) (w1, db1) = (Inr (fetched, written), w', db')"
      using Cons.prems(3) rs by (auto split: prod.splits sum.splits)
    note s = upsert_rates_stores [OF pq(1) distinct_upto False code Cons.prems(2) u(1)]
    then show ?thesis using that [of db1] u(2) len by simp
  qed
  have "distinct (map currency_code (currencies db1))" using Cons.prems(2) step(2) by simp
  then obtain spans where spans: "list_all2 (\<lambda>code (p, q). {p..q} \<subseteq> {x..y} \<and> (p \<le> q \<longrightarrow> stored_days db' code {p..q})) codes spans"
    "fetched = f0 + length rs + (\<Sum>(p, q)\<leftarrow>spans. nat (q - p + 1))"
    "written = n0 + length rs + (\<Sum>(p, q)\<leftarrow>spans. nat (q - p + 1))"
    "\<forall>c e. stored_days db1 c e \<longrightarrow> stored_days db' c e"
    using Cons.IH [OF _ _ step(1)] Cons.prems(1) by auto
  then show ?case
    using pq(2) step(3,4) len by (intro exI [of _ "(p, q) # spans"]) simp
qed

lemma resolve_codes_normal:
  "resolve_codes db cf requested = Inr codes \<Longrightarrow> \<forall>c\<in>set codes. normal_code c = c \<and> c \<noteq> []"
  by (auto simp: resolve_codes_def Let_def wanted_codes_def split: if_splits)


text \<open>A bank that publishes the dollar on the first and the third of May 2024: the second is filled.\<close>

definition may_rate :: "string \<Rightarrow> json" where
  "may_rate day = J_object [(''exchangedate'', J_str day), (''cc'', J_str ''USD''), (''rate'', J_num 4000),
     (''units'', J_num 100), (''rate_per_unit'', J_num 40)]"

definition may_bank :: "unit bank" where
  "may_bank =
     \<lparr>bank_fetch = (\<lambda>q w. (Ok_Json (J_array
        (if query_start q \<le> ''20240501'' \<and> ''20240503'' \<le> query_end q
         then [may_rate ''01.05.2024'', may_rate ''03.05.2024''] else [])), w)),
      bank_wait = (\<lambda>ms w. w)\<rparr>"

lemma may_bank_law: "bank_law may_bank"
proof -
  have days: "iso_string 19844 = ''2024-05-01''" "iso_string 19846 = ''2024-05-03''" by code_simp+
  have compact: "compact_day 19844 = ''20240501''" "compact_day 19846 = ''20240503''" by (simp_all add: compact_day_def days)
  have wire: "wire_day_of (may_rate ''01.05.2024'') = Inr (iso_string 19844)" "is_row (may_rate ''01.05.2024'')"
    "wire_day_of (may_rate ''03.05.2024'') = Inr (iso_string 19846)" "is_row (may_rate ''03.05.2024'')"
    unfolding days by code_simp+
  have order: "''20240501'' \<le> (''20240503'' :: string)" by code_simp
  show ?thesis
    unfolding bank_law_def
  proof (intro allI impI)
    fix q w rows w'
    assume "bank_fetch may_bank q w = (Ok_Json (J_array rows), w')"
    then consider "rows = []"
      | "rows = [may_rate ''01.05.2024'', may_rate ''03.05.2024'']" "query_start q \<le> ''20240501''" "''20240503'' \<le> query_end q"
      by (auto simp: may_bank_def split: if_splits)
    then show "\<exists>ds. distinct ds \<and> map wire_day_of (filter is_row rows) = map (\<lambda>d. Inr (iso_string d)) ds
        \<and> (\<forall>d\<in>set ds. four_digit_day d \<and> query_start q \<le> compact_day d \<and> compact_day d \<le> query_end q)"
    proof cases
      case 1
      then show ?thesis by (intro exI [of _ "[]"]) simp
    next
      case 2
      have "query_start q \<le> ''20240503''" "''20240501'' \<le> query_end q"
        using order 2(2,3) by (blast intro: order_trans)+
      then show ?thesis
        using 2 by (intro exI [of _ "[19844, 19846]"]) (simp add: wire compact four_digit_day_def)
    qed
  qed
qed


end
