(* ===== verification/Sync_Log.thy ===== *)
theory Sync_Log
  imports Js_Prelude
begin

text \<open>
  The \<open>sync_log\<close> table, its lock and the liveness of the instances: \<open>SyncLogRepository\<close> and
  \<open>InstanceService\<close>.  The table is the list of its rows in the order they were inserted, and each
  statement the function its SQL text describes.  The partial unique index over the open rows, created by
  hand in a migration, is what makes an insert the acquisition of a lock.  Times are milliseconds; the
  error column holds a value of \<open>sync_failure\<close> instead of its text.
\<close>

datatype sync_trigger = Trigger_Manual | Trigger_Cron

datatype listing_stop = Exhausted | Counted | Page_Failed | Page_Cap | Short_Listing | Ambiguous

datatype sync_failure =
    Did_Not_Complete | Listing_Incomplete listing_stop int "int option" | Timed_Out int | Thrown string
  | Owner_Gone | Outlived

record sync_outcome =
  oc_success :: bool
  oc_error :: "sync_failure option"
  oc_added :: int
  oc_removed :: int
  oc_updated :: int
  oc_total :: int

record sync_row =
  sl_id :: nat
  sl_store :: string
  sl_group :: "string option"
  sl_trigger :: sync_trigger
  sl_log_file :: "string option"
  sl_owner :: "string option"
  sl_success :: "bool option"
  sl_error :: "sync_failure option"
  sl_added :: int
  sl_removed :: int
  sl_updated :: int
  sl_total :: int
  sl_created :: int
  sl_updated_at :: int
  sl_finished :: "int option"

datatype lock_key = Group_Lock string | Store_Lock string

section \<open>The statements\<close>

definition lock_of :: "string \<Rightarrow> string option \<Rightarrow> lock_key" where
  \<comment> \<open>the indexed expression: \<open>'g:' || group\<close> when there is a group, else \<open>'s:' || storeId\<close>\<close>
  "lock_of store grp = (case grp of Some g \<Rightarrow> Group_Lock g | None \<Rightarrow> Store_Lock store)"

definition row_lock :: "sync_row \<Rightarrow> lock_key" where
  "row_lock r = lock_of (sl_store r) (sl_group r)"

definition open_row :: "sync_row \<Rightarrow> bool" where
  "open_row r = (sl_success r = None)"

definition try_start ::
  "int \<Rightarrow> nat \<Rightarrow> string \<Rightarrow> string option \<Rightarrow> sync_trigger \<Rightarrow> string option \<Rightarrow> string option \<Rightarrow> sync_row list
    \<Rightarrow> sync_row option \<times> sync_row list" where
  \<comment> \<open>the time and the fresh id of the insert; a violation of the index is the answer \<open>None\<close>\<close>
  "try_start now i store grp trigger log_file owner t =
     (let row = \<lparr>sl_id = i, sl_store = store, sl_group = grp, sl_trigger = trigger, sl_log_file = log_file,
                 sl_owner = owner, sl_success = None, sl_error = None, sl_added = 0, sl_removed = 0, sl_updated = 0,
                 sl_total = 0, sl_created = now, sl_updated_at = now, sl_finished = None\<rparr>
      in if list_ex (\<lambda>r. open_row r \<and> row_lock r = row_lock row) t then (None, t) else (Some row, t @ [row]))"

definition touch_row :: "int \<Rightarrow> nat \<Rightarrow> int \<Rightarrow> sync_row list \<Rightarrow> sync_row list" where
  "touch_row now i n t = map (\<lambda>r. if sl_id r = i then r\<lparr>sl_updated_at := now, sl_total := n\<rparr> else r) t"

definition finish_row :: "int \<Rightarrow> nat \<Rightarrow> sync_outcome \<Rightarrow> sync_row list \<Rightarrow> sync_row list" where
  "finish_row now i oc t =
     map (\<lambda>r. if sl_id r = i then r\<lparr>sl_finished := Some now, sl_updated_at := now, sl_success := Some (oc_success oc),
                sl_error := oc_error oc, sl_added := oc_added oc, sl_removed := oc_removed oc,
                sl_updated := oc_updated oc, sl_total := oc_total oc\<rparr> else r) t"

definition owner_gone :: "string list option \<Rightarrow> sync_row \<Rightarrow> bool" where
  "owner_gone alive r =
     (case alive of
        None \<Rightarrow> False
      | Some ids \<Rightarrow> (case sl_owner r of None \<Rightarrow> True | Some i \<Rightarrow> i \<notin> set ids))"

definition orphaned :: "int \<Rightarrow> string list option \<Rightarrow> int \<Rightarrow> sync_row \<Rightarrow> bool" where
  "orphaned now alive max_age r = (open_row r \<and> (owner_gone alive r \<or> sl_updated_at r < now - max_age))"

definition sweep_orphaned :: "int \<Rightarrow> string list option \<Rightarrow> int \<Rightarrow> sync_row list \<Rightarrow> nat \<times> sync_row list" where
  "sweep_orphaned now alive max_age t =
     (length (filter (orphaned now alive max_age) t),
      map (\<lambda>r. if orphaned now alive max_age r
               then r\<lparr>sl_success := Some False, sl_error := Some (if owner_gone alive r then Owner_Gone else Outlived),
                      sl_finished := Some now, sl_updated_at := now\<rparr> else r) t)"

definition open_owners :: "sync_row list \<Rightarrow> string list" where
  "open_owners t = js_set (concat (map (\<lambda>r. case sl_owner r of None \<Rightarrow> [] | Some i \<Rightarrow> [i]) (filter open_row t)))"

record running_sync =
  rn_id :: nat
  rn_store :: string
  rn_slug :: string
  rn_group :: "string option"
  rn_started :: int
  rn_total :: int

definition find_running :: "(string \<times> string) list \<Rightarrow> sync_row list \<Rightarrow> running_sync list" where
  \<comment> \<open>the open rows joined to the slugs of their stores, oldest first\<close>
  "find_running slugs t =
     sort_key rn_started (concat (map (\<lambda>r. case js_get slugs (sl_store r) of
          None \<Rightarrow> []
        | Some slug \<Rightarrow> [\<lparr>rn_id = sl_id r, rn_store = sl_store r, rn_slug = slug, rn_group = sl_group r,
                         rn_started = sl_created r, rn_total = sl_total r\<rparr>]) (filter open_row t)))"

definition last_successful :: "sync_row list \<Rightarrow> string \<Rightarrow> int option" where
  \<comment> \<open>\<open>MAX(COALESCE(finishedAt, createdAt))\<close> over a store's successful rows\<close>
  "last_successful t store =
     (case map (\<lambda>r. case sl_finished r of Some f \<Rightarrow> f | None \<Rightarrow> sl_created r)
             (filter (\<lambda>r. sl_store r = store \<and> sl_success r = Some True) t) of
        [] \<Rightarrow> None
      | x # xs \<Rightarrow> Some (fold max xs x))"

section \<open>Liveness\<close>

definition instance_heartbeat_interval_ms :: int where "instance_heartbeat_interval_ms = 10000"

definition instance_heartbeat_ttl_sec :: int where "instance_heartbeat_ttl_sec = 30"

definition sync_orphan_age_margin_ms :: int where "sync_orphan_age_margin_ms = 300000"

type_synonym heartbeats = "string \<Rightarrow> int option"

definition beat :: "int \<Rightarrow> string \<Rightarrow> heartbeats \<Rightarrow> heartbeats" where
  \<comment> \<open>the key of an instance and the time it expires\<close>
  "beat now i h = h(i \<mapsto> now + instance_heartbeat_ttl_sec * 1000)"

definition drop_beat :: "string \<Rightarrow> heartbeats \<Rightarrow> heartbeats" where
  "drop_beat i h = h(i := None)"

definition alive_at :: "int \<Rightarrow> heartbeats \<Rightarrow> string \<Rightarrow> bool" where
  "alive_at now h i = (case h i of None \<Rightarrow> False | Some x \<Rightarrow> now < x)"

definition alive_among :: "bool \<Rightarrow> int \<Rightarrow> heartbeats \<Rightarrow> string list \<Rightarrow> string list option" where
  \<comment> \<open>whether the store answers; with nobody to ask about it is not asked\<close>
  "alive_among answers now h ids =
     (if ids = [] then Some [] else if answers then Some (filter (alive_at now h) ids) else None)"

definition alive_owners :: "bool \<Rightarrow> int \<Rightarrow> heartbeats \<Rightarrow> string \<Rightarrow> sync_row list \<Rightarrow> string list option" where
  "alive_owners answers now h self t =
     (case alive_among answers now h (open_owners t) of None \<Rightarrow> None | Some alive \<Rightarrow> Some (alive @ [self]))"

section \<open>Facts\<close>

named_theorems sync_log_simps \<open>what a statement does to the rows it leaves alone\<close>

lemma try_start_lock:
  assumes "try_start now i store grp trigger f owner t = (Some row, t')"
  shows "t' = t @ [row]" and "open_row row" and "sl_id row = i" and "row_lock row = lock_of store grp"
    and "sl_owner row = owner" and "sl_updated_at row = now" and "sl_created row = now" and "sl_store row = store" and "sl_group row = grp"
    and "\<forall>r\<in>set t. open_row r \<longrightarrow> row_lock r \<noteq> row_lock row"
  using assms by (auto simp: try_start_def Let_def open_row_def row_lock_def list_ex_iff split: if_splits)

lemma try_start_refused: "try_start now i store grp trigger f owner t = (None, t') \<Longrightarrow> t' = t
    \<and> (\<exists>r\<in>set t. open_row r \<and> row_lock r = lock_of store grp)"
  by (auto simp: try_start_def Let_def list_ex_iff row_lock_def split: if_splits)

lemma open_touch [sync_log_simps]: "filter open_row (touch_row now i n t) = touch_row now i n (filter open_row t)"
  by (induction t) (auto simp: touch_row_def open_row_def)

lemma ids_touch [sync_log_simps, simp]: "map sl_id (touch_row now i n t) = map sl_id t"
  by (simp add: touch_row_def)

lemma ids_finish [sync_log_simps, simp]: "map sl_id (finish_row now i oc t) = map sl_id t"
  by (simp add: finish_row_def)

lemma ids_sweep [sync_log_simps, simp]: "map sl_id (snd (sweep_orphaned now alive m t)) = map sl_id t"
  by (simp add: sweep_orphaned_def)

lemma touch_locks [sync_log_simps]: "map row_lock (filter open_row (touch_row now i n t)) = map row_lock (filter open_row t)"
  by (induction t) (auto simp: touch_row_def open_row_def row_lock_def)

lemma finish_locks [sync_log_simps]:
  "map row_lock (filter open_row (finish_row now i oc t)) = map row_lock (filter (\<lambda>r. open_row r \<and> sl_id r \<noteq> i) t)"
  by (induction t) (auto simp: finish_row_def open_row_def row_lock_def)

lemma sweep_locks [sync_log_simps]:
  "map row_lock (filter open_row (snd (sweep_orphaned now alive m t)))
     = map row_lock (filter (\<lambda>r. open_row r \<and> \<not> orphaned now alive m r) t)"
  by (induction t) (auto simp: sweep_orphaned_def open_row_def row_lock_def orphaned_def)

end
