(* ===== verification/Sync_Orchestrator.thy ===== *)
theory Sync_Orchestrator
  imports Sync_Log
begin

text \<open>
  \<open>SyncOrchestratorService\<close>: which stores may be synced, how a run acquires and releases its lock, what a
  collection comes to, and how a full sync is split into tracks.  The scrape itself is a parameter: how the
  collection ends and after how long.  A log line is its level with the value it renders, the text of an
  error the value of \<open>sync_error\<close> or \<open>sync_failure\<close>.
\<close>

datatype sync_engine = Engine_Python | Engine_Ts | Engine_Python_Api

record store_item =
  st_id :: string
  st_slug :: string
  st_name :: string
  st_base_url :: string
  st_active :: bool
  st_tier :: "int option"
  st_needs_browser :: "bool option"
  st_group :: "string option"
  st_engine :: "sync_engine option"

record sync_config =
  max_parallel_tracks :: nat
  store_timeout_ms :: int
  browser_store_timeout_ms :: int
  llm_deadline_margin_ms :: int

record site_result =
  sr_found :: int
  sr_stored :: int
  sr_added :: int
  sr_removed :: int
  sr_complete :: bool
  sr_stop :: listing_stop
  sr_stated :: "int option"

datatype sync_blocker =
    Running_Already string | Store_Syncing string int | Group_Syncing string "string option" string int

datatype sync_error =
    Store_Not_Found string | Store_Not_Active string | No_Scrape_Config string | Other_Engine string "sync_engine option"
  | Blocked sync_blocker | Db_Failed string

section \<open>Starting a run\<close>

definition resolve_syncable :: "store_item list \<Rightarrow> string \<Rightarrow> sync_error + store_item" where
  "resolve_syncable stores slug =
     (case find (\<lambda>s. st_slug s = slug) stores of
        None \<Rightarrow> Inl (Store_Not_Found slug)
      | Some s \<Rightarrow>
          if \<not> st_active s then Inl (Store_Not_Active slug)
          else if st_tier s = None then Inl (No_Scrape_Config slug)
          else if st_engine s \<noteq> Some Engine_Ts then Inl (Other_Engine slug (st_engine s))
          else Inr s)"

definition store_slugs :: "store_item list \<Rightarrow> (string \<times> string) list" where
  \<comment> \<open>the column the running rows are joined to\<close>
  "store_slugs stores = map (\<lambda>s. (st_id s, st_slug s)) stores"

definition describe_blocker :: "store_item list \<Rightarrow> sync_row list \<Rightarrow> store_item \<Rightarrow> sync_blocker" where
  "describe_blocker stores t store =
     (case find (\<lambda>r. rn_store r = st_id store \<or> (st_group store \<noteq> None \<and> rn_group r = st_group store))
             (find_running (store_slugs stores) t) of
        None \<Rightarrow> Running_Already (st_slug store)
      | Some b \<Rightarrow>
          if rn_store b = st_id store then Store_Syncing (st_slug store) (rn_started b)
          else Group_Syncing (st_slug store) (st_group store) (rn_slug b) (rn_started b))"

definition acquire_run ::
  "int \<Rightarrow> nat \<Rightarrow> string \<Rightarrow> (string \<Rightarrow> string option) \<Rightarrow> store_item list \<Rightarrow> store_item \<Rightarrow> sync_trigger \<Rightarrow> sync_row list
    \<Rightarrow> (sync_error + sync_row) \<times> sync_row list" where
  \<comment> \<open>the time and id of the insert, the instance and the name given to a log file\<close>
  "acquire_run now i self file_name stores store trigger t =
     (case try_start now i (st_id store) (st_group store) trigger (file_name (st_slug store)) (Some self) t of
        (None, t') \<Rightarrow> (Inl (Blocked (describe_blocker stores t' store)), t')
      | (Some row, t') \<Rightarrow> (Inr row, t'))"

definition start_store_sync ::
  "int \<Rightarrow> nat \<Rightarrow> string \<Rightarrow> (string \<Rightarrow> string option) \<Rightarrow> store_item list \<Rightarrow> string \<Rightarrow> sync_trigger \<Rightarrow> sync_row list
    \<Rightarrow> (sync_error + store_item \<times> sync_row) \<times> sync_row list" where
  \<comment> \<open>up to the run it starts in the background, or awaits when the cron started it\<close>
  "start_store_sync now i self file_name stores slug trigger t =
     (case resolve_syncable stores slug of
        Inl e \<Rightarrow> (Inl e, t)
      | Inr store \<Rightarrow>
          (case acquire_run now i self file_name stores store trigger t of
             (Inl e, t') \<Rightarrow> (Inl e, t')
           | (Inr row, t') \<Rightarrow> (Inr (store, row), t')))"

section \<open>One run\<close>

definition unknown_failure :: sync_outcome where
  "unknown_failure = \<lparr>oc_success = False, oc_error = Some Did_Not_Complete, oc_added = 0, oc_removed = 0, oc_updated = 0,
     oc_total = 0\<rparr>"

definition outcome_of :: "site_result \<Rightarrow> sync_outcome" where
  "outcome_of r =
     (let counted = (\<lambda>ok err. \<lparr>oc_success = ok, oc_error = err, oc_added = sr_added r, oc_removed = sr_removed r,
                              oc_updated = sr_stored r - sr_added r, oc_total = sr_found r\<rparr>)
      in if sr_complete r then counted True None
         else counted False (Some (Listing_Incomplete (sr_stop r) (sr_found r) (sr_stated r))))"

definition timeout_of :: "sync_config \<Rightarrow> store_item \<Rightarrow> int" where
  "timeout_of cf s = (if st_needs_browser s = Some True then browser_store_timeout_ms cf else store_timeout_ms cf)"

definition soft_deadline_of :: "sync_config \<Rightarrow> store_item \<Rightarrow> int" where
  \<comment> \<open>when the optional passes must stop\<close>
  "soft_deadline_of cf s = max 0 (timeout_of cf s - llm_deadline_margin_ms cf)"

type_synonym collection = "(int \<times> (sync_failure + site_result)) option"

definition collect :: "sync_config \<Rightarrow> store_item \<Rightarrow> collection \<Rightarrow> sync_failure + site_result" where
  \<comment> \<open>the race: a collection that settles before the timeout, or the timeout\<close>
  "collect cf s ending =
     (case ending of
        None \<Rightarrow> Inl (Timed_Out (timeout_of cf s))
      | Some (after, result) \<Rightarrow> if after < timeout_of cf s then result else Inl (Timed_Out (timeout_of cf s)))"

datatype log_level = Log_Info | Log_Debug | Log_Warning | Log_Error

datatype sync_metric =
    Run_Started | Run_Finished string sync_trigger bool int | Items_Written string string int
  | Page_Walked string | Detail_Fetched string bool int | Deadline_Skipped string string int
  | Listing_Incompleted string listing_stop | Stock_Dropped string

definition record_counters :: "string \<Rightarrow> sync_outcome \<Rightarrow> sync_metric list" where
  "record_counters slug oc =
     [Items_Written slug ''added'' (oc_added oc), Items_Written slug ''updated'' (oc_updated oc),
      Items_Written slug ''removed'' (oc_removed oc), Items_Written slug ''seen'' (oc_total oc)]"

definition run_outcome :: "sync_config \<Rightarrow> store_item \<Rightarrow> collection \<Rightarrow> sync_outcome" where
  \<comment> \<open>what the \<open>try\<close> and the \<open>catch\<close> leave in \<open>outcome\<close>\<close>
  "run_outcome cf s ending =
     (case collect cf s ending of
        Inr r \<Rightarrow> outcome_of r
      | Inl e \<Rightarrow> unknown_failure\<lparr>oc_error := Some e\<rparr>)"

definition run_footer :: "sync_config \<Rightarrow> store_item \<Rightarrow> collection \<Rightarrow> log_level" where
  "run_footer cf s ending =
     (case collect cf s ending of
        Inr r \<Rightarrow> if oc_success (outcome_of r) then Log_Info else Log_Warning
      | Inl _ \<Rightarrow> Log_Error)"

definition run_store_sync ::
  "sync_config \<Rightarrow> store_item \<Rightarrow> nat \<Rightarrow> sync_trigger \<Rightarrow> collection \<Rightarrow> bool \<Rightarrow> int \<Rightarrow> int \<Rightarrow> sync_row list
    \<Rightarrow> (sync_error + sync_outcome) \<times> sync_metric list \<times> sync_row list" where
  \<comment> \<open>how the collection ends, whether the closing statement succeeds, when the run began and ended\<close>
  "run_store_sync cf s i trigger ending closes began now t =
     (let oc = run_outcome cf s ending;
          metrics = Run_Started # Run_Finished (st_slug s) trigger (oc_success oc) (now - began) # record_counters (st_slug s) oc
      in if closes then (Inr oc, metrics, finish_row now i oc t) else (Inl (Db_Failed (st_slug s)), metrics, t))"

section \<open>Progress\<close>

datatype llm_pass = Pass_Fields | Pass_Names | Pass_Flavors

datatype progress_event =
    Ev_Page int int int
  | Ev_Fetched int int
  | Ev_Page_Blank int int string
  | Ev_Page_Recovered int int
  | Ev_Enrich int int
  | Ev_Detail_Failed string string
  | Ev_Detail_Deadline int int
  | Ev_Llm llm_pass int
  | Ev_Llm_Deadline llm_pass int
  | Ev_Persisted int int int int
  | Ev_Listing_Incomplete listing_stop int int
  | Ev_Stock_Drop int int
  | Ev_Kb_Applied int int

definition pass_name :: "llm_pass \<Rightarrow> string" where
  "pass_name p = (case p of Pass_Fields \<Rightarrow> ''fields'' | Pass_Names \<Rightarrow> ''names'' | Pass_Flavors \<Rightarrow> ''flavors'')"

fun progress_total :: "progress_event \<Rightarrow> int option" where
  "progress_total (Ev_Page _ _ n) = Some n"
| "progress_total (Ev_Fetched found _) = Some found"
| "progress_total _ = None"

fun record_progress :: "string \<Rightarrow> progress_event \<Rightarrow> sync_metric list" where
  "record_progress slug (Ev_Page _ _ _) = [Page_Walked slug]"
| "record_progress slug (Ev_Detail_Failed _ _) = [Detail_Fetched slug False 1]"
| "record_progress slug (Ev_Detail_Deadline _ pending) = [Deadline_Skipped slug ''detail'' pending]"
| "record_progress slug (Ev_Llm_Deadline pass pending) = [Deadline_Skipped slug (pass_name pass) pending]"
| "record_progress slug (Ev_Listing_Incomplete stop _ _) = [Listing_Incompleted slug stop]"
| "record_progress slug (Ev_Stock_Drop _ _) = [Stock_Dropped slug]"
| "record_progress slug _ = []"

fun progress_level :: "progress_event \<Rightarrow> log_level" where
  "progress_level (Ev_Page _ _ _) = Log_Debug"
| "progress_level (Ev_Fetched _ _) = Log_Info"
| "progress_level (Ev_Page_Blank _ _ _) = Log_Warning"
| "progress_level (Ev_Page_Recovered _ _) = Log_Info"
| "progress_level (Ev_Enrich done pending) = (if done \<ge> pending then Log_Info else Log_Debug)"
| "progress_level (Ev_Detail_Failed _ _) = Log_Warning"
| "progress_level (Ev_Detail_Deadline _ _) = Log_Warning"
| "progress_level (Ev_Llm _ _) = Log_Info"
| "progress_level (Ev_Llm_Deadline _ _) = Log_Warning"
| "progress_level (Ev_Persisted _ _ _ _) = Log_Info"
| "progress_level (Ev_Listing_Incomplete _ _ _) = Log_Warning"
| "progress_level (Ev_Stock_Drop _ _) = Log_Warning"
| "progress_level (Ev_Kb_Applied _ _) = Log_Info"

definition report_progress ::
  "int \<Rightarrow> string \<Rightarrow> nat \<Rightarrow> progress_event \<Rightarrow> int \<times> sync_row list
    \<Rightarrow> (log_level \<times> progress_event) \<times> sync_metric list \<times> int \<times> sync_row list" where
  \<comment> \<open>the reporter of one run: its count of details done and the table it touches\<close>
  "report_progress now slug i ev s =
     (case s of (details, t) \<Rightarrow>
        let counted = (case ev of Ev_Enrich d _ \<Rightarrow> [Detail_Fetched slug True (max 0 (d - details))] | _ \<Rightarrow> []);
            details' = (case ev of Ev_Enrich d _ \<Rightarrow> d | _ \<Rightarrow> details)
        in ((progress_level ev, ev), counted @ record_progress slug ev, details',
            case progress_total ev of None \<Rightarrow> t | Some n \<Rightarrow> touch_row now i n t))"

section \<open>A full sync\<close>

record store_report =
  rp_slug :: string
  rp_duration :: int
  rp_outcome :: "sync_outcome option"
  rp_skip :: "sync_error option"
  rp_log_file :: "string option"

record track_report =
  tk_key :: string
  tk_duration :: int
  tk_stores :: "store_report list"

definition owned_stores :: "store_item list \<Rightarrow> store_item list" where
  "owned_stores all_stores = filter (\<lambda>s. st_active s \<and> st_engine s = Some Engine_Ts) all_stores"

definition track_key :: "store_item \<Rightarrow> string" where
  "track_key s = (case st_group s of Some g \<Rightarrow> g | None \<Rightarrow> st_id s)"

definition build_tracks :: "store_item list \<Rightarrow> store_item list list" where
  "build_tracks stores = map snd (js_group_by track_key stores)"

definition skip_report :: "store_item \<Rightarrow> int \<Rightarrow> sync_error \<Rightarrow> store_report" where
  "skip_report s ms e = \<lparr>rp_slug = st_slug s, rp_duration = ms, rp_outcome = None, rp_skip = Some e, rp_log_file = None\<rparr>"

definition ran_report :: "store_item \<Rightarrow> int \<Rightarrow> sync_outcome \<Rightarrow> string option \<Rightarrow> store_report" where
  "ran_report s ms oc f = \<lparr>rp_slug = st_slug s, rp_duration = ms, rp_outcome = Some oc, rp_skip = None, rp_log_file = f\<rparr>"

section \<open>The summary of a full sync\<close>

datatype summary_line =
    Line_Skipped string int "sync_error option"
  | Line_Failed string int "sync_failure option" "string option"
  | Line_Ok string int int int int "string option"

definition summary_line :: "store_report \<Rightarrow> summary_line" where
  "summary_line r =
     (case rp_outcome r of
        None \<Rightarrow> Line_Skipped (rp_slug r) (rp_duration r) (rp_skip r)
      | Some oc \<Rightarrow>
          if \<not> oc_success oc then Line_Failed (rp_slug r) (rp_duration r) (oc_error oc) (rp_log_file r)
          else Line_Ok (rp_slug r) (rp_duration r) (oc_total oc) (oc_added oc) (oc_removed oc) (rp_log_file r))"

definition run_totals :: "track_report list \<Rightarrow> nat \<times> nat \<times> nat \<times> nat \<times> log_level" where
  \<comment> \<open>stores, ok, failed, skipped, and the level of the closing line\<close>
  "run_totals tracks =
     (let stores = concat (map tk_stores tracks);
          failed = filter (\<lambda>r. case rp_outcome r of None \<Rightarrow> False | Some oc \<Rightarrow> \<not> oc_success oc) stores;
          skipped = filter (\<lambda>r. rp_outcome r = None) stores
      in (length stores, length stores - length failed - length skipped, length failed, length skipped,
          if length failed + length skipped > 0 then Log_Warning else Log_Info))"

section \<open>Sweeping orphaned runs\<close>

definition orphan_age_ms :: "sync_config \<Rightarrow> int" where
  "orphan_age_ms cf = max (store_timeout_ms cf) (browser_store_timeout_ms cf) + sync_orphan_age_margin_ms"

definition on_module_init :: "sync_config \<Rightarrow> bool \<Rightarrow> int \<Rightarrow> heartbeats \<Rightarrow> string \<Rightarrow> sync_row list \<Rightarrow> nat \<times> sync_row list" where
  \<comment> \<open>whether the liveness store answers, the time, and the booting instance\<close>
  "on_module_init cf answers now h self t = sweep_orphaned now (alive_owners answers now h self t) (orphan_age_ms cf) t"

section \<open>The tick of a schedule\<close>

definition cron_lock_ttl_sec :: int where "cron_lock_ttl_sec = 300"

type_synonym claims = "string \<Rightarrow> (string \<times> int) option"

definition claim :: "bool \<Rightarrow> int \<Rightarrow> string \<Rightarrow> string \<Rightarrow> claims \<Rightarrow> bool \<times> claims" where
  \<comment> \<open>whether the store answers, the time, the instance and the job: \<open>SET key id EX ttl NX\<close>\<close>
  "claim answers now self job c =
     (if \<not> answers then (True, c)
      else case c job of
             Some (_, expires) \<Rightarrow>
               if now < expires then (False, c) else (True, c(job \<mapsto> (self, now + cron_lock_ttl_sec * 1000)))
           | None \<Rightarrow> (True, c(job \<mapsto> (self, now + cron_lock_ttl_sec * 1000))))"

lemma claimed_once:
  assumes "claim True now self job c = (True, c')" and "now \<le> later" and "later < now + cron_lock_ttl_sec * 1000"
  shows "claim True later other job c' = (False, c')"
  using assms by (auto simp: claim_def split: option.splits if_splits)

end
