(* ===== verification/Sync_Fleet.thy ===== *)
theory Sync_Fleet
  imports Sync_Orchestrator
begin

text \<open>
  The instances of the backend over one \<open>sync_log\<close> table, and a full sync among them.  Each of their
  statements is one step; what a run does between two statements is not seen by the others.  A run that
  fails to write its closing statement, or whose process dies, is lost and leaves its row open.  What the
  design assumes of its surroundings is a guard of the step that needs it: a run ends before the orphan
  age, and a liveness answer names the owner of every live run.
\<close>

section \<open>Runs and their locks\<close>

record live_run =
  lr_id :: nat
  lr_owner :: string
  lr_lock :: lock_key
  lr_started :: int

record fleet =
  fl_now :: int
  fl_next :: nat
  fl_stores :: "store_item list"
  fl_log :: "sync_row list"
  fl_runs :: "live_run list"

definition new_run :: "string \<Rightarrow> sync_row \<Rightarrow> live_run" where
  "new_run self row = \<lparr>lr_id = sl_id row, lr_owner = self, lr_lock = row_lock row, lr_started = sl_created row\<rparr>"

definition drop_run :: "nat \<Rightarrow> live_run list \<Rightarrow> live_run list" where
  "drop_run i runs = filter (\<lambda>r. lr_id r \<noteq> i) runs"

inductive fleet_step :: "sync_config \<Rightarrow> fleet \<Rightarrow> fleet \<Rightarrow> bool" for cf where
  Tick: "fl_now s \<le> now \<Longrightarrow> \<forall>r\<in>set (fl_runs s). now \<le> lr_started r + orphan_age_ms cf
      \<Longrightarrow> fleet_step cf s (s\<lparr>fl_now := now\<rparr>)"
| Edit_Stores: "fleet_step cf s (s\<lparr>fl_stores := stores\<rparr>)"
| Start: "acquire_run (fl_now s) (fl_next s) self file_name (fl_stores s) store trigger (fl_log s) = (Inr row, lg)
      \<Longrightarrow> fleet_step cf s (s\<lparr>fl_next := Suc (fl_next s), fl_log := lg, fl_runs := new_run self row # fl_runs s\<rparr>)"
| Refused: "acquire_run (fl_now s) (fl_next s) self file_name (fl_stores s) store trigger (fl_log s) = (Inl e, lg)
      \<Longrightarrow> fleet_step cf s (s\<lparr>fl_next := Suc (fl_next s), fl_log := lg\<rparr>)"
| Touch: "fleet_step cf s (s\<lparr>fl_log := touch_row (fl_now s) i n (fl_log s)\<rparr>)"
| Finish: "r \<in> set (fl_runs s)
      \<Longrightarrow> run_store_sync cf store (lr_id r) trigger ending True run_at (fl_now s) (fl_log s) = (out, metrics, lg)
      \<Longrightarrow> fleet_step cf s (s\<lparr>fl_log := lg, fl_runs := drop_run (lr_id r) (fl_runs s)\<rparr>)"
| Lost: "fleet_step cf s (s\<lparr>fl_runs := drop_run i (fl_runs s)\<rparr>)"
| Boot: "\<forall>r\<in>set (fl_runs s). alive_at (fl_now s) h (lr_owner r)
      \<Longrightarrow> fleet_step cf s (s\<lparr>fl_log := snd (on_module_init cf answers (fl_now s) h self (fl_log s))\<rparr>)"

definition fleet_ok :: "sync_config \<Rightarrow> fleet \<Rightarrow> bool" where
  "fleet_ok cf s \<longleftrightarrow>
     distinct (map sl_id (fl_log s)) \<and> (\<forall>r\<in>set (fl_log s). sl_id r < fl_next s)
     \<and> distinct (map row_lock (filter open_row (fl_log s)))
     \<and> distinct (map lr_id (fl_runs s))
     \<and> (\<forall>r\<in>set (fl_runs s). fl_now s \<le> lr_started r + orphan_age_ms cf \<and> lr_started r \<le> fl_now s
         \<and> (\<exists>row\<in>set (fl_log s). sl_id row = lr_id r \<and> open_row row \<and> row_lock row = lr_lock r
              \<and> sl_owner row = Some (lr_owner r) \<and> lr_started r \<le> sl_updated_at row))"

definition empty_fleet :: "store_item list \<Rightarrow> int \<Rightarrow> fleet" where
  "empty_fleet stores now = \<lparr>fl_now = now, fl_next = 0, fl_stores = stores, fl_log = [], fl_runs = []\<rparr>"

section \<open>A full sync\<close>

datatype leg = Idle | Resolved store_item int | Holding store_item nat int "string option"

record track =
  tr_key :: string
  tr_began :: int
  tr_todo :: "store_item list"
  tr_leg :: leg
  tr_reports :: "store_report list"

record full_run =
  fr_waiting :: "store_item list list list"
  fr_tracks :: "track list"
  fr_reports :: "track_report list"

definition open_track :: "int \<Rightarrow> store_item list \<Rightarrow> track" where
  "open_track now stores =
     \<lparr>tr_key = (case st_group (hd stores) of Some g \<Rightarrow> g | None \<Rightarrow> st_slug (hd stores)), tr_began = now,
      tr_todo = stores, tr_leg = Idle, tr_reports = []\<rparr>"

definition start_full_sync :: "sync_config \<Rightarrow> store_item list \<Rightarrow> full_run" where
  "start_full_sync cf all_stores =
     \<lparr>fr_waiting = chunkify (max_parallel_tracks cf) (build_tracks (owned_stores all_stores)),
      fr_tracks = [], fr_reports = []\<rparr>"

definition report_leg :: "store_report \<Rightarrow> track \<Rightarrow> track" where
  "report_leg rp tr = tr\<lparr>tr_todo := tl (tr_todo tr), tr_leg := Idle, tr_reports := tr_reports tr @ [rp]\<rparr>"

inductive leg_step :: "sync_config \<Rightarrow> string \<Rightarrow> track \<times> fleet \<Rightarrow> track \<times> fleet \<Rightarrow> bool" for cf self where
  Resolve: "tr_leg tr = Idle \<Longrightarrow> tr_todo tr = store # rest \<Longrightarrow> resolve_syncable (fl_stores s) (st_slug store) = Inr fresh
      \<Longrightarrow> began \<le> fl_now s \<Longrightarrow> leg_step cf self (tr, s) (tr\<lparr>tr_leg := Resolved fresh began\<rparr>, s)"
| Unsyncable: "tr_leg tr = Idle \<Longrightarrow> tr_todo tr = store # rest \<Longrightarrow> resolve_syncable (fl_stores s) (st_slug store) = Inl e
      \<Longrightarrow> began \<le> fl_now s \<Longrightarrow> leg_step cf self (tr, s) (report_leg (skip_report store (fl_now s - began) e) tr, s)"
| Unread: "tr_leg tr = Idle \<Longrightarrow> tr_todo tr = store # rest \<Longrightarrow> began \<le> fl_now s
      \<Longrightarrow> leg_step cf self (tr, s) (report_leg (skip_report store (fl_now s - began) (Db_Failed (st_slug store))) tr, s)"
| Acquire: "tr_leg tr = Resolved fresh began
      \<Longrightarrow> acquire_run (fl_now s) (fl_next s) self file_name (fl_stores s) fresh Trigger_Cron (fl_log s) = (Inr row, lg)
      \<Longrightarrow> leg_step cf self (tr, s) (tr\<lparr>tr_leg := Holding fresh (sl_id row) began (sl_log_file row)\<rparr>,
            s\<lparr>fl_next := Suc (fl_next s), fl_log := lg, fl_runs := new_run self row # fl_runs s\<rparr>)"
| Locked: "tr_leg tr = Resolved fresh began \<Longrightarrow> tr_todo tr = store # rest
      \<Longrightarrow> acquire_run (fl_now s) (fl_next s) self file_name (fl_stores s) fresh Trigger_Cron (fl_log s) = (Inl e, lg)
      \<Longrightarrow> leg_step cf self (tr, s) (report_leg (skip_report store (fl_now s - began) e) tr,
            s\<lparr>fl_next := Suc (fl_next s), fl_log := lg\<rparr>)"
| Unlocked: "tr_leg tr = Resolved fresh began \<Longrightarrow> tr_todo tr = store # rest
      \<Longrightarrow> leg_step cf self (tr, s) (report_leg (skip_report store (fl_now s - began) (Db_Failed (st_slug store))) tr, s)"
| Close: "tr_leg tr = Holding fresh i began f \<Longrightarrow> tr_todo tr = store # rest
      \<Longrightarrow> run_store_sync cf fresh i Trigger_Cron ending True run_at (fl_now s) (fl_log s) = (Inr oc, metrics, lg)
      \<Longrightarrow> leg_step cf self (tr, s) (report_leg (ran_report store (fl_now s - began) oc f) tr,
            s\<lparr>fl_log := lg, fl_runs := drop_run i (fl_runs s)\<rparr>)"
| Unclosed: "tr_leg tr = Holding fresh i began f \<Longrightarrow> tr_todo tr = store # rest
      \<Longrightarrow> run_store_sync cf fresh i Trigger_Cron ending False run_at (fl_now s) (fl_log s) = (Inl e, metrics, lg)
      \<Longrightarrow> leg_step cf self (tr, s) (report_leg (skip_report store (fl_now s - began) e) tr,
            s\<lparr>fl_runs := drop_run i (fl_runs s)\<rparr>)"

definition held_ids :: "full_run \<Rightarrow> nat set" where
  "held_ids fr = {i. \<exists>tr\<in>set (fr_tracks fr). \<exists>st began f. tr_leg tr = Holding st i began f}"

definition keeps_runs :: "nat set \<Rightarrow> fleet \<Rightarrow> fleet \<Rightarrow> bool" where
  \<comment> \<open>a step of the others does not end the runs in question\<close>
  "keeps_runs ids s s' \<longleftrightarrow> (\<forall>r\<in>set (fl_runs s). lr_id r \<in> ids \<longrightarrow> r \<in> set (fl_runs s'))"

inductive full_step :: "sync_config \<Rightarrow> string \<Rightarrow> full_run \<times> fleet \<Rightarrow> full_run \<times> fleet \<Rightarrow> bool" for cf self where
  Open_Chunk: "fr_tracks fr = [] \<Longrightarrow> fr_waiting fr = chunk # rest
      \<Longrightarrow> full_step cf self (fr, s) (fr\<lparr>fr_waiting := rest, fr_tracks := map (open_track (fl_now s)) chunk\<rparr>, s)"
| Track: "fr_tracks fr = pre @ tr # post \<Longrightarrow> leg_step cf self (tr, s) (tr', s')
      \<Longrightarrow> full_step cf self (fr, s) (fr\<lparr>fr_tracks := pre @ tr' # post\<rparr>, s')"
| Close_Chunk: "fr_tracks fr \<noteq> [] \<Longrightarrow> \<forall>tr\<in>set (fr_tracks fr). tr_todo tr = []
      \<Longrightarrow> full_step cf self (fr, s) (fr\<lparr>fr_tracks := [], fr_reports := fr_reports fr @
            map (\<lambda>tr. \<lparr>tk_key = tr_key tr, tk_duration = fl_now s - tr_began tr, tk_stores = tr_reports tr\<rparr>) (fr_tracks fr)\<rparr>, s)"
| Others: "fleet_step cf s s' \<Longrightarrow> keeps_runs (held_ids fr) s s' \<Longrightarrow> full_step cf self (fr, s) (fr, s')"

definition full_done :: "full_run \<Rightarrow> bool" where
  "full_done fr = (fr_waiting fr = [] \<and> fr_tracks fr = [])"

end
