(* ===== verification/Sync_Fleet_Facts.thy ===== *)
theory Sync_Fleet_Facts
  imports Sync_Fleet
begin

text \<open>
  What the lock of the sync log achieves: two live runs never share a group or a store, whatever the
  instances interleave and whoever boots; and what a full sync reports: each owned store once, with an
  outcome exactly when its row was closed with it.
\<close>

section \<open>The rows of live runs\<close>

definition run_row :: "sync_row list \<Rightarrow> live_run \<Rightarrow> bool" where
  "run_row t r \<longleftrightarrow> (\<exists>row\<in>set t. sl_id row = lr_id r \<and> open_row row \<and> row_lock row = lr_lock r
     \<and> sl_owner row = Some (lr_owner r) \<and> lr_started r \<le> sl_updated_at row)"

lemma fleet_okD:
  assumes "fleet_ok cf s"
  shows "distinct (map sl_id (fl_log s))" and "r \<in> set (fl_log s) \<Longrightarrow> sl_id r < fl_next s"
    and "distinct (map row_lock (filter open_row (fl_log s)))" and "distinct (map lr_id (fl_runs s))"
    and "q \<in> set (fl_runs s) \<Longrightarrow> fl_now s \<le> lr_started q + orphan_age_ms cf"
    and "q \<in> set (fl_runs s) \<Longrightarrow> lr_started q \<le> fl_now s"
    and "q \<in> set (fl_runs s) \<Longrightarrow> run_row (fl_log s) q"
  using assms unfolding fleet_ok_def run_row_def by blast+

lemma fleet_okI:
  assumes "distinct (map sl_id (fl_log s))" and "\<And>r. r \<in> set (fl_log s) \<Longrightarrow> sl_id r < fl_next s"
    and "distinct (map row_lock (filter open_row (fl_log s)))" and "distinct (map lr_id (fl_runs s))"
    and "\<And>q. q \<in> set (fl_runs s) \<Longrightarrow> fl_now s \<le> lr_started q + orphan_age_ms cf \<and> lr_started q \<le> fl_now s \<and> run_row (fl_log s) q"
  shows "fleet_ok cf s"
  using assms unfolding fleet_ok_def run_row_def by blast

lemma ids_bound:
  assumes "map sl_id t' = map sl_id t" and "\<And>r. r \<in> set t \<Longrightarrow> sl_id r < n" and "r \<in> set t'"
  shows "sl_id r < n"
proof -
  have "sl_id r \<in> set (map sl_id t')" using assms(3) by simp
  then show ?thesis using assms(1,2) by auto
qed

lemma run_row_touch: "run_row t r \<Longrightarrow> lr_started r \<le> now \<Longrightarrow> run_row (touch_row now i n t) r"
proof -
  assume r: "run_row t r" and now: "lr_started r \<le> now"
  then obtain row where row: "row \<in> set t" "sl_id row = lr_id r" "open_row row" "row_lock row = lr_lock r"
    "sl_owner row = Some (lr_owner r)" "lr_started r \<le> sl_updated_at row"
    unfolding run_row_def by blast
  let ?f = "\<lambda>r. if sl_id r = i then r\<lparr>sl_updated_at := now, sl_total := n\<rparr> else r"
  have "?f row \<in> set (touch_row now i n t)" unfolding touch_row_def using row(1) by force
  then show ?thesis
    unfolding run_row_def using row now by (intro bexI [of _ "?f row"]) (auto simp: open_row_def row_lock_def)
qed

lemma run_row_finish: "run_row t r \<Longrightarrow> lr_id r \<noteq> i \<Longrightarrow> run_row (finish_row now i oc t) r"
  unfolding run_row_def finish_row_def by fastforce

lemma run_row_append: "run_row t r \<Longrightarrow> run_row (t @ u) r"
  unfolding run_row_def by auto

lemma run_row_boot:
  assumes "run_row t r" and "alive_at now h (lr_owner r)" and "now \<le> lr_started r + orphan_age_ms cf"
  shows "run_row (snd (on_module_init cf answers now h self t)) r"
proof -
  obtain row where row: "row \<in> set t" "sl_id row = lr_id r" "open_row row" "row_lock row = lr_lock r"
    "sl_owner row = Some (lr_owner r)" "lr_started r \<le> sl_updated_at row"
    using assms(1) unfolding run_row_def by blast
  have "lr_owner r \<in> set (open_owners t)"
    using row(1,3,5) by (auto simp: open_owners_def intro!: bexI [of _ row])
  then have "\<not> owner_gone (alive_owners answers now h self t) row"
    using row(5) assms(2) by (auto simp: owner_gone_def alive_owners_def alive_among_def split: option.splits)
  then have "\<not> orphaned now (alive_owners answers now h self t) (orphan_age_ms cf) row"
    using row(6) assms(3) by (simp add: orphaned_def)
  then have "row \<in> set (snd (on_module_init cf answers now h self t))"
    using row(1) by (force simp: on_module_init_def sweep_orphaned_def)
  then show ?thesis unfolding run_row_def using row by blast
qed

lemma distinct_map_filter_sub: "distinct (map f (filter P xs)) \<Longrightarrow> (\<And>x. Q x \<Longrightarrow> P x) \<Longrightarrow> distinct (map f (filter Q xs))"
  by (induction xs) (auto split: if_splits)

lemma acquire_runD:
  assumes "acquire_run now i self file_name stores store trigger t = (Inr row, t')"
  shows "try_start now i (st_id store) (st_group store) trigger (file_name (st_slug store)) (Some self) t = (Some row, t')"
  using assms by (auto simp: acquire_run_def split: option.splits prod.splits)

lemma acquire_run_refused:
  "acquire_run now i self file_name stores store trigger t = (Inl e, t') \<Longrightarrow> t' = t"
  by (auto simp: acquire_run_def split: option.splits prod.splits dest: try_start_refused)

lemma set_drop_run: "q \<in> set (drop_run i runs) \<longleftrightarrow> q \<in> set runs \<and> lr_id q \<noteq> i"
  by (auto simp: drop_run_def)

lemma distinct_drop_run: "distinct (map lr_id runs) \<Longrightarrow> distinct (map lr_id (drop_run i runs))"
  by (simp add: drop_run_def distinct_map_filter)

lemma fleet_step_ok:
  assumes "fleet_step cf s s'" and "fleet_ok cf s" and "0 \<le> store_timeout_ms cf"
  shows "fleet_ok cf s'"
proof -
  have age: "0 \<le> orphan_age_ms cf" using assms(3) by (simp add: orphan_age_ms_def sync_orphan_age_margin_ms_def)
  note ok = fleet_okD [OF assms(2)]
  from assms(1) show ?thesis
  proof cases
    case (Tick now)
    then show ?thesis using ok by (intro fleet_okI) (auto intro: order_trans [OF ok(6) Tick(2)])
  next
    case (Edit_Stores stores)
    then show ?thesis using ok by (intro fleet_okI) auto
  next
    case (Start self file_name store trigger row lg)
    note row = try_start_lock [OF acquire_runD [OF Start(2)]]
    have fresh: "fl_next s \<notin> sl_id ` set (fl_log s)" by (auto dest: ok(2))
    have "fl_next s \<noteq> lr_id q" if q: "q \<in> set (fl_runs s)" for q
    proof -
      obtain r where "r \<in> set (fl_log s)" "sl_id r = lr_id q" using ok(7) [OF q] unfolding run_row_def by blast
      then show ?thesis using fresh by (metis imageI)
    qed
    then have "fl_next s \<notin> lr_id ` set (fl_runs s)" by (auto simp: image_iff)
    moreover have "run_row (fl_log s @ [row]) (new_run self row)"
      unfolding run_row_def by (intro bexI [of _ row]) (auto simp: new_run_def row(2,5,6,7))
    ultimately show ?thesis
      unfolding Start(1) using ok fresh row age
      by (intro fleet_okI) (auto simp: new_run_def run_row_append less_SucI)
  next
    case (Refused self file_name store trigger e lg)
    then show ?thesis using ok acquire_run_refused [OF Refused(2)] by (intro fleet_okI) (auto simp: less_SucI)
  next
    case (Touch i n)
    then show ?thesis
      using ok by (intro fleet_okI) (auto simp: touch_locks run_row_touch intro: ids_bound [OF ids_touch ok(2)])
  next
    case (Finish r store trigger ending run_at out metrics lg)
    then obtain oc where lg: "lg = finish_row (fl_now s) (lr_id r) oc (fl_log s)"
      by (auto simp: run_store_sync_def Let_def)
    show ?thesis
      unfolding Finish(1) lg using ok
      by (intro fleet_okI)
        (auto simp: finish_locks run_row_finish set_drop_run distinct_drop_run intro: ids_bound [OF ids_finish ok(2)]
          distinct_map_filter_sub)
  next
    case (Lost i)
    then show ?thesis using ok by (intro fleet_okI) (auto simp: set_drop_run distinct_drop_run)
  next
    case (Boot h answers self)
    let ?t = "snd (on_module_init cf answers (fl_now s) h self (fl_log s))"
    have ids: "map sl_id ?t = map sl_id (fl_log s)" by (simp add: on_module_init_def)
    have locks: "distinct (map row_lock (filter open_row ?t))"
      unfolding on_module_init_def sweep_locks by (rule distinct_map_filter_sub [OF ok(3)]) simp
    show ?thesis
      unfolding Boot(1) using ok Boot(2) ids locks run_row_boot
      by (intro fleet_okI) (auto intro: ids_bound [OF ids ok(2)])
  qed
qed

lemma fleet_steps_ok: "(fleet_step cf)\<^sup>*\<^sup>* s s' \<Longrightarrow> fleet_ok cf s \<Longrightarrow> 0 \<le> store_timeout_ms cf \<Longrightarrow> fleet_ok cf s'"
  by (induction rule: rtranclp_induct) (auto intro: fleet_step_ok)

lemma live_runs_locks:
  assumes "fleet_ok cf s"
  shows "distinct (map lr_lock (fl_runs s))"
proof -
  note ok = fleet_okD [OF assms]
  have "lr_id q = lr_id r" if q: "q \<in> set (fl_runs s)" and r: "r \<in> set (fl_runs s)" and l: "lr_lock q = lr_lock r" for q r
  proof -
    obtain a b where ab: "a \<in> set (filter open_row (fl_log s))" "sl_id a = lr_id q" "row_lock a = lr_lock q"
      "b \<in> set (filter open_row (fl_log s))" "sl_id b = lr_id r" "row_lock b = lr_lock r"
      using ok(7) [OF q] ok(7) [OF r] unfolding run_row_def by auto
    then have "a = b" using ok(3) l by (auto simp: distinct_map inj_on_def)
    then show ?thesis using ab by simp
  qed
  moreover have "distinct (fl_runs s)" "inj_on lr_id (set (fl_runs s))" using ok(4) by (simp_all add: distinct_map)
  ultimately have "inj_on lr_lock (set (fl_runs s))" by (blast intro: inj_onI dest: inj_onD)
  then show ?thesis using \<open>distinct (fl_runs s)\<close> by (simp add: distinct_map)
qed


text \<open>Two stores of one group: once the first runs, the second cannot.\<close>

definition group_store :: "string \<Rightarrow> store_item" where
  "group_store i = \<lparr>st_id = i, st_slug = i, st_name = i, st_base_url = [], st_active = True, st_tier = Some 1,
     st_needs_browser = None, st_group = Some ''g'', st_engine = Some Engine_Ts\<rparr>"

definition sync_defaults :: sync_config where
  "sync_defaults = \<lparr>max_parallel_tracks = 4, store_timeout_ms = 1200000, browser_store_timeout_ms = 2700000,
     llm_deadline_margin_ms = 120000\<rparr>"

lemma empty_fleet_ok: "fleet_ok cf (empty_fleet stores now)"
  by (simp add: fleet_ok_def empty_fleet_def)

definition first_row :: sync_row where
  "first_row = \<lparr>sl_id = 0, sl_store = ''a'', sl_group = Some ''g'', sl_trigger = Trigger_Cron, sl_log_file = None,
     sl_owner = Some ''one'', sl_success = None, sl_error = None, sl_added = 0, sl_removed = 0, sl_updated = 0, sl_total = 0,
     sl_created = 5, sl_updated_at = 5, sl_finished = None\<rparr>"

definition held_fleet :: "store_item list \<Rightarrow> fleet" where
  "held_fleet stores = (empty_fleet stores 5)\<lparr>fl_next := 1, fl_log := [first_row], fl_runs := [new_run ''one'' first_row]\<rparr>"

lemma first_row_acquired:
  "acquire_run 5 0 ''one'' (\<lambda>_. None) stores (group_store ''a'') Trigger_Cron [] = (Inr first_row, [first_row])"
  by (simp add: acquire_run_def try_start_def group_store_def first_row_def Let_def)


section \<open>A full sync among the others\<close>

definition rows_persist :: "sync_row list \<Rightarrow> sync_row list \<Rightarrow> bool" where
  \<comment> \<open>every row is still there, and a closed one as it was closed\<close>
  "rows_persist t t' \<longleftrightarrow> (\<forall>row\<in>set t. \<exists>row'\<in>set t'. sl_id row' = sl_id row \<and> sl_log_file row' = sl_log_file row
     \<and> (\<not> open_row row \<longrightarrow> sl_success row' = sl_success row \<and> sl_error row' = sl_error row \<and> sl_finished row' = sl_finished row))"

lemma rows_persist_refl [simp]: "rows_persist t t"
  unfolding rows_persist_def by blast

lemma rows_persist_map:
  assumes "\<And>r. r \<in> set t \<Longrightarrow> sl_id (f r) = sl_id r \<and> sl_log_file (f r) = sl_log_file r
    \<and> (\<not> open_row r \<longrightarrow> sl_success (f r) = sl_success r \<and> sl_error (f r) = sl_error r \<and> sl_finished (f r) = sl_finished r)"
  shows "rows_persist t (map f t)"
  unfolding rows_persist_def using assms by auto

lemma fleet_step_persists:
  assumes "fleet_step cf s s'" and "fleet_ok cf s"
  shows "rows_persist (fl_log s) (fl_log s')"
  using assms(1)
proof cases
  case (Start self file_name store trigger row lg)
  then show ?thesis using try_start_lock(1) [OF acquire_runD [OF Start(2)]] unfolding rows_persist_def by auto
next
  case (Refused self file_name store trigger e lg)
  then show ?thesis using acquire_run_refused [OF Refused(2)] by simp
next
  case (Touch i n)
  then show ?thesis unfolding touch_row_def by (auto intro: rows_persist_map)
next
  case (Finish r store trigger ending run_at out metrics lg)
  obtain oc where lg: "lg = finish_row (fl_now s) (lr_id r) oc (fl_log s)"
    using Finish(3) by (auto simp: run_store_sync_def Let_def)
  obtain row where row: "row \<in> set (fl_log s)" "sl_id row = lr_id r" "open_row row"
    using fleet_okD(7) [OF assms(2) Finish(2)] unfolding run_row_def by blast
  have "open_row q" if "q \<in> set (fl_log s)" "sl_id q = lr_id r" for q
    using that row fleet_okD(1) [OF assms(2)] by (auto simp: distinct_map inj_on_def)
  then show ?thesis unfolding Finish(1) lg finish_row_def by (auto intro!: rows_persist_map)
next
  case (Boot h answers self)
  then show ?thesis
    by (auto simp: on_module_init_def sweep_orphaned_def orphaned_def intro!: rows_persist_map)
qed simp_all

definition closed_report :: "sync_row list \<Rightarrow> store_report \<Rightarrow> bool" where
  \<comment> \<open>an outcome is that of a closed row, whose log file the report names; without one there is a reason\<close>
  "closed_report t rp \<longleftrightarrow> (case rp_outcome rp of
       None \<Rightarrow> rp_skip rp \<noteq> None
     | Some oc \<Rightarrow> \<exists>row\<in>set t. sl_log_file row = rp_log_file rp \<and> sl_success row = Some (oc_success oc)
         \<and> sl_error row = oc_error oc \<and> sl_finished row \<noteq> None)"

lemma closed_report_persists: "closed_report t rp \<Longrightarrow> rows_persist t t' \<Longrightarrow> closed_report t' rp"
  unfolding closed_report_def rows_persist_def open_row_def by (cases "rp_outcome rp") (simp_all, metis option.distinct(1))

definition held_id :: "track \<Rightarrow> nat list" where
  "held_id tr = (case tr_leg tr of Holding _ i _ _ \<Rightarrow> [i] | _ \<Rightarrow> [])"

definition track_ok :: "fleet \<Rightarrow> track \<Rightarrow> bool" where
  "track_ok s tr \<longleftrightarrow> (tr_leg tr \<noteq> Idle \<longrightarrow> tr_todo tr \<noteq> [])
     \<and> (\<forall>st i b f. tr_leg tr = Holding st i b f \<longrightarrow>
          (\<exists>q\<in>set (fl_runs s). lr_id q = i) \<and> (\<exists>row\<in>set (fl_log s). sl_id row = i \<and> sl_log_file row = f))
     \<and> (\<forall>rp\<in>set (tr_reports tr). closed_report (fl_log s) rp)"

lemma track_ok_others:
  assumes "track_ok s tr" and "rows_persist (fl_log s) (fl_log s')" and "keeps_runs (set (held_id tr)) s s'"
  shows "track_ok s' tr"
proof -
  have "(\<exists>q\<in>set (fl_runs s'). lr_id q = i) \<and> (\<exists>row\<in>set (fl_log s'). sl_id row = i \<and> sl_log_file row = f)"
    if leg: "tr_leg tr = Holding st i b f" for st i b f
  proof
    obtain q row where q: "q \<in> set (fl_runs s)" "lr_id q = i"
      and row: "row \<in> set (fl_log s)" "sl_id row = i" "sl_log_file row = f"
      using assms(1) leg unfolding track_ok_def by blast
    show "\<exists>q\<in>set (fl_runs s'). lr_id q = i"
      using assms(3) q leg unfolding keeps_runs_def held_id_def by auto
    show "\<exists>row\<in>set (fl_log s'). sl_id row = i \<and> sl_log_file row = f"
      using assms(2) row unfolding rows_persist_def by metis
  qed
  then show ?thesis
    using assms(1) closed_report_persists [OF _ assms(2)] unfolding track_ok_def by blast
qed

lemma leg_step_fleet:
  assumes "leg_step cf self (tr, s) (tr', s')" and "track_ok s tr"
  shows "s' = s \<or> fleet_step cf s s'"
    and "keeps_runs (- set (held_id tr)) s s'"
    and "set (held_id tr') \<subseteq> set (held_id tr) \<union> {fl_next s}"
    and "map rp_slug (tr_reports tr') @ map st_slug (tr_todo tr') = map rp_slug (tr_reports tr) @ map st_slug (tr_todo tr)"
proof -
  have "(s' = s \<or> fleet_step cf s s') \<and> keeps_runs (- set (held_id tr)) s s' \<and> set (held_id tr') \<subseteq> set (held_id tr) \<union> {fl_next s}
    \<and> map rp_slug (tr_reports tr') @ map st_slug (tr_todo tr') = map rp_slug (tr_reports tr) @ map st_slug (tr_todo tr)"
    using assms(1)
  proof cases
    case (Acquire fresh began file_name row lg)
    then show ?thesis
      using fleet_step.Start [OF Acquire(4)] try_start_lock(3) [OF acquire_runD [OF Acquire(4)]]
      by (auto simp: keeps_runs_def held_id_def)
  next
    case (Locked fresh began store rest file_name e lg)
    then show ?thesis
      using fleet_step.Refused [OF Locked(5)] by (auto simp: keeps_runs_def held_id_def report_leg_def skip_report_def)
  next
    case (Close fresh i began f store rest ending run_at oc metrics lg)
    obtain q where q: "q \<in> set (fl_runs s)" "lr_id q = i" using assms(2) Close(3) unfolding track_ok_def by blast
    have "run_store_sync cf fresh (lr_id q) Trigger_Cron ending True run_at (fl_now s) (fl_log s) = (Inr oc, metrics, lg)"
      using Close(5) q(2) by simp
    from fleet_step.Finish [OF q(1) this] show ?thesis
      using Close q by (auto simp: keeps_runs_def held_id_def report_leg_def ran_report_def set_drop_run)
  next
    case (Unclosed fresh i began f store rest ending run_at e metrics lg)
    then show ?thesis
      using fleet_step.Lost [of cf s i]
      by (auto simp: keeps_runs_def held_id_def report_leg_def skip_report_def set_drop_run)
  qed (auto simp: keeps_runs_def held_id_def report_leg_def skip_report_def)
  then show "s' = s \<or> fleet_step cf s s'" "keeps_runs (- set (held_id tr)) s s'"
    "set (held_id tr') \<subseteq> set (held_id tr) \<union> {fl_next s}"
    "map rp_slug (tr_reports tr') @ map st_slug (tr_todo tr') = map rp_slug (tr_reports tr) @ map st_slug (tr_todo tr)"
    by blast+
qed

lemma finish_row_closes:
  assumes "row \<in> set t" and "sl_id row = i"
  shows "\<exists>r\<in>set (finish_row now i oc t). sl_id r = i \<and> sl_log_file r = sl_log_file row \<and> sl_success r = Some (oc_success oc)
    \<and> sl_error r = oc_error oc \<and> sl_finished r \<noteq> None"
proof -
  let ?f = "\<lambda>r. if sl_id r = i then r\<lparr>sl_finished := Some now, sl_updated_at := now, sl_success := Some (oc_success oc),
    sl_error := oc_error oc, sl_added := oc_added oc, sl_removed := oc_removed oc, sl_updated := oc_updated oc,
    sl_total := oc_total oc\<rparr> else r"
  have "?f row \<in> set (finish_row now i oc t)" unfolding finish_row_def set_map using assms(1) by (rule imageI)
  then show ?thesis using assms(2) by (intro bexI [of _ "?f row"]) simp_all
qed

lemma leg_step_own:
  assumes "leg_step cf self (tr, s) (tr', s')" and "track_ok s tr" and "fleet_ok cf s"
  shows "track_ok s' tr'"
proof -
  have persist: "rows_persist (fl_log s) (fl_log s')"
    using leg_step_fleet(1) [OF assms(1,2)] fleet_step_persists assms(3) by auto
  have reports: "\<forall>rp\<in>set (tr_reports tr). closed_report (fl_log s') rp"
    using assms(2) closed_report_persists [OF _ persist] unfolding track_ok_def by blast
  from assms(1) show ?thesis
  proof cases
    case (Acquire fresh began file_name row lg)
    note row = try_start_lock [OF acquire_runD [OF Acquire(4)]]
    show ?thesis
      using assms(2) reports row(1,3) unfolding track_ok_def Acquire(1,2) by (auto simp: new_run_def Acquire(3))
  next
    case (Close fresh i began f store rest ending run_at oc metrics lg)
    obtain row where row: "row \<in> set (fl_log s)" "sl_id row = i" "sl_log_file row = f"
      using assms(2) Close(3) unfolding track_ok_def by blast
    have lg: "lg = finish_row (fl_now s) i oc (fl_log s)" using Close(5) by (auto simp: run_store_sync_def Let_def)
    have "closed_report lg (ran_report store (fl_now s - began) oc f)"
      using finish_row_closes [OF row(1,2), of "fl_now s" oc] row(3) by (auto simp: closed_report_def lg ran_report_def)
    then show ?thesis using reports unfolding track_ok_def Close(1,2) by (simp add: report_leg_def)
  qed (use assms(2) reports in \<open>auto simp: track_ok_def report_leg_def skip_report_def closed_report_def\<close>)
qed

definition slugs_of :: "full_run \<Rightarrow> string list list" where
  \<comment> \<open>the stores of every track, those reported before those to come\<close>
  "slugs_of fr =
     map (\<lambda>tk. map rp_slug (tk_stores tk)) (fr_reports fr)
     @ map (\<lambda>tr. map rp_slug (tr_reports tr) @ map st_slug (tr_todo tr)) (fr_tracks fr)
     @ map (map st_slug) (concat (fr_waiting fr))"

definition full_ok :: "sync_config \<Rightarrow> string list list \<Rightarrow> full_run \<times> fleet \<Rightarrow> bool" where
  "full_ok cf slugs x \<longleftrightarrow> (case x of (fr, s) \<Rightarrow>
     fleet_ok cf s \<and> slugs_of fr = slugs
     \<and> (\<forall>tr\<in>set (fr_tracks fr). track_ok s tr) \<and> distinct (concat (map held_id (fr_tracks fr)))
     \<and> length (fr_tracks fr) \<le> max_parallel_tracks cf \<and> (\<forall>chunk\<in>set (fr_waiting fr). length chunk \<le> max_parallel_tracks cf)
     \<and> (\<forall>tk\<in>set (fr_reports fr). \<forall>rp\<in>set (tk_stores tk). closed_report (fl_log s) rp))"

lemma held_id_iff: "i \<in> set (held_id tr) \<longleftrightarrow> (\<exists>st b f. tr_leg tr = Holding st i b f)"
  by (cases "tr_leg tr") (auto simp: held_id_def)

lemma held_below:
  assumes "track_ok s tr" and "fleet_ok cf s" and "i \<in> set (held_id tr)"
  shows "i < fl_next s"
proof -
  obtain row where "row \<in> set (fl_log s)" "sl_id row = i"
    using assms(1,3) unfolding track_ok_def held_id_iff by blast
  then show ?thesis using fleet_okD(2) [OF assms(2)] by blast
qed

lemma held_ids_set: "held_ids fr = set (concat (map held_id (fr_tracks fr)))"
  by (auto simp: held_ids_def held_id_iff)

lemma open_track_simps [simp]:
  "tr_todo (open_track now st) = st" "tr_reports (open_track now st) = []" "tr_leg (open_track now st) = Idle"
  "held_id (open_track now st) = []" "track_ok s (open_track now st)"
  by (simp_all add: open_track_def held_id_def track_ok_def)

lemma full_step_track:
  assumes "full_ok cf slugs (fr, s)" and tracks: "fr_tracks fr = pre @ tr # post" and "leg_step cf self (tr, s) (tr', s')"
    and "0 \<le> store_timeout_ms cf"
  shows "full_ok cf slugs (fr\<lparr>fr_tracks := pre @ tr' # post\<rparr>, s')"
proof -
  have inv: "fleet_ok cf s" "slugs_of fr = slugs" "\<forall>x\<in>set (fr_tracks fr). track_ok s x"
    "distinct (concat (map held_id (fr_tracks fr)))" "length (fr_tracks fr) \<le> max_parallel_tracks cf"
    "\<forall>chunk\<in>set (fr_waiting fr). length chunk \<le> max_parallel_tracks cf"
    "\<forall>tk\<in>set (fr_reports fr). \<forall>rp\<in>set (tk_stores tk). closed_report (fl_log s) rp"
    using assms(1) unfolding full_ok_def by auto
  have tr: "track_ok s tr" using inv(3) tracks by simp
  note leg = leg_step_fleet [OF assms(3) tr]
  have fleet: "fleet_ok cf s'" using leg(1) fleet_step_ok [OF _ inv(1) assms(4)] inv(1) by blast
  have persist: "rows_persist (fl_log s) (fl_log s')" using leg(1) fleet_step_persists [OF _ inv(1)] by auto
  have others: "track_ok s' x" if x: "x \<in> set (pre @ post)" for x
  proof (rule track_ok_others [OF _ persist])
    show "track_ok s x" using inv(3) x tracks by auto
    have "set (held_id x) \<inter> set (held_id tr) = {}" using inv(4) x tracks by auto
    then show "keeps_runs (set (held_id x)) s s'" using leg(2) unfolding keeps_runs_def by blast
  qed
  have below: "i < fl_next s" if "x \<in> set (pre @ post)" "i \<in> set (held_id x)" for x i
    using held_below [OF _ inv(1) that(2)] inv(3) that(1) tracks by auto
  have "length (held_id tr') \<le> 1" by (simp add: held_id_def split: leg.splits)
  then have "distinct (held_id tr')" by (cases "held_id tr'") auto
  moreover have "set (held_id tr') \<inter> set (held_id x) = {}" if "x \<in> set (pre @ post)" for x
    using leg(3) below [OF that] inv(4) that tracks by fastforce
  ultimately have "distinct (concat (map held_id (pre @ tr' # post)))"
    using inv(4) tracks by (auto simp: distinct_concat_iff)
  moreover have "slugs_of (fr\<lparr>fr_tracks := pre @ tr' # post\<rparr>) = slugs"
    using inv(2) leg(4) tracks by (simp add: slugs_of_def)
  ultimately show ?thesis
    using fleet others leg_step_own [OF assms(3) tr inv(1)] inv(5,6,7) tracks closed_report_persists [OF _ persist]
    unfolding full_ok_def by auto
qed

lemma full_step_ok:
  assumes "full_step cf self (fr, s) (fr', s')" and "full_ok cf slugs (fr, s)" and "0 \<le> store_timeout_ms cf"
  shows "full_ok cf slugs (fr', s')"
  using assms(1)
proof cases
  case (Open_Chunk chunk rest)
  have "distinct (concat (map (\<lambda>_. []) chunk) :: nat list)" by (induction chunk) auto
  then show ?thesis
    using assms(2) Open_Chunk by (auto simp: full_ok_def slugs_of_def comp_def)
next
  case (Track pre tr post tr')
  then show ?thesis using full_step_track [OF assms(2) Track(2,3) assms(3)] by simp
next
  case Close_Chunk
  have "map (\<lambda>tr. map rp_slug (tr_reports tr) @ map st_slug (tr_todo tr)) (fr_tracks fr)
      = map (\<lambda>tr. map rp_slug (tr_reports tr)) (fr_tracks fr)"
    using Close_Chunk by (intro map_cong) auto
  then show ?thesis
    using assms(2) Close_Chunk by (auto simp: full_ok_def slugs_of_def comp_def track_ok_def)
next
  case Others
  have inv: "fleet_ok cf s" using assms(2) by (simp add: full_ok_def)
  note persist = fleet_step_persists [OF Others(2) inv]
  have "track_ok s' tr" if tr: "tr \<in> set (fr_tracks fr)" for tr
  proof (rule track_ok_others [OF _ persist])
    show "track_ok s tr" using assms(2) tr by (simp add: full_ok_def)
    show "keeps_runs (set (held_id tr)) s s'"
      using Others(3) tr unfolding keeps_runs_def held_ids_set by auto
  qed
  then show ?thesis
    using assms(2) Others fleet_step_ok [OF Others(2) inv assms(3)] closed_report_persists [OF _ persist]
    by (auto simp: full_ok_def)
qed

lemma chunk_length: "chunk \<in> set (js_chunks n k xs) \<Longrightarrow> length chunk \<le> k"
  by (induction n k xs rule: js_chunks.induct) auto

lemma chunkify_chunk: "chunk \<in> set (chunkify k xs) \<Longrightarrow> length chunk \<le> k"
  unfolding chunkify_def by (rule chunk_length)



section \<open>Recovery, and two slips\<close>

text \<open>
  A booting instance that learns the liveness of the owners closes the rows of the dead ones, and their
  locks can be taken again.
\<close>

lemma boot_frees_dead_locks:
  assumes "\<forall>r\<in>set t. open_row r \<longrightarrow> row_lock r = lock_of store grp
      \<longrightarrow> (\<forall>i. sl_owner r = Some i \<longrightarrow> \<not> alive_at now h i \<and> i \<noteq> self)"
  shows "\<exists>row. fst (try_start now n store grp trigger f owner (snd (on_module_init cf True now h self t))) = Some row"
proof -
  have gone: "orphaned now (alive_owners True now h self t) (orphan_age_ms cf) r"
    if "r \<in> set t" "open_row r" "row_lock r = lock_of store grp" for r
    using assms that by (auto simp: orphaned_def owner_gone_def alive_owners_def alive_among_def split: option.splits)
  have "\<not> list_ex (\<lambda>r. open_row r \<and> row_lock r = lock_of store grp) (snd (on_module_init cf True now h self t))"
    using gone by (auto simp: list_ex_iff on_module_init_def sweep_orphaned_def open_row_def row_lock_def split: if_splits)
  then show ?thesis by (simp add: try_start_def row_lock_def Let_def)
qed

text \<open>
  The reporter of an abandoned collection touches the row its run has closed: the total of a finished run
  becomes whatever the abandoned walk reached.
\<close>

lemma late_touch_rewrites_total:
  assumes "row \<in> set t" and "sl_id row = i"
  shows "\<exists>r\<in>set (snd (snd (snd (report_progress now slug i (Ev_Page p a n) (d, finish_row then_at i oc t))))).
    sl_id r = i \<and> sl_success r = Some (oc_success oc) \<and> sl_total r = n"
proof -
  obtain r where r: "r \<in> set (finish_row then_at i oc t)" "sl_id r = i" "sl_success r = Some (oc_success oc)"
    using finish_row_closes [OF assms] by blast
  then show ?thesis
    by (intro bexI [of _ "r\<lparr>sl_updated_at := now, sl_total := n\<rparr>"])
      (auto simp: report_progress_def touch_row_def intro!: image_eqI [of _ _ r])
qed

text \<open>The metric of items an interrupted enrichment left counts those it had enriched as well.\<close>

lemma deadline_metric_counts_all:
  "record_progress slug (Ev_Detail_Deadline done pending) = [Deadline_Skipped slug ''detail'' pending]"
  by simp

end
