(* ===== verification/Spec2Isabelle.thy ===== *)
theory Spec2Isabelle
  imports Preference_Facts Collection_Facts Scrape_Facts Product_Edit_Facts Kb_Claims Auth_Facts Auth_Throttle_Facts Rate_Limit_Facts Report_Endpoint Currency_Sync_Facts Sync_Fleet_Facts
begin

text \<open>
  \<^bold>\<open>A verification library of the whisky price monitor's backend.\<close>

  The program (\<open>src/src\<close>, a NestJS service over PostgreSQL and Valkey) collects the whisky listings of
  Ukrainian shops, files every listing under one canonical bottling, keeps a price per offer and day,
  and answers reports over the result. Its parts and how they meet: a scheduler starts \<^emph>\<open>syncs\<close>, which
  take a lock in \<open>sync_log\<close>; a sync collects a shop and \<^emph>\<open>persists\<close> it into the \<^emph>\<open>catalogue\<close> in one
  transaction, where the \<^emph>\<open>knowledge base\<close> corrects facts and tags; people \<^emph>\<open>edit, merge and review\<close>
  bottlings; every committed write bumps a generation of the \<^emph>\<open>cache\<close>; a \<^emph>\<open>report\<close> is built from the
  current rows, stored in the cache without any caller's preferences, and paged for each caller;
  \<^emph>\<open>currencies\<close> are synced from the national bank and convert prices; \<^emph>\<open>sessions\<close>, permissions, the
  login ladder and the rate limiter stand before every request.

  \<^bold>\<open>How the code is read.\<close> Rows and objects are records, enums are datatypes, a nullable column is an
  option, a table is a list of its rows and a statement a function over the list (theory \<open>Sql\<close>); ids are
  numbers handed out in increasing order. Errors are values of a sum type. JavaScript's arrays, maps,
  stable sort and strings are in \<open>Js_Prelude\<close>, \<open>Js_String\<close> and \<open>Js_Date\<close>; numbers are exact rationals or
  integers, so the rounding of doubles is not modelled, nor is 32-bit wrap-around, which the code
  nowhere relies on. A transaction that throws leaves the state as it was, so its error is the whole result.
  Where several processes or requests interleave, the code is cut at its awaits into steps and the
  theorems range over every sequence of steps (login ladder, rate limiter, cache, sessions, sync fleet).
  What is not under \<open>src/\<close> (the shared store's commands, token signing, hashing, the bank's answers, the
  runtime's Unicode tables and collation) is an argument of the definitions, with the behaviour relied
  on as a named hypothesis or a locale: \<open>valkey_laws\<close>, \<open>entry_laws\<close>, \<open>counter_laws\<close>, \<open>wire_laws\<close>, \<open>session_store\<close>,
  \<open>session_laws\<close>, \<open>token_laws\<close>, \<open>comparator\<close> and \<open>collation\<close>, \<open>paged\<close>, \<open>kb_run\<close>, \<open>bank_law\<close>, \<open>rate_history\<close>. Each is
  interpreted on, or shown to hold of, a concrete instance.

  \<^bold>\<open>Reports.\<close> \<open>Report_Types\<close> is the data (interfaces/report, enums/report); \<open>Offer_Price\<close> is
  utils/offer-price; \<open>Report_Service\<close> builds the five report kinds as domain/report/report.service does;
  \<open>Report_Page\<close> is utils/report-page, the index and the page of a set; \<open>Report_Cache_Key\<close> is
  utils/report-cache-key; \<open>Report_Endpoint\<close> is the request as a whole. \<open>Report_Groups\<close>, \<open>Report_Facts\<close> and
  \<open>Report_Best\<close> show what each report holds (C1 to C8), that pages cover the visible groups in order
  (C10, C11), and what the key distinguishes (C13, C14); C33 joins them with the cache.

  \<^bold>\<open>Cache.\<close> \<open>Valkey\<close> is the client of lib/valkey with failures before and after a command ran;
  \<open>Versioned_Cache\<close> is lib/cache, with its codec and its pages stored in chunks. \<open>Cache_Facts\<close>,
  \<open>Cache_Page_Facts\<close> and \<open>Cache_Theorems\<close>: transparency, freshness after a bump, the round trip of a stored
  set and the bypass after a failed bump (C28 to C31).

  \<^bold>\<open>Who may ask.\<close> \<open>Auth_Session\<close>, \<open>Auth_Token\<close>, \<open>Auth_Service\<close>, \<open>Auth_Guard\<close> and \<open>Auth_Requests\<close> are domain/auth,
  app/context and app/guards; \<open>Auth_Facts\<close> proves rotation, granted routes and where sessions come from
  (C20, C27, C40). \<open>Auth_Throttle\<close> is the login ladder, script included, with \<open>Auth_Throttle_Facts\<close> (C15);
  \<open>Rate_Limit\<close> is app/rate-limit with \<open>Rate_Limit_Facts\<close> (C23 to C25).

  \<^bold>\<open>Currencies.\<close> \<open>Currency_Utils\<close>, \<open>Currency_Rates\<close>, \<open>Currency_Conversion\<close> and \<open>Currency_Sync\<close> are
  utils/currency, core/currency and domain/currency; the facts: the split by year (C34), the filled series
  (C35), batches and their memo (C36), no gaps after a sync (C37).

  \<^bold>\<open>Syncs.\<close> \<open>Sync_Log\<close> is core/sync-log and lib/instance, \<open>Sync_Orchestrator\<close> is
  domain/store/sync-orchestrator, \<open>Sync_Fleet\<close> the instances together: mutual exclusion of live runs (C38)
  and the report of a full sync (C39).

  \<^bold>\<open>Catalogue.\<close> \<open>Catalogue\<close> is the tables with the resolution and creation of bottlings, \<open>Catalogue_Writes\<close> the
  writes of ProductRepository, StoreProductRepository and PriceSnapshotRepository. \<open>Catalogue_Facts\<close> states
  the database's constraints as the invariant \<open>catalogue_ok\<close>, \<open>Catalogue_Evolution\<close> what a scrape may do to a
  row as the relation \<open>evolves\<close>, and \<open>Catalogue_Write_Facts\<close> that every write keeps the one and is a step of
  the other. \<open>Scrape_Persist\<close> is scrape/persist, in the order of its statements, with \<open>Persist_Steps\<close>,
  \<open>Persist_Facts\<close>, \<open>Persist_Listing\<close> and \<open>Persist_Claims\<close> (C12, C18, C22). \<open>Scrape_Listing\<close> is the retrying
  client of scrape/http and the walks over a shop's pages of scrape/adapters, \<open>Scrape_Collect\<close> is
  scrape/scrape.service, and \<open>Scrape_Facts\<close> shows what a sweep proves (C16). \<open>Kb_Resolver\<close> and \<open>Kb_Apply\<close> are
  scrape/kb, with \<open>Kb_Facts\<close>, \<open>Kb_Pass_Facts\<close> and \<open>Kb_Claims\<close> (C9, C26); \<open>Product_Merge\<close> and \<open>Product_Edit\<close>
  are the merge, the edits and the review writes of core/product and domain/product, with
  \<open>Product_Merge_Facts\<close>, \<open>Product_Kept\<close>, \<open>Product_Claims\<close> and \<open>Product_Edit_Facts\<close> (C17, C32).

  \<^bold>\<open>What people keep.\<close> \<open>Preferences\<close> is domain/preference and core/preference: favorites and blacklists, whose
  ids a report is filtered by. \<open>Preference_Facts\<close> shows that the three tables refine a map from users to
  sets and joins them with the report pages (C19). \<open>Collection\<close> is domain/collection and
  core/user-collection: the shelf, its purchases and the range of its statistics; \<open>Collection_Facts\<close> shows
  that a request changes the caller's own row exactly as asked (C21).

  \<^bold>\<open>Bounds and fuel.\<close> No model takes fuel. Loops are structural recursions, or functions whose termination
  is proved by a measure. The split of a range by calendar year is a \<open>partial_function (option)\<close>, so a loop
  that does not end would be \<open>None\<close>, and C34 shows that it returns. The loops over a shared store's scan are
  steps of a trace, so a scan may take as long as it likes.

  \<^bold>\<open>Not modelled.\<close> How a shop's page becomes snapshots (a parameter of the walks), the browser, the Unicode text work of the name
  cleaner, the normaliser and the match key (parameters of \<open>persist_env\<close>), the language-model passes; the
  read-only statements behind the dashboard, the review queue, search and the meta endpoint; producers'
  curation and the whole-catalogue reconciliation of the knowledge base; the aggregates of a collection's
  statistics, messages, push, quick filters and user administration; decorators, DTOs, modules, configuration, metrics, logging,
  migrations, scripts and load tests. In the modelled parts: query plans, locks and deadlocks of
  PostgreSQL, doubles, and the wording of log lines and messages.
\<close>

end
